(* ===== verification/Ordered_Map.thy ===== *)
theory Ordered_Map
  imports Prelude
begin

text \<open>
  The insertion-ordered map the scene graph is built on. \<open>scene.rs\<close> and \<open>op.rs\<close> use
  \<open>IndexMap\<close> as a list of entries in order with distinct keys, through the handful of
  operations below; each is the documented behaviour of the method of that name on such a
  list (so an out-of-range index and a missing key are \<open>None\<close> where the method returns an
  \<open>Option\<close>). \<open>insert_shifted\<close> and \<open>reorder_indexmap\<close> are the two routines \<open>op.rs\<close>
  itself builds from them.
\<close>

section \<open>The operations\<close>

type_synonym ('k, 'v) index_map = "('k \<times> 'v) list"

definition im_keys :: "('k, 'v) index_map \<Rightarrow> 'k list" where
  "im_keys m = map fst m"

definition im_values :: "('k, 'v) index_map \<Rightarrow> 'v list" where
  "im_values m = map snd m"

definition im_get :: "('k, 'v) index_map \<Rightarrow> 'k \<Rightarrow> 'v option" where
  "im_get m k = map_of m k"

definition im_contains_key :: "('k, 'v) index_map \<Rightarrow> 'k \<Rightarrow> bool" where
  "im_contains_key m k = (k \<in> set (im_keys m))"

fun index_of :: "'k list \<Rightarrow> 'k \<Rightarrow> nat option" where
  "index_of [] k = None"
| "index_of (x # xs) k = (if x = k then Some 0 else map_option Suc (index_of xs k))"

definition im_get_index_of :: "('k, 'v) index_map \<Rightarrow> 'k \<Rightarrow> nat option" where
  "im_get_index_of m k = index_of (im_keys m) k"

text \<open>Writing through \<open>get_mut\<close>: the entry keeps its place.\<close>

definition im_set :: "('k, 'v) index_map \<Rightarrow> 'k \<Rightarrow> 'v \<Rightarrow> ('k, 'v) index_map" where
  "im_set m k v = map (\<lambda>(k', v'). if k' = k then (k', v) else (k', v')) m"

definition im_insert :: "('k, 'v) index_map \<Rightarrow> 'k \<Rightarrow> 'v \<Rightarrow> ('k, 'v) index_map" where
  "im_insert m k v = (if im_contains_key m k then im_set m k v else m @ [(k, v)])"

definition im_shift_remove_index ::
  "('k, 'v) index_map \<Rightarrow> nat \<Rightarrow> (('k \<times> 'v) \<times> ('k, 'v) index_map) option" where
  "im_shift_remove_index m i = (if i < length m then Some (m ! i, remove_at i m) else None)"

definition im_move_index :: "('k, 'v) index_map \<Rightarrow> nat \<Rightarrow> nat \<Rightarrow> ('k, 'v) index_map" where
  "im_move_index m i j = insert_at j (m ! i) (remove_at i m)"

text \<open>``\<open>IndexMap\<close> has no insert-at; insert, then shift into place.''\<close>

definition insert_shifted :: "('k, 'v) index_map \<Rightarrow> 'k \<Rightarrow> 'v \<Rightarrow> nat \<Rightarrow> ('k, 'v) index_map" where
  "insert_shifted m k v at =
     (let m' = im_insert m k v; last = length m' - 1
      in if at < last then im_move_index m' last at else m')"

fun reorder_from :: "nat \<Rightarrow> ('k, 'v) index_map \<Rightarrow> 'k list \<Rightarrow> ('k, 'v) index_map" where
  "reorder_from target m [] = m"
| "reorder_from target m (k # order) =
     reorder_from (Suc target)
       (case im_get_index_of m k of
          Some current \<Rightarrow> if current \<noteq> target then im_move_index m current target else m
        | None \<Rightarrow> m) order"

definition reorder_indexmap :: "('k, 'v) index_map \<Rightarrow> 'k list \<Rightarrow> ('k, 'v) index_map" where
  "reorder_indexmap m order = reorder_from 0 m order"

section \<open>Lookup\<close>

lemma index_of_Some_iff:
  "index_of xs k = Some i \<longleftrightarrow> i < length xs \<and> xs ! i = k \<and> k \<notin> set (take i xs)"
proof (induction xs arbitrary: i)
  case (Cons x xs)
  then show ?case by (cases i) auto
qed simp

lemma index_of_None_iff [simp]: "index_of xs k = None \<longleftrightarrow> k \<notin> set xs"
  by (induction xs) auto

lemma index_of_distinct: "distinct xs \<Longrightarrow> i < length xs \<Longrightarrow> index_of xs (xs ! i) = Some i"
  by (auto simp: index_of_Some_iff in_set_conv_nth nth_eq_iff_index_eq)

lemma im_contains_key_iff: "im_contains_key m k \<longleftrightarrow> (\<exists>v. im_get m k = Some v)"
  by (metis im_contains_key_def im_get_def im_keys_def list.set_map map_of_eq_None_iff
        not_None_eq)

lemma im_get_in_set: "im_get m k = Some v \<Longrightarrow> (k, v) \<in> set m"
  by (simp add: im_get_def map_of_SomeD)

lemma length_im_keys [simp]: "length (im_keys m) = length m"
  by (simp add: im_keys_def)

lemma im_keys_im_set [simp]: "im_keys (im_set m k v) = im_keys m"
  by (simp add: im_keys_def im_set_def split_def if_distrib)

lemma length_im_set [simp]: "length (im_set m k v) = length m"
  by (simp add: im_set_def)

lemma im_contains_key_im_set [simp]: "im_contains_key (im_set m k v) j = im_contains_key m j"
  by (simp add: im_contains_key_def)

lemma im_get_im_set [simp]:
  "im_contains_key m k \<Longrightarrow> im_get (im_set m k v) k = Some v"
  by (induction m) (auto simp: im_get_def im_set_def im_contains_key_def im_keys_def)

lemma im_set_im_set [simp]: "im_set (im_set m k v) k w = im_set m k w"
  by (auto simp: im_set_def)

text \<open>Writing back the value that is there changes nothing.\<close>

lemma im_set_same:
  "distinct (im_keys m) \<Longrightarrow> im_get m k = Some v \<Longrightarrow> im_set m k v = m"
  by (induction m)
     (auto simp: im_get_def im_set_def im_keys_def image_iff split: if_splits
        intro!: map_idI)

lemma im_get_im_set_other: "j \<noteq> k \<Longrightarrow> im_get (im_set m k v) j = im_get m j"
  by (induction m) (auto simp: im_get_def im_set_def)

lemma im_set_set: "(j, w) \<in> set (im_set m k v) \<Longrightarrow> (j, w) \<in> set m \<or> j = k \<and> w = v"
  by (auto simp: im_set_def split: if_splits)

section \<open>Inserting and removing by position\<close>

lemma insert_shifted_eq:
  "\<not> im_contains_key m k \<Longrightarrow> at \<le> length m \<Longrightarrow> insert_shifted m k v at = insert_at at (k, v) m"
  by (auto simp: insert_shifted_def im_insert_def im_move_index_def remove_at_def Let_def
        nth_append not_less dest: le_antisym)

lemma im_keys_insert_at: "im_keys (insert_at i (k, v) m) = insert_at i k (im_keys m)"
  by (simp add: im_keys_def map_insert_at)

lemma im_get_index_of_insert_at:
  "i \<le> length m \<Longrightarrow> \<not> im_contains_key m k \<Longrightarrow> im_get_index_of (insert_at i (k, v) m) k = Some i"
  by (auto simp: im_get_index_of_def index_of_Some_iff im_keys_insert_at im_contains_key_def
        take_insert_at' dest: in_set_takeD)

lemma im_get_index_of_Some:
  "im_get_index_of m k = Some i \<Longrightarrow> i < length m \<and> fst (m ! i) = k"
  by (auto simp: im_get_index_of_def index_of_Some_iff im_keys_def)

lemma im_get_index_of_None [simp]: "im_get_index_of m k = None \<longleftrightarrow> \<not> im_contains_key m k"
  by (simp add: im_get_index_of_def im_contains_key_def)

lemma im_get_index_of_get:
  "distinct (im_keys m) \<Longrightarrow> im_get_index_of m k = Some i \<Longrightarrow> im_get m k = Some (snd (m ! i))"
  by (metis im_get_def im_get_index_of_Some im_keys_def map_of_eq_Some_iff nth_mem prod.collapse)

lemma im_keys_remove_at: "im_keys (remove_at i m) = remove_at i (im_keys m)"
  by (simp add: im_keys_def map_remove_at)

lemma distinct_remove_at: "distinct xs \<Longrightarrow> distinct (remove_at i xs)"
  by (auto simp: remove_at_def dest: set_take_disj_set_drop_if_distinct [of _ i "Suc i"])

lemma not_in_remove_at:
  "distinct xs \<Longrightarrow> i < length xs \<Longrightarrow> xs ! i \<notin> set (remove_at i xs)"
  by (metis distinct_insert_at insert_at_remove_at)

text \<open>The two halves of undoing an insertion and a removal.\<close>

lemma shift_remove_after_insert:
  assumes "\<not> im_contains_key m k" "i \<le> length m"
  shows "im_get_index_of (insert_shifted m k v i) k = Some i"
    and "im_shift_remove_index (insert_shifted m k v i) i = Some ((k, v), m)"
  using assms by (simp_all add: insert_shifted_eq im_get_index_of_insert_at im_shift_remove_index_def)

lemma insert_after_shift_remove:
  assumes "distinct (im_keys m)" "im_get_index_of m k = Some i"
    and "im_shift_remove_index m i = Some ((k', v), m')"
  shows "k' = k" and "\<not> im_contains_key m' k" and "i \<le> length m'"
    and "insert_shifted m' k v i = m"
proof -
  have i: "i < length m" "m ! i = (k', v)" "m' = remove_at i m"
    using assms(3) by (auto simp: im_shift_remove_index_def split: if_splits)
  show k: "k' = k"
    using im_get_index_of_Some [OF assms(2)] i by simp
  have "im_keys m ! i \<notin> set (remove_at i (im_keys m))"
    using i(1) assms(1) by (intro not_in_remove_at) simp_all
  then show nk: "\<not> im_contains_key m' k"
    using i k by (simp add: im_contains_key_def im_keys_remove_at) (simp add: im_keys_def)
  show le: "i \<le> length m'"
    using i by simp
  have "insert_at i (k, v) m' = m"
    using insert_at_remove_at [OF i(1)] i k by simp
  with nk le show "insert_shifted m' k v i = m"
    by (simp add: insert_shifted_eq)
qed

section \<open>Reordering\<close>

lemma mset_im_move_index: "i < length m \<Longrightarrow> mset (im_move_index m i j) = mset m"
  by (simp add: im_move_index_def mset_remove_at)

lemma mset_reorder_from: "mset (reorder_from i m order) = mset m"
  by (induction order arbitrary: i m)
     (auto simp: mset_im_move_index dest: im_get_index_of_Some split: option.split)

lemma mset_reorder [simp]: "mset (reorder_indexmap m order) = mset m"
  by (simp add: reorder_indexmap_def mset_reorder_from)

lemma length_reorder [simp]: "length (reorder_indexmap m order) = length m"
  by (metis mset_reorder size_mset)

lemma set_reorder [simp]: "set (reorder_indexmap m order) = set m"
  by (metis mset_reorder set_mset_mset)

lemma mset_keys_reorder: "mset (im_keys (reorder_indexmap m order)) = mset (im_keys m)"
  by (simp add: im_keys_def)

lemma distinct_keys_reorder [simp]:
  "distinct (im_keys (reorder_indexmap m order)) = distinct (im_keys m)"
  by (metis mset_eq_imp_distinct_iff mset_keys_reorder)

lemma contains_reorder [simp]: "im_contains_key (reorder_indexmap m order) k = im_contains_key m k"
  by (simp add: im_contains_key_def im_keys_def)

lemma reorder_step_keys:
  assumes m: "distinct (im_keys m)" "im_get_index_of m k = Some c" "i \<le> c"
  defines "m' \<equiv> (if c \<noteq> i then im_move_index m c i else m)"
  shows "take (Suc i) (im_keys m') = take i (im_keys m) @ [k]"
proof -
  have c: "c < length (im_keys m)" "im_keys m ! c = k"
    using m(2) by (auto simp: im_get_index_of_def index_of_Some_iff)
  have "im_keys m' = insert_at i k (remove_at c (im_keys m))"
  proof (cases "c = i")
    case True
    with c show ?thesis using insert_at_remove_at [of c "im_keys m"] by (simp add: m'_def)
  next
    case False
    with c show ?thesis
      by (simp add: m'_def im_move_index_def im_keys_def map_insert_at map_remove_at)
  qed
  moreover have "take i (remove_at c (im_keys m)) = take i (im_keys m)"
    using \<open>i \<le> c\<close> c by (simp add: remove_at_def min_def)
  moreover have "i \<le> length (remove_at c (im_keys m))"
    using \<open>i \<le> c\<close> c by simp
  ultimately show ?thesis
    by (simp add: take_insert_at)
qed

text \<open>
  The loop invariant of \<open>reorder_indexmap\<close>: the first \<open>i\<close> keys are already in place and
  the rest of the order names exactly the keys behind them.
\<close>

lemma reorder_from_keys:
  assumes "distinct (im_keys m)" "distinct order" "set order \<subseteq> set (im_keys m)"
    and "set (take i (im_keys m)) \<inter> set order = {}" "i + length order = length m"
  shows "im_keys (reorder_from i m order) = take i (im_keys m) @ order"
  using assms
proof (induction order arbitrary: i m)
  case Nil
  then show ?case by simp
next
  case (Cons k order)
  obtain c where c: "im_get_index_of m k = Some c"
    using Cons.prems(3) by (cases "im_get_index_of m k") (auto simp: im_contains_key_def)
  then have len: "c < length m"
    by (simp add: im_get_index_of_Some)
  have "i \<le> c"
  proof (rule ccontr)
    assume "\<not> i \<le> c"
    then have "k \<in> set (take i (im_keys m))"
      using c by (auto simp: im_get_index_of_def index_of_Some_iff in_set_conv_nth)
    then show False using Cons.prems(4) by auto
  qed
  define m' where "m' = (if c \<noteq> i then im_move_index m c i else m)"
  have take': "take (Suc i) (im_keys m') = take i (im_keys m) @ [k]"
    unfolding m'_def by (rule reorder_step_keys [OF Cons.prems(1) c \<open>i \<le> c\<close>])
  have ms: "mset m' = mset m"
    by (simp add: m'_def mset_im_move_index len)
  then have keys: "mset (im_keys m') = mset (im_keys m)" and "length m' = length m"
    by (simp_all add: im_keys_def) (metis size_mset)
  have "set (im_keys m') = set (im_keys m)"
    using keys by (metis set_mset_mset)
  moreover have "distinct (im_keys m')"
    using keys Cons.prems(1) by (metis mset_eq_imp_distinct_iff)
  ultimately have "im_keys (reorder_from (Suc i) m' order) = take (Suc i) (im_keys m') @ order"
    using Cons.prems take' \<open>length m' = length m\<close> by (intro Cons.IH) auto
  then show ?case
    using take' c by (simp add: m'_def)
qed

lemma keys_reorder:
  assumes "distinct (im_keys m)" "distinct order" "set order = set (im_keys m)"
  shows "im_keys (reorder_indexmap m order) = order"
proof -
  have "length order = length m"
    using assms by (metis distinct_card length_im_keys)
  then show ?thesis
    using reorder_from_keys [of m order 0] assms by (simp add: reorder_indexmap_def)
qed

lemma index_map_eqI:
  assumes "distinct (im_keys m)" "im_keys m = im_keys m'" "set m = set m'"
  shows "m = m'"
proof -
  have "map_of m = map_of m'"
    using assms by (subst map_of_inject_set) (auto simp: im_keys_def)
  moreover have "n = map (\<lambda>k. (k, the (map_of n k))) (im_keys n)" if "distinct (im_keys n)"
    for n :: "('a, 'b) index_map"
    using that by (auto simp: im_keys_def intro!: map_idI [symmetric])
  ultimately show ?thesis using assms by metis
qed

lemma reorder_back:
  assumes "distinct (im_keys m)"
  shows "reorder_indexmap (reorder_indexmap m order) (im_keys m) = m"
proof (rule index_map_eqI)
  show "im_keys (reorder_indexmap (reorder_indexmap m order) (im_keys m)) = im_keys m"
    using assms by (intro keys_reorder) (simp_all, simp add: im_keys_def)
qed (use assms in auto)

section \<open>Entries stored under their own id\<close>

text \<open>
  Pages and nodes are both stored under the id they carry. What the operations need from
  such a map is proved once, for any way \<open>key\<close> of reading the id off a value, and used
  for pages and for nodes.
\<close>

definition keyed :: "('v \<Rightarrow> 'k) \<Rightarrow> ('k, 'v) index_map \<Rightarrow> bool" where
  "keyed key m \<longleftrightarrow> distinct (im_keys m) \<and> list_all (\<lambda>(k, v). key v = k) m"

lemma keyed_Nil [simp]: "keyed key []"
  by (simp add: keyed_def im_keys_def)

lemma keyed_distinct: "keyed key m \<Longrightarrow> distinct (im_keys m)"
  by (simp add: keyed_def)

lemma keyed_get: "keyed key m \<Longrightarrow> im_get m k = Some v \<Longrightarrow> key v = k"
  by (auto simp: keyed_def list_all_iff dest!: im_get_in_set)

lemma keyed_insert:
  "keyed key m \<Longrightarrow> \<not> im_contains_key m (key v) \<Longrightarrow> i \<le> length m
    \<Longrightarrow> keyed key (insert_shifted m (key v) v i)"
  by (auto simp: keyed_def insert_shifted_eq im_keys_insert_at distinct_insert_at list_all_iff
        im_contains_key_def)

lemma keyed_remove: "keyed key m \<Longrightarrow> keyed key (remove_at i m)"
  using set_remove_at_subset [of i m]
  by (auto simp: keyed_def im_keys_remove_at distinct_remove_at list_all_iff)

lemma keyed_shift_remove:
  "keyed key m \<Longrightarrow> im_shift_remove_index m i = Some (kv, m') \<Longrightarrow> keyed key m'"
  by (auto simp: im_shift_remove_index_def keyed_remove split: if_splits)

lemma keyed_reorder: "keyed key m \<Longrightarrow> keyed key (reorder_indexmap m order)"
  by (simp add: keyed_def list_all_iff)

lemma keyed_set: "keyed key m \<Longrightarrow> key v = k \<Longrightarrow> keyed key (im_set m k v)"
  by (auto simp: keyed_def list_all_iff dest!: im_set_set)

end
