(* ===== verification/Text_Style.thy ===== *)
theory Text_Style
  imports Prelude
begin

text \<open>
  The styling and font types of \<open>koharu-core\<close> (\<open>style.rs\<close>, \<open>font.rs\<close>): the records
  the scene stores on a text node, and the shader-effect flags with their textual and binary
  forms. \<open>str::to_lowercase\<close> (full Unicode case mapping) is an argument of the parser; the
  round trip needs of it only what it does on ASCII.
\<close>

unbundle bit_operations_syntax

section \<open>Font predictions\<close>

datatype text_direction = Horizontal | Vertical

record top_font =
  tf_index :: nat
  tf_score :: f32

record named_font_prediction =
  nf_index :: nat
  nf_name :: rstring
  nf_language :: "rstring option"
  nf_probability :: f32
  nf_serif :: bool

record font_prediction =
  fp_top_fonts :: "top_font list"
  fp_named_fonts :: "named_font_prediction list"
  fp_direction :: text_direction
  fp_text_color :: "u8 \<times> u8 \<times> u8"
  fp_stroke_color :: "u8 \<times> u8 \<times> u8"
  fp_font_size_px :: f32
  fp_stroke_width_px :: f32
  fp_line_height :: f32
  fp_angle_deg :: f32

text \<open>The bit patterns of \<open>0.0\<close> and \<open>1.0\<close>.\<close>

definition f32_zero :: f32 where "f32_zero = 0"
definition f32_one :: f32 where "f32_one = 0x3F800000"

definition default_font_prediction :: font_prediction where
  "default_font_prediction =
     \<lparr>fp_top_fonts = [], fp_named_fonts = [], fp_direction = Horizontal,
      fp_text_color = (0, 0, 0), fp_stroke_color = (0, 0, 0), fp_font_size_px = f32_zero,
      fp_stroke_width_px = f32_zero, fp_line_height = f32_one, fp_angle_deg = f32_zero\<rparr>"

section \<open>Shader effects\<close>

datatype text_align = Left | Center | Right

datatype text_shader_effect_flag = Italic | Bold

record text_shader_effect =
  italic :: bool
  bold :: bool

definition ITALIC_FLAG :: u32 where "ITALIC_FLAG = push_bit 0 1"
definition BOLD_FLAG :: u32 where "BOLD_FLAG = push_bit 1 1"

definition effect_flags :: "text_shader_effect \<Rightarrow> u32" where
  "effect_flags e =
     (let flags = 0;
          flags = (if italic e then flags OR ITALIC_FLAG else flags)
      in if bold e then flags OR BOLD_FLAG else flags)"

definition effect_is_empty :: "text_shader_effect \<Rightarrow> bool" where
  "effect_is_empty e \<longleftrightarrow> effect_flags e = 0"

definition effect_none :: text_shader_effect where
  "effect_none = \<lparr>italic = False, bold = False\<rparr>"

fun apply_flag :: "text_shader_effect \<Rightarrow> text_shader_effect_flag \<Rightarrow> text_shader_effect" where
  "apply_flag e Italic = e\<lparr>italic := True\<rparr>"
| "apply_flag e Bold = e\<lparr>bold := True\<rparr>"

definition enabled_flags :: "text_shader_effect \<Rightarrow> text_shader_effect_flag option list" where
  "enabled_flags e =
     [if italic e then Some Italic else None, if bold e then Some Bold else None]"

text \<open>
  The names \<open>strum\<close> derives (\<open>serialize_all = "lowercase"\<close>) and the two words for no
  effect.
\<close>

definition italic_name :: rstring where "italic_name = lit ''italic''"
definition bold_name :: rstring where "bold_name = lit ''bold''"
definition none_name :: rstring where "none_name = lit ''none''"
definition normal_name :: rstring where "normal_name = lit ''normal''"

fun flag_to_string :: "text_shader_effect_flag \<Rightarrow> rstring" where
  "flag_to_string Italic = italic_name"
| "flag_to_string Bold = bold_name"

definition parse_flag :: "rstring \<Rightarrow> text_shader_effect_flag option" where
  "parse_flag token =
     (if token = italic_name then Some Italic
      else if token = bold_name then Some Bold else None)"

definition effect_to_string :: "text_shader_effect \<Rightarrow> rstring" where
  "effect_to_string e =
     (let parts = map flag_to_string (List.map_filter id (enabled_flags e))
      in if parts = [] then none_name else str_join (lit '','') parts)"

definition valid_shader_effects :: rstring where
  "valid_shader_effects = str_join (lit '', '') (map flag_to_string [Italic, Bold])"

datatype effect_error = UnknownShaderEffect rstring rstring

definition is_effect_separator :: "rchar \<Rightarrow> bool" where
  "is_effect_separator c \<longleftrightarrow> c = of_char CHR '','' \<or> c = of_char CHR ''|'' \<or> c = of_char CHR ''+''
     \<or> is_whitespace c"

fun parse_tokens :: "rstring list \<Rightarrow> text_shader_effect \<Rightarrow> effect_error + text_shader_effect" where
  "parse_tokens [] e = Ok e"
| "parse_tokens (token # tokens) e =
     (if token = normal_name \<or> token = none_name then parse_tokens tokens e
      else (case parse_flag token of
              None \<Rightarrow> Err (UnknownShaderEffect token valid_shader_effects)
            | Some flag \<Rightarrow> parse_tokens tokens (apply_flag e flag)))"

definition effect_from_str ::
  "(rstring \<Rightarrow> rstring) \<Rightarrow> rstring \<Rightarrow> effect_error + text_shader_effect" where
  "effect_from_str to_lowercase s =
     (let normalized = to_lowercase (trim s)
      in if normalized = [] \<or> normalized = none_name \<or> normalized = normal_name
         then Ok effect_none
         else parse_tokens
                (filter (\<lambda>token. token \<noteq> []) (str_split is_effect_separator normalized))
                effect_none)"

text \<open>The human-readable wire form: a flag object, or the legacy string.\<close>

datatype effect_repr = Flags "bool option" "bool option" | Legacy rstring

fun deserialize_effect ::
  "(rstring \<Rightarrow> rstring) \<Rightarrow> effect_repr \<Rightarrow> effect_error + text_shader_effect" where
  "deserialize_effect to_lowercase (Flags i b) =
     Ok \<lparr>italic = (case i of None \<Rightarrow> False | Some v \<Rightarrow> v),
         bold = (case b of None \<Rightarrow> False | Some v \<Rightarrow> v)\<rparr>"
| "deserialize_effect to_lowercase (Legacy value) = effect_from_str to_lowercase value"

section \<open>Strokes and text styles\<close>

record text_stroke_style =
  stroke_enabled :: bool
  stroke_color :: "u8 \<times> u8 \<times> u8 \<times> u8"
  stroke_width_px :: "f32 option"

definition default_stroke_style :: text_stroke_style where
  "default_stroke_style =
     \<lparr>stroke_enabled = True, stroke_color = (255, 255, 255, 255), stroke_width_px = None\<rparr>"

record text_style =
  ts_font_families :: "rstring list"
  ts_font_size :: "f32 option"
  ts_color :: "u8 \<times> u8 \<times> u8 \<times> u8"
  ts_effect :: "text_shader_effect option"
  ts_stroke :: "text_stroke_style option"
  ts_text_align :: "text_align option"

definition default_text_style :: text_style where
  "default_text_style =
     \<lparr>ts_font_families = [], ts_font_size = None, ts_color = (0, 0, 0, 255), ts_effect = None,
      ts_stroke = None, ts_text_align = None\<rparr>"

section \<open>Facts\<close>

definition all_ascii :: "rstring \<Rightarrow> bool" where
  "all_ascii s \<longleftrightarrow> list_all (\<lambda>c. c < 128) s"

lemma effect_is_empty_iff: "effect_is_empty e \<longleftrightarrow> e = effect_none"
  by (cases e) (auto simp: effect_is_empty_def effect_flags_def effect_none_def ITALIC_FLAG_def
        BOLD_FLAG_def Let_def)

lemma effect_flags_inject: "effect_flags e = effect_flags e' \<longleftrightarrow> e = e'"
  by (cases e; cases e')
     (auto simp: effect_flags_def ITALIC_FLAG_def BOLD_FLAG_def Let_def split: if_splits)

definition known_token :: "rstring \<Rightarrow> bool" where
  "known_token t \<longleftrightarrow> t \<in> {normal_name, none_name, italic_name, bold_name}"

lemma parse_flag_cases:
  "t = italic_name \<and> parse_flag t = Some Italic \<or> t = bold_name \<and> parse_flag t = Some Bold
    \<or> t \<noteq> italic_name \<and> t \<noteq> bold_name \<and> parse_flag t = None"
  by (simp add: parse_flag_def)

text \<open>What the token loop computes: a flag is on iff it was on or its name occurs.\<close>

lemma names_distinct [simp]:
  "italic_name \<noteq> bold_name" "italic_name \<noteq> normal_name" "italic_name \<noteq> none_name"
  "bold_name \<noteq> normal_name" "bold_name \<noteq> none_name"
  "bold_name \<noteq> italic_name" "normal_name \<noteq> italic_name" "none_name \<noteq> italic_name"
  "normal_name \<noteq> bold_name" "none_name \<noteq> bold_name"
  by code_simp+

lemma parse_tokens_Ok:
  "parse_tokens ts e = Ok e' \<longleftrightarrow> list_all known_token ts
     \<and> italic e' = (italic e \<or> italic_name \<in> set ts)
     \<and> bold e' = (bold e \<or> bold_name \<in> set ts)"
proof (induction ts arbitrary: e)
  case Nil
  then show ?case by (cases e; cases e') auto
next
  case (Cons t ts)
  consider "t = italic_name" | "t = bold_name" | "t = normal_name" | "t = none_name" | "\<not> known_token t"
    by (auto simp: known_token_def)
  then show ?case
    by cases (simp_all add: Cons.IH known_token_def parse_flag_def)
qed
text \<open>The four values there are, evaluated; the case mapping leaves their names alone.\<close>

lemma effect_cases:
  assumes "P \<lparr>italic = True, bold = True\<rparr>" "P \<lparr>italic = True, bold = False\<rparr>"
    and "P \<lparr>italic = False, bold = True\<rparr>" "P \<lparr>italic = False, bold = False\<rparr>"
  shows "P e"
proof (cases e)
  case (fields i b)
  with assms show ?thesis by (cases i; cases b) auto
qed

definition both_names :: rstring where "both_names = lit ''italic,bold''"

lemmas name_defs = italic_name_def bold_name_def none_name_def normal_name_def both_names_def

lemma effect_strings:
  "effect_to_string \<lparr>italic = True, bold = True\<rparr> = both_names"
  "effect_to_string \<lparr>italic = True, bold = False\<rparr> = italic_name"
  "effect_to_string \<lparr>italic = False, bold = True\<rparr> = bold_name"
  "effect_to_string \<lparr>italic = False, bold = False\<rparr> = none_name"
  by (simp_all add: effect_to_string_def enabled_flags_def List.map_filter_simps name_defs)

lemma effect_name_plain:
  "trim (effect_to_string e) = effect_to_string e"
  "all_ascii (effect_to_string e)"
  "map to_ascii_lowercase (effect_to_string e) = effect_to_string e"
  by (induct e rule: effect_cases)
     (simp_all add: effect_strings all_ascii_def to_ascii_lowercase_def is_ascii_uppercase_def
        trim_def trim_start_def trim_end_def is_whitespace_def name_defs)

lemma effect_tokens:
  "str_split is_effect_separator both_names = [italic_name, bold_name]"
  "str_split is_effect_separator italic_name = [italic_name]"
  "str_split is_effect_separator bold_name = [bold_name]"
  by (simp_all add: is_effect_separator_def is_whitespace_def name_defs)

lemma names_nonempty [simp]:
  "italic_name \<noteq> []" "bold_name \<noteq> []" "both_names \<noteq> []"
  "both_names \<noteq> none_name" "both_names \<noteq> normal_name"
  by (simp_all add: name_defs)

lemma effect_from_str_id: "effect_from_str id (effect_to_string e) = Ok e"
  by (induct e rule: effect_cases)
     (simp_all only: effect_from_str_def effect_name_plain,
      simp_all add: effect_strings effect_tokens Let_def effect_none_def parse_flag_def)

lemma effect_from_str_cong: "f (trim s) = g (trim s) \<Longrightarrow> effect_from_str f s = effect_from_str g s"
  by (simp add: effect_from_str_def)

text \<open>Whatever a shader effect prints as parses back to it, through the legacy wire
  form too, for every case mapping that lowercases ASCII text.\<close>

theorem effect_string_roundtrip:
  assumes "\<And>s. all_ascii s \<Longrightarrow> to_lowercase s = map to_ascii_lowercase s"
  shows "deserialize_effect to_lowercase (Legacy (effect_to_string e)) = Ok e"
proof -
  have "to_lowercase (effect_to_string e) = id (effect_to_string e)"
    using assms effect_name_plain by simp
  then show ?thesis
    using effect_from_str_cong [of to_lowercase "effect_to_string e" id]
    by (simp add: effect_name_plain effect_from_str_id)
qed

theorem effect_string_roundtrip_witness:
  "deserialize_effect (map to_ascii_lowercase) (Legacy (effect_to_string \<lparr>italic = True, bold = True\<rparr>))
     = Ok \<lparr>italic = True, bold = True\<rparr>"
  by (rule effect_string_roundtrip) (rule refl)

end
