(* ===== verification/Scene.thy ===== *)
theory Scene
  imports Ordered_Map Text_Style
begin

text \<open>
  The scene graph of \<open>koharu-core\<close> (\<open>scene.rs\<close>, \<open>blob.rs\<close>): a project, its pages in
  order and the flat list of nodes on each page. Ids are UUIDs, blobs are named by their hash,
  a \<open>DateTime<Utc>\<close> is only stored and copied. The clock and id generation are inputs.
\<close>

section \<open>Ids and blobs\<close>

datatype page_id = PageId uuid
datatype node_id = NodeId uuid

datatype blob_ref = BlobRef rstring

primrec blob_hash :: "blob_ref \<Rightarrow> rstring" where
  "blob_hash (BlobRef h) = h"

definition blob_is_empty :: "blob_ref \<Rightarrow> bool" where
  "blob_is_empty b \<longleftrightarrow> blob_hash b = []"

type_synonym datetime = int

section \<open>Nodes\<close>

record transform =
  tr_x :: f32
  tr_y :: f32
  tr_width :: f32
  tr_height :: f32
  tr_rotation_deg :: f32

definition default_transform :: transform where
  "default_transform =
     \<lparr>tr_x = f32_zero, tr_y = f32_zero, tr_width = f32_zero, tr_height = f32_zero,
      tr_rotation_deg = f32_zero\<rparr>"

datatype image_role = Source | Inpainted | Rendered | Custom

record image_data =
  img_role :: image_role
  img_blob :: blob_ref
  img_opacity :: f32
  img_natural_width :: u32
  img_natural_height :: u32
  img_name :: "rstring option"

definition default_opacity :: f32 where "default_opacity = f32_one"

datatype mask_role = BrushInpaint | Segment | Bubble

record mask_data =
  msk_role :: mask_role
  msk_blob :: blob_ref

type_synonym quad = "(f32 \<times> f32) \<times> (f32 \<times> f32) \<times> (f32 \<times> f32) \<times> (f32 \<times> f32)"

record text_data =
  txt_confidence :: f32
  txt_source_lang :: "rstring option"
  txt_source_direction :: "text_direction option"
  txt_rendered_direction :: "text_direction option"
  txt_line_polygons :: "quad list option"
  txt_rotation_deg :: "f32 option"
  txt_detected_font_size_px :: "f32 option"
  txt_detector :: "rstring option"
  txt_text :: "rstring option"
  txt_translation :: "rstring option"
  txt_style :: "text_style option"
  txt_font_prediction :: "font_prediction option"
  txt_sprite :: "blob_ref option"
  txt_sprite_transform :: "transform option"
  txt_lock_layout_box :: bool

definition default_text_data :: text_data where
  "default_text_data =
     \<lparr>txt_confidence = f32_zero, txt_source_lang = None, txt_source_direction = None,
      txt_rendered_direction = None, txt_line_polygons = None, txt_rotation_deg = None,
      txt_detected_font_size_px = None, txt_detector = None, txt_text = None,
      txt_translation = None, txt_style = None, txt_font_prediction = None, txt_sprite = None,
      txt_sprite_transform = None, txt_lock_layout_box = False\<rparr>"

datatype node_kind = Image image_data | Text text_data | Mask mask_data

datatype node_kind_tag = ImageTag | TextTag | MaskTag

primrec discriminant :: "node_kind \<Rightarrow> node_kind_tag" where
  "discriminant (Image _) = ImageTag"
| "discriminant (Text _) = TextTag"
| "discriminant (Mask _) = MaskTag"

record node =
  node_id :: node_id
  node_transform :: transform
  node_visible :: bool
  node_kind :: node_kind

section \<open>Pages and the scene\<close>

record page =
  page_id :: page_id
  page_name :: rstring
  page_width :: u32
  page_height :: u32
  page_nodes :: "(node_id, node) index_map"

definition new_page :: "page_id \<Rightarrow> rstring \<Rightarrow> u32 \<Rightarrow> u32 \<Rightarrow> page" where
  "new_page fresh name width height =
     \<lparr>page_id = fresh, page_name = name, page_width = width, page_height = height,
      page_nodes = []\<rparr>"

record project_style =
  default_font :: "rstring option"

definition default_project_style :: project_style where
  "default_project_style = \<lparr>default_font = None\<rparr>"

record project_meta =
  pm_name :: rstring
  pm_created_at :: datetime
  pm_updated_at :: datetime
  pm_style :: project_style

definition default_project_meta :: "datetime \<Rightarrow> project_meta" where
  "default_project_meta now =
     \<lparr>pm_name = [], pm_created_at = now, pm_updated_at = now, pm_style = default_project_style\<rparr>"

record scene =
  sc_project :: project_meta
  sc_pages :: "(page_id, page) index_map"

definition default_scene :: "datetime \<Rightarrow> scene" where
  "default_scene now = \<lparr>sc_project = default_project_meta now, sc_pages = []\<rparr>"

definition scene_page :: "scene \<Rightarrow> page_id \<Rightarrow> page option" where
  "scene_page s pid = im_get (sc_pages s) pid"

definition scene_node :: "scene \<Rightarrow> page_id \<Rightarrow> node_id \<Rightarrow> node option" where
  "scene_node s pid nid =
     (case scene_page s pid of None \<Rightarrow> None | Some p \<Rightarrow> im_get (page_nodes p) nid)"

text \<open>Writing through \<open>page_mut\<close> and \<open>node_mut\<close>.\<close>

definition set_page :: "scene \<Rightarrow> page_id \<Rightarrow> page \<Rightarrow> scene" where
  "set_page s pid p = s\<lparr>sc_pages := im_set (sc_pages s) pid p\<rparr>"

definition set_node :: "page \<Rightarrow> node_id \<Rightarrow> node \<Rightarrow> page" where
  "set_node p nid n = p\<lparr>page_nodes := im_set (page_nodes p) nid n\<rparr>"

definition is_source_image :: "node \<Rightarrow> bool" where
  "is_source_image n = (case node_kind n of Image img \<Rightarrow> img_role img = Source | _ \<Rightarrow> False)"

definition source_node :: "page \<Rightarrow> (node_id \<times> node) option" where
  "source_node p = List.find (\<lambda>(_, n). is_source_image n) (page_nodes p)"

section \<open>Well-formed scenes\<close>

text \<open>
  How many nodes of a page fill a role. The roles other than \<open>Custom\<close> are exclusive: at
  most one node of a page fills each.
\<close>

definition has_image_role :: "image_role \<Rightarrow> node \<Rightarrow> bool" where
  "has_image_role r n = (case node_kind n of Image img \<Rightarrow> img_role img = r | _ \<Rightarrow> False)"

definition has_mask_role :: "mask_role \<Rightarrow> node \<Rightarrow> bool" where
  "has_mask_role r n = (case node_kind n of Mask m \<Rightarrow> msk_role m = r | _ \<Rightarrow> False)"

definition role_count :: "(node \<Rightarrow> bool) \<Rightarrow> page \<Rightarrow> nat" where
  "role_count has p = length (filter has (im_values (page_nodes p)))"

definition roles_ok :: "page \<Rightarrow> bool" where
  "roles_ok p \<longleftrightarrow>
     (\<forall>r \<in> {Source, Inpainted, Rendered}. role_count (has_image_role r) p \<le> 1)
     \<and> (\<forall>r \<in> {Segment, BrushInpaint, Bubble}. role_count (has_mask_role r) p \<le> 1)"

definition page_ok :: "page \<Rightarrow> bool" where
  "page_ok p \<longleftrightarrow> keyed node_id (page_nodes p) \<and> roles_ok p"

definition scene_ok :: "scene \<Rightarrow> bool" where
  "scene_ok s \<longleftrightarrow> keyed page_id (sc_pages s) \<and> list_all page_ok (im_values (sc_pages s))"

lemma default_scene_ok: "scene_ok (default_scene now)"
  by (simp add: scene_ok_def default_scene_def im_values_def)

lemma scene_page_ok: "scene_ok s \<Longrightarrow> scene_page s pid = Some p \<Longrightarrow> page_ok p \<and> page_id p = pid"
proof -
  assume ok: "scene_ok s" and "scene_page s pid = Some p"
  then have get: "im_get (sc_pages s) pid = Some p" by (simp add: scene_page_def)
  from im_get_in_set [OF get] have "p \<in> set (im_values (sc_pages s))"
    by (force simp: im_values_def)
  with ok get show ?thesis
    by (auto simp: scene_ok_def list_all_iff dest: keyed_get)
qed

lemma scene_ok_distinct: "scene_ok s \<Longrightarrow> distinct (im_keys (sc_pages s))"
  by (auto simp: scene_ok_def dest: keyed_distinct)

lemma page_ok_distinct: "page_ok p \<Longrightarrow> distinct (im_keys (page_nodes p))"
  by (auto simp: page_ok_def dest: keyed_distinct)

lemma set_page_ok:
  "scene_ok s \<Longrightarrow> page_ok p \<Longrightarrow> page_id p = pid \<Longrightarrow> scene_ok (set_page s pid p)"
  by (auto simp: scene_ok_def set_page_def keyed_set list_all_iff im_values_def dest!: im_set_set)

lemma scene_page_Some_contains: "scene_page s pid = Some p \<Longrightarrow> im_contains_key (sc_pages s) pid"
  by (auto simp: scene_page_def im_contains_key_iff)

lemma scene_page_set_page [simp]:
  "scene_page s pid = Some q \<Longrightarrow> scene_page (set_page s pid p) pid = Some p"
  using scene_page_Some_contains [of s pid q]
  by (simp add: scene_page_def set_page_def)

lemma set_page_set_page [simp]: "set_page (set_page s pid p) pid q = set_page s pid q"
  by (simp add: set_page_def)

lemma set_page_same: "scene_ok s \<Longrightarrow> scene_page s pid = Some p \<Longrightarrow> set_page s pid p = s"
  by (simp add: set_page_def scene_page_def im_set_same scene_ok_distinct)

lemma role_count_mset:
  "role_count has p = size (filter_mset has (image_mset snd (mset (page_nodes p))))"
  by (simp add: role_count_def im_values_def flip: mset_filter mset_map size_mset)

text \<open>The roles of a page depend on its nodes as a bag only.\<close>

lemma roles_ok_cong: "mset (page_nodes p) = mset (page_nodes q) \<Longrightarrow> roles_ok p = roles_ok q"
  by (simp add: roles_ok_def role_count_mset)

text \<open>At most one node answers \<open>source_node\<close>: the lookup is unambiguous on a valid page.\<close>

lemma role_count_le_1_unique:
  assumes "role_count has p \<le> 1" "n \<in> set (im_values (page_nodes p))" "has n"
    and "m \<in> set (im_values (page_nodes p))" "has m"
  shows "m = n"
proof -
  have "n \<in> set (filter has (im_values (page_nodes p)))"
    "m \<in> set (filter has (im_values (page_nodes p)))"
    using assms by auto
  moreover have "length (filter has (im_values (page_nodes p))) \<le> 1"
    using assms(1) by (simp add: role_count_def)
  ultimately show ?thesis
    by (cases "filter has (im_values (page_nodes p))") auto
qed

end
