(* ===== verification/Scene_Op.thy ===== *)
theory Scene_Op
  imports Scene
begin

text \<open>
  Scene mutations (\<open>op.rs\<close> of \<open>koharu-core\<close>): the \<open>Op\<close> enum, the sparse patches, \<open>apply\<close>
  with the recording of the overwritten state, \<open>inverse\<close> and the pre-flight \<open>validate\<close>.
  \<open>apply\<close> takes \<open>&mut Scene\<close>, so the model returns the scene on the error path too: an
  operation that fails half way leaves what it has already written.
\<close>

section \<open>Errors, patches, operations\<close>

datatype op_error =
  PageNotFound page_id
| NodeNotFound page_id node_id
| PageExists page_id
| NodeExists node_id
| IndexOutOfRange nat nat
| ReorderSetMismatch
| NodeKindMismatch node_kind_tag node_kind_tag
| Invariant string

record project_meta_patch =
  pmp_name :: "rstring option"
  pmp_style :: "project_style option"
  pmp_updated_at :: "datetime option"

record page_patch =
  pp_name :: "rstring option"
  pp_width :: "u32 option"
  pp_height :: "u32 option"

record text_data_patch =
  tp_confidence :: "f32 option"
  tp_source_lang :: "rstring option option"
  tp_source_direction :: "text_direction option option"
  tp_rendered_direction :: "text_direction option option"
  tp_line_polygons :: "quad list option option"
  tp_rotation_deg :: "f32 option option"
  tp_detected_font_size_px :: "f32 option option"
  tp_detector :: "rstring option option"
  tp_text :: "rstring option option"
  tp_translation :: "rstring option option"
  tp_style :: "text_style option option"
  tp_font_prediction :: "font_prediction option option"
  tp_sprite :: "blob_ref option option"
  tp_sprite_transform :: "transform option option"
  tp_lock_layout_box :: "bool option"

record image_data_patch =
  ip_blob :: "blob_ref option"
  ip_opacity :: "f32 option"
  ip_name :: "rstring option option"
  ip_natural_width :: "u32 option"
  ip_natural_height :: "u32 option"

record mask_data_patch =
  mp_blob :: "blob_ref option"

datatype node_data_patch =
  TextPatch text_data_patch | ImagePatch image_data_patch | MaskPatch mask_data_patch

primrec patch_tag :: "node_data_patch \<Rightarrow> node_kind_tag" where
  "patch_tag (TextPatch _) = TextTag"
| "patch_tag (ImagePatch _) = ImageTag"
| "patch_tag (MaskPatch _) = MaskTag"

record node_patch =
  np_transform :: "transform option"
  np_visible :: "bool option"
  np_data :: "node_data_patch option"

datatype op =
  UpdateProjectMeta project_meta_patch project_meta_patch
| AddPage page nat
| RemovePage page_id page nat
| UpdatePage page_id page_patch page_patch
| ReorderPages "page_id list" "page_id list"
| AddNode page_id node nat
| RemoveNode page_id node_id node nat
| UpdateNode page_id node_id node_patch node_patch
| ReorderNodes page_id "node_id list" "node_id list"
| Batch "op list" rstring

section \<open>Patches\<close>

text \<open>
  Every field of a patch is treated alike: \<open>captured\<close> is \<open>patch.f.as_ref().map(|_| old)\<close>,
  \<open>patched\<close> is \<open>if let Some(v) = patch.f { field = v }\<close>.
\<close>

definition captured :: "'a option \<Rightarrow> 'b \<Rightarrow> 'b option" where
  "captured p v = map_option (\<lambda>_. v) p"

definition patched :: "'a option \<Rightarrow> 'a \<Rightarrow> 'a" where
  "patched p v = (case p of None \<Rightarrow> v | Some x \<Rightarrow> x)"

lemma patched_captured [simp]: "patched (captured p v) (patched p v) = v"
  by (cases p) (simp_all add: patched_def captured_def)

lemma captured_captured [simp]: "captured (captured p v) w = captured p w"
  by (cases p) (simp_all add: captured_def)

definition capture_prev_meta :: "project_meta \<Rightarrow> project_meta_patch \<Rightarrow> project_meta_patch" where
  "capture_prev_meta m p =
     \<lparr>pmp_name = captured (pmp_name p) (pm_name m), pmp_style = captured (pmp_style p) (pm_style m),
      pmp_updated_at = captured (pmp_updated_at p) (pm_updated_at m)\<rparr>"

definition apply_meta_patch :: "project_meta \<Rightarrow> project_meta_patch \<Rightarrow> project_meta" where
  "apply_meta_patch m p =
     m\<lparr>pm_name := patched (pmp_name p) (pm_name m), pm_style := patched (pmp_style p) (pm_style m),
       pm_updated_at := patched (pmp_updated_at p) (pm_updated_at m)\<rparr>"

definition capture_prev_page :: "page \<Rightarrow> page_patch \<Rightarrow> page_patch" where
  "capture_prev_page pg p =
     \<lparr>pp_name = captured (pp_name p) (page_name pg), pp_width = captured (pp_width p) (page_width pg),
      pp_height = captured (pp_height p) (page_height pg)\<rparr>"

definition apply_page_patch :: "page \<Rightarrow> page_patch \<Rightarrow> page" where
  "apply_page_patch pg p =
     pg\<lparr>page_name := patched (pp_name p) (page_name pg),
        page_width := patched (pp_width p) (page_width pg),
        page_height := patched (pp_height p) (page_height pg)\<rparr>"

definition default_text_patch :: text_data_patch where
  "default_text_patch =
     \<lparr>tp_confidence = None, tp_source_lang = None, tp_source_direction = None,
      tp_rendered_direction = None, tp_line_polygons = None, tp_rotation_deg = None,
      tp_detected_font_size_px = None, tp_detector = None, tp_text = None, tp_translation = None,
      tp_style = None, tp_font_prediction = None, tp_sprite = None, tp_sprite_transform = None,
      tp_lock_layout_box = None\<rparr>"

definition default_image_patch :: image_data_patch where
  "default_image_patch =
     \<lparr>ip_blob = None, ip_opacity = None, ip_name = None, ip_natural_width = None,
      ip_natural_height = None\<rparr>"

definition default_mask_patch :: mask_data_patch where
  "default_mask_patch = \<lparr>mp_blob = None\<rparr>"

definition capture_prev_text :: "node_kind \<Rightarrow> text_data_patch \<Rightarrow> text_data_patch" where
  "capture_prev_text kind p = (case kind of
     Text d \<Rightarrow>
       \<lparr>tp_confidence = captured (tp_confidence p) (txt_confidence d),
        tp_source_lang = captured (tp_source_lang p) (txt_source_lang d),
        tp_source_direction = captured (tp_source_direction p) (txt_source_direction d),
        tp_rendered_direction = captured (tp_rendered_direction p) (txt_rendered_direction d),
        tp_line_polygons = captured (tp_line_polygons p) (txt_line_polygons d),
        tp_rotation_deg = captured (tp_rotation_deg p) (txt_rotation_deg d),
        tp_detected_font_size_px =
          captured (tp_detected_font_size_px p) (txt_detected_font_size_px d),
        tp_detector = captured (tp_detector p) (txt_detector d),
        tp_text = captured (tp_text p) (txt_text d),
        tp_translation = captured (tp_translation p) (txt_translation d),
        tp_style = captured (tp_style p) (txt_style d),
        tp_font_prediction = captured (tp_font_prediction p) (txt_font_prediction d),
        tp_sprite = captured (tp_sprite p) (txt_sprite d),
        tp_sprite_transform = captured (tp_sprite_transform p) (txt_sprite_transform d),
        tp_lock_layout_box = captured (tp_lock_layout_box p) (txt_lock_layout_box d)\<rparr>
   | _ \<Rightarrow> default_text_patch)"

definition capture_prev_image :: "node_kind \<Rightarrow> image_data_patch \<Rightarrow> image_data_patch" where
  "capture_prev_image kind p = (case kind of
     Image d \<Rightarrow>
       \<lparr>ip_blob = captured (ip_blob p) (img_blob d), ip_opacity = captured (ip_opacity p) (img_opacity d),
        ip_name = captured (ip_name p) (img_name d),
        ip_natural_width = captured (ip_natural_width p) (img_natural_width d),
        ip_natural_height = captured (ip_natural_height p) (img_natural_height d)\<rparr>
   | _ \<Rightarrow> default_image_patch)"

definition capture_prev_mask :: "node_kind \<Rightarrow> mask_data_patch \<Rightarrow> mask_data_patch" where
  "capture_prev_mask kind p = (case kind of
     Mask d \<Rightarrow> \<lparr>mp_blob = captured (mp_blob p) (msk_blob d)\<rparr> | _ \<Rightarrow> default_mask_patch)"

definition capture_prev_data :: "node_kind \<Rightarrow> node_data_patch \<Rightarrow> node_data_patch" where
  "capture_prev_data kind dp = (case dp of
     TextPatch p \<Rightarrow> TextPatch (capture_prev_text kind p)
   | ImagePatch p \<Rightarrow> ImagePatch (capture_prev_image kind p)
   | MaskPatch p \<Rightarrow> MaskPatch (capture_prev_mask kind p))"

definition capture_prev_node_patch :: "node \<Rightarrow> node_patch \<Rightarrow> node_patch" where
  "capture_prev_node_patch n p =
     \<lparr>np_transform = captured (np_transform p) (node_transform n),
      np_visible = captured (np_visible p) (node_visible n),
      np_data = map_option (capture_prev_data (node_kind n)) (np_data p)\<rparr>"

definition apply_text_patch :: "text_data \<Rightarrow> text_data_patch \<Rightarrow> text_data" where
  "apply_text_patch t p =
     \<lparr>txt_confidence = patched (tp_confidence p) (txt_confidence t),
      txt_source_lang = patched (tp_source_lang p) (txt_source_lang t),
      txt_source_direction = patched (tp_source_direction p) (txt_source_direction t),
      txt_rendered_direction = patched (tp_rendered_direction p) (txt_rendered_direction t),
      txt_line_polygons = patched (tp_line_polygons p) (txt_line_polygons t),
      txt_rotation_deg = patched (tp_rotation_deg p) (txt_rotation_deg t),
      txt_detected_font_size_px =
        patched (tp_detected_font_size_px p) (txt_detected_font_size_px t),
      txt_detector = patched (tp_detector p) (txt_detector t),
      txt_text = patched (tp_text p) (txt_text t),
      txt_translation = patched (tp_translation p) (txt_translation t),
      txt_style = patched (tp_style p) (txt_style t),
      txt_font_prediction = patched (tp_font_prediction p) (txt_font_prediction t),
      txt_sprite = patched (tp_sprite p) (txt_sprite t),
      txt_sprite_transform = patched (tp_sprite_transform p) (txt_sprite_transform t),
      txt_lock_layout_box = patched (tp_lock_layout_box p) (txt_lock_layout_box t)\<rparr>"

definition apply_image_patch :: "image_data \<Rightarrow> image_data_patch \<Rightarrow> image_data" where
  "apply_image_patch i p =
     i\<lparr>img_blob := patched (ip_blob p) (img_blob i), img_opacity := patched (ip_opacity p) (img_opacity i),
       img_name := patched (ip_name p) (img_name i),
       img_natural_width := patched (ip_natural_width p) (img_natural_width i),
       img_natural_height := patched (ip_natural_height p) (img_natural_height i)\<rparr>"

definition apply_mask_patch :: "mask_data \<Rightarrow> mask_data_patch \<Rightarrow> mask_data" where
  "apply_mask_patch m p = m\<lparr>msk_blob := patched (mp_blob p) (msk_blob m)\<rparr>"

definition apply_data_patch :: "node_kind \<Rightarrow> node_data_patch \<Rightarrow> node_kind" where
  "apply_data_patch kind dp = (case (kind, dp) of
     (Text t, TextPatch p) \<Rightarrow> Text (apply_text_patch t p)
   | (Image i, ImagePatch p) \<Rightarrow> Image (apply_image_patch i p)
   | (Mask m, MaskPatch p) \<Rightarrow> Mask (apply_mask_patch m p)
   | _ \<Rightarrow> kind)"

definition apply_node_patch :: "node \<Rightarrow> node_patch \<Rightarrow> node" where
  "apply_node_patch n p =
     n\<lparr>node_transform := patched (np_transform p) (node_transform n),
       node_visible := patched (np_visible p) (node_visible n),
       node_kind := (case np_data p of None \<Rightarrow> node_kind n
                     | Some dp \<Rightarrow> apply_data_patch (node_kind n) dp)\<rparr>"

section \<open>Guards\<close>

definition ensure_same_page_set :: "(page_id, page) index_map \<Rightarrow> page_id list \<Rightarrow> op_error + unit" where
  "ensure_same_page_set pages order =
     (if length order \<noteq> length pages then Err ReorderSetMismatch
      else if list_ex (\<lambda>pid. \<not> im_contains_key pages pid) order then Err ReorderSetMismatch
      else Ok ())"

definition ensure_same_node_set :: "page \<Rightarrow> node_id list \<Rightarrow> op_error + unit" where
  "ensure_same_node_set p order =
     (if length order \<noteq> length (page_nodes p) then Err ReorderSetMismatch
      else if list_ex (\<lambda>nid. \<not> im_contains_key (page_nodes p) nid) order then Err ReorderSetMismatch
      else Ok ())"

text \<open>The six counters of \<open>validate_page_invariants\<close>, filled by one pass over the nodes.\<close>

record role_counts =
  n_source :: nat
  n_inpainted :: nat
  n_rendered :: nat
  n_seg :: nat
  n_brush :: nat
  n_bubble :: nat

definition no_roles :: role_counts where
  "no_roles = \<lparr>n_source = 0, n_inpainted = 0, n_rendered = 0, n_seg = 0, n_brush = 0, n_bubble = 0\<rparr>"

definition count_role :: "node_kind \<Rightarrow> role_counts \<Rightarrow> role_counts" where
  "count_role kind c = (case kind of
     Image img \<Rightarrow> (case img_role img of
        Source \<Rightarrow> c\<lparr>n_source := n_source c + 1\<rparr>
      | Inpainted \<Rightarrow> c\<lparr>n_inpainted := n_inpainted c + 1\<rparr>
      | Rendered \<Rightarrow> c\<lparr>n_rendered := n_rendered c + 1\<rparr>
      | Custom \<Rightarrow> c)
   | Mask m \<Rightarrow> (case msk_role m of
        Segment \<Rightarrow> c\<lparr>n_seg := n_seg c + 1\<rparr>
      | BrushInpaint \<Rightarrow> c\<lparr>n_brush := n_brush c + 1\<rparr>
      | Bubble \<Rightarrow> c\<lparr>n_bubble := n_bubble c + 1\<rparr>)
   | Text _ \<Rightarrow> c)"

definition validate_page_invariants :: "page \<Rightarrow> op_error + unit" where
  "validate_page_invariants p =
     (let c = fold (\<lambda>n. count_role (node_kind n)) (im_values (page_nodes p)) no_roles in
      if n_source c > 1 then Err (Invariant ''more than one Source image on page'')
      else if n_inpainted c > 1 then Err (Invariant ''more than one Inpainted image on page'')
      else if n_rendered c > 1 then Err (Invariant ''more than one Rendered image on page'')
      else if n_seg c > 1 then Err (Invariant ''more than one Segment mask on page'')
      else if n_brush c > 1 then Err (Invariant ''more than one BrushInpaint mask on page'')
      else if n_bubble c > 1 then Err (Invariant ''more than one Bubble mask on page'')
      else Ok ())"

section \<open>Apply\<close>

text \<open>One definition per arm of \<open>Op::apply\<close>: the result carries the operation with its
  \<open>prev\<close> payload filled in, and the scene after the call.\<close>

type_synonym applied = "(op_error + op) \<times> scene"

definition apply_update_project_meta :: "project_meta_patch \<Rightarrow> scene \<Rightarrow> applied" where
  "apply_update_project_meta patch s =
     (let m = sc_project s; prev = capture_prev_meta m patch
      in (Ok (UpdateProjectMeta patch prev), s\<lparr>sc_project := apply_meta_patch m patch\<rparr>))"

definition apply_add_page :: "page \<Rightarrow> nat \<Rightarrow> scene \<Rightarrow> applied" where
  "apply_add_page pg at s =
     (if im_contains_key (sc_pages s) (page_id pg) then (Err (PageExists (page_id pg)), s)
      else let len = length (sc_pages s) in
        if at > len then (Err (IndexOutOfRange at len), s)
        else (Ok (AddPage pg at),
              s\<lparr>sc_pages := insert_shifted (sc_pages s) (page_id pg) pg at\<rparr>))"

definition apply_remove_page :: "page_id \<Rightarrow> scene \<Rightarrow> applied" where
  "apply_remove_page pid s =
     (case im_get_index_of (sc_pages s) pid of
        None \<Rightarrow> (Err (PageNotFound pid), s)
      | Some index \<Rightarrow>
          (case im_shift_remove_index (sc_pages s) index of
             None \<Rightarrow> (Err (PageNotFound pid), s)
           | Some ((_, pg), pages) \<Rightarrow> (Ok (RemovePage pid pg index), s\<lparr>sc_pages := pages\<rparr>)))"

definition apply_update_page :: "page_id \<Rightarrow> page_patch \<Rightarrow> scene \<Rightarrow> applied" where
  "apply_update_page pid patch s =
     (case scene_page s pid of
        None \<Rightarrow> (Err (PageNotFound pid), s)
      | Some pg \<Rightarrow> (Ok (UpdatePage pid patch (capture_prev_page pg patch)),
                    set_page s pid (apply_page_patch pg patch)))"

definition apply_reorder_pages :: "page_id list \<Rightarrow> scene \<Rightarrow> applied" where
  "apply_reorder_pages order s =
     (case ensure_same_page_set (sc_pages s) order of
        Inl e \<Rightarrow> (Err e, s)
      | Inr _ \<Rightarrow> (Ok (ReorderPages order (im_keys (sc_pages s))),
                  s\<lparr>sc_pages := reorder_indexmap (sc_pages s) order\<rparr>))"

definition apply_add_node :: "page_id \<Rightarrow> node \<Rightarrow> nat \<Rightarrow> scene \<Rightarrow> applied" where
  "apply_add_node pid n at s =
     (case scene_page s pid of
        None \<Rightarrow> (Err (PageNotFound pid), s)
      | Some pg \<Rightarrow>
          if im_contains_key (page_nodes pg) (node_id n) then (Err (NodeExists (node_id n)), s)
          else let len = length (page_nodes pg) in
            if at > len then (Err (IndexOutOfRange at len), s)
            else let pg' = pg\<lparr>page_nodes := insert_shifted (page_nodes pg) (node_id n) n at\<rparr>;
                     s' = set_page s pid pg'
                 in (case validate_page_invariants pg' of
                       Inl e \<Rightarrow> (Err e, s')
                     | Inr _ \<Rightarrow> (Ok (AddNode pid n at), s')))"

definition apply_remove_node :: "page_id \<Rightarrow> node_id \<Rightarrow> scene \<Rightarrow> applied" where
  "apply_remove_node pid nid s =
     (case scene_page s pid of
        None \<Rightarrow> (Err (PageNotFound pid), s)
      | Some pg \<Rightarrow>
          (case im_get_index_of (page_nodes pg) nid of
             None \<Rightarrow> (Err (NodeNotFound pid nid), s)
           | Some index \<Rightarrow>
               (case im_shift_remove_index (page_nodes pg) index of
                  None \<Rightarrow> (Err (NodeNotFound pid nid), s)
                | Some ((_, n), nodes) \<Rightarrow>
                    (Ok (RemoveNode pid nid n index), set_page s pid (pg\<lparr>page_nodes := nodes\<rparr>)))))"

definition check_patch_kind :: "node \<Rightarrow> node_patch \<Rightarrow> op_error + unit" where
  "check_patch_kind n patch =
     (case np_data patch of
        None \<Rightarrow> Ok ()
      | Some dp \<Rightarrow>
          let existing = discriminant (node_kind n) in
          if existing \<noteq> patch_tag dp then Err (NodeKindMismatch (patch_tag dp) existing) else Ok ())"

definition apply_update_node :: "page_id \<Rightarrow> node_id \<Rightarrow> node_patch \<Rightarrow> scene \<Rightarrow> applied" where
  "apply_update_node pid nid patch s =
     (case scene_page s pid of
        None \<Rightarrow> (Err (NodeNotFound pid nid), s)
      | Some pg \<Rightarrow>
          (case im_get (page_nodes pg) nid of
             None \<Rightarrow> (Err (NodeNotFound pid nid), s)
           | Some n \<Rightarrow>
               (case check_patch_kind n patch of
                  Inl e \<Rightarrow> (Err e, s)
                | Inr _ \<Rightarrow>
                    (Ok (UpdateNode pid nid patch (capture_prev_node_patch n patch)),
                     set_page s pid (set_node pg nid (apply_node_patch n patch))))))"

definition apply_reorder_nodes :: "page_id \<Rightarrow> node_id list \<Rightarrow> scene \<Rightarrow> applied" where
  "apply_reorder_nodes pid order s =
     (case scene_page s pid of
        None \<Rightarrow> (Err (PageNotFound pid), s)
      | Some pg \<Rightarrow>
          (case ensure_same_node_set pg order of
             Inl e \<Rightarrow> (Err e, s)
           | Inr _ \<Rightarrow>
               (Ok (ReorderNodes pid order (im_keys (page_nodes pg))),
                set_page s pid (pg\<lparr>page_nodes := reorder_indexmap (page_nodes pg) order\<rparr>))))"

fun apply_op :: "op \<Rightarrow> scene \<Rightarrow> applied"
and apply_ops :: "op list \<Rightarrow> scene \<Rightarrow> (op_error + op list) \<times> scene" where
  "apply_op (UpdateProjectMeta patch _) s = apply_update_project_meta patch s"
| "apply_op (AddPage pg at) s = apply_add_page pg at s"
| "apply_op (RemovePage pid _ _) s = apply_remove_page pid s"
| "apply_op (UpdatePage pid patch _) s = apply_update_page pid patch s"
| "apply_op (ReorderPages order _) s = apply_reorder_pages order s"
| "apply_op (AddNode pid n at) s = apply_add_node pid n at s"
| "apply_op (RemoveNode pid nid _ _) s = apply_remove_node pid nid s"
| "apply_op (UpdateNode pid nid patch _) s = apply_update_node pid nid patch s"
| "apply_op (ReorderNodes pid order _) s = apply_reorder_nodes pid order s"
| "apply_op (Batch ops label) s =
     (case apply_ops ops s of
        (Inl e, s') \<Rightarrow> (Err e, s')
      | (Inr ops', s') \<Rightarrow> (Ok (Batch ops' label), s'))"
| "apply_ops [] s = (Ok [], s)"
| "apply_ops (a # ops) s =
     (case apply_op a s of
        (Inl e, s') \<Rightarrow> (Err e, s')
      | (Inr a', s') \<Rightarrow>
          (case apply_ops ops s' of
             (Inl e, s'') \<Rightarrow> (Err e, s'')
           | (Inr ops', s'') \<Rightarrow> (Ok (a' # ops'), s'')))"

section \<open>Inverse\<close>

fun inverse_op :: "op \<Rightarrow> op" where
  "inverse_op (UpdateProjectMeta patch prev) = UpdateProjectMeta prev patch"
| "inverse_op (AddPage pg at) = RemovePage (page_id pg) pg at"
| "inverse_op (RemovePage _ prev_page prev_index) = AddPage prev_page prev_index"
| "inverse_op (UpdatePage pid patch prev) = UpdatePage pid prev patch"
| "inverse_op (ReorderPages order prev_order) = ReorderPages prev_order order"
| "inverse_op (AddNode pid n at) = RemoveNode pid (node_id n) n at"
| "inverse_op (RemoveNode pid _ prev_node prev_index) = AddNode pid prev_node prev_index"
| "inverse_op (UpdateNode pid nid patch prev) = UpdateNode pid nid prev patch"
| "inverse_op (ReorderNodes pid order prev_order) = ReorderNodes pid prev_order order"
| "inverse_op (Batch ops label) = Batch (map inverse_op (rev ops)) (lit ''undo: '' @ label)"

section \<open>Pre-flight validation\<close>

fun validate_op :: "op \<Rightarrow> scene \<Rightarrow> op_error + unit" where
  "validate_op (UpdateProjectMeta _ _) s = Ok ()"
| "validate_op (AddPage pg at) s =
     (if im_contains_key (sc_pages s) (page_id pg) then Err (PageExists (page_id pg))
      else if at > length (sc_pages s) then Err (IndexOutOfRange at (length (sc_pages s)))
      else Ok ())"
| "validate_op (RemovePage pid _ _) s =
     (case scene_page s pid of None \<Rightarrow> Err (PageNotFound pid) | Some _ \<Rightarrow> Ok ())"
| "validate_op (UpdatePage pid _ _) s =
     (case scene_page s pid of None \<Rightarrow> Err (PageNotFound pid) | Some _ \<Rightarrow> Ok ())"
| "validate_op (ReorderPages order _) s = ensure_same_page_set (sc_pages s) order"
| "validate_op (AddNode pid n at) s =
     (case scene_page s pid of
        None \<Rightarrow> Err (PageNotFound pid)
      | Some pg \<Rightarrow>
          if im_contains_key (page_nodes pg) (node_id n) then Err (NodeExists (node_id n))
          else if at > length (page_nodes pg) then Err (IndexOutOfRange at (length (page_nodes pg)))
          else Ok ())"
| "validate_op (RemoveNode pid nid _ _) s =
     (case scene_page s pid of
        None \<Rightarrow> Err (PageNotFound pid)
      | Some pg \<Rightarrow>
          if \<not> im_contains_key (page_nodes pg) nid then Err (NodeNotFound pid nid) else Ok ())"
| "validate_op (UpdateNode pid nid patch _) s =
     (case scene_node s pid nid of
        None \<Rightarrow> Err (NodeNotFound pid nid)
      | Some n \<Rightarrow> check_patch_kind n patch)"
| "validate_op (ReorderNodes pid order _) s =
     (case scene_page s pid of
        None \<Rightarrow> Err (PageNotFound pid)
      | Some pg \<Rightarrow> ensure_same_node_set pg order)"
| "validate_op (Batch ops _) s =
     fold (\<lambda>a r. try_bind r (\<lambda>_. validate_op a s)) ops (Ok ())"

end
