(* ===== verification/Undo_Law.thy ===== *)
theory Undo_Law
  imports Prelude
begin

text \<open>
  The contract between a document and its history. A document is changed by operations that
  record what they overwrite; \<open>inv\<close> turns a recorded operation into the one that takes it
  back. The laws below are all the undo and redo stacks rely on; \<open>Scene_Op_Laws\<close> discharges
  them for the operations of the scene, and \<open>History\<close> uses the stack lemmas proved here.
\<close>

section \<open>Stacks that tell the truth\<close>

text \<open>
  Both stacks have their top first. An undo stack is truthful at a document when its top is
  a recorded operation that leads to that document from one where the rest is truthful; a
  redo stack when its top applies, and leads to a document where the rest applies.
\<close>

primrec undo_chain ::
  "('op \<Rightarrow> 's \<Rightarrow> ('e + 'op) \<times> 's) \<Rightarrow> ('s \<Rightarrow> bool) \<Rightarrow> ('op \<Rightarrow> bool) \<Rightarrow> 'op list \<Rightarrow> 's \<Rightarrow> bool" where
  "undo_chain run ok legal [] s = ok s"
| "undo_chain run ok legal (a # st) s =
     (ok s \<and> (\<exists>t. legal a \<and> run a t = (Inr a, s) \<and> undo_chain run ok legal st t))"

primrec redo_chain ::
  "('op \<Rightarrow> 's \<Rightarrow> ('e + 'op) \<times> 's) \<Rightarrow> ('op \<Rightarrow> bool) \<Rightarrow> 'op list \<Rightarrow> 's \<Rightarrow> bool" where
  "redo_chain run legal [] s = True"
| "redo_chain run legal (a # rs) s =
     (\<exists>t. legal a \<and> run a s = (Inr a, t) \<and> redo_chain run legal rs t)"

lemma undo_chain_ok: "undo_chain run ok legal st s \<Longrightarrow> ok s"
  by (cases st) auto

text \<open>Forgetting the oldest entries leaves a truthful stack.\<close>

lemma undo_chain_take: "undo_chain run ok legal st s \<Longrightarrow> undo_chain run ok legal (take n st) s"
proof (induction st arbitrary: s n)
  case (Cons a st)
  show ?case
  proof (cases n)
    case 0
    with Cons.prems show ?thesis by simp
  next
    case (Suc m)
    with Cons.prems Cons.IH [where n = m] show ?thesis by auto
  qed
qed simp

section \<open>The laws\<close>

locale undo_law =
  fixes run :: "'op \<Rightarrow> 's \<Rightarrow> ('e + 'op) \<times> 's"
    and inv :: "'op \<Rightarrow> 'op"
    and ok :: "'s \<Rightarrow> bool"
    and legal :: "'op \<Rightarrow> bool"
  assumes keeps: "run a s = (Inr a', s') \<Longrightarrow> ok s \<Longrightarrow> legal a \<Longrightarrow> ok s' \<and> legal a' \<and> legal (inv a')"
    and takes_back: "run a s = (Inr a', s') \<Longrightarrow> ok s \<Longrightarrow> legal a \<Longrightarrow> \<exists>r. run (inv a') s' = (Inr r, s)"
    and stable: "run a s = (Inr a', s') \<Longrightarrow> run a' s = (Inr a', s')"
begin

lemma run_deterministic: "run a s = (Inr b, t) \<Longrightarrow> run a s = (Inr c, u) \<Longrightarrow> b = c \<and> t = u"
  by simp

lemma push_chain:
  assumes "undo_chain run ok legal st s" "run a s = (Inr a', s')" "legal a"
  shows "undo_chain run ok legal (a' # st) s'"
  using assms keeps [OF assms(2)] stable [OF assms(2)] undo_chain_ok [OF assms(1)] by auto

text \<open>Undoing the top always succeeds and moves one document back on both stacks.\<close>

lemma pop_chain:
  assumes "undo_chain run ok legal (a # st) s"
  obtains r t where "run (inv a) s = (Inr r, t)" "undo_chain run ok legal st t"
    "run a t = (Inr a, s)" "legal a" "legal (inv a)" "ok t"
proof -
  from assms obtain t where t: "legal a" "run a t = (Inr a, s)" "undo_chain run ok legal st t"
    by auto
  then have "ok t" by (simp add: undo_chain_ok)
  moreover have "legal (inv a)" using keeps [OF t(2) \<open>ok t\<close> t(1)] by simp
  moreover obtain r where "run (inv a) s = (Inr r, t)"
    using takes_back [OF t(2) \<open>ok t\<close> t(1)] by blast
  ultimately show thesis using that t by blast
qed

lemma undo_to_redo:
  assumes "undo_chain run ok legal (a # st) s" "redo_chain run legal rs s" "run (inv a) s = (Inr r, t)"
  shows "undo_chain run ok legal st t" and "redo_chain run legal (a # rs) t" and "ok t"
proof -
  obtain q u where "run (inv a) s = (Inr q, u)" "undo_chain run ok legal st u"
      "run a u = (Inr a, s)" "legal a" "ok u"
    using assms(1) by (rule pop_chain)
  with assms(2,3) show "undo_chain run ok legal st t" "redo_chain run legal (a # rs) t" "ok t"
    by auto
qed

lemma redo_to_undo:
  assumes "undo_chain run ok legal st s" "redo_chain run legal (a # rs) s"
  obtains t where "run a s = (Inr a, t)" "undo_chain run ok legal (a # st) t" "redo_chain run legal rs t"
    "legal a"
proof -
  from assms(2) obtain t where t: "legal a" "run a s = (Inr a, t)" "redo_chain run legal rs t"
    by auto
  have "ok t" using keeps [OF t(2) _ t(1)] undo_chain_ok [OF assms(1)] by simp
  with assms(1) t that show thesis by auto
qed

end

end
