(* ===== verification/Scene_Op_Laws.thy ===== *)
theory Scene_Op_Laws
  imports Scene_Op Undo_Law
begin

text \<open>
  What \<open>Op::apply\<close>, \<open>Op::inverse\<close> and \<open>Op::validate\<close> promise: one lemma per arm saying
  when it succeeds and with what result, the invariant of the scene and its preservation,
  the three laws of \<open>Undo_Law\<close> with their interpretation, and the agreement of the
  pre-flight check with \<open>apply\<close>.
\<close>

lemmas apply_arms = apply_update_project_meta_def apply_add_page_def
  apply_remove_page_def apply_update_page_def apply_reorder_pages_def
  apply_add_node_def apply_remove_node_def apply_update_node_def apply_reorder_nodes_def

section \<open>Legal operations\<close>

text \<open>
  \<open>AddPage\<close> stores the page it is given without looking at the nodes on it; it is legal when
  that page satisfies the invariant. Every other operation is legal.
\<close>

fun op_ok :: "op \<Rightarrow> bool" where
  "op_ok (AddPage pg _) = page_ok pg"
| "op_ok (Batch ops _) = list_all op_ok ops"
| "op_ok _ = True"

lemma count_role_counts:
  "n_source (count_role (node_kind n) c) = n_source c + of_bool (has_image_role Source n)"
  "n_inpainted (count_role (node_kind n) c) = n_inpainted c + of_bool (has_image_role Inpainted n)"
  "n_rendered (count_role (node_kind n) c) = n_rendered c + of_bool (has_image_role Rendered n)"
  "n_seg (count_role (node_kind n) c) = n_seg c + of_bool (has_mask_role Segment n)"
  "n_brush (count_role (node_kind n) c) = n_brush c + of_bool (has_mask_role BrushInpaint n)"
  "n_bubble (count_role (node_kind n) c) = n_bubble c + of_bool (has_mask_role Bubble n)"
  by (simp_all add: count_role_def has_image_role_def has_mask_role_def
       split: node_kind.split image_role.split mask_role.split)

lemma fold_count_role:
  "n_source (fold (\<lambda>n. count_role (node_kind n)) ns c) = n_source c + length (filter (has_image_role Source) ns)"
  "n_inpainted (fold (\<lambda>n. count_role (node_kind n)) ns c) = n_inpainted c + length (filter (has_image_role Inpainted) ns)"
  "n_rendered (fold (\<lambda>n. count_role (node_kind n)) ns c) = n_rendered c + length (filter (has_image_role Rendered) ns)"
  "n_seg (fold (\<lambda>n. count_role (node_kind n)) ns c) = n_seg c + length (filter (has_mask_role Segment) ns)"
  "n_brush (fold (\<lambda>n. count_role (node_kind n)) ns c) = n_brush c + length (filter (has_mask_role BrushInpaint) ns)"
  "n_bubble (fold (\<lambda>n. count_role (node_kind n)) ns c) = n_bubble c + length (filter (has_mask_role Bubble) ns)"
  by (induction ns arbitrary: c) (simp_all add: count_role_counts)

lemma validate_page_invariants_Ok [simp]:
  "validate_page_invariants p = Inr u \<longleftrightarrow> roles_ok p"
  by (simp add: validate_page_invariants_def Let_def fold_count_role no_roles_def roles_ok_def
      role_count_def not_less)

lemma validate_page_invariants_Err: "validate_page_invariants p = Inl e \<Longrightarrow> \<not> roles_ok p"
  using validate_page_invariants_Ok [of p "()"] by (auto simp del: validate_page_invariants_Ok)

lemma apply_update_project_meta_Ok:
  "apply_update_project_meta patch s = (Inr op', s') \<longleftrightarrow>
     op' = UpdateProjectMeta patch (capture_prev_meta (sc_project s) patch)
     \<and> s' = s\<lparr>sc_project := apply_meta_patch (sc_project s) patch\<rparr>"
  by (auto simp: apply_update_project_meta_def Let_def)

lemma apply_add_page_Ok:
  "apply_add_page pg at s = (Inr op', s') \<longleftrightarrow>
     \<not> im_contains_key (sc_pages s) (page_id pg) \<and> at \<le> length (sc_pages s) \<and> op' = AddPage pg at
     \<and> s' = s\<lparr>sc_pages := insert_shifted (sc_pages s) (page_id pg) pg at\<rparr>"
  by (auto simp: apply_add_page_def Let_def)

lemma apply_remove_page_Ok:
  "apply_remove_page pid s = (Inr op', s') \<longleftrightarrow>
     (\<exists>i k pg pages. im_get_index_of (sc_pages s) pid = Some i
        \<and> im_shift_remove_index (sc_pages s) i = Some ((k, pg), pages)
        \<and> op' = RemovePage pid pg i \<and> s' = s\<lparr>sc_pages := pages\<rparr>)"
  by (auto simp: apply_remove_page_def simp del: im_get_index_of_None split: option.split)

lemma apply_update_page_Ok:
  "apply_update_page pid patch s = (Inr op', s') \<longleftrightarrow>
     (\<exists>pg. scene_page s pid = Some pg \<and> op' = UpdatePage pid patch (capture_prev_page pg patch)
        \<and> s' = set_page s pid (apply_page_patch pg patch))"
  by (auto simp: apply_update_page_def split: option.split)

lemma apply_reorder_pages_Ok:
  "apply_reorder_pages order s = (Inr op', s') \<longleftrightarrow>
     ensure_same_page_set (sc_pages s) order = Inr ()
     \<and> op' = ReorderPages order (im_keys (sc_pages s))
     \<and> s' = s\<lparr>sc_pages := reorder_indexmap (sc_pages s) order\<rparr>"
  by (auto simp: apply_reorder_pages_def split: sum.split)

lemma apply_add_node_Ok:
  "apply_add_node pid n at s = (Inr op', s') \<longleftrightarrow>
     (\<exists>pg. scene_page s pid = Some pg \<and> \<not> im_contains_key (page_nodes pg) (node_id n)
        \<and> at \<le> length (page_nodes pg)
        \<and> roles_ok (pg\<lparr>page_nodes := insert_shifted (page_nodes pg) (node_id n) n at\<rparr>)
        \<and> op' = AddNode pid n at
        \<and> s' = set_page s pid (pg\<lparr>page_nodes := insert_shifted (page_nodes pg) (node_id n) n at\<rparr>))"
  by (cases "scene_page s pid") (auto simp: apply_add_node_def Let_def
       dest: validate_page_invariants_Err split: sum.split)

lemma apply_remove_node_Ok:
  "apply_remove_node pid nid s = (Inr op', s') \<longleftrightarrow>
     (\<exists>pg i k n nodes. scene_page s pid = Some pg \<and> im_get_index_of (page_nodes pg) nid = Some i
        \<and> im_shift_remove_index (page_nodes pg) i = Some ((k, n), nodes)
        \<and> op' = RemoveNode pid nid n i \<and> s' = set_page s pid (pg\<lparr>page_nodes := nodes\<rparr>))"
  by (auto simp: apply_remove_node_def simp del: im_get_index_of_None split: option.split)

lemma apply_update_node_Ok:
  "apply_update_node pid nid patch s = (Inr op', s') \<longleftrightarrow>
     (\<exists>pg n. scene_page s pid = Some pg \<and> im_get (page_nodes pg) nid = Some n
        \<and> check_patch_kind n patch = Inr ()
        \<and> op' = UpdateNode pid nid patch (capture_prev_node_patch n patch)
        \<and> s' = set_page s pid (set_node pg nid (apply_node_patch n patch)))"
  by (auto simp: apply_update_node_def split: option.split sum.split)

lemma apply_reorder_nodes_Ok:
  "apply_reorder_nodes pid order s = (Inr op', s') \<longleftrightarrow>
     (\<exists>pg. scene_page s pid = Some pg \<and> ensure_same_node_set pg order = Inr ()
        \<and> op' = ReorderNodes pid order (im_keys (page_nodes pg))
        \<and> s' = set_page s pid (pg\<lparr>page_nodes := reorder_indexmap (page_nodes pg) order\<rparr>))"
  by (auto simp: apply_reorder_nodes_def split: option.split sum.split)

lemma apply_batch_Ok:
  "apply_op (Batch ops label) s = (Inr op', s') \<longleftrightarrow>
     (\<exists>ops'. apply_ops ops s = (Inr ops', s') \<and> op' = Batch ops' label)"
  by (auto split: prod.split sum.split)

lemma apply_ops_Cons_Ok:
  "apply_ops (a # ops) s = (Inr r, s') \<longleftrightarrow>
     (\<exists>a' ops' t. apply_op a s = (Inr a', t) \<and> apply_ops ops t = (Inr ops', s') \<and> r = a' # ops')"
  by (auto split: prod.split sum.split)

lemmas arm_Ok = apply_update_project_meta_Ok apply_add_page_Ok apply_remove_page_Ok
  apply_update_page_Ok apply_reorder_pages_Ok apply_add_node_Ok apply_remove_node_Ok
  apply_update_node_Ok apply_reorder_nodes_Ok

lemmas ops_Ok = apply_batch_Ok apply_ops_Cons_Ok

declare apply_op.simps(10) [simp del] apply_ops.simps(2) [simp del]


lemma redo_ops:
  assumes "\<And>a s a' s'. a \<in> set ops \<Longrightarrow> apply_op a s = (Inr a', s') \<Longrightarrow> apply_op a' s = (Inr a', s')"
    and "apply_ops ops s = (Inr ops', s')"
  shows "apply_ops ops' s = (Inr ops', s')"
  using assms
proof (induction ops arbitrary: s ops')
  case (Cons a ops)
  from Cons.prems(2) obtain a' t r
    where *: "apply_op a s = (Inr a', t)" "apply_ops ops t = (Inr r, s')" "ops' = a' # r"
    unfolding apply_ops_Cons_Ok by blast
  have "apply_op a' s = (Inr a', t)"
    using Cons.prems(1) *(1) by (meson list.set_intros(1))
  moreover have "apply_ops r t = (Inr r, s')"
    using Cons.IH [OF _ *(2)] Cons.prems(1) by (meson list.set_intros(2))
  ultimately show ?case using * by (simp add: apply_ops_Cons_Ok)
qed simp

lemma redo_simple: 
  "apply_op op s = (Inr op', s') \<Longrightarrow> apply_op op' s = (Inr op', s')"
proof (induction op arbitrary: s op' s')
  case (Batch ops label)
  from Batch.prems obtain ops' where "apply_ops ops s = (Inr ops', s')" "op' = Batch ops' label"
    unfolding apply_batch_Ok by blast
  moreover from this Batch.IH have "apply_ops ops' s = (Inr ops', s')"
    by (blast intro: redo_ops)
  ultimately show ?case by (simp add: apply_batch_Ok)
qed (auto simp: arm_Ok)

section \<open>Well-formedness\<close>

lemma roles_ok_insert_shifted_cong: "page_nodes p = page_nodes q \<Longrightarrow> roles_ok p = roles_ok q"
  by (rule roles_ok_cong) simp

lemma role_count_remove:
  assumes "im_shift_remove_index (page_nodes pg) i = Some ((k, n), nodes)" "roles_ok pg"
  shows "roles_ok (pg\<lparr>page_nodes := nodes\<rparr>)"
proof -
  have "i < length (page_nodes pg)" "nodes = remove_at i (page_nodes pg)"
    using assms(1) by (auto simp: im_shift_remove_index_def split: if_splits)
  then have "mset nodes \<subseteq># mset (page_nodes pg)"
    by (metis mset_remove_at mset_subset_eq_add_right add_mset_add_single subset_mset.le_add_same_cancel1 mset_subset_eq_add_left)
  then have "role_count has (pg\<lparr>page_nodes := nodes\<rparr>) \<le> role_count has pg" for has
    by (simp add: role_count_mset image_mset_subseteq_mono multiset_filter_mono size_mset_mono)
  with assms(2) show ?thesis
    unfolding roles_ok_def by (meson le_trans)
qed

lemma roles_ok_same_values:
  assumes "\<And>has. has \<in> range has_image_role \<union> range has_mask_role
             \<Longrightarrow> map has (im_values (page_nodes p)) = map has (im_values (page_nodes q))"
  shows "roles_ok p = roles_ok q"
proof -
  have len: "length (filter f xs) = length (filter g ys)" if "map f xs = map g ys" for f g xs ys
    using that by (induction xs arbitrary: ys) auto
  have "role_count has p = role_count has q" if "has \<in> range has_image_role \<union> range has_mask_role" for has
    unfolding role_count_def by (intro len assms that)
  then show ?thesis by (simp add: roles_ok_def)
qed

lemma apply_node_patch_roles:
  "has_image_role r (apply_node_patch n p) = has_image_role r n"
  "has_mask_role q (apply_node_patch n p) = has_mask_role q n"
  by (auto simp: has_image_role_def has_mask_role_def apply_node_patch_def apply_data_patch_def
      apply_image_patch_def apply_mask_patch_def split: option.split node_kind.split node_data_patch.split)

lemma apply_node_patch_id [simp]: "node_id (apply_node_patch n p) = node_id n"
  by (simp add: apply_node_patch_def)

lemma page_ok_set_node:
  assumes "page_ok pg" "im_get (page_nodes pg) nid = Some n"
  shows "page_ok (set_node pg nid (apply_node_patch n p))"
proof -
  have key: "node_id n = nid"
    using assms by (auto simp: page_ok_def dest: keyed_get)
  have v: "v = n" if "(nid, v) \<in> set (page_nodes pg)" for v
    using that assms page_ok_distinct [OF assms(1)]
    by (metis im_get_def im_keys_def map_of_is_SomeI option.inject)
  have "roles_ok (set_node pg nid (apply_node_patch n p)) = roles_ok pg"
    by (rule roles_ok_same_values)
       (auto simp: set_node_def im_set_def im_values_def apply_node_patch_roles dest: v split: if_splits)
  with assms key show ?thesis
    by (simp add: page_ok_def set_node_def keyed_set)
qed

lemma page_ok_add_node:
  "page_ok pg \<Longrightarrow> \<not> im_contains_key (page_nodes pg) (node_id n) \<Longrightarrow> at \<le> length (page_nodes pg)
   \<Longrightarrow> roles_ok (pg\<lparr>page_nodes := insert_shifted (page_nodes pg) (node_id n) n at\<rparr>)
   \<Longrightarrow> page_ok (pg\<lparr>page_nodes := insert_shifted (page_nodes pg) (node_id n) n at\<rparr>)"
  by (simp add: page_ok_def keyed_insert)

lemma page_ok_remove_node:
  "page_ok pg \<Longrightarrow> im_shift_remove_index (page_nodes pg) i = Some ((k, n), nodes)
   \<Longrightarrow> page_ok (pg\<lparr>page_nodes := nodes\<rparr>)"
  by (auto simp: page_ok_def intro: role_count_remove dest: keyed_shift_remove)

lemma page_ok_reorder:
  "page_ok pg \<Longrightarrow> page_ok (pg\<lparr>page_nodes := reorder_indexmap (page_nodes pg) order\<rparr>)"
  by (auto simp: page_ok_def keyed_reorder intro: roles_ok_cong [THEN iffD1, rotated])

lemma page_ok_patch: "page_ok (apply_page_patch pg p) = page_ok pg"
  by (simp add: page_ok_def apply_page_patch_def roles_ok_def role_count_def)

lemma scene_ok_pages:
  assumes "scene_ok s" "keyed page_id pages"
    and "\<And>p. p \<in> set (im_values pages) \<Longrightarrow> p \<in> set (im_values (sc_pages s)) \<or> page_ok p"
  shows "scene_ok (s\<lparr>sc_pages := pages\<rparr>)"
  using assms by (auto simp: scene_ok_def list_all_iff)

lemma shift_remove_set:
  assumes "im_shift_remove_index m i = Some ((k, v), m')"
  shows "set m = insert (k, v) (set m')"
proof -
  have "mset m = add_mset (k, v) (mset m')"
    using assms by (auto simp: im_shift_remove_index_def mset_remove_at split: if_splits)
       (metis mset_remove_at)
  then show ?thesis by (metis set_mset_add_mset_insert set_mset_mset)
qed

lemma page_removed_ok:
  assumes "scene_ok s" "im_shift_remove_index (sc_pages s) i = Some ((k, pg), pages)"
  shows "page_ok pg" and "page_id pg = k" and "scene_ok (s\<lparr>sc_pages := pages\<rparr>)"
proof -
  have set: "set (sc_pages s) = insert (k, pg) (set pages)"
    by (rule shift_remove_set [OF assms(2)])
  then show "page_ok pg" "page_id pg = k"
    using assms(1) by (auto simp: scene_ok_def list_all_iff keyed_def im_values_def)
  show "scene_ok (s\<lparr>sc_pages := pages\<rparr>)"
    using assms set by (intro scene_ok_pages) (auto simp: scene_ok_def im_values_def dest: keyed_shift_remove)
qed

lemma node_removed_id:
  assumes "page_ok pg" "im_shift_remove_index (page_nodes pg) i = Some ((k, n), nodes)"
  shows "node_id n = k"
  using shift_remove_set [OF assms(2)] assms(1) by (auto simp: page_ok_def keyed_def list_all_iff)

lemma scene_ok_add_page:
  "scene_ok s \<Longrightarrow> page_ok pg \<Longrightarrow> \<not> im_contains_key (sc_pages s) (page_id pg) \<Longrightarrow> at \<le> length (sc_pages s)
   \<Longrightarrow> scene_ok (s\<lparr>sc_pages := insert_shifted (sc_pages s) (page_id pg) pg at\<rparr>)"
  by (rule scene_ok_pages)
     (auto simp: scene_ok_def keyed_insert, auto simp: insert_shifted_eq im_values_def map_insert_at)

lemma scene_ok_reorder:
  "scene_ok s \<Longrightarrow> scene_ok (s\<lparr>sc_pages := reorder_indexmap (sc_pages s) order\<rparr>)"
  by (rule scene_ok_pages) (auto simp: scene_ok_def keyed_reorder im_values_def)

lemma scene_ok_set_page:
  "scene_ok s \<Longrightarrow> scene_page s pid = Some pg \<Longrightarrow> page_ok q \<Longrightarrow> page_id q = page_id pg \<Longrightarrow> scene_ok (set_page s pid q)"
  using scene_page_ok [of s pid pg] by (simp add: set_page_ok)

lemma scene_ok_project [simp]: "scene_ok (s\<lparr>sc_project := m\<rparr>) = scene_ok s"
  by (simp add: scene_ok_def)

lemma page_ok_of: "scene_ok s \<Longrightarrow> scene_page s pid = Some pg \<Longrightarrow> page_ok pg"
  by (simp add: scene_page_ok)

lemma page_id_simps [simp]:
  "page_id (set_node pg nid n) = page_id pg" "page_id (apply_page_patch pg p) = page_id pg"
  by (simp_all add: set_node_def apply_page_patch_def)

definition recorded_ok :: "op \<Rightarrow> bool" where
  "recorded_ok op \<longleftrightarrow> op_ok op \<and> op_ok (inverse_op op)"

text \<open>What one step keeps, arm by arm, and then for the whole of a batch.\<close>

lemma ops_keep:
  assumes "\<And>a s a' s'. a \<in> set ops \<Longrightarrow> apply_op a s = (Inr a', s') \<Longrightarrow> scene_ok s \<Longrightarrow> op_ok a
             \<Longrightarrow> scene_ok s' \<and> recorded_ok a'"
    and "apply_ops ops s = (Inr ops', s')" "scene_ok s" "list_all op_ok ops"
  shows "scene_ok s' \<and> list_all recorded_ok ops'"
  using assms
proof (induction ops arbitrary: s ops')
  case (Cons a ops)
  from Cons.prems(2) obtain a' t r
    where *: "apply_op a s = (Inr a', t)" "apply_ops ops t = (Inr r, s')" "ops' = a' # r"
    unfolding apply_ops_Cons_Ok by blast
  have t: "scene_ok t \<and> recorded_ok a'"
    by (rule Cons.prems(1) [OF _ *(1)]) (use Cons.prems(3,4) in simp_all)
  have "scene_ok s' \<and> list_all recorded_ok r"
    by (rule Cons.IH [OF Cons.prems(1) *(2)]) (use t Cons.prems(4) in simp_all)
  with t *(3) show ?case by simp
qed simp

lemma apply_op_keeps:
  "apply_op op s = (Inr op', s') \<Longrightarrow> scene_ok s \<Longrightarrow> op_ok op \<Longrightarrow> scene_ok s' \<and> recorded_ok op'"
proof (induction op arbitrary: s op' s')
  case (Batch ops label)
  from Batch.prems obtain ops' where *: "apply_ops ops s = (Inr ops', s')" "op' = Batch ops' label"
    unfolding apply_batch_Ok by blast
  moreover have "scene_ok s' \<and> list_all recorded_ok ops'"
    by (rule ops_keep [OF Batch.IH *(1)]) (use Batch.prems in auto)
  ultimately show ?case by (auto simp: recorded_ok_def list_all_iff)
qed (auto simp: arm_Ok recorded_ok_def scene_ok_add_page scene_ok_reorder page_ok_patch
       page_ok_add_node page_ok_remove_node page_ok_reorder page_ok_set_node
     dest: page_removed_ok page_ok_of
     intro!: scene_ok_set_page)
section \<open>Undo\<close>

lemma apply_captured_meta [simp]: "apply_meta_patch (apply_meta_patch m p) (capture_prev_meta m p) = m"
  by (simp add: apply_meta_patch_def capture_prev_meta_def)

lemma apply_captured_page [simp]: "apply_page_patch (apply_page_patch pg p) (capture_prev_page pg p) = pg"
  by (simp add: apply_page_patch_def capture_prev_page_def)

lemma apply_captured_data:
  "discriminant k = patch_tag dp \<Longrightarrow> apply_data_patch (apply_data_patch k dp) (capture_prev_data k dp) = k"
  by (cases k; cases dp)
     (simp_all add: apply_data_patch_def capture_prev_data_def capture_prev_text_def
       capture_prev_image_def capture_prev_mask_def apply_text_patch_def apply_image_patch_def
       apply_mask_patch_def)

lemma patch_tag_capture [simp]: "patch_tag (capture_prev_data k dp) = patch_tag dp"
  by (cases dp) (simp_all add: capture_prev_data_def)

lemma discriminant_apply [simp]: "discriminant (apply_data_patch k dp) = discriminant k"
  by (cases k; cases dp) (simp_all add: apply_data_patch_def)

lemma check_patch_kind_Ok:
  "check_patch_kind n p = Inr u \<longleftrightarrow> (\<forall>dp. np_data p = Some dp \<longrightarrow> discriminant (node_kind n) = patch_tag dp)"
  by (auto simp: check_patch_kind_def Let_def split: option.split)

lemma apply_captured_node:
  "check_patch_kind n p = Inr u \<Longrightarrow> apply_node_patch (apply_node_patch n p) (capture_prev_node_patch n p) = n"
  by (cases "np_data p")
     (auto simp: check_patch_kind_Ok apply_node_patch_def capture_prev_node_patch_def apply_captured_data)

lemma check_captured_node:
  "check_patch_kind n p = Inr u \<Longrightarrow> check_patch_kind (apply_node_patch n p) (capture_prev_node_patch n p) = Inr ()"
  by (cases "np_data p")
     (auto simp: check_patch_kind_Ok apply_node_patch_def capture_prev_node_patch_def)

lemma ensure_keys_pages [simp]: "ensure_same_page_set (reorder_indexmap m order) (im_keys m) = Inr ()"
  by (auto simp: ensure_same_page_set_def list_ex_iff) (simp add: im_contains_key_def)

lemma ensure_keys_nodes [simp]:
  "page_nodes q = reorder_indexmap (page_nodes p) order \<Longrightarrow> ensure_same_node_set q (im_keys (page_nodes p)) = Inr ()"
  by (auto simp: ensure_same_node_set_def list_ex_iff) (simp add: im_contains_key_def)

lemma set_node_back:
  "distinct (im_keys (page_nodes pg)) \<Longrightarrow> im_get (page_nodes pg) nid = Some n \<Longrightarrow> set_node (set_node pg nid m) nid n = pg"
  by (simp add: set_node_def im_set_same)

lemma im_get_set_node [simp]:
  "im_get (page_nodes pg) nid = Some n \<Longrightarrow> im_get (page_nodes (set_node pg nid m)) nid = Some m"
  by (auto simp: set_node_def im_contains_key_iff)

lemma undo_add_page:
  "apply_add_page pg at s = (Inr op', s') \<Longrightarrow> \<exists>r. apply_op (inverse_op op') s' = (Inr r, s)"
  by (auto simp: arm_Ok shift_remove_after_insert)

lemma undo_remove_page:
  assumes "scene_ok s" "apply_remove_page pid s = (Inr op', s')"
  shows "\<exists>r. apply_op (inverse_op op') s' = (Inr r, s)"
proof -
  obtain i k pg pages where *: "im_get_index_of (sc_pages s) pid = Some i"
      "im_shift_remove_index (sc_pages s) i = Some ((k, pg), pages)"
      "op' = RemovePage pid pg i" "s' = s\<lparr>sc_pages := pages\<rparr>"
    using assms(2) by (auto simp: arm_Ok)
  note restored = insert_after_shift_remove [OF scene_ok_distinct [OF assms(1)] *(1) *(2)]
  have "page_id pg = pid"
    using page_removed_ok(2) [OF assms(1) *(2)] restored(1) by simp
  then show ?thesis using * restored by (simp add: arm_Ok)
qed

lemma undo_add_node:
  assumes "scene_ok s" "apply_add_node pid n at s = (Inr op', s')"
  shows "\<exists>r. apply_op (inverse_op op') s' = (Inr r, s)"
  using assms by (fastforce simp: arm_Ok shift_remove_after_insert set_page_same)

lemma undo_remove_node:
  assumes "scene_ok s" "apply_remove_node pid nid s = (Inr op', s')"
  shows "\<exists>r. apply_op (inverse_op op') s' = (Inr r, s)"
proof -
  obtain pg i k n nodes where *: "scene_page s pid = Some pg" "im_get_index_of (page_nodes pg) nid = Some i"
        "im_shift_remove_index (page_nodes pg) i = Some ((k, n), nodes)"
        "op' = RemoveNode pid nid n i" "s' = set_page s pid (pg\<lparr>page_nodes := nodes\<rparr>)"
    using assms(2) by (auto simp: arm_Ok)
  have pg: "page_ok pg" using page_ok_of [OF assms(1) *(1)] .
  note restored = insert_after_shift_remove [OF page_ok_distinct [OF pg] *(2) *(3)]
  have "node_id n = nid"
    using node_removed_id [OF pg *(3)] restored(1) by simp
  then show ?thesis using * restored pg assms(1) by (simp add: arm_Ok set_page_same page_ok_def)
qed

lemma undo_update_node:
  assumes "scene_ok s" "apply_update_node pid nid patch s = (Inr op', s')"
  shows "\<exists>r. apply_op (inverse_op op') s' = (Inr r, s)"
proof -
  obtain pg n where *: "scene_page s pid = Some pg" "im_get (page_nodes pg) nid = Some n"
        "check_patch_kind n patch = Inr ()"
        "op' = UpdateNode pid nid patch (capture_prev_node_patch n patch)"
        "s' = set_page s pid (set_node pg nid (apply_node_patch n patch))"
    using assms(2) by (auto simp: arm_Ok)
  have "set_node (set_node pg nid (apply_node_patch n patch)) nid n = pg"
    using * page_ok_distinct [OF page_ok_of [OF assms(1)]] by (simp add: set_node_back)
  then show ?thesis
    using * assms(1) by (simp add: arm_Ok check_captured_node apply_captured_node set_page_same)
qed

lemma undo_reorder_nodes:
  assumes "scene_ok s" "apply_reorder_nodes pid order s = (Inr op', s')"
  shows "\<exists>r. apply_op (inverse_op op') s' = (Inr r, s)"
  using assms page_ok_distinct [OF page_ok_of [OF assms(1)]]
  by (auto simp: arm_Ok reorder_back set_page_same)

lemma apply_ops_append:
  "apply_ops xs s = (Inr r, t) \<Longrightarrow> apply_ops ys t = (Inr q, u) \<Longrightarrow> apply_ops (xs @ ys) s = (Inr (r @ q), u)"
proof (induction xs arbitrary: s r)
  case (Cons a xs)
  from Cons.prems(1) obtain a' t' r' where "apply_op a s = (Inr a', t')" "apply_ops xs t' = (Inr r', t)" "r = a' # r'"
    unfolding apply_ops_Cons_Ok by blast
  with Cons show ?case by (simp add: apply_ops_Cons_Ok)
qed simp

lemma undo_ops:
  assumes "\<And>a s a' s'. a \<in> set ops \<Longrightarrow> apply_op a s = (Inr a', s') \<Longrightarrow> scene_ok s \<Longrightarrow> op_ok a
             \<Longrightarrow> \<exists>r. apply_op (inverse_op a') s' = (Inr r, s)"
    and "apply_ops ops s = (Inr ops', s')" "scene_ok s" "list_all op_ok ops"
  shows "\<exists>r. apply_ops (map inverse_op (rev ops')) s' = (Inr r, s)"
  using assms
proof (induction ops arbitrary: s ops')
  case (Cons a ops)
  from Cons.prems(2) obtain a' t r
    where *: "apply_op a s = (Inr a', t)" "apply_ops ops t = (Inr r, s')" "ops' = a' # r"
    unfolding apply_ops_Cons_Ok by blast
  have t: "scene_ok t"
    using apply_op_keeps [OF *(1)] Cons.prems(3,4) by simp
  obtain q where q: "apply_ops (map inverse_op (rev r)) s' = (Inr q, t)"
    using Cons.IH [OF Cons.prems(1) *(2) t] Cons.prems(4) by fastforce
  obtain b where "apply_op (inverse_op a') t = (Inr b, s)"
    using Cons.prems(1) [OF _ *(1)] Cons.prems(3,4) by auto
  then have "apply_ops [inverse_op a'] t = (Inr [b], s)"
    by (simp add: apply_ops_Cons_Ok)
  from apply_ops_append [OF q this] *(3) show ?case by auto
qed simp

lemma undo_restores:
  "apply_op op s = (Inr op', s') \<Longrightarrow> scene_ok s \<Longrightarrow> op_ok op
   \<Longrightarrow> \<exists>r. apply_op (inverse_op op') s' = (Inr r, s)"
proof (induction op arbitrary: s op' s')
  case (Batch ops label)
  from Batch.prems obtain ops' where *: "apply_ops ops s = (Inr ops', s')" "op' = Batch ops' label"
    unfolding apply_batch_Ok by blast
  moreover have "\<exists>r. apply_ops (map inverse_op (rev ops')) s' = (Inr r, s)"
    by (rule undo_ops [OF Batch.IH *(1)]) (use Batch.prems in auto)
  ultimately show ?case by (auto simp: apply_batch_Ok)
next
  case (AddPage pg at)
  then show ?case by (simp add: undo_add_page)
next
  case (RemovePage pid pg i)
  then show ?case by (simp add: undo_remove_page)
next
  case (AddNode pid n at)
  then show ?case by (simp add: undo_add_node)
next
  case (RemoveNode pid nid n i)
  then show ?case by (simp add: undo_remove_node)
next
  case (UpdateNode pid nid p q)
  then show ?case by (simp add: undo_update_node)
next
  case (ReorderNodes pid order prev)
  then show ?case by (simp add: undo_reorder_nodes)
qed (auto simp: arm_Ok set_page_same reorder_back scene_ok_distinct)
section \<open>The laws of \<open>Undo_Law\<close>\<close>

interpretation scene_undo: undo_law apply_op inverse_op scene_ok op_ok
proof
  fix a a' s s'
  show "apply_op a s = (Inr a', s') \<Longrightarrow> scene_ok s \<Longrightarrow> op_ok a
          \<Longrightarrow> scene_ok s' \<and> op_ok a' \<and> op_ok (inverse_op a')"
    using apply_op_keeps [of a s a' s'] by (simp add: recorded_ok_def)
qed (auto intro: undo_restores redo_simple)

section \<open>Pre-flight validation\<close>

primrec is_batch :: "op \<Rightarrow> bool" where
  "is_batch (UpdateProjectMeta _ _) = False"
| "is_batch (AddPage _ _) = False"
| "is_batch (RemovePage _ _ _) = False"
| "is_batch (UpdatePage _ _ _) = False"
| "is_batch (ReorderPages _ _) = False"
| "is_batch (AddNode _ _ _) = False"
| "is_batch (RemoveNode _ _ _ _) = False"
| "is_batch (UpdateNode _ _ _ _) = False"
| "is_batch (ReorderNodes _ _ _) = False"
| "is_batch (Batch _ _) = True"

lemma scene_page_None: "scene_page s pid = None \<longleftrightarrow> \<not> im_contains_key (sc_pages s) pid"
  using im_contains_key_iff [of "sc_pages s" pid] by (cases "scene_page s pid") (auto simp: scene_page_def)

lemma shift_remove_found:
  "im_get_index_of m k = Some i \<Longrightarrow> \<exists>kv m'. im_shift_remove_index m i = Some (kv, m')"
  using im_get_index_of_Some [of m k i] by (simp add: im_shift_remove_index_def)

lemma index_of_contains: "im_get_index_of m k = Some i \<Longrightarrow> im_contains_key m k"
  by (metis im_get_index_of_None not_None_eq)

text \<open>A rejected operation is rejected by \<open>apply\<close> with the same error and no effect.\<close>

lemma validate_rejects:
  "validate_op op s = Inl e \<Longrightarrow> \<not> is_batch op \<Longrightarrow> apply_op op s = (Inl e, s)"
proof (cases op)
  case (RemovePage pid pg i)
  assume "validate_op op s = Inl e"
  then have "im_get_index_of (sc_pages s) pid = None" "e = PageNotFound pid"
    using RemovePage by (auto simp: scene_page_None split: option.splits)
  with RemovePage show ?thesis
    by (simp add: apply_remove_page_def del: im_get_index_of_None)
qed (auto simp: apply_arms scene_node_def Let_def dest: index_of_contains
       split: option.splits if_splits sum.splits)

text \<open>
  An accepted operation is carried out, unless it adds a node that gives the page a second
  holder of an exclusive role: that is the one thing \<open>apply\<close> checks and \<open>validate\<close> does not.
\<close>

lemma remove_page_total: "im_contains_key (sc_pages s) pid \<Longrightarrow> \<exists>r s'. apply_remove_page pid s = (Inr r, s')"
  by (cases "im_get_index_of (sc_pages s) pid")
     (auto simp: apply_remove_page_def split: option.split dest: shift_remove_found)

lemma remove_node_total:
  "scene_page s pid = Some pg \<Longrightarrow> im_contains_key (page_nodes pg) nid
     \<Longrightarrow> \<exists>r s'. apply_remove_node pid nid s = (Inr r, s')"
  by (cases "im_get_index_of (page_nodes pg) nid")
     (auto simp: apply_remove_node_def split: option.split dest: shift_remove_found)

lemma validate_accepts:
  assumes "validate_op op s = Inr ()" "\<not> is_batch op" "apply_op op s = (Inl e, s')"
  obtains pid n at pg pg' where "op = AddNode pid n at" "scene_page s pid = Some pg"
    "pg' = pg\<lparr>page_nodes := insert_shifted (page_nodes pg) (node_id n) n at\<rparr>"
    "validate_page_invariants pg' = Inl e" "s' = set_page s pid pg'"
proof (cases op)
  case (AddNode pid n at)
  from assms(1) AddNode obtain pg where pg: "scene_page s pid = Some pg"
      "\<not> im_contains_key (page_nodes pg) (node_id n)" "\<not> at > length (page_nodes pg)"
    by (auto split: option.splits if_splits)
  with assms(3) AddNode that show thesis
    by (auto simp: apply_add_node_def Let_def split: sum.splits)
next
  case (RemovePage pid pg i)
  with assms(1) have "im_contains_key (sc_pages s) pid"
    by (auto split: option.splits dest: scene_page_Some_contains)
  with remove_page_total [of s pid] assms(3) RemovePage show thesis by auto
next
  case (RemoveNode pid nid n i)
  with assms(1) obtain pg where "scene_page s pid = Some pg" "im_contains_key (page_nodes pg) nid"
    by (auto split: option.splits if_splits)
  with remove_node_total [of s pid pg nid] assms(3) RemoveNode show thesis by auto
qed (use assms in \<open>auto simp: apply_arms scene_node_def Let_def
       split: option.splits if_splits sum.splits\<close>)

end
