(* ===== verification/Scene_Op_Props.thy ===== *)
theory Scene_Op_Props
  imports Scene_Op_Laws
begin

text \<open>
  The properties of scene operations, stated over \<open>Scene_Op\<close> and derived from the laws of
  \<open>Scene_Op_Laws\<close>, with a small concrete scene on which each is exercised.
\<close>

section \<open>A concrete scene\<close>

definition demo_node :: "uuid \<Rightarrow> image_role \<Rightarrow> node" where
  "demo_node i r =
     \<lparr>node_id = NodeId i, node_transform = default_transform, node_visible = True,
      node_kind = Image \<lparr>img_role = r, img_blob = BlobRef (lit ''ab''), img_opacity = default_opacity,
        img_natural_width = 800, img_natural_height = 600, img_name = None\<rparr>\<rparr>"

definition demo_page :: "uuid \<Rightarrow> page" where
  "demo_page i = (new_page (PageId i) (lit ''p'') 800 600)
     \<lparr>page_nodes := [(NodeId 1, demo_node 1 Source), (NodeId 2, demo_node 2 Custom)]\<rparr>"

definition demo_scene :: scene where
  "demo_scene = (default_scene 0)
     \<lparr>sc_pages := [(PageId 1, demo_page 1), (PageId 2, demo_page 2)]\<rparr>"

lemmas demo_defs = demo_node_def demo_page_def demo_scene_def new_page_def default_scene_def

lemma demo_page_ok: "page_ok (demo_page i)"
  by (simp add: demo_defs page_ok_def roles_ok_def role_count_def im_values_def keyed_def
      im_keys_def has_image_role_def has_mask_role_def)

lemma demo_scene_ok: "scene_ok demo_scene"
proof -
  have "sc_pages demo_scene = [(PageId 1, demo_page 1), (PageId 2, demo_page 2)]"
    by (simp add: demo_scene_def)
  moreover have "page_id (demo_page i) = PageId i" for i
    by (simp add: demo_page_def new_page_def)
  ultimately show ?thesis
    by (simp add: scene_ok_def keyed_def im_keys_def im_values_def demo_page_ok)
qed

section \<open>Undo and redo\<close>


definition demo_batch :: op where
  "demo_batch = Batch [RemovePage (PageId 1) (demo_page 9) 7,
                       AddNode (PageId 2) (demo_node 3 Rendered) 2] (lit ''edit'')"

definition demo_recorded :: op where
  "demo_recorded = Batch [RemovePage (PageId 1) (demo_page 1) 0,
                          AddNode (PageId 2) (demo_node 3 Rendered) 2] (lit ''edit'')"

definition demo_after :: scene where
  "demo_after = demo_scene\<lparr>sc_pages := [(PageId 2, (demo_page 2)\<lparr>page_nodes :=
     [(NodeId 1, demo_node 1 Source), (NodeId 2, demo_node 2 Custom), (NodeId 3, demo_node 3 Rendered)]\<rparr>)]\<rparr>"

lemma demo_remove: "apply_remove_page (PageId 1) demo_scene
    = (Inr (RemovePage (PageId 1) (demo_page 1) 0), demo_scene\<lparr>sc_pages := [(PageId 2, demo_page 2)]\<rparr>)"
  by (simp add: apply_remove_page_def demo_scene_def im_get_index_of_def im_keys_def
      im_shift_remove_index_def remove_at_def)

lemma demo_add: "apply_add_node (PageId 2) (demo_node 3 Rendered) 2 (demo_scene\<lparr>sc_pages := [(PageId 2, demo_page 2)]\<rparr>)
    = (Inr (AddNode (PageId 2) (demo_node 3 Rendered) 2), demo_after)"
proof -
  define nodes where "nodes = [(NodeId 1, demo_node 1 Source), (NodeId 2, demo_node 2 Custom), (NodeId 3, demo_node 3 Rendered)]"
  have n: "page_nodes (demo_page 2) = [(NodeId 1, demo_node 1 Source), (NodeId 2, demo_node 2 Custom)]"
    "node_id (demo_node 3 Rendered) = NodeId 3"
    by (simp_all add: demo_page_def new_page_def demo_node_def)
  have free: "\<not> im_contains_key (page_nodes (demo_page 2)) (NodeId 3)"
    by (simp add: n im_contains_key_def im_keys_def)
  have ins: "insert_shifted (page_nodes (demo_page 2)) (NodeId 3) (demo_node 3 Rendered) 2 = nodes"
    by (subst insert_shifted_eq [OF free]) (simp_all add: n nodes_def insert_at_def)
  have "roles_ok ((demo_page 2)\<lparr>page_nodes := nodes\<rparr>)"
    by (simp add: nodes_def roles_ok_def role_count_def im_values_def demo_node_def
        has_image_role_def has_mask_role_def)
  then show ?thesis
    using free n ins
    by (subst apply_add_node_Ok)
       (auto simp: scene_page_def im_get_def demo_after_def set_page_def im_set_def demo_scene_def nodes_def)
qed

lemma demo_run: "apply_op demo_batch demo_scene = (Inr demo_recorded, demo_after)"
  by (simp add: demo_batch_def demo_recorded_def apply_batch_Ok apply_ops_Cons_Ok demo_remove demo_add)


text \<open>\<open>AddPage\<close> takes a page as it is. A batch that adds a page with two source images and removes one of
  them is applied, but its inverse is refused: it would have to bring the second source image back.\<close>

definition two_sources :: page where
  "two_sources = (new_page (PageId 3) (lit ''q'') 800 600)
     \<lparr>page_nodes := [(NodeId 1, demo_node 1 Source), (NodeId 2, demo_node 2 Source)]\<rparr>"

lemma unchecked_page_breaks_undo:
  "(case apply_op (Batch [AddPage two_sources 0, RemoveNode (PageId 3) (NodeId 2) (demo_node 2 Source) 1] (lit ''edit'')) demo_scene of
      (Inr recorded, s') \<Rightarrow> \<not> is_ok (fst (apply_op (inverse_op recorded) s')) | _ \<Rightarrow> False)"
  by code_simp

text \<open>Redoing reproduces the edit. The recorded operation, applied again to the scene
  the original was applied to, succeeds with the same result and records itself, so it can
  travel between the undo and the redo stack any number of times.\<close>
theorem redo_reproduces_scene:
  assumes "apply_op op s = (Inr recorded, s')"
  shows "apply_op recorded s = (Inr recorded, s')"
  by (rule scene_undo.stable [OF assms])

theorem redo_reproduces_scene_witness:
  "apply_op demo_recorded demo_scene = (Inr demo_recorded, demo_after)"
  by (rule redo_reproduces_scene [OF demo_run])

section \<open>The invariant of the scene\<close>

text \<open>A successful operation keeps the scene well-formed: every page is stored under
  its own id and every node under its own id, no id occurs twice, and no page has two nodes
  in one exclusive role. The recorded operation and its inverse are legal again.\<close>
theorem apply_keeps_scene_ok:
  assumes "scene_ok s" "op_ok op" "apply_op op s = (Inr recorded, s')"
  shows "scene_ok s' \<and> op_ok recorded \<and> op_ok (inverse_op recorded)"
  by (rule scene_undo.keeps [OF assms(3,1,2)])

theorem apply_keeps_scene_ok_witness:
  "scene_ok demo_after \<and> op_ok demo_recorded \<and> op_ok (inverse_op demo_recorded)"
  by (rule apply_keeps_scene_ok [OF demo_scene_ok _ demo_run]) (simp add: demo_batch_def)

section \<open>Errors\<close>



text \<open>For a batch the two differ: validation checks every operation in the scene the batch starts from, so a
  batch that adds a page and then a node on it is rejected, although \<open>apply\<close> would apply it.\<close>
lemma valid_batch_rejected:
  "let op = Batch [AddPage (new_page (PageId 3) (lit ''q'') 800 600) 0, AddNode (PageId 3) (demo_node 1 Source) 0] (lit ''edit'')
   in \<not> is_ok (validate_op op demo_scene) \<and> is_ok (fst (apply_op op demo_scene))"
  by code_simp

text \<open>An operation that adds a second source image is refused only after the node is
  in the scene. The caller sees \<open>Invariant\<close>, the scene keeps the rejected node and is no
  longer well-formed.\<close>
theorem rejected_node_stays:
  "\<exists>s'. apply_op (AddNode (PageId 1) (demo_node 3 Source) 0) demo_scene
          = (Inl (Invariant ''more than one Source image on page''), s')
        \<and> scene_node s' (PageId 1) (NodeId 3) = Some (demo_node 3 Source) \<and> \<not> scene_ok s'"
proof -
  define nodes where "nodes = (NodeId 3, demo_node 3 Source) # page_nodes (demo_page 1)"
  define pg where "pg = (demo_page 1)\<lparr>page_nodes := nodes\<rparr>"
  have n: "page_nodes (demo_page 1) = [(NodeId 1, demo_node 1 Source), (NodeId 2, demo_node 2 Custom)]"
    "node_id (demo_node 3 Source) = NodeId 3" "page_id pg = PageId 1"
    by (simp_all add: demo_page_def new_page_def demo_node_def pg_def)
  have page: "scene_page demo_scene (PageId 1) = Some (demo_page 1)"
    by (simp add: scene_page_def demo_scene_def im_get_def)
  have free: "\<not> im_contains_key (page_nodes (demo_page 1)) (NodeId 3)"
    by (simp add: n im_contains_key_def im_keys_def)
  have ins: "insert_shifted (page_nodes (demo_page 1)) (NodeId 3) (demo_node 3 Source) 0 = nodes"
    by (subst insert_shifted_eq [OF free]) (simp_all add: nodes_def insert_at_def)
  have "role_count (has_image_role Source) pg = 2"
    by (simp add: pg_def nodes_def n role_count_def im_values_def demo_node_def has_image_role_def)
  then have bad: "validate_page_invariants pg = Inl (Invariant ''more than one Source image on page'')"
    and "\<not> roles_ok pg"
    by (simp_all add: validate_page_invariants_def fold_count_role no_roles_def role_count_def
        Let_def roles_ok_def)
  let ?s = "set_page demo_scene (PageId 1) pg"
  have page': "scene_page ?s (PageId 1) = Some pg" using page by simp
  have "\<not> scene_ok ?s"
    using page_ok_of [OF _ page'] \<open>\<not> roles_ok pg\<close> by (auto simp: page_ok_def)
  moreover have "scene_node ?s (PageId 1) (NodeId 3) = Some (demo_node 3 Source)"
    by (simp only: scene_node_def page') (simp add: pg_def nodes_def im_get_def)
  moreover have "apply_op (AddNode (PageId 1) (demo_node 3 Source) 0) demo_scene
      = (Inl (Invariant ''more than one Source image on page''), ?s)"
    using page free ins bad by (simp add: apply_add_node_def n flip: pg_def)
  ultimately show ?thesis by blast
qed

text \<open>Reordering by a permutation of the page ids puts the pages in that order and
  changes nothing else: the same pages, each under its id.\<close>
theorem reorder_pages_sets_order:
  assumes "scene_ok s" "distinct order" "set order = set (im_keys (sc_pages s))"
  shows "\<exists>s'. apply_op (ReorderPages order prev) s = (Inr (ReorderPages order (im_keys (sc_pages s))), s')
           \<and> im_keys (sc_pages s') = order \<and> mset (sc_pages s') = mset (sc_pages s)
           \<and> sc_project s' = sc_project s"
proof -
  have d: "distinct (im_keys (sc_pages s))"
    using assms(1) by (rule scene_ok_distinct)
  have "length order = length (sc_pages s)"
    using assms d by (metis distinct_card length_im_keys)
  then have "ensure_same_page_set (sc_pages s) order = Inr ()"
    using assms(3) by (auto simp: ensure_same_page_set_def list_ex_iff im_contains_key_def)
  then show ?thesis
    using keys_reorder [OF d assms(2,3)] by (simp add: apply_reorder_pages_Ok)
qed

theorem reorder_pages_sets_order_witness:
  "\<exists>s'. apply_op (ReorderPages [PageId 2, PageId 1] []) demo_scene
          = (Inr (ReorderPages [PageId 2, PageId 1] (im_keys (sc_pages demo_scene))), s')
        \<and> im_keys (sc_pages s') = [PageId 2, PageId 1] \<and> mset (sc_pages s') = mset (sc_pages demo_scene)
        \<and> sc_project s' = sc_project demo_scene"
  by (rule reorder_pages_sets_order [OF demo_scene_ok]) (auto simp: demo_scene_def im_keys_def)

text \<open>A list that names one page twice and another not at all passes the guard of
  \<open>ReorderPages\<close>: it compares lengths and membership only.\<close>
lemma reorder_accepts_duplicates:
  "apply_op (ReorderPages [PageId 2, PageId 2] []) demo_scene
     = (Inr (ReorderPages [PageId 2, PageId 2] [PageId 1, PageId 2]), demo_scene)"
  by (simp add: apply_reorder_pages_def ensure_same_page_set_def demo_scene_def im_contains_key_def
      im_keys_def reorder_indexmap_def im_get_index_of_def im_move_index_def insert_at_def
      remove_at_def numeral_2_eq_2)

end
