(* ===== verification/Byte_Codec.thy ===== *)
theory Byte_Codec
  imports Prelude
begin

text \<open>
  Little-endian machine integers and exact reads from a byte stream, as the history log
  and the binary formats of the project use them.
\<close>

definition u32_to_le_bytes :: "u32 \<Rightarrow> u8 list" where
  "u32_to_le_bytes w = [ucast w, ucast (drop_bit 8 w), ucast (drop_bit 16 w), ucast (drop_bit 24 w)]"

fun u32_from_le_bytes :: "u8 list \<Rightarrow> u32" where
  "u32_from_le_bytes [a, b, c, d] =
     ucast a + push_bit 8 (ucast b) + push_bit 16 (ucast c) + push_bit 24 (ucast d)"
| "u32_from_le_bytes _ = 0"

text \<open>\<open>Read::read_exact\<close> on a file read to its end: the bytes, or \<open>UnexpectedEof\<close>.\<close>

definition read_exact :: "nat \<Rightarrow> u8 list \<Rightarrow> (u8 list \<times> u8 list) option" where
  "read_exact n bs = (if length bs < n then None else Some (take n bs, drop n bs))"

lemma length_u32_to_le_bytes [simp]: "length (u32_to_le_bytes w) = 4"
  by (simp add: u32_to_le_bytes_def)

lemma u32_le_roundtrip [simp]: "u32_from_le_bytes (u32_to_le_bytes w) = w"
proof -
  have "ucast (ucast w :: u8) + push_bit 8 (ucast (ucast (drop_bit 8 w) :: u8))
      + push_bit 16 (ucast (ucast (drop_bit 16 w) :: u8))
      + push_bit 24 (ucast (ucast (drop_bit 24 w) :: u8)) = w" (is "?a + ?b + ?c + ?d = w")
  proof -
    have bits: "bit ?a n \<longleftrightarrow> n < 8 \<and> bit w n" "bit ?b n \<longleftrightarrow> 8 \<le> n \<and> n < 16 \<and> bit w n"
      "bit ?c n \<longleftrightarrow> 16 \<le> n \<and> n < 24 \<and> bit w n" "bit ?d n \<longleftrightarrow> 24 \<le> n \<and> n < 32 \<and> bit w n" for n
      by (auto simp: bit_push_bit_iff bit_ucast_iff bit_drop_bit_eq dest: bit_imp_le_length)
    have d1: "?a + ?b = or ?a ?b"
      by (intro disjunctive_add) (simp add: bits)
    have d2: "or ?a ?b + ?c = or (or ?a ?b) ?c"
      by (intro disjunctive_add) (simp add: bits bit_or_iff)
    have d3: "or (or ?a ?b) ?c + ?d = or (or (or ?a ?b) ?c) ?d"
      by (intro disjunctive_add) (auto simp: bits bit_or_iff)
    show ?thesis unfolding d1 d2 d3
      by (rule bit_word_eqI) (auto simp: bits bit_or_iff)
  qed
  then show ?thesis by (simp add: u32_to_le_bytes_def)
qed

lemma read_exact_append [simp]: "length xs = n \<Longrightarrow> read_exact n (xs @ ys) = Some (xs, ys)"
  by (auto simp: read_exact_def)

lemma read_exact_short [simp]: "length xs < n \<Longrightarrow> read_exact n xs = None"
  by (simp add: read_exact_def)

lemma read_exact_Some: "read_exact n bs = Some (a, r) \<longleftrightarrow> length a = n \<and> bs = a @ r"
  by (auto simp: read_exact_def)

end
