(* ===== verification/History.thy ===== *)
theory History
  imports Scene_Op_Laws Byte_Codec
begin

text \<open>
  The linear history of a project (\<open>koharu-app/src/history.rs\<close>): the undo and redo stacks,
  the merging of a render pass into the edit that caused it, the append-only log of framed
  operations and its replay. The log is the content of the file, byte by byte; the frame
  codec (\<open>postcard\<close>) is a parameter. Writes to the file succeed: what a crash can leave
  behind is modelled by cutting the file, not by an I/O error.
\<close>

section \<open>State\<close>

record log_frame =
  fr_epoch :: u64
  fr_op :: op

record history =
  hist_log :: "u8 list"
  hist_epoch :: u64
  hist_undo :: "op list"
  hist_redo :: "op list"
  hist_limit :: nat

text \<open>\<open>hist_undo\<close> is the \<open>VecDeque\<close> with its back last, \<open>hist_redo\<close> the \<open>Vec\<close> with its top last.\<close>

datatype history_error =
  ApplyFailed op_error
| EncodeFailed
| FrameTooLarge
| ReplayFailed op_error

type_synonym frame_encoder = "log_frame \<Rightarrow> u8 list option"
type_synonym frame_decoder = "u8 list \<Rightarrow> log_frame option"

definition default_undo_limit :: nat where
  "default_undo_limit = 500"

text \<open>Opening keeps what the file holds and starts with empty stacks.\<close>

definition history_open :: "u8 list \<Rightarrow> u64 \<Rightarrow> history" where
  "history_open file epoch =
     \<lparr>hist_log = file, hist_epoch = epoch, hist_undo = [], hist_redo = [],
      hist_limit = default_undo_limit\<rparr>"

definition with_undo_limit :: "history \<Rightarrow> nat \<Rightarrow> history" where
  "with_undo_limit h limit = h\<lparr>hist_limit := limit\<rparr>"

section \<open>Writing the log\<close>

definition write_frame :: "frame_encoder \<Rightarrow> history \<Rightarrow> op \<Rightarrow> (history_error + unit) \<times> history" where
  "write_frame enc h op =
     (case enc \<lparr>fr_epoch = hist_epoch h, fr_op = op\<rparr> of
        None \<Rightarrow> (Err EncodeFailed, h)
      | Some bytes \<Rightarrow>
          if length bytes \<ge> 2 ^ 32 then (Err FrameTooLarge, h)
          else (Ok (), h\<lparr>hist_log :=
                  hist_log h @ u32_to_le_bytes (of_nat (length bytes)) @ bytes\<rparr>))"

definition truncate_log :: "history \<Rightarrow> history" where
  "truncate_log h = h\<lparr>hist_log := []\<rparr>"

section \<open>The undo stack\<close>

text \<open>\<open>while len > limit { pop_front }\<close>\<close>

fun trim_front :: "nat \<Rightarrow> 'a list \<Rightarrow> 'a list" where
  "trim_front limit [] = []"
| "trim_front limit (x # xs) =
     (if length (x # xs) > limit then trim_front limit xs else x # xs)"

definition lbl_renderer :: rstring where "lbl_renderer = lit ''renderer: page ''"
definition lbl_koharu_renderer :: rstring where "lbl_koharu_renderer = lit ''koharu-renderer: page ''"
definition lbl_undo :: rstring where "lbl_undo = lit ''undo:''"
definition lbl_page :: rstring where "lbl_page = lit '': page ''"

definition should_merge :: "op \<Rightarrow> op \<Rightarrow> bool" where
  "should_merge prev op = (case op of
     Batch _ label \<Rightarrow>
       (str_contains label lbl_renderer \<or> str_contains label lbl_koharu_renderer)
       \<and> (case prev of
            Batch _ prev_label \<Rightarrow>
              \<not> str_starts_with prev_label lbl_undo \<and> \<not> str_contains prev_label lbl_page
          | _ \<Rightarrow> True)
   | _ \<Rightarrow> False)"

fun merge_label :: "op \<Rightarrow> rstring" where
  "merge_label (RemoveNode _ _ _ _) = lit ''Delete block''"
| "merge_label (UpdateNode _ _ _ _) = lit ''Update block''"
| "merge_label (AddNode _ _ _) = lit ''Add block''"
| "merge_label (RemovePage _ _ _) = lit ''Delete page''"
| "merge_label (AddPage _ _) = lit ''Add page''"
| "merge_label (UpdatePage _ _ _) = lit ''Update page''"
| "merge_label (ReorderPages _ _) = lit ''Reorder pages''"
| "merge_label (ReorderNodes _ _ _) = lit ''Reorder blocks''"
| "merge_label (UpdateProjectMeta _ _) = lit ''Update project metadata''"
| "merge_label (Batch _ l) = l"

text \<open>The render pass \<open>Batch incoming label\<close> folded into the edit before it.\<close>

definition merge_into :: "op \<Rightarrow> op list \<Rightarrow> rstring \<Rightarrow> op" where
  "merge_into prev incoming label = (case prev of
     Batch prev_ops prev_label \<Rightarrow> Batch (prev_ops @ incoming) prev_label
   | _ \<Rightarrow> Batch [prev, Batch incoming label] (merge_label prev))"

definition push_undo :: "history \<Rightarrow> op \<Rightarrow> history" where
  "push_undo h op =
     (let st = hist_undo h; push = h\<lparr>hist_undo := trim_front (hist_limit h) (st @ [op])\<rparr> in
      if st = [] then push
      else (case op of
              Batch incoming label \<Rightarrow>
                if should_merge (last st) op
                then h\<lparr>hist_undo := butlast st @ [merge_into (last st) incoming label]\<rparr>
                else push
            | _ \<Rightarrow> push))"

section \<open>Apply, undo, redo\<close>

definition bump_epoch :: "history \<Rightarrow> history" where
  "bump_epoch h = h\<lparr>hist_epoch := hist_epoch h + 1\<rparr>"

definition history_apply ::
  "frame_encoder \<Rightarrow> history \<Rightarrow> scene \<Rightarrow> op \<Rightarrow> (history_error + u64) \<times> history \<times> scene" where
  "history_apply enc h s op =
     (case apply_op op s of
        (Inl e, s') \<Rightarrow> (Err (ApplyFailed e), h, s')
      | (Inr op', s') \<Rightarrow>
          (case write_frame enc (bump_epoch h) op' of
             (Inl e, h') \<Rightarrow> (Err e, h', s')
           | (Inr _, h') \<Rightarrow>
               let h'' = (push_undo h' op')\<lparr>hist_redo := []\<rparr>
               in (Ok (hist_epoch h''), h'', s')))"

definition history_undo ::
  "frame_encoder \<Rightarrow> history \<Rightarrow> scene \<Rightarrow> (history_error + (u64 \<times> op) option) \<times> history \<times> scene" where
  "history_undo enc h s =
     (if hist_undo h = [] then (Ok None, h, s)
      else
        let original = last (hist_undo h); h1 = h\<lparr>hist_undo := butlast (hist_undo h)\<rparr> in
        (case apply_op (inverse_op original) s of
           (Inl e, s') \<Rightarrow> (Err (ApplyFailed e), h1, s')
         | (Inr inverse_applied, s') \<Rightarrow>
             (case write_frame enc (bump_epoch h1) inverse_applied of
                (Inl e, h2) \<Rightarrow> (Err e, h2, s')
              | (Inr _, h2) \<Rightarrow>
                  (Ok (Some (hist_epoch h2, inverse_applied)),
                   h2\<lparr>hist_redo := hist_redo h2 @ [original]\<rparr>, s'))))"

definition history_redo ::
  "frame_encoder \<Rightarrow> history \<Rightarrow> scene \<Rightarrow> (history_error + (u64 \<times> op) option) \<times> history \<times> scene" where
  "history_redo enc h s =
     (if hist_redo h = [] then (Ok None, h, s)
      else
        let op = last (hist_redo h); h1 = h\<lparr>hist_redo := butlast (hist_redo h)\<rparr> in
        (case apply_op op s of
           (Inl e, s') \<Rightarrow> (Err (ApplyFailed e), h1, s')
         | (Inr op', s') \<Rightarrow>
             (case write_frame enc (bump_epoch h1) op' of
                (Inl e, h2) \<Rightarrow> (Err e, h2, s')
              | (Inr _, h2) \<Rightarrow>
                  (Ok (Some (hist_epoch h2, op')), push_undo h2 op', s'))))"

section \<open>Replay\<close>

text \<open>
  One loop over the file: a length, that many bytes, a frame. A short read or a frame that
  does not decode ends the loop; a frame whose epoch is not new is skipped.
\<close>

function replay_bytes ::
  "frame_decoder \<Rightarrow> u64 \<Rightarrow> scene \<Rightarrow> u8 list \<Rightarrow> (history_error + u64) \<times> scene" where
  "replay_bytes dec epoch s bytes =
     (case read_exact 4 bytes of
        None \<Rightarrow> (Ok epoch, s)
      | Some (len_buf, rest) \<Rightarrow>
          (case read_exact (unat (u32_from_le_bytes len_buf)) rest of
             None \<Rightarrow> (Ok epoch, s)
           | Some (buf, rest') \<Rightarrow>
               (case dec buf of
                  None \<Rightarrow> (Ok epoch, s)
                | Some frame \<Rightarrow>
                    if fr_epoch frame > epoch
                    then (case apply_op (fr_op frame) s of
                            (Inl e, s') \<Rightarrow> (Err (ReplayFailed e), s')
                          | (Inr _, s') \<Rightarrow> replay_bytes dec (fr_epoch frame) s' rest')
                    else replay_bytes dec epoch s rest')))"
  by pat_completeness auto
termination
  by (relation "measure (\<lambda>(dec, epoch, s, bytes). length bytes)") (auto simp: read_exact_Some)

declare replay_bytes.simps [simp del]

definition replay ::
  "frame_decoder \<Rightarrow> u8 list option \<Rightarrow> u64 \<Rightarrow> scene \<Rightarrow> (history_error + u64) \<times> scene" where
  "replay dec file start_epoch s =
     (case file of None \<Rightarrow> (Ok start_epoch, s) | Some bytes \<Rightarrow> replay_bytes dec start_epoch s bytes)"

end
