(* ===== verification/History_Laws.thy ===== *)
theory History_Laws
  imports History
begin

text \<open>
  The laws of the history: the invariant that both stacks tell the truth about the scene,
  what \<open>apply\<close>, \<open>undo\<close> and \<open>redo\<close> do to it, and the relation between the log and the scene.
\<close>

section \<open>Operations as a batch\<close>

lemma batch_cons_two:
  assumes "apply_op a s = (Inr a, t)" "apply_op b t = (Inr b, u)"
  shows "apply_op (Batch [a, b] l) s = (Inr (Batch [a, b] l), u)"
  using assms by (simp add: apply_batch_Ok apply_ops_Cons_Ok)

lemma batch_append:
  assumes "apply_op (Batch xs l) s = (Inr (Batch xs l), t)" "apply_op (Batch ys k) t = (Inr (Batch ys k), u)"
  shows "apply_op (Batch (xs @ ys) l) s = (Inr (Batch (xs @ ys) l), u)"
  using assms apply_ops_append by (simp add: apply_batch_Ok)

lemma merge_into_runs:
  assumes "apply_op prev s = (Inr prev, t)" "apply_op (Batch inc label) t = (Inr (Batch inc label), u)"
  shows "apply_op (merge_into prev inc label) s = (Inr (merge_into prev inc label), u)"
proof (cases prev)
  case (Batch ops l)
  then show ?thesis using assms by (simp add: merge_into_def batch_append del: apply_op.simps)
qed (use assms in \<open>simp_all add: merge_into_def batch_cons_two del: apply_op.simps\<close>)

lemma merge_into_op_ok:
  "op_ok prev \<Longrightarrow> op_ok (Batch inc label) \<Longrightarrow> op_ok (merge_into prev inc label)"
  by (cases prev) (auto simp: merge_into_def)

section \<open>Truthful stacks\<close>

abbreviation undo_ok :: "op list \<Rightarrow> scene \<Rightarrow> bool" where
  "undo_ok st s \<equiv> undo_chain apply_op scene_ok op_ok (rev st) s"

abbreviation redo_ok :: "op list \<Rightarrow> scene \<Rightarrow> bool" where
  "redo_ok rs s \<equiv> redo_chain apply_op op_ok (rev rs) s"

definition history_ok :: "history \<Rightarrow> scene \<Rightarrow> bool" where
  "history_ok h s \<longleftrightarrow> undo_ok (hist_undo h) s \<and> redo_ok (hist_redo h) s
     \<and> length (hist_undo h) \<le> hist_limit h"

lemma history_open_ok: "scene_ok s \<Longrightarrow> history_ok (history_open file epoch) s"
  by (simp add: history_ok_def history_open_def)

lemma history_ok_scene: "history_ok h s \<Longrightarrow> scene_ok s"
  by (auto simp: history_ok_def dest: undo_chain_ok)

lemma trim_front_eq_drop: "trim_front n xs = drop (length xs - n) xs"
  by (induction xs) (auto simp: Suc_diff_le)

lemma rev_trim_front: "rev (trim_front n xs) = take n (rev xs)"
  by (simp add: trim_front_eq_drop take_rev)

lemma length_trim_front: "length (trim_front n xs) \<le> n"
  by (simp add: trim_front_eq_drop)

text \<open>\<open>push_undo\<close> touches the undo stack only, and keeps it truthful and bounded.\<close>

lemma push_undo_cases:
  obtains "push_undo h op = h\<lparr>hist_undo := trim_front (hist_limit h) (hist_undo h @ [op])\<rparr>"
  | inc label st prev where "op = Batch inc label" "hist_undo h = st @ [prev]" "should_merge prev op"
      "push_undo h op = h\<lparr>hist_undo := st @ [merge_into prev inc label]\<rparr>"
proof (cases "hist_undo h = [] \<or> \<not> (\<exists>inc label. op = Batch inc label)")
  case True
  then show thesis by (intro that(1)) (auto simp: push_undo_def Let_def split: op.splits)
next
  case False
  then obtain inc label where op: "op = Batch inc label" and "hist_undo h \<noteq> []" by auto
  then obtain st prev where st: "hist_undo h = st @ [prev]" by (metis rev_exhaust)
  show thesis
  proof (cases "should_merge prev op")
    case True
    show thesis using True op st by (intro that(2)) (auto simp: push_undo_def)
  next
    case False
    show thesis using False op st by (intro that(1)) (simp add: push_undo_def)
  qed
qed

lemma push_undo_fields [simp]:
  "hist_log (push_undo h op) = hist_log h" "hist_epoch (push_undo h op) = hist_epoch h"
  "hist_redo (push_undo h op) = hist_redo h" "hist_limit (push_undo h op) = hist_limit h"
  by (cases rule: push_undo_cases [of h op]; simp)+

lemma push_undo_ok:
  assumes "undo_ok (hist_undo h) s" "length (hist_undo h) \<le> hist_limit h"
    and "apply_op op s = (Inr op, t)" "op_ok op"
  shows "undo_ok (hist_undo (push_undo h op)) t"
    and "length (hist_undo (push_undo h op)) \<le> hist_limit h"
proof -
  have "undo_ok (hist_undo (push_undo h op)) t \<and> length (hist_undo (push_undo h op)) \<le> hist_limit h"
  proof (cases rule: push_undo_cases [of h op])
    case 1
    have "undo_ok (hist_undo h @ [op]) t"
      using scene_undo.push_chain [OF assms(1,3,4)] by simp
    then show ?thesis
      unfolding 1 by (simp add: rev_trim_front undo_chain_take length_trim_front del: rev_append)
  next
    case (2 inc label st prev)
    from assms(1) 2(2) obtain u where u: "op_ok prev" "apply_op prev u = (Inr prev, s)" "undo_ok st u"
      by auto
    have "apply_op (merge_into prev inc label) u = (Inr (merge_into prev inc label), t)"
      using merge_into_runs [OF u(2)] assms(3) 2(1) by simp
    moreover have "op_ok (merge_into prev inc label)"
      using merge_into_op_ok u(1) assms(4) 2(1) by simp
    moreover have "scene_ok t"
      using scene_undo.keeps [OF assms(3) undo_chain_ok [OF assms(1)] assms(4)] by simp
    ultimately have "undo_ok (st @ [merge_into prev inc label]) t"
      using u(3) by auto
    then show ?thesis using 2 assms(2) by simp
  qed
  then show "undo_ok (hist_undo (push_undo h op)) t"
    and "length (hist_undo (push_undo h op)) \<le> hist_limit h" by simp_all
qed

section \<open>Writing a frame\<close>

definition frame_bytes :: "u8 list \<Rightarrow> u8 list" where
  "frame_bytes body = u32_to_le_bytes (of_nat (length body)) @ body"

lemma write_frame_Ok:
  "write_frame enc h op = (Inr u, h') \<longleftrightarrow>
     (\<exists>body. enc \<lparr>fr_epoch = hist_epoch h, fr_op = op\<rparr> = Some body \<and> length body < 2 ^ 32
        \<and> h' = h\<lparr>hist_log := hist_log h @ frame_bytes body\<rparr>)"
  by (auto simp: write_frame_def frame_bytes_def split: option.splits if_splits)

lemma write_frame_Err: "write_frame enc h op = (Inl e, h') \<Longrightarrow> h' = h"
  by (auto simp: write_frame_def split: option.splits if_splits)

text \<open>What a successful step of the history is made of.\<close>

lemma history_apply_Ok:
  "history_apply enc h s op = (Inr e, h', s') \<longleftrightarrow>
     (\<exists>op' h1. apply_op op s = (Inr op', s') \<and> write_frame enc (bump_epoch h) op' = (Inr (), h1)
        \<and> h' = (push_undo h1 op')\<lparr>hist_redo := []\<rparr> \<and> e = hist_epoch h1)"
  by (auto simp: history_apply_def Let_def split: sum.split prod.split)

lemma history_undo_Ok:
  "history_undo enc h s = (Inr (Some (e, i)), h', s') \<longleftrightarrow>
     (\<exists>st op h1. hist_undo h = st @ [op] \<and> apply_op (inverse_op op) s = (Inr i, s')
        \<and> write_frame enc (bump_epoch (h\<lparr>hist_undo := st\<rparr>)) i = (Inr (), h1)
        \<and> h' = h1\<lparr>hist_redo := hist_redo h1 @ [op]\<rparr> \<and> e = hist_epoch h1)"
  by (cases "hist_undo h" rule: rev_cases)
     (auto simp: history_undo_def Let_def split: sum.split prod.split)

lemma history_redo_Ok:
  "history_redo enc h s = (Inr (Some (e, r)), h', s') \<longleftrightarrow>
     (\<exists>rs op h1. hist_redo h = rs @ [op] \<and> apply_op op s = (Inr r, s')
        \<and> write_frame enc (bump_epoch (h\<lparr>hist_redo := rs\<rparr>)) r = (Inr (), h1)
        \<and> h' = push_undo h1 r \<and> e = hist_epoch h1)"
  by (cases "hist_redo h" rule: rev_cases)
     (auto simp: history_redo_def Let_def split: sum.split prod.split)

lemma history_undo_None: "history_undo enc h s = (Inr None, h', s') \<longleftrightarrow> hist_undo h = [] \<and> h' = h \<and> s' = s"
  by (auto simp: history_undo_def Let_def split: sum.splits prod.splits if_splits)

lemma history_redo_None: "history_redo enc h s = (Inr None, h', s') \<longleftrightarrow> hist_redo h = [] \<and> h' = h \<and> s' = s"
  by (auto simp: history_redo_def Let_def split: sum.splits prod.splits if_splits)

lemmas history_Ok = history_apply_Ok history_undo_Ok history_redo_Ok

lemma write_frame_fields:
  "write_frame enc h op = (Inr u, h') \<Longrightarrow> hist_undo h' = hist_undo h \<and> hist_redo h' = hist_redo h
     \<and> hist_limit h' = hist_limit h \<and> hist_epoch h' = hist_epoch h"
  by (auto simp: write_frame_Ok)

lemma bump_epoch_fields [simp]:
  "hist_undo (bump_epoch h) = hist_undo h" "hist_redo (bump_epoch h) = hist_redo h"
  "hist_limit (bump_epoch h) = hist_limit h" "hist_log (bump_epoch h) = hist_log h"
  "hist_epoch (bump_epoch h) = hist_epoch h + 1"
  by (simp_all add: bump_epoch_def)

section \<open>The steps keep the stacks truthful\<close>

lemma history_apply_ok:
  assumes "history_ok h s" "op_ok op" "history_apply enc h s op = (Inr e, h', s')"
  shows "history_ok h' s'"
proof -
  obtain op' h1 where step: "apply_op op s = (Inr op', s')"
      "write_frame enc (bump_epoch h) op' = (Inr (), h1)" "h' = (push_undo h1 op')\<lparr>hist_redo := []\<rparr>"
    using assms(3) by (auto simp: history_apply_Ok)
  have stable: "apply_op op' s = (Inr op', s')" and "op_ok op'"
    using scene_undo.stable [OF step(1)] scene_undo.keeps [OF step(1) history_ok_scene assms(2)] assms(1)
    by auto
  have "undo_ok (hist_undo h1) s" "length (hist_undo h1) \<le> hist_limit h1"
    using assms(1) write_frame_fields [OF step(2)] by (simp_all add: history_ok_def)
  from push_undo_ok [OF this stable \<open>op_ok op'\<close>] show ?thesis
    by (simp add: history_ok_def step(3))
qed

lemma history_undo_ok:
  assumes "history_ok h s" "history_undo enc h s = (Inr r, h', s')"
  shows "history_ok h' s'"
proof (cases r)
  case None
  with assms show ?thesis by (simp add: history_undo_None)
next
  case (Some ei)
  then obtain e i where "r = Some (e, i)" by (cases ei) auto
  with assms(2) obtain st op h1 where step: "hist_undo h = st @ [op]"
      "apply_op (inverse_op op) s = (Inr i, s')"
      "write_frame enc (bump_epoch (h\<lparr>hist_undo := st\<rparr>)) i = (Inr (), h1)"
      "h' = h1\<lparr>hist_redo := hist_redo h1 @ [op]\<rparr>"
    by (auto simp: history_undo_Ok)
  have "undo_chain apply_op scene_ok op_ok (op # rev st) s" "redo_ok (hist_redo h) s"
    using assms(1) step(1) by (simp_all add: history_ok_def)
  from scene_undo.undo_to_redo [OF this step(2)] show ?thesis
    using assms(1) write_frame_fields [OF step(3)] step(1,4) by (simp add: history_ok_def)
qed

lemma history_redo_ok:
  assumes "history_ok h s" "history_redo enc h s = (Inr r, h', s')"
  shows "history_ok h' s'"
proof (cases r)
  case None
  with assms show ?thesis by (simp add: history_redo_None)
next
  case (Some ei)
  then obtain e i where "r = Some (e, i)" by (cases ei) auto
  with assms(2) obtain rs op h1 where step: "hist_redo h = rs @ [op]" "apply_op op s = (Inr i, s')"
      "write_frame enc (bump_epoch (h\<lparr>hist_redo := rs\<rparr>)) i = (Inr (), h1)" "h' = push_undo h1 i"
    by (auto simp: history_redo_Ok)
  have "undo_ok (hist_undo h) s" "redo_chain apply_op op_ok (op # rev rs) s"
    using assms(1) step(1) by (simp_all add: history_ok_def)
  from scene_undo.redo_to_undo [OF this] obtain t where
    t: "apply_op op s = (Inr op, t)" "redo_chain apply_op op_ok (rev rs) t" "op_ok op" by blast
  with step(2) have i: "i = op" "t = s'" by auto
  have "undo_ok (hist_undo h1) s" "length (hist_undo h1) \<le> hist_limit h1" "hist_redo h1 = rs"
    using assms(1) write_frame_fields [OF step(3)] by (simp_all add: history_ok_def)
  with push_undo_ok [OF this(1,2), of op t] t i show ?thesis
    by (simp add: history_ok_def step(4))
qed

end
