(* ===== verification/History_Log.thy ===== *)
theory History_Log
  imports History_Laws
begin

text \<open>
  The durability log: what replaying a file gives, frame by frame, and that a log written by
  the history replays to the scene and the epoch it stands for, also when its last frame is
  cut short or a snapshot newer than the log is loaded first.
\<close>

section \<open>Files made of frames\<close>

text \<open>What the code relies on in \<open>postcard\<close>: decoding what was encoded gives it back.\<close>

definition frame_codec :: "frame_encoder \<Rightarrow> frame_decoder \<Rightarrow> bool" where
  "frame_codec enc dec \<longleftrightarrow> (\<forall>f body. enc f = Some body \<longrightarrow> dec body = Some f)"

definition encodable :: "frame_encoder \<Rightarrow> log_frame \<Rightarrow> bool" where
  "encodable enc f \<longleftrightarrow> (\<exists>body. enc f = Some body \<and> length body < 2 ^ 32)"

definition log_of :: "frame_encoder \<Rightarrow> log_frame list \<Rightarrow> u8 list" where
  "log_of enc fs = concat (map (\<lambda>f. frame_bytes (the (enc f))) fs)"

text \<open>Replay at the level of frames.\<close>

primrec replay_frames :: "u64 \<Rightarrow> scene \<Rightarrow> log_frame list \<Rightarrow> (history_error + u64) \<times> scene" where
  "replay_frames epoch s [] = (Ok epoch, s)"
| "replay_frames epoch s (f # fs) =
     (if fr_epoch f > epoch
      then (case apply_op (fr_op f) s of
              (Inl e, s') \<Rightarrow> (Err (ReplayFailed e), s')
            | (Inr _, s') \<Rightarrow> replay_frames (fr_epoch f) s' fs)
      else replay_frames epoch s fs)"

lemma unat_length_u32: "length body < 2 ^ 32 \<Longrightarrow> unat (of_nat (length body) :: u32) = length body"
  by (simp add: unat_of_nat take_bit_nat_eq_self)

lemma replay_bytes_frame:
  assumes "dec body = Some f" "length body < 2 ^ 32"
  shows "replay_bytes dec epoch s (frame_bytes body @ rest) =
    (if fr_epoch f > epoch
     then (case apply_op (fr_op f) s of
             (Inl e, s') \<Rightarrow> (Err (ReplayFailed e), s')
           | (Inr _, s') \<Rightarrow> replay_bytes dec (fr_epoch f) s' rest)
     else replay_bytes dec epoch s rest)"
  using assms by (subst replay_bytes.simps) (simp add: frame_bytes_def unat_length_u32)

text \<open>The bytes of whole frames replay as the frames do, and the rest of the file follows.\<close>

lemma replay_bytes_log:
  assumes "frame_codec enc dec" "list_all (encodable enc) fs"
  shows "replay_bytes dec epoch s (log_of enc fs @ rest) =
    (case replay_frames epoch s fs of
       (Inl e, s') \<Rightarrow> (Inl e, s') | (Inr epoch', s') \<Rightarrow> replay_bytes dec epoch' s' rest)"
  using assms(2)
proof (induction fs arbitrary: epoch s)
  case Nil
  then show ?case by (simp add: log_of_def)
next
  case (Cons f fs)
  then obtain body where body: "enc f = Some body" "length body < 2 ^ 32"
    by (auto simp: encodable_def)
  moreover have "dec body = Some f" using assms(1) body(1) by (simp add: frame_codec_def)
  moreover have "log_of enc (f # fs) @ rest = frame_bytes body @ log_of enc fs @ rest"
    by (simp add: log_of_def body)
  ultimately show ?case
    using Cons by (simp add: replay_bytes_frame split: prod.split sum.split)
qed

lemma replay_bytes_Nil [simp]: "replay_bytes dec epoch s [] = (Inr epoch, s)"
  by (subst replay_bytes.simps) simp

text \<open>A frame cut anywhere before its end is dropped.\<close>

lemma replay_bytes_torn:
  assumes "length body < 2 ^ 32" "n < length (frame_bytes body)"
  shows "replay_bytes dec epoch s (take n (frame_bytes body)) = (Inr epoch, s)"
proof (cases "n < 4")
  case True
  then have "read_exact 4 (take n (frame_bytes body)) = None" by simp
  then show ?thesis by (subst replay_bytes.simps) simp
next
  case False
  let ?len = "u32_to_le_bytes (of_nat (length body))"
  have "take n (frame_bytes body) = ?len @ take (n - 4) body"
    using False by (simp add: frame_bytes_def)
  moreover have "length (take (n - 4) body) < length body"
    using assms(2) False by (simp add: frame_bytes_def)
  ultimately show ?thesis
    using assms(1) by (subst replay_bytes.simps) (simp add: unat_length_u32)
qed

lemma replay_frames_append:
  "replay_frames epoch s (fs @ gs) =
    (case replay_frames epoch s fs of
       (Inl e, s') \<Rightarrow> (Inl e, s') | (Inr epoch', s') \<Rightarrow> replay_frames epoch' s' gs)"
  by (induction fs arbitrary: epoch s) (auto split: prod.split sum.split)

text \<open>Frames that are not newer than the snapshot are skipped.\<close>

lemma replay_frames_old: "list_all (\<lambda>f. fr_epoch f \<le> epoch) fs \<Longrightarrow> replay_frames epoch s fs = (Inr epoch, s)"
  by (induction fs) auto

section \<open>A log in step with the scene\<close>

text \<open>
  The log is whole frames none of which is newer than the history, and replaying it on top
  of the base the session was loaded from gives the current scene and epoch.
\<close>

definition log_ok :: "frame_encoder \<Rightarrow> u64 \<Rightarrow> scene \<Rightarrow> history \<Rightarrow> scene \<Rightarrow> bool" where
  "log_ok enc base_epoch base h s \<longleftrightarrow>
     (\<exists>fs. hist_log h = log_of enc fs \<and> list_all (encodable enc) fs
        \<and> list_all (\<lambda>f. fr_epoch f \<le> hist_epoch h) fs
        \<and> replay_frames base_epoch base fs = (Inr (hist_epoch h), s))"

lemma log_ok_replay:
  assumes "frame_codec enc dec" "log_ok enc base_epoch base h s"
  shows "replay_bytes dec base_epoch base (hist_log h) = (Inr (hist_epoch h), s)"
proof -
  from assms(2) obtain fs where fs: "hist_log h = log_of enc fs" "list_all (encodable enc) fs"
      "replay_frames base_epoch base fs = (Inr (hist_epoch h), s)"
    by (auto simp: log_ok_def)
  with replay_bytes_log [OF assms(1) fs(2), where rest = "[]"] show ?thesis by simp
qed

lemma log_ok_replay_torn:
  assumes "frame_codec enc dec" "log_ok enc base_epoch base h s"
    and "length body < 2 ^ 32" "n < length (frame_bytes body)"
  shows "replay_bytes dec base_epoch base (hist_log h @ take n (frame_bytes body)) = (Inr (hist_epoch h), s)"
proof -
  from assms(2) obtain fs where fs: "hist_log h = log_of enc fs" "list_all (encodable enc) fs"
      "replay_frames base_epoch base fs = (Inr (hist_epoch h), s)"
    by (auto simp: log_ok_def)
  then show ?thesis
    by (simp add: replay_bytes_log [OF assms(1)] replay_bytes_torn [OF assms(3,4)])
qed

lemma log_ok_snapshot:
  assumes "log_ok enc base_epoch base h s"
  shows "log_ok enc (hist_epoch h) s h s"
  using assms replay_frames_old by (auto simp: log_ok_def)

lemma log_ok_truncated: "log_ok enc (hist_epoch h) s (truncate_log h) s"
  by (auto simp: log_ok_def truncate_log_def log_of_def intro!: exI [of _ "[]"])

lemma log_ok_cong:
  "hist_log h = hist_log g \<Longrightarrow> hist_epoch h = hist_epoch g \<Longrightarrow> log_ok enc e b h s = log_ok enc e b g s"
  by (simp add: log_ok_def)

lemma word_less_succ: "w \<noteq> - 1 \<Longrightarrow> w < w + (1 :: 'a :: len word)"
proof -
  assume w: "w \<noteq> - 1"
  then have "w + 1 \<noteq> 0" by (metis eq_neg_iff_add_eq_0)
  then have "unat (1 + w) = Suc (unat w)" by (intro unatSuc) (simp add: add.commute)
  then show ?thesis by (simp add: word_less_nat_alt add.commute)
qed

lemma log_ok_step:
  assumes "log_ok enc e0 s0 g s" "hist_log h = hist_log g" "hist_epoch h = hist_epoch g"
    and "hist_epoch h \<noteq> - 1" "apply_op op s = (Inr r, t)"
    and "write_frame enc (bump_epoch h) op = (Inr (), h')"
  shows "log_ok enc e0 s0 h' t"
proof -
  from assms(1-3) obtain fs where fs: "hist_log h = log_of enc fs" "list_all (encodable enc) fs"
      "list_all (\<lambda>f. fr_epoch f \<le> hist_epoch h) fs" "replay_frames e0 s0 fs = (Inr (hist_epoch h), s)"
    by (auto simp: log_ok_def)
  let ?f = "\<lparr>fr_epoch = hist_epoch h + 1, fr_op = op\<rparr>"
  obtain body where body: "enc ?f = Some body" "length body < 2 ^ 32"
      and h': "h' = (bump_epoch h)\<lparr>hist_log := hist_log h @ frame_bytes body\<rparr>"
    using assms(6) by (auto simp: write_frame_Ok)
  have less: "hist_epoch h < hist_epoch h + 1"
    using assms(4) by (rule word_less_succ)
  then have "list_all (\<lambda>f. fr_epoch f \<le> hist_epoch h + 1) (fs @ [?f])"
    using fs(3) by (auto simp: list_all_iff)
  moreover have "replay_frames e0 s0 (fs @ [?f]) = (Inr (hist_epoch h + 1), t)"
    using less assms(5) by (simp add: replay_frames_append fs(4))
  moreover have "hist_log h' = log_of enc (fs @ [?f])" "hist_epoch h' = hist_epoch h + 1"
    using body by (simp_all add: h' fs(1) log_of_def)
  moreover have "list_all (encodable enc) (fs @ [?f])"
    using fs(2) body by (simp add: encodable_def)
  ultimately show ?thesis
    unfolding log_ok_def by (intro exI [of _ "fs @ [?f]"]) simp
qed

end
