(* ===== verification/Session.thy ===== *)
theory Session
  imports History_Log
begin

text \<open>
  A loaded project (\<open>koharu-app/src/session.rs\<close>): the scene and its history in memory, the
  snapshot \<open>scene.bin\<close>, the log and \<open>project.toml\<close> on disk; opening with replay, and
  compaction in the three steps the code takes. The codecs of \<open>postcard\<close> and \<open>toml\<close> are
  parameters. The advisory lock makes one process the only writer of the directory; the
  steps of that process are what interleaves.
\<close>

section \<open>State\<close>

record snapshot =
  snap_epoch :: u64
  snap_scene :: scene

record project_toml_file =
  pt_name :: rstring
  pt_created_at :: datetime
  pt_updated_at :: datetime

text \<open>The files of the project directory; \<open>None\<close> is a file that does not exist.\<close>

record project_dir =
  dir_scene_bin :: "u8 list option"
  dir_log :: "u8 list option"
  dir_toml :: "rstring option"

record codecs =
  enc_frame :: frame_encoder
  dec_frame :: frame_decoder
  enc_snapshot :: "snapshot \<Rightarrow> u8 list option"
  dec_snapshot :: "u8 list \<Rightarrow> snapshot option"
  dec_toml :: "rstring \<Rightarrow> project_toml_file option"

datatype session_error =
  SnapshotUndecodable
| SnapshotUnencodable
| TomlUnparsable
| MissingToml
| LogError history_error

record session =
  ses_scene :: scene
  ses_history :: history
  ses_scene_bin :: "u8 list option"
  ses_toml :: "rstring option"

section \<open>Opening\<close>

definition load_snapshot ::
  "codecs \<Rightarrow> datetime \<Rightarrow> project_dir \<Rightarrow> bool \<Rightarrow> session_error + scene \<times> u64" where
  "load_snapshot c now dir creating =
     (case dir_scene_bin dir of
        Some bytes \<Rightarrow>
          (case dec_snapshot c bytes of
             None \<Rightarrow> Err SnapshotUndecodable
           | Some snap \<Rightarrow> Ok (snap_scene snap, snap_epoch snap))
      | None \<Rightarrow>
          try_bind
            (case dir_toml dir of
               Some txt \<Rightarrow>
                 (case dec_toml c txt of None \<Rightarrow> Err TomlUnparsable | Some meta \<Rightarrow> Ok meta)
             | None \<Rightarrow>
                 if creating then Ok \<lparr>pt_name = [], pt_created_at = now, pt_updated_at = now\<rparr>
                 else Err MissingToml)
            (\<lambda>meta.
               let s = default_scene now
               in Ok (s\<lparr>sc_project := (sc_project s)\<lparr>pm_name := pt_name meta,
                          pm_created_at := pt_created_at meta, pm_updated_at := pt_updated_at meta\<rparr>\<rparr>, 0)))"

definition open_inner ::
  "codecs \<Rightarrow> datetime \<Rightarrow> project_dir \<Rightarrow> bool \<Rightarrow> session_error + session" where
  "open_inner c now dir creating =
     try_bind (load_snapshot c now dir creating)
       (\<lambda>(s, epoch).
          (case replay (dec_frame c) (dir_log dir) epoch s of
             (Inl e, _) \<Rightarrow> Err (LogError e)
           | (Inr epoch', s') \<Rightarrow>
               Ok \<lparr>ses_scene = s',
                   ses_history = history_open (case dir_log dir of None \<Rightarrow> [] | Some b \<Rightarrow> b) epoch',
                   ses_scene_bin = dir_scene_bin dir, ses_toml = dir_toml dir\<rparr>))"

section \<open>Mutation under both locks\<close>

definition session_apply :: "codecs \<Rightarrow> session \<Rightarrow> op \<Rightarrow> (history_error + u64) \<times> session" where
  "session_apply c ses op =
     (let (r, h, s) = history_apply (enc_frame c) (ses_history ses) (ses_scene ses) op
      in (r, ses\<lparr>ses_history := h, ses_scene := s\<rparr>))"

definition session_undo :: "codecs \<Rightarrow> session \<Rightarrow> (history_error + (u64 \<times> op) option) \<times> session" where
  "session_undo c ses =
     (let (r, h, s) = history_undo (enc_frame c) (ses_history ses) (ses_scene ses)
      in (r, ses\<lparr>ses_history := h, ses_scene := s\<rparr>))"

definition session_redo :: "codecs \<Rightarrow> session \<Rightarrow> (history_error + (u64 \<times> op) option) \<times> session" where
  "session_redo c ses =
     (let (r, h, s) = history_redo (enc_frame c) (ses_history ses) (ses_scene ses)
      in (r, ses\<lparr>ses_history := h, ses_scene := s\<rparr>))"

definition session_epoch :: "session \<Rightarrow> u64" where
  "session_epoch ses = hist_epoch (ses_history ses)"

section \<open>Compaction\<close>

text \<open>
  \<open>compact\<close> holds the locks only while it takes the snapshot and, again, while it truncates
  the log; the three steps are separate so that other operations can come between them.
\<close>

definition compact_snapshot :: "session \<Rightarrow> snapshot" where
  "compact_snapshot ses = \<lparr>snap_epoch = session_epoch ses, snap_scene = ses_scene ses\<rparr>"

definition compact_write :: "codecs \<Rightarrow> snapshot \<Rightarrow> session \<Rightarrow> (session_error + unit) \<times> session" where
  "compact_write c snap ses =
     (case enc_snapshot c snap of
        None \<Rightarrow> (Err SnapshotUnencodable, ses)
      | Some bytes \<Rightarrow> (Ok (), ses\<lparr>ses_scene_bin := Some bytes\<rparr>))"

definition compact_truncate :: "session \<Rightarrow> session" where
  "compact_truncate ses = ses\<lparr>ses_history := truncate_log (ses_history ses)\<rparr>"

definition session_compact :: "codecs \<Rightarrow> session \<Rightarrow> (session_error + unit) \<times> session" where
  "session_compact c ses =
     (case compact_write c (compact_snapshot ses) ses of
        (Inl e, ses') \<Rightarrow> (Err e, ses')
      | (Inr _, ses') \<Rightarrow> (Ok (), compact_truncate ses'))"

text \<open>What the process leaves on disk when it ends, by a clean close or a crash.\<close>

definition on_disk :: "session \<Rightarrow> project_dir" where
  "on_disk ses =
     \<lparr>dir_scene_bin = ses_scene_bin ses, dir_log = Some (hist_log (ses_history ses)),
      dir_toml = ses_toml ses\<rparr>"

section \<open>Recoverable sessions\<close>

definition codecs_ok :: "codecs \<Rightarrow> bool" where
  "codecs_ok c \<longleftrightarrow> frame_codec (enc_frame c) (dec_frame c)
     \<and> (\<forall>snap bytes. enc_snapshot c snap = Some bytes \<longrightarrow> dec_snapshot c bytes = Some snap)"

text \<open>
  The session is well-formed and its files stand for its memory: the base they load to,
  with the log replayed on top, is the current scene at the current epoch.
\<close>

definition session_ok :: "codecs \<Rightarrow> datetime \<Rightarrow> session \<Rightarrow> bool" where
  "session_ok c now ses \<longleftrightarrow> history_ok (ses_history ses) (ses_scene ses)
     \<and> (\<exists>s0 e0. load_snapshot c now (on_disk ses) False = Ok (s0, e0)
          \<and> log_ok (enc_frame c) e0 s0 (ses_history ses) (ses_scene ses))"

lemma load_snapshot_cong:
  "ses_scene_bin a = ses_scene_bin b \<Longrightarrow> ses_toml a = ses_toml b
   \<Longrightarrow> load_snapshot c now (on_disk a) cr = load_snapshot c now (on_disk b) cr"
  by (simp add: load_snapshot_def on_disk_def split: option.split)

text \<open>Reopening a recoverable session gives back its scene and epoch.\<close>

lemma session_ok_reopens:
  assumes "codecs_ok c" "session_ok c now ses"
  shows "\<exists>ses'. open_inner c now (on_disk ses) False = Ok ses' \<and> ses_scene ses' = ses_scene ses
           \<and> session_epoch ses' = session_epoch ses \<and> on_disk ses' = on_disk ses"
proof -
  from assms(2) obtain s0 e0 where base: "load_snapshot c now (on_disk ses) False = Ok (s0, e0)"
      and log: "log_ok (enc_frame c) e0 s0 (ses_history ses) (ses_scene ses)"
    by (auto simp: session_ok_def)
  have "replay_bytes (dec_frame c) e0 s0 (hist_log (ses_history ses))
      = (Inr (session_epoch ses), ses_scene ses)"
    using log_ok_replay [OF _ log] assms(1) by (simp add: codecs_ok_def session_epoch_def)
  then show ?thesis
    by (simp add: open_inner_def base replay_def session_epoch_def)
       (simp add: on_disk_def history_open_def)
qed

text \<open>\<open>session_ok\<close> of a session changed in memory and by one more frame in the log.\<close>

lemma session_ok_update:
  assumes "session_ok c now ses" "history_ok h s"
    and "\<And>e0 s0. log_ok (enc_frame c) e0 s0 (ses_history ses) (ses_scene ses) \<Longrightarrow> log_ok (enc_frame c) e0 s0 h s"
  shows "session_ok c now (ses\<lparr>ses_history := h, ses_scene := s\<rparr>)"
proof -
  have "load_snapshot c now (on_disk (ses\<lparr>ses_history := h, ses_scene := s\<rparr>)) False
      = load_snapshot c now (on_disk ses) False"
    by (rule load_snapshot_cong) simp_all
  with assms show ?thesis by (auto simp: session_ok_def)
qed

lemma session_apply_ok:
  assumes "session_ok c now ses" "session_epoch ses \<noteq> - 1" "op_ok op"
    and "session_apply c ses op = (Inr e, ses')"
  shows "session_ok c now ses'"
proof -
  obtain h s where step: "history_apply (enc_frame c) (ses_history ses) (ses_scene ses) op = (Inr e, h, s)"
      and ses': "ses' = ses\<lparr>ses_history := h, ses_scene := s\<rparr>"
    using assms(4) by (auto simp: session_apply_def Let_def split: prod.splits)
  then obtain op' h1 where *: "apply_op op (ses_scene ses) = (Inr op', s)"
      "write_frame (enc_frame c) (bump_epoch (ses_history ses)) op' = (Inr (), h1)"
      "h = (push_undo h1 op')\<lparr>hist_redo := []\<rparr>"
    by (auto simp: history_apply_Ok)
  have redo: "apply_op op' (ses_scene ses) = (Inr op', s)"
    using scene_undo.stable [OF *(1)] .
  show ?thesis unfolding ses'
  proof (rule session_ok_update [OF assms(1)])
    show "history_ok h s"
      using history_apply_ok [OF _ assms(3) step] assms(1) by (simp add: session_ok_def)
    fix e0 s0 assume "log_ok (enc_frame c) e0 s0 (ses_history ses) (ses_scene ses)"
    then have "log_ok (enc_frame c) e0 s0 h1 s"
      using assms(2) redo *(2) by (auto intro: log_ok_step simp: session_epoch_def)
    then show "log_ok (enc_frame c) e0 s0 h s"
      by (simp add: *(3) log_ok_def)
  qed
qed

lemma session_undo_ok:
  assumes "session_ok c now ses" "session_epoch ses \<noteq> - 1" "session_undo c ses = (Inr r, ses')"
  shows "session_ok c now ses'"
proof -
  obtain h s where step: "history_undo (enc_frame c) (ses_history ses) (ses_scene ses) = (Inr r, h, s)"
      and ses': "ses' = ses\<lparr>ses_history := h, ses_scene := s\<rparr>"
    using assms(3) by (auto simp: session_undo_def Let_def split: prod.splits)
  have h: "history_ok h s"
    using history_undo_ok [OF _ step] assms(1) by (simp add: session_ok_def)
  show ?thesis
  proof (cases r)
    case None
    with step assms(1) show ?thesis by (simp add: ses' history_undo_None)
  next
    case (Some ei)
    then obtain e i where "r = Some (e, i)" by (cases ei) auto
    with step obtain st op h1 where *: "apply_op (inverse_op op) (ses_scene ses) = (Inr i, s)"
        "write_frame (enc_frame c) (bump_epoch ((ses_history ses)\<lparr>hist_undo := st\<rparr>)) i = (Inr (), h1)"
        "h = h1\<lparr>hist_redo := hist_redo h1 @ [op]\<rparr>"
      by (auto simp: history_undo_Ok)
    have stable: "apply_op i (ses_scene ses) = (Inr i, s)" using scene_undo.stable [OF *(1)] .
    show ?thesis unfolding ses'
    proof (rule session_ok_update [OF assms(1) h])
      fix e0 s0 assume "log_ok (enc_frame c) e0 s0 (ses_history ses) (ses_scene ses)"
      then have "log_ok (enc_frame c) e0 s0 h1 s"
        by (rule log_ok_step [OF _ _ _ _ stable *(2)]) (use assms(2) in \<open>simp_all add: session_epoch_def\<close>)
      then show "log_ok (enc_frame c) e0 s0 h s" by (simp add: *(3) log_ok_def)
    qed
  qed
qed

lemma session_redo_ok:
  assumes "session_ok c now ses" "session_epoch ses \<noteq> - 1" "session_redo c ses = (Inr r, ses')"
  shows "session_ok c now ses'"
proof -
  obtain h s where step: "history_redo (enc_frame c) (ses_history ses) (ses_scene ses) = (Inr r, h, s)"
      and ses': "ses' = ses\<lparr>ses_history := h, ses_scene := s\<rparr>"
    using assms(3) by (auto simp: session_redo_def Let_def split: prod.splits)
  have h: "history_ok h s"
    using history_redo_ok [OF _ step] assms(1) by (simp add: session_ok_def)
  show ?thesis
  proof (cases r)
    case None
    with step assms(1) show ?thesis by (simp add: ses' history_redo_None)
  next
    case (Some ei)
    then obtain e i where "r = Some (e, i)" by (cases ei) auto
    with step obtain rs op h1 where *: "apply_op op (ses_scene ses) = (Inr i, s)"
        "write_frame (enc_frame c) (bump_epoch ((ses_history ses)\<lparr>hist_redo := rs\<rparr>)) i = (Inr (), h1)"
        "h = push_undo h1 i"
      by (auto simp: history_redo_Ok)
    have stable: "apply_op i (ses_scene ses) = (Inr i, s)" using scene_undo.stable [OF *(1)] .
    show ?thesis unfolding ses'
    proof (rule session_ok_update [OF assms(1) h])
      fix e0 s0 assume "log_ok (enc_frame c) e0 s0 (ses_history ses) (ses_scene ses)"
      then have "log_ok (enc_frame c) e0 s0 h1 s"
        by (rule log_ok_step [OF _ _ _ _ stable *(2)]) (use assms(2) in \<open>simp_all add: session_epoch_def\<close>)
      then show "log_ok (enc_frame c) e0 s0 h s" by (simp add: *(3) log_ok_def)
    qed
  qed
qed

text \<open>
  Compaction with nothing in between: the files stand for the session after the snapshot is
  written and the old log is still there, and again after the log is truncated.
\<close>

lemma compact_write_ok:
  assumes "codecs_ok c" "session_ok c now ses" "compact_write c (compact_snapshot ses) ses = (Inr u, ses')"
  shows "session_ok c now ses'" and "session_ok c now (compact_truncate ses')"
proof -
  obtain bytes where b: "enc_snapshot c (compact_snapshot ses) = Some bytes"
      and ses': "ses' = ses\<lparr>ses_scene_bin := Some bytes\<rparr>"
    using assms(3) by (auto simp: compact_write_def split: option.splits)
  have load: "load_snapshot c now (on_disk ses') False = Ok (ses_scene ses, session_epoch ses)"
    "load_snapshot c now (on_disk (compact_truncate ses')) False = Ok (ses_scene ses, session_epoch ses)"
    using b assms(1)
    by (simp_all add: load_snapshot_def on_disk_def ses' codecs_ok_def compact_snapshot_def compact_truncate_def)
  show "session_ok c now ses'"
    using assms(2) load log_ok_snapshot by (auto simp: session_ok_def ses' session_epoch_def)
  show "session_ok c now (compact_truncate ses')"
    using assms(2) load log_ok_truncated
    by (auto simp: session_ok_def ses' session_epoch_def compact_truncate_def history_ok_def truncate_log_def)
qed

end
