(* ===== verification/Session_Props.thy ===== *)
theory Session_Props
  imports Session
begin

text \<open>
  The properties of history and session: undo and redo over whole sessions, durability of
  the log under crashes and compaction, and what interleavings and torn frames cost.
\<close>

section \<open>A concrete session\<close>

definition name_patch :: "string \<Rightarrow> project_meta_patch" where
  "name_patch n = \<lparr>pmp_name = Some (lit n), pmp_style = None, pmp_updated_at = None\<rparr>"

definition rename_op :: op where
  "rename_op = UpdateProjectMeta (name_patch ''b'') (name_patch ''a'')"

definition named_scene :: "string \<Rightarrow> scene" where
  "named_scene n = (default_scene 0)\<lparr>sc_project := (default_project_meta 0)\<lparr>pm_name := lit n\<rparr>\<rparr>"

definition frame_1 :: log_frame where "frame_1 = \<lparr>fr_epoch = 1, fr_op = rename_op\<rparr>"
definition frame_2 :: log_frame where "frame_2 = \<lparr>fr_epoch = 2, fr_op = inverse_op rename_op\<rparr>"
definition frame_3 :: log_frame where "frame_3 = \<lparr>fr_epoch = 3, fr_op = rename_op\<rparr>"
definition snap_0 :: snapshot where "snap_0 = \<lparr>snap_epoch = 0, snap_scene = named_scene ''a''\<rparr>"

definition demo_codecs :: codecs where
  "demo_codecs =
     \<lparr>enc_frame = (\<lambda>f. if f = frame_1 then Some [1] else if f = frame_2 then Some [2, 2]
                     else if f = frame_3 then Some [3] else None),
      dec_frame = (\<lambda>b. if b = [1] then Some frame_1 else if b = [2, 2] then Some frame_2
                     else if b = [3] then Some frame_3 else None),
      enc_snapshot = (\<lambda>s. if s = snap_0 then Some [0] else None),
      dec_snapshot = (\<lambda>b. if b = [0] then Some snap_0 else None),
      dec_toml = (\<lambda>t. Some \<lparr>pt_name = t, pt_created_at = 0, pt_updated_at = 0\<rparr>)\<rparr>"

definition demo_session :: session where
  "demo_session =
     \<lparr>ses_scene = named_scene ''a'', ses_history = history_open [] 0,
      ses_scene_bin = None, ses_toml = Some (lit ''a'')\<rparr>"

lemma demo_codecs_ok: "codecs_ok demo_codecs"
  by (auto simp: codecs_ok_def frame_codec_def demo_codecs_def split: if_splits)

lemma named_scene_ok: "scene_ok (named_scene n)"
  by (simp add: named_scene_def default_scene_ok)

lemma rename_applies: "apply_op rename_op (named_scene ''a'') = (Inr rename_op, named_scene ''b'')"
  by (simp add: rename_op_def apply_update_project_meta_def named_scene_def name_patch_def
      capture_prev_meta_def apply_meta_patch_def captured_def patched_def default_project_meta_def)

lemma rename_back: "apply_op (inverse_op rename_op) (named_scene ''b'') = (Inr (inverse_op rename_op), named_scene ''a'')"
  by (simp add: rename_op_def apply_update_project_meta_def named_scene_def name_patch_def
      capture_prev_meta_def apply_meta_patch_def captured_def patched_def default_project_meta_def)

lemma rename_legal [simp]: "op_ok rename_op" "op_ok (inverse_op rename_op)"
  by (simp_all add: rename_op_def)

lemma demo_session_ok: "session_ok demo_codecs 0 demo_session"
proof -
  have "load_snapshot demo_codecs 0 (on_disk demo_session) False = Ok (named_scene ''a'', 0)"
    by (simp add: load_snapshot_def on_disk_def demo_session_def demo_codecs_def named_scene_def
        default_scene_def default_project_meta_def)
  moreover have "log_ok (enc_frame demo_codecs) 0 (named_scene ''a'') (history_open [] 0) (named_scene ''a'')"
    by (auto simp: log_ok_def history_open_def log_of_def intro!: exI [of _ "[]"])
  ultimately show ?thesis
    by (simp add: session_ok_def demo_session_def history_open_ok named_scene_ok)
qed

definition demo_h1 :: history where
  "demo_h1 = \<lparr>hist_log = [1, 0, 0, 0, 1], hist_epoch = 1, hist_undo = [rename_op], hist_redo = [], hist_limit = 500\<rparr>"

lemma rename_not_batch: "rename_op \<noteq> Batch ops l"
  by (simp add: rename_op_def)

lemma push_rename:
  "push_undo h rename_op = h\<lparr>hist_undo := trim_front (hist_limit h) (hist_undo h @ [rename_op])\<rparr>"
  by (simp add: push_undo_def rename_op_def Let_def)

lemma demo_apply:
  "history_apply (enc_frame demo_codecs) (history_open [] 0) (named_scene ''a'') rename_op
     = (Inr 1, demo_h1, named_scene ''b'')"
  by (simp add: history_apply_def rename_applies write_frame_def demo_codecs_def history_open_def
      bump_epoch_def push_rename u32_to_le_bytes_def default_undo_limit_def flip: frame_1_def)
     (simp add: demo_h1_def)


section \<open>Undo and redo over a session\<close>

text \<open>Claim C3: undo never gets stuck. While the stacks are truthful, undoing applies the inverse
  of the latest entry successfully and arrives at a scene from which that entry leads back to
  the current one; the entry moves to the redo stack and the stacks stay truthful.\<close>
theorem history_undo_total:
  assumes "history_ok h s" "hist_undo h = st @ [op]"
  shows "\<exists>i t. apply_op (inverse_op op) s = (Inr i, t) \<and> apply_op op t = (Inr op, s)
           \<and> (\<forall>r h' s'. history_undo enc h s = (Inr r, h', s') \<longrightarrow>
                r = Some (hist_epoch h + 1, i) \<and> s' = t \<and> hist_undo h' = st
                \<and> hist_redo h' = hist_redo h @ [op] \<and> history_ok h' s')
           \<and> (\<forall>e. fst (history_undo enc h s) \<noteq> Inl (ApplyFailed e))"
proof -
  have "undo_chain apply_op scene_ok op_ok (op # rev st) s"
    using assms by (simp add: history_ok_def)
  then obtain i t where it: "apply_op (inverse_op op) s = (Inr i, t)" "apply_op op t = (Inr op, s)"
    by (rule scene_undo.pop_chain)
  have "r = Some (hist_epoch h + 1, i) \<and> s' = t \<and> hist_undo h' = st
          \<and> hist_redo h' = hist_redo h @ [op] \<and> history_ok h' s'"
    if r: "history_undo enc h s = (Inr r, h', s')" for r h' s'
  proof -
    obtain e j where "r = Some (e, j)"
      using r assms(2) by (cases r) (auto simp: history_undo_None)
    with r it assms(2) history_undo_ok [OF assms(1) r] show ?thesis
      by (auto simp: history_undo_Ok dest: write_frame_fields)
  qed
  moreover have "fst (history_undo enc h s) \<noteq> Inl (ApplyFailed e)" for e
    using it(1) assms(2)
    by (auto simp: history_undo_def Let_def write_frame_def split: option.splits)
  ultimately show ?thesis using it by blast
qed

lemma demo_h1_ok: "history_ok demo_h1 (named_scene ''b'')"
  using history_apply_ok [OF history_open_ok [OF named_scene_ok] rename_legal(1) demo_apply] .

theorem history_undo_total_witness:
  "\<exists>i t. apply_op (inverse_op rename_op) (named_scene ''b'') = (Inr i, t)
     \<and> apply_op rename_op t = (Inr rename_op, named_scene ''b'')"
  using history_undo_total [OF demo_h1_ok, of "[]" rename_op "enc_frame demo_codecs"]
  by (auto simp: demo_h1_def)

text \<open>Undo followed by redo is the identity on the scene. After a successful undo of
  one entry a redo re-applies exactly that entry and gives back the scene the undo started
  from, and the redo stack is what it was.\<close>
theorem undo_then_redo:
  assumes "history_ok h s" "history_undo enc h s = (Inr (Some (e, i)), h1, t)"
    and "history_redo enc h1 t = (Inr r, h2, s')"
  shows "s' = s \<and> r = Some (e + 1, last (hist_undo h)) \<and> hist_redo h2 = hist_redo h \<and> history_ok h2 s'"
proof -
  from assms(2) obtain st op h0 where u: "hist_undo h = st @ [op]"
      "write_frame enc (bump_epoch (h\<lparr>hist_undo := st\<rparr>)) i = (Inr (), h0)"
      "h1 = h0\<lparr>hist_redo := hist_redo h0 @ [op]\<rparr>" "e = hist_epoch h0"
      "apply_op (inverse_op op) s = (Inr i, t)"
    by (auto simp: history_undo_Ok)
  have "undo_chain apply_op scene_ok op_ok (op # rev st) s"
    using assms(1) u(1) by (simp add: history_ok_def)
  then have top: "apply_op op t = (Inr op, s)"
    by (rule scene_undo.pop_chain) (use u(5) in auto)
  have red: "hist_redo h1 = hist_redo h @ [op]" "hist_epoch h1 = e"
    using write_frame_fields [OF u(2)] u(3,4) by simp_all
  then obtain e' j where "r = Some (e', j)"
    using assms(3) by (cases r) (auto simp: history_redo_None)
  with assms(3) obtain h3 where w: "apply_op op t = (Inr j, s')"
      "write_frame enc (bump_epoch (h1\<lparr>hist_redo := hist_redo h\<rparr>)) j = (Inr (), h3)"
      "h2 = push_undo h3 j" "e' = hist_epoch h3"
    using red by (auto simp: history_redo_Ok)
  have "history_ok h2 s'"
    using history_redo_ok [OF history_undo_ok [OF assms(1,2)] assms(3)] .
  with w top red u(1) \<open>r = Some (e', j)\<close> write_frame_fields [OF w(2)] show ?thesis
    by simp
qed

definition demo_h2 :: history where
  "demo_h2 = \<lparr>hist_log = [1, 0, 0, 0, 1, 2, 0, 0, 0, 2, 2], hist_epoch = 2, hist_undo = [],
     hist_redo = [rename_op], hist_limit = 500\<rparr>"

lemma demo_frames_distinct [simp]: "frame_1 \<noteq> frame_2" "frame_2 \<noteq> frame_1"  "frame_1 \<noteq> frame_3" "frame_3 \<noteq> frame_1" "frame_2 \<noteq> frame_3" "frame_3 \<noteq> frame_2"
  by (simp_all add: frame_1_def frame_2_def frame_3_def)

lemma demo_undo:
  "history_undo (enc_frame demo_codecs) demo_h1 (named_scene ''b'')
     = (Inr (Some (2, inverse_op rename_op)), demo_h2, named_scene ''a'')"
  by (simp add: history_undo_def demo_h1_def rename_back write_frame_def demo_codecs_def
      bump_epoch_def u32_to_le_bytes_def Let_def flip: frame_2_def)
     (simp add: demo_h2_def)

lemma demo_redo:
  "\<exists>h2. history_redo (enc_frame demo_codecs) demo_h2 (named_scene ''a'')
     = (Inr (Some (3, rename_op)), h2, named_scene ''b'')"
  by (simp add: history_redo_def demo_h2_def rename_applies write_frame_def demo_codecs_def
      bump_epoch_def u32_to_le_bytes_def Let_def push_rename flip: frame_3_def)

theorem undo_then_redo_witness:
  "\<exists>h2 s'. history_redo (enc_frame demo_codecs) demo_h2 (named_scene ''a'')
     = (Inr (Some (3, rename_op)), h2, s') \<and> s' = named_scene ''b'' \<and> history_ok h2 s'"
proof -
  obtain h2 where h2: "history_redo (enc_frame demo_codecs) demo_h2 (named_scene ''a'')
     = (Inr (Some (3, rename_op)), h2, named_scene ''b'')"
    using demo_redo by blast
  from undo_then_redo [OF demo_h1_ok demo_undo h2] h2 show ?thesis by blast
qed




section \<open>Durability\<close>

text \<open>
  The sessions a project can go through without the defects of \<open>apply\<close> that \<open>Scene_Op_Props\<close> shows: created
  or opened fresh, changed by successful operations whose added pages are well-formed, by rejected operations
  that leave the scene alone, undo, redo, compaction, a crash between the steps of a compaction, closing and
  reopening. The code checks neither the added pages nor that a rejected operation has left the scene alone.
  The number counts the steps that advance the epoch.
\<close>

inductive reachable :: "codecs \<Rightarrow> datetime \<Rightarrow> nat \<Rightarrow> session \<Rightarrow> bool" for c now where
  fresh: "dir_scene_bin dir = None \<Longrightarrow> dir_log dir = None \<Longrightarrow> dir_toml dir \<noteq> None
    \<Longrightarrow> open_inner c now dir creating = Ok ses \<Longrightarrow> reachable c now 0 ses"
| applied: "reachable c now n ses \<Longrightarrow> op_ok op \<Longrightarrow> session_apply c ses op = (Inr e, ses')
    \<Longrightarrow> reachable c now (Suc n) ses'"
| rejected: "reachable c now n ses \<Longrightarrow> session_apply c ses op = (Inl (ApplyFailed e), ses')
    \<Longrightarrow> ses_scene ses' = ses_scene ses \<Longrightarrow> reachable c now n ses'"
| undone: "reachable c now n ses \<Longrightarrow> session_undo c ses = (Inr r, ses') \<Longrightarrow> reachable c now (Suc n) ses'"
| redone: "reachable c now n ses \<Longrightarrow> session_redo c ses = (Inr r, ses') \<Longrightarrow> reachable c now (Suc n) ses'"
| compacted: "reachable c now n ses \<Longrightarrow> session_compact c ses = (Inr u, ses') \<Longrightarrow> reachable c now n ses'"
| half_compacted: "reachable c now n ses \<Longrightarrow> compact_write c (compact_snapshot ses) ses = (Inr u, ses')
    \<Longrightarrow> open_inner c now (on_disk ses') False = Ok ses'' \<Longrightarrow> reachable c now n ses''"
| reopened: "reachable c now n ses \<Longrightarrow> open_inner c now (on_disk ses) False = Ok ses'
    \<Longrightarrow> reachable c now n ses'"

lemma session_apply_rejected:
  assumes "session_apply c ses op = (Inl (ApplyFailed e), ses')" "ses_scene ses' = ses_scene ses"
  shows "ses' = ses"
  using assms
  by (auto simp: session_apply_def history_apply_def write_frame_def Let_def
      split: prod.splits sum.splits option.splits if_splits)

lemma open_inner_Ok:
  "open_inner c now dir creating = Inr ses \<longleftrightarrow>
     (\<exists>s0 e0 e s. load_snapshot c now dir creating = Ok (s0, e0)
        \<and> replay (dec_frame c) (dir_log dir) e0 s0 = (Inr e, s)
        \<and> ses = \<lparr>ses_scene = s, ses_history = history_open (case dir_log dir of None \<Rightarrow> [] | Some b \<Rightarrow> b) e,
                 ses_scene_bin = dir_scene_bin dir, ses_toml = dir_toml dir\<rparr>)"
  by (cases "load_snapshot c now dir creating") (auto simp: open_inner_def split: prod.split sum.split)

lemma reopened_ok:
  assumes "codecs_ok c" "session_ok c now ses" "open_inner c now (on_disk ses) False = Ok ses'"
  shows "session_ok c now ses'" and "session_epoch ses' = session_epoch ses"
proof -
  from session_ok_reopens [OF assms(1,2)] assms(3)
  have same: "ses_scene ses' = ses_scene ses" "session_epoch ses' = session_epoch ses" "on_disk ses' = on_disk ses"
    by auto
  then show "session_epoch ses' = session_epoch ses" by simp
  obtain bytes epoch where "ses_history ses' = history_open bytes epoch"
    using assms(3) by (auto simp: open_inner_Ok)
  moreover have "scene_ok (ses_scene ses')"
    using assms(2) same by (auto simp: session_ok_def dest: history_ok_scene)
  moreover have "hist_log (ses_history ses') = hist_log (ses_history ses)"
    using same(3) by (simp add: on_disk_def)
  ultimately show "session_ok c now ses'"
    using assms(2) same unfolding session_ok_def
    by (metis history_open_ok log_ok_cong session_epoch_def)
qed

lemma fresh_ok:
  assumes "dir_scene_bin dir = None" "dir_log dir = None" "dir_toml dir \<noteq> None"
    and "open_inner c now dir creating = Ok ses"
  shows "session_ok c now ses" and "session_epoch ses = 0"
proof -
  from assms obtain s0 where s0: "load_snapshot c now dir creating = Ok (s0, 0)" "scene_ok s0"
      "ses = \<lparr>ses_scene = s0, ses_history = history_open [] 0, ses_scene_bin = None, ses_toml = dir_toml dir\<rparr>"
    by (auto simp: open_inner_def load_snapshot_def replay_def Let_def default_scene_ok split: option.splits)
  have "load_snapshot c now (on_disk ses) False = load_snapshot c now dir creating"
    using assms by (auto simp: load_snapshot_def on_disk_def s0(3) split: option.split)
  moreover have "log_ok (enc_frame c) 0 s0 (history_open [] 0) s0"
    by (auto simp: log_ok_def history_open_def log_of_def intro!: exI [of _ "[]"])
  ultimately show "session_ok c now ses"
    using s0 by (simp add: session_ok_def history_open_ok)
  show "session_epoch ses = 0" by (simp add: s0(3) session_epoch_def history_open_def)
qed

text \<open>A step that writes a frame advances the epoch by one.\<close>

lemma session_epoch_step:
  "session_apply c ses op = (Inr e, ses') \<Longrightarrow> session_epoch ses' = session_epoch ses + 1"
  "session_undo c ses = (Inr r, ses') \<Longrightarrow> session_epoch ses' = session_epoch ses + of_bool (r \<noteq> None)"
  "session_redo c ses = (Inr r, ses') \<Longrightarrow> session_epoch ses' = session_epoch ses + of_bool (r \<noteq> None)"
  by (auto simp: session_apply_def session_undo_def session_redo_def Let_def session_epoch_def
      history_Ok write_frame_Ok split: prod.splits)
     (cases r; auto simp: history_undo_None history_redo_None history_Ok write_frame_Ok)+

lemma session_compact_Ok:
  "session_compact c ses = (Inr u, ses') \<longleftrightarrow>
     (\<exists>ses1. compact_write c (compact_snapshot ses) ses = (Inr (), ses1) \<and> ses' = compact_truncate ses1)"
  by (auto simp: session_compact_def split: prod.splits sum.splits)

lemma compact_epoch:
  "compact_write c snap ses = (Inr u, ses') \<Longrightarrow> session_epoch ses' = session_epoch ses"
  "session_epoch (compact_truncate ses) = session_epoch ses"
  by (auto simp: compact_write_def session_epoch_def compact_truncate_def truncate_log_def split: option.splits)

lemma unat_step: "unat (w :: u64) \<le> n \<Longrightarrow> Suc n < 2 ^ 64 \<Longrightarrow> w \<noteq> - 1 \<and> unat (w + 1) \<le> Suc n"
proof -
  assume n: "unat w \<le> n" "Suc n < 2 ^ 64"
  have "unat (- 1 :: u64) = 2 ^ 64 - 1" by (simp add: unsigned_minus_1_eq_mask mask_eq_exp_minus_1)
  with n have w: "w \<noteq> - 1" by auto
  then have "w + 1 \<noteq> 0" by (metis eq_neg_iff_add_eq_0)
  then have "unat (1 + w) = Suc (unat w)" by (intro unatSuc) (simp add: add.commute)
  with n(1) w show ?thesis by (simp add: add.commute)
qed

lemma reachable_ok:
  assumes "codecs_ok c" "reachable c now n ses" "n < 2 ^ 64"
  shows "session_ok c now ses \<and> unat (session_epoch ses) \<le> n"
  using assms(2,3)
proof induction
  case (fresh dir creating ses)
  then show ?case using fresh_ok [of dir c now creating ses] by simp
next
  case (applied n ses op e ses')
  then show ?case
    using unat_step [of "session_epoch ses" n] session_apply_ok [of c now ses op e ses'] session_epoch_step(1) by auto
next
  case (rejected n ses op e ses')
  then show ?case using session_apply_rejected by metis
next
  case (undone n ses r ses')
  then show ?case
    using unat_step [of "session_epoch ses" n] session_undo_ok [of c now ses r ses'] session_epoch_step(2) [of c ses r ses']
    by (cases r) auto
next
  case (redone n ses r ses')
  then show ?case
    using unat_step [of "session_epoch ses" n] session_redo_ok [of c now ses r ses'] session_epoch_step(3) [of c ses r ses']
    by (cases r) auto
next
  case (compacted n ses u ses')
  then show ?case
    using compact_write_ok(2) [OF assms(1)] compact_epoch by (auto simp: session_compact_Ok)
next
  case (half_compacted n ses u ses' ses'')
  then show ?case
    using compact_write_ok(1) [OF assms(1), of now ses] reopened_ok [OF assms(1), of now ses' ses'']
    by (auto simp: compact_epoch)
next
  case (reopened n ses ses')
  then show ?case using reopened_ok [OF assms(1), of now ses ses'] by auto
qed


lemma load_snapshot_dir:
  "dir_scene_bin d = dir_scene_bin d' \<Longrightarrow> dir_toml d = dir_toml d'
   \<Longrightarrow> load_snapshot c now d cr = load_snapshot c now d' cr"
  unfolding load_snapshot_def by (simp only:)

lemma unat_top_byte: "b \<noteq> 0 \<Longrightarrow> 2 ^ 24 \<le> unat (u32_from_le_bytes [0, 0, 0, b])"
proof -
  assume "b \<noteq> 0"
  then have b: "0 < unat b" "unat b < 256"
    using unsigned_less [of b, where 'a = nat] by (simp_all add: unat_gt_0)
  have "unat (u32_from_le_bytes [0, 0, 0, b]) = (unat b * 2 ^ 24) mod 2 ^ 32"
    using b(2) by (simp add: push_bit_eq_mult unat_word_ariths unsigned_ucast_eq take_bit_nat_eq_self)
  also have "\<dots> = unat b * 2 ^ 24" using b(2) by simp
  finally show ?thesis using b(1) by simp
qed

lemma demo_fresh: "reachable demo_codecs 0 0 demo_session"
proof (rule fresh [of "\<lparr>dir_scene_bin = None, dir_log = None, dir_toml = Some (lit ''a'')\<rparr>" _ _ False])
  show "open_inner demo_codecs 0 \<lparr>dir_scene_bin = None, dir_log = None, dir_toml = Some (lit ''a'')\<rparr> False
      = Ok demo_session"
    by (simp add: open_inner_def load_snapshot_def demo_codecs_def replay_def demo_session_def
        named_scene_def default_scene_def default_project_meta_def)
qed simp_all

definition demo_session_1 :: session where
  "demo_session_1 = demo_session\<lparr>ses_history := demo_h1, ses_scene := named_scene ''b''\<rparr>"

lemma demo_session_apply: "session_apply demo_codecs demo_session rename_op = (Inr 1, demo_session_1)"
proof -
  have h: "ses_history demo_session = history_open [] 0" "ses_scene demo_session = named_scene ''a''"
    by (simp_all add: demo_session_def)
  show ?thesis
    unfolding session_apply_def h demo_apply by (simp add: demo_session_1_def)
qed

lemma demo_reached: "reachable demo_codecs 0 1 demo_session_1"
  using applied [OF demo_fresh rename_legal(1) demo_session_apply] by simp





text \<open>A crash while an edit is being logged loses that edit and nothing else. With the
  log cut anywhere inside the frame of the edit, reopening succeeds with the scene and the
  epoch before it.\<close>
theorem torn_frame_loses_one_edit:
  assumes "codecs_ok c" "reachable c now n ses" "n < 2 ^ 64"
    and "session_apply c ses op = (Inr e, ses')"
    and "length (hist_log (ses_history ses)) \<le> k" "k < length (hist_log (ses_history ses'))"
  shows "\<exists>ses''. open_inner c now ((on_disk ses')\<lparr>dir_log := Some (take k (hist_log (ses_history ses')))\<rparr>) False
             = Ok ses'' \<and> ses_scene ses'' = ses_scene ses \<and> session_epoch ses'' = session_epoch ses"
proof -
  have ok: "session_ok c now ses" using reachable_ok [OF assms(1-3)] by simp
  then obtain s0 e0 where base: "load_snapshot c now (on_disk ses) False = Ok (s0, e0)"
      and log: "log_ok (enc_frame c) e0 s0 (ses_history ses) (ses_scene ses)"
    by (auto simp: session_ok_def)
  obtain body where body: "length body < 2 ^ 32"
      "hist_log (ses_history ses') = hist_log (ses_history ses) @ frame_bytes body"
    using assms(4) by (auto simp: session_apply_def history_apply_Ok write_frame_Ok Let_def split: prod.splits)
  let ?k = "k - length (hist_log (ses_history ses))"
  have cut: "take k (hist_log (ses_history ses')) = hist_log (ses_history ses) @ take ?k (frame_bytes body)"
    and "?k < length (frame_bytes body)"
    using assms(5,6) body(2) by simp_all
  then have replay: "replay_bytes (dec_frame c) e0 s0 (take k (hist_log (ses_history ses')))
      = (Inr (hist_epoch (ses_history ses)), ses_scene ses)"
    using log_ok_replay_torn [OF _ log body(1)] assms(1) by (simp add: codecs_ok_def)
  have "ses_scene_bin ses' = ses_scene_bin ses" "ses_toml ses' = ses_toml ses"
    using assms(4) by (auto simp: session_apply_def Let_def split: prod.splits)
  then have "load_snapshot c now ((on_disk ses')\<lparr>dir_log := d\<rparr>) False = Ok (s0, e0)" for d
    using base load_snapshot_dir [of "(on_disk ses')\<lparr>dir_log := d\<rparr>" "on_disk ses"]
    by (simp add: on_disk_def)
  with replay show ?thesis
    by (auto simp: open_inner_Ok replay_def session_epoch_def history_open_def)
qed

theorem torn_frame_loses_one_edit_witness:
  "\<exists>ses''. open_inner demo_codecs 0 ((on_disk demo_session_1)\<lparr>dir_log := Some (take 3 (hist_log (ses_history demo_session_1)))\<rparr>) False
     = Ok ses'' \<and> ses_scene ses'' = ses_scene demo_session \<and> session_epoch ses'' = session_epoch demo_session"
  by (rule torn_frame_loses_one_edit [OF demo_codecs_ok demo_fresh _ demo_session_apply])
     (simp_all add: demo_session_1_def demo_session_def history_open_def demo_h1_def)

text \<open>Claim C11: an edit that lands between the snapshot of a compaction and its truncation of
  the log is lost. The edit succeeds, but the files that are left reopen with the scene and
  epoch before it.\<close>
theorem compaction_race_loses_edit:
  assumes "codecs_ok c" "session_apply c ses op = (Inr e, ses1)"
    and "compact_write c (compact_snapshot ses) ses1 = (Inr u, ses2)"
  shows "\<exists>ses'. open_inner c now (on_disk (compact_truncate ses2)) False = Ok ses'
           \<and> ses_scene ses' = ses_scene ses \<and> session_epoch ses' = session_epoch ses"
proof -
  obtain bytes where b: "enc_snapshot c (compact_snapshot ses) = Some bytes"
      and "ses2 = ses1\<lparr>ses_scene_bin := Some bytes\<rparr>"
    using assms(3) by (auto simp: compact_write_def split: option.splits)
  then have "on_disk (compact_truncate ses2)
      = \<lparr>dir_scene_bin = Some bytes, dir_log = Some [], dir_toml = ses_toml ses1\<rparr>"
    by (simp add: on_disk_def compact_truncate_def truncate_log_def)
  moreover have "dec_snapshot c bytes = Some (compact_snapshot ses)"
    using assms(1) b by (simp add: codecs_ok_def)
  ultimately show ?thesis
    by (auto simp: open_inner_Ok replay_def load_snapshot_def compact_snapshot_def
        session_epoch_def history_open_def)
qed

theorem compaction_race_loses_edit_witness:
  "\<exists>ses'. open_inner demo_codecs 0
        (on_disk (compact_truncate (demo_session_1\<lparr>ses_scene_bin := Some [0]\<rparr>))) False = Ok ses'
     \<and> ses_scene ses' = ses_scene demo_session \<and> session_epoch ses' = session_epoch demo_session"
proof (rule compaction_race_loses_edit [OF demo_codecs_ok demo_session_apply])
  have "compact_snapshot demo_session = snap_0"
    by (simp add: compact_snapshot_def demo_session_def snap_0_def session_epoch_def history_open_def)
  then show "compact_write demo_codecs (compact_snapshot demo_session) demo_session_1
      = (Inr (), demo_session_1\<lparr>ses_scene_bin := Some [0]\<rparr>)"
    by (simp add: compact_write_def demo_codecs_def)
qed

text \<open>What is appended after a torn frame is not replayed. The torn bytes stay in the
  file, so the next replay reads the length of the torn frame and takes the following frames
  for its body; with three bytes of a length left behind it gives up before every later edit.\<close>
theorem frames_after_torn_bytes_lost:
  assumes "length body + 3 < 2 ^ 24" "length body mod 256 \<noteq> 0"
  shows "replay_bytes dec epoch s ([0, 0, 0] @ frame_bytes body) = (Ok epoch, s)"
proof -
  let ?len = "of_nat (length body) :: u32"
  have low: "u32_to_le_bytes ?len = ucast ?len # tl (u32_to_le_bytes ?len)"
    by (simp add: u32_to_le_bytes_def)
  have "read_exact 4 ([0, 0, 0] @ frame_bytes body)
      = Some ([0, 0, 0, ucast ?len], tl (u32_to_le_bytes ?len) @ body)"
    by (simp add: read_exact_def frame_bytes_def u32_to_le_bytes_def)
  moreover have "2 ^ 24 \<le> unat (u32_from_le_bytes [0, 0, 0, ucast ?len])"
  proof (rule unat_top_byte)
    have "unat (ucast ?len :: u8) = length body mod 256"
      using assms(1) by (simp add: unsigned_ucast_eq unat_of_nat take_bit_eq_mod mod_mod_cancel)
    with assms(2) show "ucast ?len \<noteq> (0 :: u8)" by auto
  qed
  then have "read_exact (unat (u32_from_le_bytes [0, 0, 0, ucast ?len])) (tl (u32_to_le_bytes ?len) @ body) = None"
    using assms(1) by (intro read_exact_short) (simp add: u32_to_le_bytes_def)
  ultimately show ?thesis
    by (subst replay_bytes.simps) simp
qed

theorem frames_after_torn_bytes_lost_witness:
  "replay_bytes (dec_frame demo_codecs) 0 (named_scene ''a'') ([0, 0, 0] @ frame_bytes [1])
     = (Ok 0, named_scene ''a'')"
  by (rule frames_after_torn_bytes_lost) simp_all

end
