(* ===== verification/Sorted_Map.thy ===== *)
theory Sorted_Map
  imports Prelude "HOL-Library.List_Lexorder"
begin

text \<open>
  \<open>BTreeMap\<close> and \<open>BTreeSet\<close> of the standard library as the strictly sorted lists they
  iterate as. Strings compare as Rust compares them: the byte order of UTF-8 is the
  lexicographic order of the scalar values.
\<close>

type_synonym ('k, 'v) btree_map = "('k \<times> 'v) list"

definition bt_keys :: "('k, 'v) btree_map \<Rightarrow> 'k list" where
  "bt_keys m = map fst m"

definition bt_get :: "('k, 'v) btree_map \<Rightarrow> 'k \<Rightarrow> 'v option" where
  "bt_get m k = map_of m k"

fun bt_insert :: "('k :: linorder, 'v) btree_map \<Rightarrow> 'k \<Rightarrow> 'v \<Rightarrow> ('k, 'v) btree_map" where
  "bt_insert [] k v = [(k, v)]"
| "bt_insert ((j, w) # m) k v =
     (if k < j then (k, v) # (j, w) # m
      else if k = j then (k, v) # m
      else (j, w) # bt_insert m k v)"

definition bt_ok :: "('k :: linorder, 'v) btree_map \<Rightarrow> bool" where
  "bt_ok m \<longleftrightarrow> sorted_wrt (<) (bt_keys m)"

fun bs_insert :: "'a :: linorder list \<Rightarrow> 'a \<Rightarrow> 'a list" where
  "bs_insert [] x = [x]"
| "bs_insert (y # ys) x =
     (if x < y then x # y # ys else if x = y then y # ys else y # bs_insert ys x)"

text \<open>Collecting an iterator into a \<open>BTreeSet\<close>.\<close>

definition bs_collect :: "'a :: linorder list \<Rightarrow> 'a list" where
  "bs_collect xs = fold (\<lambda>x s. bs_insert s x) xs []"

lemma bt_ok_Nil [simp]: "bt_ok []"
  by (simp add: bt_ok_def bt_keys_def)

lemma bt_get_Nil [simp]: "bt_get [] k = None"
  by (simp add: bt_get_def)

lemma set_bt_keys_insert [simp]: "set (bt_keys (bt_insert m k v)) = insert k (set (bt_keys m))"
  by (induction m k v rule: bt_insert.induct) (auto simp: bt_keys_def)

lemma bt_ok_insert [simp]: "bt_ok m \<Longrightarrow> bt_ok (bt_insert m k v)"
proof (induction m k v rule: bt_insert.induct)
  case (2 j w m k v)
  then show ?case
    using set_bt_keys_insert [of m k v] by (auto simp: bt_ok_def bt_keys_def)
qed (simp add: bt_ok_def bt_keys_def)

lemma bt_get_insert: "bt_ok m \<Longrightarrow> bt_get (bt_insert m k v) j = (if j = k then Some v else bt_get m j)"
proof (induction m k v rule: bt_insert.induct)
  case (2 i w m k v)
  then have "bt_ok m" by (simp add: bt_ok_def bt_keys_def)
  moreover have "k < i \<Longrightarrow> map_of m k = None"
    using 2(2) by (force simp: bt_ok_def bt_keys_def map_of_eq_None_iff)
  ultimately show ?case using 2 by (auto simp: bt_get_def)
qed (simp add: bt_get_def)

lemma bt_get_None_iff: "bt_get m k = None \<longleftrightarrow> k \<notin> set (bt_keys m)"
  by (simp add: bt_get_def bt_keys_def map_of_eq_None_iff)

lemma bt_ok_distinct: "bt_ok m \<Longrightarrow> distinct (bt_keys m)"
  by (simp add: bt_ok_def strict_sorted_iff)

lemma set_bs_insert [simp]: "set (bs_insert s x) = insert x (set s)"
  by (induction s x rule: bs_insert.induct) auto

lemma sorted_bs_insert [simp]: "sorted_wrt (<) s \<Longrightarrow> sorted_wrt (<) (bs_insert s x)"
  by (induction s x rule: bs_insert.induct) auto

lemma bs_collect_inv:
  "sorted_wrt (<) s \<Longrightarrow> sorted_wrt (<) (fold (\<lambda>x s. bs_insert s x) xs s)
     \<and> set (fold (\<lambda>x s. bs_insert s x) xs s) = set s \<union> set xs"
  by (induction xs arbitrary: s) auto

lemma set_bs_collect [simp]: "set (bs_collect xs) = set xs"
  using bs_collect_inv [of "[]" xs] by (simp add: bs_collect_def)

lemma sorted_bs_collect [simp]: "sorted_wrt (<) (bs_collect xs)"
  using bs_collect_inv [of "[]" xs] by (simp add: bs_collect_def)

end
