(* ===== verification/Hsk_Model.thy ===== *)
theory Hsk_Model
  imports Sorted_Map "HOL-Library.Product_Lexorder"
begin

text \<open>
  The data of \<open>hsk-control\<close> (\<open>model.rs\<close>, \<open>error.rs\<close>): levels, vocabulary and dictionary
  entries, the audited artifacts and the report of a validation. A \<open>usize\<close> is a natural
  number, an error message is a constructor carrying the values the message prints.
\<close>

section \<open>Levels\<close>

datatype hsk_level = HskLevel u8

primrec level_get :: "hsk_level \<Rightarrow> u8" where
  "level_get (HskLevel v) = v"

definition level_index :: "hsk_level \<Rightarrow> nat" where
  "level_index l = unat (level_get l - 1)"

definition level_ok :: "hsk_level \<Rightarrow> bool" where
  "level_ok l \<longleftrightarrow> 1 \<le> level_get l \<and> level_get l \<le> 6"

definition all_levels :: "hsk_level list" where
  "all_levels = [HskLevel 1, HskLevel 2, HskLevel 3, HskLevel 4, HskLevel 5, HskLevel 6]"

text \<open>\<open>derive(PartialOrd, Ord)\<close>: levels compare as their numbers.\<close>

instantiation hsk_level :: linorder
begin

definition less_eq_hsk_level :: "hsk_level \<Rightarrow> hsk_level \<Rightarrow> bool" where
  "less_eq_hsk_level a b \<longleftrightarrow> level_get a \<le> level_get b"

definition less_hsk_level :: "hsk_level \<Rightarrow> hsk_level \<Rightarrow> bool" where
  "less_hsk_level a b \<longleftrightarrow> level_get a < level_get b"

instance
proof
  fix a b :: hsk_level
  show "a \<le> b \<Longrightarrow> b \<le> a \<Longrightarrow> a = b"
    by (cases a; cases b) (simp add: less_eq_hsk_level_def)
qed (auto simp: less_eq_hsk_level_def less_hsk_level_def)

end

section \<open>Errors\<close>

datatype dataset_completeness = CompleteDataset | TestSeed
datatype dataset_kind = Hsk20 | CcCedict
datatype load_policy = RequireComplete | AllowIncompleteTestSeed

datatype data_error =
  InvalidLevelText rstring
| UnsupportedMetadataSchema u32
| KindMismatch dataset_kind dataset_kind
| WrongStandard
| EmptyIdentity
| BadSourceHash
| MissingExpectedCount
| MissingExpectedLevelCounts
| UnsupportedSchema u32
| UnsupportedStandard rstring
| EmptyRevision
| InvalidSourceAudit
| NoEntries
| AuditCountMismatch nat nat
| NotNormalized rstring rstring
| DuplicateWord rstring
| LevelCountMismatch "nat list" "nat list"
| IncompleteEntry rstring
| UnsupportedFormat rstring
| EntryNotAudited nat rstring
| UsableNotAudited rstring
| InvalidUsable rstring
| InvalidRank rstring
| EmptyRequiredField
| ExpectedCountMismatch nat nat
| NotUtf8
| MissingHeader rstring
| MissingField rstring
| MissingUsableHeader

datatype licence_error = LicenceFieldsMissing | RedistributionNotAudited | LicenceAuditIncomplete

datatype hsk_error =
  InvalidHskLevel u8
| InvalidData data_error
| DatasetIncomplete string rstring dataset_completeness
| SourceHashMismatch rstring rstring
| LicenceAuditError licence_error
| CedictParse nat string
| CsvError
| JsonError

definition level_new :: "u8 \<Rightarrow> hsk_error + hsk_level" where
  "level_new v = (if 1 \<le> v \<and> v \<le> 6 then Ok (HskLevel v) else Err (InvalidHskLevel v))"

text \<open>\<open>FromStr\<close>; \<open>parse_u8\<close> is \<open>str::parse::<u8>\<close>: decimal digits after an optional plus sign.\<close>

definition digits_value :: "rstring \<Rightarrow> nat" where
  "digits_value s = foldl (\<lambda>n c. n * 10 + (c - 48)) 0 s"

definition parse_nat :: "nat \<Rightarrow> rstring \<Rightarrow> nat option" where
  "parse_nat bound s =
     (let t = (case s of [] \<Rightarrow> [] | c # r \<Rightarrow> if c = 43 then r else s) in
      if t = [] \<or> \<not> list_all is_ascii_digit t \<or> digits_value t \<ge> bound then None
      else Some (digits_value t))"

definition level_from_str :: "rstring \<Rightarrow> hsk_error + hsk_level" where
  "level_from_str s = (case parse_nat 256 s of
     None \<Rightarrow> Err (InvalidData (InvalidLevelText s))
   | Some v \<Rightarrow> level_new (of_nat v))"

section \<open>Audits and metadata\<close>

record source_audit =
  sa_name :: rstring
  sa_url :: rstring
  sa_revision :: rstring
  sa_sha256 :: rstring

record licence_audit =
  la_spdx_expression :: rstring
  la_url :: rstring
  la_attribution :: rstring
  la_redistribution_allowed :: bool

record import_metadata =
  im_schema_version :: u32
  im_kind :: dataset_kind
  im_standard :: "rstring option"
  im_dataset_revision :: rstring
  im_completeness :: dataset_completeness
  im_source :: source_audit
  im_licence :: licence_audit
  im_expected_entry_count :: "nat option"
  im_expected_level_counts :: "nat list option"

definition DATA_SCHEMA_VERSION :: u32 where "DATA_SCHEMA_VERSION = 1"
definition HSK_STANDARD :: rstring where "HSK_STANDARD = lit ''2.0''"

definition blank :: "rstring \<Rightarrow> bool" where
  "blank s \<longleftrightarrow> trim s = []"

definition sha256_form_ok :: "rstring \<Rightarrow> bool" where
  "sha256_form_ok s \<longleftrightarrow>
     str_len s = 64 \<and> list_all (\<lambda>c. is_ascii_hexdigit c \<and> \<not> is_ascii_uppercase c) s"

definition validate_common :: "import_metadata \<Rightarrow> dataset_kind \<Rightarrow> hsk_error + unit" where
  "validate_common md expected_kind =
     (if im_schema_version md \<noteq> DATA_SCHEMA_VERSION
      then Err (InvalidData (UnsupportedMetadataSchema (im_schema_version md)))
      else if im_kind md \<noteq> expected_kind
      then Err (InvalidData (KindMismatch (im_kind md) expected_kind))
      else if expected_kind = Hsk20 \<and> im_standard md \<noteq> Some HSK_STANDARD
      then Err (InvalidData WrongStandard)
      else if blank (im_dataset_revision md) \<or> blank (sa_name (im_source md))
              \<or> blank (sa_url (im_source md)) \<or> blank (sa_revision (im_source md))
      then Err (InvalidData EmptyIdentity)
      else if \<not> sha256_form_ok (sa_sha256 (im_source md))
      then Err (InvalidData BadSourceHash)
      else if blank (la_spdx_expression (im_licence md)) \<or> blank (la_url (im_licence md))
              \<or> blank (la_attribution (im_licence md))
      then Err (LicenceAuditError LicenceFieldsMissing)
      else if \<not> la_redistribution_allowed (im_licence md)
      then Err (LicenceAuditError RedistributionNotAudited)
      else if im_completeness md = CompleteDataset \<and> im_expected_entry_count md = None
      then Err (InvalidData MissingExpectedCount)
      else if expected_kind = Hsk20 \<and> im_completeness md = CompleteDataset
              \<and> im_expected_level_counts md = None
      then Err (InvalidData MissingExpectedLevelCounts)
      else Ok ())"

section \<open>Entries and artifacts\<close>

record hsk_entry =
  he_simplified :: rstring
  he_pinyin :: rstring
  he_glosses :: "rstring list"
  he_level :: hsk_level
  he_simpler_words :: "rstring list"
  he_independently_usable :: bool
  he_frequency_rank :: "u32 option"

record dictionary_entry =
  de_traditional :: rstring
  de_simplified :: rstring
  de_pinyin :: rstring
  de_definitions :: "rstring list"
  de_frequency_rank :: "u32 option"

record hsk_artifact =
  ha_schema_version :: u32
  ha_standard :: rstring
  ha_dataset_revision :: rstring
  ha_completeness :: dataset_completeness
  ha_source :: source_audit
  ha_licence :: licence_audit
  ha_audited_entry_count :: nat
  ha_audited_level_counts :: "nat list"
  ha_entries :: "hsk_entry list"

record dictionary_artifact =
  da_schema_version :: u32
  da_format :: rstring
  da_dataset_revision :: rstring
  da_completeness :: dataset_completeness
  da_source :: source_audit
  da_licence :: licence_audit
  da_audited_entry_count :: nat
  da_entries :: "dictionary_entry list"

text \<open>
  Reading an artifact from JSON. The wire form keeps every entry as a JSON value; \<open>from_value\<close>
  is the derived deserializer of one entry.
\<close>

datatype json = JNull | JBool bool | JNumber int | JString rstring | JArray "json list"
  | JObject "(rstring \<times> json) list"

definition json_get :: "json \<Rightarrow> rstring \<Rightarrow> json option" where
  "json_get j k = (case j of JObject m \<Rightarrow> map_of m k | _ \<Rightarrow> None)"

record wire_artifact =
  wa_schema_version :: u32
  wa_standard :: rstring
  wa_dataset_revision :: rstring
  wa_completeness :: dataset_completeness
  wa_source :: source_audit
  wa_licence :: licence_audit
  wa_audited_entry_count :: nat
  wa_audited_level_counts :: "nat list"
  wa_entries :: "json list"

definition is_json_bool :: "json option \<Rightarrow> bool" where
  "is_json_bool j = (case j of Some (JBool _) \<Rightarrow> True | _ \<Rightarrow> False)"

definition key_usable :: rstring where "key_usable = lit ''independentlyUsable''"
definition key_simplified :: rstring where "key_simplified = lit ''simplified''"
definition unknown_word :: rstring where "unknown_word = lit ''<unknown>''"

fun wire_entries ::
  "(json \<Rightarrow> hsk_error + hsk_entry) \<Rightarrow> dataset_completeness \<Rightarrow> nat \<Rightarrow> json list \<Rightarrow> hsk_error + hsk_entry list"
where
  "wire_entries from_value completeness index [] = Ok []"
| "wire_entries from_value completeness index (v # vs) =
     (if completeness = CompleteDataset \<and> \<not> is_json_bool (json_get v key_usable)
      then Err (InvalidData (EntryNotAudited index
             (case json_get v key_simplified of Some (JString w) \<Rightarrow> w | _ \<Rightarrow> unknown_word)))
      else try_bind (from_value v) (\<lambda>e.
           try_bind (wire_entries from_value completeness (index + 1) vs) (\<lambda>es. Ok (e # es))))"

definition artifact_from_wire ::
  "(json \<Rightarrow> hsk_error + hsk_entry) \<Rightarrow> wire_artifact \<Rightarrow> hsk_error + hsk_artifact" where
  "artifact_from_wire from_value w =
     try_bind (wire_entries from_value (wa_completeness w) 0 (wa_entries w)) (\<lambda>es.
       Ok \<lparr>ha_schema_version = wa_schema_version w, ha_standard = wa_standard w,
           ha_dataset_revision = wa_dataset_revision w, ha_completeness = wa_completeness w,
           ha_source = wa_source w, ha_licence = wa_licence w,
           ha_audited_entry_count = wa_audited_entry_count w,
           ha_audited_level_counts = wa_audited_level_counts w, ha_entries = es\<rparr>)"

section \<open>Names, violations, reports\<close>

datatype proper_name_reason = PersonName | PlaceName | Title | UnavoidableProperNoun

record proper_name =
  pn_text :: rstring
  pn_reason :: proper_name_reason

record hsk_exception =
  ex_text :: rstring
  ex_start :: nat
  ex_end :: nat
  ex_reason :: proper_name_reason

datatype violation_reason =
  AboveSelectedHskLevel hsk_level
| KnownDictionaryWord
| UnknownChineseWord
| NonChineseLexicalToken

record hsk_violation =
  vi_text :: rstring
  vi_start :: nat
  vi_end :: nat
  vi_reason :: violation_reason
  vi_suggested_words :: "rstring list"

record validation_report =
  vr_normalized_text :: rstring
  vr_requested_level :: hsk_level
  vr_strictly_valid :: bool
  vr_lexical_token_count :: nat
  vr_above_level_token_count :: nat
  vr_violations :: "hsk_violation list"
  vr_exceptions :: "hsk_exception list"
  vr_cache_revision :: rstring

section \<open>Facts\<close>

lemma level_ok_cases: "level_ok l \<Longrightarrow> l \<in> set all_levels"
proof (cases l)
  case (HskLevel v)
  assume "level_ok l"
  then have v: "unat v \<ge> 1" "unat v \<le> 6"
    using HskLevel by (simp_all add: level_ok_def word_le_nat_alt)
  then consider "unat v = 1" | "unat v = 2" | "unat v = 3" | "unat v = 4" | "unat v = 5" | "unat v = 6"
    by linarith
  then have "v \<in> {1, 2, 3, 4, 5, 6}"
    by cases (auto simp: word_unat_eq_iff)
  then show ?thesis using HskLevel by (auto simp: all_levels_def)
qed

lemma level_new_ok: "level_new v = Inr l \<Longrightarrow> level_ok l \<and> level_get l = v"
  by (auto simp: level_new_def level_ok_def split: if_splits)

lemma all_levels_ok: "l \<in> set all_levels \<Longrightarrow> level_ok l"
  by (auto simp: all_levels_def level_ok_def)

lemma level_index_less: "level_ok l \<Longrightarrow> level_index l < 6"
  using level_ok_cases [of l] by (auto simp: all_levels_def level_index_def)

lemma level_index_le: "level_ok a \<Longrightarrow> level_ok b \<Longrightarrow> level_index a \<le> level_index b \<longleftrightarrow> a \<le> b"
  using level_ok_cases [of a] level_ok_cases [of b]
  by (auto simp: all_levels_def level_index_def less_eq_hsk_level_def word_le_nat_alt)

end
