(* ===== verification/Normalization.thy ===== *)
theory Normalization
  imports Prelude
begin

text \<open>
  Text normalization of \<open>hsk-control\<close> (\<open>normalization.rs\<close>). The Unicode tables of the
  standard library, the NFKC crate, the OpenCC conversions and the Jieba tokenizer are the
  parameters gathered in \<open>text_env\<close>; everything the crate itself decides about characters,
  punctuation, spaces and ellipses is written out.
\<close>

section \<open>The text environment\<close>

record text_env =
  env_nfkc :: "rstring \<Rightarrow> rstring"
  env_s2t :: "rstring \<Rightarrow> rstring"
  env_t2s :: "rstring \<Rightarrow> rstring"
  env_tw2sp :: "rstring \<Rightarrow> rstring"
  env_numeric :: "rchar \<Rightarrow> bool"
  env_alphanumeric :: "rchar \<Rightarrow> bool"
  env_lowercase :: "rchar \<Rightarrow> bool"

section \<open>Character classes\<close>

definition is_zero_width :: "rchar \<Rightarrow> bool" where
  "is_zero_width c \<longleftrightarrow>
     c \<in> {0x00AD, 0x034F, 0x061C, 0x180E, 0x200B, 0x200C, 0x200D, 0x2060, 0xFEFF}
     \<or> 0x2061 \<le> c \<and> c \<le> 0x2064"

definition is_ellipsis_dot :: "rchar \<Rightarrow> bool" where
  "is_ellipsis_dot c \<longleftrightarrow> c = 0x2E \<or> c = 0x3002 \<or> c = 0xFE52 \<or> c = 0xFF61"

definition is_han :: "rchar \<Rightarrow> bool" where
  "is_han c \<longleftrightarrow> 0x3400 \<le> c \<and> c \<le> 0x4DBF \<or> 0x4E00 \<le> c \<and> c \<le> 0x9FFF
     \<or> 0xF900 \<le> c \<and> c \<le> 0xFAFF \<or> 0x20000 \<le> c \<and> c \<le> 0x2FA1F
     \<or> 0x30000 \<le> c \<and> c \<le> 0x323AF"

definition is_chinese_numeric_core :: "rchar \<Rightarrow> bool" where
  "is_chinese_numeric_core c \<longleftrightarrow>
     c \<in> {0x96F6, 0x3007, 0x4E00, 0x4E8C, 0x4E24, 0x4E09, 0x56DB, 0x4E94, 0x516D, 0x4E03,
          0x516B, 0x4E5D, 0x5341, 0x767E, 0x5343, 0x4E07, 0x4EBF, 0x5146}"

definition is_numeric_core :: "text_env \<Rightarrow> rchar \<Rightarrow> bool" where
  "is_numeric_core env c \<longleftrightarrow> env_numeric env c \<or> is_chinese_numeric_core c"

definition is_numeric_separator :: "rchar \<Rightarrow> bool" where
  "is_numeric_separator c \<longleftrightarrow>
     c \<in> {0x2E, 0x2C, 0xFF0C, 0x2B, 0x2D, 0x2212, 0x2F, 0x25, 0xFF05, 0x70B9, 0x5206, 0x4E4B}"

section \<open>Tokens\<close>

fun numeric_token_loop :: "text_env \<Rightarrow> bool \<Rightarrow> bool \<Rightarrow> rstring \<Rightarrow> bool" where
  "numeric_token_loop env has_core has_char [] = (has_char \<and> has_core)"
| "numeric_token_loop env has_core has_char (c # cs) =
     (if env_numeric env c \<or> is_chinese_numeric_core c then numeric_token_loop env True True cs
      else if \<not> is_numeric_separator c then False
      else numeric_token_loop env has_core True cs)"

definition is_numeric_token :: "text_env \<Rightarrow> rstring \<Rightarrow> bool" where
  "is_numeric_token env token = numeric_token_loop env False False token"

definition is_ignorable_token :: "text_env \<Rightarrow> rstring \<Rightarrow> bool" where
  "is_ignorable_token env token \<longleftrightarrow>
     token \<noteq> [] \<and> list_all (\<lambda>c. is_whitespace c \<or> \<not> env_alphanumeric env c) token"

definition is_all_han :: "rstring \<Rightarrow> bool" where
  "is_all_han token \<longleftrightarrow> token \<noteq> [] \<and> list_all is_han token"

section \<open>Punctuation, spaces and ellipses\<close>

definition opt_is :: "('a \<Rightarrow> bool) \<Rightarrow> 'a option \<Rightarrow> bool" where
  "opt_is P x = (case x of None \<Rightarrow> False | Some y \<Rightarrow> P y)"

definition canonical_punctuation :: "text_env \<Rightarrow> rchar \<Rightarrow> rchar option \<Rightarrow> rchar option \<Rightarrow> rchar" where
  "canonical_punctuation env c previous next_char =
     (if c = 0x2C \<or> c = 0xFE50 \<or> c = 0xFF64 then 0xFF0C
      else if c = 0x21 \<or> c = 0xFE57 then 0xFF01
      else if c = 0x3F \<or> c = 0xFE56 then 0xFF1F
      else if c = 0x3A \<or> c = 0xFE55 then 0xFF1A
      else if c = 0x3B \<or> c = 0xFE54 then 0xFF1B
      else if c = 0x28 \<or> c = 0xFE59 then 0xFF08
      else if c = 0x29 \<or> c = 0xFE5A then 0xFF09
      else if c = 0x5B \<or> c = 0xFE5D then 0x3010
      else if c = 0x5D \<or> c = 0xFE5E then 0x3011
      else if (c = 0x2E \<or> c = 0xFE52 \<or> c = 0xFF61)
              \<and> \<not> (opt_is (is_numeric_core env) previous \<and> opt_is (is_numeric_core env) next_char)
           then 0x3002
      else c)"

definition head_opt :: "'a list \<Rightarrow> 'a option" where
  "head_opt xs = (case xs of [] \<Rightarrow> None | x # _ \<Rightarrow> Some x)"

text \<open>
  The loop over the characters. \<open>started\<close> is \<open>!output.is_empty()\<close>, \<open>pending\<close> the pending
  space, \<open>previous\<close> the character before the current one in the input; the value is what the
  rest of the loop appends to the output.
\<close>

function surface_loop :: "text_env \<Rightarrow> bool \<Rightarrow> bool \<Rightarrow> rchar option \<Rightarrow> rstring \<Rightarrow> rstring" where
  "surface_loop env started pending previous [] = []"
| "surface_loop env started pending previous (c # cs) =
     (if is_whitespace c then surface_loop env started started (Some c) cs
      else
        let space = (if pending then [0x20] else []);
            run = takeWhile is_ellipsis_dot (c # cs)
        in
        if is_ellipsis_dot c \<and> 3 \<le> length run
        then space @ [0x2026, 0x2026]
               @ surface_loop env True False (Some (last run)) (drop (length run) (c # cs))
        else space @ canonical_punctuation env c previous (head_opt cs)
               # surface_loop env True False (Some c) cs)"
  by pat_completeness auto
termination
  by (relation "measure (\<lambda>(env, st, p, prev, cs). length cs)") auto

declare surface_loop.simps(2) [simp del]

definition normalize_surface :: "text_env \<Rightarrow> rstring \<Rightarrow> rstring" where
  "normalize_surface env input = surface_loop env False False None input"

definition normalize :: "text_env \<Rightarrow> rstring \<Rightarrow> rstring" where
  "normalize env input =
     (let unicode = filter (\<lambda>c. \<not> is_zero_width c) (env_nfkc env input);
          has_simplified_evidence = env_s2t env unicode \<noteq> unicode;
          simplified = (if has_simplified_evidence then env_t2s env unicode else env_tw2sp env unicode)
      in normalize_surface env simplified)"

section \<open>Normal surfaces\<close>

text \<open>What is assumed of the Unicode tables: spaces and punctuation are no digits.\<close>

definition punctuation_keys :: "rchar set" where
  "punctuation_keys =
     {0x2C, 0xFE50, 0xFF64, 0x21, 0xFE57, 0x3F, 0xFE56, 0x3A, 0xFE55, 0x3B, 0xFE54, 0x28, 0xFE59,
      0x29, 0xFE5A, 0x5B, 0xFE5D, 0x5D, 0xFE5E, 0x2E, 0xFE52, 0xFF61}"

definition punctuation_values :: "rchar set" where
  "punctuation_values =
     {0xFF0C, 0xFF01, 0xFF1F, 0xFF1A, 0xFF1B, 0xFF08, 0xFF09, 0x3010, 0x3011, 0x3002, 0x2026}"

definition tables_ok :: "text_env \<Rightarrow> bool" where
  "tables_ok env \<longleftrightarrow>
     (\<forall>c. env_numeric env c \<longrightarrow> \<not> is_whitespace c \<and> c \<notin> punctuation_keys \<and> c \<notin> punctuation_values)"

lemma chinese_numeric_range:
  "is_chinese_numeric_core c \<Longrightarrow> c = 0x3007 \<or> 0x4E00 \<le> c \<and> c \<le> 0x96F6"
  unfolding is_chinese_numeric_core_def by (elim insertE emptyE) simp_all

lemma punctuation_ranges:
  "c \<in> punctuation_keys \<Longrightarrow> c \<le> 0x5D \<or> 0xFE50 \<le> c"
  "c \<in> punctuation_values \<Longrightarrow> c = 0x2026 \<or> 0x3002 \<le> c \<and> c \<le> 0x3011 \<and> c \<noteq> 0x3007 \<or> 0xFF01 \<le> c"
  unfolding punctuation_keys_def punctuation_values_def by (elim insertE emptyE; simp)+

lemma whitespace_range: "is_whitespace c \<Longrightarrow> c \<le> 0x3000"
  unfolding is_whitespace_def by auto

lemma numeric_core_not:
  assumes "tables_ok env" "is_numeric_core env c"
  shows "\<not> is_whitespace c \<and> c \<notin> punctuation_keys \<and> c \<notin> punctuation_values"
proof (cases "env_numeric env c")
  case True
  with assms(1) show ?thesis by (simp add: tables_ok_def)
next
  case False
  then have c: "c = 0x3007 \<or> 0x4E00 \<le> c \<and> c \<le> 0x96F6"
    using assms(2) chinese_numeric_range by (simp add: is_numeric_core_def)
  have "\<not> is_whitespace c" using c whitespace_range [of c] by auto
  moreover have "c \<notin> punctuation_keys" using c punctuation_ranges(1) [of c] by auto
  moreover have "c \<notin> punctuation_values" using c punctuation_ranges(2) [of c] by auto
  ultimately show ?thesis by simp
qed

lemma canonical_cases:
  "canonical_punctuation env c p n = c \<or> c \<in> punctuation_keys \<and> canonical_punctuation env c p n \<in> punctuation_values"
  by (auto simp: canonical_punctuation_def punctuation_keys_def punctuation_values_def)

lemma canonical_value: "c \<notin> punctuation_keys \<Longrightarrow> canonical_punctuation env c p n = c"
  by (simp add: canonical_punctuation_def punctuation_keys_def)

lemma values_not_keys: "c \<in> punctuation_values \<Longrightarrow> c \<notin> punctuation_keys"
  by (auto simp: punctuation_keys_def punctuation_values_def)

lemma values_not_space: "c \<in> punctuation_values \<Longrightarrow> \<not> is_whitespace c"
  by (auto simp: punctuation_values_def is_whitespace_def)

lemma keys_not_space: "c \<in> punctuation_keys \<Longrightarrow> \<not> is_whitespace c"
  by (auto simp: punctuation_keys_def is_whitespace_def)

lemma canonical_dot: "is_ellipsis_dot (canonical_punctuation env c p n) = is_ellipsis_dot c"
proof (cases "c = 0x2E \<or> c = 0xFE52 \<or> c = 0xFF61")
  case True
  then show ?thesis
    by (elim disjE) (simp_all add: canonical_punctuation_def is_ellipsis_dot_def)
next
  case False
  then have "canonical_punctuation env c p n \<noteq> c \<Longrightarrow> canonical_punctuation env c p n \<in> punctuation_values - {0x3002}"
    by (auto simp: canonical_punctuation_def punctuation_values_def)
  moreover have "c \<in> punctuation_keys \<Longrightarrow> \<not> is_ellipsis_dot c"
    using False by (auto simp: is_ellipsis_dot_def punctuation_keys_def)
  moreover have "d \<in> punctuation_values - {0x3002} \<Longrightarrow> \<not> is_ellipsis_dot d" for d
    by (auto simp: is_ellipsis_dot_def punctuation_values_def)
  ultimately show ?thesis using canonical_cases [of env c p n] by metis
qed

lemma canonical_space: "is_whitespace (canonical_punctuation env c p n) \<longleftrightarrow> is_whitespace c"
proof (cases "canonical_punctuation env c p n = c")
  case False
  then have "c \<in> punctuation_keys" "canonical_punctuation env c p n \<in> punctuation_values"
    using canonical_cases by blast+
  then show ?thesis using values_not_space keys_not_space by blast
qed simp

lemma canonical_numeric:
  "tables_ok env \<Longrightarrow> is_numeric_core env (canonical_punctuation env c p n) = is_numeric_core env c"
  using canonical_cases [of env c p n] numeric_core_not by metis

text \<open>Canonical punctuation is stable when the neighbours stay as numeric as they were.\<close>

lemma canonical_twice:
  assumes "opt_is (is_numeric_core env) p' = opt_is (is_numeric_core env) p"
    and "opt_is (is_numeric_core env) n' = opt_is (is_numeric_core env) n"
  shows "canonical_punctuation env (canonical_punctuation env c p n) p' n' = canonical_punctuation env c p n"
proof (cases "canonical_punctuation env c p n = c")
  case True
  have "canonical_punctuation env c p' n' = canonical_punctuation env c p n"
    using assms by (simp add: canonical_punctuation_def)
  with True show ?thesis by simp
next
  case False
  then show ?thesis using canonical_cases [of env c p n] values_not_keys canonical_value by metis
qed


lemma surface_loop_space:
  "is_whitespace c \<Longrightarrow> surface_loop env st pend p (c # cs) = surface_loop env st st (Some c) cs"
  by (simp add: surface_loop.simps(2))

lemma surface_loop_ellipsis:
  "\<not> is_whitespace c \<Longrightarrow> is_ellipsis_dot c \<Longrightarrow> run = takeWhile is_ellipsis_dot (c # cs) \<Longrightarrow> 3 \<le> length run
   \<Longrightarrow> surface_loop env st pend p (c # cs) =
      (if pend then [0x20] else []) @ [0x2026, 0x2026]
        @ surface_loop env True False (Some (last run)) (drop (length run) (c # cs))"
  by (simp add: surface_loop.simps(2) Let_def)

lemma surface_loop_char:
  "\<not> is_whitespace c \<Longrightarrow> \<not> (is_ellipsis_dot c \<and> 3 \<le> length (takeWhile is_ellipsis_dot (c # cs)))
   \<Longrightarrow> surface_loop env st pend p (c # cs) =
      (if pend then [0x20] else []) @ canonical_punctuation env c p (head_opt cs)
        # surface_loop env True False (Some c) cs"
  by (auto simp: surface_loop.simps(2) Let_def)

lemma dot_not_space: "is_ellipsis_dot c \<Longrightarrow> \<not> is_whitespace c"
  by (auto simp: is_ellipsis_dot_def is_whitespace_def)

lemma special_chars [simp]:
  "is_whitespace 0x20" "\<not> is_whitespace 0x2026" "\<not> is_ellipsis_dot 0x2026" "\<not> is_ellipsis_dot 0x20"
  "canonical_punctuation env 0x2026 p n = 0x2026"
  by (simp_all add: is_whitespace_def is_ellipsis_dot_def canonical_punctuation_def)

text \<open>How many dots the output starts with, and whether it starts with a digit.\<close>

definition dot_run :: "rstring \<Rightarrow> nat" where
  "dot_run cs = length (takeWhile is_ellipsis_dot cs)"

lemma dot_run_Cons: "dot_run (c # cs) = (if is_ellipsis_dot c then Suc (dot_run cs) else 0)"
  by (simp add: dot_run_def)

lemma space_first:
  "surface_loop env True True p cs = [] \<or> (\<exists>r. surface_loop env True True p cs = 0x20 # r)"
proof (induction cs arbitrary: p)
  case (Cons c cs)
  then show ?case
    by (cases "is_whitespace c") (auto simp: surface_loop_space surface_loop.simps(2) Let_def)
qed simp

lemma dot_run_surface:
  "dot_run (surface_loop env True False p cs) = (if 3 \<le> dot_run cs then 0 else dot_run cs)"
proof (induction cs arbitrary: p)
  case (Cons c cs)
  show ?case
  proof (cases "is_whitespace c")
    case True
    then have "\<not> is_ellipsis_dot c" using dot_not_space by blast
    with True space_first [of env "Some c" cs] show ?thesis
      by (auto simp: surface_loop_space dot_run_Cons) (auto simp: dot_run_def)
  next
    case False
    show ?thesis
    proof (cases "is_ellipsis_dot c \<and> 3 \<le> dot_run (c # cs)")
      case True
      with False show ?thesis
        by (subst surface_loop_ellipsis [OF _ _ refl]) (auto simp: dot_run_def)
    next
      case ne: False
      then have "surface_loop env True False p (c # cs) = canonical_punctuation env c p (head_opt cs)
          # surface_loop env True False (Some c) cs"
        using False surface_loop_char [of c cs env True False p] by (auto simp: dot_run_def)
      with Cons.IH [of "Some c"] ne show ?thesis
        by (auto simp: dot_run_Cons canonical_dot)
    qed
  qed
qed (simp add: dot_run_def)

lemma head_numeric_surface:
  assumes "tables_ok env"
  shows "opt_is (is_numeric_core env) (head_opt (surface_loop env True False p cs))
       = opt_is (is_numeric_core env) (head_opt cs)"
proof (cases cs)
  case (Cons c cs')
  show ?thesis
  proof (cases "is_whitespace c")
    case True
    then have "\<not> is_numeric_core env c" "\<not> is_numeric_core env 0x20"
      using numeric_core_not [OF assms] special_chars(1) by blast+
    with True Cons space_first [of env "Some c" cs'] show ?thesis
      by (auto simp: surface_loop_space head_opt_def opt_is_def)
  next
    case False
    show ?thesis
    proof (cases "is_ellipsis_dot c \<and> 3 \<le> dot_run (c # cs')")
      case True
      then have "c \<in> punctuation_keys \<or> c \<in> punctuation_values"
        by (auto simp: is_ellipsis_dot_def punctuation_keys_def punctuation_values_def)
      then have "\<not> is_numeric_core env c" "\<not> is_numeric_core env 0x2026"
        using numeric_core_not [OF assms] by (auto simp: punctuation_values_def)
      with True False Cons show ?thesis
        using surface_loop_ellipsis [OF False _ refl, of cs' env True False p]
        by (auto simp: dot_run_def head_opt_def opt_is_def)
    next
      case ne: False
      with False Cons surface_loop_char [of c cs' env True False p] show ?thesis
        by (auto simp: dot_run_def head_opt_def opt_is_def canonical_numeric [OF assms])
    qed
  qed
qed simp

text \<open>Running the loop over its own output changes nothing.\<close>

abbreviation numeric_opt :: "text_env \<Rightarrow> rchar option \<Rightarrow> bool" where
  "numeric_opt env \<equiv> opt_is (is_numeric_core env)"

lemma surface_loop_stable:
  assumes "tables_ok env" "pend \<Longrightarrow> st"
    and "\<not> pend \<Longrightarrow> numeric_opt env p' = numeric_opt env p"
    and "pend \<or> \<not> st \<Longrightarrow> \<not> numeric_opt env p"
  shows "surface_loop env st False p' (surface_loop env st pend p cs) = surface_loop env st pend p cs"
  using assms(2-)
proof (induction cs arbitrary: st pend p p' rule: length_induct)
  case (1 cs)
  note IH = 1(1) [rule_format]
  show ?case
  proof (cases cs)
    case (Cons c cs')
    show ?thesis
    proof (cases "is_whitespace c")
      case True
      then have "\<not> is_numeric_core env c" using numeric_core_not [OF assms(1)] by blast
      then have nc: "\<not> numeric_opt env (Some c)" by (simp add: opt_is_def)
      have "surface_loop env st False p' (surface_loop env st st (Some c) cs') = surface_loop env st st (Some c) cs'"
      proof (rule IH)
        show "numeric_opt env p' = numeric_opt env (Some c)" if "\<not> st"
          using 1(2-4) nc that by blast
      qed (use Cons nc in auto)
      then show ?thesis using True Cons by (simp add: surface_loop_space)
    next
      case c: False
      show ?thesis
      proof (cases "is_ellipsis_dot c \<and> 3 \<le> dot_run (c # cs')")
        case True
        define run where "run = takeWhile is_ellipsis_dot (c # cs')"
        define rest where "rest = surface_loop env True False (Some (last run)) (drop (length run) (c # cs'))"
        have run3: "3 \<le> length run" "set run \<subseteq> Collect is_ellipsis_dot"
          using True by (auto simp: run_def dot_run_def dest: set_takeWhileD)
        then have "last run \<in> set run" by (intro last_in_set) auto
        then have "is_ellipsis_dot (last run)" using run3(2) by blast
        then have "\<not> numeric_opt env (Some (last run))"
          using numeric_core_not [OF assms(1)]
          by (auto simp: opt_is_def is_ellipsis_dot_def punctuation_keys_def punctuation_values_def)
        moreover have "\<not> numeric_opt env (Some 0x2026)"
          using numeric_core_not [of env "0x2026", OF assms(1)] by (auto simp: opt_is_def punctuation_values_def)
        moreover have "length (drop (length run) (c # cs')) < length cs"
          using run3(1) Cons by auto
        ultimately have ih: "surface_loop env True False (Some 0x2026) rest = rest"
          unfolding rest_def by (intro IH) auto
        have out: "surface_loop env st pend p cs = (if pend then [0x20] else []) @ [0x2026, 0x2026] @ rest"
          unfolding Cons rest_def
          by (rule surface_loop_ellipsis [OF c _ run_def run3(1)]) (use True in simp)
        have two: "surface_loop env st' False q ([0x2026, 0x2026] @ rest) = [0x2026, 0x2026] @ rest" for q st'
          using ih by (simp add: surface_loop_char)
        have two': "surface_loop env True True q ([0x2026, 0x2026] @ rest) = 0x20 # [0x2026, 0x2026] @ rest" for q
          using ih by (simp add: surface_loop_char)
        show ?thesis
          unfolding out using two two' 1(2) by (cases pend) (simp_all add: surface_loop_space)
      next
        case ne: False
        let ?d = "canonical_punctuation env c p (head_opt cs')"
        let ?rest = "surface_loop env True False (Some c) cs'"
        have out: "surface_loop env st pend p cs = (if pend then [0x20] else []) @ ?d # ?rest"
          unfolding Cons using c ne by (intro surface_loop_char) (auto simp: dot_run_def)
        have ih: "surface_loop env True False (Some ?d) ?rest = ?rest"
          using Cons canonical_numeric [OF assms(1)] by (intro IH) (simp_all add: opt_is_def)
        have "\<not> (is_ellipsis_dot ?d \<and> 3 \<le> dot_run (?d # ?rest))"
          using ne by (auto simp: canonical_dot dot_run_Cons dot_run_surface)
        then have run: "\<not> (is_ellipsis_dot ?d \<and> 3 \<le> length (takeWhile is_ellipsis_dot (?d # ?rest)))"
          by (simp add: dot_run_def)
        have "\<not> is_whitespace ?d" using c by (simp add: canonical_space)
        note step = surface_loop_char [OF this run]
        have twice: "canonical_punctuation env ?d q (head_opt ?rest) = ?d" if "numeric_opt env q = numeric_opt env p" for q
          using that head_numeric_surface [OF assms(1)] by (intro canonical_twice)
        have one: "surface_loop env st' False q (?d # ?rest) = ?d # ?rest" if "numeric_opt env q = numeric_opt env p" for q st'
          using step [of env st' False q] ih twice [OF that] by simp
        have one': "surface_loop env True True q (?d # ?rest) = 0x20 # ?d # ?rest" if "numeric_opt env q = numeric_opt env p" for q
          using step [of env True True q] ih twice [OF that] by simp
        show ?thesis
        proof (cases pend)
          case True
          have "\<not> numeric_opt env (Some 0x20)"
            using numeric_core_not [of env "0x20", OF assms(1)] by (auto simp: opt_is_def)
          then have "numeric_opt env (Some 0x20) = numeric_opt env p" using 1(4) True by simp
          from one' [OF this] show ?thesis unfolding out using True 1(2) by (simp add: surface_loop_space)
        next
          case False
          then show ?thesis unfolding out using one [of p'] 1(3) by simp
        qed
      qed
    qed
  qed simp
qed

text \<open>Normalizing a surface is idempotent. A second pass over text that has been
  through \<open>normalize_surface\<close> changes nothing: spaces are single and inside, punctuation is
  canonical, runs of dots have become ellipses.\<close>
theorem normalize_surface_idempotent:
  assumes "tables_ok env"
  shows "normalize_surface env (normalize_surface env s) = normalize_surface env s"
  unfolding normalize_surface_def
  by (rule surface_loop_stable [OF assms]) (simp_all add: opt_is_def)

definition plain_env :: text_env where
  "plain_env = \<lparr>env_nfkc = id, env_s2t = id, env_t2s = id, env_tw2sp = id,
     env_numeric = is_ascii_digit,
     env_alphanumeric = (\<lambda>c. is_ascii_alphanumeric c \<or> is_han c), env_lowercase = is_ascii_lowercase\<rparr>"

lemma plain_env_ok: "tables_ok plain_env"
proof -
  have "\<not> is_whitespace c \<and> c \<notin> punctuation_keys \<and> c \<notin> punctuation_values" if "is_ascii_digit c" for c
    using that punctuation_ranges(2) [of c]
    by (auto simp: is_ascii_digit_def is_whitespace_def punctuation_keys_def)
  then show ?thesis by (simp add: tables_ok_def plain_env_def)
qed

theorem normalize_surface_idempotent_witness:
  "normalize_surface plain_env (normalize_surface plain_env (lit ''a ,b... 1.5'')) = normalize_surface plain_env (lit ''a ,b... 1.5'')"
  by (rule normalize_surface_idempotent [OF plain_env_ok])

end
