(* ===== verification/Hsk_Dataset.thy ===== *)
theory Hsk_Dataset
  imports Hsk_Model Normalization
begin

text \<open>
  The loaded HSK vocabulary (\<open>dataset.rs\<close>): header and audit checks, the sorted entries,
  the index by word and the six cumulative word sets. \<open>digest\<close> stands for the SHA-256 of the
  JSON encoding, both third-party code.
\<close>

record hsk_dataset =
  ds_entries :: "hsk_entry list"
  ds_by_word :: "(rstring, nat) btree_map"
  ds_cumulative :: "rstring list list"
  ds_dataset_revision :: rstring
  ds_cache_revision :: rstring
  ds_completeness :: dataset_completeness
  ds_source :: source_audit
  ds_licence :: licence_audit

type_synonym hsk_digest =
  "rstring \<Rightarrow> dataset_completeness \<Rightarrow> source_audit \<Rightarrow> nat \<times> nat list \<Rightarrow> hsk_entry list \<Rightarrow> hsk_error + rstring"

definition hsk2_prefix :: rstring where "hsk2_prefix = lit ''hsk2-sha256:''"

definition validate_audit :: "source_audit \<Rightarrow> licence_audit \<Rightarrow> hsk_error + unit" where
  "validate_audit src lic =
     (if blank (sa_name src) \<or> blank (sa_url src) \<or> blank (sa_revision src)
         \<or> \<not> sha256_form_ok (sa_sha256 src)
      then Err (InvalidData InvalidSourceAudit)
      else if blank (la_spdx_expression lic) \<or> blank (la_url lic) \<or> blank (la_attribution lic)
              \<or> \<not> la_redistribution_allowed lic
      then Err (LicenceAuditError LicenceAuditIncomplete)
      else Ok ())"

definition validate_header ::
  "u32 \<Rightarrow> rstring \<Rightarrow> rstring \<Rightarrow> dataset_completeness \<Rightarrow> source_audit \<Rightarrow> licence_audit \<Rightarrow> load_policy
   \<Rightarrow> hsk_error + unit" where
  "validate_header schema_version standard revision completeness src lic policy =
     (if schema_version \<noteq> DATA_SCHEMA_VERSION then Err (InvalidData (UnsupportedSchema schema_version))
      else if standard \<noteq> HSK_STANDARD then Err (InvalidData (UnsupportedStandard standard))
      else if blank revision then Err (InvalidData EmptyRevision)
      else try_bind (validate_audit src lic) (\<lambda>_.
        if completeness \<noteq> CompleteDataset \<and> policy = RequireComplete
        then Err (DatasetIncomplete ''HSK'' revision completeness)
        else Ok ()))"

definition validate_hsk_entry :: "hsk_entry \<Rightarrow> hsk_error + unit" where
  "validate_hsk_entry e =
     (if blank (he_simplified e) \<or> blank (he_pinyin e) \<or> he_glosses e = []
         \<or> list_ex blank (he_glosses e)
      then Err (InvalidData (IncompleteEntry (he_simplified e)))
      else Ok ())"

section \<open>The loading loop\<close>

record load_state =
  ls_by_word :: "(rstring, nat) btree_map"
  ls_cumulative :: "rstring list list"
  ls_level_counts :: "nat list"

definition load_start :: load_state where
  "load_start = \<lparr>ls_by_word = [], ls_cumulative = replicate 6 [], ls_level_counts = replicate 6 0\<rparr>"

definition count_level :: "hsk_entry \<Rightarrow> nat list \<Rightarrow> nat list" where
  "count_level e counts = counts[level_index (he_level e) := counts ! level_index (he_level e) + 1]"

text \<open>\<open>for allowed in cumulative.iter_mut().skip(index) { allowed.insert(word) }\<close>\<close>

definition allow_from :: "nat \<Rightarrow> rstring \<Rightarrow> rstring list list \<Rightarrow> rstring list list" where
  "allow_from i w cumulative = take i cumulative @ map (\<lambda>s. bs_insert s w) (drop i cumulative)"

definition load_entry :: "text_env \<Rightarrow> nat \<Rightarrow> hsk_entry \<Rightarrow> load_state \<Rightarrow> hsk_error + load_state" where
  "load_entry env index e st =
     try_bind (validate_hsk_entry e) (\<lambda>_.
       let normalized = normalize env (he_simplified e) in
       if normalized \<noteq> he_simplified e
       then Err (InvalidData (NotNormalized (he_simplified e) normalized))
       else if bt_get (ls_by_word st) (he_simplified e) \<noteq> None
       then Err (InvalidData (DuplicateWord (he_simplified e)))
       else Ok (st\<lparr>ls_by_word := bt_insert (ls_by_word st) (he_simplified e) index,
                   ls_level_counts := count_level e (ls_level_counts st),
                   ls_cumulative :=
                     allow_from (level_index (he_level e)) (he_simplified e) (ls_cumulative st)\<rparr>))"

fun load_entries :: "text_env \<Rightarrow> nat \<Rightarrow> hsk_entry list \<Rightarrow> load_state \<Rightarrow> hsk_error + load_state" where
  "load_entries env index [] st = Ok st"
| "load_entries env index (e # es) st =
     try_bind (load_entry env index e st) (load_entries env (index + 1) es)"

definition hsk_sort_key :: "hsk_entry \<Rightarrow> hsk_level \<times> rstring \<times> rstring" where
  "hsk_sort_key e = (he_level e, he_simplified e, he_pinyin e)"

definition dataset_from_artifact ::
  "text_env \<Rightarrow> hsk_digest \<Rightarrow> hsk_artifact \<Rightarrow> load_policy \<Rightarrow> hsk_error + hsk_dataset" where
  "dataset_from_artifact env digest art policy =
     try_bind (validate_header (ha_schema_version art) (ha_standard art) (ha_dataset_revision art)
                 (ha_completeness art) (ha_source art) (ha_licence art) policy) (\<lambda>_.
       let entries = sort_key hsk_sort_key (ha_entries art) in
       if entries = [] then Err (InvalidData NoEntries)
       else if ha_audited_entry_count art \<noteq> length entries
       then Err (InvalidData (AuditCountMismatch (length entries) (ha_audited_entry_count art)))
       else try_bind (load_entries env 0 entries load_start) (\<lambda>st.
         if ls_level_counts st \<noteq> ha_audited_level_counts art
         then Err (InvalidData (LevelCountMismatch (ls_level_counts st) (ha_audited_level_counts art)))
         else try_bind (digest (ha_dataset_revision art) (ha_completeness art) (ha_source art)
                          (ha_audited_entry_count art, ha_audited_level_counts art) entries) (\<lambda>rev.
           Ok \<lparr>ds_entries = entries, ds_by_word = ls_by_word st, ds_cumulative = ls_cumulative st,
               ds_dataset_revision = ha_dataset_revision art, ds_cache_revision = hsk2_prefix @ rev,
               ds_completeness = ha_completeness art, ds_source = ha_source art,
               ds_licence = ha_licence art\<rparr>)))"

section \<open>Queries\<close>

definition hsk_lookup :: "hsk_dataset \<Rightarrow> rstring \<Rightarrow> hsk_entry option" where
  "hsk_lookup ds w = map_option (\<lambda>i. ds_entries ds ! i) (bt_get (ds_by_word ds) w)"

definition level_of :: "hsk_dataset \<Rightarrow> rstring \<Rightarrow> hsk_level option" where
  "level_of ds w = map_option he_level (hsk_lookup ds w)"

definition is_allowed :: "hsk_dataset \<Rightarrow> rstring \<Rightarrow> hsk_level \<Rightarrow> bool" where
  "is_allowed ds w l = (w \<in> set (ds_cumulative ds ! level_index l))"

definition allowed_words :: "hsk_dataset \<Rightarrow> hsk_level \<Rightarrow> rstring list" where
  "allowed_words ds l = ds_cumulative ds ! level_index l"

section \<open>What a loaded dataset satisfies\<close>

text \<open>Entries have distinct words, all normalized and complete, and legal levels; the index and
  the cumulative sets say exactly what the entries say.\<close>

definition entries_legal :: "hsk_entry list \<Rightarrow> bool" where
  "entries_legal es \<longleftrightarrow> list_all (\<lambda>e. level_ok (he_level e)) es"

fun find_word :: "hsk_entry list \<Rightarrow> rstring \<Rightarrow> nat option" where
  "find_word [] w = None"
| "find_word (e # es) w = (if he_simplified e = w then Some 0 else map_option Suc (find_word es w))"

definition load_inv :: "hsk_entry list \<Rightarrow> load_state \<Rightarrow> bool" where
  "load_inv es st \<longleftrightarrow> bt_ok (ls_by_word st) \<and> length (ls_cumulative st) = 6
     \<and> distinct (map he_simplified es)
     \<and> (\<forall>w. bt_get (ls_by_word st) w = find_word es w)
     \<and> (\<forall>i < 6. \<forall>w. w \<in> set (ls_cumulative st ! i) \<longleftrightarrow>
           (\<exists>e \<in> set es. he_simplified e = w \<and> level_index (he_level e) \<le> i))"

lemma find_word_None: "find_word es w = None \<longleftrightarrow> w \<notin> he_simplified ` set es"
  by (induction es) auto

lemma find_word_Some: "find_word es w = Some i \<Longrightarrow> i < length es \<and> he_simplified (es ! i) = w"
  by (induction es arbitrary: i) (auto split: if_splits)

lemma find_word_snoc:
  "find_word (es @ [e]) w =
    (case find_word es w of Some i \<Rightarrow> Some i
     | None \<Rightarrow> if he_simplified e = w then Some (length es) else None)"
  by (induction es) (auto split: option.split)

lemma load_start_inv: "load_inv [] load_start"
  by (simp add: load_inv_def load_start_def nth_replicate)

lemma allow_from_nth:
  "i < length cs \<Longrightarrow> set (allow_from j w cs ! i) = (if j \<le> i then insert w (set (cs ! i)) else set (cs ! i))"
  by (cases "j \<le> length cs") (auto simp: allow_from_def nth_append min_def)

lemma load_entry_inv:
  assumes "load_inv es st" "load_entry env (length es) e st = Inr st'"
  shows "load_inv (es @ [e]) st'"
proof -
  have none: "bt_get (ls_by_word st) (he_simplified e) = None"
    and st': "st' = st\<lparr>ls_by_word := bt_insert (ls_by_word st) (he_simplified e) (length es),
                   ls_level_counts := count_level e (ls_level_counts st),
                   ls_cumulative :=
                     allow_from (level_index (he_level e)) (he_simplified e) (ls_cumulative st)\<rparr>"
    using assms(2) by (auto simp: load_entry_def Let_def split: if_splits)
  have inv: "bt_ok (ls_by_word st)" "length (ls_cumulative st) = 6" "distinct (map he_simplified es)"
    "\<And>w. bt_get (ls_by_word st) w = find_word es w"
    "\<And>i w. i < 6 \<Longrightarrow> w \<in> set (ls_cumulative st ! i) \<longleftrightarrow>
           (\<exists>e \<in> set es. he_simplified e = w \<and> level_index (he_level e) \<le> i)"
    using assms(1) unfolding load_inv_def by blast+
  have new: "he_simplified e \<notin> he_simplified ` set es"
    using none inv(4) find_word_None by metis
  have "distinct (map he_simplified (es @ [e]))" using inv(3) new by simp
  moreover have "length (allow_from j w (ls_cumulative st)) = 6" for j w
    using inv(2) by (simp add: allow_from_def)
  moreover have "bt_get (bt_insert (ls_by_word st) (he_simplified e) (length es)) w = find_word (es @ [e]) w" for w
    using none inv(4) [of w] inv(4) [of "he_simplified e"]
    by (auto simp: bt_get_insert [OF inv(1)] find_word_snoc split: option.split)
  moreover have "w \<in> set (allow_from (level_index (he_level e)) (he_simplified e) (ls_cumulative st) ! i) \<longleftrightarrow>
      (\<exists>e' \<in> set (es @ [e]). he_simplified e' = w \<and> level_index (he_level e') \<le> i)" if "i < 6" for i w
    using inv(5) [OF that, of w] inv(2) that by (auto simp: allow_from_nth)
  ultimately show ?thesis
    using inv(1) unfolding load_inv_def st' by simp
qed

lemma load_entries_inv:
  "load_inv es st \<Longrightarrow> load_entries env (length es) fs st = Inr st' \<Longrightarrow> load_inv (es @ fs) st'"
proof (induction fs arbitrary: es st)
  case (Cons e fs)
  from Cons.prems(2) obtain u where u: "load_entry env (length es) e st = Inr u"
      "load_entries env (length es + 1) fs u = Inr st'"
    by auto
  have "load_inv (es @ [e]) u" by (rule load_entry_inv [OF Cons.prems(1) u(1)])
  then show ?case using Cons.IH [of "es @ [e]" u] u(2) by simp
qed simp

definition dataset_ok :: "hsk_dataset \<Rightarrow> bool" where
  "dataset_ok ds \<longleftrightarrow> distinct (map he_simplified (ds_entries ds))
     \<and> (\<forall>w. bt_get (ds_by_word ds) w = find_word (ds_entries ds) w)
     \<and> (\<forall>i < 6. \<forall>w. w \<in> set (ds_cumulative ds ! i) \<longleftrightarrow>
           (\<exists>e \<in> set (ds_entries ds). he_simplified e = w \<and> level_index (he_level e) \<le> i))"

lemma loaded_dataset_ok:
  assumes "dataset_from_artifact env digest art policy = Inr ds"
  shows "dataset_ok ds" and "ds_entries ds = sort_key hsk_sort_key (ha_entries art)"
proof -
  let ?es = "sort_key hsk_sort_key (ha_entries art)"
  obtain st where st: "load_entries env 0 ?es load_start = Inr st" "ds_entries ds = ?es"
      "ds_by_word ds = ls_by_word st" "ds_cumulative ds = ls_cumulative st"
    using assms by (auto simp: dataset_from_artifact_def Let_def split: if_splits)
  show "ds_entries ds = ?es" by (rule st(2))
  have "load_inv ([] @ ?es) st"
    by (rule load_entries_inv [OF load_start_inv]) (use st(1) in simp)
  then show "dataset_ok ds"
    unfolding dataset_ok_def st(2-4) load_inv_def by simp
qed

lemma hsk_lookup_Some:
  assumes "dataset_ok ds"
  shows "hsk_lookup ds w = Some e \<longleftrightarrow> e \<in> set (ds_entries ds) \<and> he_simplified e = w"
proof -
  have get: "bt_get (ds_by_word ds) w = find_word (ds_entries ds) w" and d: "distinct (map he_simplified (ds_entries ds))"
    using assms by (simp_all add: dataset_ok_def)
  show ?thesis
  proof (cases "find_word (ds_entries ds) w")
    case None
    then show ?thesis using find_word_None [of "ds_entries ds" w] by (auto simp: hsk_lookup_def get)
  next
    case (Some i)
    note i = find_word_Some [OF Some]
    have "e = ds_entries ds ! i" if "e \<in> set (ds_entries ds)" "he_simplified e = w"
      using that i d by (auto simp: distinct_map inj_on_def)
    with i Some show ?thesis by (auto simp: hsk_lookup_def get)
  qed
qed

lemma is_allowed_iff:
  assumes "dataset_ok ds" "entries_legal (ds_entries ds)" "level_ok l"
  shows "is_allowed ds w l \<longleftrightarrow> (\<exists>e \<in> set (ds_entries ds). he_simplified e = w \<and> he_level e \<le> l)"
proof -
  have "is_allowed ds w l \<longleftrightarrow>
      (\<exists>e \<in> set (ds_entries ds). he_simplified e = w \<and> level_index (he_level e) \<le> level_index l)"
    using assms(1) level_index_less [OF assms(3)] by (simp add: is_allowed_def dataset_ok_def)
  also have "\<dots> \<longleftrightarrow> (\<exists>e \<in> set (ds_entries ds). he_simplified e = w \<and> he_level e \<le> l)"
    using assms(2,3) by (auto simp: entries_legal_def list_all_iff level_index_le)
  finally show ?thesis .
qed

end
