(* ===== verification/Word_Trie.thy ===== *)
theory Word_Trie
  imports Sorted_Map
begin

text \<open>
  The trie of allowed words (\<open>hsk-control/src/trie.rs\<close>): an arena of nodes whose children
  are indices into it, insertion, membership, the matches that start at a position and the
  dynamic program that breaks a text into words.
\<close>

section \<open>The arena\<close>

record trie_node =
  children :: "(rchar, nat) btree_map"
  is_terminal :: bool

type_synonym word_trie = "trie_node list"

definition empty_node :: trie_node where
  "empty_node = \<lparr>children = [], is_terminal = False\<rparr>"

definition trie_new :: word_trie where
  "trie_new = [empty_node]"

definition child_of :: "word_trie \<Rightarrow> nat \<Rightarrow> rchar \<Rightarrow> nat option" where
  "child_of t i c = bt_get (children (t ! i)) c"

text \<open>One step of the insertion loop: the child, made when it is missing.\<close>

definition step_or_push :: "word_trie \<Rightarrow> nat \<Rightarrow> rchar \<Rightarrow> word_trie \<times> nat" where
  "step_or_push t i c = (case child_of t i c of
     Some nxt \<Rightarrow> (t, nxt)
   | None \<Rightarrow>
       let nxt = length t; t' = t @ [empty_node]
       in (t'[i := (t' ! i)\<lparr>children := bt_insert (children (t' ! i)) c nxt\<rparr>], nxt))"

fun insert_loop :: "word_trie \<Rightarrow> nat \<Rightarrow> rstring \<Rightarrow> word_trie \<times> nat" where
  "insert_loop t i [] = (t, i)"
| "insert_loop t i (c # w) = (let (t', nxt) = step_or_push t i c in insert_loop t' nxt w)"

definition trie_insert :: "word_trie \<Rightarrow> rstring \<Rightarrow> word_trie" where
  "trie_insert t w =
     (if w = [] then t
      else let (t', i) = insert_loop t 0 w in t'[i := (t' ! i)\<lparr>is_terminal := True\<rparr>])"

fun contains_loop :: "word_trie \<Rightarrow> nat \<Rightarrow> rstring \<Rightarrow> bool" where
  "contains_loop t i [] = is_terminal (t ! i)"
| "contains_loop t i (c # w) =
     (case child_of t i c of None \<Rightarrow> False | Some nxt \<Rightarrow> contains_loop t nxt w)"

definition trie_contains :: "word_trie \<Rightarrow> rstring \<Rightarrow> bool" where
  "trie_contains t w = contains_loop t 0 w"

section \<open>Matches\<close>

fun matches_loop :: "word_trie \<Rightarrow> nat \<Rightarrow> nat \<Rightarrow> rstring \<Rightarrow> nat list" where
  "matches_loop t i pos [] = []"
| "matches_loop t i pos (c # cs) = (case child_of t i c of
     None \<Rightarrow> []
   | Some nxt \<Rightarrow>
       (if is_terminal (t ! nxt) then [pos + 1] else []) @ matches_loop t nxt (pos + 1) cs)"

definition matches_from :: "word_trie \<Rightarrow> rstring \<Rightarrow> nat \<Rightarrow> nat list" where
  "matches_from t cs start = matches_loop t 0 start (drop start cs)"

fun list_max :: "nat list \<Rightarrow> nat option" where
  "list_max [] = None"
| "list_max (x # xs) = Some (fold max xs x)"

definition longest_match :: "word_trie \<Rightarrow> rstring \<Rightarrow> nat \<Rightarrow> nat option" where
  "longest_match t cs start = list_max (matches_from t cs start)"

section \<open>Word break\<close>

definition char_slice :: "'a list \<Rightarrow> nat \<Rightarrow> nat \<Rightarrow> 'a list" where
  "char_slice xs i j = take (j - i) (drop i xs)"

text \<open>\<open>candidate.len() < current.len() || (equal && candidate < *current)\<close>\<close>

definition better_break :: "rstring list \<Rightarrow> rstring list \<Rightarrow> bool" where
  "better_break candidate current \<longleftrightarrow>
     length candidate < length current \<or> length candidate = length current \<and> candidate < current"

definition offer_path :: "rstring list \<Rightarrow> nat \<Rightarrow> rstring list option list \<Rightarrow> rstring list option list" where
  "offer_path candidate stop paths =
     (if (case paths ! stop of None \<Rightarrow> True | Some current \<Rightarrow> better_break candidate current)
      then paths[stop := Some candidate] else paths)"

definition extend_paths ::
  "(nat \<Rightarrow> nat list) \<Rightarrow> rstring \<Rightarrow> nat \<Rightarrow> rstring list option list \<Rightarrow> rstring list option list" where
  "extend_paths matches cs start paths = (case paths ! start of
     None \<Rightarrow> paths
   | Some pre \<Rightarrow>
       fold (\<lambda>stop. offer_path (pre @ [char_slice cs start stop]) stop) (matches start) paths)"

definition break_paths :: "(nat \<Rightarrow> nat list) \<Rightarrow> rstring \<Rightarrow> rstring list option list" where
  "break_paths matches cs =
     fold (extend_paths matches cs) [0..<length cs] ((replicate (length cs + 1) None)[0 := Some []])"

definition best_decomposition :: "word_trie \<Rightarrow> rstring \<Rightarrow> rstring list option" where
  "best_decomposition t cs =
     (if cs = [] then None else last (break_paths (matches_from t cs) cs))"

definition can_decompose :: "word_trie \<Rightarrow> rstring \<Rightarrow> bool" where
  "can_decompose t cs = (best_decomposition t cs \<noteq> None)"

section \<open>The arena is a tree\<close>

text \<open>
  Walking from a node. The arena is a tree when every child exists and no node is reached
  in two ways from the root.
\<close>

fun walk :: "word_trie \<Rightarrow> nat \<Rightarrow> rstring \<Rightarrow> nat option" where
  "walk t i [] = Some i"
| "walk t i (c # w) = (case child_of t i c of None \<Rightarrow> None | Some nxt \<Rightarrow> walk t nxt w)"

definition trie_ok :: "word_trie \<Rightarrow> bool" where
  "trie_ok t \<longleftrightarrow> t \<noteq> []
     \<and> (\<forall>i < length t. bt_ok (children (t ! i)))
     \<and> (\<forall>i < length t. \<forall>c j. child_of t i c = Some j \<longrightarrow> i < j \<and> j < length t)
     \<and> (\<forall>i < length t. \<forall>i' < length t. \<forall>c c' j.
           child_of t i c = Some j \<longrightarrow> child_of t i' c' = Some j \<longrightarrow> i = i' \<and> c = c')
     \<and> \<not> is_terminal (t ! 0)"

lemma trie_ok_nonempty: "trie_ok t \<Longrightarrow> 0 < length t"
  unfolding trie_ok_def by blast

lemma trie_ok_bt: "trie_ok t \<Longrightarrow> i < length t \<Longrightarrow> bt_ok (children (t ! i))"
  unfolding trie_ok_def by blast

lemma trie_ok_child: "trie_ok t \<Longrightarrow> i < length t \<Longrightarrow> child_of t i c = Some j \<Longrightarrow> i < j \<and> j < length t"
  unfolding trie_ok_def by blast

lemma trie_ok_parent:
  "trie_ok t \<Longrightarrow> i < length t \<Longrightarrow> i' < length t \<Longrightarrow> child_of t i c = Some j \<Longrightarrow> child_of t i' c' = Some j
   \<Longrightarrow> i = i' \<and> c = c'"
  unfolding trie_ok_def by blast

lemma trie_ok_root: "trie_ok t \<Longrightarrow> \<not> is_terminal (t ! 0)"
  unfolding trie_ok_def by blast

lemma trie_okI:
  assumes "t \<noteq> []" "\<And>i. i < length t \<Longrightarrow> bt_ok (children (t ! i))"
    and "\<And>i c j. i < length t \<Longrightarrow> child_of t i c = Some j \<Longrightarrow> i < j \<and> j < length t"
    and "\<And>i i' c c' j. i < length t \<Longrightarrow> i' < length t \<Longrightarrow> child_of t i c = Some j
           \<Longrightarrow> child_of t i' c' = Some j \<Longrightarrow> i = i' \<and> c = c'"
    and "\<not> is_terminal (t ! 0)"
  shows "trie_ok t"
  unfolding trie_ok_def using assms by blast

lemma contains_walk:
  "contains_loop t i w \<longleftrightarrow> (case walk t i w of None \<Rightarrow> False | Some j \<Rightarrow> is_terminal (t ! j))"
  by (induction t i w rule: contains_loop.induct) (auto split: option.split)

lemma walk_append:
  "walk t i (u @ v) = (case walk t i u of None \<Rightarrow> None | Some j \<Rightarrow> walk t j v)"
  by (induction t i u rule: walk.induct) (auto split: option.split)

lemma walk_less: "trie_ok t \<Longrightarrow> i < length t \<Longrightarrow> walk t i w = Some j \<Longrightarrow> j < length t \<and> i + length w \<le> j"
proof (induction t i w rule: walk.induct)
  case (2 t i c w)
  then obtain k where k: "child_of t i c = Some k" "walk t k w = Some j"
    by (auto split: option.splits)
  then have "i < k" "k < length t"
    using trie_ok_child [OF 2(2,3)] by simp_all
  with "2.IH" [OF k(1) 2(2) _ k(2)] show ?case by simp
qed simp

text \<open>A node of a tree is reached by one word only.\<close>

lemma walk_inject:
  assumes "trie_ok t" "walk t 0 u = Some j" "walk t 0 v = Some j"
  shows "u = v"
  using assms(2,3)
proof (induction u arbitrary: v j rule: rev_induct)
  case Nil
  then show ?case using walk_less [OF assms(1) trie_ok_nonempty [OF assms(1)], of v 0] by simp
next
  case (snoc c u)
  then obtain i where i: "walk t 0 u = Some i" "child_of t i c = Some j"
    by (auto simp: walk_append split: option.splits)
  have "0 < length t" using assms(1) by (rule trie_ok_nonempty)
  then have il: "i < length t" using walk_less [OF assms(1) _ i(1)] by simp
  then have "0 < j" using trie_ok_child [OF assms(1) il i(2)] by simp
  then obtain v' c' where v: "v = v' @ [c']"
    using snoc.prems(2) by (cases v rule: rev_cases) auto
  then obtain i' where i': "walk t 0 v' = Some i'" "child_of t i' c' = Some j"
    using snoc.prems(2) by (auto simp: walk_append split: option.splits)
  have "i' < length t" using walk_less [OF assms(1) \<open>0 < length t\<close> i'(1)] by simp
  with trie_ok_parent [OF assms(1) il this i(2) i'(2)] have "i = i'" "c = c'"
    by simp_all
  with snoc.IH [OF i(1)] i'(1) v show ?case by simp
qed

lemma trie_new_ok [simp]: "trie_ok trie_new"
  by (simp add: trie_ok_def trie_new_def child_of_def empty_node_def)

lemma trie_new_contains [simp]: "\<not> trie_contains trie_new w"
  by (cases w) (simp_all add: trie_contains_def trie_new_def child_of_def empty_node_def)


section \<open>Insertion\<close>

lemma step_or_push_spec:
  assumes "trie_ok t" "i < length t" "step_or_push t i c = (t', j)"
  shows "trie_ok t'" and "child_of t' i c = Some j" and "j < length t'" and "length t \<le> length t'"
    and "\<And>k d. k < length t \<Longrightarrow> (k, d) \<noteq> (i, c) \<Longrightarrow> child_of t' k d = child_of t k d"
    and "\<And>k. k < length t \<Longrightarrow> is_terminal (t' ! k) = is_terminal (t ! k)"
    and "\<And>k. length t \<le> k \<Longrightarrow> k < length t' \<Longrightarrow> \<not> is_terminal (t' ! k)"
    and "child_of t i c = None \<or> t' = t"
proof -
  have "trie_ok t' \<and> child_of t' i c = Some j \<and> j < length t' \<and> length t \<le> length t'
     \<and> (\<forall>k d. k < length t \<longrightarrow> (k, d) \<noteq> (i, c) \<longrightarrow> child_of t' k d = child_of t k d)
     \<and> (\<forall>k. k < length t \<longrightarrow> is_terminal (t' ! k) = is_terminal (t ! k))
     \<and> (\<forall>k. length t \<le> k \<longrightarrow> k < length t' \<longrightarrow> \<not> is_terminal (t' ! k))
     \<and> (child_of t i c = None \<or> t' = t)"
  proof (cases "child_of t i c")
    case (Some nxt)
    then have "t' = t" "j = nxt" using assms(3) by (simp_all add: step_or_push_def)
    with Some assms(1,2) trie_ok_child [OF assms(1,2) Some] show ?thesis by simp
  next
    case None
    let ?n = "length t"
    have t': "t' = (t @ [empty_node])[i := (t ! i)\<lparr>children := bt_insert (children (t ! i)) c ?n\<rparr>]"
      and j: "j = ?n"
      using assms(2,3) None by (auto simp: step_or_push_def Let_def nth_append)
    have bt: "bt_ok (children (t ! k))" if "k < ?n" for k
      using assms(1) that by (rule trie_ok_bt)
    have len: "length t' = Suc ?n" by (simp add: t')
    have child: "child_of t' k d
        = (if k = ?n then None else if k = i \<and> d = c then Some ?n else child_of t k d)"
      if "k \<le> ?n" for k d
      using that assms(2) bt [OF assms(2)]
      by (auto simp: child_of_def t' nth_list_update nth_append empty_node_def bt_get_insert)
    have bt': "bt_ok (children (t' ! k))" if "k < Suc ?n" for k
      using that assms(2) bt by (auto simp: t' nth_list_update nth_append empty_node_def)
    have old: "child_of t k d = Some m \<Longrightarrow> k < ?n \<Longrightarrow> k < m \<and> m < ?n" for k d m
      using trie_ok_child [OF assms(1)] by blast
    have inj: "child_of t k d = Some m \<Longrightarrow> child_of t k' d' = Some m \<Longrightarrow> k < ?n \<Longrightarrow> k' < ?n \<Longrightarrow> k = k' \<and> d = d'"
      for k k' d d' m
      using trie_ok_parent [OF assms(1)] by blast
    have flag: "is_terminal (t' ! k) = (k < ?n \<and> is_terminal (t ! k))" if "k \<le> ?n" for k
      using that assms(2) by (auto simp: t' nth_list_update nth_append empty_node_def)
    have "trie_ok t'"
    proof (rule trie_okI)
      show "t' \<noteq> []" by (simp add: t')
      show "bt_ok (children (t' ! k))" if "k < length t'" for k using bt' that len by simp
      show "k < m \<and> m < length t'" if "k < length t'" "child_of t' k d = Some m" for k d m
        using that child [of k d] old [of k d m] len by (auto split: if_splits)
      show "k = k' \<and> d = d'" if "k < length t'" "k' < length t'" "child_of t' k d = Some m" "child_of t' k' d' = Some m"
        for k k' d d' m
        using that child [of k d] child [of k' d'] inj [of k d m k' d'] old [of k d m] old [of k' d' m] len
        by (auto split: if_splits)
      show "\<not> is_terminal (t' ! 0)"
        using flag [of 0] trie_ok_root [OF assms(1)] by simp
    qed
    then show ?thesis
      using None j len assms(2) child flag by auto
  qed
  then show "trie_ok t'" and "child_of t' i c = Some j" and "j < length t'" and "length t \<le> length t'"
    and "\<And>k d. k < length t \<Longrightarrow> (k, d) \<noteq> (i, c) \<Longrightarrow> child_of t' k d = child_of t k d"
    and "\<And>k. k < length t \<Longrightarrow> is_terminal (t' ! k) = is_terminal (t ! k)"
    and "\<And>k. length t \<le> k \<Longrightarrow> k < length t' \<Longrightarrow> \<not> is_terminal (t' ! k)"
    and "child_of t i c = None \<or> t' = t"
    by blast+
qed

text \<open>What the insertion loop leaves of the old tree: every walk, and no other walk to an old node.\<close>

definition extends :: "word_trie \<Rightarrow> word_trie \<Rightarrow> bool" where
  "extends t t' \<longleftrightarrow> length t \<le> length t'
     \<and> (\<forall>k v l. k < length t \<longrightarrow> walk t k v = Some l \<longrightarrow> walk t' k v = Some l)
     \<and> (\<forall>k v l. k < length t \<longrightarrow> l < length t \<longrightarrow> walk t' k v = Some l \<longrightarrow> walk t k v = Some l)
     \<and> (\<forall>k < length t. is_terminal (t' ! k) = is_terminal (t ! k))
     \<and> (\<forall>k. length t \<le> k \<longrightarrow> k < length t' \<longrightarrow> \<not> is_terminal (t' ! k))"

lemma extends_refl [simp]: "extends t t"
  by (simp add: extends_def)

lemma extends_length: "extends t t' \<Longrightarrow> length t \<le> length t'"
  by (simp add: extends_def)

lemma extends_walk: "extends t t' \<Longrightarrow> k < length t \<Longrightarrow> walk t k v = Some l \<Longrightarrow> walk t' k v = Some l"
  unfolding extends_def by blast

lemma extends_back:
  "extends t t' \<Longrightarrow> k < length t \<Longrightarrow> l < length t \<Longrightarrow> walk t' k v = Some l \<Longrightarrow> walk t k v = Some l"
  unfolding extends_def by blast

lemma extends_terminal: "extends t t' \<Longrightarrow> k < length t \<Longrightarrow> is_terminal (t' ! k) = is_terminal (t ! k)"
  unfolding extends_def by blast

lemma extends_new: "extends t t' \<Longrightarrow> length t \<le> k \<Longrightarrow> k < length t' \<Longrightarrow> \<not> is_terminal (t' ! k)"
  unfolding extends_def by blast

lemma extends_trans:
  assumes a: "extends t u" and b: "extends u v"
  shows "extends t v"
  unfolding extends_def
proof (intro conjI allI impI)
  show len: "length t \<le> length v" using extends_length [OF a] extends_length [OF b] by simp
  have k: "k < length u" if "k < length t" for k using that extends_length [OF a] by simp
  show "walk v k w = Some l" if "k < length t" "walk t k w = Some l" for k w l
    using extends_walk [OF b k [OF that(1)] extends_walk [OF a that]] .
  show "walk t k w = Some l" if "k < length t" "l < length t" "walk v k w = Some l" for k w l
    using extends_back [OF a that(1,2) extends_back [OF b k [OF that(1)] k [OF that(2)] that(3)]] .
  show "is_terminal (v ! k) = is_terminal (t ! k)" if "k < length t" for k
    using extends_terminal [OF a that] extends_terminal [OF b k [OF that]] by simp
  show "\<not> is_terminal (v ! k)" if "length t \<le> k" "k < length v" for k
    using extends_new [OF a that(1)] extends_new [OF b _ that(2)] extends_terminal [OF b]
    by (cases "k < length u") auto
qed

lemma step_extends:
  assumes "trie_ok t" "i < length t" "step_or_push t i c = (t', j)"
  shows "extends t t'"
proof -
  note spec = step_or_push_spec [OF assms]
  have fwd: "walk t' k v = Some l" if "walk t k v = Some l" "k < length t" for k v l
    using that
  proof (induction v arbitrary: k)
    case (Cons d v)
    then obtain m where m: "child_of t k d = Some m" "walk t m v = Some l" by (auto split: option.splits)
    then have "m < length t" using Cons.prems(2) trie_ok_child [OF assms(1)] by blast
    moreover have "child_of t' k d = Some m"
      using m(1) spec(5) [of k d] spec(8) Cons.prems(2) by (cases "(k, d) = (i, c)") auto
    ultimately show ?case using Cons.IH m by simp
  qed simp
  have bwd: "walk t k v = Some l" if "walk t' k v = Some l" "k < length t" "l < length t" for k v l
    using that
  proof (induction v arbitrary: k)
    case (Cons d v)
    then obtain m where m: "child_of t' k d = Some m" "walk t' m v = Some l" by (auto split: option.splits)
    have "k < length t'" using Cons.prems(2) spec(4) by simp
    then have "m < length t'"
      using trie_ok_child [OF spec(1) _ m(1)] by simp
    then have "m \<le> l" using walk_less [OF spec(1) _ m(2)] by simp
    then have "m < length t" using Cons.prems(3) by simp
    moreover have "child_of t k d = Some m"
    proof (cases "(k, d) = (i, c) \<and> t' \<noteq> t")
      case True
      then have "m = j" "child_of t i c = None" using m(1) spec(2,8) by auto
      moreover have "length t \<le> j"
        using calculation(2) assms(3) by (auto simp: step_or_push_def Let_def)
      ultimately show ?thesis using \<open>m < length t\<close> by simp
    next
      case False
      then show ?thesis using m(1) spec(5) [of k d] Cons.prems(2) by auto
    qed
    ultimately show ?case using Cons.IH m Cons.prems(3) by simp
  qed simp
  show ?thesis unfolding extends_def
  proof (intro conjI allI impI)
    show "walk t' k v = Some l" if "k < length t" "walk t k v = Some l" for k v l using fwd that by blast
    show "walk t k v = Some l" if "k < length t" "l < length t" "walk t' k v = Some l" for k v l
      using bwd that by blast
  qed (use spec(4,6,7) in blast)+
qed

lemma insert_loop_spec:
  "trie_ok t \<Longrightarrow> i < length t \<Longrightarrow> insert_loop t i w = (t', j)
    \<Longrightarrow> trie_ok t' \<and> extends t t' \<and> walk t' i w = Some j \<and> j < length t'"
proof (induction t i w arbitrary: t' j rule: insert_loop.induct)
  case (2 t i c w)
  obtain u k where u: "step_or_push t i c = (u, k)" by fastforce
  note spec = step_or_push_spec [OF 2(2,3) u]
  have loop: "insert_loop u k w = (t', j)" using 2(4) u by simp
  have ih: "trie_ok t' \<and> extends u t' \<and> walk t' k w = Some j \<and> j < length t'"
    using "2.IH" [OF u [symmetric] refl spec(1,3) loop] .
  have "walk u i [c] = Some k" using spec(2) by simp
  then have "walk t' i [c] = Some k"
    using extends_walk [of u t' i "[c]" k] ih spec(4) 2(3) by simp
  then have "child_of t' i c = Some k" by (auto split: option.splits)
  with ih step_extends [OF 2(2,3) u] show ?case by (auto intro: extends_trans)
qed simp

lemma child_update: "children (t[i := (t ! i)\<lparr>is_terminal := b\<rparr>] ! k) = children (t ! k)"
  by (cases "i < length t") (simp_all add: nth_list_update list_update_beyond)

lemma walk_terminal_update [simp]: "walk (t[i := (t ! i)\<lparr>is_terminal := b\<rparr>]) k w = walk t k w"
proof (induction w arbitrary: k)
  case (Cons c w)
  have "child_of (t[i := (t ! i)\<lparr>is_terminal := b\<rparr>]) k c = child_of t k c"
    by (simp add: child_of_def child_update)
  with Cons show ?case by (simp split: option.split)
qed simp

lemma trie_ok_terminal_update:
  assumes "trie_ok t" "i \<noteq> 0"
  shows "trie_ok (t[i := (t ! i)\<lparr>is_terminal := b\<rparr>])"
proof -
  have child: "child_of (t[i := (t ! i)\<lparr>is_terminal := b\<rparr>]) k c = child_of t k c" for k c
    by (simp add: child_of_def child_update)
  show ?thesis
  proof (rule trie_okI)
    show "t[i := (t ! i)\<lparr>is_terminal := b\<rparr>] \<noteq> []" using trie_ok_nonempty [OF assms(1)] by auto
    show "\<not> is_terminal (t[i := (t ! i)\<lparr>is_terminal := b\<rparr>] ! 0)"
      using trie_ok_root [OF assms(1)] assms(2) by simp
    show "bt_ok (children (t[i := (t ! i)\<lparr>is_terminal := b\<rparr>] ! k))"
      if "k < length (t[i := (t ! i)\<lparr>is_terminal := b\<rparr>])" for k
      using trie_ok_bt [OF assms(1), of k] that unfolding child_update by simp
    show "k < j \<and> j < length (t[i := (t ! i)\<lparr>is_terminal := b\<rparr>])"
      if "k < length (t[i := (t ! i)\<lparr>is_terminal := b\<rparr>])" "child_of (t[i := (t ! i)\<lparr>is_terminal := b\<rparr>]) k c = Some j"
      for k c j
      using trie_ok_child [OF assms(1), of k c j] that unfolding child by simp
    show "k = k' \<and> c = c'"
      if "k < length (t[i := (t ! i)\<lparr>is_terminal := b\<rparr>])" "k' < length (t[i := (t ! i)\<lparr>is_terminal := b\<rparr>])"
        "child_of (t[i := (t ! i)\<lparr>is_terminal := b\<rparr>]) k c = Some j" "child_of (t[i := (t ! i)\<lparr>is_terminal := b\<rparr>]) k' c' = Some j"
      for k k' c c' j
      using trie_ok_parent [OF assms(1), of k k' c j c'] that unfolding child by simp
  qed
qed

text \<open>The trie is the set of the words put into it.\<close>

lemma trie_insert_ok: "trie_ok t \<Longrightarrow> trie_ok (trie_insert t w)"
proof (cases "w = []")
  case False
  assume ok: "trie_ok t"
  obtain t' j where l: "insert_loop t 0 w = (t', j)" by fastforce
  have "0 < length t" using ok by (rule trie_ok_nonempty)
  with insert_loop_spec [OF ok _ l] have s: "trie_ok t'" "walk t' 0 w = Some j" by auto
  then have "0 + length w \<le> j" using walk_less [OF s(1) trie_ok_nonempty [OF s(1)]] by blast
  then have "j \<noteq> 0" using False by (cases w) auto
  with False s l show ?thesis by (simp add: trie_insert_def trie_ok_terminal_update)
qed (simp add: trie_insert_def)

lemma trie_contains_insert:
  assumes ok: "trie_ok t"
  shows "trie_contains (trie_insert t w) v \<longleftrightarrow> v = w \<and> w \<noteq> [] \<or> trie_contains t v"
proof (cases "w = []")
  case False
  obtain t' j where l: "insert_loop t 0 w = (t', j)" by fastforce
  have t0: "0 < length t" using ok by (rule trie_ok_nonempty)
  note s = insert_loop_spec [OF ok t0 l]
  have t0': "0 < length t'" using s trie_ok_nonempty by blast
  let ?t = "t'[j := (t' ! j)\<lparr>is_terminal := True\<rparr>]"
  have ins: "trie_insert t w = ?t" using False l by (simp add: trie_insert_def)
  have old: "trie_contains t' v \<longleftrightarrow> trie_contains t v"
  proof
    assume "trie_contains t' v"
    then obtain k where k: "walk t' 0 v = Some k" "is_terminal (t' ! k)"
      by (auto simp: trie_contains_def contains_walk split: option.splits)
    have "k < length t'" using walk_less [OF _ t0' k(1)] s by simp
    then have kt: "k < length t" using s k(2) extends_new [of t t' k] by (meson not_le)
    then have "walk t 0 v = Some k" "is_terminal (t ! k)"
      using s k extends_back [of t t' 0 k v] extends_terminal [of t t' k] t0 by simp_all
    then show "trie_contains t v" by (simp add: trie_contains_def contains_walk)
  next
    assume "trie_contains t v"
    then obtain k where k: "walk t 0 v = Some k" "is_terminal (t ! k)"
      by (auto simp: trie_contains_def contains_walk split: option.splits)
    have "k < length t" using walk_less [OF ok t0 k(1)] by simp
    then have "walk t' 0 v = Some k" "is_terminal (t' ! k)"
      using s k extends_walk [of t t' 0 v k] extends_terminal [of t t' k] t0 by simp_all
    then show "trie_contains t' v" by (simp add: trie_contains_def contains_walk)
  qed
  show ?thesis
  proof (cases "v = w")
    case True
    then show ?thesis using s False by (simp add: ins trie_contains_def contains_walk)
  next
    case neq: False
    have "walk t' 0 v \<noteq> Some j" using walk_inject [of t' v j w] s neq by blast
    then have "trie_contains ?t v \<longleftrightarrow> trie_contains t' v"
      by (auto simp: trie_contains_def contains_walk split: option.split)
    with old neq ins show ?thesis by simp
  qed
qed (simp add: trie_insert_def)

end
