(* ===== verification/Word_Break.thy ===== *)
theory Word_Break
  imports Word_Trie
begin

text \<open>
  What a set of words must offer for the word break, as a locale; the correctness of the
  dynamic program proved from it once; and its interpretation on the trie.
\<close>

section \<open>The order of decompositions\<close>

lemma append_last_less: "length u = length v \<Longrightarrow> (u @ [x :: 'a :: linorder] < v @ [x]) = (u < v)"
  by (induction u v rule: list_induct2) auto

lemma better_break_append: "better_break (u @ [w]) (v @ [w]) = better_break u v"
  by (auto simp: better_break_def append_last_less)

lemma better_break_irrefl [simp]: "\<not> better_break u u"
  by (simp add: better_break_def)

lemma better_break_trans: "better_break u v \<Longrightarrow> better_break v w \<Longrightarrow> better_break u w"
  by (auto simp: better_break_def)

lemma better_break_total: "u \<noteq> v \<Longrightarrow> better_break u v \<or> better_break v u"
  by (auto simp: better_break_def)

lemma not_better_trans: "\<not> better_break v u \<Longrightarrow> \<not> better_break w v \<Longrightarrow> \<not> better_break w u"
  using better_break_total [of u v] better_break_trans [of w u v] by blast

text \<open>The best element of a set of decompositions, if there is one.\<close>

definition best_of :: "rstring list set \<Rightarrow> rstring list option \<Rightarrow> bool" where
  "best_of S p \<longleftrightarrow> (case p of None \<Rightarrow> S = {} | Some ws \<Rightarrow> ws \<in> S \<and> (\<forall>vs \<in> S. \<not> better_break vs ws))"

lemma best_of_append:
  "best_of S (Some ws) \<Longrightarrow> best_of ((\<lambda>vs. vs @ [w]) ` S) (Some (ws @ [w]))"
  by (auto simp: best_of_def better_break_append)

lemma best_of_offer:
  assumes "best_of S p" "best_of T (Some c)"
  shows "best_of (S \<union> T) (if (case p of None \<Rightarrow> True | Some d \<Rightarrow> better_break c d) then Some c else p)"
proof (cases p)
  case None
  with assms show ?thesis by (auto simp: best_of_def)
next
  case (Some d)
  show ?thesis
  proof (cases "better_break c d")
    case True
    have "\<not> better_break vs c" if "vs \<in> S" for vs
      using that assms(1) Some True better_break_trans by (auto simp: best_of_def)
    with True Some assms show ?thesis by (auto simp: best_of_def)
  next
    case False
    have "\<not> better_break vs d" if "vs \<in> T" for vs
      using that assms(2) False not_better_trans [of c d vs] by (auto simp: best_of_def)
    with False Some assms show ?thesis by (auto simp: best_of_def)
  qed
qed

section \<open>Slices\<close>

lemma length_slice [simp]: "i \<le> j \<Longrightarrow> j \<le> length xs \<Longrightarrow> length (char_slice xs i j) = j - i"
  by (simp add: char_slice_def)

lemma take_slice: "i \<le> j \<Longrightarrow> take i xs @ char_slice xs i j = take j xs"
  by (simp add: char_slice_def take_add [symmetric])

lemma slice_all [simp]: "char_slice xs 0 (length xs) = xs"
  by (simp add: char_slice_def)

lemma take_suffix_slice:
  "take j xs = u @ w \<Longrightarrow> j \<le> length xs \<Longrightarrow> u = take (j - length w) xs \<and> w = char_slice xs (j - length w) j"
proof -
  assume a: "take j xs = u @ w" "j \<le> length xs"
  then have len: "j = length u + length w" by (metis length_append length_take min.absorb2)
  have "take (length u) (take j xs) = u" "drop (length u) (take j xs) = w"
    unfolding a(1) by simp_all
  then have "take (length u) xs = u" "take (length w) (drop (length u) xs) = w"
    by (simp_all add: len drop_take)
  moreover have "j - length w = length u" "j - (j - length w) = length w" using len by simp_all
  ultimately show ?thesis by (simp add: char_slice_def)
qed

section \<open>Segmentations\<close>

text \<open>
  The sequences of accepted pieces that spell the first \<open>j\<close> characters, the last piece
  starting before \<open>k\<close>: what a dynamic program over the starts has seen before round \<open>k\<close>.
\<close>

definition segs :: "(rstring \<Rightarrow> bool) \<Rightarrow> rstring \<Rightarrow> nat \<Rightarrow> nat \<Rightarrow> rstring list set" where
  "segs P cs k j = {ws. concat ws = take j cs \<and> (\<forall>w \<in> set ws. P w) \<and> (ws = [] \<or> j - length (last ws) < k)}"

lemma segs_all:
  assumes "\<not> P []" "j \<le> k"
  shows "segs P cs k j = {ws. concat ws = take j cs \<and> (\<forall>w \<in> set ws. P w)}"
proof -
  have "j - length (last ws) < k" if "concat ws = take j cs" "\<forall>w \<in> set ws. P w" "ws \<noteq> []" for ws
  proof -
    have "P (last ws)" using that by simp
    then have "0 < length (last ws)" using assms(1) by auto
    moreover have "length (last ws) \<le> length (concat ws)"
      using that(3) by (metis append_butlast_last_id concat.simps(1,2) concat_append length_append le_add2 append_Nil2)
    moreover have "length (concat ws) \<le> j" using that(1) by simp
    ultimately show ?thesis using assms(2) by linarith
  qed
  then show ?thesis by (auto simp: segs_def)
qed

lemma segs_0: "\<not> P [] \<Longrightarrow> j \<le> length cs \<Longrightarrow> segs P cs 0 j = (if j = 0 then {[]} else {})"
  by (auto simp: segs_def)

text \<open>The segmentations whose last piece starts at \<open>k\<close> are those of the first \<open>k\<close>
  characters, extended.\<close>

lemma segs_Suc:
  assumes "\<not> P []" "k < length cs" "j \<le> length cs"
  shows "segs P cs (Suc k) j = segs P cs k j \<union>
    (if k < j \<and> P (char_slice cs k j)
     then (\<lambda>ws. ws @ [char_slice cs k j]) ` {ws. concat ws = take k cs \<and> (\<forall>w \<in> set ws. P w)} else {})"
proof -
  have "ws \<in> segs P cs k j \<or> k < j \<and> P (char_slice cs k j)
      \<and> ws \<in> (\<lambda>ws. ws @ [char_slice cs k j]) ` {ws. concat ws = take k cs \<and> (\<forall>w \<in> set ws. P w)}"
    if "ws \<in> segs P cs (Suc k) j" for ws
  proof (cases ws rule: rev_cases)
    case Nil
    with that show ?thesis by (simp add: segs_def)
  next
    case (snoc us w)
    have w: "P w" "concat us @ w = take j cs" "\<forall>u \<in> set us. P u" "j - length w \<le> k"
      using that snoc by (auto simp: segs_def)
    show ?thesis
    proof (cases "j - length w = k")
      case False
      with that snoc w show ?thesis by (simp add: segs_def)
    next
      case True
      from take_suffix_slice [OF w(2) [symmetric] assms(3)] True
      have s: "concat us = take k cs" "w = char_slice cs k j" by simp_all
      have "w \<noteq> []" using w(1) assms(1) by auto
      then have "k < j" using s(2) by (auto simp: char_slice_def not_less)
      with s w snoc show ?thesis by auto
    qed
  qed
  moreover have "us @ [char_slice cs k j] \<in> segs P cs (Suc k) j"
    if "k < j" "P (char_slice cs k j)" "concat us = take k cs" "\<forall>w \<in> set us. P w" for us
    using that assms(3) by (auto simp: segs_def take_slice)
  moreover have "segs P cs k j \<subseteq> segs P cs (Suc k) j"
    by (auto simp: segs_def)
  ultimately show ?thesis by auto
qed

section \<open>The contract and the dynamic program\<close>

locale word_set =
  fixes ok :: "'t \<Rightarrow> bool"
    and empty :: 't
    and insert :: "'t \<Rightarrow> rstring \<Rightarrow> 't"
    and contains :: "'t \<Rightarrow> rstring \<Rightarrow> bool"
    and matches :: "'t \<Rightarrow> rstring \<Rightarrow> nat \<Rightarrow> nat list"
  assumes ok_empty: "ok empty"
    and ok_insert: "ok t \<Longrightarrow> ok (insert t w)"
    and contains_empty: "\<not> contains empty w"
    and contains_insert: "ok t \<Longrightarrow> contains (insert t w) v \<longleftrightarrow> v = w \<and> w \<noteq> [] \<or> contains t v"
    and matches_sorted: "sorted_wrt (<) (matches t cs i)"
    and matches_iff: "ok t \<Longrightarrow> i \<le> length cs
      \<Longrightarrow> j \<in> set (matches t cs i) \<longleftrightarrow> i < j \<and> j \<le> length cs \<and> contains t (char_slice cs i j)"
    and contains_Nil: "ok t \<Longrightarrow> \<not> contains t []"
begin

lemma ok_fold: "ok t \<Longrightarrow> ok (fold (\<lambda>w t. insert t w) ws t)"
  by (induction ws arbitrary: t) (auto simp: ok_insert)

lemma contains_fold_gen:
  "ok t \<Longrightarrow> contains (fold (\<lambda>w t. insert t w) ws t) v \<longleftrightarrow> v \<in> set ws \<and> v \<noteq> [] \<or> contains t v"
  by (induction ws arbitrary: t) (auto simp: ok_insert contains_insert)

text \<open>Inserting a list of words makes the set of those that are not empty.\<close>

lemma contains_fold: "contains (fold (\<lambda>w t. insert t w) ws empty) v \<longleftrightarrow> v \<in> set ws \<and> v \<noteq> []"
  by (simp add: contains_fold_gen ok_empty contains_empty)

definition breaks :: "'t \<Rightarrow> rstring \<Rightarrow> rstring list set" where
  "breaks t cs = {ws. concat ws = cs \<and> (\<forall>w \<in> set ws. contains t w)}"

definition breaks_upto :: "'t \<Rightarrow> rstring \<Rightarrow> nat \<Rightarrow> nat \<Rightarrow> rstring list set" where
  "breaks_upto t cs k j = segs (contains t) cs k j"

lemma breaks_upto_all: "ok t \<Longrightarrow> j \<le> k \<Longrightarrow> breaks_upto t cs k j = breaks t (take j cs)"
  by (simp add: breaks_upto_def breaks_def segs_all contains_Nil)

lemma breaks_upto_0: "ok t \<Longrightarrow> j \<le> length cs \<Longrightarrow> breaks_upto t cs 0 j = (if j = 0 then {[]} else {})"
  by (simp add: breaks_upto_def segs_0 contains_Nil)

lemma breaks_upto_Suc:
  assumes "ok t" "k < length cs" "j \<le> length cs"
  shows "breaks_upto t cs (Suc k) j = breaks_upto t cs k j \<union>
    (if j \<in> set (matches t cs k) then (\<lambda>ws. ws @ [char_slice cs k j]) ` breaks t (take k cs) else {})"
  using segs_Suc [where P = "contains t", OF contains_Nil [OF assms(1)] assms(2,3)]
    matches_iff [OF assms(1), of k cs j] assms(2,3)
  by (simp add: breaks_upto_def breaks_def)

text \<open>Offering one path per match touches the matched positions only.\<close>

lemma offer_fold:
  assumes "distinct ms" "j < length paths"
  shows "fold (\<lambda>stop. offer_path (pre @ [char_slice cs k stop]) stop) ms paths ! j =
    (if j \<in> set ms \<and> (case paths ! j of None \<Rightarrow> True | Some d \<Rightarrow> better_break (pre @ [char_slice cs k j]) d)
     then Some (pre @ [char_slice cs k j]) else paths ! j)"
  using assms
proof (induction ms arbitrary: paths)
  case (Cons m ms)
  have "length (offer_path (pre @ [char_slice cs k m]) m paths) = length paths"
    by (simp add: offer_path_def)
  moreover have "offer_path (pre @ [char_slice cs k m]) m paths ! j =
      (if j = m \<and> (case paths ! j of None \<Rightarrow> True | Some d \<Rightarrow> better_break (pre @ [char_slice cs k j]) d)
       then Some (pre @ [char_slice cs k j]) else paths ! j)"
    using Cons.prems(2) by (cases "j = m", hypsubst) (simp_all add: offer_path_def nth_list_update)
  ultimately show ?case using Cons by (auto split: if_splits)
qed simp

lemma length_offer_fold:
  "length (fold (\<lambda>stop. offer_path (pre @ [char_slice cs k stop]) stop) ms paths) = length paths"
  by (induction ms arbitrary: paths) (simp_all add: offer_path_def)

definition paths_upto :: "'t \<Rightarrow> rstring \<Rightarrow> nat \<Rightarrow> rstring list option list \<Rightarrow> bool" where
  "paths_upto t cs k paths \<longleftrightarrow> length paths = Suc (length cs)
     \<and> (\<forall>j \<le> length cs. best_of (breaks_upto t cs k j) (paths ! j))"

lemma extend_paths_step:
  assumes "ok t" "k < length cs" "paths_upto t cs k paths"
  shows "paths_upto t cs (Suc k) (extend_paths (matches t cs) cs k paths)"
proof -
  have len: "length paths = Suc (length cs)"
    and inv: "\<And>j. j \<le> length cs \<Longrightarrow> best_of (breaks_upto t cs k j) (paths ! j)"
    using assms(3) by (simp_all add: paths_upto_def)
  have bestk: "best_of (breaks t (take k cs)) (paths ! k)"
    using inv [of k] assms(1,2) by (simp add: breaks_upto_all)
  have d: "distinct (matches t cs k)"
    using matches_sorted by (simp add: strict_sorted_iff)
  show ?thesis
  proof (cases "paths ! k")
    case None
    then have "breaks t (take k cs) = {}" using bestk by (simp add: best_of_def)
    with None len inv assms(1,2) show ?thesis
      by (simp add: paths_upto_def extend_paths_def breaks_upto_Suc)
  next
    case (Some pre)
    have "best_of (breaks_upto t cs (Suc k) j)
        (fold (\<lambda>stop. offer_path (pre @ [char_slice cs k stop]) stop) (matches t cs k) paths ! j)"
      if j: "j \<le> length cs" for j
    proof (cases "j \<in> set (matches t cs k)")
      case False
      with j d len inv [OF j] assms(1,2) show ?thesis
        by (subst offer_fold) (simp_all add: breaks_upto_Suc)
    next
      case True
      have "best_of ((\<lambda>ws. ws @ [char_slice cs k j]) ` breaks t (take k cs)) (Some (pre @ [char_slice cs k j]))"
        using bestk Some by (simp add: best_of_append)
      from best_of_offer [OF inv [OF j] this] True j d len assms(1,2) show ?thesis
        by (subst offer_fold) (simp_all add: breaks_upto_Suc)
    qed
    with Some len show ?thesis
      by (simp add: paths_upto_def extend_paths_def length_offer_fold)
  qed
qed

text \<open>The last entry is the best break of the whole text.\<close>

lemma break_paths_best:
  assumes "ok t"
  shows "best_of (breaks t cs) (last (break_paths (matches t cs) cs))"
proof -
  let ?init = "(replicate (length cs + 1) None)[0 := Some []]"
  have "paths_upto t cs 0 ?init"
    using breaks_upto_0 [OF assms] by (auto simp: paths_upto_def best_of_def nth_Cons split: nat.split)
  then have "paths_upto t cs k (fold (extend_paths (matches t cs) cs) [0..<k] ?init)" if "k \<le> length cs" for k
    using that by (induction k) (auto intro: extend_paths_step [OF assms])
  then have p: "paths_upto t cs (length cs) (break_paths (matches t cs) cs)"
    by (simp add: break_paths_def)
  then have "last (break_paths (matches t cs) cs) = break_paths (matches t cs) cs ! length cs"
    unfolding paths_upto_def by (metis diff_Suc_1 last_conv_nth length_0_conv nat.distinct(1))
  moreover have "breaks_upto t cs (length cs) (length cs) = breaks t cs"
    using breaks_upto_all [OF assms, of "length cs" "length cs" cs] by simp
  moreover have "best_of (breaks_upto t cs (length cs) (length cs)) (break_paths (matches t cs) cs ! length cs)"
    using p by (simp add: paths_upto_def)
  ultimately show ?thesis by simp
qed

end

section \<open>The trie keeps the contract\<close>

lemma matches_loop_iff:
  "j \<in> set (matches_loop t i pos cs) \<longleftrightarrow>
     pos < j \<and> j \<le> pos + length cs \<and> contains_loop t i (take (j - pos) cs)"
proof (induction t i pos cs rule: matches_loop.induct)
  case (2 t i pos c cs)
  show ?case
  proof (cases "child_of t i c")
    case None
    then show ?thesis by (cases "j - pos") auto
  next
    case (Some nxt)
    show ?thesis
    proof (cases "j = pos + 1")
      case True
      then show ?thesis using Some 2 [OF Some] by auto
    next
      case False
      then have "pos < j \<Longrightarrow> take (j - pos) (c # cs) = c # take (j - Suc pos) cs"
        by (cases "j - pos") (auto simp: diff_Suc split: nat.splits)
      with False Some 2 [OF Some] show ?thesis by auto
    qed
  qed
qed auto

lemma matches_loop_sorted: "sorted_wrt (<) (matches_loop t i pos cs)"
proof (induction t i pos cs rule: matches_loop.induct)
  case (2 t i pos c cs)
  then show ?case by (auto split: option.split simp: sorted_wrt_append matches_loop_iff)
qed simp

interpretation trie: word_set trie_ok trie_new trie_insert trie_contains matches_from
proof
  show "j \<in> set (matches_from t cs i) \<longleftrightarrow> i < j \<and> j \<le> length cs \<and> trie_contains t (char_slice cs i j)"
    if "i \<le> length cs" for t cs i j
    using that by (auto simp: matches_from_def matches_loop_iff trie_contains_def char_slice_def)
  show "\<not> trie_contains t []" if "trie_ok t" for t
    using trie_ok_root [OF that] by (simp add: trie_contains_def)
qed (simp_all add: trie_insert_ok trie_contains_insert matches_from_def matches_loop_sorted)

end
