(* ===== verification/Local_Dictionary.thy ===== *)
theory Local_Dictionary
  imports Hsk_Dataset Word_Break
begin

text \<open>
  The local dictionary (\<open>dictionary.rs\<close>): loading a CC-CEDICT artifact, the entries of a
  word, the longest match and the merging of readings and definitions.
\<close>

record lookup_token =
  lt_simplified :: rstring
  lt_pinyin :: rstring
  lt_definitions :: "rstring list"
  lt_hsk_level :: "hsk_level option"
  lt_proper_name :: bool

record lookup_item_context =
  lc_displayed_chinese :: rstring
  lc_base_chinese :: rstring
  lc_source_text :: rstring

record lookup_result =
  lr_selected_text :: rstring
  lr_tokens :: "lookup_token list"
  lr_item :: "lookup_item_context option"

record local_dictionary =
  ld_entries :: "dictionary_entry list"
  ld_by_word :: "(rstring, nat list) btree_map"
  ld_trie :: word_trie
  ld_dataset_revision :: rstring
  ld_cache_revision :: rstring
  ld_completeness :: dataset_completeness
  ld_source :: source_audit
  ld_licence :: licence_audit

type_synonym dictionary_digest =
  "rstring \<Rightarrow> dataset_completeness \<Rightarrow> source_audit \<Rightarrow> nat \<Rightarrow> dictionary_entry list \<Rightarrow> hsk_error + rstring"

definition cc_cedict :: rstring where "cc_cedict = lit ''CC-CEDICT''"
definition cedict_prefix :: rstring where "cedict_prefix = lit ''cedict-sha256:''"

definition validate_dictionary_entry :: "dictionary_entry \<Rightarrow> hsk_error + unit" where
  "validate_dictionary_entry e =
     (if blank (de_traditional e) \<or> blank (de_simplified e) \<or> blank (de_pinyin e)
         \<or> de_definitions e = [] \<or> list_ex blank (de_definitions e)
      then Err (InvalidData (IncompleteEntry (de_simplified e)))
      else Ok ())"

text \<open>\<open>Vec::dedup\<close>: of equal neighbours the first stays.\<close>

fun dedup_by :: "('a \<Rightarrow> 'a \<Rightarrow> bool) \<Rightarrow> 'a list \<Rightarrow> 'a list" where
  "dedup_by same [] = []"
| "dedup_by same [x] = [x]"
| "dedup_by same (x # y # xs) =
     (if same x y then dedup_by same (x # xs) else x # dedup_by same (y # xs))"

abbreviation dedup :: "'a list \<Rightarrow> 'a list" where
  "dedup \<equiv> dedup_by (=)"

lemma set_dedup_by: "set (dedup_by same xs) \<subseteq> set xs"
  by (induction same xs rule: dedup_by.induct) auto

lemma set_dedup [simp]: "set (dedup xs) = set xs"
  by (induction "(=) :: 'a \<Rightarrow> 'a \<Rightarrow> bool" xs rule: dedup_by.induct) auto

lemma dedup_by_Nil [simp]: "dedup_by same xs = [] \<longleftrightarrow> xs = []"
  by (induction same xs rule: dedup_by.induct) auto

definition dictionary_sort_key :: "dictionary_entry \<Rightarrow> rstring \<times> rstring \<times> rstring list" where
  "dictionary_sort_key e = (de_simplified e, de_pinyin e, de_definitions e)"

text \<open>\<open>by_word.entry(word).or_default().push(index)\<close>\<close>

definition push_index :: "rstring \<Rightarrow> nat \<Rightarrow> (rstring, nat list) btree_map \<Rightarrow> (rstring, nat list) btree_map" where
  "push_index w i m = bt_insert m w ((case bt_get m w of None \<Rightarrow> [] | Some is \<Rightarrow> is) @ [i])"

fun load_dictionary ::
  "nat \<Rightarrow> dictionary_entry list \<Rightarrow> (rstring, nat list) btree_map \<Rightarrow> word_trie
   \<Rightarrow> hsk_error + (rstring, nat list) btree_map \<times> word_trie" where
  "load_dictionary index [] by_word trie = Ok (by_word, trie)"
| "load_dictionary index (e # es) by_word trie =
     try_bind (validate_dictionary_entry e) (\<lambda>_.
       load_dictionary (index + 1) es (push_index (de_simplified e) index by_word)
         (trie_insert trie (de_simplified e)))"

definition dictionary_from_artifact ::
  "dictionary_digest \<Rightarrow> dictionary_artifact \<Rightarrow> load_policy \<Rightarrow> hsk_error + local_dictionary" where
  "dictionary_from_artifact digest art policy =
     (if da_schema_version art \<noteq> DATA_SCHEMA_VERSION
      then Err (InvalidData (UnsupportedSchema (da_schema_version art)))
      else if da_format art \<noteq> cc_cedict then Err (InvalidData (UnsupportedFormat (da_format art)))
      else if blank (da_dataset_revision art) then Err (InvalidData EmptyRevision)
      else try_bind (validate_audit (da_source art) (da_licence art)) (\<lambda>_.
        if da_completeness art \<noteq> CompleteDataset \<and> policy = RequireComplete
        then Err (DatasetIncomplete ''dictionary'' (da_dataset_revision art) (da_completeness art))
        else
          let entries = dedup (sort_key dictionary_sort_key (da_entries art)) in
          if da_audited_entry_count art \<noteq> length entries
          then Err (InvalidData (AuditCountMismatch (length entries) (da_audited_entry_count art)))
          else if entries = [] then Err (InvalidData NoEntries)
          else try_bind (load_dictionary 0 entries [] trie_new) (\<lambda>(by_word, trie).
            try_bind (digest (da_dataset_revision art) (da_completeness art) (da_source art)
                        (da_audited_entry_count art) entries) (\<lambda>rev.
              Ok \<lparr>ld_entries = entries, ld_by_word = by_word, ld_trie = trie,
                  ld_dataset_revision = da_dataset_revision art, ld_cache_revision = cedict_prefix @ rev,
                  ld_completeness = da_completeness art, ld_source = da_source art,
                  ld_licence = da_licence art\<rparr>))))"

definition entries_for :: "local_dictionary \<Rightarrow> rstring \<Rightarrow> dictionary_entry list" where
  "entries_for d w = (case bt_get (ld_by_word d) w of
     None \<Rightarrow> [] | Some is \<Rightarrow> map (\<lambda>i. ld_entries d ! i) is)"

definition contains_word :: "local_dictionary \<Rightarrow> rstring \<Rightarrow> bool" where
  "contains_word d w = (bt_get (ld_by_word d) w \<noteq> None)"

definition dictionary_longest_match :: "local_dictionary \<Rightarrow> rstring \<Rightarrow> nat \<Rightarrow> nat option" where
  "dictionary_longest_match d cs start = longest_match (ld_trie d) cs start"

definition dictionary_words :: "local_dictionary \<Rightarrow> rstring list" where
  "dictionary_words d = bt_keys (ld_by_word d)"

section \<open>Merged fields\<close>

definition primary_surname :: rstring where "primary_surname = lit ''surname''"
definition primary_variant :: rstring where "primary_variant = lit ''variant of ''"
definition primary_old_variant :: rstring where "primary_old_variant = lit ''old variant of ''"
definition primary_taiwan :: rstring where "primary_taiwan = lit ''taiwan pr.''"

definition is_primary_definition :: "rstring \<Rightarrow> bool" where
  "is_primary_definition definition_text =
     (let folded = map to_ascii_lowercase (trim definition_text) in
      \<not> (str_contains folded primary_surname \<or> str_starts_with folded primary_variant
         \<or> str_starts_with folded primary_old_variant \<or> str_starts_with folded primary_taiwan))"

definition starts_with_lowercase :: "text_env \<Rightarrow> rstring \<Rightarrow> bool" where
  "starts_with_lowercase env pinyin = (case pinyin of [] \<Rightarrow> False | c # _ \<Rightarrow> env_lowercase env c)"

type_synonym reading = "rstring \<times> nat \<times> nat"

definition add_reading :: "dictionary_entry \<Rightarrow> (rstring, nat \<times> nat) btree_map \<Rightarrow> (rstring, nat \<times> nat) btree_map" where
  "add_reading e m =
     (let (primary, total) = (case bt_get m (de_pinyin e) of None \<Rightarrow> (0, 0) | Some s \<Rightarrow> s)
      in bt_insert m (de_pinyin e)
           (primary + length (filter is_primary_definition (de_definitions e)),
            total + length (de_definitions e)))"

text \<open>The comparator of \<open>max_by\<close>: score, then a lowercase start, then the reversed spelling.\<close>

definition reading_less :: "text_env \<Rightarrow> reading \<Rightarrow> reading \<Rightarrow> bool" where
  "reading_less env l r \<longleftrightarrow>
     snd l < snd r
     \<or> snd l = snd r \<and>
       (\<not> starts_with_lowercase env (fst l) \<and> starts_with_lowercase env (fst r)
        \<or> starts_with_lowercase env (fst l) = starts_with_lowercase env (fst r) \<and> fst r < fst l)"

text \<open>\<open>Iterator::max_by\<close> keeps the last of the greatest elements.\<close>

fun max_by :: "('a \<Rightarrow> 'a \<Rightarrow> bool) \<Rightarrow> 'a list \<Rightarrow> 'a option" where
  "max_by lt [] = None"
| "max_by lt (x # xs) = Some (foldl (\<lambda>best y. if lt y best then best else y) x xs)"

definition merged_fields :: "text_env \<Rightarrow> local_dictionary \<Rightarrow> rstring \<Rightarrow> rstring \<times> rstring list" where
  "merged_fields env d w =
     (let es = entries_for d w;
          readings = fold add_reading es [];
          pinyin = (case max_by (reading_less env) readings of None \<Rightarrow> [] | Some r \<Rightarrow> fst r)
      in (pinyin, bs_collect (concat (map de_definitions es))))"

section \<open>What a loaded dictionary satisfies\<close>

definition indices_of :: "dictionary_entry list \<Rightarrow> rstring \<Rightarrow> nat list" where
  "indices_of es w = filter (\<lambda>i. de_simplified (es ! i) = w) [0..<length es]"

definition dictionary_ok :: "local_dictionary \<Rightarrow> bool" where
  "dictionary_ok d \<longleftrightarrow> trie_ok (ld_trie d)
     \<and> (\<forall>w. trie_contains (ld_trie d) w \<longleftrightarrow> w \<noteq> [] \<and> w \<in> de_simplified ` set (ld_entries d))
     \<and> (\<forall>w. bt_get (ld_by_word d) w =
            (if w \<in> de_simplified ` set (ld_entries d) then Some (indices_of (ld_entries d) w) else None))"

lemma indices_of_snoc:
  "indices_of (es @ [e]) w = indices_of es w @ (if de_simplified e = w then [length es] else [])"
proof -
  have "filter (\<lambda>i. de_simplified ((es @ [e]) ! i) = w) [0..<length es] = indices_of es w"
    unfolding indices_of_def by (rule filter_cong) (simp_all add: nth_append)
  then show ?thesis by (simp add: indices_of_def)
qed

lemma indices_of_nonempty: "indices_of es w \<noteq> [] \<longleftrightarrow> w \<in> de_simplified ` set es"
proof -
  have "(\<exists>i < length es. de_simplified (es ! i) = w) \<longleftrightarrow> (\<exists>e \<in> set es. de_simplified e = w)"
    by (metis in_set_conv_nth)
  then show ?thesis by (auto simp: indices_of_def filter_empty_conv)
qed

lemma load_dictionary_inv:
  assumes "load_dictionary (length es) fs m t = Inr (m', t')"
    and "bt_ok m" "trie_ok t"
    and "\<And>w. trie_contains t w \<longleftrightarrow> w \<noteq> [] \<and> w \<in> de_simplified ` set es"
    and "\<And>w. bt_get m w = (if w \<in> de_simplified ` set es then Some (indices_of es w) else None)"
  shows "trie_ok t' \<and> (\<forall>w. trie_contains t' w \<longleftrightarrow> w \<noteq> [] \<and> w \<in> de_simplified ` set (es @ fs))
     \<and> (\<forall>w. bt_get m' w = (if w \<in> de_simplified ` set (es @ fs) then Some (indices_of (es @ fs) w) else None))"
  using assms
proof (induction fs arbitrary: es m t)
  case Nil
  then show ?case by simp
next
  case (Cons e fs)
  let ?m = "push_index (de_simplified e) (length es) m"
  have load: "load_dictionary (length (es @ [e])) fs ?m (trie_insert t (de_simplified e)) = Inr (m', t')"
    using Cons.prems(1) by auto
  have "indices_of es w = []" if "w \<notin> de_simplified ` set es" for w
    using that indices_of_nonempty by blast
  then have get: "bt_get ?m w = (if w \<in> de_simplified ` set (es @ [e]) then Some (indices_of (es @ [e]) w) else None)" for w
    using Cons.prems(2) by (auto simp: push_index_def bt_get_insert Cons.prems(5) indices_of_snoc)
  have ok: "bt_ok ?m" using Cons.prems(2) by (simp add: push_index_def)
  have cont: "trie_contains (trie_insert t (de_simplified e)) w \<longleftrightarrow> w \<noteq> [] \<and> w \<in> de_simplified ` set (es @ [e])" for w
    using trie_contains_insert [OF Cons.prems(3)] Cons.prems(4) by auto
  show ?case
    using Cons.IH [OF load ok trie_insert_ok [OF Cons.prems(3)] cont get] by simp
qed

lemma loaded_dictionary_ok:
  assumes "dictionary_from_artifact digest art policy = Inr d"
  shows "dictionary_ok d"
proof -
  obtain es m t where l: "load_dictionary 0 es [] trie_new = Inr (m, t)"
      "ld_entries d = es" "ld_by_word d = m" "ld_trie d = t"
    using assms by (auto simp: dictionary_from_artifact_def Let_def split: if_splits)
  have "load_dictionary (length ([] :: dictionary_entry list)) es [] trie_new = Inr (m, t)"
    using l(1) by simp
  from load_dictionary_inv [OF this] l(2-4) show ?thesis
    by (simp add: dictionary_ok_def)
qed

lemma contains_word_iff: "dictionary_ok d \<Longrightarrow> contains_word d w \<longleftrightarrow> w \<in> de_simplified ` set (ld_entries d)"
  by (simp add: contains_word_def dictionary_ok_def)

lemma entries_for_eq:
  assumes "dictionary_ok d"
  shows "entries_for d w = filter (\<lambda>e. de_simplified e = w) (ld_entries d)"
proof -
  let ?es = "ld_entries d"
  have "filter (\<lambda>e. de_simplified e = w) ?es = map (\<lambda>i. ?es ! i) (indices_of ?es w)"
  proof -
    have "filter (\<lambda>e. de_simplified e = w) (map (\<lambda>i. ?es ! i) [0..<length ?es]) = map (\<lambda>i. ?es ! i) (indices_of ?es w)"
      by (simp add: filter_map indices_of_def o_def)
    then show ?thesis by (simp add: map_nth)
  qed
  moreover have "indices_of ?es w = [] \<longleftrightarrow> w \<notin> de_simplified ` set ?es"
    using indices_of_nonempty by blast
  ultimately show ?thesis
    using assms by (auto simp: entries_for_def dictionary_ok_def)
qed

end
