(* ===== verification/Hsk_Control.thy ===== *)
theory Hsk_Control
  imports Local_Dictionary
begin

text \<open>
  The HSK control engine (\<open>validator.rs\<close>): construction from the two datasets, validation of
  a text against a level with proper names as exceptions, guard spans chosen by dynamic
  programming, suggestions and dictionary lookup. The Jieba tokenizer and SHA-256 are
  parameters: \<open>hc_tokenize\<close> is \<open>jieba.tokenize(_, Default, true)\<close> with character offsets.
\<close>

type_synonym jieba_token = "rstring \<times> nat \<times> nat"

record hsk_control =
  hc_hsk :: hsk_dataset
  hc_dictionary :: local_dictionary
  hc_env :: text_env
  hc_tokenize :: "rstring \<Rightarrow> jieba_token list"
  hc_full_lexicon :: word_trie
  hc_allowed_tries :: "word_trie list"
  hc_cache_revision :: rstring

section \<open>Construction\<close>

definition word_frequency :: "hsk_entry \<Rightarrow> nat" where
  "word_frequency e = (case he_frequency_rank e of
     Some rank \<Rightarrow> max (2000000 - unat rank) 100
   | None \<Rightarrow> 1000000 div unat (level_get (he_level e)))"

definition add_frequency :: "hsk_entry \<Rightarrow> (rstring, nat) btree_map \<Rightarrow> (rstring, nat) btree_map" where
  "add_frequency e m = bt_insert m (he_simplified e)
     (case bt_get m (he_simplified e) of
        None \<Rightarrow> word_frequency e | Some old \<Rightarrow> max old (word_frequency e))"

definition word_frequencies :: "hsk_dataset \<Rightarrow> local_dictionary \<Rightarrow> (rstring, nat) btree_map" where
  "word_frequencies hsk dictionary =
     fold add_frequency (ds_entries hsk)
       (fold (\<lambda>w m. bt_insert m w 10) (dictionary_words dictionary) [])"

definition trie_of_words :: "rstring list \<Rightarrow> word_trie" where
  "trie_of_words ws = fold (\<lambda>w t. trie_insert t w) ws trie_new"

definition allowed_trie :: "hsk_dataset \<Rightarrow> hsk_level \<Rightarrow> word_trie" where
  "allowed_trie hsk selected =
     trie_of_words (map he_simplified (filter (\<lambda>e. he_level e \<le> selected) (ds_entries hsk)))"

definition revision_parts :: "rstring list" where
  "revision_parts = map lit
     [''nfkc17-zero-width-opencc-script-aware-surface-v6'',
      ''jieba-hsk-headword-guard-level-surface-decomposition-v4'',
      ''longest-match-simplified-learner-reading-item-context-composed-name-pinyin-v1'',
      ''opencc-fmmseg-0.8.0-tw2sp-hk2s'', ''0.10.1'',
      ''139519822fe8ab9e10d9d07e68ea0451045380aedaf54ecc51e2a28c6b42a13f'', ''0.1.25'',
      ''177d5f08019cc8e335444fcab61aabb7f6309f158f6ebbd7525c73c0e532ec44'']"

definition control_prefix :: rstring where "control_prefix = lit ''hsk-control-sha256:''"

definition control_from_datasets ::
  "((rstring \<times> nat) list \<Rightarrow> rstring \<Rightarrow> jieba_token list) \<Rightarrow> (rstring \<Rightarrow> rstring)
   \<Rightarrow> hsk_dataset \<Rightarrow> local_dictionary \<Rightarrow> text_env \<Rightarrow> hsk_control" where
  "control_from_datasets jieba sha256_hex hsk dictionary env =
     (let freqs = word_frequencies hsk dictionary;
          cache_bytes = str_join [10]
            ([HSK_STANDARD, ds_cache_revision hsk, ld_cache_revision dictionary] @ revision_parts)
      in \<lparr>hc_hsk = hsk, hc_dictionary = dictionary, hc_env = env, hc_tokenize = jieba freqs,
          hc_full_lexicon = trie_of_words (bt_keys freqs),
          hc_allowed_tries = map (allowed_trie hsk) all_levels,
          hc_cache_revision = control_prefix @ sha256_hex cache_bytes\<rparr>)"

definition allowed_trie_of :: "hsk_control \<Rightarrow> hsk_level \<Rightarrow> word_trie" where
  "allowed_trie_of hc l = hc_allowed_tries hc ! level_index l"

section \<open>Proper names\<close>

record normalized_name =
  nn_text :: rstring
  nn_reason :: proper_name_reason

record name_match =
  nm_text :: rstring
  nm_start :: nat
  nm_end :: nat
  nm_reason :: proper_name_reason

primrec reason_rank :: "proper_name_reason \<Rightarrow> nat" where
  "reason_rank PersonName = 0"
| "reason_rank PlaceName = 1"
| "reason_rank Title = 2"
| "reason_rank UnavoidableProperNoun = 3"

text \<open>\<open>sort_by\<close> with a comparator of several keys is a stable sort by the last key first.\<close>

definition sort_names :: "normalized_name list \<Rightarrow> normalized_name list" where
  "sort_names ns =
     sort_key (\<lambda>n. - int (length (nn_text n)))
       (sort_key nn_text (sort_key (\<lambda>n. reason_rank (nn_reason n)) ns))"

definition normalize_names :: "text_env \<Rightarrow> proper_name list \<Rightarrow> normalized_name list" where
  "normalize_names env names =
     dedup_by (\<lambda>a b. nn_text a = nn_text b)
       (sort_names
         (filter (\<lambda>n. nn_text n \<noteq> [])
           (map (\<lambda>n. \<lparr>nn_text = normalize env (pn_text n), nn_reason = pn_reason n\<rparr>) names)))"

definition name_at :: "normalized_name list \<Rightarrow> rstring \<Rightarrow> normalized_name option" where
  "name_at names cs = List.find (\<lambda>n. length (nn_text n) \<le> length cs \<and> take (length (nn_text n)) cs = nn_text n) names"

text \<open>
  The scan for names from position \<open>start\<close>, with the characters from there on. Every name is
  at least one character long, so each round moves on and as much fuel as there are
  characters is enough.
\<close>

fun name_loop :: "nat \<Rightarrow> normalized_name list \<Rightarrow> nat \<Rightarrow> rstring \<Rightarrow> name_match list" where
  "name_loop 0 names start cs = []"
| "name_loop (Suc fuel) names start cs =
     (if cs = [] then []
      else (case name_at names cs of
              Some n \<Rightarrow>
                \<lparr>nm_text = nn_text n, nm_start = start, nm_end = start + length (nn_text n),
                 nm_reason = nn_reason n\<rparr>
                # name_loop fuel names (start + length (nn_text n)) (drop (length (nn_text n)) cs)
            | None \<Rightarrow> name_loop fuel names (start + 1) (tl cs)))"

definition find_name_matches :: "rstring \<Rightarrow> normalized_name list \<Rightarrow> name_match list" where
  "find_name_matches cs names = name_loop (length cs) names 0 cs"

section \<open>Guard spans\<close>

record compound_guard =
  cg_start :: nat
  cg_end :: nat
  cg_reason :: violation_reason

record guard_path =
  gp_lexical_weight :: nat
  gp_covered :: nat
  gp_guards :: "compound_guard list"

definition empty_path :: guard_path where
  "empty_path = \<lparr>gp_lexical_weight = 0, gp_covered = 0, gp_guards = []\<rparr>"

definition guard_path_is_better :: "guard_path \<Rightarrow> guard_path \<Rightarrow> bool" where
  "guard_path_is_better candidate current \<longleftrightarrow>
     gp_lexical_weight current < gp_lexical_weight candidate
     \<or> gp_lexical_weight current = gp_lexical_weight candidate
       \<and> (gp_covered current < gp_covered candidate
          \<or> gp_covered current = gp_covered candidate
            \<and> length (gp_guards candidate) < length (gp_guards current))"

definition prepend_guard :: "compound_guard \<Rightarrow> guard_path \<Rightarrow> guard_path" where
  "prepend_guard g p =
     (let len = cg_end g - cg_start g
      in \<lparr>gp_lexical_weight = gp_lexical_weight p + len * len, gp_covered = gp_covered p + len,
          gp_guards = g # gp_guards p\<rparr>)"

definition consider_guard :: "guard_path list \<Rightarrow> compound_guard \<Rightarrow> guard_path \<Rightarrow> guard_path" where
  "consider_guard best g selected =
     (let path = prepend_guard g (best ! cg_end g)
      in if guard_path_is_better path selected then path else selected)"

definition guards_starting :: "compound_guard list \<Rightarrow> nat \<Rightarrow> compound_guard list" where
  "guards_starting candidates pos =
     sort_key (\<lambda>g. (- int (cg_end g), cg_start g)) (filter (\<lambda>g. cg_start g = pos) candidates)"

definition guard_step :: "compound_guard list \<Rightarrow> nat \<Rightarrow> guard_path list \<Rightarrow> guard_path list" where
  "guard_step candidates pos best =
     best[pos := fold (consider_guard best) (guards_starting candidates pos) (best ! (pos + 1))]"

definition best_guard_table :: "compound_guard list \<Rightarrow> nat \<Rightarrow> nat \<Rightarrow> guard_path list" where
  "best_guard_table candidates gap_start gap_end =
     fold (guard_step candidates) (rev [gap_start..<gap_end]) (replicate (gap_end + 1) empty_path)"

definition best_nonoverlapping_guard_path ::
  "compound_guard list \<Rightarrow> nat \<Rightarrow> nat \<Rightarrow> compound_guard list" where
  "best_nonoverlapping_guard_path candidates gap_start gap_end =
     gp_guards (best_guard_table candidates gap_start gap_end ! gap_start)"

definition span_intersects_guard :: "nat \<Rightarrow> nat \<Rightarrow> compound_guard list \<Rightarrow> bool" where
  "span_intersects_guard start stop guards = list_ex (\<lambda>g. cg_start g < stop \<and> start < cg_end g) guards"

definition allowed_surface_decomposition :: "hsk_control \<Rightarrow> rstring \<Rightarrow> hsk_level \<Rightarrow> rstring list option" where
  "allowed_surface_decomposition hc token l =
     (if \<not> is_all_han token then None
      else (case best_decomposition (allowed_trie_of hc l) token of
              None \<Rightarrow> None
            | Some parts \<Rightarrow> if 2 \<le> length parts then Some parts else None))"

definition known_disallowed_reason :: "hsk_control \<Rightarrow> rstring \<Rightarrow> hsk_level \<Rightarrow> violation_reason option" where
  "known_disallowed_reason hc word l =
     (if is_allowed (hc_hsk hc) word l then None
      else (case level_of (hc_hsk hc) word of
              Some required \<Rightarrow>
                if required > l then Some (AboveSelectedHskLevel required)
                else if allowed_surface_decomposition hc word l \<noteq> None then None
                else if contains_word (hc_dictionary hc) word then Some KnownDictionaryWord else None
            | None \<Rightarrow>
                if allowed_surface_decomposition hc word l \<noteq> None then None
                else if contains_word (hc_dictionary hc) word then Some KnownDictionaryWord else None))"

text \<open>All spans of the gap that spell a word of the lexicon, in the order of the two loops.\<close>

definition lexicon_spans :: "hsk_control \<Rightarrow> rstring \<Rightarrow> nat \<Rightarrow> nat \<Rightarrow> (nat \<times> nat) list" where
  "lexicon_spans hc cs gap_start gap_end =
     concat (map (\<lambda>start. map (Pair start)
                    (takeWhile (\<lambda>stop. stop \<le> gap_end) (matches_from (hc_full_lexicon hc) cs start)))
               [gap_start..<gap_end])"

definition span_word :: "rstring \<Rightarrow> nat \<times> nat \<Rightarrow> rstring" where
  "span_word cs sp = char_slice cs (fst sp) (snd sp)"

definition allowed_spans :: "hsk_control \<Rightarrow> rstring \<Rightarrow> nat \<Rightarrow> nat \<Rightarrow> hsk_level \<Rightarrow> (nat \<times> nat) list" where
  "allowed_spans hc cs gap_start gap_end l =
     filter (\<lambda>sp. is_all_han (span_word cs sp) \<and> is_allowed (hc_hsk hc) (span_word cs sp) l)
       (lexicon_spans hc cs gap_start gap_end)"

definition guard_candidates :: "hsk_control \<Rightarrow> rstring \<Rightarrow> nat \<Rightarrow> nat \<Rightarrow> hsk_level \<Rightarrow> compound_guard list" where
  "guard_candidates hc cs gap_start gap_end l =
     List.map_filter (\<lambda>sp.
         if is_all_han (span_word cs sp) \<and> \<not> is_allowed (hc_hsk hc) (span_word cs sp) l
         then (case known_disallowed_reason hc (span_word cs sp) l of
                 None \<Rightarrow> None
               | Some r \<Rightarrow> Some \<lparr>cg_start = fst sp, cg_end = snd sp, cg_reason = r\<rparr>)
         else None)
       (lexicon_spans hc cs gap_start gap_end)"

definition strictly_inside :: "nat \<times> nat \<Rightarrow> compound_guard \<Rightarrow> bool" where
  "strictly_inside sp g \<longleftrightarrow> fst sp \<le> cg_start g \<and> cg_end g \<le> snd sp
     \<and> (fst sp < cg_start g \<or> cg_end g < snd sp)"

definition disallowed_spans ::
  "hsk_control \<Rightarrow> rstring \<Rightarrow> nat \<Rightarrow> nat \<Rightarrow> hsk_level \<Rightarrow> compound_guard list" where
  "disallowed_spans hc cs gap_start gap_end l =
     (let allowed = allowed_spans hc cs gap_start gap_end l;
          candidates = filter (\<lambda>g. \<not> list_ex (\<lambda>sp. strictly_inside sp g) allowed)
                         (guard_candidates hc cs gap_start gap_end l);
          sorted = sort_key (\<lambda>g. (cg_start g, - int (cg_end g))) candidates
      in best_nonoverlapping_guard_path (dedup sorted) gap_start gap_end)"

end
