(* ===== verification/Hsk_Validate.thy ===== *)
theory Hsk_Validate
  imports Hsk_Control
begin

text \<open>
  The rest of \<open>validator.rs\<close>: numeric decompositions, suggestions, the verdict on a token, the
  validation of a gap and of a text, and the dictionary lookup. Counters are natural numbers:
  the \<open>saturating_add\<close>s cannot saturate on a text that fits in memory.
\<close>

section \<open>Numbers mixed with words\<close>

type_synonym reach_table = "bool list \<times> bool list"

definition mark_word :: "nat \<Rightarrow> nat \<Rightarrow> reach_table \<Rightarrow> reach_table" where
  "mark_word start stop tab =
     ((fst tab)[stop := True], (snd tab)[stop := snd tab ! stop \<or> snd tab ! start])"

definition mark_numeric :: "text_env \<Rightarrow> rstring \<Rightarrow> nat \<Rightarrow> nat \<Rightarrow> reach_table \<Rightarrow> reach_table" where
  "mark_numeric env cs start stop tab =
     (if is_numeric_token env (char_slice cs start stop)
      then ((fst tab)[stop := True], (snd tab)[stop := True]) else tab)"

definition numeric_step :: "text_env \<Rightarrow> (nat \<Rightarrow> nat list) \<Rightarrow> rstring \<Rightarrow> nat \<Rightarrow> reach_table \<Rightarrow> reach_table" where
  "numeric_step env matches cs start tab =
     (if \<not> fst tab ! start then tab
      else fold (mark_numeric env cs start) [start + 1..<length cs + 1]
             (fold (mark_word start) (matches start) tab))"

definition numeric_table :: "text_env \<Rightarrow> (nat \<Rightarrow> nat list) \<Rightarrow> rstring \<Rightarrow> reach_table" where
  "numeric_table env matches cs =
     fold (numeric_step env matches cs) [0..<length cs]
       ((replicate (length cs + 1) False)[0 := True], replicate (length cs + 1) False)"

definition numeric_allowed_decomposition :: "hsk_control \<Rightarrow> rstring \<Rightarrow> hsk_level \<Rightarrow> bool" where
  "numeric_allowed_decomposition hc token l =
     (if length token < 2 then False
      else let tab = numeric_table (hc_env hc) (matches_from (allowed_trie_of hc l) token) token
           in fst tab ! length token \<and> snd tab ! length token)"

section \<open>Suggestions\<close>

record scored_suggestion =
  sg_word :: rstring
  sg_exact :: bool
  sg_overlap :: nat
  sg_level :: hsk_level
  sg_frequency_rank :: u32

text \<open>\<open>ScoredSuggestion::compare\<close>: exact first, then the larger overlap, the lower level, the
  lower rank and the smaller word; the five keys are one lexicographic key.\<close>

definition suggestion_key :: "scored_suggestion \<Rightarrow> nat \<times> int \<times> hsk_level \<times> u32 \<times> rstring" where
  "suggestion_key s = (if sg_exact s then 0 else 1, - int (sg_overlap s), sg_level s, sg_frequency_rank s, sg_word s)"

definition push_unique :: "rstring \<Rightarrow> rstring list \<Rightarrow> rstring list" where
  "push_unique v vs = (if v \<in> set vs then vs else vs @ [v])"

definition stop_words :: "rstring list" where
  "stop_words = map lit [''a'', ''an'', ''and'', ''be'', ''for'', ''in'', ''of'', ''on'', ''or'', ''the'', ''to'']"

definition gloss_terms :: "text_env \<Rightarrow> rstring list \<Rightarrow> rstring list" where
  "gloss_terms env glosses =
     bs_collect (filter (\<lambda>t. str_len t > 1 \<and> t \<notin> set stop_words)
       (concat (map (\<lambda>g. map (map to_ascii_lowercase) (str_split (\<lambda>c. \<not> env_alphanumeric env c) g)) glosses)))"

definition glosses_for :: "hsk_control \<Rightarrow> rstring \<Rightarrow> rstring list" where
  "glosses_for hc w =
     bs_collect
       ((case hsk_lookup (hc_hsk hc) w of None \<Rightarrow> [] | Some e \<Rightarrow> map (map to_ascii_lowercase) (he_glosses e))
        @ concat (map (\<lambda>e. map (map to_ascii_lowercase) (de_definitions e)) (entries_for (hc_dictionary hc) w)))"

definition score_entry ::
  "text_env \<Rightarrow> rstring list \<Rightarrow> rstring list \<Rightarrow> hsk_entry \<Rightarrow> scored_suggestion option" where
  "score_entry env source_glosses source_terms e =
     (let candidate_terms = gloss_terms env (he_glosses e);
          overlap = length (filter (\<lambda>t. t \<in> set candidate_terms) source_terms);
          exact = list_ex (\<lambda>g. g \<in> set source_glosses) (he_glosses e)
      in if overlap > 0 \<or> exact
         then Some \<lparr>sg_word = he_simplified e, sg_exact = exact, sg_overlap = overlap, sg_level = he_level e,
                    sg_frequency_rank = (case he_frequency_rank e of None \<Rightarrow> - 1 | Some r \<Rightarrow> r)\<rparr>
         else None)"

text \<open>\<open>push_unique\<close>, then leave the loop once there are three.\<close>

fun push_scored :: "scored_suggestion list \<Rightarrow> rstring list \<Rightarrow> rstring list" where
  "push_scored [] acc = acc"
| "push_scored (s # ss) acc =
     (let acc' = push_unique (sg_word s) acc
      in if length acc' = 3 then acc' else push_scored ss acc')"

definition simpler_allowed :: "hsk_control \<Rightarrow> rstring \<Rightarrow> hsk_level \<Rightarrow> rstring list" where
  "simpler_allowed hc w l =
     (case hsk_lookup (hc_hsk hc) w of None \<Rightarrow> []
      | Some e \<Rightarrow> filter (\<lambda>c. is_allowed (hc_hsk hc) c l) (he_simpler_words e))"

definition suggestion_parts :: "hsk_control \<Rightarrow> rstring \<Rightarrow> hsk_level \<Rightarrow> rstring list" where
  "suggestion_parts hc w l =
     (case best_decomposition (allowed_trie_of hc l) w of None \<Rightarrow> []
      | Some parts \<Rightarrow> if 2 \<le> length parts then parts else [])"

definition scored_suggestions :: "hsk_control \<Rightarrow> rstring \<Rightarrow> hsk_level \<Rightarrow> scored_suggestion list" where
  "scored_suggestions hc w l =
     (let source_glosses = glosses_for hc w
      in sort_key suggestion_key
           (List.map_filter (score_entry (hc_env hc) source_glosses (gloss_terms (hc_env hc) source_glosses))
             (filter (\<lambda>e. he_level e \<le> l \<and> he_simplified e \<noteq> w) (ds_entries (hc_hsk hc)))))"

definition suggested_words :: "hsk_control \<Rightarrow> rstring \<Rightarrow> hsk_level \<Rightarrow> rstring list" where
  "suggested_words hc w l =
     take 3 (push_scored (scored_suggestions hc w l)
       (fold push_unique (suggestion_parts hc w l) (fold push_unique (simpler_allowed hc w l) [])))"

section \<open>Validation\<close>

definition make_violation ::
  "hsk_control \<Rightarrow> rstring \<Rightarrow> nat \<Rightarrow> nat \<Rightarrow> violation_reason \<Rightarrow> hsk_level \<Rightarrow> hsk_violation" where
  "make_violation hc cs start stop reason l =
     \<lparr>vi_text = char_slice cs start stop, vi_start = start, vi_end = stop, vi_reason = reason,
      vi_suggested_words = suggested_words hc (char_slice cs start stop) l\<rparr>"

text \<open>What becomes of a token outside the guards: it is skipped, counted or a violation.\<close>

datatype token_verdict = Skipped | Counted nat | Violates violation_reason

definition verdict :: "hsk_control \<Rightarrow> hsk_level \<Rightarrow> rstring \<Rightarrow> token_verdict" where
  "verdict hc l token =
     (if is_ignorable_token (hc_env hc) token \<or> is_numeric_token (hc_env hc) token
         \<or> numeric_allowed_decomposition hc token l
      then Skipped
      else if is_allowed (hc_hsk hc) token l then Counted 1
      else
        let otherwise =
          (case allowed_surface_decomposition hc token l of
             Some parts \<Rightarrow> Counted (length parts)
           | None \<Rightarrow>
               if contains_word (hc_dictionary hc) token then Violates KnownDictionaryWord
               else if is_all_han token then Violates UnknownChineseWord
               else Violates NonChineseLexicalToken)
        in case level_of (hc_hsk hc) token of
             Some required \<Rightarrow>
               if required > l then Violates (AboveSelectedHskLevel required) else otherwise
           | None \<Rightarrow> otherwise)"

type_synonym gap_state = "hsk_violation list \<times> nat"

definition validate_token ::
  "hsk_control \<Rightarrow> rstring \<Rightarrow> hsk_level \<Rightarrow> compound_guard list \<Rightarrow> jieba_token \<Rightarrow> gap_state \<Rightarrow> gap_state" where
  "validate_token hc cs l guards tok st =
     (case tok of (text, start, stop) \<Rightarrow>
        if span_intersects_guard start stop guards then (fst st, snd st + 1)
        else (case verdict hc l text of
                Skipped \<Rightarrow> st
              | Counted n \<Rightarrow> (fst st, snd st + n)
              | Violates r \<Rightarrow> (fst st @ [make_violation hc cs start stop r l], snd st + 1)))"

definition gap_tokens :: "hsk_control \<Rightarrow> rstring \<Rightarrow> nat \<Rightarrow> nat \<Rightarrow> jieba_token list" where
  "gap_tokens hc cs start stop =
     map (\<lambda>(text, s, e). (text, start + s, start + e)) (hc_tokenize hc (char_slice cs start stop))"

definition validate_gap ::
  "hsk_control \<Rightarrow> rstring \<Rightarrow> hsk_level \<Rightarrow> nat \<times> nat \<Rightarrow> gap_state \<Rightarrow> gap_state" where
  "validate_gap hc cs l gap st =
     (case gap of (start, stop) \<Rightarrow>
        if stop \<le> start \<or> gap_tokens hc cs start stop = [] then st
        else
          let guards = disallowed_spans hc cs start stop l
          in fold (validate_token hc cs l guards) (gap_tokens hc cs start stop)
               (fst st @ map (\<lambda>g. make_violation hc cs (cg_start g) (cg_end g) (cg_reason g) l) guards, snd st))"

text \<open>The gaps between the names, in the order of the loop.\<close>

fun gaps_from :: "nat \<Rightarrow> name_match list \<Rightarrow> nat \<Rightarrow> (nat \<times> nat) list" where
  "gaps_from cursor [] len = [(cursor, len)]"
| "gaps_from cursor (n # ns) len = (cursor, nm_start n) # gaps_from (nm_end n) ns len"

definition violation_key :: "hsk_violation \<Rightarrow> nat \<times> int \<times> rstring" where
  "violation_key v = (vi_start v, - int (vi_end v), vi_text v)"

definition same_violation :: "hsk_violation \<Rightarrow> hsk_violation \<Rightarrow> bool" where
  "same_violation a b \<longleftrightarrow> vi_start a = vi_start b \<and> vi_end a = vi_end b \<and> vi_reason a = vi_reason b"

definition exception_of :: "name_match \<Rightarrow> hsk_exception" where
  "exception_of n = \<lparr>ex_text = nm_text n, ex_start = nm_start n, ex_end = nm_end n, ex_reason = nm_reason n\<rparr>"

definition validate_text :: "hsk_control \<Rightarrow> rstring \<Rightarrow> hsk_level \<Rightarrow> proper_name list \<Rightarrow> validation_report" where
  "validate_text hc text l proper_names =
     (let cs = normalize (hc_env hc) text;
          matches = find_name_matches cs (normalize_names (hc_env hc) proper_names);
          (found, count) = fold (validate_gap hc cs l) (gaps_from 0 matches (length cs)) ([], 0);
          violations = dedup_by same_violation (sort_key violation_key found)
      in \<lparr>vr_normalized_text = cs, vr_requested_level = l, vr_strictly_valid = (violations = []),
          vr_lexical_token_count = count, vr_above_level_token_count = min (length violations) count,
          vr_violations = violations, vr_exceptions = map exception_of matches,
          vr_cache_revision = hc_cache_revision hc\<rparr>)"

section \<open>Lookup\<close>

definition proper_name_note :: rstring where
  "proper_name_note = lit ''Proper name '' @ [0xB7] @ lit '' outside HSK list''"

definition component_pinyin :: "hsk_control \<Rightarrow> rstring \<Rightarrow> rstring" where
  "component_pinyin hc w = (case hsk_lookup (hc_hsk hc) w of
     Some e \<Rightarrow> he_pinyin e | None \<Rightarrow> fst (merged_fields (hc_env hc) (hc_dictionary hc) w))"

text \<open>The end of the component at the head of \<open>cs\<close>: the longest lexicon word, or one character.\<close>

definition component_length :: "hsk_control \<Rightarrow> rstring \<Rightarrow> nat" where
  "component_length hc cs = (case longest_match (hc_full_lexicon hc) cs 0 of Some n \<Rightarrow> n | None \<Rightarrow> 1)"

fun composed_parts :: "nat \<Rightarrow> hsk_control \<Rightarrow> rstring \<Rightarrow> rstring list option" where
  "composed_parts 0 hc cs = Some []"
| "composed_parts (Suc fuel) hc cs =
     (if cs = [] then Some []
      else let n = component_length hc cs; p = component_pinyin hc (take n cs)
           in if blank p then None else map_option ((#) p) (composed_parts fuel hc (drop n cs)))"

definition composed_pinyin :: "hsk_control \<Rightarrow> rstring \<Rightarrow> rstring" where
  "composed_pinyin hc w = (case composed_parts (length w) hc w of None \<Rightarrow> [] | Some ps \<Rightarrow> str_join [32] ps)"

definition lookup_word :: "hsk_control \<Rightarrow> rstring \<Rightarrow> bool \<Rightarrow> lookup_token" where
  "lookup_word hc w proper =
     (let fields = merged_fields (hc_env hc) (hc_dictionary hc) w;
          (pinyin, defs) =
            (case hsk_lookup (hc_hsk hc) w of
               None \<Rightarrow> fields
             | Some e \<Rightarrow> (he_pinyin e, bs_collect (snd fields @ he_glosses e)))
      in \<lparr>lt_simplified = w,
          lt_pinyin = (if proper \<and> pinyin = [] then composed_pinyin hc w else pinyin),
          lt_definitions = (if proper \<and> defs = [] then [proper_name_note] else defs),
          lt_hsk_level = level_of (hc_hsk hc) w, lt_proper_name = proper\<rparr>)"

definition match_end :: "hsk_control \<Rightarrow> rstring \<Rightarrow> nat \<Rightarrow> nat" where
  "match_end hc cs start =
     (case longest_match (hc_full_lexicon hc) cs start of
        Some e \<Rightarrow> e
      | None \<Rightarrow> (case dictionary_longest_match (hc_dictionary hc) cs start of
                   Some e \<Rightarrow> e | None \<Rightarrow> start + 1))"

definition name_starting :: "name_match list \<Rightarrow> nat \<Rightarrow> name_match option" where
  "name_starting ns start = List.find (\<lambda>n. nm_start n = start) ns"

fun lookup_loop :: "nat \<Rightarrow> hsk_control \<Rightarrow> name_match list \<Rightarrow> rstring \<Rightarrow> nat \<Rightarrow> lookup_token list" where
  "lookup_loop 0 hc names cs start = []"
| "lookup_loop (Suc fuel) hc names cs start =
     (if length cs \<le> start then []
      else (case name_starting names start of
              Some n \<Rightarrow> lookup_word hc (nm_text n) True # lookup_loop fuel hc names cs (nm_end n)
            | None \<Rightarrow>
                if is_ignorable_token (hc_env hc) [cs ! start]
                then lookup_loop fuel hc names cs (start + 1)
                else let e = match_end hc cs start
                     in lookup_word hc (char_slice cs start e) False # lookup_loop fuel hc names cs e))"

definition lookup_with_item_context ::
  "hsk_control \<Rightarrow> rstring \<Rightarrow> proper_name list \<Rightarrow> lookup_item_context option \<Rightarrow> lookup_result" where
  "lookup_with_item_context hc selected proper_names item =
     (let cs = normalize (hc_env hc) selected;
          matches = find_name_matches cs (normalize_names (hc_env hc) proper_names)
      in \<lparr>lr_selected_text = cs, lr_tokens = lookup_loop (length cs) hc matches cs 0, lr_item = item\<rparr>)"

definition lookup_at_with_item_context ::
  "hsk_control \<Rightarrow> rstring \<Rightarrow> nat \<Rightarrow> proper_name list \<Rightarrow> lookup_item_context option \<Rightarrow> lookup_result option" where
  "lookup_at_with_item_context hc displayed offset proper_names item =
     (if length displayed \<le> offset \<or> is_ignorable_token (hc_env hc) [displayed ! offset] then None
      else let result = lookup_with_item_context hc (drop offset displayed) proper_names item
           in case lr_tokens result of
                [] \<Rightarrow> None
              | t # _ \<Rightarrow> Some (result\<lparr>lr_selected_text := lt_simplified t, lr_tokens := [t]\<rparr>))"

end
