(* ===== verification/Hsk_Guards.thy ===== *)
theory Hsk_Guards
  imports Hsk_Validate
begin

text \<open>
  The choice of guard spans is optimal: among all sequences of candidates that follow one
  another without overlap, the dynamic program returns one with the greatest sum of squared
  lengths, then the most covered characters, then the fewest spans.
\<close>

section \<open>Paths and their rank\<close>

definition path_key :: "guard_path \<Rightarrow> nat \<times> nat \<times> int" where
  "path_key p = (gp_lexical_weight p, gp_covered p, - int (length (gp_guards p)))"

definition path_of :: "compound_guard list \<Rightarrow> guard_path" where
  "path_of gs = foldr prepend_guard gs empty_path"

fun guard_chain :: "nat \<Rightarrow> nat \<Rightarrow> compound_guard list \<Rightarrow> bool" where
  "guard_chain pos stop [] = True"
| "guard_chain pos stop (g # gs) =
     (pos \<le> cg_start g \<and> cg_start g < cg_end g \<and> cg_end g \<le> stop \<and> guard_chain (cg_end g) stop gs)"

lemma better_iff: "guard_path_is_better c p \<longleftrightarrow> path_key p < path_key c"
  by (auto simp: guard_path_is_better_def path_key_def less_prod_def)

lemma path_key_prepend: "path_key p \<le> path_key q \<Longrightarrow> path_key (prepend_guard g p) \<le> path_key (prepend_guard g q)"
  by (auto simp: path_key_def prepend_guard_def Let_def less_eq_prod_def)

lemma path_of_simps [simp]:
  "path_of [] = empty_path" "path_of (g # gs) = prepend_guard g (path_of gs)"
  by (simp_all add: path_of_def)

lemma gp_guards_simps [simp]:
  "gp_guards empty_path = []" "gp_guards (prepend_guard g p) = g # gp_guards p"
  by (simp_all add: empty_path_def prepend_guard_def Let_def)

lemma gp_guards_path_of [simp]: "gp_guards (path_of gs) = gs"
  by (induction gs) simp_all

lemma guard_chain_weaken: "guard_chain pos stop gs \<Longrightarrow> pos' \<le> pos \<Longrightarrow> guard_chain pos' stop gs"
  by (cases gs) auto

lemma guard_chain_bounds:
  "guard_chain pos stop gs \<Longrightarrow> g \<in> set gs \<Longrightarrow> pos \<le> cg_start g \<and> cg_start g < cg_end g \<and> cg_end g \<le> stop"
  by (induction gs arbitrary: pos) fastforce+

section \<open>The dynamic program\<close>

definition candidates_in :: "nat \<Rightarrow> nat \<Rightarrow> compound_guard list \<Rightarrow> bool" where
  "candidates_in gap_start gap_end cands \<longleftrightarrow>
     list_all (\<lambda>g. gap_start \<le> cg_start g \<and> cg_start g < cg_end g \<and> cg_end g \<le> gap_end) cands"

definition best_path_at :: "compound_guard list \<Rightarrow> nat \<Rightarrow> nat \<Rightarrow> guard_path \<Rightarrow> bool" where
  "best_path_at cands gap_end pos p \<longleftrightarrow>
     (\<exists>gs. p = path_of gs \<and> guard_chain pos gap_end gs \<and> set gs \<subseteq> set cands)
     \<and> (\<forall>hs. guard_chain pos gap_end hs \<longrightarrow> set hs \<subseteq> set cands \<longrightarrow> path_key (path_of hs) \<le> path_key p)"

lemma consider_fold:
  "fold (consider_guard best) gs sel = r \<Longrightarrow>
     (r = sel \<or> (\<exists>g \<in> set gs. r = prepend_guard g (best ! cg_end g)))
     \<and> path_key sel \<le> path_key r
     \<and> (\<forall>g \<in> set gs. path_key (prepend_guard g (best ! cg_end g)) \<le> path_key r)"
proof (induction gs arbitrary: sel)
  case (Cons g gs)
  let ?sel = "consider_guard best g sel"
  from Cons.prems have "fold (consider_guard best) gs ?sel = r" by simp
  note ih = Cons.IH [OF this]
  have "path_key sel \<le> path_key ?sel" "path_key (prepend_guard g (best ! cg_end g)) \<le> path_key ?sel"
    "?sel = sel \<or> ?sel = prepend_guard g (best ! cg_end g)"
    by (auto simp: consider_guard_def better_iff Let_def)
  with ih show ?case by auto
qed simp

lemma guard_step_best:
  assumes wf: "candidates_in gap_start gap_end cands"
    and len: "length best = gap_end + 1" and pos: "pos < gap_end"
    and inv: "\<And>q. pos < q \<Longrightarrow> q \<le> gap_end \<Longrightarrow> best_path_at cands gap_end q (best ! q)"
  shows "best_path_at cands gap_end pos (guard_step cands pos best ! pos)"
proof -
  let ?gs = "guards_starting cands pos"
  define r where "r = guard_step cands pos best ! pos"
  have set_gs: "set ?gs = {g \<in> set cands. cg_start g = pos}"
    by (auto simp: guards_starting_def)
  have gs_end: "pos < cg_end g \<and> cg_end g \<le> gap_end" if "g \<in> set ?gs" for g
    using that wf by (auto simp: set_gs candidates_in_def list_all_iff)
  have "fold (consider_guard best) ?gs (best ! (pos + 1)) = r"
    using len pos by (simp add: r_def guard_step_def)
  note c = consider_fold [OF this]
  have skip: "best_path_at cands gap_end (pos + 1) (best ! (pos + 1))"
    using inv [of "pos + 1"] pos by simp
  have "\<exists>gs. r = path_of gs \<and> guard_chain pos gap_end gs \<and> set gs \<subseteq> set cands"
  proof (cases "r = best ! (pos + 1)")
    case True
    then show ?thesis using skip guard_chain_weaken [of "pos + 1" gap_end _ pos]
      unfolding best_path_at_def by auto
  next
    case False
    then obtain g where g: "g \<in> set ?gs" "r = prepend_guard g (best ! cg_end g)"
      using c by blast
    from inv [of "cg_end g"] gs_end [OF g(1)] obtain gs where
      gs: "best ! cg_end g = path_of gs" "guard_chain (cg_end g) gap_end gs" "set gs \<subseteq> set cands"
      unfolding best_path_at_def by auto
    then have "r = path_of (g # gs)" "guard_chain pos gap_end (g # gs)" "set (g # gs) \<subseteq> set cands"
      using g gs_end [OF g(1)] by (auto simp: set_gs)
    then show ?thesis by blast
  qed
  moreover have "path_key (path_of hs) \<le> path_key r"
    if hs: "guard_chain pos gap_end hs" "set hs \<subseteq> set cands" for hs
  proof (cases "\<exists>g gs. hs = g # gs \<and> cg_start g = pos")
    case False
    then have "guard_chain (pos + 1) gap_end hs"
      using hs(1) by (cases hs) auto
    then have "path_key (path_of hs) \<le> path_key (best ! (pos + 1))"
      using skip hs(2) unfolding best_path_at_def by blast
    with c show ?thesis by (meson order_trans)
  next
    case True
    then obtain g gs where g: "hs = g # gs" "cg_start g = pos" by blast
    then have in_gs: "g \<in> set ?gs" using hs(2) by (simp add: set_gs)
    have "path_key (path_of gs) \<le> path_key (best ! cg_end g)"
      using inv [of "cg_end g"] gs_end [OF in_gs] hs g unfolding best_path_at_def by auto
    then have "path_key (path_of hs) \<le> path_key (prepend_guard g (best ! cg_end g))"
      by (simp add: g(1) path_key_prepend)
    with c in_gs show ?thesis by (meson order_trans)
  qed
  ultimately show ?thesis unfolding best_path_at_def r_def by blast
qed

lemma guard_step_other: "q \<noteq> pos \<Longrightarrow> guard_step cands pos best ! q = best ! q"
  by (simp add: guard_step_def)

lemma guard_table_best:
  assumes wf: "candidates_in gap_start gap_end cands" and le: "gap_start \<le> gap_end"
  shows "best_path_at cands gap_end gap_start (best_guard_table cands gap_start gap_end ! gap_start)"
proof -
  define tab where "tab k = fold (guard_step cands) (rev [k..<gap_end]) (replicate (gap_end + 1) empty_path)" for k
  have "length (fold (guard_step cands) ks t) = length t" for ks t
    by (induction ks arbitrary: t) (simp_all add: guard_step_def)
  then have len: "length (tab k) = gap_end + 1" for k by (simp add: tab_def)
  have step: "tab k = guard_step cands k (tab (Suc k))" if "k < gap_end" for k
    using that by (simp add: tab_def upt_conv_Cons)
  have "\<forall>q. k \<le> q \<longrightarrow> q \<le> gap_end \<longrightarrow> best_path_at cands gap_end q (tab k ! q)" if "k \<le> gap_end" for k
    using that
  proof (induction rule: inc_induct)
    case base
    have no: "hs = []" if "guard_chain gap_end gap_end hs" for hs
      using that by (cases hs) auto
    have e: "tab gap_end ! gap_end = path_of []"
      by (simp add: tab_def nth_replicate del: replicate_Suc)
    have "best_path_at cands gap_end gap_end (path_of [])"
      unfolding best_path_at_def using no by (intro conjI exI [of _ "[]"] allI impI) fastforce+
    then show ?case using e by (metis antisym)
  next
    case (step k)
    have "best_path_at cands gap_end q (tab k ! q)" if "k \<le> q" "q \<le> gap_end" for q
    proof (cases "q = k")
      case True
      have "best_path_at cands gap_end k (guard_step cands k (tab (Suc k)) ! k)"
        using step.IH step.hyps by (intro guard_step_best [OF wf len]) auto
      with True step.hyps show ?thesis by (simp add: \<open>\<And>k. k < gap_end \<Longrightarrow> tab k = _\<close>)
    next
      case False
      with that step show ?thesis
        by (simp add: \<open>\<And>k. k < gap_end \<Longrightarrow> tab k = _\<close> guard_step_other)
    qed
    then show ?case by blast
  qed
  from this [OF le] le show ?thesis by (simp add: best_guard_table_def tab_def)
qed

lemma nonoverlapping_best:
  assumes "candidates_in gap_start gap_end cands" "gap_start \<le> gap_end"
  shows "guard_chain gap_start gap_end (best_nonoverlapping_guard_path cands gap_start gap_end)
     \<and> set (best_nonoverlapping_guard_path cands gap_start gap_end) \<subseteq> set cands
     \<and> (\<forall>hs. guard_chain gap_start gap_end hs \<longrightarrow> set hs \<subseteq> set cands \<longrightarrow>
          \<not> guard_path_is_better (path_of hs) (path_of (best_nonoverlapping_guard_path cands gap_start gap_end)))"
proof -
  obtain gs where "best_guard_table cands gap_start gap_end ! gap_start = path_of gs"
      "guard_chain gap_start gap_end gs" "set gs \<subseteq> set cands"
    using guard_table_best [OF assms] unfolding best_path_at_def by blast
  moreover from this have "\<forall>hs. guard_chain gap_start gap_end hs \<longrightarrow> set hs \<subseteq> set cands \<longrightarrow>
      path_key (path_of hs) \<le> path_key (path_of gs)"
    using guard_table_best [OF assms] unfolding best_path_at_def by simp
  ultimately show ?thesis
    by (simp add: best_nonoverlapping_guard_path_def better_iff not_less)
qed

text \<open>A guard is chosen exactly when there is a candidate.\<close>

lemma nonoverlapping_empty:
  assumes "candidates_in gap_start gap_end cands" "gap_start \<le> gap_end"
  shows "best_nonoverlapping_guard_path cands gap_start gap_end = [] \<longleftrightarrow> cands = []"
proof (cases cands)
  case Nil
  then show ?thesis using nonoverlapping_best [OF assms] by simp
next
  case (Cons g gs)
  have g: "guard_chain gap_start gap_end [g]" "set [g] \<subseteq> set cands"
    using assms(1) Cons by (auto simp: candidates_in_def)
  have "guard_path_is_better (path_of [g]) (path_of [])"
    using g by (simp add: guard_path_is_better_def prepend_guard_def empty_path_def Let_def)
  then show ?thesis
    using nonoverlapping_best [OF assms] g Cons by (metis list.distinct(1))
qed

end
