(* ===== verification/Hsk_Control_Laws.thy ===== *)
theory Hsk_Control_Laws
  imports Hsk_Guards
begin

text \<open>
  What a constructed engine satisfies: the lexicon trie holds exactly the words of the two
  datasets, the trie of a level exactly the words allowed at it; and what follows for guard
  spans, decompositions and suggestions.
\<close>

section \<open>Construction\<close>

text \<open>\<open>from_json_with_policy\<close> after the two artifacts are deserialized.\<close>

definition control_from_artifacts ::
  "((rstring \<times> nat) list \<Rightarrow> rstring \<Rightarrow> jieba_token list) \<Rightarrow> (rstring \<Rightarrow> rstring)
   \<Rightarrow> hsk_digest \<Rightarrow> dictionary_digest \<Rightarrow> text_env \<Rightarrow> hsk_artifact \<Rightarrow> dictionary_artifact \<Rightarrow> load_policy
   \<Rightarrow> hsk_error + hsk_control" where
  "control_from_artifacts jieba sha256_hex hsk_digest dictionary_digest env hsk_art dict_art policy =
     try_bind (dataset_from_artifact env hsk_digest hsk_art policy) (\<lambda>hsk.
     try_bind (dictionary_from_artifact dictionary_digest dict_art policy) (\<lambda>dictionary.
       Ok (control_from_datasets jieba sha256_hex hsk dictionary env)))"

definition hsk_words :: "hsk_control \<Rightarrow> rstring set" where
  "hsk_words hc = he_simplified ` set (ds_entries (hc_hsk hc))"

definition dict_words :: "hsk_control \<Rightarrow> rstring set" where
  "dict_words hc = de_simplified ` set (ld_entries (hc_dictionary hc))"

definition engine_ok :: "hsk_control \<Rightarrow> bool" where
  "engine_ok hc \<longleftrightarrow> dataset_ok (hc_hsk hc) \<and> entries_legal (ds_entries (hc_hsk hc))
     \<and> dictionary_ok (hc_dictionary hc)
     \<and> hc_full_lexicon hc = trie_of_words (bt_keys (word_frequencies (hc_hsk hc) (hc_dictionary hc)))
     \<and> hc_allowed_tries hc = map (allowed_trie (hc_hsk hc)) all_levels"

lemma engine_parts:
  assumes "engine_ok hc"
  shows "dataset_ok (hc_hsk hc)" "entries_legal (ds_entries (hc_hsk hc))" "dictionary_ok (hc_dictionary hc)"
  using assms by (simp_all add: engine_ok_def)

lemma entries_legal_sort: "entries_legal (sort_key f es) \<longleftrightarrow> entries_legal es"
  by (simp add: entries_legal_def list_all_iff)

lemma loaded_engine_ok:
  assumes "control_from_artifacts jieba sha d1 d2 env art dart policy = Inr hc"
    and "entries_legal (ha_entries art)"
  shows "engine_ok hc"
proof -
  obtain hsk dict where l: "dataset_from_artifact env d1 art policy = Inr hsk"
      "dictionary_from_artifact d2 dart policy = Inr dict"
      and hc: "hc = control_from_datasets jieba sha hsk dict env"
    using assms(1) by (auto simp: control_from_artifacts_def)
  have "entries_legal (ds_entries hsk)"
    using loaded_dataset_ok(2) [OF l(1)] assms(2) by (simp only: entries_legal_sort)
  then show ?thesis
    using loaded_dataset_ok(1) [OF l(1)] loaded_dictionary_ok [OF l(2)]
    by (simp add: hc engine_ok_def control_from_datasets_def Let_def)
qed

section \<open>The tries\<close>

lemma keys_fold_dictionary:
  "set (bt_keys (fold (\<lambda>w m. bt_insert m w v) ws m)) = set ws \<union> set (bt_keys m)"
  by (induction ws arbitrary: m) auto

lemma keys_fold_entries:
  "set (bt_keys (fold add_frequency es m)) = he_simplified ` set es \<union> set (bt_keys m)"
  by (induction es arbitrary: m) (auto simp: add_frequency_def)

lemma set_dictionary_words: "dictionary_ok d \<Longrightarrow> set (dictionary_words d) = de_simplified ` set (ld_entries d)"
proof -
  assume ok: "dictionary_ok d"
  have "w \<in> set (dictionary_words d) \<longleftrightarrow> bt_get (ld_by_word d) w \<noteq> None" for w
    by (simp add: dictionary_words_def bt_get_None_iff)
  then show ?thesis using ok by (auto simp: dictionary_ok_def split: if_splits)
qed

lemma trie_of_words_ok [simp]: "trie_ok (trie_of_words ws)"
  unfolding trie_of_words_def by (rule trie.ok_fold) simp

lemma trie_of_words_contains [simp]: "trie_contains (trie_of_words ws) w \<longleftrightarrow> w \<in> set ws \<and> w \<noteq> []"
  unfolding trie_of_words_def by (rule trie.contains_fold)

lemma lexicon_ok: "engine_ok hc \<Longrightarrow> trie_ok (hc_full_lexicon hc)"
  by (simp add: engine_ok_def)

lemma lexicon_contains:
  assumes "engine_ok hc"
  shows "trie_contains (hc_full_lexicon hc) w \<longleftrightarrow> w \<noteq> [] \<and> (w \<in> hsk_words hc \<or> w \<in> dict_words hc)"
  using assms set_dictionary_words [OF engine_parts(3) [OF assms]]
  by (auto simp: engine_ok_def word_frequencies_def keys_fold_dictionary keys_fold_entries hsk_words_def
      dict_words_def bt_keys_def [of "[]"])

lemma all_levels_nth: "level_ok l \<Longrightarrow> all_levels ! level_index l = l"
  using level_ok_cases [of l] by (auto simp: all_levels_def level_index_def)

lemma allowed_trie_of_eq:
  assumes "engine_ok hc" "level_ok l"
  shows "allowed_trie_of hc l = allowed_trie (hc_hsk hc) l"
proof -
  have "hc_allowed_tries hc = map (allowed_trie (hc_hsk hc)) all_levels" "length all_levels = 6"
    using assms(1) by (simp_all add: engine_ok_def all_levels_def)
  then show ?thesis
    using level_index_less [OF assms(2)] all_levels_nth [OF assms(2)] by (simp add: allowed_trie_of_def)
qed

lemma allowed_trie_ok: "engine_ok hc \<Longrightarrow> level_ok l \<Longrightarrow> trie_ok (allowed_trie_of hc l)"
  by (simp add: allowed_trie_of_eq allowed_trie_def)

lemma is_allowed_engine:
  "engine_ok hc \<Longrightarrow> level_ok l \<Longrightarrow>
    is_allowed (hc_hsk hc) w l \<longleftrightarrow> (\<exists>e \<in> set (ds_entries (hc_hsk hc)). he_simplified e = w \<and> he_level e \<le> l)"
  using is_allowed_iff engine_parts by blast

lemma allowed_trie_contains:
  "engine_ok hc \<Longrightarrow> level_ok l \<Longrightarrow>
    trie_contains (allowed_trie_of hc l) w \<longleftrightarrow> w \<noteq> [] \<and> is_allowed (hc_hsk hc) w l"
  by (auto simp: allowed_trie_of_eq allowed_trie_def is_allowed_engine)

lemma level_of_engine:
  assumes "engine_ok hc"
  shows "level_of (hc_hsk hc) w = Some r \<longleftrightarrow> (\<exists>e \<in> set (ds_entries (hc_hsk hc)). he_simplified e = w \<and> he_level e = r)"
  using hsk_lookup_Some [OF engine_parts(1) [OF assms], of w] by (auto simp: level_of_def)

text \<open>A headword is allowed at a level exactly when its own level is no higher.\<close>

lemma is_allowed_level_of:
  assumes "engine_ok hc" "level_ok l"
  shows "is_allowed (hc_hsk hc) w l \<longleftrightarrow> (\<exists>r. level_of (hc_hsk hc) w = Some r \<and> r \<le> l)"
  using is_allowed_engine [OF assms] level_of_engine [OF assms(1)] by auto

section \<open>Decompositions\<close>

lemma best_decomposition_best:
  assumes "trie_ok t" "cs \<noteq> []"
  shows "(case best_decomposition t cs of
      None \<Rightarrow> \<nexists>ws. concat ws = cs \<and> (\<forall>w \<in> set ws. trie_contains t w)
    | Some ws \<Rightarrow> concat ws = cs \<and> (\<forall>w \<in> set ws. trie_contains t w)
        \<and> (\<forall>vs. concat vs = cs \<longrightarrow> (\<forall>w \<in> set vs. trie_contains t w)
             \<longrightarrow> length ws < length vs \<or> length ws = length vs \<and> ws \<le> vs))"
proof -
  have best: "best_of (trie.breaks t cs) (best_decomposition t cs)"
    using trie.break_paths_best [OF assms(1), of cs] assms(2) by (simp add: best_decomposition_def)
  show ?thesis
  proof (cases "best_decomposition t cs")
    case None
    with best show ?thesis by (auto simp: best_of_def trie.breaks_def)
  next
    case (Some ws)
    have "length ws < length vs \<or> length ws = length vs \<and> ws \<le> vs"
      if "concat vs = cs" "\<forall>w \<in> set vs. trie_contains t w" for vs
    proof -
      have "vs \<in> trie.breaks t cs" using that by (simp add: trie.breaks_def)
      then have "\<not> better_break vs ws" using best Some by (simp add: best_of_def)
      then show ?thesis by (auto simp: better_break_def)
    qed
    moreover have "ws \<in> trie.breaks t cs" using best Some by (simp add: best_of_def)
    ultimately show ?thesis using Some by (simp add: trie.breaks_def)
  qed
qed

lemma surface_decomposition_parts:
  assumes "engine_ok hc" "level_ok l" "allowed_surface_decomposition hc w l = Some parts"
  shows "concat parts = w \<and> 2 \<le> length parts \<and> (\<forall>p \<in> set parts. is_allowed (hc_hsk hc) p l)"
proof -
  have p: "best_decomposition (allowed_trie_of hc l) w = Some parts" "2 \<le> length parts" "is_all_han w"
    using assms(3) by (auto simp: allowed_surface_decomposition_def split: if_splits option.splits)
  then have "w \<noteq> []" by (simp add: is_all_han_def)
  from best_decomposition_best [OF allowed_trie_ok [OF assms(1,2)] this] p show ?thesis
    by (simp add: allowed_trie_contains [OF assms(1,2)])
qed

section \<open>Guard spans\<close>

lemma takeWhile_sorted: "sorted_wrt (<) xs \<Longrightarrow> set (takeWhile (\<lambda>x. x \<le> (b :: nat)) xs) = {x \<in> set xs. x \<le> b}"
  by (induction xs) auto

lemma lexicon_spans_iff:
  assumes "engine_ok hc" "b \<le> length cs"
  shows "(i, j) \<in> set (lexicon_spans hc cs a b) \<longleftrightarrow>
    a \<le> i \<and> i < j \<and> j \<le> b \<and> trie_contains (hc_full_lexicon hc) (char_slice cs i j)"
proof -
  have "j \<in> set (takeWhile (\<lambda>e. e \<le> b) (matches_from (hc_full_lexicon hc) cs i)) \<longleftrightarrow>
      i < j \<and> j \<le> b \<and> trie_contains (hc_full_lexicon hc) (char_slice cs i j)" if "i < b" for i j
  proof -
    have "i \<le> length cs" using that assms(2) by simp
    from trie.matches_iff [OF lexicon_ok [OF assms(1)] this, of j] assms(2) show ?thesis
      by (auto simp: takeWhile_sorted [OF trie.matches_sorted])
  qed
  moreover have "(i, j) \<in> set (lexicon_spans hc cs a b) \<longleftrightarrow> a \<le> i \<and> i < b
      \<and> j \<in> set (takeWhile (\<lambda>e. e \<le> b) (matches_from (hc_full_lexicon hc) cs i))"
    unfolding lexicon_spans_def by force
  ultimately show ?thesis by auto
qed

lemma sort_key_Nil_iff [simp]: "sort_key f xs = [] \<longleftrightarrow> xs = []"
  by (metis length_0_conv length_sort)

lemma guard_candidates_iff:
  "g \<in> set (guard_candidates hc cs a b l) \<longleftrightarrow>
     (cg_start g, cg_end g) \<in> set (lexicon_spans hc cs a b)
     \<and> is_all_han (char_slice cs (cg_start g) (cg_end g))
     \<and> known_disallowed_reason hc (char_slice cs (cg_start g) (cg_end g)) l = Some (cg_reason g)"
proof -
  have not: "known_disallowed_reason hc w l = Some r \<Longrightarrow> \<not> is_allowed (hc_hsk hc) w l" for w r
    by (auto simp: known_disallowed_reason_def)
  let ?f = "\<lambda>sp. if is_all_han (span_word cs sp) \<and> \<not> is_allowed (hc_hsk hc) (span_word cs sp) l
         then (case known_disallowed_reason hc (span_word cs sp) l of
                 None \<Rightarrow> None
               | Some r \<Rightarrow> Some \<lparr>cg_start = fst sp, cg_end = snd sp, cg_reason = r\<rparr>)
         else None"
  have f: "?f sp = Some g \<longleftrightarrow> sp = (cg_start g, cg_end g) \<and> is_all_han (span_word cs sp)
      \<and> known_disallowed_reason hc (span_word cs sp) l = Some (cg_reason g)" for sp
    by (cases g; cases sp; cases "known_disallowed_reason hc (span_word cs sp) l") (auto dest: not)
  have "g \<in> set (guard_candidates hc cs a b l) \<longleftrightarrow> (\<exists>sp \<in> set (lexicon_spans hc cs a b). ?f sp = Some g)"
    unfolding guard_candidates_def set_map_filter_iff by blast
  then show ?thesis unfolding f by (auto simp: span_word_def)
qed

definition open_candidates :: "hsk_control \<Rightarrow> rstring \<Rightarrow> nat \<Rightarrow> nat \<Rightarrow> hsk_level \<Rightarrow> compound_guard list" where
  "open_candidates hc cs a b l =
     filter (\<lambda>g. \<not> list_ex (\<lambda>sp. strictly_inside sp g) (allowed_spans hc cs a b l))
       (guard_candidates hc cs a b l)"

lemma disallowed_spans_eq:
  "disallowed_spans hc cs a b l =
     best_nonoverlapping_guard_path
       (dedup (sort_key (\<lambda>g. (cg_start g, - int (cg_end g))) (open_candidates hc cs a b l))) a b"
  by (simp add: disallowed_spans_def open_candidates_def Let_def)

lemma open_candidates_in:
  assumes "engine_ok hc" "b \<le> length cs"
  shows "candidates_in a b (dedup (sort_key f (open_candidates hc cs a b l)))"
  using lexicon_spans_iff [OF assms]
  by (auto simp: candidates_in_def list_all_iff open_candidates_def guard_candidates_iff)

lemma disallowed_spans_best:
  assumes "engine_ok hc" "a \<le> b" "b \<le> length cs"
  shows "guard_chain a b (disallowed_spans hc cs a b l)"
    and "set (disallowed_spans hc cs a b l) \<subseteq> set (open_candidates hc cs a b l)"
    and "guard_chain a b hs \<Longrightarrow> set hs \<subseteq> set (open_candidates hc cs a b l)
      \<Longrightarrow> \<not> guard_path_is_better (path_of hs) (path_of (disallowed_spans hc cs a b l))"
    and "disallowed_spans hc cs a b l = [] \<longleftrightarrow> open_candidates hc cs a b l = []"
proof -
  let ?c = "dedup (sort_key (\<lambda>g. (cg_start g, - int (cg_end g))) (open_candidates hc cs a b l))"
  note c = open_candidates_in [OF assms(1,3), of a "\<lambda>g. (cg_start g, - int (cg_end g))" l]
  have set_c: "set ?c = set (open_candidates hc cs a b l)" by simp
  note best = nonoverlapping_best [OF c assms(2), unfolded set_c, folded disallowed_spans_eq]
  show "guard_chain a b (disallowed_spans hc cs a b l)"
    and "set (disallowed_spans hc cs a b l) \<subseteq> set (open_candidates hc cs a b l)"
    using best by blast+
  show "guard_chain a b hs \<Longrightarrow> set hs \<subseteq> set (open_candidates hc cs a b l)
      \<Longrightarrow> \<not> guard_path_is_better (path_of hs) (path_of (disallowed_spans hc cs a b l))"
    using best by blast
  show "disallowed_spans hc cs a b l = [] \<longleftrightarrow> open_candidates hc cs a b l = []"
    using nonoverlapping_empty [OF c assms(2)] by (simp add: disallowed_spans_eq [symmetric])
qed

section \<open>Suggestions\<close>

lemma set_push_unique [simp]: "set (push_unique v vs) = insert v (set vs)"
  by (auto simp: push_unique_def)

lemma distinct_push_unique [simp]: "distinct vs \<Longrightarrow> distinct (push_unique v vs)"
  by (auto simp: push_unique_def)

lemma fold_push_unique:
  "distinct acc \<Longrightarrow> distinct (fold push_unique vs acc) \<and> set (fold push_unique vs acc) = set vs \<union> set acc"
  by (induction vs arbitrary: acc) auto

lemma push_scored_set:
  "distinct acc \<Longrightarrow> distinct (push_scored ss acc) \<and> set (push_scored ss acc) \<subseteq> sg_word ` set ss \<union> set acc"
proof (induction ss arbitrary: acc)
  case (Cons s ss)
  then show ?case
    using Cons.IH [of "push_unique (sg_word s) acc"] by (auto simp: Let_def)
qed simp

lemma suggestion_parts_allowed:
  assumes "engine_ok hc" "level_ok l" "p \<in> set (suggestion_parts hc w l)"
  shows "is_allowed (hc_hsk hc) p l"
proof (cases "w = []")
  case True
  with assms(3) show ?thesis by (simp add: suggestion_parts_def best_decomposition_def)
next
  case False
  from best_decomposition_best [OF allowed_trie_ok [OF assms(1,2)] False] assms(3) show ?thesis
    by (auto simp: suggestion_parts_def allowed_trie_contains [OF assms(1,2)] split: option.splits if_splits)
qed

lemma scored_suggestions_allowed:
  assumes "engine_ok hc" "level_ok l" "s \<in> set (scored_suggestions hc w l)"
  shows "is_allowed (hc_hsk hc) (sg_word s) l \<and> sg_word s \<noteq> w"
  using assms(3)
  by (auto simp: scored_suggestions_def Let_def map_filter_def score_entry_def is_allowed_engine [OF assms(1,2)]
      split: if_splits)

lemma suggested_words_allowed:
  assumes "engine_ok hc" "level_ok l"
  shows "length (suggested_words hc w l) \<le> 3 \<and> distinct (suggested_words hc w l)
    \<and> (\<forall>v \<in> set (suggested_words hc w l). is_allowed (hc_hsk hc) v l)"
proof -
  let ?a = "fold push_unique (simpler_allowed hc w l) []"
  let ?b = "fold push_unique (suggestion_parts hc w l) ?a"
  have a: "distinct ?a" "\<forall>v \<in> set ?a. is_allowed (hc_hsk hc) v l"
    using fold_push_unique [of "[]" "simpler_allowed hc w l"]
    by (auto simp: simpler_allowed_def split: option.splits)
  have b: "distinct ?b" "\<forall>v \<in> set ?b. is_allowed (hc_hsk hc) v l"
    using fold_push_unique [OF a(1), of "suggestion_parts hc w l"] a(2) suggestion_parts_allowed [OF assms]
    by auto
  from push_scored_set [OF b(1), of "scored_suggestions hc w l"] b(2) scored_suggestions_allowed [OF assms]
  show ?thesis by (force simp: suggested_words_def dest: in_set_takeD)
qed

end
