(* ===== verification/Hsk_Report.thy ===== *)
theory Hsk_Report
  imports Hsk_Control_Laws
begin

text \<open>
  The report of a validation: where names and gaps lie, which violations a gap gives, that
  they lie apart from each other and from the names, and when a text is strictly valid.
\<close>

section \<open>The tokenizer\<close>

text \<open>
  What is relied on of \<open>Jieba::tokenize\<close>: its tokens, none of them empty, follow each other
  from character offset 0 and spell the text.
\<close>

fun tokens_at :: "nat \<Rightarrow> jieba_token list \<Rightarrow> rstring \<Rightarrow> bool" where
  "tokens_at pos [] cs = (cs = [])"
| "tokens_at pos ((w, s, e) # ts) cs =
     (s = pos \<and> w \<noteq> [] \<and> e = pos + length w \<and> take (length w) cs = w \<and> length w \<le> length cs
      \<and> tokens_at e ts (drop (length w) cs))"

definition tokenizer_ok :: "hsk_control \<Rightarrow> bool" where
  "tokenizer_ok hc \<longleftrightarrow> (\<forall>cs. tokens_at 0 (hc_tokenize hc cs) cs)"

lemma tokens_at_bounds:
  "tokens_at pos ts cs \<Longrightarrow> (w, s, e) \<in> set ts \<Longrightarrow> pos \<le> s \<and> s < e \<and> e \<le> pos + length cs"
  by (induction pos ts cs rule: tokens_at.induct) fastforce+

lemma tokens_at_sorted:
  "tokens_at pos ts cs \<Longrightarrow> sorted_wrt (\<lambda>(v, s, e) (v', s', e'). e \<le> s') ts"
  by (induction pos ts cs rule: tokens_at.induct) (fastforce dest: tokens_at_bounds)+

lemma gap_tokens_bounds:
  assumes "tokenizer_ok hc" "a \<le> b" "b \<le> length cs" "(w, s, e) \<in> set (gap_tokens hc cs a b)"
  shows "a \<le> s \<and> s < e \<and> e \<le> b"
proof -
  obtain s' e' where t: "(w, s', e') \<in> set (hc_tokenize hc (char_slice cs a b))" "s = a + s'" "e = a + e'"
    using assms(4) by (auto simp: gap_tokens_def)
  have "tokens_at 0 (hc_tokenize hc (char_slice cs a b)) (char_slice cs a b)"
    using assms(1) by (simp add: tokenizer_ok_def)
  from tokens_at_bounds [OF this t(1)] assms(2,3) have "s' < e'" "e' \<le> b - a" by simp_all
  then show ?thesis using t(2,3) assms(2) by linarith
qed

lemma gap_tokens_sorted:
  assumes "tokenizer_ok hc"
  shows "sorted_wrt (\<lambda>(v, s, e) (v', s', e'). e \<le> s') (gap_tokens hc cs a b)"
proof -
  have "tokens_at 0 (hc_tokenize hc (char_slice cs a b)) (char_slice cs a b)"
    using assms by (simp add: tokenizer_ok_def)
  from tokens_at_sorted [OF this] show ?thesis
    by (auto simp: gap_tokens_def sorted_wrt_map case_prod_unfold)
qed

lemma gap_tokens_nonempty:
  assumes "tokenizer_ok hc" "a < b" "b \<le> length cs"
  shows "gap_tokens hc cs a b \<noteq> []"
proof
  assume "gap_tokens hc cs a b = []"
  then have "hc_tokenize hc (char_slice cs a b) = []" by (simp add: gap_tokens_def)
  moreover have "tokens_at 0 (hc_tokenize hc (char_slice cs a b)) (char_slice cs a b)"
    using assms(1) by (simp add: tokenizer_ok_def)
  ultimately have "length (char_slice cs a b) = 0" by simp
  then show False using assms(2,3) by simp
qed

section \<open>Names\<close>

fun name_chain :: "rstring \<Rightarrow> nat \<Rightarrow> name_match list \<Rightarrow> bool" where
  "name_chain cs pos [] = True"
| "name_chain cs pos (n # ns) =
     (pos \<le> nm_start n \<and> nm_start n < nm_end n \<and> nm_end n \<le> length cs
      \<and> nm_text n = char_slice cs (nm_start n) (nm_end n) \<and> name_chain cs (nm_end n) ns)"

definition names_ok :: "normalized_name list \<Rightarrow> bool" where
  "names_ok names \<longleftrightarrow> list_all (\<lambda>n. nn_text n \<noteq> []) names"

lemma normalize_names_ok: "names_ok (normalize_names env names)"
  using set_dedup_by unfolding names_ok_def list_all_iff normalize_names_def sort_names_def by fastforce

lemma name_at_Some:
  "names_ok names \<Longrightarrow> name_at names cs = Some n \<Longrightarrow> nn_text n \<noteq> [] \<and> length (nn_text n) \<le> length cs
     \<and> take (length (nn_text n)) cs = nn_text n"
  by (auto simp: name_at_def names_ok_def list_all_iff find_Some_iff)

lemma name_chain_weaken: "name_chain cs pos ns \<Longrightarrow> pos' \<le> pos \<Longrightarrow> name_chain cs pos' ns"
  by (cases ns) auto

lemma name_loop_chain:
  "names_ok names \<Longrightarrow> name_chain cs start (name_loop fuel names start (drop start cs))"
proof (induction fuel arbitrary: start)
  case (Suc fuel)
  show ?case
  proof (cases "name_at names (drop start cs)")
    case None
    have "name_chain cs (start + 1) (name_loop fuel names (start + 1) (tl (drop start cs)))"
      using Suc.IH [OF Suc.prems, of "start + 1"] by (simp add: drop_Suc tl_drop)
    with None show ?thesis using name_chain_weaken [of cs "start + 1" _ start] by simp
  next
    case (Some n)
    note n = name_at_Some [OF Suc.prems Some]
    then show ?thesis
      using Suc.IH [OF Suc.prems, of "start + length (nn_text n)"] Some
      by (auto simp: char_slice_def add.commute)
  qed
qed simp

lemma find_name_matches_chain: "names_ok names \<Longrightarrow> name_chain cs 0 (find_name_matches cs names)"
  using name_loop_chain [of names cs 0] by (simp add: find_name_matches_def)

text \<open>The fuel is enough: outside the matches no name starts.\<close>

definition inside_match :: "name_match list \<Rightarrow> nat \<Rightarrow> bool" where
  "inside_match ns i = list_ex (\<lambda>n. nm_start n \<le> i \<and> i < nm_end n) ns"

lemma name_loop_complete:
  "names_ok names \<Longrightarrow> length cs \<le> start + fuel \<Longrightarrow> start \<le> i \<Longrightarrow> i < length cs
    \<Longrightarrow> inside_match (name_loop fuel names start (drop start cs)) i \<or> name_at names (drop i cs) = None"
proof (induction fuel arbitrary: start)
  case (Suc fuel)
  have ne: "drop start cs \<noteq> []" using Suc.prems by simp
  show ?case
  proof (cases "name_at names (drop start cs)")
    case None
    show ?thesis
    proof (cases "i = start")
      case False
      then have "inside_match (name_loop fuel names (start + 1) (drop (start + 1) cs)) i
          \<or> name_at names (drop i cs) = None"
        using Suc.prems by (intro Suc.IH) auto
      then show ?thesis using None ne by (simp add: drop_Suc tl_drop)
    qed (simp add: None)
  next
    case (Some n)
    note n = name_at_Some [OF Suc.prems(1) Some]
    let ?next = "start + length (nn_text n)"
    have loop: "name_loop (Suc fuel) names start (drop start cs) =
        \<lparr>nm_text = nn_text n, nm_start = start, nm_end = ?next, nm_reason = nn_reason n\<rparr>
        # name_loop fuel names ?next (drop ?next cs)"
      using ne Some by (simp add: add.commute)
    show ?thesis
    proof (cases "i < ?next")
      case True
      then show ?thesis using Suc.prems(3) unfolding loop by (simp add: inside_match_def)
    next
      case False
      have "length cs \<le> ?next + fuel" using n Suc.prems(2) by (cases "nn_text n") auto
      then have "inside_match (name_loop fuel names ?next (drop ?next cs)) i \<or> name_at names (drop i cs) = None"
        using Suc.prems False by (intro Suc.IH) auto
      then show ?thesis unfolding loop by (auto simp: inside_match_def)
    qed
  qed
qed simp

section \<open>Gaps\<close>

lemma gaps_bounds:
  "name_chain cs pos ns \<Longrightarrow> pos \<le> length cs \<Longrightarrow> (a, b) \<in> set (gaps_from pos ns (length cs))
    \<Longrightarrow> pos \<le> a \<and> a \<le> b \<and> b \<le> length cs
      \<and> (\<forall>n \<in> set ns. b \<le> nm_start n \<or> nm_end n \<le> a)"
proof (induction ns arbitrary: pos)
  case (Cons n ns)
  have later: "\<forall>m \<in> set ns. p \<le> nm_start m" if "name_chain cs p ns" for p
    using that by (induction ns arbitrary: p) (fastforce dest: name_chain_weaken)+
  have "b = nm_start n \<and> a = pos \<or> (a, b) \<in> set (gaps_from (nm_end n) ns (length cs))"
    using Cons.prems(3) by auto
  then show ?case
  proof
    assume "b = nm_start n \<and> a = pos"
    with Cons.prems later [of "nm_end n"] show ?thesis by fastforce
  next
    assume "(a, b) \<in> set (gaps_from (nm_end n) ns (length cs))"
    with Cons.prems Cons.IH [of "nm_end n"] show ?thesis by auto
  qed
qed auto

lemma gaps_sorted:
  "name_chain cs pos ns \<Longrightarrow> pos \<le> length cs
    \<Longrightarrow> sorted_wrt (\<lambda>(a, b) (c, d). b \<le> c) (gaps_from pos ns (length cs))"
proof (induction ns arbitrary: pos)
  case (Cons n ns)
  have "nm_start n \<le> c" if "(c, d) \<in> set (gaps_from (nm_end n) ns (length cs))" for c d
    using gaps_bounds [OF _ _ that] Cons.prems by auto
  with Cons show ?case by auto
qed simp

section \<open>The violations of a gap\<close>

definition acceptable :: "hsk_control \<Rightarrow> hsk_level \<Rightarrow> rstring \<Rightarrow> bool" where
  "acceptable hc l token = (case verdict hc l token of Violates _ \<Rightarrow> False | _ \<Rightarrow> True)"

definition token_violations ::
  "hsk_control \<Rightarrow> rstring \<Rightarrow> hsk_level \<Rightarrow> compound_guard list \<Rightarrow> jieba_token \<Rightarrow> hsk_violation list" where
  "token_violations hc cs l guards tok =
     (case tok of (text, start, stop) \<Rightarrow>
        if span_intersects_guard start stop guards then []
        else (case verdict hc l text of Violates r \<Rightarrow> [make_violation hc cs start stop r l] | _ \<Rightarrow> []))"

definition guard_violations :: "hsk_control \<Rightarrow> rstring \<Rightarrow> hsk_level \<Rightarrow> compound_guard list \<Rightarrow> hsk_violation list" where
  "guard_violations hc cs l guards =
     map (\<lambda>g. make_violation hc cs (cg_start g) (cg_end g) (cg_reason g) l) guards"

definition gap_violations :: "hsk_control \<Rightarrow> rstring \<Rightarrow> hsk_level \<Rightarrow> nat \<times> nat \<Rightarrow> hsk_violation list" where
  "gap_violations hc cs l gap =
     (case gap of (a, b) \<Rightarrow>
        if b \<le> a \<or> gap_tokens hc cs a b = [] then []
        else let guards = disallowed_spans hc cs a b l
             in guard_violations hc cs l guards
                @ concat (map (token_violations hc cs l guards) (gap_tokens hc cs a b)))"

lemma fold_validate_token:
  "fst (fold (validate_token hc cs l guards) toks st) = fst st @ concat (map (token_violations hc cs l guards) toks)"
  by (induction toks arbitrary: st)
    (auto simp: validate_token_def token_violations_def split: token_verdict.split)

lemma fst_validate_gap: "fst (validate_gap hc cs l gap st) = fst st @ gap_violations hc cs l gap"
  by (cases gap) (simp add: validate_gap_def gap_violations_def guard_violations_def fold_validate_token Let_def)

lemma fst_fold_validate_gap:
  "fst (fold (validate_gap hc cs l) gaps st) = fst st @ concat (map (gap_violations hc cs l) gaps)"
  by (induction gaps arbitrary: st) (simp_all add: fst_validate_gap)

definition text_gaps :: "hsk_control \<Rightarrow> rstring \<Rightarrow> proper_name list \<Rightarrow> (nat \<times> nat) list" where
  "text_gaps hc cs proper_names =
     gaps_from 0 (find_name_matches cs (normalize_names (hc_env hc) proper_names)) (length cs)"

lemma validate_text_violations:
  "vr_violations (validate_text hc text l names) = dedup_by same_violation (sort_key violation_key
     (concat (map (gap_violations hc (normalize (hc_env hc) text) l)
       (text_gaps hc (normalize (hc_env hc) text) names))))"
  using fst_fold_validate_gap [of hc "normalize (hc_env hc) text" l
      "text_gaps hc (normalize (hc_env hc) text) names" "([], 0)"]
  by (simp add: validate_text_def text_gaps_def Let_def case_prod_unfold)

lemma text_gaps_bounds:
  assumes "(a, b) \<in> set (text_gaps hc cs names)"
  shows "a \<le> b" "b \<le> length cs"
    "n \<in> set (find_name_matches cs (normalize_names (hc_env hc) names)) \<Longrightarrow> b \<le> nm_start n \<or> nm_end n \<le> a"
  using gaps_bounds [OF find_name_matches_chain [OF normalize_names_ok] _ assms [unfolded text_gaps_def]] by auto

section \<open>Violations lie apart\<close>

definition apart :: "hsk_violation \<Rightarrow> hsk_violation \<Rightarrow> bool" where
  "apart v w \<longleftrightarrow> vi_end v \<le> vi_start w \<or> vi_end w \<le> vi_start v"

definition violation_in :: "hsk_control \<Rightarrow> rstring \<Rightarrow> hsk_level \<Rightarrow> nat \<Rightarrow> nat \<Rightarrow> hsk_violation \<Rightarrow> bool" where
  "violation_in hc cs l a b v \<longleftrightarrow> a \<le> vi_start v \<and> vi_start v < vi_end v \<and> vi_end v \<le> b
     \<and> v = make_violation hc cs (vi_start v) (vi_end v) (vi_reason v) l"

lemma make_violation_sel [simp]:
  "vi_start (make_violation hc cs a b r l) = a" "vi_end (make_violation hc cs a b r l) = b"
  "vi_reason (make_violation hc cs a b r l) = r" "vi_text (make_violation hc cs a b r l) = char_slice cs a b"
  "vi_suggested_words (make_violation hc cs a b r l) = suggested_words hc (char_slice cs a b) l"
  by (simp_all add: make_violation_def)

lemma guard_chain_apart: "guard_chain a b gs \<Longrightarrow> sorted_wrt apart (guard_violations hc cs l gs)"
proof (induction gs arbitrary: a)
  case (Cons g gs)
  then show ?case
    using guard_chain_bounds [of "cg_end g" b gs] by (auto simp: guard_violations_def apart_def)
qed (simp add: guard_violations_def)

lemma token_violations_span:
  "v \<in> set (token_violations hc cs l guards (w, s, e)) \<Longrightarrow>
     vi_start v = s \<and> vi_end v = e \<and> \<not> span_intersects_guard s e guards
     \<and> v = make_violation hc cs s e (vi_reason v) l"
  by (auto simp: token_violations_def split: if_splits token_verdict.splits)

lemma token_violations_apart:
  "sorted_wrt (\<lambda>(v, s, e) (v', s', e'). e \<le> s') toks
    \<Longrightarrow> sorted_wrt apart (concat (map (token_violations hc cs l guards) toks))"
proof (induction toks)
  case (Cons t toks)
  obtain w s e where t: "t = (w, s, e)" by (cases t)
  have "length (token_violations hc cs l guards t) \<le> 1"
    by (auto simp: t token_violations_def split: token_verdict.split)
  then have "sorted_wrt apart (token_violations hc cs l guards t)"
    by (cases "token_violations hc cs l guards t") auto
  moreover have "apart v u" if v: "v \<in> set (token_violations hc cs l guards t)"
    and u: "u \<in> set (concat (map (token_violations hc cs l guards) toks))" for v u
  proof -
    obtain w' s' e' where t': "(w', s', e') \<in> set toks" "u \<in> set (token_violations hc cs l guards (w', s', e'))"
      using u by auto
    have "e \<le> s'" using Cons.prems t'(1) by (auto simp: t)
    then show ?thesis
      using token_violations_span [OF v [unfolded t]] token_violations_span [OF t'(2)]
      by (auto simp: apart_def)
  qed
  ultimately show ?case using Cons by (auto simp: sorted_wrt_append)
qed simp

lemma gap_violations_in:
  assumes "engine_ok hc" "tokenizer_ok hc" "a \<le> b" "b \<le> length cs" "v \<in> set (gap_violations hc cs l (a, b))"
  shows "violation_in hc cs l a b v"
proof -
  have "v \<in> set (guard_violations hc cs l (disallowed_spans hc cs a b l))
      \<or> (\<exists>w s e. (w, s, e) \<in> set (gap_tokens hc cs a b)
          \<and> v \<in> set (token_violations hc cs l (disallowed_spans hc cs a b l) (w, s, e)))"
    using assms(5) by (auto simp: gap_violations_def Let_def split: if_splits)
  then show ?thesis
  proof (elim disjE exE conjE)
    assume "v \<in> set (guard_violations hc cs l (disallowed_spans hc cs a b l))"
    then show ?thesis
      using guard_chain_bounds [OF disallowed_spans_best(1) [OF assms(1,3,4)]]
      by (auto simp: violation_in_def guard_violations_def)
  next
    fix w s e
    assume t: "(w, s, e) \<in> set (gap_tokens hc cs a b)"
      and v: "v \<in> set (token_violations hc cs l (disallowed_spans hc cs a b l) (w, s, e))"
    show ?thesis
      using token_violations_span [OF v] gap_tokens_bounds [OF assms(2,3,4) t]
      unfolding violation_in_def by metis
  qed
qed

lemma gap_violations_apart:
  assumes "engine_ok hc" "tokenizer_ok hc" "a \<le> b" "b \<le> length cs"
  shows "sorted_wrt apart (gap_violations hc cs l (a, b))"
proof -
  let ?gs = "disallowed_spans hc cs a b l"
  have "apart v u" if v: "v \<in> set (guard_violations hc cs l ?gs)"
    and u: "u \<in> set (concat (map (token_violations hc cs l ?gs) (gap_tokens hc cs a b)))" for v u
  proof -
    obtain g where g: "g \<in> set ?gs" "vi_start v = cg_start g" "vi_end v = cg_end g"
      using v by (auto simp: guard_violations_def)
    obtain w s e where "u \<in> set (token_violations hc cs l ?gs (w, s, e))" using u by auto
    from token_violations_span [OF this] g show ?thesis
      by (auto simp: apart_def span_intersects_guard_def list_ex_iff)
  qed
  then show ?thesis
    using guard_chain_apart [OF disallowed_spans_best(1) [OF assms(1,3,4)]]
      token_violations_apart [OF gap_tokens_sorted [OF assms(2)]]
    by (auto simp: gap_violations_def Let_def sorted_wrt_append)
qed

lemma gaps_violations_apart:
  assumes "engine_ok hc" "tokenizer_ok hc"
    and "sorted_wrt (\<lambda>(a, b) (c, d). b \<le> c) gaps"
    and "\<And>a b. (a, b) \<in> set gaps \<Longrightarrow> a \<le> b \<and> b \<le> length cs"
  shows "sorted_wrt apart (concat (map (gap_violations hc cs l) gaps))"
  using assms(3,4)
proof (induction gaps)
  case (Cons gap gaps)
  obtain a b where gap: "gap = (a, b)" by (cases gap)
  have ab: "a \<le> b" "b \<le> length cs" using Cons.prems(2) gap by auto
  have "apart v u" if v: "v \<in> set (gap_violations hc cs l (a, b))"
    and u: "u \<in> set (concat (map (gap_violations hc cs l) gaps))" for v u
  proof -
    obtain c d where cd: "(c, d) \<in> set gaps" "u \<in> set (gap_violations hc cs l (c, d))" using u by auto
    then have "c \<le> d" "d \<le> length cs" "b \<le> c" using Cons.prems gap by auto
    then show ?thesis
      using gap_violations_in [OF assms(1,2) ab v] gap_violations_in [OF assms(1,2) _ _ cd(2)]
      by (auto simp: violation_in_def apart_def)
  qed
  moreover have "sorted_wrt apart (concat (map (gap_violations hc cs l) gaps))"
    by (rule Cons.IH) (use Cons.prems in auto)
  ultimately show ?case
    using gap_violations_apart [OF assms(1,2) ab] by (auto simp: gap sorted_wrt_append)
qed simp

text \<open>A symmetric relation that holds between any two elements does so in any order.\<close>

lemma sorted_wrt_permute:
  assumes "\<And>x y. R x y \<Longrightarrow> R y x" "mset xs = mset ys" "sorted_wrt R xs"
  shows "sorted_wrt R ys"
  using assms(2,3)
proof (induction xs arbitrary: ys)
  case (Cons x xs)
  then obtain us vs where ys: "ys = us @ x # vs"
    by (metis list.set_intros(1) mset_eq_setD split_list)
  have m: "mset xs = mset (us @ vs)" using Cons.prems(1) by (simp add: ys)
  then have "sorted_wrt R (us @ vs)" using Cons by simp
  moreover have "\<forall>y \<in> set (us @ vs). R x y"
    using Cons.prems(2) mset_eq_setD [OF m] by auto
  ultimately show ?case using assms(1) by (auto simp: ys sorted_wrt_append)
qed simp

lemma apart_sorted:
  assumes "sorted (map violation_key vs)" "sorted_wrt apart vs" "\<And>v. v \<in> set vs \<Longrightarrow> vi_start v < vi_end v"
  shows "sorted_wrt (\<lambda>v w. vi_end v \<le> vi_start w) vs"
  using assms
proof (induction vs)
  case (Cons v vs)
  have "vi_end v \<le> vi_start w" if "w \<in> set vs" for w
  proof -
    have "apart v w" "violation_key v \<le> violation_key w" using Cons.prems that by auto
    then have "apart v w" "vi_start v \<le> vi_start w" by (auto simp: violation_key_def less_eq_prod_def)
    with Cons.prems(3) [of v] Cons.prems(3) [of w] that show ?thesis by (auto simp: apart_def)
  qed
  with Cons show ?case by auto
qed simp

lemma dedup_by_id: "sorted_wrt (\<lambda>x y. \<not> same x y) xs \<Longrightarrow> dedup_by same xs = xs"
  by (induction same xs rule: dedup_by.induct) auto

lemma report_violations:
  fixes hc :: hsk_control and input :: rstring and l :: hsk_level and names :: "proper_name list"
  assumes "engine_ok hc" "tokenizer_ok hc"
  defines "cs \<equiv> normalize (hc_env hc) input"
  defines "found \<equiv> concat (map (gap_violations hc cs l) (text_gaps hc cs names))"
  shows "vr_violations (validate_text hc input l names) = sort_key violation_key found"
    and "sorted_wrt (\<lambda>v w. vi_end v \<le> vi_start w) (sort_key violation_key found)"
    and "v \<in> set found \<Longrightarrow> \<exists>a b. (a, b) \<in> set (text_gaps hc cs names) \<and> violation_in hc cs l a b v"
proof -
  show vin: "\<exists>a b. (a, b) \<in> set (text_gaps hc cs names) \<and> violation_in hc cs l a b v" if v: "v \<in> set found" for v
  proof -
    obtain a b where ab: "(a, b) \<in> set (text_gaps hc cs names)" "v \<in> set (gap_violations hc cs l (a, b))"
      using v by (auto simp: found_def)
    with gap_violations_in [OF assms(1,2) text_gaps_bounds(1,2) [OF ab(1)] ab(2)] show ?thesis by blast
  qed
  have "sorted_wrt apart found"
    unfolding found_def
  proof (rule gaps_violations_apart [OF assms(1,2)])
    show "sorted_wrt (\<lambda>(a, b) (c, d). b \<le> c) (text_gaps hc cs names)"
      unfolding text_gaps_def by (rule gaps_sorted [OF find_name_matches_chain [OF normalize_names_ok]]) simp
  qed (use text_gaps_bounds in blast)
  then have "sorted_wrt apart (sort_key violation_key found)"
    by (rule sorted_wrt_permute [rotated 2]) (auto simp: apart_def)
  then show s: "sorted_wrt (\<lambda>v w. vi_end v \<le> vi_start w) (sort_key violation_key found)"
    by (intro apart_sorted) (auto dest!: vin simp: violation_in_def)
  have "sorted_wrt (\<lambda>v w. \<not> same_violation v w) (sort_key violation_key found)"
    by (rule sorted_wrt_mono_rel [OF _ s]) (auto dest!: vin simp: violation_in_def same_violation_def)
  then show "vr_violations (validate_text hc input l names) = sort_key violation_key found"
    by (simp add: validate_text_violations dedup_by_id cs_def [symmetric] found_def [symmetric])
qed

end
