(* ===== verification/Hsk_Numeric.thy ===== *)
theory Hsk_Numeric
  imports Hsk_Report
begin

text \<open>
  The reachability tables of \<open>numeric_allowed_decomposition\<close> say which prefixes split into
  allowed words and numbers, and which do so with a number.
\<close>

definition piece_ok :: "text_env \<Rightarrow> word_trie \<Rightarrow> rstring \<Rightarrow> bool" where
  "piece_ok env t w \<longleftrightarrow> trie_contains t w \<or> is_numeric_token env w"

definition has_number :: "text_env \<Rightarrow> rstring list \<Rightarrow> bool" where
  "has_number env ws = list_ex (is_numeric_token env) ws"

lemma numeric_Nil [simp]: "\<not> is_numeric_token env []"
  by (simp add: is_numeric_token_def)

lemma piece_ok_Nil: "trie_ok t \<Longrightarrow> \<not> piece_ok env t []"
  using trie.contains_Nil by (simp add: piece_ok_def)

lemma has_number_snoc: "has_number env (ws @ [w]) \<longleftrightarrow> has_number env ws \<or> is_numeric_token env w"
  by (simp add: has_number_def)

definition table_at ::
  "text_env \<Rightarrow> word_trie \<Rightarrow> rstring \<Rightarrow> nat \<Rightarrow> reach_table \<Rightarrow> bool" where
  "table_at env t cs k tab \<longleftrightarrow> length (fst tab) = Suc (length cs) \<and> length (snd tab) = Suc (length cs)
     \<and> (\<forall>j \<le> length cs. fst tab ! j = (segs (piece_ok env t) cs k j \<noteq> {}))
     \<and> (\<forall>j \<le> length cs. snd tab ! j = (\<exists>ws \<in> segs (piece_ok env t) cs k j. has_number env ws))"

lemma mark_words:
  assumes "\<And>m. m \<in> set ms \<Longrightarrow> k < m" "length (fst tab) = n" "length (snd tab) = n" "j < n"
  shows "length (fst (fold (mark_word k) ms tab)) = n \<and> length (snd (fold (mark_word k) ms tab)) = n
    \<and> fst (fold (mark_word k) ms tab) ! j = (fst tab ! j \<or> j \<in> set ms)
    \<and> snd (fold (mark_word k) ms tab) ! j = (snd tab ! j \<or> j \<in> set ms \<and> snd tab ! k)"
  using assms
proof (induction ms arbitrary: tab)
  case (Cons m ms)
  have "k \<noteq> m" using Cons.prems(1) by auto
  then have one: "length (fst (mark_word k m tab)) = n" "length (snd (mark_word k m tab)) = n"
    "fst (mark_word k m tab) ! j = (fst tab ! j \<or> j = m)"
    "snd (mark_word k m tab) ! j = (snd tab ! j \<or> j = m \<and> snd tab ! k)"
    "snd (mark_word k m tab) ! k = snd tab ! k"
    using Cons.prems(2-4) by (cases "j = m"; simp add: mark_word_def)+
  have "\<And>m. m \<in> set ms \<Longrightarrow> k < m" using Cons.prems(1) by simp
  from Cons.IH [OF this one(1,2) Cons.prems(4)] show ?case
    unfolding fold_simps(2) one(3-5) set_simps by blast
qed simp

lemma mark_numerics:
  assumes "length (fst tab) = n" "length (snd tab) = n" "j < n"
  shows "length (fst (fold (mark_numeric env cs k) ms tab)) = n
    \<and> length (snd (fold (mark_numeric env cs k) ms tab)) = n
    \<and> fst (fold (mark_numeric env cs k) ms tab) ! j =
        (fst tab ! j \<or> j \<in> set ms \<and> is_numeric_token env (char_slice cs k j))
    \<and> snd (fold (mark_numeric env cs k) ms tab) ! j =
        (snd tab ! j \<or> j \<in> set ms \<and> is_numeric_token env (char_slice cs k j))"
  using assms
proof (induction ms arbitrary: tab)
  case (Cons m ms)
  then have one: "length (fst (mark_numeric env cs k m tab)) = n" "length (snd (mark_numeric env cs k m tab)) = n"
    "fst (mark_numeric env cs k m tab) ! j = (fst tab ! j \<or> j = m \<and> is_numeric_token env (char_slice cs k j))"
    "snd (mark_numeric env cs k m tab) ! j = (snd tab ! j \<or> j = m \<and> is_numeric_token env (char_slice cs k j))"
    by (cases "j = m"; simp add: mark_numeric_def)+
  from Cons.IH [OF one(1,2) Cons.prems(3)] show ?case
    unfolding fold_simps(2) one(3,4) set_simps by blast
qed simp

lemma numeric_step_table:
  assumes "trie_ok t" "k < length cs" "table_at env t cs k tab"
  shows "table_at env t cs (Suc k) (numeric_step env (matches_from t cs) cs k tab)"
proof -
  let ?P = "piece_ok env t"
  let ?pre = "{ws. concat ws = take k cs \<and> (\<forall>w \<in> set ws. ?P w)}"
  note P = piece_ok_Nil [OF assms(1), of env]
  have len: "length (fst tab) = Suc (length cs)" "length (snd tab) = Suc (length cs)"
    and r: "\<And>j. j \<le> length cs \<Longrightarrow> fst tab ! j = (segs ?P cs k j \<noteq> {})"
    and u: "\<And>j. j \<le> length cs \<Longrightarrow> snd tab ! j = (\<exists>ws \<in> segs ?P cs k j. has_number env ws)"
    using assms(3) by (simp_all add: table_at_def)
  have rk: "fst tab ! k = (?pre \<noteq> {})" "snd tab ! k = (\<exists>ws \<in> ?pre. has_number env ws)"
    using r [of k] u [of k] assms(2) segs_all [where P = ?P and j = k and k = k and cs = cs, OF P] by simp_all
  show ?thesis
  proof (cases "fst tab ! k")
    case False
    then have e: "?pre = {}" using rk by blast
    have "segs ?P cs (Suc k) j = segs ?P cs k j" if "j \<le> length cs" for j
      unfolding segs_Suc [where P = ?P, OF P assms(2) that] e by simp
    with False len r u show ?thesis by (simp add: table_at_def numeric_step_def)
  next
    case True
    let ?tab1 = "fold (mark_word k) (matches_from t cs k) tab"
    let ?tab2 = "fold (mark_numeric env cs k) [k + 1..<length cs + 1] ?tab1"
    have m: "j \<in> set (matches_from t cs k) \<longleftrightarrow> k < j \<and> j \<le> length cs \<and> trie_contains t (char_slice cs k j)" for j
      using trie.matches_iff [OF assms(1), of k cs j] assms(2) by simp
    have t2: "length (fst ?tab2) = Suc (length cs)" "length (snd ?tab2) = Suc (length cs)"
      "fst ?tab2 ! j = (fst tab ! j \<or> k < j \<and> ?P (char_slice cs k j))"
      "snd ?tab2 ! j = (snd tab ! j \<or> k < j \<and> ?P (char_slice cs k j)
          \<and> (snd tab ! k \<or> is_numeric_token env (char_slice cs k j)))"
      if j: "j \<le> length cs" for j
    proof -
      have j': "j < Suc (length cs)" using j by simp
      have "\<And>m. m \<in> set (matches_from t cs k) \<Longrightarrow> k < m" using m by blast
      from mark_words [OF this len j']
      have w: "length (fst ?tab1) = Suc (length cs)" "length (snd ?tab1) = Suc (length cs)"
        "fst ?tab1 ! j = (fst tab ! j \<or> j \<in> set (matches_from t cs k))"
        "snd ?tab1 ! j = (snd tab ! j \<or> j \<in> set (matches_from t cs k) \<and> snd tab ! k)" by simp_all
      have in_upt: "j \<in> set [k + 1..<length cs + 1] \<longleftrightarrow> k < j" using j by auto
      note n = mark_numerics [OF w(1,2) j', of env cs k "[k + 1..<length cs + 1]"]
      show "length (fst ?tab2) = Suc (length cs)" "length (snd ?tab2) = Suc (length cs)"
        using n by blast+
      show "fst ?tab2 ! j = (fst tab ! j \<or> k < j \<and> ?P (char_slice cs k j))"
        using n w(3) in_upt m [of j] j unfolding piece_ok_def by blast
      show "snd ?tab2 ! j = (snd tab ! j \<or> k < j \<and> ?P (char_slice cs k j)
          \<and> (snd tab ! k \<or> is_numeric_token env (char_slice cs k j)))"
        using n w(4) in_upt m [of j] j unfolding piece_ok_def by blast
    qed
    have pre: "?pre \<noteq> {}" using True rk(1) by blast
    have "fst ?tab2 ! j = (segs ?P cs (Suc k) j \<noteq> {})" if j: "j \<le> length cs" for j
      unfolding t2(3) [OF j] segs_Suc [where P = ?P, OF P assms(2) j] using r [OF j] pre by auto
    moreover have "snd ?tab2 ! j = (\<exists>ws \<in> segs ?P cs (Suc k) j. has_number env ws)" if j: "j \<le> length cs" for j
    proof -
      have "(\<exists>ws \<in> (\<lambda>ws. ws @ [char_slice cs k j]) ` ?pre. has_number env ws) \<longleftrightarrow>
          snd tab ! k \<or> is_numeric_token env (char_slice cs k j)"
        using pre rk(2) by (auto simp: has_number_snoc)
      then show ?thesis
        unfolding t2(4) [OF j] segs_Suc [where P = ?P, OF P assms(2) j] using u [OF j]
        by (cases "k < j \<and> ?P (char_slice cs k j)") (simp_all add: bex_Un, blast)
    qed
    moreover have "numeric_step env (matches_from t cs) cs k tab = ?tab2"
      using True by (simp add: numeric_step_def)
    ultimately show ?thesis using t2(1,2) [of 0] by (simp add: table_at_def)
  qed
qed

lemma numeric_table_final:
  assumes "trie_ok t"
  shows "table_at env t cs (length cs) (numeric_table env (matches_from t cs) cs)"
proof -
  let ?init = "((replicate (length cs + 1) False)[0 := True], replicate (length cs + 1) False)"
  note P = piece_ok_Nil [OF assms, of env]
  have "table_at env t cs 0 ?init"
    using segs_0 [where P = "piece_ok env t" and cs = cs, OF P]
    by (auto simp: table_at_def has_number_def nth_Cons nth_append split: nat.split)
  then have "table_at env t cs k (fold (numeric_step env (matches_from t cs) cs) [0..<k] ?init)" if "k \<le> length cs" for k
    using that by (induction k) (auto intro: numeric_step_table [OF assms])
  then show ?thesis by (simp add: numeric_table_def)
qed

lemma numeric_decomposition:
  assumes "engine_ok hc" "level_ok l"
  shows "numeric_allowed_decomposition hc w l \<longleftrightarrow> 2 \<le> length w \<and>
    (\<exists>ws. concat ws = w \<and> (\<exists>v \<in> set ws. is_numeric_token (hc_env hc) v)
       \<and> (\<forall>v \<in> set ws. is_numeric_token (hc_env hc) v \<or> v \<noteq> [] \<and> is_allowed (hc_hsk hc) v l))"
proof -
  let ?t = "allowed_trie_of hc l"
  let ?P = "piece_ok (hc_env hc) ?t"
  let ?tab = "numeric_table (hc_env hc) (matches_from ?t w) w"
  note ok = allowed_trie_ok [OF assms]
  have segs: "segs ?P w (length w) (length w) = {ws. concat ws = w \<and> (\<forall>v \<in> set ws. ?P v)}"
    using segs_all [where P = ?P, OF piece_ok_Nil [OF ok] order_refl] by simp
  have tab: "fst ?tab ! length w = (segs ?P w (length w) (length w) \<noteq> {})"
    "snd ?tab ! length w = (\<exists>ws \<in> segs ?P w (length w) (length w). has_number (hc_env hc) ws)"
    using numeric_table_final [OF ok, of "hc_env hc" w] by (simp_all add: table_at_def)
  have "fst ?tab ! length w \<and> snd ?tab ! length w \<longleftrightarrow>
      (\<exists>ws. concat ws = w \<and> (\<forall>v \<in> set ws. ?P v) \<and> has_number (hc_env hc) ws)"
    unfolding tab segs by auto
  also have "\<dots> \<longleftrightarrow> (\<exists>ws. concat ws = w \<and> (\<exists>v \<in> set ws. is_numeric_token (hc_env hc) v)
       \<and> (\<forall>v \<in> set ws. is_numeric_token (hc_env hc) v \<or> v \<noteq> [] \<and> is_allowed (hc_hsk hc) v l))"
    by (intro ex_cong1) (auto simp: piece_ok_def has_number_def list_ex_iff allowed_trie_contains [OF assms])
  finally show ?thesis
    by (simp add: numeric_allowed_decomposition_def Let_def not_less)
qed

end
