(* ===== verification/Hsk_Lookup.thy ===== *)
theory Hsk_Lookup
  imports Hsk_Report
begin

text \<open>
  Dictionary lookup: the matches it takes, its progress through the text, and that the tokens
  it returns spell the text up to characters that are no part of a word.
\<close>

lemma list_max_Some: "list_max xs = Some m \<Longrightarrow> m \<in> set xs \<and> (\<forall>x \<in> set xs. x \<le> m)"
proof (cases xs)
  case (Cons x ys)
  assume "list_max xs = Some m"
  then have "m = Max (set xs)" using Cons Max.set_eq_fold [of x ys] by simp
  then show ?thesis using Cons by (metis List.finite_set Max_ge Max_in list.set_intros(1) empty_iff)
qed simp

lemma list_max_None: "list_max xs = None \<longleftrightarrow> xs = []"
  by (cases xs) simp_all

lemma longest_match_Some:
  assumes "trie_ok t" "i \<le> length cs" "longest_match t cs i = Some e"
  shows "i < e \<and> e \<le> length cs \<and> trie_contains t (char_slice cs i e)
    \<and> (\<forall>f. i < f \<longrightarrow> f \<le> length cs \<longrightarrow> trie_contains t (char_slice cs i f) \<longrightarrow> f \<le> e)"
  using list_max_Some [of "matches_from t cs i" e] trie.matches_iff [OF assms(1,2)] assms(3)
  by (auto simp: longest_match_def)

lemma longest_match_None:
  assumes "trie_ok t" "i \<le> length cs" "longest_match t cs i = None" "i < f" "f \<le> length cs"
  shows "\<not> trie_contains t (char_slice cs i f)"
  using trie.matches_iff [OF assms(1,2), of f] assms(3-5) by (auto simp: longest_match_def list_max_None)

lemma match_end_bounds:
  assumes "engine_ok hc" "i < length cs"
  shows "i < match_end hc cs i \<and> match_end hc cs i \<le> length cs"
proof -
  have i: "i \<le> length cs" using assms(2) by simp
  have d: "trie_ok (ld_trie (hc_dictionary hc))"
    using engine_parts(3) [OF assms(1)] unfolding dictionary_ok_def by blast
  have "i < e \<and> e \<le> length cs" if "longest_match (hc_full_lexicon hc) cs i = Some e" for e
    using longest_match_Some [OF lexicon_ok [OF assms(1)] i that] by blast
  moreover have "i < e \<and> e \<le> length cs" if "longest_match (ld_trie (hc_dictionary hc)) cs i = Some e" for e
    using longest_match_Some [OF d i that] by blast
  ultimately show ?thesis
    using assms(2) by (simp add: match_end_def dictionary_longest_match_def split: option.split)
qed

lemma name_chain_member:
  "name_chain cs pos ns \<Longrightarrow> n \<in> set ns \<Longrightarrow>
    nm_start n < nm_end n \<and> nm_end n \<le> length cs \<and> nm_text n = char_slice cs (nm_start n) (nm_end n)"
  by (induction ns arbitrary: pos) auto

lemma name_starting_Some:
  "name_chain cs pos ns \<Longrightarrow> name_starting ns i = Some n \<Longrightarrow>
    i < nm_end n \<and> nm_end n \<le> length cs \<and> nm_text n = char_slice cs i (nm_end n)"
  using name_chain_member [of cs pos ns n] by (auto simp: name_starting_def find_Some_iff)

lemma lookup_word_simplified [simp]: "lt_simplified (lookup_word hc w p) = w"
  by (simp add: lookup_word_def Let_def case_prod_unfold)

lemma lookup_word_proper [simp]: "lt_proper_name (lookup_word hc w p) = p"
  by (simp add: lookup_word_def Let_def case_prod_unfold)

text \<open>The characters of a text that are no separators.\<close>

definition lexical_chars :: "text_env \<Rightarrow> rstring \<Rightarrow> rstring" where
  "lexical_chars env s = filter (\<lambda>c. \<not> is_ignorable_token env [c]) s"

lemma lexical_append [simp]: "lexical_chars env (a @ b) = lexical_chars env a @ lexical_chars env b"
  by (simp add: lexical_chars_def)

lemma slice_drop: "i \<le> j \<Longrightarrow> char_slice cs i j @ drop j cs = drop i cs"
  unfolding char_slice_def by (metis add.commute append_take_drop_id drop_drop le_add_diff_inverse)

lemma lexical_drop:
  "i \<le> j \<Longrightarrow> lexical_chars env (drop i cs) = lexical_chars env (char_slice cs i j) @ lexical_chars env (drop j cs)"
  by (metis lexical_append slice_drop)

lemma lookup_loop_covers:
  assumes "engine_ok hc" "name_chain cs pos ns"
  shows "length cs \<le> i + fuel \<Longrightarrow>
    lexical_chars (hc_env hc) (concat (map lt_simplified (lookup_loop fuel hc ns cs i)))
      = lexical_chars (hc_env hc) (drop i cs)"
proof (induction fuel arbitrary: i)
  case 0
  then show ?case by (simp add: lexical_chars_def)
next
  case (Suc fuel)
  show ?case
  proof (cases "length cs \<le> i")
    case True
    then show ?thesis by (simp add: lexical_chars_def)
  next
    case False
    show ?thesis
    proof (cases "name_starting ns i")
      case (Some n)
      note n = name_starting_Some [OF assms(2) Some]
      then have "length cs \<le> nm_end n + fuel" using Suc.prems by linarith
      from Suc.IH [OF this] False Some n show ?thesis
        by (simp add: lexical_drop [of i "nm_end n"])
    next
      case None
      show ?thesis
      proof (cases "is_ignorable_token (hc_env hc) [cs ! i]")
        case True
        have "drop i cs = [cs ! i] @ drop (i + 1) cs" using False by (simp add: Cons_nth_drop_Suc)
        moreover have "length cs \<le> (i + 1) + fuel" using Suc.prems by linarith
        ultimately show ?thesis
          using Suc.IH [of "i + 1"] False None True by (simp add: lexical_chars_def)
      next
        case lexical: False
        have e: "i < match_end hc cs i" "match_end hc cs i \<le> length cs"
          using match_end_bounds [OF assms(1), of i cs] False by simp_all
        then have "length cs \<le> match_end hc cs i + fuel" using Suc.prems by linarith
        from Suc.IH [OF this] False None lexical e show ?thesis
          by (simp add: lexical_drop [of i "match_end hc cs i"] Let_def)
      qed
    qed
  qed
qed

text \<open>The first token starts at the first character when that is part of a word.\<close>

lemma lookup_loop_head:
  assumes "cs \<noteq> []" "\<not> is_ignorable_token (hc_env hc) [cs ! 0]"
  shows "\<exists>ts. lookup_loop (length cs) hc ns cs 0 =
    (case name_starting ns 0 of Some n \<Rightarrow> lookup_word hc (nm_text n) True
     | None \<Rightarrow> lookup_word hc (take (match_end hc cs 0) cs) False) # ts"
proof (cases cs)
  case (Cons c r)
  with assms show ?thesis
    by (auto simp: Let_def char_slice_def split: option.split)
qed (use assms in simp)

end
