(* ===== verification/Hsk_Sample.thy ===== *)
theory Hsk_Sample
  imports Hsk_Report "HOL-Library.Code_Target_Nat"
begin

text \<open>
  A small complete data set and dictionary, with a tokenizer that returns the text as one token:
  the concrete engine on which the hypotheses of the properties are shown to hold.
\<close>

definition sample_env :: text_env where
  "sample_env = \<lparr>env_nfkc = (\<lambda>s. s), env_s2t = (\<lambda>s. s), env_t2s = (\<lambda>s. s), env_tw2sp = (\<lambda>s. s),
     env_numeric = is_ascii_digit, env_alphanumeric = (\<lambda>c. is_ascii_alphanumeric c \<or> is_han c),
     env_lowercase = is_ascii_lowercase\<rparr>"

definition sample_source :: source_audit where
  "sample_source = \<lparr>sa_name = lit ''s'', sa_url = lit ''u'', sa_revision = lit ''r'', sa_sha256 = replicate 64 97\<rparr>"

definition sample_licence :: licence_audit where
  "sample_licence = \<lparr>la_spdx_expression = lit ''MIT'', la_url = lit ''u'', la_attribution = lit ''a'',
     la_redistribution_allowed = True\<rparr>"

definition sample_entry :: "rstring \<Rightarrow> u8 \<Rightarrow> rstring list \<Rightarrow> hsk_entry" where
  "sample_entry w l gs = \<lparr>he_simplified = w, he_pinyin = lit ''p'', he_glosses = gs, he_level = HskLevel l,
     he_simpler_words = [], he_independently_usable = True, he_frequency_rank = None\<rparr>"

definition word_ni :: rstring where "word_ni = [0x4F60]"
definition word_hao :: rstring where "word_hao = [0x597D]"
definition word_nihao :: rstring where "word_nihao = [0x4F60, 0x597D]"
definition word_haochi :: rstring where "word_haochi = [0x597D, 0x5403]"
definition word_nihaochi :: rstring where "word_nihaochi = [0x4F60, 0x597D, 0x5403]"
definition word_wo :: rstring where "word_wo = [0x6211]"

definition sample_artifact :: hsk_artifact where
  "sample_artifact = \<lparr>ha_schema_version = 1, ha_standard = HSK_STANDARD, ha_dataset_revision = lit ''r'',
     ha_completeness = CompleteDataset, ha_source = sample_source, ha_licence = sample_licence,
     ha_audited_entry_count = 5, ha_audited_level_counts = [4, 0, 1, 0, 0, 0],
     ha_entries = [sample_entry word_haochi 3 [lit ''good food''], sample_entry word_ni 1 [lit ''you''],
                   sample_entry word_hao 1 [lit ''good''], sample_entry word_nihao 1 [lit ''hello''],
                   sample_entry word_nihaochi 1 [lit ''tasty'']]\<rparr>"

definition sample_dictionary :: dictionary_artifact where
  "sample_dictionary = \<lparr>da_schema_version = 1, da_format = cc_cedict, da_dataset_revision = lit ''r'',
     da_completeness = CompleteDataset, da_source = sample_source, da_licence = sample_licence,
     da_audited_entry_count = 1,
     da_entries = [\<lparr>de_traditional = word_wo, de_simplified = word_wo, de_pinyin = lit ''wo'',
                    de_definitions = [lit ''me''], de_frequency_rank = None\<rparr>]\<rparr>"

definition whole_tokenizer :: "(rstring \<times> nat) list \<Rightarrow> rstring \<Rightarrow> jieba_token list" where
  "whole_tokenizer freqs cs = (if cs = [] then [] else [(cs, 0, length cs)])"

definition sample_digest :: hsk_digest where "sample_digest a b c d e = Inr (lit ''h'')"
definition sample_dictionary_digest :: dictionary_digest where "sample_dictionary_digest a b c d e = Inr (lit ''d'')"
definition sample_sha :: "rstring \<Rightarrow> rstring" where "sample_sha s = lit ''h''"

definition sample_control :: "hsk_error + hsk_control" where
  "sample_control = control_from_artifacts whole_tokenizer sample_sha sample_digest sample_dictionary_digest
     sample_env sample_artifact sample_dictionary RequireComplete"

lemma sample_loads: "is_ok sample_control"
  by code_simp

definition sample_engine :: hsk_control where
  "sample_engine = (case sample_control of Inr hc \<Rightarrow> hc)"

lemma is_ok_projr: "is_ok r \<Longrightarrow> r = Inr (case r of Inr x \<Rightarrow> x)"
  by (cases r) simp_all

lemma sample_control_eq: "sample_control = Inr sample_engine"
  unfolding sample_engine_def by (rule is_ok_projr [OF sample_loads])

lemma sample_legal: "entries_legal (ha_entries sample_artifact)"
  by code_simp

lemma sample_engine_ok: "engine_ok sample_engine"
  using loaded_engine_ok [OF sample_control_eq [unfolded sample_control_def] sample_legal] .

lemma sample_tokenizer_ok: "tokenizer_ok sample_engine"
proof -
  obtain hsk dict where h:
    "sample_engine = control_from_datasets whole_tokenizer sample_sha hsk dict sample_env"
    using sample_control_eq [unfolded sample_control_def control_from_artifacts_def try_bind_eq_Ok sum.inject]
    by metis
  have "hc_tokenize sample_engine = whole_tokenizer (word_frequencies hsk dict)"
    unfolding h by (simp add: control_from_datasets_def Let_def)
  then show ?thesis by (simp add: tokenizer_ok_def whole_tokenizer_def)
qed

lemma sample_level: "level_ok (HskLevel 1)"
  by (simp add: level_ok_def)

end
