(* ===== verification/Hsk_Props.thy ===== *)
theory Hsk_Props
  imports Hsk_Numeric Hsk_Lookup Hsk_Sample
begin

text \<open>
  The properties of the HSK control engine, each with its instance on the sample engine.
\<close>

section \<open>Loading\<close>

lemma loaded_dictionary_entries:
  "dictionary_from_artifact digest art policy = Inr d \<Longrightarrow> set (ld_entries d) = set (da_entries art)"
  by (auto simp: dictionary_from_artifact_def Let_def split: if_splits)

text \<open>Claim C16: a constructed engine is consistent: its lexicon trie holds exactly the words of the
  two artifacts, and a word is allowed at a level exactly when the vocabulary artifact lists it
  at that level or below.\<close>
theorem constructed_engine_exact:
  assumes "control_from_artifacts jieba sha d1 d2 env art dart policy = Inr hc"
    and "entries_legal (ha_entries art)"
  shows "engine_ok hc
    \<and> (\<forall>w. trie_contains (hc_full_lexicon hc) w \<longleftrightarrow> w \<noteq> []
         \<and> (w \<in> he_simplified ` set (ha_entries art) \<or> w \<in> de_simplified ` set (da_entries dart)))
    \<and> (\<forall>l w. level_ok l \<longrightarrow> is_allowed (hc_hsk hc) w l =
         (\<exists>e \<in> set (ha_entries art). he_simplified e = w \<and> he_level e \<le> l))"
proof -
  note ok = loaded_engine_ok [OF assms]
  obtain hsk dict where l: "dataset_from_artifact env d1 art policy = Inr hsk"
      "dictionary_from_artifact d2 dart policy = Inr dict"
      "hc_hsk hc = hsk" "hc_dictionary hc = dict"
    using assms(1) by (auto simp: control_from_artifacts_def control_from_datasets_def Let_def)
  have e: "set (ds_entries hsk) = set (ha_entries art)"
    using loaded_dataset_ok(2) [OF l(1)] by simp
  show ?thesis
    using ok lexicon_contains [OF ok] is_allowed_engine [OF ok] e loaded_dictionary_entries [OF l(2)] l(3,4)
    by (simp add: hsk_words_def dict_words_def)
qed

theorem constructed_engine_exact_witness:
  "engine_ok sample_engine \<and> trie_contains (hc_full_lexicon sample_engine) word_haochi
    \<and> trie_contains (hc_full_lexicon sample_engine) word_wo
    \<and> \<not> is_allowed (hc_hsk sample_engine) word_haochi (HskLevel 1)"
proof -
  have m: "word_haochi \<in> he_simplified ` set (ha_entries sample_artifact)"
    "word_wo \<in> de_simplified ` set (da_entries sample_dictionary)"
    "word_haochi \<noteq> []" "word_wo \<noteq> []"
    "\<not> (\<exists>e \<in> set (ha_entries sample_artifact). he_simplified e = word_haochi \<and> he_level e \<le> HskLevel 1)"
    by code_simp+
  show ?thesis
    using constructed_engine_exact [OF sample_control_eq [unfolded sample_control_def] sample_legal] m sample_level
    by blast
qed

section \<open>Validation\<close>

lemma report_strict: "vr_strictly_valid (validate_text hc input l names) \<longleftrightarrow> vr_violations (validate_text hc input l names) = []"
  by (simp add: validate_text_def Let_def case_prod_unfold)

lemma gap_violations_Nil:
  assumes "engine_ok hc" "tokenizer_ok hc" "a \<le> b" "b \<le> length cs"
  shows "gap_violations hc cs l (a, b) = [] \<longleftrightarrow>
    open_candidates hc cs a b l = [] \<and> (\<forall>(w, s, e) \<in> set (gap_tokens hc cs a b). acceptable hc l w)"
proof (cases "a < b")
  case False
  then have "lexicon_spans hc cs a b = []" by (simp add: lexicon_spans_def)
  then have "open_candidates hc cs a b l = []"
    by (simp add: open_candidates_def guard_candidates_def)
  moreover have "gap_tokens hc cs a b = []"
  proof -
    have "(w, s, e) \<notin> set (gap_tokens hc cs a b)" for w s e
      using gap_tokens_bounds [OF assms(2-4), of w s e] False by linarith
    then show ?thesis by (cases "gap_tokens hc cs a b") auto
  qed
  ultimately show ?thesis by (simp add: gap_violations_def)
next
  case True
  let ?gs = "disallowed_spans hc cs a b l"
  have none: "?gs = [] \<longleftrightarrow> open_candidates hc cs a b l = []"
    by (rule disallowed_spans_best(4) [OF assms(1,3,4)])
  have tok: "token_violations hc cs l [] t = [] \<longleftrightarrow> (case t of (w, s, e) \<Rightarrow> acceptable hc l w)" for t
    by (cases t) (auto simp: acceptable_def token_violations_def span_intersects_guard_def split: token_verdict.split)
  have "gap_violations hc cs l (a, b) = guard_violations hc cs l ?gs
      @ concat (map (token_violations hc cs l ?gs) (gap_tokens hc cs a b))"
    using True gap_tokens_nonempty [OF assms(2) True assms(4)] by (simp add: gap_violations_def Let_def)
  then show ?thesis
    using none by (cases "?gs = []") (auto simp: guard_violations_def tok)
qed

text \<open>Claim C14: a text is strictly valid exactly when in every gap between the names no word of
  the lexicon that is known and not allowed lies open, that is, not strictly inside an allowed
  word, and no token is rejected by its own verdict.\<close>
theorem strictly_valid_iff:
  assumes "engine_ok hc" "tokenizer_ok hc"
  shows "vr_strictly_valid (validate_text hc input l names) \<longleftrightarrow>
    (\<forall>(a, b) \<in> set (text_gaps hc (normalize (hc_env hc) input) names).
       (\<forall>g \<in> set (guard_candidates hc (normalize (hc_env hc) input) a b l).
          \<exists>sp \<in> set (allowed_spans hc (normalize (hc_env hc) input) a b l). strictly_inside sp g)
       \<and> (\<forall>(w, s, e) \<in> set (gap_tokens hc (normalize (hc_env hc) input) a b). acceptable hc l w))"
proof -
  let ?cs = "normalize (hc_env hc) input"
  have "vr_strictly_valid (validate_text hc input l names) \<longleftrightarrow>
      (\<forall>gap \<in> set (text_gaps hc ?cs names). gap_violations hc ?cs l gap = [])"
    by (simp add: report_strict validate_text_violations)
  also have "\<dots> \<longleftrightarrow> (\<forall>(a, b) \<in> set (text_gaps hc ?cs names).
      (\<forall>g \<in> set (guard_candidates hc ?cs a b l). \<exists>sp \<in> set (allowed_spans hc ?cs a b l). strictly_inside sp g)
      \<and> (\<forall>(w, s, e) \<in> set (gap_tokens hc ?cs a b). acceptable hc l w))"
  proof (rule ball_cong [OF refl])
    fix gap
    assume "gap \<in> set (text_gaps hc ?cs names)"
    moreover obtain a b where gap: "gap = (a, b)" by (cases gap)
    ultimately have "gap_violations hc ?cs l (a, b) = [] \<longleftrightarrow>
        open_candidates hc ?cs a b l = [] \<and> (\<forall>(w, s, e) \<in> set (gap_tokens hc ?cs a b). acceptable hc l w)"
      using text_gaps_bounds(1,2) by (intro gap_violations_Nil [OF assms]) blast+
    moreover have "open_candidates hc ?cs a b l = [] \<longleftrightarrow>
        (\<forall>g \<in> set (guard_candidates hc ?cs a b l). \<exists>sp \<in> set (allowed_spans hc ?cs a b l). strictly_inside sp g)"
      by (simp add: open_candidates_def filter_empty_conv list_ex_iff)
    ultimately show "gap_violations hc ?cs l gap = [] \<longleftrightarrow> (case gap of (a, b) \<Rightarrow>
        (\<forall>g \<in> set (guard_candidates hc ?cs a b l). \<exists>sp \<in> set (allowed_spans hc ?cs a b l). strictly_inside sp g)
        \<and> (\<forall>(w, s, e) \<in> set (gap_tokens hc ?cs a b). acceptable hc l w))"
      unfolding gap by simp
  qed
  finally show ?thesis .
qed

theorem strictly_valid_iff_witness:
  "vr_strictly_valid (validate_text sample_engine word_nihao (HskLevel 1) [])
    \<and> \<not> vr_strictly_valid (validate_text sample_engine (word_hao @ word_haochi) (HskLevel 1) [])"
  unfolding strictly_valid_iff [OF sample_engine_ok sample_tokenizer_ok] by code_simp

text \<open>Claim C12: in a strictly valid text no Chinese headword of a higher level occurs between the
  names, wherever the tokenizer put its boundaries, unless it is a proper part of an allowed word.\<close>
theorem strictly_valid_hides_no_word:
  assumes "engine_ok hc" "tokenizer_ok hc" "level_ok l"
    and "cs = normalize (hc_env hc) input"
    and "vr_strictly_valid (validate_text hc input l names)"
    and "(a, b) \<in> set (text_gaps hc cs names)" "a \<le> i" "i < j" "j \<le> b"
    and "is_all_han (char_slice cs i j)"
    and "level_of (hc_hsk hc) (char_slice cs i j) = Some required" "required > l"
  shows "\<exists>i' j'. a \<le> i' \<and> i' \<le> i \<and> j \<le> j' \<and> j' \<le> b \<and> (i' < i \<or> j < j')
    \<and> is_allowed (hc_hsk hc) (char_slice cs i' j') l"
proof -
  note b = text_gaps_bounds(2) [OF assms(6)]
  have not: "\<not> is_allowed (hc_hsk hc) (char_slice cs i j) l"
    using is_allowed_level_of [OF assms(1,3)] assms(11,12) by auto
  have "char_slice cs i j \<in> hsk_words hc"
    using level_of_engine [OF assms(1)] assms(11) unfolding hsk_words_def by (metis imageI)
  moreover have "char_slice cs i j \<noteq> []" using assms(10) by (simp add: is_all_han_def)
  ultimately have "trie_contains (hc_full_lexicon hc) (char_slice cs i j)"
    by (simp add: lexicon_contains [OF assms(1)])
  then have "(i, j) \<in> set (lexicon_spans hc cs a b)"
    using assms(7-9) by (simp add: lexicon_spans_iff [OF assms(1) b])
  moreover have "known_disallowed_reason hc (char_slice cs i j) l = Some (AboveSelectedHskLevel required)"
    using not assms(11,12) by (simp add: known_disallowed_reason_def)
  ultimately have "\<lparr>cg_start = i, cg_end = j, cg_reason = AboveSelectedHskLevel required\<rparr>
      \<in> set (guard_candidates hc cs a b l)"
    using assms(10) by (simp add: guard_candidates_iff)
  then obtain sp where sp: "sp \<in> set (allowed_spans hc cs a b l)"
      "strictly_inside sp \<lparr>cg_start = i, cg_end = j, cg_reason = AboveSelectedHskLevel required\<rparr>"
    using assms(4-6) unfolding strictly_valid_iff [OF assms(1,2)] by blast
  then have "(fst sp, snd sp) \<in> set (lexicon_spans hc cs a b)" "is_allowed (hc_hsk hc) (char_slice cs (fst sp) (snd sp)) l"
    by (auto simp: allowed_spans_def span_word_def)
  then have "a \<le> fst sp \<and> snd sp \<le> b" "is_allowed (hc_hsk hc) (char_slice cs (fst sp) (snd sp)) l"
    by (simp_all only: lexicon_spans_iff [OF assms(1) b])
  then show ?thesis
    using sp(2) by (intro exI [of _ "fst sp"] exI [of _ "snd sp"]) (simp add: strictly_inside_def)
qed

theorem strictly_valid_hides_no_word_witness:
  "\<exists>i' j'. 0 \<le> i' \<and> i' \<le> 1 \<and> 3 \<le> j' \<and> j' \<le> 3 \<and> (i' < 1 \<or> 3 < j')
    \<and> is_allowed (hc_hsk sample_engine) (char_slice word_nihaochi i' j') (HskLevel 1)"
proof (rule strictly_valid_hides_no_word [OF sample_engine_ok sample_tokenizer_ok sample_level])
  show "word_nihaochi = normalize (hc_env sample_engine) word_nihaochi" by code_simp
  show "vr_strictly_valid (validate_text sample_engine word_nihaochi (HskLevel 1) [])" by code_simp
  show "(0, 3) \<in> set (text_gaps sample_engine word_nihaochi [])" by code_simp
  show "is_all_han (char_slice word_nihaochi 1 3)" by code_simp
  show "level_of (hc_hsk sample_engine) (char_slice word_nihaochi 1 3) = Some (HskLevel 3)" by code_simp
  show "HskLevel 1 < HskLevel 3" by (simp add: less_hsk_level_def)
qed simp_all

text \<open>Claim C13: the violations of a report come in text order without overlap, each a span of the
  normalized text that meets no excepted name, with at most three distinct suggestions, every
  one of them a word allowed at the level.\<close>
theorem violations_well_placed:
  assumes "engine_ok hc" "tokenizer_ok hc" "level_ok l"
    and "report = validate_text hc input l names"
  shows "sorted_wrt (\<lambda>v w. vi_end v \<le> vi_start w) (vr_violations report)
    \<and> list_all (\<lambda>v. vi_start v < vi_end v \<and> vi_end v \<le> length (vr_normalized_text report)
         \<and> vi_text v = char_slice (vr_normalized_text report) (vi_start v) (vi_end v)
         \<and> list_all (\<lambda>x. vi_end v \<le> ex_start x \<or> ex_end x \<le> vi_start v) (vr_exceptions report)
         \<and> length (vi_suggested_words v) \<le> 3 \<and> distinct (vi_suggested_words v)
         \<and> list_all (\<lambda>w. is_allowed (hc_hsk hc) w l) (vi_suggested_words v)) (vr_violations report)"
proof -
  let ?cs = "normalize (hc_env hc) input"
  let ?names = "find_name_matches ?cs (normalize_names (hc_env hc) names)"
  have cs: "vr_normalized_text report = ?cs" and ex: "vr_exceptions report = map exception_of ?names"
    by (simp_all add: assms(4) validate_text_def Let_def case_prod_unfold)
  note rep = report_violations [OF assms(1,2), where input = input and l = l and names = names]
  have "vi_start v < vi_end v \<and> vi_end v \<le> length ?cs \<and> vi_text v = char_slice ?cs (vi_start v) (vi_end v)
      \<and> (\<forall>n \<in> set ?names. vi_end v \<le> nm_start n \<or> nm_end n \<le> vi_start v)
      \<and> vi_suggested_words v = suggested_words hc (vi_text v) l"
    if v: "v \<in> set (vr_violations report)" for v
  proof -
    have "v \<in> set (concat (map (gap_violations hc ?cs l) (text_gaps hc ?cs names)))"
      using v by (simp add: assms(4) rep(1))
    from rep(3) [OF this] obtain a b where ab: "(a, b) \<in> set (text_gaps hc ?cs names)" "violation_in hc ?cs l a b v"
      by blast
    then have b: "a \<le> vi_start v" "vi_start v < vi_end v" "vi_end v \<le> b"
      and v': "v = make_violation hc ?cs (vi_start v) (vi_end v) (vi_reason v) l"
      by (auto simp: violation_in_def)
    have "vi_text v = char_slice ?cs (vi_start v) (vi_end v)" "vi_suggested_words v = suggested_words hc (vi_text v) l"
      using arg_cong [OF v', of vi_text] arg_cong [OF v', of vi_suggested_words] by simp_all
    moreover have "\<forall>n \<in> set ?names. vi_end v \<le> nm_start n \<or> nm_end n \<le> vi_start v"
      using text_gaps_bounds(3) [OF ab(1)] b by (meson order_trans)
    ultimately show ?thesis using b text_gaps_bounds(2) [OF ab(1)] by linarith
  qed
  moreover have "sorted_wrt (\<lambda>v w. vi_end v \<le> vi_start w) (vr_violations report)"
    using rep(1,2) by (simp add: assms(4))
  ultimately show ?thesis
    using suggested_words_allowed [OF assms(1,3)] unfolding cs ex by (simp add: list_all_iff exception_of_def)
qed

theorem violations_well_placed_witness:
  "\<exists>v. vr_violations (validate_text sample_engine (word_hao @ word_haochi) (HskLevel 1) []) = [v]
    \<and> vi_start v = 1 \<and> vi_end v = 3 \<and> vi_text v = word_haochi \<and> length (vi_suggested_words v) \<le> 3"
proof -
  let ?r = "validate_text sample_engine (word_hao @ word_haochi) (HskLevel 1) []"
  have "map vi_start (vr_violations ?r) = [1]" "map vi_end (vr_violations ?r) = [3]"
    "map vi_text (vr_violations ?r) = [word_haochi]"
    by code_simp+
  then obtain v where "vr_violations ?r = [v]" "vi_start v = 1" "vi_end v = 3" "vi_text v = word_haochi"
    by auto
  then show ?thesis
    using violations_well_placed [OF sample_engine_ok sample_tokenizer_ok sample_level refl, of "word_hao @ word_haochi" "[]"]
    by simp
qed

section \<open>Guard spans and decompositions\<close>

text \<open>The guard spans of a gap follow each other without overlap, come from the open
  candidates, and no other such sequence has a greater sum of squared lengths, or with the same
  sum covers more characters, or with the same cover uses fewer spans.\<close>
theorem guard_spans_optimal:
  assumes "engine_ok hc" "a \<le> b" "b \<le> length cs"
    and "guards = disallowed_spans hc cs a b l"
  shows "guard_chain a b guards \<and> set guards \<subseteq> set (open_candidates hc cs a b l)
    \<and> (\<forall>hs. guard_chain a b hs \<and> set hs \<subseteq> set (open_candidates hc cs a b l)
         \<longrightarrow> \<not> guard_path_is_better (path_of hs) (path_of guards))"
  using disallowed_spans_best(1-3) [OF assms(1-3)] unfolding assms(4) by blast

theorem guard_spans_optimal_witness:
  "guard_chain 0 3 (disallowed_spans sample_engine (word_hao @ word_haochi) 0 3 (HskLevel 1))
    \<and> disallowed_spans sample_engine (word_hao @ word_haochi) 0 3 (HskLevel 1) \<noteq> []"
proof -
  have "open_candidates sample_engine (word_hao @ word_haochi) 0 3 (HskLevel 1) \<noteq> []" by code_simp
  moreover have "3 \<le> length (word_hao @ word_haochi)" by (simp add: word_hao_def word_haochi_def)
  ultimately show ?thesis
    using guard_spans_optimal [OF sample_engine_ok _ _ refl, of 0 3 "word_hao @ word_haochi" "HskLevel 1"]
      disallowed_spans_best(4) [OF sample_engine_ok, of 0 3 "word_hao @ word_haochi" "HskLevel 1"]
    by simp
qed

text \<open>Claim C15: the best decomposition spells the text with words of the trie, in the fewest words
  and among those in the lexicographically least way; none is returned only when there is none.\<close>
theorem best_decomposition_optimal:
  assumes "trie_ok t" "cs \<noteq> []"
  shows "(case best_decomposition t cs of
      None \<Rightarrow> \<nexists>ws. concat ws = cs \<and> (\<forall>w \<in> set ws. trie_contains t w)
    | Some ws \<Rightarrow> concat ws = cs \<and> (\<forall>w \<in> set ws. trie_contains t w)
        \<and> (\<forall>vs. concat vs = cs \<longrightarrow> (\<forall>w \<in> set vs. trie_contains t w)
             \<longrightarrow> length ws < length vs \<or> length ws = length vs \<and> ws \<le> vs))"
  by (rule best_decomposition_best [OF assms])

theorem best_decomposition_optimal_witness:
  "best_decomposition (trie_of_words [word_ni, word_hao, word_nihao]) (word_nihao @ word_hao) = Some [word_nihao, word_hao]
    \<and> length [word_nihao, word_hao] < length [word_ni, word_hao, word_hao]"
proof -
  let ?t = "trie_of_words [word_ni, word_hao, word_nihao]"
  have r: "best_decomposition ?t (word_nihao @ word_hao) = Some [word_nihao, word_hao]"
    by code_simp
  have ne: "word_nihao @ word_hao \<noteq> []" by (simp add: word_nihao_def)
  have vs: "concat [word_ni, word_hao, word_hao] = word_nihao @ word_hao"
    "\<forall>w \<in> set [word_ni, word_hao, word_hao]. trie_contains ?t w"
    by code_simp+
  have "length [word_nihao, word_hao] < length [word_ni, word_hao, word_hao]
      \<or> length [word_nihao, word_hao] = length [word_ni, word_hao, word_hao]
        \<and> [word_nihao, word_hao] \<le> [word_ni, word_hao, word_hao]"
    using best_decomposition_optimal [OF trie_of_words_ok [of "[word_ni, word_hao, word_nihao]"] ne] vs
    unfolding r option.case by blast
  then show ?thesis using r by simp
qed

text \<open>A token is accepted as a number exactly when it has at least two characters and
  splits into allowed words and numbers with at least one number.\<close>
theorem numeric_decomposition_iff:
  assumes "engine_ok hc" "level_ok l"
  shows "numeric_allowed_decomposition hc w l \<longleftrightarrow> 2 \<le> length w \<and>
    (\<exists>ws. concat ws = w \<and> (\<exists>v \<in> set ws. is_numeric_token (hc_env hc) v)
       \<and> (\<forall>v \<in> set ws. is_numeric_token (hc_env hc) v \<or> v \<noteq> [] \<and> is_allowed (hc_hsk hc) v l))"
  by (rule numeric_decomposition [OF assms])

theorem numeric_decomposition_iff_witness:
  "numeric_allowed_decomposition sample_engine (lit ''12'' @ word_nihao) (HskLevel 1)
    \<and> \<not> numeric_allowed_decomposition sample_engine (lit ''1'') (HskLevel 1)"
proof -
  have "concat [lit ''12'', word_nihao] = lit ''12'' @ word_nihao" by simp
  moreover have "is_numeric_token (hc_env sample_engine) (lit ''12'')"
    "is_allowed (hc_hsk sample_engine) word_nihao (HskLevel 1)" by code_simp+
  moreover have "word_nihao \<noteq> []" by (simp add: word_nihao_def)
  ultimately have "\<exists>ws. concat ws = lit ''12'' @ word_nihao \<and> (\<exists>v \<in> set ws. is_numeric_token (hc_env sample_engine) v)
       \<and> (\<forall>v \<in> set ws. is_numeric_token (hc_env sample_engine) v
            \<or> v \<noteq> [] \<and> is_allowed (hc_hsk sample_engine) v (HskLevel 1))"
    by (intro exI [of _ "[lit ''12'', word_nihao]"]) simp
  then show ?thesis
    unfolding numeric_decomposition_iff [OF sample_engine_ok sample_level] by simp
qed

section \<open>Names\<close>

text \<open>The matches of the proper names are spans of the text that spell a listed name,
  follow each other without overlap, and leave no place uncovered at which a listed name starts.\<close>
theorem names_found_exactly:
  assumes "names = normalize_names env proper_names" "found = find_name_matches cs names"
  shows "name_chain cs 0 found
    \<and> (\<forall>i < length cs. inside_match found i \<or>
         (\<forall>n \<in> set names. take (length (nn_text n)) (drop i cs) \<noteq> nn_text n))"
proof -
  have ok: "names_ok names" unfolding assms(1) by (rule normalize_names_ok)
  have "inside_match found i \<or> (\<forall>n \<in> set names. take (length (nn_text n)) (drop i cs) \<noteq> nn_text n)"
    if i: "i < length cs" for i
  proof -
    have "inside_match found i \<or> name_at names (drop i cs) = None"
      using name_loop_complete [OF ok, of cs 0 "length cs" i] i by (simp add: assms(2) find_name_matches_def)
    moreover have "take (length (nn_text n)) (drop i cs) \<noteq> nn_text n"
      if n: "name_at names (drop i cs) = None" "n \<in> set names" for n
    proof
      assume t: "take (length (nn_text n)) (drop i cs) = nn_text n"
      then have "length (nn_text n) \<le> length (drop i cs)" by (metis length_take min.cobounded1)
      with n t show False by (auto simp: name_at_def find_None_iff)
    qed
    ultimately show ?thesis by blast
  qed
  then show ?thesis using find_name_matches_chain [OF ok] assms(2) by simp
qed

definition sample_name :: proper_name where
  "sample_name = \<lparr>pn_text = word_nihao, pn_reason = PersonName\<rparr>"

theorem names_found_exactly_witness:
  "map nm_start (find_name_matches (word_wo @ word_nihao) (normalize_names sample_env [sample_name])) = [1]
    \<and> name_chain (word_wo @ word_nihao) 0 (find_name_matches (word_wo @ word_nihao) (normalize_names sample_env [sample_name]))"
proof -
  have "map nm_start (find_name_matches (word_wo @ word_nihao) (normalize_names sample_env [sample_name])) = [1]"
    by code_simp
  then show ?thesis
    using names_found_exactly [OF refl refl, of "word_wo @ word_nihao" sample_env "[sample_name]"] by blast
qed

section \<open>Lookup\<close>

text \<open>Claim C24: the loop of the lookup ends and its tokens spell the normalized text: they give the
  text when the separators are left out of both.\<close>
theorem lookup_covers_text:
  assumes "engine_ok hc" "result = lookup_with_item_context hc input names item"
  shows "lexical_chars (hc_env hc) (concat (map lt_simplified (lr_tokens result)))
      = lexical_chars (hc_env hc) (lr_selected_text result)
    \<and> lr_selected_text result = normalize (hc_env hc) input \<and> lr_item result = item"
  using lookup_loop_covers [OF assms(1) find_name_matches_chain [OF normalize_names_ok [of "hc_env hc" names]],
      of "normalize (hc_env hc) input" 0 "length (normalize (hc_env hc) input)"]
  by (simp add: assms(2) lookup_with_item_context_def Let_def)

theorem lookup_covers_text_witness:
  "lexical_chars (hc_env sample_engine)
      (concat (map lt_simplified (lr_tokens (lookup_with_item_context sample_engine (word_nihao @ [32] @ word_wo) [] None))))
    = word_nihao @ word_wo"
proof -
  have "lexical_chars (hc_env sample_engine) (normalize (hc_env sample_engine) (word_nihao @ [32] @ word_wo)) = word_nihao @ word_wo"
    by code_simp
  then show ?thesis
    using lookup_covers_text [OF sample_engine_ok refl, of "word_nihao @ [32] @ word_wo" "[]" None] by simp
qed

end
