(* ===== verification/Text_Tools.thy ===== *)
theory Text_Tools
  imports Prelude
begin

text \<open>
  More of the standard library's text functions: decimal printing, words, trimming and splitting
  on a predicate, and the bounded arithmetic of \<open>u64\<close> that fails or saturates.
\<close>

section \<open>Numbers\<close>

definition U64_MAX :: nat where "U64_MAX = 18446744073709551615"

text \<open>\<open>checked_add\<close>, \<open>checked_mul\<close>, \<open>saturating_add\<close> and \<open>saturating_mul\<close> of \<open>u64\<close>.\<close>

definition checked_u64 :: "nat \<Rightarrow> nat option" where
  "checked_u64 n = (if n \<le> U64_MAX then Some n else None)"

definition saturated_u64 :: "nat \<Rightarrow> nat" where
  "saturated_u64 n = min n U64_MAX"

text \<open>The decimal digits \<open>format!\<close> prints.\<close>

fun show_digits :: "nat \<Rightarrow> nat \<Rightarrow> string" where
  "show_digits 0 n = ''''"
| "show_digits (Suc fuel) n =
     (if n < 10 then [char_of (48 + n)] else show_digits fuel (n div 10) @ [char_of (48 + n mod 10)])"

definition show_nat :: "nat \<Rightarrow> string" where
  "show_nat n = show_digits 20 n"

definition value_of :: "nat list \<Rightarrow> nat" where
  "value_of cs = foldl (\<lambda>n c. n * 10 + (c - 48)) 0 cs"

lemma of_char_digit: "d < 10 \<Longrightarrow> of_char (char_of (48 + d) :: char) = (48 + d :: nat)"
  by simp

lemma value_of_show: "n < 10 ^ fuel \<Longrightarrow> value_of (lit (show_digits fuel n)) = n"
  by (induction fuel n rule: show_digits.induct) (auto simp: value_of_def of_char_digit)

lemma show_digits_range: "c \<in> set (lit (show_digits fuel n)) \<Longrightarrow> 48 \<le> c \<and> c \<le> 57"
  by (induction fuel n rule: show_digits.induct) (auto simp: of_char_digit split: if_splits)

section \<open>Words\<close>

definition split_whitespace :: "rstring \<Rightarrow> rstring list" where
  "split_whitespace s = filter (\<lambda>w. w \<noteq> []) (str_split is_whitespace s)"

text \<open>The words of a text with one space between them.\<close>

definition compact_words :: "rstring \<Rightarrow> rstring" where
  "compact_words s = str_join [32] (split_whitespace s)"

definition is_ascii_alphabetic :: "rchar \<Rightarrow> bool" where
  "is_ascii_alphabetic c \<longleftrightarrow> is_ascii_lowercase c \<or> is_ascii_uppercase c"

definition trim_by :: "(rchar \<Rightarrow> bool) \<Rightarrow> rstring \<Rightarrow> rstring" where
  "trim_by p s = rev (dropWhile p (rev (dropWhile p s)))"

text \<open>\<open>split_inclusive\<close>: every piece but the last ends with its separator.\<close>

fun split_inclusive :: "(rchar \<Rightarrow> bool) \<Rightarrow> rstring \<Rightarrow> rstring list" where
  "split_inclusive p [] = []"
| "split_inclusive p (c # s) =
     (if p c then [c] # split_inclusive p s
      else (case split_inclusive p s of [] \<Rightarrow> [[c]] | w # ws \<Rightarrow> (c # w) # ws))"

definition eq_ignore_case :: "rstring \<Rightarrow> rstring \<Rightarrow> bool" where
  "eq_ignore_case a b \<longleftrightarrow> map to_ascii_lowercase a = map to_ascii_lowercase b"

end
