(* ===== verification/Hsk_Import.thy ===== *)
theory Hsk_Import
  imports Local_Dictionary Text_Tools
begin

text \<open>
  The offline import (\<open>import.rs\<close>): from an audited source file to an artifact. The CSV
  reader, SHA-256, the UTF-8 decoder and the JSON printer are parameters; \<open>'s\<close> is the type of
  the source bytes. A slice out of order is a panic, the value \<open>None\<close>.
\<close>

section \<open>Searching and splitting\<close>

fun position :: "('a \<Rightarrow> bool) \<Rightarrow> 'a list \<Rightarrow> nat option" where
  "position P [] = None"
| "position P (x # xs) = (if P x then Some 0 else map_option Suc (position P xs))"

definition rposition :: "('a \<Rightarrow> bool) \<Rightarrow> 'a list \<Rightarrow> nat option" where
  "rposition P xs = map_option (\<lambda>i. length xs - 1 - i) (position P (rev xs))"

definition get_field :: "'a list \<Rightarrow> nat \<Rightarrow> 'a option" where
  "get_field row i = (if i < length row then Some (row ! i) else None)"

text \<open>\<open>values.sort(); values.dedup()\<close> on the trimmed pieces that are not empty.\<close>

definition trimmed_pieces :: "rchar \<Rightarrow> rstring \<Rightarrow> rstring list" where
  "trimmed_pieces sep s = dedup (sort (filter (\<lambda>t. t \<noteq> []) (map trim (str_split ((=) sep) s))))"

definition split_list :: "rstring \<Rightarrow> rstring list" where
  "split_list s = trimmed_pieces 124 s"

section \<open>Pinyin\<close>

fun replace_pair :: "rchar \<Rightarrow> rchar \<Rightarrow> rchar \<Rightarrow> rstring \<Rightarrow> rstring" where
  "replace_pair a b r (x # y # s) =
     (if x = a \<and> y = b then r # replace_pair a b r s else x # replace_pair a b r (y # s))"
| "replace_pair a b r s = s"

definition tone_rows :: "(rchar \<times> rchar list) list" where
  "tone_rows =
    [(0x61, [0x61, 0x101, 0xE1, 0x1CE, 0xE0]), (0x65, [0x65, 0x113, 0xE9, 0x11B, 0xE8]),
     (0x69, [0x69, 0x12B, 0xED, 0x1D0, 0xEC]), (0x6F, [0x6F, 0x14D, 0xF3, 0x1D2, 0xF2]),
     (0x75, [0x75, 0x16B, 0xFA, 0x1D4, 0xF9]), (0xFC, [0xFC, 0x1D6, 0x1D8, 0x1DA, 0x1DC]),
     (0x41, [0x41, 0x100, 0xC1, 0x1CD, 0xC0]), (0x45, [0x45, 0x112, 0xC9, 0x11A, 0xC8]),
     (0x49, [0x49, 0x12A, 0xCD, 0x1CF, 0xCC]), (0x4F, [0x4F, 0x14C, 0xD3, 0x1D1, 0xD2]),
     (0x55, [0x55, 0x16A, 0xDA, 0x1D3, 0xD9]), (0xDC, [0xDC, 0x1D5, 0x1D7, 0x1D9, 0x1DB])]"

definition tone_mark :: "rchar \<Rightarrow> nat \<Rightarrow> rchar" where
  "tone_mark vowel tone = (case map_of tone_rows vowel of None \<Rightarrow> vowel | Some row \<Rightarrow> row ! tone)"

definition is_vowel :: "rchar \<Rightarrow> bool" where
  "is_vowel c \<longleftrightarrow> c \<in> {0x61, 0x65, 0x69, 0x6F, 0x75, 0xFC, 0x41, 0x45, 0x49, 0x4F, 0x55, 0xDC}"

definition vowel_index :: "rstring \<Rightarrow> nat option" where
  "vowel_index cs =
     (case position (\<lambda>c. c = 0x61 \<or> c = 0x41) cs of
        Some i \<Rightarrow> Some i
      | None \<Rightarrow>
         (case position (\<lambda>c. c = 0x65 \<or> c = 0x45) cs of
            Some i \<Rightarrow> Some i
          | None \<Rightarrow>
             (case position (\<lambda>(c, d). (c = 0x6F \<or> c = 0x4F) \<and> (d = 0x75 \<or> d = 0x55)) (zip cs (tl cs)) of
                Some i \<Rightarrow> Some i
              | None \<Rightarrow> rposition is_vowel cs)))"

definition replace_umlaut :: "rstring \<Rightarrow> rstring" where
  "replace_umlaut s =
     map (\<lambda>c. if c = 0x76 then 0xFC else c)
       (replace_pair 0x55 0x3A 0xDC (replace_pair 0x75 0x3A 0xFC s))"

definition mark_syllable :: "rstring \<Rightarrow> rstring" where
  "mark_syllable s =
     (let replaced = replace_umlaut s in
      if replaced = [] then replaced
      else
        let c = last replaced; tone = c - 48; syllable = butlast replaced in
        if \<not> (is_ascii_digit c \<and> 1 \<le> tone \<and> tone \<le> 5) then replaced
        else if tone = 5 then syllable
        else (case vowel_index syllable of
                None \<Rightarrow> syllable
              | Some i \<Rightarrow> syllable[i := tone_mark (syllable ! i) tone]))"

definition numbered_pinyin_to_tone_marks :: "rstring \<Rightarrow> rstring" where
  "numbered_pinyin_to_tone_marks s = str_join [32] (map mark_syllable (split_whitespace s))"

section \<open>CC-CEDICT\<close>

definition cedict_error :: "nat \<Rightarrow> string \<Rightarrow> hsk_error + 'a" where
  "cedict_error line message = Err (CedictParse line message)"

definition parse_definitions :: "rstring \<Rightarrow> rstring list option" where
  "parse_definitions src =
     (if length src < 2 then None
      else Some (trimmed_pieces 47 (butlast (tl src))))"

definition parse_cedict_line ::
  "text_env \<Rightarrow> rstring \<Rightarrow> nat \<Rightarrow> (hsk_error + dictionary_entry) option" where
  "parse_cedict_line env line n =
     (case position ((=) 32) line of
        None \<Rightarrow> Some (cedict_error n ''missing traditional/simplified separator'')
      | Some first_space \<Rightarrow>
        let traditional = trim (take first_space line);
            remainder = trim_start (drop first_space line) in
        case position ((=) 32) remainder of
          None \<Rightarrow> Some (cedict_error n ''missing simplified/pinyin separator'')
        | Some second_space \<Rightarrow>
          let simplified_source = trim (take second_space remainder);
              remainder = trim_start (drop second_space remainder) in
          case position ((=) 93) remainder of
            None \<Rightarrow> Some (cedict_error n ''missing closing pinyin bracket'')
          | Some pinyin_end \<Rightarrow>
            if hd remainder \<noteq> 91 then Some (cedict_error n (''pinyin must begin with '' @ [CHR 0x27, CHR 0x5B, CHR 0x27]))
            else
              let numbered_pinyin = char_slice remainder 1 pinyin_end;
                  definitions_source = trim (drop (pinyin_end + 1) remainder) in
              if definitions_source = [] \<or> hd definitions_source \<noteq> 47 \<or> last definitions_source \<noteq> 47
              then Some (cedict_error n ''definitions must be slash-delimited'')
              else (case parse_definitions definitions_source of
                      None \<Rightarrow> None
                    | Some definitions \<Rightarrow>
                        Some (if traditional = [] \<or> simplified_source = [] \<or> blank numbered_pinyin
                                 \<or> definitions = []
                              then cedict_error n ''one or more required fields are empty''
                              else Ok \<lparr>de_traditional = traditional,
                                       de_simplified = normalize env simplified_source,
                                       de_pinyin = numbered_pinyin_to_tone_marks numbered_pinyin,
                                       de_definitions = definitions, de_frequency_rank = None\<rparr>)))"

definition verify_source_hash :: "rstring \<Rightarrow> import_metadata \<Rightarrow> hsk_error + unit" where
  "verify_source_hash actual md =
     (if actual \<noteq> sa_sha256 (im_source md)
      then Err (SourceHashMismatch (sa_sha256 (im_source md)) actual) else Ok ())"

text \<open>\<open>str::lines\<close>: the last line end is optional, a carriage return before it is dropped.\<close>

definition strip_cr :: "rstring \<Rightarrow> rstring" where
  "strip_cr l = (if l \<noteq> [] \<and> last l = 13 then butlast l else l)"

definition str_lines :: "rstring \<Rightarrow> rstring list" where
  "str_lines s =
     (let ls = str_split ((=) 10) s
      in map strip_cr (if last ls = [] then butlast ls else ls))"

definition bom :: rchar where "bom = 0xFEFF"

fun parse_cedict_lines ::
  "text_env \<Rightarrow> nat \<Rightarrow> rstring list \<Rightarrow> (hsk_error + dictionary_entry list) option" where
  "parse_cedict_lines env n [] = Some (Ok [])"
| "parse_cedict_lines env n (raw # rest) =
     (let line = trim (dropWhile ((=) bom) raw) in
      if line = [] \<or> hd line = 35 then parse_cedict_lines env (n + 1) rest
      else (case parse_cedict_line env line n of
              None \<Rightarrow> None
            | Some (Inl err) \<Rightarrow> Some (Err err)
            | Some (Inr e) \<Rightarrow>
                map_option (\<lambda>r. try_bind r (\<lambda>es. Ok (e # es))) (parse_cedict_lines env (n + 1) rest)))"

definition finish_dictionary ::
  "import_metadata \<Rightarrow> dictionary_entry list \<Rightarrow> hsk_error + dictionary_artifact" where
  "finish_dictionary md parsed =
     (let entries = dedup (sort_key dictionary_sort_key parsed) in
      if (case im_expected_entry_count md of None \<Rightarrow> False | Some n \<Rightarrow> length entries \<noteq> n)
      then Err (InvalidData (ExpectedCountMismatch (length entries) (the (im_expected_entry_count md))))
      else if entries = [] then Err (InvalidData NoEntries)
      else Ok \<lparr>da_schema_version = DATA_SCHEMA_VERSION, da_format = cc_cedict,
               da_dataset_revision = im_dataset_revision md, da_completeness = im_completeness md,
               da_source = im_source md, da_licence = im_licence md,
               da_audited_entry_count = length entries, da_entries = entries\<rparr>)"

definition canonical_json :: "('a \<Rightarrow> hsk_error + u8 list) \<Rightarrow> 'a \<Rightarrow> hsk_error + u8 list" where
  "canonical_json to_json value = try_bind (to_json value) (\<lambda>bytes. Ok (bytes @ [10]))"

definition build_dictionary_artifact ::
  "('s \<Rightarrow> rstring) \<Rightarrow> ('s \<Rightarrow> rstring option) \<Rightarrow> text_env \<Rightarrow> 's \<Rightarrow> import_metadata
   \<Rightarrow> (hsk_error + dictionary_artifact) option" where
  "build_dictionary_artifact sha256_hex from_utf8 env source md =
     (case try_bind (validate_common md CcCedict) (\<lambda>_. verify_source_hash (sha256_hex source) md) of
        Inl e \<Rightarrow> Some (Err e)
      | Inr _ \<Rightarrow>
          (case from_utf8 source of
             None \<Rightarrow> Some (Err (InvalidData NotUtf8))
           | Some text_in \<Rightarrow>
               map_option (\<lambda>r. try_bind r (finish_dictionary md))
                 (parse_cedict_lines env 1 (str_lines text_in))))"

section \<open>HSK tables\<close>

record hsk_fields =
  hf_level :: nat
  hf_simplified :: nat
  hf_pinyin :: nat
  hf_glosses :: nat
  hf_simpler_words :: "nat option"
  hf_independently_usable :: "nat option"
  hf_frequency_rank :: "nat option"

definition normalize_header :: "rstring \<Rightarrow> rstring" where
  "normalize_header h =
     map (\<lambda>c. if c = 45 \<or> c = 32 then 95 else c)
       (map to_ascii_lowercase (trim (dropWhile ((=) bom) h)))"

definition find_header :: "rstring list \<Rightarrow> string list \<Rightarrow> nat option" where
  "find_header headers aliases = position (\<lambda>h. h \<in> set (map lit aliases)) headers"

definition required_header :: "rstring list \<Rightarrow> string list \<Rightarrow> rstring \<Rightarrow> hsk_error + nat" where
  "required_header headers aliases name = (case find_header headers aliases of
     None \<Rightarrow> Err (InvalidData (MissingHeader name)) | Some i \<Rightarrow> Ok i)"

definition fields_from_headers :: "rstring list \<Rightarrow> bool \<Rightarrow> hsk_error + hsk_fields" where
  "fields_from_headers raw require_independently_usable =
     (let headers = map normalize_header raw;
          usable = find_header headers [''independently_usable'', ''standalone''] in
      if require_independently_usable \<and> usable = None then Err (InvalidData MissingUsableHeader)
      else
        try_bind (required_header headers [''level'', ''hsk_level''] (lit ''level'')) (\<lambda>level.
        try_bind (required_header headers [''simplified'', ''word'', ''hanzi''] (lit ''simplified'')) (\<lambda>simplified.
        try_bind (required_header headers [''pinyin''] (lit ''pinyin'')) (\<lambda>pinyin.
        try_bind (required_header headers [''gloss'', ''glosses'', ''definition'', ''definitions''] (lit ''gloss'')) (\<lambda>glosses.
          Ok \<lparr>hf_level = level, hf_simplified = simplified, hf_pinyin = pinyin, hf_glosses = glosses,
              hf_simpler_words = find_header headers [''simpler_words'', ''suggestions''],
              hf_independently_usable = usable,
              hf_frequency_rank = find_header headers [''frequency_rank'', ''rank'']\<rparr>)))))"

definition field :: "rstring list \<Rightarrow> nat \<Rightarrow> rstring \<Rightarrow> hsk_error + rstring" where
  "field row i name = (case get_field row i of None \<Rightarrow> Err (InvalidData (MissingField name)) | Some v \<Rightarrow> Ok v)"

definition parse_usable :: "dataset_completeness \<Rightarrow> rstring \<Rightarrow> rstring option \<Rightarrow> hsk_error + bool" where
  "parse_usable completeness simplified v =
     (case v of
        None \<Rightarrow> if completeness = CompleteDataset then Err (InvalidData (UsableNotAudited simplified)) else Ok False
      | Some s \<Rightarrow>
          if s = [] then (if completeness = CompleteDataset then Err (InvalidData (UsableNotAudited simplified)) else Ok False)
          else if s \<in> set (map lit [''true'', ''1'', ''yes'']) then Ok True
          else if s \<in> set (map lit [''false'', ''0'', ''no'']) then Ok False
          else Err (InvalidData (InvalidUsable s)))"

definition parse_rank :: "rstring option \<Rightarrow> hsk_error + u32 option" where
  "parse_rank v =
     (case v of
        None \<Rightarrow> Ok None
      | Some s \<Rightarrow> if s = [] then Ok None
                  else (case parse_nat 4294967296 s of
                          None \<Rightarrow> Err (InvalidData (InvalidRank s)) | Some n \<Rightarrow> Ok (Some (of_nat n))))"

definition optional_field :: "rstring list \<Rightarrow> nat option \<Rightarrow> rstring option" where
  "optional_field row index = map_option trim (Option.bind index (get_field row))"

definition parse_hsk_row ::
  "text_env \<Rightarrow> dataset_completeness \<Rightarrow> hsk_fields \<Rightarrow> rstring list \<Rightarrow> hsk_error + hsk_entry" where
  "parse_hsk_row env completeness f row =
     try_bind (try_bind (field row (hf_level f) (lit ''level'')) level_from_str) (\<lambda>level.
     try_bind (field row (hf_simplified f) (lit ''simplified'')) (\<lambda>simplified_source.
     try_bind (field row (hf_pinyin f) (lit ''pinyin'')) (\<lambda>pinyin_source.
     try_bind (field row (hf_glosses f) (lit ''glosses'')) (\<lambda>gloss_source.
       let simplified = normalize env simplified_source; pinyin = trim pinyin_source;
           glosses = split_list gloss_source;
           simpler = (case hf_simpler_words f of None \<Rightarrow> []
                      | Some i \<Rightarrow> map (normalize env) (split_list (case get_field row i of None \<Rightarrow> [] | Some s \<Rightarrow> s)))
       in try_bind (parse_usable completeness simplified (optional_field row (hf_independently_usable f))) (\<lambda>usable.
          try_bind (parse_rank (optional_field row (hf_frequency_rank f))) (\<lambda>rank.
            if simplified = [] \<or> pinyin = [] \<or> glosses = [] then Err (InvalidData EmptyRequiredField)
            else Ok \<lparr>he_simplified = simplified, he_pinyin = pinyin, he_glosses = glosses, he_level = level,
                     he_simpler_words = simpler, he_independently_usable = usable, he_frequency_rank = rank\<rparr>))))))"

text \<open>The first entry of a word stays unless a later one has a lower level.\<close>

definition merge_entry :: "hsk_entry \<Rightarrow> (rstring, hsk_entry) btree_map \<Rightarrow> (rstring, hsk_entry) btree_map" where
  "merge_entry e m = (case bt_get m (he_simplified e) of
     None \<Rightarrow> bt_insert m (he_simplified e) e
   | Some old \<Rightarrow> if he_level e < he_level old then bt_insert m (he_simplified e) e else m)"

fun import_rows ::
  "text_env \<Rightarrow> dataset_completeness \<Rightarrow> hsk_fields \<Rightarrow> (hsk_error + rstring list) list
   \<Rightarrow> (rstring, hsk_entry) btree_map \<Rightarrow> hsk_error + (rstring, hsk_entry) btree_map" where
  "import_rows env completeness f [] m = Ok m"
| "import_rows env completeness f (row # rows) m =
     try_bind row (\<lambda>r.
     try_bind (parse_hsk_row env completeness f r) (\<lambda>e.
       import_rows env completeness f rows (merge_entry e m)))"

definition level_counts :: "hsk_entry list \<Rightarrow> nat list" where
  "level_counts es = fold count_level es (replicate 6 0)"

definition verify_expected_counts :: "import_metadata \<Rightarrow> hsk_entry list \<Rightarrow> hsk_error + unit" where
  "verify_expected_counts md es =
     (case im_expected_entry_count md of
        Some n \<Rightarrow> if length es \<noteq> n then Err (InvalidData (ExpectedCountMismatch (length es) n))
          else (case im_expected_level_counts md of
                  Some cs \<Rightarrow> if level_counts es \<noteq> cs then Err (InvalidData (LevelCountMismatch (level_counts es) cs)) else Ok ()
                | None \<Rightarrow> Ok ())
      | None \<Rightarrow> (case im_expected_level_counts md of
                  Some cs \<Rightarrow> if level_counts es \<noteq> cs then Err (InvalidData (LevelCountMismatch (level_counts es) cs)) else Ok ()
                | None \<Rightarrow> Ok ()))"

datatype delimiter = Tab | Comma

primrec delimiter_byte :: "delimiter \<Rightarrow> u8" where
  "delimiter_byte Tab = 9"
| "delimiter_byte Comma = 44"

definition finish_hsk :: "import_metadata \<Rightarrow> (rstring, hsk_entry) btree_map \<Rightarrow> hsk_error + hsk_artifact" where
  "finish_hsk md m =
     (let entries = sort_key (\<lambda>e. (he_level e, he_simplified e)) (map snd m)
      in try_bind (verify_expected_counts md entries) (\<lambda>_.
           Ok \<lparr>ha_schema_version = DATA_SCHEMA_VERSION, ha_standard = HSK_STANDARD,
               ha_dataset_revision = im_dataset_revision md, ha_completeness = im_completeness md,
               ha_source = im_source md, ha_licence = im_licence md,
               ha_audited_entry_count = length entries, ha_audited_level_counts = level_counts entries,
               ha_entries = entries\<rparr>))"

text \<open>\<open>csv\<close> reads the header record and the data records, each of which may be an error.\<close>

definition build_hsk_artifact ::
  "('s \<Rightarrow> rstring) \<Rightarrow> (u8 \<Rightarrow> 's \<Rightarrow> (hsk_error + rstring list) \<times> (hsk_error + rstring list) list)
   \<Rightarrow> text_env \<Rightarrow> 's \<Rightarrow> import_metadata \<Rightarrow> delimiter \<Rightarrow> hsk_error + hsk_artifact" where
  "build_hsk_artifact sha256_hex csv env source md delim =
     try_bind (validate_common md Hsk20) (\<lambda>_.
     try_bind (verify_source_hash (sha256_hex source) md) (\<lambda>_.
     try_bind (fst (csv (delimiter_byte delim) source)) (\<lambda>headers.
     try_bind (fields_from_headers headers (im_completeness md = CompleteDataset)) (\<lambda>f.
     try_bind (import_rows env (im_completeness md) f (snd (csv (delimiter_byte delim) source)) []) (finish_hsk md)))))"

text \<open>The two entry points print the artifact as JSON with a final line end.\<close>

definition generate_hsk_artifact ::
  "('s \<Rightarrow> rstring) \<Rightarrow> (u8 \<Rightarrow> 's \<Rightarrow> (hsk_error + rstring list) \<times> (hsk_error + rstring list) list)
   \<Rightarrow> (hsk_artifact \<Rightarrow> hsk_error + u8 list) \<Rightarrow> text_env \<Rightarrow> 's \<Rightarrow> import_metadata \<Rightarrow> delimiter
   \<Rightarrow> hsk_error + u8 list" where
  "generate_hsk_artifact sha256_hex csv to_json env source md delim =
     try_bind (build_hsk_artifact sha256_hex csv env source md delim) (canonical_json to_json)"

definition generate_dictionary_artifact ::
  "('s \<Rightarrow> rstring) \<Rightarrow> ('s \<Rightarrow> rstring option) \<Rightarrow> (dictionary_artifact \<Rightarrow> hsk_error + u8 list)
   \<Rightarrow> text_env \<Rightarrow> 's \<Rightarrow> import_metadata \<Rightarrow> (hsk_error + u8 list) option" where
  "generate_dictionary_artifact sha256_hex from_utf8 to_json env source md =
     map_option (\<lambda>r. try_bind r (canonical_json to_json))
       (build_dictionary_artifact sha256_hex from_utf8 env source md)"

section \<open>What an import yields\<close>

lemma trim_end_not_blank: "\<not> is_whitespace c \<Longrightarrow> c \<in> set s \<Longrightarrow> c \<in> set (trim_end s)"
  by (induction s rule: rev_induct) (auto simp: trim_end_def)

lemma blank_trim [simp]: "blank (trim s) \<longleftrightarrow> blank s"
proof -
  have "list_all is_whitespace (trim s) \<longleftrightarrow> list_all is_whitespace s"
  proof
    assume a: "list_all is_whitespace (trim s)"
    have "is_whitespace c" if "c \<in> set s" for c
    proof (rule ccontr)
      assume c: "\<not> is_whitespace c"
      then have "c \<in> set (trim_start s)"
        using that by (induction s) (auto simp: trim_start_def)
      then have "c \<in> set (trim s)" using trim_end_not_blank [OF c] by (simp add: trim_def)
      with a c show False by (simp add: list_all_iff)
    qed
    then show "list_all is_whitespace s" by (simp add: list_all_iff)
  next
    assume a: "list_all is_whitespace s"
    have "set (trim s) \<subseteq> set s"
      by (auto simp: trim_def trim_start_def trim_end_def dest!: set_dropWhileD)
    with a show "list_all is_whitespace (trim s)" by (auto simp: list_all_iff)
  qed
  then show ?thesis by (simp add: blank_def trim_eq_Nil_iff)
qed

lemma blank_trim_empty: "blank s \<longleftrightarrow> trim s = []"
  by (simp add: blank_def)

lemma trimmed_pieces_not_blank: "w \<in> set (trimmed_pieces sep s) \<Longrightarrow> \<not> blank w"
  by (auto simp: trimmed_pieces_def simp flip: blank_trim_empty)

text \<open>A normalized text does not begin with a space, so it is blank only when empty.\<close>

lemma surface_loop_first:
  "surface_loop env False False p cs = [] \<or> \<not> is_whitespace (hd (surface_loop env False False p cs))"
proof (induction cs arbitrary: p)
  case (Cons c cs)
  show ?case
  proof (cases "is_whitespace c")
    case True
    then show ?thesis using Cons.IH by (simp add: surface_loop_space)
  next
    case False
    show ?thesis
    proof (cases "is_ellipsis_dot c \<and> 3 \<le> length (takeWhile is_ellipsis_dot (c # cs))")
      case True
      then show ?thesis
        using surface_loop_ellipsis [OF False conjunct1 [OF True] refl conjunct2 [OF True],
          where env = env and st = False and pend = False and p = p] by simp
    next
      case ne: False
      then show ?thesis using surface_loop_char [OF False, of cs env False False p] False
        by (simp add: canonical_space)
    qed
  qed
qed simp

lemma blank_normalize: "blank (normalize env s) \<longleftrightarrow> normalize env s = []"
proof -
  have "w = [] \<or> \<not> is_whitespace (hd w) \<Longrightarrow> list_all is_whitespace w \<longleftrightarrow> w = []" for w
    by (cases w) auto
  then show ?thesis
    using surface_loop_first unfolding blank_def trim_eq_Nil_iff normalize_def normalize_surface_def Let_def
    by blast
qed

end
