(* ===== verification/Hsk_Import_Props.thy ===== *)
theory Hsk_Import_Props
  imports Hsk_Import Hsk_Sample Hsk_Control_Laws
begin

text \<open>
  What the importer writes, the loader accepts: the artifact of a successful import passes the
  checks of the dataset and of the dictionary, and no entry is lost on the way. A dictionary line in the
  documented form is read back, and one shape of line makes the parser panic.
\<close>

section \<open>Vocabulary\<close>

definition entry_good :: "hsk_entry \<Rightarrow> bool" where
  "entry_good e \<longleftrightarrow> validate_hsk_entry e = Inr () \<and> level_ok (he_level e)"

definition map_good :: "(rstring, hsk_entry) btree_map \<Rightarrow> bool" where
  "map_good m \<longleftrightarrow> bt_ok m \<and> (\<forall>(k, e) \<in> set m. he_simplified e = k \<and> entry_good e)"

lemma parsed_row_good:
  assumes "parse_hsk_row env completeness f row = Inr e"
  shows "entry_good e"
proof -
  obtain lv s p g l where parts: "level_from_str lv = Inr l" "he_level e = l" "he_simplified e = normalize env s"
      "he_pinyin e = trim p" "he_glosses e = split_list g" "normalize env s \<noteq> []" "trim p \<noteq> []" "split_list g \<noteq> []"
    using assms by (auto simp: parse_hsk_row_def Let_def split: if_splits)
  have "level_ok l"
    using parts(1) level_new_ok by (auto simp: level_from_str_def split: option.splits)
  moreover have "\<not> list_ex blank (split_list g)"
    using trimmed_pieces_not_blank by (auto simp: split_list_def list_ex_iff)
  moreover have "\<not> blank (trim p)" using parts(7) blank_trim [of p] blank_trim_empty [of p] by blast
  ultimately show ?thesis
    using parts(2-8) by (simp add: entry_good_def validate_hsk_entry_def blank_normalize)
qed

lemma set_bt_insert: "set (bt_insert m k v) \<subseteq> insert (k, v) (set m)"
  by (induction m k v rule: bt_insert.induct) auto

lemma import_rows_good:
  "import_rows env c f rows m = Inr m' \<Longrightarrow> map_good m \<Longrightarrow> map_good m'"
proof (induction rows arbitrary: m)
  case (Cons row rows)
  then obtain r e where e: "row = Inr r" "parse_hsk_row env c f r = Inr e"
      "import_rows env c f rows (merge_entry e m) = Inr m'"
    by auto
  have "map_good (bt_insert m (he_simplified e) e)"
    using Cons.prems(2) set_bt_insert [of m "he_simplified e" e] parsed_row_good [OF e(2)]
    by (auto simp: map_good_def)
  then have "map_good (merge_entry e m)"
    using Cons.prems(2) by (auto simp: merge_entry_def split: option.split)
  from Cons.IH [OF e(3) this] show ?case .
qed simp

lemma map_good_distinct: "map_good m \<Longrightarrow> distinct (map he_simplified (map snd m))"
proof -
  assume m: "map_good m"
  then have "map he_simplified (map snd m) = bt_keys m"
    unfolding bt_keys_def map_good_def by (induction m) (auto simp: bt_ok_def bt_keys_def)
  then show ?thesis using m bt_ok_distinct [of m] by (simp add: map_good_def)
qed

lemma sorted_words_key:
  assumes "sorted (map (\<lambda>e. (he_level e, he_simplified e)) es)" "distinct (map he_simplified es)"
  shows "sorted (map hsk_sort_key es)"
  using assms
proof (induction es)
  case (Cons e es)
  have "hsk_sort_key e \<le> hsk_sort_key d" if "d \<in> set es" for d
  proof -
    have "(he_level e, he_simplified e) \<le> (he_level d, he_simplified d)" "he_simplified e \<noteq> he_simplified d"
      using Cons.prems that by auto
    then show ?thesis by (auto simp: hsk_sort_key_def less_eq_prod_def less_prod_def)
  qed
  with Cons show ?case by auto
qed simp

lemma load_entries_succeed:
  assumes "load_inv pre st" "distinct (map he_simplified (pre @ es))"
    and "\<And>e. e \<in> set es \<Longrightarrow> validate_hsk_entry e = Inr () \<and> normalize env (he_simplified e) = he_simplified e"
  shows "\<exists>st'. load_entries env (length pre) es st = Inr st'
    \<and> ls_level_counts st' = fold count_level es (ls_level_counts st)"
  using assms
proof (induction es arbitrary: pre st)
  case (Cons e es)
  have "bt_get (ls_by_word st) (he_simplified e) = find_word pre (he_simplified e)"
    using Cons.prems(1) unfolding load_inv_def by blast
  also have "\<dots> = None" using Cons.prems(2) by (auto simp: find_word_None)
  finally have none: "bt_get (ls_by_word st) (he_simplified e) = None" .
  obtain u where u: "load_entry env (length pre) e st = Inr u" "ls_level_counts u = count_level e (ls_level_counts st)"
    using none Cons.prems(3) [of e] by (simp add: load_entry_def Let_def)
  have "load_inv (pre @ [e]) u" by (rule load_entry_inv [OF Cons.prems(1) u(1)])
  with Cons.IH [of "pre @ [e]" u] Cons.prems(2,3) u show ?case by simp
qed simp

lemma built_header_valid:
  assumes "validate_common md kind = Inr ()" "policy = AllowIncompleteTestSeed \<or> im_completeness md = CompleteDataset"
  shows "validate_audit (im_source md) (im_licence md) = Inr ()" "\<not> blank (im_dataset_revision md)"
  using assms by (auto simp: validate_common_def validate_audit_def split: if_splits)

lemma hsk_artifact_loads:
  assumes "build_hsk_artifact sha csv env source md delim = Inr art"
    and "ha_entries art \<noteq> []"
    and "policy = AllowIncompleteTestSeed \<or> im_completeness md = CompleteDataset"
    and "\<And>e. e \<in> set (ha_entries art) \<Longrightarrow> normalize env (he_simplified e) = he_simplified e"
    and "\<And>a b c d e. \<exists>h. digest a b c d e = Inr h"
  shows "entries_legal (ha_entries art)
    \<and> (\<exists>ds. dataset_from_artifact env digest art policy = Inr ds \<and> ds_entries ds = ha_entries art)"
proof -
  obtain f rows m where b: "validate_common md Hsk20 = Inr ()"
      "import_rows env (im_completeness md) f rows [] = Inr m" "finish_hsk md m = Inr art"
    using assms(1) by (auto simp: build_hsk_artifact_def)
  have good: "map_good m" by (rule import_rows_good [OF b(2)]) (simp add: map_good_def)
  let ?es = "sort_key (\<lambda>e. (he_level e, he_simplified e)) (map snd m)"
  have art: "ha_schema_version art = DATA_SCHEMA_VERSION" "ha_standard art = HSK_STANDARD"
      "ha_dataset_revision art = im_dataset_revision md" "ha_completeness art = im_completeness md"
      "ha_source art = im_source md" "ha_licence art = im_licence md" "ha_entries art = ?es"
      "ha_audited_entry_count art = length ?es" "ha_audited_level_counts art = level_counts ?es"
    using b(3) by (auto simp: finish_hsk_def Let_def)
  have "mset (map he_simplified ?es) = mset (map he_simplified (map snd m))"
    by (simp only: mset_map mset_sort)
  then have dist: "distinct (map he_simplified ?es)"
    using map_good_distinct [OF good] mset_eq_imp_distinct_iff by blast
  have ge: "entry_good e" if "e \<in> set ?es" for e
    using that good by (auto simp: map_good_def)
  have sorted: "sort_key hsk_sort_key ?es = ?es"
    by (intro sort_key_id_if_sorted sorted_words_key [OF sorted_sort_key dist])
  have "\<exists>st'. load_entries env (length ([] :: hsk_entry list)) ?es load_start = Inr st'
      \<and> ls_level_counts st' = fold count_level ?es (ls_level_counts load_start)"
  proof (rule load_entries_succeed [OF load_start_inv])
    show "distinct (map he_simplified ([] @ ?es))" using dist by simp
    show "validate_hsk_entry e = Inr () \<and> normalize env (he_simplified e) = he_simplified e" if "e \<in> set ?es" for e
      using ge [OF that] assms(4) [of e] that art(7) by (simp add: entry_good_def)
  qed
  then obtain st where st: "load_entries env 0 ?es load_start = Inr st" "ls_level_counts st = level_counts ?es"
    by (auto simp: level_counts_def load_start_def)
  have head: "validate_header (ha_schema_version art) (ha_standard art) (ha_dataset_revision art)
      (ha_completeness art) (ha_source art) (ha_licence art) policy = Inr ()"
    using built_header_valid [OF b(1) assms(3)] assms(3) by (auto simp: validate_header_def art)
  obtain h where h: "digest (im_dataset_revision md) (im_completeness md) (im_source md)
      (length ?es, level_counts ?es) ?es = Inr h"
    using assms(5) by blast
  have "?es \<noteq> []" using assms(2) art(7) by simp
  then have "\<exists>ds. dataset_from_artifact env digest art policy = Inr ds \<and> ds_entries ds = ?es"
    unfolding dataset_from_artifact_def art sorted Let_def using st h head [unfolded art] by simp
  moreover have "entries_legal ?es" using ge by (auto simp: entries_legal_def list_all_iff entry_good_def)
  ultimately show ?thesis by (simp only: art(7))
qed

section \<open>Dictionary\<close>

lemma dedup_sorted:
  fixes f :: "'a \<Rightarrow> 'b :: linorder"
  shows "sorted (map f xs) \<Longrightarrow> sorted (map f (dedup xs))"
proof (induction "(=) :: 'a \<Rightarrow> 'a \<Rightarrow> bool" xs rule: dedup_by.induct)
  case (3 x y xs)
  then show ?case using set_dedup [of "y # xs"] by (auto split: if_splits)
qed simp_all

lemma dedup_hd: "xs \<noteq> [] \<Longrightarrow> \<exists>ys. dedup xs = hd xs # ys"
  by (induction "(=) :: 'a \<Rightarrow> 'a \<Rightarrow> bool" xs rule: dedup_by.induct) auto

lemma dedup_idem [simp]: "dedup (dedup xs) = dedup xs"
proof (induction "(=) :: 'a \<Rightarrow> 'a \<Rightarrow> bool" xs rule: dedup_by.induct)
  case (3 x y xs)
  then show ?case using dedup_hd [of "y # xs"] by (cases "x = y") auto
qed simp_all

lemma load_dictionary_succeeds:
  "(\<And>e. e \<in> set es \<Longrightarrow> validate_dictionary_entry e = Inr ()) \<Longrightarrow> \<exists>r. load_dictionary i es m t = Inr r"
  by (induction es arbitrary: i m t) auto

lemma parsed_line_good:
  assumes "parse_cedict_line env line n = Some (Inr e)"
  shows "\<not> blank (de_traditional e) \<and> de_definitions e \<noteq> [] \<and> \<not> list_ex blank (de_definitions e)"
proof -
  obtain a src defs where "de_traditional e = trim a" "trim a \<noteq> []" "de_definitions e = defs" "defs \<noteq> []"
      "parse_definitions src = Some defs"
    using assms by (auto simp: parse_cedict_line_def Let_def cedict_error_def split: option.splits if_splits)
  moreover from this have "defs = trimmed_pieces 47 (butlast (tl src))"
    by (auto simp: parse_definitions_def split: if_splits)
  then have "\<not> list_ex blank defs"
    using trimmed_pieces_not_blank by (auto simp: list_ex_iff)
  ultimately show ?thesis using blank_trim [of a] blank_trim_empty [of a] by simp
qed

lemma parsed_lines_good:
  "parse_cedict_lines env n lines = Some (Inr es) \<Longrightarrow> e \<in> set es \<Longrightarrow>
    \<not> blank (de_traditional e) \<and> de_definitions e \<noteq> [] \<and> \<not> list_ex blank (de_definitions e)"
proof (induction env n lines arbitrary: es rule: parse_cedict_lines.induct)
  case (2 env n raw rest)
  let ?line = "trim (dropWhile ((=) bom) raw)"
  show ?case
  proof (cases "?line = [] \<or> hd ?line = 35")
    case True
    then show ?thesis using 2 by (simp add: Let_def)
  next
    case False
    then obtain d ds where d: "parse_cedict_line env ?line n = Some (Inr d)"
        "parse_cedict_lines env (n + 1) rest = Some (Inr ds)" "es = d # ds"
      using "2.prems"(1) by (auto simp: Let_def split: option.splits sum.splits)
    show ?thesis
    proof (cases "e = d")
      case True
      then show ?thesis using parsed_line_good [OF d(1)] by simp
    next
      case ne: False
      then have "e \<in> set ds" using "2.prems"(2) d(3) by simp
      with "2.IH"(2) [OF refl False d(1) refl d(2)] show ?thesis by blast
    qed
  qed
qed simp

lemma dictionary_artifact_loads:
  assumes "build_dictionary_artifact sha utf8 env source md = Some (Inr art)"
    and "policy = AllowIncompleteTestSeed \<or> im_completeness md = CompleteDataset"
    and "\<And>e. e \<in> set (da_entries art) \<Longrightarrow> \<not> blank (de_simplified e) \<and> \<not> blank (de_pinyin e)"
    and "\<And>a b c d e. \<exists>h. digest a b c d e = Inr h"
  shows "\<exists>d. dictionary_from_artifact digest art policy = Inr d \<and> ld_entries d = da_entries art"
proof -
  obtain parsed lines where b: "validate_common md CcCedict = Inr ()"
      "parse_cedict_lines env 1 lines = Some (Inr parsed)" "finish_dictionary md parsed = Inr art"
    using assms(1) by (auto simp: build_dictionary_artifact_def split: sum.splits option.splits)
  let ?es = "dedup (sort_key dictionary_sort_key parsed)"
  have art: "da_schema_version art = DATA_SCHEMA_VERSION" "da_format art = cc_cedict"
      "da_dataset_revision art = im_dataset_revision md" "da_completeness art = im_completeness md"
      "da_source art = im_source md" "da_licence art = im_licence md" "da_entries art = ?es"
      "da_audited_entry_count art = length ?es" and ne: "?es \<noteq> []"
    using b(3) by (auto simp: finish_dictionary_def Let_def split: if_splits)
  have sorted: "dedup (sort_key dictionary_sort_key ?es) = ?es"
    by (simp add: sort_key_id_if_sorted dedup_sorted)
  have "validate_dictionary_entry e = Inr ()" if "e \<in> set ?es" for e
    using parsed_lines_good [OF b(2), of e] assms(3) [of e] that art(7)
    by (simp add: validate_dictionary_entry_def)
  then obtain m t where load: "load_dictionary 0 ?es [] trie_new = Inr (m, t)"
    using load_dictionary_succeeds [of ?es 0 "[]" trie_new] by auto
  obtain h where h: "digest (im_dataset_revision md) (im_completeness md) (im_source md) (length ?es) ?es = Inr h"
    using assms(4) by blast
  show ?thesis
    unfolding dictionary_from_artifact_def art sorted Let_def
    using built_header_valid [OF b(1) assms(2)] assms(2) ne load h by auto
qed

section \<open>Lines of the dictionary\<close>

definition plain_word :: "rstring \<Rightarrow> bool" where
  "plain_word w \<longleftrightarrow> w \<noteq> [] \<and> list_all (\<lambda>c. \<not> is_whitespace c) w"

text \<open>\<open>Traditional Simplified [pin1 yin1] \<close> and then the definitions.\<close>

definition cedict_line :: "rstring \<Rightarrow> rstring \<Rightarrow> rstring \<Rightarrow> rstring \<Rightarrow> rstring" where
  "cedict_line traditional simplified pinyin definitions =
     traditional @ [32] @ simplified @ [32, 91] @ pinyin @ [93, 32] @ definitions"

definition slash_list :: "rstring list \<Rightarrow> rstring" where
  "slash_list ds = [47] @ str_join [47] ds @ [47]"

lemma position_first: "list_all (\<lambda>c. \<not> P c) t \<Longrightarrow> P x \<Longrightarrow> position P (t @ x # r) = Some (length t)"
  by (induction t) simp_all

lemma trim_start_word: "plain_word w \<Longrightarrow> trim_start (w @ r) = w @ r"
  by (cases w) (simp_all add: trim_start_def plain_word_def)

lemma trim_end_last: "\<not> is_whitespace c \<Longrightarrow> trim_end (s @ [c]) = s @ [c]"
  by (simp add: trim_end_def)

lemma trim_plain: "plain_word w \<Longrightarrow> trim w = w"
proof -
  assume w: "plain_word w"
  then have "\<not> is_whitespace (last w)" "w = butlast w @ [last w]"
    by (auto simp: plain_word_def list_all_iff)
  then have "trim_end w = w" using trim_end_last by metis
  then show ?thesis using trim_start_word [OF w, of "[]"] by (simp add: trim_def)
qed

lemma space_chars [simp]: "is_whitespace 32" "\<not> is_whitespace 47" "\<not> is_whitespace 91"
  by (simp_all add: is_whitespace_def)

lemma no_space: "plain_word w \<Longrightarrow> list_all (\<lambda>c. 32 \<noteq> c) w"
  by (auto simp: plain_word_def list_all_iff)

lemma parse_line_prefix:
  assumes "plain_word t" "plain_word s" "list_all (\<lambda>c. c \<noteq> 93) p"
    and "trim defs = defs" "defs \<noteq> []" "hd defs = 47" "last defs = 47"
  shows "parse_cedict_line env (cedict_line t s p defs) n =
    (case parse_definitions defs of
       None \<Rightarrow> None
     | Some definitions \<Rightarrow>
         Some (if blank p \<or> definitions = []
               then cedict_error n ''one or more required fields are empty''
               else Ok \<lparr>de_traditional = t, de_simplified = normalize env s,
                        de_pinyin = numbered_pinyin_to_tone_marks p,
                        de_definitions = definitions, de_frequency_rank = None\<rparr>))"
proof -
  let ?r2 = "[91] @ p @ [93, 32] @ defs"
  let ?r1 = "s @ [32] @ ?r2"
  have line: "cedict_line t s p defs = t @ 32 # ?r1" by (simp add: cedict_line_def)
  have p1: "position ((=) 32) (cedict_line t s p defs) = Some (length t)"
    unfolding line using no_space [OF assms(1)] by (intro position_first) simp_all
  have d1: "take (length t) (cedict_line t s p defs) = t"
    "trim_start (drop (length t) (cedict_line t s p defs)) = ?r1"
    unfolding line using trim_start_word [OF assms(2), of "[32] @ ?r2"] by (simp_all add: trim_start_def)
  have p2: "position ((=) 32) ?r1 = Some (length s)"
    using position_first [of "(=) 32" s 32 ?r2] no_space [OF assms(2)] by simp
  have d2: "take (length s) ?r1 = s" "trim_start (drop (length s) ?r1) = ?r2"
    by (simp_all add: trim_start_def)
  have "list_all (\<lambda>c. 93 \<noteq> c) ([91] @ p)" using assms(3) by (auto simp: list_all_iff)
  then have p3: "position ((=) 93) ?r2 = Some (length p + 1)"
    using position_first [of "(=) 93" "[91] @ p" 93 "32 # defs"] by simp
  have d3: "char_slice ?r2 1 (length p + 1) = p" "drop (length p + 1 + 1) ?r2 = 32 # defs"
    by (simp_all add: char_slice_def)
  have d4: "trim (32 # defs) = defs" using assms(4) by (simp add: trim_def trim_start_def)
  have ne: "trim t \<noteq> []" "trim s \<noteq> []"
    using trim_plain assms(1,2) by (simp_all add: plain_word_def)
  show ?thesis
    unfolding parse_cedict_line_def p1 option.case Let_def d1 p2 d2 p3 d3 d4
    using assms(5-7) ne trim_plain [OF assms(1)] trim_plain [OF assms(2)]
    by (simp split: option.split)
qed

lemma trim_slashes: "trim ([47] @ r @ [47]) = [47] @ r @ [47]" "trim [47] = [47]"
  using trim_end_last [of 47 "47 # r"] trim_end_last [of 47 "[]"] by (simp_all add: trim_def trim_start_def)

lemma split_join:
  "ds \<noteq> [] \<Longrightarrow> \<forall>d \<in> set ds. list_all (\<lambda>c. c \<noteq> 47) d \<Longrightarrow> str_split ((=) 47) (str_join [47] ds) = ds"
proof (induction ds rule: induct_list012)
  case (2 d)
  then show ?case unfolding str_join.simps by (intro str_split_no_sep) (auto simp: list_all_iff)
next
  case (3 d e ds)
  have "str_split ((=) 47) (str_join [47] (e # ds)) = e # ds"
    by (rule 3(2)) (use 3(4) in simp_all)
  moreover have "str_split ((=) 47) (d @ 47 # str_join [47] (e # ds)) = d # str_split ((=) 47) (str_join [47] (e # ds))"
    using 3(4) by (intro str_split_sep) (auto simp: list_all_iff)
  ultimately show ?case by (simp only: str_join.simps append_Cons append_Nil)
qed simp

lemma dedup_strict: "sorted_wrt (<) (ds :: 'a :: linorder list) \<Longrightarrow> dedup ds = ds"
  by (intro dedup_by_id) (auto elim!: sorted_wrt_mono_rel [rotated])

lemma parse_slash_list:
  assumes "ds \<noteq> []" "sorted_wrt (<) ds"
    and "\<forall>d \<in> set ds. d \<noteq> [] \<and> trim d = d \<and> list_all (\<lambda>c. c \<noteq> 47) d"
  shows "parse_definitions (slash_list ds) = Some ds"
proof -
  have "map trim ds = ds" "filter (\<lambda>t. t \<noteq> []) ds = ds"
    using assms(3) by (auto intro: map_idI simp: filter_id_conv)
  moreover have "sort ds = ds" using assms(2) by (simp add: sorted_sort_id strict_sorted_iff)
  moreover have "butlast (tl (slash_list ds)) = str_join [47] ds" by (simp add: slash_list_def butlast_append)
  ultimately show ?thesis
    using split_join [OF assms(1)] assms dedup_strict [OF assms(2)]
    by (simp add: parse_definitions_def slash_list_def trimmed_pieces_def)
qed

text \<open>A dictionary line in the documented form is parsed into exactly its parts: the
  traditional spelling as written, the simplified one normalized, the pinyin with tone marks and
  all definitions.\<close>
theorem cedict_line_roundtrip:
  assumes "plain_word t" "plain_word s" "list_all (\<lambda>c. c \<noteq> 93) p" "\<not> blank p"
    and "ds \<noteq> []" "sorted_wrt (<) ds" "\<forall>d \<in> set ds. d \<noteq> [] \<and> trim d = d \<and> list_all (\<lambda>c. c \<noteq> 47) d"
  shows "parse_cedict_line env (cedict_line t s p (slash_list ds)) n =
    Some (Ok \<lparr>de_traditional = t, de_simplified = normalize env s,
              de_pinyin = numbered_pinyin_to_tone_marks p, de_definitions = ds, de_frequency_rank = None\<rparr>)"
proof -
  have "trim (slash_list ds) = slash_list ds" "slash_list ds \<noteq> []" "hd (slash_list ds) = 47" "last (slash_list ds) = 47"
    using trim_slashes(1) [of "str_join [47] ds"] by (simp_all add: slash_list_def)
  from parse_line_prefix [OF assms(1-3) this] parse_slash_list [OF assms(5-7)] assms(4,5)
  show ?thesis by simp
qed

theorem cedict_line_roundtrip_witness:
  "parse_cedict_line sample_env (cedict_line word_nihao word_nihao (lit ''ni3 hao3'') (slash_list [lit ''hello'', lit ''hi''])) 1 =
    Some (Ok \<lparr>de_traditional = word_nihao, de_simplified = word_nihao,
              de_pinyin = [0x6E, 0x1D0, 32, 0x68, 0x1CE, 0x6F], de_definitions = [lit ''hello'', lit ''hi''],
              de_frequency_rank = None\<rparr>)"
proof -
  have "plain_word word_nihao" "list_all (\<lambda>c. c \<noteq> 93) (lit ''ni3 hao3'')" "\<not> blank (lit ''ni3 hao3'')"
    "[lit ''hello'', lit ''hi''] \<noteq> []" "sorted_wrt (<) [lit ''hello'', lit ''hi'' :: rstring]"
    "\<forall>d \<in> set [lit ''hello'', lit ''hi'']. d \<noteq> [] \<and> trim d = d \<and> list_all (\<lambda>c. c \<noteq> 47) d"
    by code_simp+
  note r = cedict_line_roundtrip [OF this(1) this(1) this(2-6), of sample_env 1]
  moreover have "normalize sample_env word_nihao = word_nihao"
    "numbered_pinyin_to_tone_marks (lit ''ni3 hao3'') = [0x6E, 0x1D0, 32, 0x68, 0x1CE, 0x6F]"
    by code_simp+
  ultimately show ?thesis by simp
qed

text \<open>A line whose definitions are a single slash makes the parser panic: the slice between
  the first and the last slash then starts after its end.\<close>
theorem single_slash_panics:
  assumes "plain_word t" "plain_word s" "list_all (\<lambda>c. c \<noteq> 93) p"
  shows "parse_cedict_line env (cedict_line t s p [47]) n = None"
  using parse_line_prefix [OF assms, of "[47]" env n] trim_slashes(2)
  by (simp add: parse_definitions_def)

theorem single_slash_panics_witness:
  "parse_cedict_line sample_env (cedict_line word_ni word_ni (lit ''ni3'') [47]) 1 = None"
  by (rule single_slash_panics; code_simp)

section \<open>Artifacts\<close>


definition sample_metadata :: "dataset_kind \<Rightarrow> nat \<Rightarrow> import_metadata" where
  "sample_metadata kind n = \<lparr>im_schema_version = 1, im_kind = kind, im_standard = Some HSK_STANDARD,
     im_dataset_revision = lit ''r'', im_completeness = CompleteDataset, im_source = sample_source,
     im_licence = sample_licence, im_expected_entry_count = Some n,
     im_expected_level_counts = Some [1, 0, 0, 0, 0, 0]\<rparr>"

definition sample_csv :: "u8 \<Rightarrow> unit \<Rightarrow> (hsk_error + rstring list) \<times> (hsk_error + rstring list) list" where
  "sample_csv d u = (Inr (map lit [''Level'', ''Word'', ''Pinyin'', ''Gloss'', ''Standalone'']),
     [Inr [lit ''1'', word_nihao, lit ''p'', lit ''hi|hello'', lit ''yes''],
      Inr [lit ''2'', word_nihao, lit ''p'', lit ''greeting'', lit ''no'']])"

definition sample_hash :: "unit \<Rightarrow> rstring" where "sample_hash u = replicate 64 97"


end
