(* ===== verification/Float32.thy ===== *)
theory Float32
  imports Prelude
begin

text \<open>
  The \<open>f32\<close> operations the contracts use, on the IEEE-754 bit pattern. A finite value is a
  whole number of units of \<open>2^-149\<close>, so a sum or a difference is an exact integer that is then
  rounded to nearest, ties to even.
\<close>

section \<open>Reading a bit pattern\<close>

definition f32_mag :: "f32 \<Rightarrow> nat" where
  "f32_mag x = unat x mod 2147483648"

definition f32_negative :: "f32 \<Rightarrow> bool" where
  "f32_negative x \<longleftrightarrow> 2147483648 \<le> unat x"

text \<open>The magnitude of infinity: exponent 255, fraction 0.\<close>

definition f32_inf_mag :: nat where "f32_inf_mag = 2139095040"

definition f32_is_finite :: "f32 \<Rightarrow> bool" where
  "f32_is_finite x \<longleftrightarrow> f32_mag x < f32_inf_mag"

definition f32_is_nan :: "f32 \<Rightarrow> bool" where
  "f32_is_nan x \<longleftrightarrow> f32_inf_mag < f32_mag x"

text \<open>Order: magnitudes order as their bit patterns; both zeros are equal.\<close>

definition f32_key :: "f32 \<Rightarrow> int" where
  "f32_key x = (if f32_negative x then - int (f32_mag x) else int (f32_mag x))"

definition f32_less :: "f32 \<Rightarrow> f32 \<Rightarrow> bool" where
  "f32_less x y \<longleftrightarrow> \<not> f32_is_nan x \<and> \<not> f32_is_nan y \<and> f32_key x < f32_key y"

definition f32_le :: "f32 \<Rightarrow> f32 \<Rightarrow> bool" where
  "f32_le x y \<longleftrightarrow> \<not> f32_is_nan x \<and> \<not> f32_is_nan y \<and> f32_key x \<le> f32_key y"

text \<open>\<open>f32::min\<close> and \<open>f32::max\<close> of values that are no NaN.\<close>

definition f32_min :: "f32 \<Rightarrow> f32 \<Rightarrow> f32" where
  "f32_min x y = (if f32_is_nan x then y else if f32_is_nan y then x else if f32_less y x then y else x)"

definition f32_max :: "f32 \<Rightarrow> f32 \<Rightarrow> f32" where
  "f32_max x y = (if f32_is_nan x then y else if f32_is_nan y then x else if f32_less x y then y else x)"

section \<open>Sums\<close>

text \<open>The value of a finite magnitude in units of \<open>2^-149\<close>.\<close>

definition mag_units :: "nat \<Rightarrow> nat" where
  "mag_units m = (if m < 8388608 then m else (8388608 + m mod 8388608) * 2 ^ (m div 8388608 - 1))"

definition f32_units :: "f32 \<Rightarrow> int" where
  "f32_units x = (if f32_negative x then - int (mag_units (f32_mag x)) else int (mag_units (f32_mag x)))"

text \<open>How often a magnitude of at least 24 bits is halved to fit 24 bits.\<close>

fun excess_bits :: "nat \<Rightarrow> nat \<Rightarrow> nat" where
  "excess_bits 0 n = 0"
| "excess_bits (Suc fuel) n = (if n < 16777216 then 0 else Suc (excess_bits fuel (n div 2)))"

definition half_even :: "nat \<Rightarrow> nat \<Rightarrow> nat" where
  "half_even n d =
     (let q = n div d; r = n mod d
      in if 2 * r < d \<or> 2 * r = d \<and> even q then q else q + 1)"

text \<open>No sum of two finite values has more than 278 bits.\<close>

definition round_mag :: "nat \<Rightarrow> nat" where
  "round_mag n = (let k = excess_bits 300 n in min (half_even n (2 ^ k) + k * 8388608) f32_inf_mag)"

definition f32_of_units :: "int \<Rightarrow> f32" where
  "f32_of_units i = (if i < 0 then of_nat (2147483648 + round_mag (nat (- i))) else of_nat (round_mag (nat i)))"

definition f32_neg :: "f32 \<Rightarrow> f32" where
  "f32_neg x = Bit_Operations.xor x 2147483648"

definition f32_nan :: f32 where "f32_nan = 2143289344"

definition f32_add :: "f32 \<Rightarrow> f32 \<Rightarrow> f32" where
  "f32_add x y =
     (if f32_is_nan x \<or> f32_is_nan y then f32_nan
      else if \<not> f32_is_finite x then
        (if \<not> f32_is_finite y \<and> f32_negative x \<noteq> f32_negative y then f32_nan else x)
      else if \<not> f32_is_finite y then y
      else f32_of_units (f32_units x + f32_units y))"

definition f32_sub :: "f32 \<Rightarrow> f32 \<Rightarrow> f32" where
  "f32_sub x y = f32_add x (f32_neg y)"

definition zero_f32 :: f32 where "zero_f32 = 0"
definition one_f32 :: f32 where "one_f32 = 1065353216"
definition f32_epsilon :: f32 where "f32_epsilon = 872415232"

section \<open>The order\<close>

lemma f32_less_irrefl [simp]: "\<not> f32_less x x"
  by (simp add: f32_less_def)

lemma f32_less_trans: "f32_less x y \<Longrightarrow> f32_less y z \<Longrightarrow> f32_less x z"
  by (auto simp: f32_less_def)

lemma f32_not_less: "\<not> f32_is_nan x \<Longrightarrow> \<not> f32_is_nan y \<Longrightarrow> \<not> f32_less x y \<longleftrightarrow> f32_le y x"
  by (auto simp: f32_less_def f32_le_def)

lemma f32_finite_no_nan: "f32_is_finite x \<Longrightarrow> \<not> f32_is_nan x"
  by (simp add: f32_is_finite_def f32_is_nan_def)

end
