(* ===== verification/Contracts.thy ===== *)
theory Contracts
  imports Float32 Hsk_Model Text_Tools
begin

text \<open>
  The wire contracts of the browser companion (\<open>contracts.rs\<close>), the requests: every message
  type as a record, its \<open>Validate\<close> implementation as a function that returns the first error
  with its path and message.
\<close>

section \<open>Errors and the shared checks\<close>

record contract_error =
  ce_path :: string
  ce_message :: string

definition error_at :: "string \<Rightarrow> string \<Rightarrow> contract_error + unit" where
  "error_at path message = Err \<lparr>ce_path = path, ce_message = message\<rparr>"

definition require :: "bool \<Rightarrow> string \<Rightarrow> string \<Rightarrow> contract_error + unit" where
  "require ok path message = (if ok then Ok () else error_at path message)"

text \<open>Checks one after the other: the first error is the result.\<close>

fun check_all :: "('e + unit) list \<Rightarrow> 'e + unit" where
  "check_all [] = Ok ()"
| "check_all (c # cs) = try_bind c (\<lambda>_. check_all cs)"

fun check_each :: "(nat \<Rightarrow> 'a \<Rightarrow> 'e + unit) \<Rightarrow> nat \<Rightarrow> 'a list \<Rightarrow> 'e + unit" where
  "check_each f i [] = Ok ()"
| "check_each f i (x # xs) = try_bind (f i x) (\<lambda>_. check_each f (i + 1) xs)"

definition check_some :: "('a \<Rightarrow> 'e + unit) \<Rightarrow> 'a option \<Rightarrow> 'e + unit" where
  "check_some f v = (case v of None \<Rightarrow> Ok () | Some x \<Rightarrow> f x)"

definition indexed :: "string \<Rightarrow> nat \<Rightarrow> string" where
  "indexed path i = path @ ''['' @ show_nat i @ '']''"

definition BUILD_FINGERPRINT :: string where
  "BUILD_FINGERPRINT = ''hskify-windows-x86_64-msvc-cuda13.1-sm89-2026-10-01-r10''"
definition SOURCE_LANGUAGE :: rstring where "SOURCE_LANGUAGE = lit ''en''"
definition TARGET_LANGUAGE :: rstring where "TARGET_LANGUAGE = lit ''zh-CN''"
definition MAX_VISIBLE_RECTS :: nat where "MAX_VISIBLE_RECTS = 64"
definition MAX_VISIBLE_BLOCK_IDS :: nat where "MAX_VISIBLE_BLOCK_IDS = 64"
definition MAX_CHAPTER_PAGE_ORDER :: nat where "MAX_CHAPTER_PAGE_ORDER = 100000"
definition MAX_DOCUMENT_BYTES :: nat where "MAX_DOCUMENT_BYTES = 1048576"
definition MAX_DOCUMENT_BLOCKS :: nat where "MAX_DOCUMENT_BLOCKS = 2000"
definition MAX_DOCUMENT_BLOCK_BYTES :: nat where "MAX_DOCUMENT_BLOCK_BYTES = 16384"
definition MAX_ITEM_ID_CHARS :: nat where "MAX_ITEM_ID_CHARS = 512"
definition MAX_OUTPUT_TEXT_CHARS :: nat where "MAX_OUTPUT_TEXT_CHARS = 16384"
definition MAX_PINYIN_CHARS :: nat where "MAX_PINYIN_CHARS = 32768"
definition MAX_MESSAGE_CHARS :: nat where "MAX_MESSAGE_CHARS = 2048"
definition MAX_POLYGON_POINTS :: nat where "MAX_POLYGON_POINTS = 2048"
definition MAX_HSK_ITEMS :: nat where "MAX_HSK_ITEMS = 512"
definition MAX_DEFINITIONS :: nat where "MAX_DEFINITIONS = 32"
definition MAX_LOOKUP_STRING_CHARS :: nat where "MAX_LOOKUP_STRING_CHARS = 8192"

definition require_build_fingerprint :: "string \<Rightarrow> rstring \<Rightarrow> contract_error + unit" where
  "require_build_fingerprint path value =
     require (value = lit BUILD_FINGERPRINT) path (''expected exact build fingerprint '' @ BUILD_FINGERPRINT)"

definition require_nonempty :: "string \<Rightarrow> rstring \<Rightarrow> contract_error + unit" where
  "require_nonempty path value = require (trim value \<noteq> []) path ''must not be empty''"

definition require_at_most :: "string \<Rightarrow> rstring \<Rightarrow> nat \<Rightarrow> contract_error + unit" where
  "require_at_most path value maximum =
     require (length value \<le> maximum) path (''must contain at most '' @ show_nat maximum @ '' characters'')"

definition require_nonempty_at_most :: "string \<Rightarrow> rstring \<Rightarrow> nat \<Rightarrow> contract_error + unit" where
  "require_nonempty_at_most path value maximum =
     try_bind (require_nonempty path value) (\<lambda>_. require_at_most path value maximum)"

definition require_nonempty_utf8_at_most :: "string \<Rightarrow> rstring \<Rightarrow> nat \<Rightarrow> contract_error + unit" where
  "require_nonempty_utf8_at_most path value maximum =
     try_bind (require_nonempty path value) (\<lambda>_.
       require (str_len value \<le> maximum) path (''must contain at most '' @ show_nat maximum @ '' UTF-8 bytes''))"

definition f32_in_unit :: "f32 \<Rightarrow> bool" where
  "f32_in_unit x \<longleftrightarrow> f32_is_finite x \<and> f32_le zero_f32 x \<and> f32_le x one_f32"

definition require_unit :: "string \<Rightarrow> f32 \<Rightarrow> contract_error + unit" where
  "require_unit path value = require (f32_in_unit value) path ''must be a finite number from 0 to 1''"

definition is_lower_hex :: "rchar \<Rightarrow> bool" where
  "is_lower_hex c \<longleftrightarrow> is_ascii_digit c \<or> 97 \<le> c \<and> c \<le> 102"

definition require_sha256 :: "string \<Rightarrow> rstring \<Rightarrow> contract_error + unit" where
  "require_sha256 path value =
     require (str_len value = 64 \<and> list_all is_lower_hex value) path ''must be a 64-character hexadecimal SHA-256''"

section \<open>Handshake and health\<close>

datatype browser_level = One | Two | Three | Four | Five | Six

definition browser_level_try_from :: "u8 \<Rightarrow> string + browser_level" where
  "browser_level_try_from v =
     (if v = 1 then Inr One else if v = 2 then Inr Two else if v = 3 then Inr Three
      else if v = 4 then Inr Four else if v = 5 then Inr Five else if v = 6 then Inr Six
      else Inl (''HSK level must be from 1 through 6, got '' @ show_nat (unat v)))"

primrec browser_level_u8 :: "browser_level \<Rightarrow> u8" where
  "browser_level_u8 One = 1"
| "browser_level_u8 Two = 2"
| "browser_level_u8 Three = 3"
| "browser_level_u8 Four = 4"
| "browser_level_u8 Five = 5"
| "browser_level_u8 Six = 6"

record native_handshake =
  nh_build_fingerprint :: rstring
  nh_extension_version :: rstring
  nh_extension_origin :: rstring

definition moz_scheme :: rstring where "moz_scheme = lit ''moz-extension://''"

definition validate_handshake :: "native_handshake \<Rightarrow> contract_error + unit" where
  "validate_handshake h = check_all
     [require_build_fingerprint ''buildFingerprint'' (nh_build_fingerprint h),
      require_nonempty_at_most ''extensionVersion'' (nh_extension_version h) 128,
      require (str_starts_with (nh_extension_origin h) moz_scheme
               \<and> str_len moz_scheme < str_len (nh_extension_origin h))
        ''extensionOrigin'' ''must be a non-empty moz-extension origin'',
      require (\<not> str_ends_with (nh_extension_origin h) [47])
        ''extensionOrigin'' ''must not contain a trailing slash'']"

record browser_capabilities =
  bc_source_languages :: "rstring list"
  bc_target_languages :: "rstring list"
  bc_hsk_levels :: "browser_level list"
  bc_models_ready :: bool

definition validate_capabilities :: "browser_capabilities \<Rightarrow> contract_error + unit" where
  "validate_capabilities c = check_all
     [require (bc_source_languages c = [SOURCE_LANGUAGE])
        ''capabilities.sourceLanguages'' ''this build supports English only'',
      require (bc_target_languages c = [TARGET_LANGUAGE])
        ''capabilities.targetLanguages'' ''this build supports Simplified Chinese only'',
      require (bc_hsk_levels c = [One, Two, Three, Four, Five, Six])
        ''capabilities.hskLevels'' ''must contain levels 1 through 6 in order'']"

record native_ready =
  nr_build_fingerprint :: rstring
  nr_engine_version :: rstring
  nr_port :: u16
  nr_token :: rstring
  nr_session_expires_at :: u64
  nr_capabilities :: browser_capabilities

definition validate_ready :: "native_ready \<Rightarrow> contract_error + unit" where
  "validate_ready r = check_all
     [require_build_fingerprint ''buildFingerprint'' (nr_build_fingerprint r),
      require_nonempty_at_most ''engineVersion'' (nr_engine_version r) 128,
      require (nr_port r \<noteq> 0) ''port'' ''must be non-zero'',
      require (43 \<le> str_len (nr_token r)
               \<and> list_all (\<lambda>c. is_ascii_alphanumeric c \<or> c = 45 \<or> c = 95) (nr_token r))
        ''token'' ''must be a base64url-encoded 256-bit or stronger token'',
      require (nr_session_expires_at r \<noteq> 0) ''sessionExpiresAtUnixMs'' ''must be a non-zero Unix timestamp'',
      validate_capabilities (nr_capabilities r)]"

record resource_identity =
  ri_id :: rstring
  ri_repository :: rstring
  ri_repository_revision :: rstring
  ri_filename :: rstring
  ri_bytes :: u64
  ri_sha256 :: rstring

definition kebab_part :: "rstring \<Rightarrow> bool" where
  "kebab_part part \<longleftrightarrow> part \<noteq> [] \<and> list_all (\<lambda>c. is_ascii_lowercase c \<or> is_ascii_digit c) part"

definition name_char :: "rchar \<Rightarrow> bool" where
  "name_char c \<longleftrightarrow> is_ascii_alphanumeric c \<or> c = 46 \<or> c = 95 \<or> c = 45"

definition repository_part :: "rstring \<Rightarrow> bool" where
  "repository_part part \<longleftrightarrow> part \<noteq> [] \<and> is_ascii_alphanumeric (hd part) \<and> list_all name_char part"

text \<open>Exactly two parts around one slash.\<close>

definition repository_form :: "rstring \<Rightarrow> bool" where
  "repository_form s = (case str_split ((=) 47) s of
     [owner, name] \<Rightarrow> repository_part owner \<and> repository_part name | _ \<Rightarrow> False)"

definition validate_identity_at :: "nat \<Rightarrow> resource_identity \<Rightarrow> contract_error + unit" where
  "validate_identity_at index r =
     (let path = indexed ''resourceIdentities'' index in check_all
     [require (ri_id r \<noteq> [] \<and> str_len (ri_id r) \<le> 128 \<and> list_all kebab_part (str_split ((=) 45) (ri_id r)))
        (path @ ''.id'') ''must be a lowercase kebab-case identifier'',
      require (str_len (ri_repository r) \<le> 256 \<and> repository_form (ri_repository r))
        (path @ ''.repository'') ''must contain exactly one owner/name repository'',
      require (str_len (ri_repository_revision r) = 40 \<and> list_all is_lower_hex (ri_repository_revision r))
        (path @ ''.repositoryRevision'') ''must be a lowercase 40-character hexadecimal revision'',
      require (ri_filename r \<noteq> [] \<and> str_len (ri_filename r) \<le> 255 \<and> ri_filename r \<noteq> [46]
               \<and> ri_filename r \<noteq> [46, 46] \<and> is_ascii_alphanumeric (hd (ri_filename r))
               \<and> list_all name_char (ri_filename r))
        (path @ ''.filename'') ''must be a safe ASCII filename'',
      require (0 < ri_bytes r \<and> ri_bytes r \<le> 9007199254740991)
        (path @ ''.bytes'') ''must be a positive JavaScript-safe integer'',
      require (str_len (ri_sha256 r) = 64 \<and> list_all is_lower_hex (ri_sha256 r))
        (path @ ''.sha256'') ''must be a lowercase 64-character hexadecimal SHA-256''])"

fun check_identities :: "rstring option \<Rightarrow> nat \<Rightarrow> resource_identity list \<Rightarrow> contract_error + unit" where
  "check_identities previous index [] = Ok ()"
| "check_identities previous index (r # rs) =
     try_bind (validate_identity_at index r) (\<lambda>_.
     try_bind (require (case previous of None \<Rightarrow> True | Some p \<Rightarrow> p < ri_id r)
                (indexed ''resourceIdentities'' index @ ''.id'')
                ''must be unique and sorted in ascending ordinal order'') (\<lambda>_.
       check_identities (Some (ri_id r)) (index + 1) rs))"

definition validate_resource_identities :: "resource_identity list \<Rightarrow> contract_error + unit" where
  "validate_resource_identities rs = check_all
     [require (rs \<noteq> []) ''resourceIdentities'' ''must not be empty'',
      require (length rs \<le> 256) ''resourceIdentities'' ''must contain at most 256 entries'',
      check_identities None 0 rs]"

datatype setup_state = MissingModels | Downloading | Verifying | Warming | Ready | SetupFailed
datatype health_status = HealthReady

record health_response =
  hr_build_fingerprint :: rstring
  hr_engine_version :: rstring
  hr_status :: health_status
  hr_setup_state :: setup_state
  hr_resource_identities :: "resource_identity list"

definition validate_health :: "health_response \<Rightarrow> contract_error + unit" where
  "validate_health h = check_all
     [require_build_fingerprint ''buildFingerprint'' (hr_build_fingerprint h),
      require_nonempty_at_most ''engineVersion'' (hr_engine_version h) 128,
      validate_resource_identities (hr_resource_identities h)]"

record setup_status =
  st_state :: setup_state
  st_model_id :: rstring
  st_current_file :: "rstring option"
  st_completed_bytes :: "u64 option"
  st_total_bytes :: "u64 option"
  st_required_disk_bytes :: "u64 option"
  st_message :: rstring
  st_error_code :: "rstring option"

definition validate_setup_status :: "setup_status \<Rightarrow> contract_error + unit" where
  "validate_setup_status s = check_all
     [require_nonempty_at_most ''modelId'' (st_model_id s) 128,
      require (st_model_id s = lit ''qwen3.5-4b'') ''modelId'' ''must identify the mandatory qwen3.5-4b model'',
      require_nonempty ''message'' (st_message s),
      require ((st_completed_bytes s = None) = (st_total_bytes s = None))
        ''completedBytes'' ''completed and total bytes must be present together'',
      require (case (st_completed_bytes s, st_total_bytes s) of
                 (Some done_bytes, Some all_bytes) \<Rightarrow> done_bytes \<le> all_bytes | _ \<Rightarrow> True)
        ''completedBytes'' ''must not exceed total bytes'',
      require (st_state s = SetupFailed \<longrightarrow> (case st_error_code s of None \<Rightarrow> False | Some c \<Rightarrow> c \<noteq> []))
        ''errorCode'' ''failed setup requires an error code'']"

end
