(* ===== verification/Contracts_Jobs.thy ===== *)
theory Contracts_Jobs
  imports Contracts
begin

text \<open>
  The job requests of \<open>contracts.rs\<close>: image jobs, document jobs with their canonical hash, and
  focus updates. SHA-256 and the JSON encoder are parameters.
\<close>

section \<open>Rectangles and settings\<close>

record normalized_rect =
  nr_x :: f32
  nr_y :: f32
  nr_width :: f32
  nr_height :: f32

definition check_finite :: "string \<Rightarrow> string \<times> f32 \<Rightarrow> contract_error + unit" where
  "check_finite path field =
     require (f32_is_finite (snd field)) (path @ ''.'' @ fst field) ''must be finite''"

definition validate_rect :: "string \<Rightarrow> normalized_rect \<Rightarrow> contract_error + unit" where
  "validate_rect path r = check_all
     (map (check_finite path) [(''x'', nr_x r), (''y'', nr_y r), (''width'', nr_width r), (''height'', nr_height r)] @
      [require (\<not> (f32_less (nr_x r) zero_f32 \<or> f32_less (nr_y r) zero_f32
                  \<or> f32_le (nr_width r) zero_f32 \<or> f32_le (nr_height r) zero_f32
                  \<or> f32_less (f32_add one_f32 f32_epsilon) (f32_add (nr_x r) (nr_width r))
                  \<or> f32_less (f32_add one_f32 f32_epsilon) (f32_add (nr_y r) (nr_height r))))
         path ''must be a positive rectangle contained in normalized image space''])"

definition validate_rects :: "normalized_rect list \<Rightarrow> contract_error + unit" where
  "validate_rects rects = check_all
     [require (length rects \<le> MAX_VISIBLE_RECTS) ''visibleRects''
        (''must contain at most '' @ show_nat MAX_VISIBLE_RECTS @ '' rectangles''),
      check_each (\<lambda>i. validate_rect (indexed ''visibleRects'' i)) 0 rects]"

datatype browser_surface_kind = SurfaceImage | SurfaceBackground | SurfaceCanvas | SurfaceWebgl | SurfaceFrame
datatype reading_direction = Ltr | Rtl
datatype learning_mode = Natural | Strict
datatype source_span_kind = Prose | Heading | Dialogue | Caption | Thought | Sfx
datatype source_provenance = Dom | Ocr
datatype chapter_kind = ImageChapter | DocumentChapter

record browser_job_settings =
  bs_source_language :: rstring
  bs_target_language :: rstring
  bs_hsk_standard :: rstring
  bs_hsk_level :: browser_level
  bs_learning_mode :: learning_mode

definition BROWSER_HSK_STANDARD :: rstring where "BROWSER_HSK_STANDARD = lit ''2.0''"

definition validate_settings :: "browser_job_settings \<Rightarrow> contract_error + unit" where
  "validate_settings s = check_all
     [require (bs_source_language s = SOURCE_LANGUAGE)
        ''settings.sourceLanguage'' ''this build supports English only'',
      require (bs_target_language s = TARGET_LANGUAGE)
        ''settings.targetLanguage'' ''this build supports Simplified Chinese only'',
      require (bs_hsk_standard s = BROWSER_HSK_STANDARD)
        ''settings.hskStandard'' ''this build supports HSK 2.0 only'']"

section \<open>Creation identity\<close>

fun check_retries :: "rstring set \<Rightarrow> rstring list \<Rightarrow> contract_error + unit" where
  "check_retries unique [] = Ok ()"
| "check_retries unique (r # rs) = check_all
     [require_nonempty_at_most ''retryItemIds'' r 256,
      require (r \<notin> unique) ''retryItemIds'' ''must be unique'',
      check_retries (insert r unique) rs]"

definition validate_creation_identity :: "rstring \<Rightarrow> rstring list \<Rightarrow> contract_error + unit" where
  "validate_creation_identity i retries = check_all
     [require_nonempty_at_most ''clientRequestId'' i 128,
      require (length retries \<le> MAX_DOCUMENT_BLOCKS) ''retryItemIds'' ''too many retry items'',
      check_retries {} retries]"

section \<open>Image jobs\<close>

record image_job_request =
  ij_build_fingerprint :: rstring
  ij_client_request_id :: rstring
  ij_retry_item_ids :: "rstring list"
  ij_client_image_id :: rstring
  ij_source_sha256 :: rstring
  ij_source_mime_type :: rstring
  ij_natural_width :: u32
  ij_natural_height :: u32
  ij_page_session_id :: rstring
  ij_source_index :: u32
  ij_chapter_source_order :: "u32 list"
  ij_surface_kind :: browser_surface_kind
  ij_reading_direction :: reading_direction
  ij_settings :: browser_job_settings
  ij_visible_rects :: "normalized_rect list"

definition supported_mime_types :: "rstring list" where
  "supported_mime_types = map lit [''image/png'', ''image/jpeg'', ''image/webp'', ''image/gif'']"

definition validate_job_fields :: "image_job_request \<Rightarrow> contract_error + unit" where
  "validate_job_fields r = check_all
     [require_nonempty ''clientImageId'' (ij_client_image_id r),
      require_sha256 ''sourceSha256'' (ij_source_sha256 r),
      require (ij_source_mime_type r \<in> set supported_mime_types)
        ''sourceMimeType'' ''must be a supported raster image MIME type'',
      require (ij_natural_width r \<noteq> 0 \<and> ij_natural_height r \<noteq> 0)
        ''naturalWidth'' ''decoded image dimensions must be non-zero'',
      require_nonempty ''pageSessionId'' (ij_page_session_id r),
      validate_settings (ij_settings r)]"

definition validate_image_job :: "image_job_request \<Rightarrow> contract_error + unit" where
  "validate_image_job r = check_all
     [validate_creation_identity (ij_client_request_id r) (ij_retry_item_ids r),
      require_build_fingerprint ''buildFingerprint'' (ij_build_fingerprint r),
      validate_job_fields r,
      require (ij_chapter_source_order r \<noteq> []) ''chapterSourceOrder''
        ''must contain at least the submitted source index'',
      require (length (ij_chapter_source_order r) \<le> MAX_CHAPTER_PAGE_ORDER) ''chapterSourceOrder''
        (''must contain at most '' @ show_nat MAX_CHAPTER_PAGE_ORDER @ '' source indexes''),
      require (ij_source_index r \<in> set (ij_chapter_source_order r)
               \<and> card (set (ij_chapter_source_order r)) = length (ij_chapter_source_order r))
        ''chapterSourceOrder'' ''must contain unique source identities in DOM order and include sourceIndex'',
      validate_rects (ij_visible_rects r)]"

record ('context) image_pipeline_input =
  ip_retry_item_ids :: "rstring list"
  ip_surrounding_context :: "'context list"
  ip_source_sha256 :: rstring
  ip_source_mime_type :: rstring
  ip_natural_width :: u32
  ip_natural_height :: u32
  ip_page_session_id :: rstring
  ip_source_index :: u32
  ip_chapter_source_order :: "u32 list"
  ip_surface_kind :: browser_surface_kind
  ip_reading_direction :: reading_direction
  ip_settings :: browser_job_settings

definition pipeline_input :: "image_job_request \<Rightarrow> 'context image_pipeline_input" where
  "pipeline_input r = \<lparr>ip_retry_item_ids = ij_retry_item_ids r, ip_surrounding_context = [],
     ip_source_sha256 = ij_source_sha256 r, ip_source_mime_type = ij_source_mime_type r,
     ip_natural_width = ij_natural_width r, ip_natural_height = ij_natural_height r,
     ip_page_session_id = ij_page_session_id r, ip_source_index = ij_source_index r,
     ip_chapter_source_order = ij_chapter_source_order r, ip_surface_kind = ij_surface_kind r,
     ip_reading_direction = ij_reading_direction r, ip_settings = ij_settings r\<rparr>"

record browser_job_created =
  jc_build_fingerprint :: rstring
  jc_job_id :: rstring

definition validate_job_created :: "browser_job_created \<Rightarrow> contract_error + unit" where
  "validate_job_created c = check_all
     [require_build_fingerprint ''buildFingerprint'' (jc_build_fingerprint c),
      require_nonempty ''jobId'' (jc_job_id c)]"

section \<open>Focus updates\<close>

datatype focus_update_request =
  FocusImage "normalized_rect list" bool
| FocusDocument "rstring list" bool

primrec focus_active :: "focus_update_request \<Rightarrow> bool" where
  "focus_active (FocusImage rects active) = active"
| "focus_active (FocusDocument ids active) = active"

fun check_visible_ids :: "rstring set \<Rightarrow> nat \<Rightarrow> rstring list \<Rightarrow> contract_error + unit" where
  "check_visible_ids seen i [] = Ok ()"
| "check_visible_ids seen i (v # vs) = check_all
     [require_nonempty_at_most (indexed ''visibleBlockIds'' i) v 256,
      require (v \<notin> seen) (indexed ''visibleBlockIds'' i) ''must be unique'',
      check_visible_ids (insert v seen) (i + 1) vs]"

primrec validate_focus :: "focus_update_request \<Rightarrow> contract_error + unit" where
  "validate_focus (FocusImage rects active) = validate_rects rects"
| "validate_focus (FocusDocument ids active) = check_all
     [require (length ids \<le> MAX_VISIBLE_BLOCK_IDS) ''visibleBlockIds''
        (''must contain at most '' @ show_nat MAX_VISIBLE_BLOCK_IDS @ '' IDs''),
      check_visible_ids {} 0 ids]"

section \<open>Document jobs\<close>

record document_source_block =
  sb_parent_block_id :: rstring
  sb_sub_item_order :: u32
  sb_item_id :: rstring
  sb_source_index :: u32
  sb_item_order :: u32
  sb_kind :: source_span_kind
  sb_provenance :: source_provenance
  sb_text :: rstring

definition validate_source_block :: "string \<Rightarrow> document_source_block \<Rightarrow> contract_error + unit" where
  "validate_source_block path b = check_all
     [require_nonempty_at_most (path @ ''.parentBlockId'') (sb_parent_block_id b) 256,
      require_nonempty_at_most (path @ ''.itemId'') (sb_item_id b) 256,
      require (sb_provenance b = Dom) (path @ ''.provenance'') ''document blocks must have DOM provenance'',
      require (trim (sb_text b) \<noteq> []) (path @ ''.text'') ''must not be empty'',
      require (str_len (sb_text b) \<le> MAX_DOCUMENT_BLOCK_BYTES) (path @ ''.text'')
        (''must contain at most '' @ show_nat MAX_DOCUMENT_BLOCK_BYTES @ '' UTF-8 bytes''),
      require (\<not> (13 \<in> set (sb_text b) \<or> 0 \<in> set (sb_text b) \<or> trim (sb_text b) \<noteq> sb_text b))
        (path @ ''.text'') ''must be deterministically normalized, trimmed text using LF line breaks'']"

primrec span_kind_name :: "source_span_kind \<Rightarrow> string" where
  "span_kind_name Prose = ''prose''"
| "span_kind_name Heading = ''heading''"
| "span_kind_name Dialogue = ''dialogue''"
| "span_kind_name Caption = ''caption''"
| "span_kind_name Thought = ''thought''"
| "span_kind_name Sfx = ''sfx''"

primrec provenance_name :: "source_provenance \<Rightarrow> string" where
  "provenance_name Dom = ''dom''"
| "provenance_name Ocr = ''ocr''"

definition show_u32 :: "u32 \<Rightarrow> rstring" where
  "show_u32 n = lit (show_nat (unat n))"

text \<open>One record of the canonical document: unit separator \<open>1F\<close>, record separator \<open>1E\<close>.\<close>

definition canonical_record :: "document_source_block \<Rightarrow> rstring" where
  "canonical_record b =
     sb_item_id b @ [31] @ sb_parent_block_id b @ [31] @ show_u32 (sb_sub_item_order b) @ [31] @
     show_u32 (sb_source_index b) @ [31] @ show_u32 (sb_item_order b) @ [31] @
     lit (span_kind_name (sb_kind b)) @ [31] @ lit (provenance_name (sb_provenance b)) @ [31] @
     sb_text b @ [30]"

text \<open>The hasher is fed record after record, which hashes their concatenation.\<close>

definition canonical_document_sha256 :: "(rstring \<Rightarrow> rstring) \<Rightarrow> document_source_block list \<Rightarrow> rstring" where
  "canonical_document_sha256 sha256_text blocks = sha256_text (concat (map canonical_record blocks))"

record document_job_request =
  dj_build_fingerprint :: rstring
  dj_client_request_id :: rstring
  dj_retry_item_ids :: "rstring list"
  dj_focus :: focus_update_request
  dj_page_session_id :: rstring
  dj_source_sha256 :: rstring
  dj_settings :: browser_job_settings
  dj_blocks :: "document_source_block list"

text \<open>\<open>parent_orders\<close> holds the next order of every parent; an unknown parent starts at 0.\<close>

fun check_blocks ::
  "rstring set \<Rightarrow> (rstring \<Rightarrow> u32) \<Rightarrow> (u32 \<times> u32) option \<Rightarrow> nat \<Rightarrow> document_source_block list
     \<Rightarrow> contract_error + unit" where
  "check_blocks ids parent_orders previous index [] = Ok ()"
| "check_blocks ids parent_orders previous index (b # bs) =
     (let path = indexed ''blocks'' index; expected = parent_orders (sb_parent_block_id b);
          position = (sb_source_index b, sb_item_order b)
      in check_all
       [validate_source_block path b,
        require (sb_sub_item_order b = expected) (path @ ''.subItemOrder'')
          ''must start at zero and increase consecutively within its parent'',
        require (sb_item_id b \<notin> ids) (path @ ''.itemId'') ''must be unique'',
        require (case previous of None \<Rightarrow> True
                 | Some (s, i) \<Rightarrow> s < fst position \<or> s = fst position \<and> i < snd position)
          path ''blocks must be strictly ordered by sourceIndex and itemOrder'',
        check_blocks (insert (sb_item_id b) ids)
          (parent_orders(sb_parent_block_id b := expected + 1)) (Some position) (index + 1) bs])"

definition focus_in_document :: "rstring set \<Rightarrow> focus_update_request \<Rightarrow> bool" where
  "focus_in_document ids focus =
     (case focus of FocusDocument visible active \<Rightarrow> list_all (\<lambda>v. v \<in> ids) visible | _ \<Rightarrow> False)"

definition validate_serialized_size :: "'e + nat \<Rightarrow> contract_error + unit" where
  "validate_serialized_size serialized =
     (case serialized of Err _ \<Rightarrow> error_at ''$'' ''document request could not be serialized''
      | Ok bytes \<Rightarrow> require (bytes \<le> MAX_DOCUMENT_BYTES) ''$''
          (''must contain at most '' @ show_nat MAX_DOCUMENT_BYTES @ '' UTF-8 bytes''))"

definition validate_document_job ::
  "(rstring \<Rightarrow> rstring) \<Rightarrow> (document_job_request \<Rightarrow> 'e + nat) \<Rightarrow> document_job_request \<Rightarrow> contract_error + unit" where
  "validate_document_job sha256_text json_len r = (let ids = set (map sb_item_id (dj_blocks r)) in check_all
     [validate_creation_identity (dj_client_request_id r) (dj_retry_item_ids r),
      require_build_fingerprint ''buildFingerprint'' (dj_build_fingerprint r),
      require_nonempty_at_most ''pageSessionId'' (dj_page_session_id r) 256,
      require_sha256 ''sourceSha256'' (dj_source_sha256 r),
      validate_settings (dj_settings r),
      require (dj_blocks r \<noteq> [] \<and> length (dj_blocks r) \<le> MAX_DOCUMENT_BLOCKS) ''blocks''
        (''must contain between 1 and '' @ show_nat MAX_DOCUMENT_BLOCKS @ '' blocks''),
      check_blocks {} (\<lambda>_. 0) None 0 (dj_blocks r),
      require (list_all (\<lambda>i. i \<in> ids) (dj_retry_item_ids r)) ''retryItemIds''
        ''must identify submitted source blocks'',
      validate_focus (dj_focus r),
      require (focus_in_document ids (dj_focus r)) ''focus'' ''must identify submitted document blocks'',
      validate_serialized_size (json_len r),
      require (canonical_document_sha256 sha256_text (dj_blocks r) = dj_source_sha256 r) ''sourceSha256''
        ''does not match the native canonical document hash''])"

end
