(* ===== verification/Contracts_Results.thy ===== *)
theory Contracts_Results
  imports Contracts_Jobs
begin

text \<open>
  The results of \<open>contracts.rs\<close>: text styles and layouts, translated texts with their teaching
  terms, image regions, document blocks, job updates and the replay response.
\<close>

section \<open>Points, colours and styles\<close>

record point =
  pt_x :: f32
  pt_y :: f32

definition validate_point :: "string \<Rightarrow> point \<Rightarrow> contract_error + unit" where
  "validate_point path p = check_all [require_unit (path @ ''.x'') (pt_x p), require_unit (path @ ''.y'') (pt_y p)]"

definition require_polygon :: "string \<Rightarrow> point list \<Rightarrow> contract_error + unit" where
  "require_polygon path points = check_all
     [require (3 \<le> length points \<and> length points \<le> MAX_POLYGON_POINTS) path
        (''must contain between 3 and '' @ show_nat MAX_POLYGON_POINTS @ '' points''),
      check_each (\<lambda>i. validate_point (indexed path i)) 0 points]"

definition is_css_color :: "rstring \<Rightarrow> bool" where
  "is_css_color v \<longleftrightarrow> str_len v \<in> {4, 5, 7, 9} \<and> str_starts_with v [35] \<and> list_all is_ascii_hexdigit (tl v)"

definition require_css_color :: "string \<Rightarrow> rstring \<Rightarrow> contract_error + unit" where
  "require_css_color path v = require (is_css_color v) path ''must be a hexadecimal CSS color''"

record color_band =
  cb_position :: f32
  cb_foreground :: rstring
  cb_outline_color :: "rstring option"

definition validate_color_band :: "string \<Rightarrow> color_band \<Rightarrow> contract_error + unit" where
  "validate_color_band path b = check_all
     [require_unit (path @ ''.position'') (cb_position b),
      require_css_color (path @ ''.foreground'') (cb_foreground b),
      check_some (require_css_color (path @ ''.outlineColor'')) (cb_outline_color b)]"

datatype font_category = Sans | Serif | Handwritten | Display | Brush
datatype text_alignment = LeftAligned | CenterAligned | RightAligned
datatype writing_mode = HorizontalTb | VerticalRl

record browser_text_style =
  ts_font_id :: rstring
  ts_category :: font_category
  ts_foreground :: rstring
  ts_weight :: u16
  ts_italic_degrees :: f32
  ts_outline_color :: "rstring option"
  ts_outline_width_ratio :: f32
  ts_shadow_color :: "rstring option"
  ts_shadow_x_ratio :: f32
  ts_shadow_y_ratio :: f32
  ts_alignment :: text_alignment
  ts_writing_mode :: writing_mode
  ts_line_height :: f32
  ts_letter_spacing_em :: f32
  ts_color_bands :: "color_band list"

fun check_bands :: "string \<Rightarrow> f32 option \<Rightarrow> nat \<Rightarrow> color_band list \<Rightarrow> contract_error + unit" where
  "check_bands path previous i [] = Ok ()"
| "check_bands path previous i (b # bs) =
     (let band_path = indexed (path @ ''.colorBands'') i in check_all
       [validate_color_band band_path b,
        require (\<not> (case previous of None \<Rightarrow> False | Some p \<Rightarrow> f32_le (cb_position b) p))
          (band_path @ ''.position'') ''must be strictly greater than the preceding color band'',
        check_bands path (Some (cb_position b)) (i + 1) bs])"

definition validate_text_style :: "string \<Rightarrow> browser_text_style \<Rightarrow> contract_error + unit" where
  "validate_text_style path s = check_all
     ([require_nonempty (path @ ''.fontId'') (ts_font_id s),
       require_css_color (path @ ''.foreground'') (ts_foreground s),
       check_some (require_css_color (path @ ''.outlineColor'')) (ts_outline_color s),
       check_some (require_css_color (path @ ''.shadowColor'')) (ts_shadow_color s),
       require (1 \<le> ts_weight s \<and> ts_weight s \<le> 1000) (path @ ''.weight'') ''must be from 1 through 1000''] @
      map (check_finite path)
        [(''italicDegrees'', ts_italic_degrees s), (''outlineWidthRatio'', ts_outline_width_ratio s),
         (''shadowXRatio'', ts_shadow_x_ratio s), (''shadowYRatio'', ts_shadow_y_ratio s),
         (''lineHeight'', ts_line_height s), (''letterSpacingEm'', ts_letter_spacing_em s)] @
      [require (\<not> (f32_less (ts_outline_width_ratio s) zero_f32 \<or> f32_le (ts_line_height s) zero_f32))
         (path @ ''.lineHeight'') ''ratios must be non-negative and line height must be positive'',
       check_bands path None 0 (ts_color_bands s)])"

record browser_text_layout =
  tl_suggested_lines :: "rstring list"
  tl_font_size_to_image_width :: f32
  tl_safe_polygon :: "point list"

definition validate_text_layout :: "string \<Rightarrow> browser_text_layout \<Rightarrow> contract_error + unit" where
  "validate_text_layout path l = check_all
     [require (f32_is_finite (tl_font_size_to_image_width l) \<and> \<not> f32_le (tl_font_size_to_image_width l) zero_f32)
        (path @ ''.fontSizeToImageWidth'') ''must be a positive finite ratio'',
      require_polygon (path @ ''.safePolygon'') (tl_safe_polygon l)]"

datatype patch_mime_type = Png

record region_patch =
  rp_blob_id :: rstring
  rp_mime_type :: patch_mime_type
  rp_rect :: normalized_rect

definition validate_patch :: "string \<Rightarrow> region_patch \<Rightarrow> contract_error + unit" where
  "validate_patch path p = check_all
     [require_nonempty (path @ ''.blobId'') (rp_blob_id p),
      validate_rect (path @ ''.rect'') (rp_rect p)]"

section \<open>Translated texts\<close>

datatype repair_state = NotNeeded | RepairPending | Accepted | RepairRejected
datatype teaching_term_reason = AboveLevelTerm | OutsideListTerm

record teaching_term =
  tt_text :: rstring
  tt_start_char :: nat
  tt_end_char :: nat
  tt_pinyin :: rstring
  tt_definitions :: "rstring list"
  tt_required_level :: "browser_level option"
  tt_reason :: teaching_term_reason

record translated_hsk_status =
  hs_requested_level :: browser_level
  hs_learning_mode :: learning_mode
  hs_strictly_valid :: bool
  hs_level_coverage :: f32
  hs_above_level_tokens :: "rstring list"
  hs_teaching_terms :: "teaching_term list"
  hs_repair_state :: repair_state

definition definition_ok :: "rstring \<Rightarrow> bool" where
  "definition_ok d \<longleftrightarrow> \<not> (trim d = [] \<or> 2048 < length d)"

text \<open>\<open>previous_end\<close> starts at 0, which no start lies before.\<close>

fun check_teaching_terms :: "string \<Rightarrow> nat \<Rightarrow> nat \<Rightarrow> teaching_term list \<Rightarrow> contract_error + unit" where
  "check_teaching_terms path previous_end i [] = Ok ()"
| "check_teaching_terms path previous_end i (t # ts) =
     (let term_path = indexed (path @ ''.teachingTerms'') i in check_all
       [require_nonempty_at_most (term_path @ ''.text'') (tt_text t) 256,
        require_nonempty_at_most (term_path @ ''.pinyin'') (tt_pinyin t) 512,
        require (tt_definitions t \<noteq> [] \<and> length (tt_definitions t) \<le> MAX_DEFINITIONS
                 \<and> list_all definition_ok (tt_definitions t))
          (term_path @ ''.definitions'') ''must contain non-empty definitions'',
        require (tt_start_char t < tt_end_char t) (term_path @ ''.endChar'') ''must be greater than startChar'',
        require (\<not> (0 < i \<and> tt_start_char t < previous_end)) (term_path @ ''.startChar'')
          ''teaching terms must be ordered and non-overlapping'',
        check_teaching_terms path (tt_end_char t) (i + 1) ts])"

fun check_tokens :: "string \<Rightarrow> rstring set \<Rightarrow> nat \<Rightarrow> rstring list \<Rightarrow> contract_error + unit" where
  "check_tokens path seen i [] = Ok ()"
| "check_tokens path seen i (v # vs) =
     (let token_path = indexed (path @ ''.aboveLevelTokens'') i in check_all
       [require_nonempty_at_most token_path v 256,
        require (v \<notin> seen) token_path ''duplicate above-level token'',
        check_tokens path (insert v seen) (i + 1) vs])"

definition validate_hsk_status :: "string \<Rightarrow> translated_hsk_status \<Rightarrow> contract_error + unit" where
  "validate_hsk_status path s = check_all
     [require_unit (path @ ''.levelCoverage'') (hs_level_coverage s),
      require (length (hs_above_level_tokens s) \<le> MAX_HSK_ITEMS) (path @ ''.aboveLevelTokens'')
        (''must contain at most '' @ show_nat MAX_HSK_ITEMS @ '' items''),
      check_tokens path {} 0 (hs_above_level_tokens s),
      require (length (hs_teaching_terms s) \<le> MAX_HSK_ITEMS) (path @ ''.teachingTerms'')
        (''must contain at most '' @ show_nat MAX_HSK_ITEMS @ '' items''),
      require (\<not> (hs_strictly_valid s \<and> (hs_above_level_tokens s \<noteq> [] \<or> hs_teaching_terms s \<noteq> [])))
        (path @ ''.strictlyValid'') ''strictly valid text cannot retain teaching exceptions'',
      check_teaching_terms path 0 0 (hs_teaching_terms s)]"

text \<open>\<open>ProtectedName\<close> of the translator (\<open>direct_hsk.rs\<close>) and how a generation ended.\<close>

datatype generation_termination = Stop | TokenLimit
datatype protected_name_reason = ProtectedPerson | ProtectedPlace | ProtectedTitle | UnavoidableProperNoun

record protected_name =
  pr_source_text :: rstring
  pr_chinese_text :: rstring
  pr_reason :: protected_name_reason

definition is_han_char :: "rchar \<Rightarrow> bool" where
  "is_han_char c \<longleftrightarrow> 13312 \<le> c \<and> c \<le> 19903 \<or> 19968 \<le> c \<and> c \<le> 40959 \<or> 63744 \<le> c \<and> c \<le> 64255"

definition contains_han :: "rstring \<Rightarrow> bool" where
  "contains_han s = list_ex is_han_char s"

definition is_anchored :: "protected_name \<Rightarrow> rstring \<Rightarrow> rstring \<Rightarrow> bool" where
  "is_anchored n source chinese \<longleftrightarrow>
     trim (pr_source_text n) \<noteq> [] \<and> length (pr_source_text n) \<le> 128
     \<and> trim (pr_chinese_text n) \<noteq> [] \<and> length (pr_chinese_text n) \<le> 128
     \<and> str_contains source (pr_source_text n) \<and> str_contains chinese (pr_chinese_text n)
     \<and> contains_han (pr_chinese_text n)
     \<and> \<not> list_ex (\<lambda>c. is_ascii_lowercase c \<or> is_ascii_uppercase c) (pr_chinese_text n)"

record translated_text =
  tx_termination :: generation_termination
  tx_protected_names :: "protected_name list"
  tx_source_text :: rstring
  tx_base_chinese :: rstring
  tx_displayed_chinese :: rstring
  tx_pinyin :: rstring
  tx_hsk :: translated_hsk_status

definition validate_translated_text :: "string \<Rightarrow> translated_text \<Rightarrow> contract_error + unit" where
  "validate_translated_text path t = check_all
     [require (tx_termination t = Stop \<and> length (tx_protected_names t) \<le> 32
               \<and> list_all (\<lambda>n. is_anchored n (tx_source_text t) (tx_displayed_chinese t)) (tx_protected_names t))
        path ''translation must be complete with source-anchored names'',
      require_nonempty_at_most (path @ ''.sourceText'') (tx_source_text t) MAX_OUTPUT_TEXT_CHARS,
      require_nonempty_at_most (path @ ''.baseChinese'') (tx_base_chinese t) MAX_OUTPUT_TEXT_CHARS,
      require_nonempty_at_most (path @ ''.displayedChinese'') (tx_displayed_chinese t) MAX_OUTPUT_TEXT_CHARS,
      require_nonempty_at_most (path @ ''.pinyin'') (tx_pinyin t) MAX_PINYIN_CHARS,
      validate_hsk_status (path @ ''.hsk'') (tx_hsk t)]"

definition repair_is_final :: "repair_state \<Rightarrow> bool" where
  "repair_is_final s \<longleftrightarrow> \<not> (s = RepairPending \<or> s = RepairRejected)"

section \<open>Document blocks\<close>

record document_block_ready =
  br_parent_block_id :: rstring
  br_sub_item_order :: u32
  br_item_id :: rstring
  br_source_index :: u32
  br_item_order :: u32
  br_kind :: source_span_kind
  br_text :: translated_text

definition validate_block_ready :: "string \<Rightarrow> document_block_ready \<Rightarrow> contract_error + unit" where
  "validate_block_ready path b = check_all
     [require_nonempty_at_most (path @ ''.itemId'') (br_item_id b) MAX_ITEM_ID_CHARS,
      validate_translated_text (path @ ''.text'') (br_text b),
      require (repair_is_final (hs_repair_state (tx_hsk (br_text b)))) (path @ ''.text.hsk.repairState'')
        ''documentBlockReady may publish only a terminal translation'']"

record document_block_preserved =
  bp_parent_block_id :: rstring
  bp_sub_item_order :: u32
  bp_item_id :: rstring
  bp_source_index :: u32
  bp_item_order :: u32
  bp_kind :: source_span_kind
  bp_source_text :: rstring
  bp_reason :: rstring

definition validate_block_preserved :: "string \<Rightarrow> document_block_preserved \<Rightarrow> contract_error + unit" where
  "validate_block_preserved path b = check_all
     [require_nonempty_at_most (path @ ''.itemId'') (bp_item_id b) MAX_ITEM_ID_CHARS,
      require_nonempty_utf8_at_most (path @ ''.sourceText'') (bp_source_text b) MAX_DOCUMENT_BLOCK_BYTES,
      require_nonempty_at_most (path @ ''.reason'') (bp_reason b) MAX_MESSAGE_CHARS]"

section \<open>Image regions\<close>

record confidence_evidence =
  ev_ocr_consensus :: f32
  ev_geometry_coverage :: f32
  ev_context_consistency :: f32
  ev_cleanup_score :: f32

definition validate_evidence :: "string \<Rightarrow> confidence_evidence \<Rightarrow> contract_error + unit" where
  "validate_evidence path e = check_all
     [require_unit (path @ ''.ocrConsensus'') (ev_ocr_consensus e),
      require_unit (path @ ''.geometryCoverage'') (ev_geometry_coverage e),
      require_unit (path @ ''.contextConsistency'') (ev_context_consistency e),
      require_unit (path @ ''.cleanupScore'') (ev_cleanup_score e)]"

fun grow_bounds :: "f32 \<times> f32 \<times> f32 \<times> f32 \<Rightarrow> point \<Rightarrow> f32 \<times> f32 \<times> f32 \<times> f32" where
  "grow_bounds (x0, y0, x1, y1) p =
     (f32_min x0 (pt_x p), f32_min y0 (pt_y p), f32_max x1 (pt_x p), f32_max y1 (pt_y p))"

fun polygon_bounds :: "point list \<Rightarrow> (f32 \<times> f32 \<times> f32 \<times> f32) option" where
  "polygon_bounds [] = None"
| "polygon_bounds (p # ps) = Some (foldl grow_bounds (pt_x p, pt_y p, pt_x p, pt_y p) ps)"

definition patch_overlaps :: "f32 \<times> f32 \<times> f32 \<times> f32 \<Rightarrow> normalized_rect \<Rightarrow> bool" where
  "patch_overlaps bounds r =
     (let (text_x0, text_y0, text_x1, text_y1) = bounds;
          patch_x1 = f32_add (nr_x r) (nr_width r); patch_y1 = f32_add (nr_y r) (nr_height r)
      in \<not> (f32_le (f32_sub (f32_min text_x1 patch_x1) (f32_max text_x0 (nr_x r))) f32_epsilon
            \<or> f32_le (f32_sub (f32_min text_y1 patch_y1) (f32_max text_y0 (nr_y r))) f32_epsilon))"

record image_region_ready =
  ir_item_id :: rstring
  ir_text_polygon :: "point list"
  ir_bubble_polygon :: "point list option"
  ir_patch :: region_patch
  ir_text :: translated_text
  ir_provenance :: source_provenance
  ir_kind :: source_span_kind
  ir_confidence :: f32
  ir_item_order :: u32
  ir_context_group :: "rstring option"
  ir_confidence_evidence :: "confidence_evidence option"
  ir_style :: browser_text_style
  ir_layout :: browser_text_layout

text \<open>The bounds exist: \<open>require_polygon\<close> has refused the empty polygon before.\<close>

definition validate_region_ready :: "string \<Rightarrow> image_region_ready \<Rightarrow> contract_error + unit" where
  "validate_region_ready path r = check_all
     [require_nonempty_at_most (path @ ''.itemId'') (ir_item_id r) MAX_ITEM_ID_CHARS,
      require_polygon (path @ ''.textPolygon'') (ir_text_polygon r),
      check_some (require_polygon (path @ ''.bubblePolygon'')) (ir_bubble_polygon r),
      validate_patch (path @ ''.patch'') (ir_patch r),
      require (case polygon_bounds (ir_text_polygon r) of None \<Rightarrow> False
               | Some bounds \<Rightarrow> patch_overlaps bounds (rp_rect (ir_patch r)))
        (path @ ''.patch.rect'') ''must overlap the source text polygon'',
      require_unit (path @ ''.confidence'') (ir_confidence r),
      require (ir_provenance r = Ocr) (path @ ''.provenance'') ''image results must have OCR provenance'',
      validate_translated_text (path @ ''.text'') (ir_text r),
      require (repair_is_final (hs_repair_state (tx_hsk (ir_text r)))) (path @ ''.text.hsk.repairState'')
        ''imageRegionReady may publish only a terminal translation'',
      check_some (validate_evidence (path @ ''.confidenceEvidence'')) (ir_confidence_evidence r),
      check_some (\<lambda>g. require_nonempty_at_most (path @ ''.contextGroup'') g MAX_LOOKUP_STRING_CHARS)
        (ir_context_group r),
      validate_text_style (path @ ''.style'') (ir_style r),
      validate_text_layout (path @ ''.layout'') (ir_layout r)]"

datatype preservation_disposition = Excluded | PreservedFailed

record image_region_preserved =
  ip_disposition :: preservation_disposition
  ip_item_id :: rstring
  ip_text_polygon :: "point list"
  ip_source_text :: rstring
  ip_confidence :: f32
  ip_item_order :: u32
  ip_reason :: rstring

definition validate_region_preserved :: "string \<Rightarrow> image_region_preserved \<Rightarrow> contract_error + unit" where
  "validate_region_preserved path r = check_all
     [require_nonempty_at_most (path @ ''.itemId'') (ip_item_id r) MAX_ITEM_ID_CHARS,
      require_polygon (path @ ''.textPolygon'') (ip_text_polygon r),
      require_at_most (path @ ''.sourceText'') (ip_source_text r) MAX_OUTPUT_TEXT_CHARS,
      require (\<not> (trim (ip_source_text r) = [] \<and> ip_disposition r \<noteq> Excluded)) (path @ ''.sourceText'')
        ''may be empty only for artwork-preserved image items'',
      require_unit (path @ ''.confidence'') (ip_confidence r),
      require_nonempty_at_most (path @ ''.reason'') (ip_reason r) MAX_MESSAGE_CHARS]"

section \<open>Job updates\<close>

datatype browser_job_stage = StageWarming | StageQueued | StageRegistering | StageDecoding | StageDetecting
| StageOcr | StageInpainting | StageTranslating | StageHskValidating | StageStyling | StagePackaging

datatype job_update =
  Progress u64 browser_job_stage "f32 option" "f32 option" "u32 option" "u32 option" rstring
| ImageRegionReady u64 image_region_ready
| ImageRegionPreserved u64 image_region_preserved
| DocumentBlockReady u64 document_block_ready
| DocumentBlockPreserved u64 document_block_preserved
| Complete u64 u32 u32 "rstring option"
| Failed u64 rstring rstring bool
| Cancelled u64 "rstring option"

primrec update_sequence :: "job_update \<Rightarrow> u64" where
  "update_sequence (Progress s stage stage_progress overall current all_items message) = s"
| "update_sequence (ImageRegionReady s region) = s"
| "update_sequence (ImageRegionPreserved s region) = s"
| "update_sequence (DocumentBlockReady s block) = s"
| "update_sequence (DocumentBlockPreserved s block) = s"
| "update_sequence (Complete s translated preserved message) = s"
| "update_sequence (Failed s code message retryable) = s"
| "update_sequence (Cancelled s message) = s"

fun update_is_terminal :: "job_update \<Rightarrow> bool" where
  "update_is_terminal (Complete s translated preserved message) = True"
| "update_is_terminal (Failed s code message retryable) = True"
| "update_is_terminal (Cancelled s message) = True"
| "update_is_terminal _ = False"

definition progress_counts_ok :: "u32 option \<Rightarrow> u32 option \<Rightarrow> bool" where
  "progress_counts_ok current all_items =
     (case (current, all_items) of (Some c, Some t) \<Rightarrow> \<not> (t = 0 \<or> t < c) | _ \<Rightarrow> True)"

definition validate_message :: "rstring \<Rightarrow> contract_error + unit" where
  "validate_message message = require_nonempty_at_most ''message'' message MAX_MESSAGE_CHARS"

primrec validate_update_body :: "job_update \<Rightarrow> contract_error + unit" where
  "validate_update_body (Progress s stage stage_progress overall current all_items message) = check_all
     [check_some (require_unit ''stageProgress'') stage_progress,
      check_some (require_unit ''overallProgress'') overall,
      require ((current = None) = (all_items = None)) ''current'' ''current and total must be present together'',
      require (progress_counts_ok current all_items) ''current'' ''must be less than or equal to a non-zero total'',
      validate_message message]"
| "validate_update_body (ImageRegionReady s region) = validate_region_ready ''region'' region"
| "validate_update_body (ImageRegionPreserved s region) = validate_region_preserved ''region'' region"
| "validate_update_body (DocumentBlockReady s block) = validate_block_ready ''block'' block"
| "validate_update_body (DocumentBlockPreserved s block) = validate_block_preserved ''block'' block"
| "validate_update_body (Complete s translated preserved message) = check_some validate_message message"
| "validate_update_body (Cancelled s message) = check_some validate_message message"
| "validate_update_body (Failed s code message retryable) = check_all
     [require_nonempty_at_most ''code'' code 256, validate_message message]"

definition validate_update :: "job_update \<Rightarrow> contract_error + unit" where
  "validate_update u = check_all
     [require (update_sequence u \<noteq> 0) ''sequence'' ''must start at 1'', validate_update_body u]"

record job_updates_response =
  jr_job_id :: rstring
  jr_next_sequence :: u64
  jr_updates :: "job_update list"

definition checked_succ :: "u64 \<Rightarrow> u64 option" where
  "checked_succ v = (if v = -1 then None else Some (v + 1))"

text \<open>\<open>saturating_add(1)\<close> on a \<open>u64\<close>.\<close>

definition sat_succ :: "u64 \<Rightarrow> u64" where
  "sat_succ v = (if v = -1 then -1 else v + 1)"

fun check_updates :: "u64 option \<Rightarrow> nat \<Rightarrow> job_update list \<Rightarrow> contract_error + unit" where
  "check_updates previous i [] = Ok ()"
| "check_updates previous i (u # us) = check_all
     [validate_update u,
      require (case previous of None \<Rightarrow> True | Some p \<Rightarrow> checked_succ p = Some (update_sequence u))
        ''updates'' ''update sequences must be contiguous'',
      require (\<not> (update_is_terminal u \<and> us \<noteq> [])) (indexed ''updates'' i)
        ''terminal updates must be the final update in a batch'',
      check_updates (Some (update_sequence u)) (i + 1) us]"

definition validate_response :: "job_updates_response \<Rightarrow> contract_error + unit" where
  "validate_response r = check_all
     [require_nonempty_at_most ''jobId'' (jr_job_id r) MAX_ITEM_ID_CHARS,
      require (length (jr_updates r) \<le> 1024) ''updates'' ''must contain at most 1024 updates'',
      check_updates None 0 (jr_updates r),
      require (jr_updates r = [] \<or> jr_next_sequence r = update_sequence (last (jr_updates r)))
        ''nextSequence'' ''must equal the last returned update sequence'']"

definition validate_after :: "job_updates_response \<Rightarrow> u64 \<Rightarrow> contract_error + unit" where
  "validate_after r after = check_all
     [validate_response r,
      require (jr_updates r = [] \<or> update_sequence (hd (jr_updates r)) = sat_succ after)
        ''updates[0].sequence'' ''must immediately follow the requested acknowledgement sequence'',
      require (jr_updates r \<noteq> [] \<or> jr_next_sequence r = after) ''nextSequence''
        ''must equal the requested acknowledgement when no updates are returned'']"

section \<open>Dictionary lookups\<close>

datatype lookup_interaction = Selection | Hover

record lookup_context =
  lc_source_text :: rstring
  lc_base_chinese :: rstring
  lc_displayed_chinese :: rstring
  lc_proper_names :: "proper_name list"

definition validate_lookup_context :: "lookup_context \<Rightarrow> contract_error + unit" where
  "validate_lookup_context c = check_all
     [require_at_most ''context.sourceText'' (lc_source_text c) MAX_DOCUMENT_BLOCK_BYTES,
      require_at_most ''context.baseChinese'' (lc_base_chinese c) MAX_DOCUMENT_BLOCK_BYTES,
      require_at_most ''context.displayedChinese'' (lc_displayed_chinese c) MAX_DOCUMENT_BLOCK_BYTES,
      require (length (lc_proper_names c) \<le> 32) ''context.properNames'' ''too many names'',
      check_each (\<lambda>_ n. check_all
        [require_nonempty_at_most ''context.properNames.text'' (pn_text n) 128,
         require (str_contains (lc_displayed_chinese c) (pn_text n)) ''context.properNames''
           ''name is absent from displayed text'']) 0 (lc_proper_names c)]"

record lookup_request =
  lr_interaction :: lookup_interaction
  lr_selected_text :: "rstring option"
  lr_character_offset :: "u32 option"
  lr_context :: "lookup_context option"
  lr_item_id :: "rstring option"

definition validate_interaction :: "lookup_request \<Rightarrow> contract_error + unit" where
  "validate_interaction r = (case lr_interaction r of
     Selection \<Rightarrow> (case lr_selected_text r of
         None \<Rightarrow> error_at ''selectedText'' ''selection lookup requires selected text''
       | Some selected \<Rightarrow> check_all
           [require (lr_character_offset r = None) ''characterOffset''
              ''selection lookup cannot contain a character offset'',
            require_nonempty ''selectedText'' selected,
            require (length selected \<le> 256) ''selectedText'' ''must contain at most 256 characters''])
   | Hover \<Rightarrow> check_all
       [require (lr_selected_text r = None) ''selectedText'' ''hover lookup cannot contain selected text'',
        require (lr_character_offset r \<noteq> None) ''characterOffset'' ''hover lookup requires a character offset''])"

definition validate_lookup_request :: "lookup_request \<Rightarrow> contract_error + unit" where
  "validate_lookup_request r = check_all
     [validate_interaction r,
      check_some (\<lambda>i. require_nonempty_at_most ''itemId'' i 256) (lr_item_id r),
      check_some validate_lookup_context (lr_context r),
      require ((lr_item_id r = None) = (lr_context r = None)) ''context'' ''itemId and context must be paired'',
      require (case (lr_character_offset r, lr_context r) of
                 (Some off, Some c) \<Rightarrow> unat off < length (lc_displayed_chinese c) | _ \<Rightarrow> True)
        ''characterOffset'' ''must identify a character in the item context'',
      require (\<not> (lr_interaction r = Hover \<and> (lr_context r = None \<or> lr_item_id r = None))) ''context''
        ''hover lookup requires bounded item context'']"

record lookup_token_dto =
  lt_simplified :: rstring
  lt_pinyin :: rstring
  lt_definitions :: "rstring list"
  lt_hsk_level :: "browser_level option"
  lt_proper_name :: bool

record lookup_item =
  li_displayed_chinese :: rstring
  li_base_chinese :: rstring
  li_source_text :: rstring

record lookup_result_dto =
  lo_selected_text :: rstring
  lo_tokens :: "lookup_token_dto list"
  lo_item :: "lookup_item option"

definition validate_lookup_token :: "nat \<Rightarrow> lookup_token_dto \<Rightarrow> contract_error + unit" where
  "validate_lookup_token i t = (let path = indexed ''tokens'' i in check_all
     [require_nonempty_at_most (path @ ''.simplified'') (lt_simplified t) MAX_LOOKUP_STRING_CHARS,
      (if \<not> lt_proper_name t
       then require_nonempty_at_most (path @ ''.pinyin'') (lt_pinyin t) MAX_LOOKUP_STRING_CHARS
       else require_at_most (path @ ''.pinyin'') (lt_pinyin t) MAX_LOOKUP_STRING_CHARS),
      require (length (lt_definitions t) \<le> MAX_DEFINITIONS
               \<and> list_all (\<lambda>d. \<not> (trim d = [] \<or> MAX_MESSAGE_CHARS < length d)) (lt_definitions t))
        (path @ ''.definitions'') ''definitions must not contain empty values''])"

definition validate_lookup_result :: "lookup_result_dto \<Rightarrow> contract_error + unit" where
  "validate_lookup_result r = check_all
     [require_nonempty_at_most ''selectedText'' (lo_selected_text r) MAX_LOOKUP_STRING_CHARS,
      require (length (lo_tokens r) \<le> 512) ''tokens'' ''must contain at most 512 tokens'',
      check_each validate_lookup_token 0 (lo_tokens r),
      check_some (\<lambda>i. check_all
        [require_at_most ''item.displayedChinese'' (li_displayed_chinese i) MAX_OUTPUT_TEXT_CHARS,
         require_at_most ''item.baseChinese'' (li_base_chinese i) MAX_OUTPUT_TEXT_CHARS,
         require_at_most ''item.sourceText'' (li_source_text i) MAX_OUTPUT_TEXT_CHARS]) (lo_item r)]"

record error_response =
  er_code :: rstring
  er_message :: rstring
  er_retryable :: bool

definition validate_error_response :: "error_response \<Rightarrow> contract_error + unit" where
  "validate_error_response e = check_all
     [require_nonempty_at_most ''code'' (er_code e) 256,
      require_nonempty_at_most ''message'' (er_message e) MAX_MESSAGE_CHARS]"

end
