(* ===== verification/Job_Log.thy ===== *)
theory Job_Log
  imports Contracts_Results Ordered_Map
begin

text \<open>
  The append-only update log of a browser job (\<open>JobLog\<close>, \<open>JobRecord\<close> and \<open>JobUpdateDraft\<close> of
  \<open>server.rs\<close>). A \<open>HashMap\<close> is an association list with distinct keys whose order stands for the
  unspecified order of iteration. Every method takes the lock of the log once, so it is one step;
  only the read of the cancel flag stands before it, and a true first argument of \<open>append_update\<close> says that
  the flag was seen set.
\<close>

section \<open>State\<close>

record job_focus =
  jf_revision :: u64
  jf_visible_rects :: "normalized_rect list"
  jf_visible_block_ids :: "rstring list"
  jf_active :: bool

datatype job_source_kind = ImageSource | DocumentSource

record job_log =
  jl_updates :: "job_update list"
  jl_terminal :: bool
  jl_last_overall_progress :: "f32 option"
  jl_published_items :: "rstring set"
  jl_translated_regions :: "(rstring, image_region_ready) index_map"
  jl_preserved_regions :: "(rstring, image_region_preserved) index_map"
  jl_document_blocks :: "(rstring, document_block_ready) index_map"
  jl_document_preserved :: "(rstring, document_block_preserved) index_map"
  jl_focus :: job_focus

text \<open>Of the decoded image only the size is looked at here.\<close>

record decoded_image =
  di_width :: u32
  di_height :: u32

record job_record =
  jo_order :: u64
  jo_job_id :: rstring
  jo_source_kind :: job_source_kind
  jo_source :: "decoded_image option"
  jo_cancel :: bool
  jo_active :: bool
  jo_log :: job_log

definition new_log :: "normalized_rect list \<Rightarrow> job_log" where
  "new_log rects = \<lparr>jl_updates = [], jl_terminal = False, jl_last_overall_progress = None,
     jl_published_items = {}, jl_translated_regions = [], jl_preserved_regions = [],
     jl_document_blocks = [], jl_document_preserved = [],
     jl_focus = \<lparr>jf_revision = 1, jf_visible_rects = rects, jf_visible_block_ids = [], jf_active = True\<rparr>\<rparr>"

definition new_record ::
  "u64 \<Rightarrow> rstring \<Rightarrow> decoded_image option \<Rightarrow> normalized_rect list \<Rightarrow> job_record" where
  "new_record order i source rects = \<lparr>jo_order = order, jo_job_id = i, jo_source_kind = ImageSource,
     jo_source = source, jo_cancel = False, jo_active = True, jo_log = new_log rects\<rparr>"

definition new_document :: "u64 \<Rightarrow> rstring \<Rightarrow> rstring list \<Rightarrow> job_record" where
  "new_document order i ids =
     (let r = new_record order i None []; l = jo_log r
      in r\<lparr>jo_source_kind := DocumentSource,
           jo_log := l\<lparr>jl_focus := (jl_focus l)\<lparr>jf_visible_block_ids := ids\<rparr>\<rparr>\<rparr>)"

definition release_source :: "job_record \<Rightarrow> job_record" where
  "release_source r = r\<lparr>jo_source := None\<rparr>"

text \<open>Width times height times three never leaves a \<open>u64\<close>; \<open>usize\<close> is 64 bits wide.\<close>

definition USIZE_MAX :: nat where "USIZE_MAX = 18446744073709551615"

definition image_bytes :: "decoded_image \<Rightarrow> nat" where
  "image_bytes img = min (min (unat (di_width img) * unat (di_height img)) USIZE_MAX * 3) USIZE_MAX"

definition retained_source_bytes :: "job_record \<Rightarrow> nat" where
  "retained_source_bytes r = (case jo_source r of None \<Rightarrow> 0 | Some img \<Rightarrow> image_bytes img)"

definition is_terminal :: "job_record \<Rightarrow> bool" where
  "is_terminal r = jl_terminal (jo_log r)"

definition is_evictable :: "job_record \<Rightarrow> bool" where
  "is_evictable r \<longleftrightarrow> \<not> jo_active r \<and> is_terminal r"

section \<open>Drafts\<close>

datatype job_update_draft =
  DraftProgress browser_job_stage "f32 option" "f32 option" "u32 option" "u32 option" rstring
| DraftImageRegionReady image_region_ready
| DraftImageRegionPreserved image_region_preserved
| DraftDocumentBlockReady document_block_ready
| DraftDocumentBlockPreserved document_block_preserved
| DraftComplete "rstring option"
| DraftFailed rstring rstring bool
| DraftCancelled "rstring option"

primrec into_update :: "job_update_draft \<Rightarrow> u64 \<Rightarrow> u32 \<Rightarrow> u32 \<Rightarrow> job_update" where
  "into_update (DraftProgress stage stage_progress overall current all_items message) s translated preserved =
     Progress s stage stage_progress overall current all_items message"
| "into_update (DraftImageRegionReady region) s translated preserved = ImageRegionReady s region"
| "into_update (DraftImageRegionPreserved region) s translated preserved = ImageRegionPreserved s region"
| "into_update (DraftDocumentBlockReady block) s translated preserved = DocumentBlockReady s block"
| "into_update (DraftDocumentBlockPreserved block) s translated preserved = DocumentBlockPreserved s block"
| "into_update (DraftComplete message) s translated preserved = Complete s translated preserved message"
| "into_update (DraftFailed code message retryable) s translated preserved = Failed s code message retryable"
| "into_update (DraftCancelled message) s translated preserved = Cancelled s message"

datatype publish_error = PublishCancelled | PublishTerminal | DuplicateItem rstring | ModalityMismatch
| UnknownPatch rstring | SequenceExhausted | UpdateLimit | RegressiveProgress
| PublishContract contract_error | InvalidPatch | PatchTooLarge | StorageFull

definition MAX_UPDATES_PER_JOB :: nat where "MAX_UPDATES_PER_JOB = 10000"
definition MAX_REPLAY_UPDATES :: nat where "MAX_REPLAY_UPDATES = 1024"

definition is_cancellation :: "job_update_draft \<Rightarrow> bool" where
  "is_cancellation d = (case d of DraftCancelled _ \<Rightarrow> True | _ \<Rightarrow> False)"

definition draft_is_terminal :: "job_update_draft \<Rightarrow> bool" where
  "draft_is_terminal d =
     (case d of DraftComplete _ \<Rightarrow> True | DraftFailed _ _ _ \<Rightarrow> True | DraftCancelled _ \<Rightarrow> True | _ \<Rightarrow> False)"

definition draft_source_kind :: "job_update_draft \<Rightarrow> job_source_kind option" where
  "draft_source_kind d = (case d of
     DraftImageRegionReady _ \<Rightarrow> Some ImageSource
   | DraftImageRegionPreserved _ \<Rightarrow> Some ImageSource
   | DraftDocumentBlockReady _ \<Rightarrow> Some DocumentSource
   | DraftDocumentBlockPreserved _ \<Rightarrow> Some DocumentSource
   | _ \<Rightarrow> None)"

definition draft_item_id :: "job_update_draft \<Rightarrow> rstring option" where
  "draft_item_id d = (case d of
     DraftImageRegionReady r \<Rightarrow> Some (ir_item_id r)
   | DraftImageRegionPreserved r \<Rightarrow> Some (ip_item_id r)
   | DraftDocumentBlockReady b \<Rightarrow> Some (br_item_id b)
   | DraftDocumentBlockPreserved b \<Rightarrow> Some (bp_item_id b)
   | _ \<Rightarrow> None)"

definition regressive :: "f32 option \<Rightarrow> job_update_draft \<Rightarrow> bool" where
  "regressive previous d = (case d of
     DraftProgress _ _ (Some next_value) _ _ _ \<Rightarrow>
       (case previous of None \<Rightarrow> False | Some p \<Rightarrow> f32_less next_value p)
   | _ \<Rightarrow> False)"

section \<open>Operations\<close>

definition latest_sequence :: "job_update list \<Rightarrow> u64" where
  "latest_sequence us = (if us = [] then 0 else update_sequence (last us))"

definition sat_u32 :: "nat \<Rightarrow> u32" where
  "sat_u32 n = (if n < 4294967296 then of_nat n else 4294967295)"

definition store_item :: "job_update \<Rightarrow> job_log \<Rightarrow> job_log" where
  "store_item u l = (case u of
     ImageRegionReady _ r \<Rightarrow> l\<lparr>jl_published_items := insert (ir_item_id r) (jl_published_items l),
       jl_translated_regions := im_insert (jl_translated_regions l) (ir_item_id r) r\<rparr>
   | ImageRegionPreserved _ r \<Rightarrow> l\<lparr>jl_published_items := insert (ip_item_id r) (jl_published_items l),
       jl_preserved_regions := im_insert (jl_preserved_regions l) (ip_item_id r) r\<rparr>
   | DocumentBlockReady _ b \<Rightarrow> l\<lparr>jl_published_items := insert (br_item_id b) (jl_published_items l),
       jl_document_blocks := im_insert (jl_document_blocks l) (br_item_id b) b\<rparr>
   | DocumentBlockPreserved _ b \<Rightarrow> l\<lparr>jl_published_items := insert (bp_item_id b) (jl_published_items l),
       jl_document_preserved := im_insert (jl_document_preserved l) (bp_item_id b) b\<rparr>
   | Progress _ _ _ (Some v) _ _ _ \<Rightarrow> l\<lparr>jl_last_overall_progress := Some v\<rparr>
   | _ \<Rightarrow> l)"

definition push_update :: "job_update \<Rightarrow> job_log \<Rightarrow> job_log" where
  "push_update u l = (let l1 = store_item u l;
       l2 = (if update_is_terminal u then l1\<lparr>jl_terminal := True\<rparr> else l1)
     in l2\<lparr>jl_updates := jl_updates l2 @ [u]\<rparr>)"

text \<open>The checks of \<open>append\<close> under the lock, in the order of the code.\<close>

definition append_checks :: "job_source_kind \<Rightarrow> job_log \<Rightarrow> job_update_draft \<Rightarrow> publish_error + unit" where
  "append_checks kind l d = check_all
     [reject_if (jl_terminal l) PublishTerminal,
      reject_if (MAX_UPDATES_PER_JOB \<le> length (jl_updates l) \<and> \<not> draft_is_terminal d) UpdateLimit,
      reject_if (regressive (jl_last_overall_progress l) d) RegressiveProgress,
      reject_if (case draft_source_kind d of None \<Rightarrow> False | Some k \<Rightarrow> k \<noteq> kind) ModalityMismatch,
      (case draft_item_id d of None \<Rightarrow> Ok ()
       | Some i \<Rightarrow> reject_if (i \<in> jl_published_items l) (DuplicateItem i)),
      reject_if (checked_succ (latest_sequence (jl_updates l)) = None) SequenceExhausted]"

definition drafted_update :: "job_log \<Rightarrow> job_update_draft \<Rightarrow> job_update" where
  "drafted_update l d = into_update d (latest_sequence (jl_updates l) + 1)
     (sat_u32 (length (jl_translated_regions l) + length (jl_document_blocks l)))
     (sat_u32 (length (jl_preserved_regions l) + length (jl_document_preserved l)))"

definition append_locked ::
  "job_source_kind \<Rightarrow> job_log \<Rightarrow> job_update_draft \<Rightarrow> publish_error + (job_update \<times> job_log)" where
  "append_locked kind l d =
     try_bind (append_checks kind l d) (\<lambda>_.
       (let u = drafted_update l d in
        (case validate_update u of Err e \<Rightarrow> Err (PublishContract e) | Ok _ \<Rightarrow> Ok (u, push_update u l))))"

definition append_update ::
  "bool \<Rightarrow> job_record \<Rightarrow> job_update_draft \<Rightarrow> publish_error + (job_update \<times> job_record)" where
  "append_update cancel_seen r d =
     (if cancel_seen \<and> \<not> is_cancellation d then Err PublishCancelled
      else try_bind (append_locked (jo_source_kind r) (jo_log r) d) (\<lambda>(u, l). Ok (u, r\<lparr>jo_log := l\<rparr>)))"

record replay_snapshot =
  rs_latest :: u64
  rs_terminal :: bool
  rs_updates :: "job_update list"

definition replay_after :: "job_log \<Rightarrow> u64 \<Rightarrow> replay_snapshot" where
  "replay_after l after = \<lparr>rs_latest = latest_sequence (jl_updates l), rs_terminal = jl_terminal l,
     rs_updates = take MAX_REPLAY_UPDATES (filter (\<lambda>u. after < update_sequence u) (jl_updates l))\<rparr>"

datatype focus_error = FocusModalityMismatch

text \<open>On a mismatch the revision has been raised already: the first component is the log.\<close>

definition update_focus ::
  "job_source_kind \<Rightarrow> job_log \<Rightarrow> focus_update_request \<Rightarrow> job_log \<times> (focus_error + unit)" where
  "update_focus kind l request =
     (let f = (jl_focus l)\<lparr>jf_revision := sat_succ (jf_revision (jl_focus l))\<rparr>
      in (case (kind, request) of
            (ImageSource, FocusImage rects active) \<Rightarrow>
              (l\<lparr>jl_focus := f\<lparr>jf_visible_rects := rects, jf_active := active\<rparr>\<rparr>, Ok ())
          | (DocumentSource, FocusDocument ids active) \<Rightarrow>
              (l\<lparr>jl_focus := f\<lparr>jf_visible_block_ids := ids, jf_active := active\<rparr>\<rparr>, Ok ())
          | _ \<Rightarrow> (l\<lparr>jl_focus := f\<rparr>, Err FocusModalityMismatch)))"

text \<open>The regions by item order, then by id; the blocks by position (a stable sort of the values).\<close>

definition region_key :: "image_region_ready \<Rightarrow> nat list" where
  "region_key r = unat (ir_item_order r) # ir_item_id r"

definition preserved_key :: "image_region_preserved \<Rightarrow> nat list" where
  "preserved_key r = unat (ip_item_order r) # ip_item_id r"

definition translated_regions :: "job_log \<Rightarrow> image_region_ready list" where
  "translated_regions l = sort_key region_key (im_values (jl_translated_regions l))"

definition preserved_regions :: "job_log \<Rightarrow> image_region_preserved list" where
  "preserved_regions l = sort_key preserved_key (im_values (jl_preserved_regions l))"

record cached_document_job =
  cd_blocks :: "document_block_ready list"
  cd_preserved :: "document_block_preserved list"

definition block_position :: "document_block_ready \<Rightarrow> nat list" where
  "block_position b = [unat (br_source_index b), unat (br_item_order b)]"

definition kept_position :: "document_block_preserved \<Rightarrow> nat list" where
  "kept_position b = [unat (bp_source_index b), unat (bp_item_order b)]"

definition completed_document :: "job_log \<Rightarrow> cached_document_job" where
  "completed_document l = \<lparr>cd_blocks = sort_key block_position (im_values (jl_document_blocks l)),
     cd_preserved = sort_key kept_position (im_values (jl_document_preserved l))\<rparr>"

section \<open>The updates request\<close>

datatype api_error = InvalidUpdateSequence | InternalError | InvalidFocus | JobNotFound
| JobLimitReached | BlobLimitReached | FocusMismatch

text \<open>
  One round of \<open>job_updates\<close>: \<open>None\<close> when it waits for a notification. The last argument says
  that the caller does not want to wait.
\<close>

definition job_updates_round ::
  "job_record \<Rightarrow> u64 \<Rightarrow> bool \<Rightarrow> (api_error + job_updates_response) option" where
  "job_updates_round r after no_wait =
     (let replay = replay_after (jo_log r) after in
      if rs_latest replay < after then Some (Err InvalidUpdateSequence)
      else if rs_updates replay \<noteq> [] \<or> rs_terminal replay \<or> no_wait then
        (let response = \<lparr>jr_job_id = jo_job_id r,
               jr_next_sequence = (if rs_updates replay = [] then after
                                   else update_sequence (last (rs_updates replay))),
               jr_updates = rs_updates replay\<rparr>
         in Some (case validate_after response after of Err _ \<Rightarrow> Err InternalError | Ok _ \<Rightarrow> Ok response))
      else None)"

section \<open>Running a document job\<close>

record pipeline_error =
  pe_code :: rstring
  pe_message :: rstring

definition transient_codes :: "rstring list" where
  "transient_codes = map lit [''CUDA_QUEUE_FULL'', ''UPDATE_PUBLISH_FAILED'']"

definition is_transient :: "pipeline_error \<Rightarrow> bool" where
  "is_transient e \<longleftrightarrow> pe_code e \<in> set transient_codes"

definition pipeline_cancelled :: pipeline_error where
  "pipeline_cancelled = \<lparr>pe_code = lit ''CANCELLED'', pe_message = lit ''Chapter processing was cancelled.''\<rparr>"

text \<open>The text of a publish error (\<open>Display\<close>).\<close>

definition contract_error_text :: "contract_error \<Rightarrow> rstring" where
  "contract_error_text e = lit (ce_path e) @ lit '': '' @ lit (ce_message e)"

primrec publish_error_text :: "publish_error \<Rightarrow> rstring" where
  "publish_error_text PublishCancelled = lit ''job was cancelled''"
| "publish_error_text PublishTerminal = lit ''job update log is terminal''"
| "publish_error_text (DuplicateItem i) = lit ''item was published more than once: '' @ i"
| "publish_error_text ModalityMismatch = lit ''published item modality does not match the job source''"
| "publish_error_text (UnknownPatch i) = lit ''patch blob does not belong to this job: '' @ i"
| "publish_error_text SequenceExhausted = lit ''job update sequence is exhausted''"
| "publish_error_text UpdateLimit = lit ''job update log reached its bounded limit''"
| "publish_error_text RegressiveProgress = lit ''overall progress must not move backwards''"
| "publish_error_text (PublishContract e) = lit ''published-item contract validation failed: '' @ contract_error_text e"
| "publish_error_text InvalidPatch = lit ''patch must be a decodable PNG''"
| "publish_error_text PatchTooLarge = lit ''patch exceeds the per-blob limit''"
| "publish_error_text StorageFull = lit ''bounded patch storage is full''"

definition cache_replay_failed :: "publish_error \<Rightarrow> pipeline_error" where
  "cache_replay_failed e = \<lparr>pe_code = lit ''CACHE_REPLAY_FAILED'', pe_message = publish_error_text e\<rparr>"

text \<open>\<open>let _ = sink.publish(..)\<close>: a refused draft leaves the record as it is.\<close>

definition try_append :: "job_record \<Rightarrow> job_update_draft \<Rightarrow> job_record" where
  "try_append r d = (case append_update (jo_cancel r) r d of Err _ \<Rightarrow> r | Ok (u, r') \<Rightarrow> r')"

text \<open>The update a new job starts with (\<open>reserve_job\<close>).\<close>

definition queued_draft :: job_update_draft where
  "queued_draft = DraftProgress StageQueued None (Some zero_f32) None None
     (lit ''Queued for local chapter translation'')"

fun publish_items :: "job_record \<Rightarrow> job_update_draft list \<Rightarrow> job_record \<times> (pipeline_error + unit)" where
  "publish_items r [] = (r, Ok ())"
| "publish_items r (d # ds) =
     (if jo_cancel r then (r, Err pipeline_cancelled)
      else (case append_update (jo_cancel r) r d of
              Err e \<Rightarrow> (r, Err (cache_replay_failed e))
            | Ok (u, r') \<Rightarrow> publish_items r' ds))"

definition draft_position :: "job_update_draft \<Rightarrow> nat list" where
  "draft_position d = (case d of DraftDocumentBlockReady b \<Rightarrow> block_position b
     | DraftDocumentBlockPreserved b \<Rightarrow> kept_position b | _ \<Rightarrow> [])"

definition cached_document_items :: "cached_document_job \<Rightarrow> job_update_draft list" where
  "cached_document_items c = sort_key draft_position
     (map DraftDocumentBlockReady (cd_blocks c) @ map DraftDocumentBlockPreserved (cd_preserved c))"

definition replay_cached_document ::
  "job_record \<Rightarrow> cached_document_job \<Rightarrow> job_record \<times> (pipeline_error + unit)" where
  "replay_cached_document r c = publish_items r (cached_document_items c)"

definition fail_job :: "job_record \<Rightarrow> pipeline_error \<Rightarrow> job_record" where
  "fail_job r e = (let r' = release_source r in
     if jo_cancel r' \<or> is_terminal r' then r'
     else try_append r' (DraftFailed (pe_code e) (pe_message e) (is_transient e)))"

definition finish_active :: "job_record \<Rightarrow> job_record" where
  "finish_active r = (release_source r)\<lparr>jo_active := False\<rparr>"

definition resources_not_ready :: pipeline_error where
  "resources_not_ready = \<lparr>pe_code = lit ''RESOURCES_NOT_READY'',
     pe_message = lit ''Verified local language resources are not ready.''\<rparr>"

text \<open>
  The pipeline is a parameter: from the record it is given, the record when it returns and its
  result. Writing the result cache is left out; it has no influence on the record.
\<close>

definition run_document_job ::
  "bool \<Rightarrow> (job_record \<Rightarrow> job_record \<times> (pipeline_error + unit)) \<Rightarrow> job_record
     \<Rightarrow> cached_document_job option \<Rightarrow> job_record" where
  "run_document_job resources_ready pipeline r cached =
     (if jo_cancel r then finish_active r
      else (case cached of
        Some c \<Rightarrow> finish_active (case replay_cached_document r c of
            (r', Ok _) \<Rightarrow> if jo_cancel r' then r'
               else try_append r' (DraftComplete (Some (lit ''Exact cached document translation replayed'')))
          | (r', Err e) \<Rightarrow> fail_job r' e)
      | None \<Rightarrow>
          if \<not> resources_ready then finish_active (fail_job r resources_not_ready)
          else finish_active (case pipeline r of
              (r', Ok _) \<Rightarrow> if \<not> jo_cancel r' \<and> \<not> is_terminal r'
                 then try_append r' (DraftComplete (Some (lit ''All discovered document content processed'')))
                 else r'
            | (r', Err e) \<Rightarrow> if \<not> jo_cancel r' then fail_job r' e else r')))"

end
