(* ===== verification/Job_Log_Laws.thy ===== *)
theory Job_Log_Laws
  imports Job_Log
begin

text \<open>
  The update log as a function of its updates: what the maps, the counters and the flags hold is
  determined by the list of updates, every step keeps it so, and the list is always one a client
  can acknowledge update by update.
\<close>

section \<open>Checks in a row\<close>

lemma check_all_Ok: "check_all cs = Ok () \<longleftrightarrow> (\<forall>c \<in> set cs. c = Ok ())"
  by (induction cs) auto

lemma require_Ok [simp]: "require b p m = Ok () \<longleftrightarrow> b"
  by (simp add: require_def error_at_def)

lemma check_all_Cons_Ok [simp]: "check_all (c # cs) = Ok () \<longleftrightarrow> c = Ok () \<and> check_all cs = Ok ()"
  by auto

section \<open>What a list of updates says\<close>

definition update_item :: "job_update \<Rightarrow> rstring option" where
  "update_item u = (case u of
     ImageRegionReady _ r \<Rightarrow> Some (ir_item_id r)
   | ImageRegionPreserved _ r \<Rightarrow> Some (ip_item_id r)
   | DocumentBlockReady _ b \<Rightarrow> Some (br_item_id b)
   | DocumentBlockPreserved _ b \<Rightarrow> Some (bp_item_id b)
   | _ \<Rightarrow> None)"

definition update_kind :: "job_update \<Rightarrow> job_source_kind option" where
  "update_kind u = (case u of
     ImageRegionReady _ _ \<Rightarrow> Some ImageSource
   | ImageRegionPreserved _ _ \<Rightarrow> Some ImageSource
   | DocumentBlockReady _ _ \<Rightarrow> Some DocumentSource
   | DocumentBlockPreserved _ _ \<Rightarrow> Some DocumentSource
   | _ \<Rightarrow> None)"

definition update_progress :: "job_update \<Rightarrow> f32 option" where
  "update_progress u = (case u of Progress _ _ _ p _ _ _ \<Rightarrow> p | _ \<Rightarrow> None)"

definition ready_region :: "job_update \<Rightarrow> (rstring \<times> image_region_ready) option" where
  "ready_region u = (case u of ImageRegionReady _ r \<Rightarrow> Some (ir_item_id r, r) | _ \<Rightarrow> None)"

definition kept_region :: "job_update \<Rightarrow> (rstring \<times> image_region_preserved) option" where
  "kept_region u = (case u of ImageRegionPreserved _ r \<Rightarrow> Some (ip_item_id r, r) | _ \<Rightarrow> None)"

definition ready_block :: "job_update \<Rightarrow> (rstring \<times> document_block_ready) option" where
  "ready_block u = (case u of DocumentBlockReady _ b \<Rightarrow> Some (br_item_id b, b) | _ \<Rightarrow> None)"

definition kept_block :: "job_update \<Rightarrow> (rstring \<times> document_block_preserved) option" where
  "kept_block u = (case u of DocumentBlockPreserved _ b \<Rightarrow> Some (bp_item_id b, b) | _ \<Rightarrow> None)"

lemmas update_views = update_item_def update_kind_def update_progress_def ready_region_def
  kept_region_def ready_block_def kept_block_def

abbreviation collect :: "('a \<Rightarrow> 'b option) \<Rightarrow> 'a list \<Rightarrow> 'b list" where
  "collect f xs \<equiv> List.map_filter f xs"

lemma collect_snoc: "collect f (xs @ [x]) = collect f xs @ (case f x of None \<Rightarrow> [] | Some y \<Rightarrow> [y])"
  by (simp add: List.map_filter_def split: option.splits)

lemma collect_Nil: "collect f [] = []"
  by (simp add: List.map_filter_def)

text \<open>The log without its focus is a function of the updates.\<close>

definition log_matches :: "job_log \<Rightarrow> bool" where
  "log_matches l \<longleftrightarrow>
     jl_terminal l = (jl_updates l \<noteq> [] \<and> update_is_terminal (last (jl_updates l)))
     \<and> jl_published_items l = set (collect update_item (jl_updates l))
     \<and> jl_last_overall_progress l =
         (let ps = collect update_progress (jl_updates l) in if ps = [] then None else Some (last ps))
     \<and> jl_translated_regions l = collect ready_region (jl_updates l)
     \<and> jl_preserved_regions l = collect kept_region (jl_updates l)
     \<and> jl_document_blocks l = collect ready_block (jl_updates l)
     \<and> jl_document_preserved l = collect kept_block (jl_updates l)"

text \<open>A list of updates in publication order.\<close>

fun progress_ascends :: "f32 list \<Rightarrow> bool" where
  "progress_ascends (p # q # ps) \<longleftrightarrow> \<not> f32_less q p \<and> progress_ascends (q # ps)"
| "progress_ascends _ \<longleftrightarrow> True"

definition completion_counts :: "job_update list \<Rightarrow> job_update \<Rightarrow> bool" where
  "completion_counts us u = (case u of
     Complete _ translated preserved _ \<Rightarrow>
       unat translated = length (collect ready_region us) + length (collect ready_block us)
       \<and> unat preserved = length (collect kept_region us) + length (collect kept_block us)
   | _ \<Rightarrow> True)"

definition updates_ok :: "job_source_kind \<Rightarrow> job_update list \<Rightarrow> bool" where
  "updates_ok kind us \<longleftrightarrow>
     map update_sequence us = map of_nat [1..<Suc (length us)]
     \<and> length us \<le> MAX_UPDATES_PER_JOB + 1
     \<and> (\<forall>u \<in> set us. validate_update u = Ok () \<and> update_kind u \<in> {None, Some kind})
     \<and> (\<forall>u \<in> set (butlast us). \<not> update_is_terminal u)
     \<and> (length us = MAX_UPDATES_PER_JOB + 1 \<longrightarrow> update_is_terminal (last us))
     \<and> distinct (collect update_item us)
     \<and> progress_ascends (collect update_progress us)
     \<and> (us \<noteq> [] \<longrightarrow> completion_counts (butlast us) (last us))"

definition update_log_ok :: "job_source_kind \<Rightarrow> job_log \<Rightarrow> bool" where
  "update_log_ok kind l \<longleftrightarrow> log_matches l \<and> updates_ok kind (jl_updates l)"

section \<open>One append\<close>

lemma into_update_views:
  "update_item (into_update d s t p) = draft_item_id d"
  "update_kind (into_update d s t p) = draft_source_kind d"
  "update_is_terminal (into_update d s t p) = draft_is_terminal d"
  "update_sequence (into_update d s t p) = s"
  by (cases d; simp add: update_views draft_item_id_def draft_source_kind_def draft_is_terminal_def)+

lemma update_progress_into:
  "update_progress (into_update d s t p) =
     (case d of DraftProgress _ _ overall _ _ _ \<Rightarrow> overall | _ \<Rightarrow> None)"
  by (cases d) (simp_all add: update_progress_def)

lemma regressive_update:
  "regressive previous d = (case update_progress (into_update d s t p) of None \<Rightarrow> False
     | Some q \<Rightarrow> (case previous of None \<Rightarrow> False | Some r \<Rightarrow> f32_less q r))"
  by (cases d) (simp_all add: regressive_def update_progress_def split: option.splits)

lemma append_locked_Ok:
  "append_locked kind l d = Ok (u, l') \<longleftrightarrow>
     append_checks kind l d = Ok () \<and> u = drafted_update l d \<and> validate_update u = Ok ()
     \<and> l' = push_update u l"
  by (auto simp: append_locked_def Let_def split: sum.splits)

lemma append_checks_Ok:
  "append_checks kind l d = Ok () \<longleftrightarrow>
     \<not> jl_terminal l \<and> (MAX_UPDATES_PER_JOB \<le> length (jl_updates l) \<longrightarrow> draft_is_terminal d)
     \<and> \<not> regressive (jl_last_overall_progress l) d
     \<and> draft_source_kind d \<in> {None, Some kind}
     \<and> (\<forall>i. draft_item_id d = Some i \<longrightarrow> i \<notin> jl_published_items l)
     \<and> checked_succ (latest_sequence (jl_updates l)) \<noteq> None"
  by (auto simp: append_checks_def split: option.splits)

lemma jl_updates_push [simp]: "jl_updates (push_update u l) = jl_updates l @ [u]"
  by (simp add: push_update_def store_item_def Let_def split: job_update.splits option.splits)

lemma jl_focus_push [simp]: "jl_focus (push_update u l) = jl_focus l"
  by (simp add: push_update_def store_item_def Let_def split: job_update.splits option.splits)

lemma collect_fst_view:
  assumes "\<And>u k r. f u = Some (k, r) \<Longrightarrow> g u = Some k"
  shows "fst ` set (collect f us) \<subseteq> set (collect g us)"
  using assms by (force simp: List.map_filter_def)

lemma im_insert_new: "k \<notin> fst ` set m \<Longrightarrow> im_insert m k v = m @ [(k, v)]"
  by (auto simp: im_insert_def im_contains_key_def im_keys_def)

lemma view_item:
  "ready_region u = Some (k, r1) \<Longrightarrow> update_item u = Some k"
  "kept_region u = Some (k, r2) \<Longrightarrow> update_item u = Some k"
  "ready_block u = Some (k, r3) \<Longrightarrow> update_item u = Some k"
  "kept_block u = Some (k, r4) \<Longrightarrow> update_item u = Some k"
  by (auto simp: update_views split: job_update.splits)

lemma log_matches_push:
  assumes m: "log_matches l" and fresh: "\<And>i. update_item u = Some i \<Longrightarrow> i \<notin> jl_published_items l"
    and t: "\<not> jl_terminal l"
  shows "log_matches (push_update u l)"
proof -
  have new: "k \<notin> fst ` set (collect ready_region (jl_updates l))"
    "k \<notin> fst ` set (collect kept_region (jl_updates l))"
    "k \<notin> fst ` set (collect ready_block (jl_updates l))"
    "k \<notin> fst ` set (collect kept_block (jl_updates l))" if "update_item u = Some k" for k
    using fresh [OF that] m collect_fst_view [of ready_region update_item "jl_updates l"]
      collect_fst_view [of kept_region update_item "jl_updates l"]
      collect_fst_view [of ready_block update_item "jl_updates l"]
      collect_fst_view [of kept_block update_item "jl_updates l"]
    by (auto simp: log_matches_def view_item)
  show ?thesis
    using m t new
    by (cases u)
      (auto simp: log_matches_def push_update_def store_item_def Let_def collect_snoc update_views
         im_insert_new split: option.splits)
qed

lemma progress_ascends_snoc:
  "progress_ascends (ps @ [q]) \<longleftrightarrow> progress_ascends ps \<and> (ps \<noteq> [] \<longrightarrow> \<not> f32_less q (last ps))"
  by (induction ps rule: progress_ascends.induct) auto

lemma length_collect: "length (collect f xs) \<le> length xs"
  by (simp add: List.map_filter_def)

lemma latest_sequence_eq:
  "map update_sequence us = map of_nat [1..<Suc (length us)] \<Longrightarrow> latest_sequence us = of_nat (length us)"
  by (cases us rule: rev_cases) (auto simp: latest_sequence_def)

lemma unat_sat_u32: "n < 4294967296 \<Longrightarrow> unat (sat_u32 n) = n"
  by (simp add: sat_u32_def unat_of_nat)

lemma completion_counts_drafted:
  assumes m: "log_matches l" and n: "length (jl_updates l) \<le> MAX_UPDATES_PER_JOB"
  shows "completion_counts (jl_updates l) (drafted_update l d)"
proof -
  note len = length_collect [of ready_region "jl_updates l"] length_collect [of ready_block "jl_updates l"]
    length_collect [of kept_region "jl_updates l"] length_collect [of kept_block "jl_updates l"]
  show ?thesis
    using m n len
    by (cases d) (simp_all add: completion_counts_def drafted_update_def log_matches_def
        unat_sat_u32 MAX_UPDATES_PER_JOB_def)
qed

lemma log_ok_open_length:
  assumes "updates_ok kind (jl_updates l)" "log_matches l" "\<not> jl_terminal l"
  shows "length (jl_updates l) \<le> MAX_UPDATES_PER_JOB"
  using assms by (cases "jl_updates l = []") (auto simp: updates_ok_def log_matches_def le_Suc_eq)

lemma butlast_last_not_terminal:
  "us = [] \<or> \<not> update_is_terminal (last us) \<Longrightarrow> \<forall>u \<in> set (butlast us). \<not> update_is_terminal u
     \<Longrightarrow> \<forall>u \<in> set us. \<not> update_is_terminal u"
  by (cases us rule: rev_cases) auto

lemma progress_ascends_append:
  assumes ok: "update_log_ok kind l" and checks: "append_checks kind l d = Ok ()" and u: "u = drafted_update l d"
  shows "progress_ascends (collect update_progress (jl_updates l @ [u]))"
proof (cases "update_progress u")
  case (Some q)
  let ?ps = "collect update_progress (jl_updates l)"
  have up: "progress_ascends ?ps" and prev: "?ps \<noteq> [] \<Longrightarrow> jl_last_overall_progress l = Some (last ?ps)"
    using ok by (auto simp: update_log_ok_def updates_ok_def log_matches_def Let_def)
  have "regressive (jl_last_overall_progress l) d = (case update_progress u of None \<Rightarrow> False
      | Some q \<Rightarrow> (case jl_last_overall_progress l of None \<Rightarrow> False | Some r \<Rightarrow> f32_less q r))"
    unfolding u drafted_update_def by (rule regressive_update)
  then have "?ps \<noteq> [] \<longrightarrow> \<not> f32_less q (last ?ps)"
    using Some prev checks by (auto simp: append_checks_Ok)
  then show ?thesis using up Some by (simp add: collect_snoc progress_ascends_snoc)
qed (use ok in \<open>simp add: collect_snoc update_log_ok_def updates_ok_def\<close>)

lemma updates_ok_push:
  assumes ok: "update_log_ok kind l" and app: "append_locked kind l d = Ok (u, l')"
  shows "updates_ok kind (jl_updates l @ [u])"
proof -
  let ?us = "jl_updates l"
  have m: "log_matches l" and us: "updates_ok kind ?us" using ok by (auto simp: update_log_ok_def)
  have u: "u = drafted_update l d" and v: "validate_update u = Ok ()"
    and checks: "append_checks kind l d = Ok ()"
    using app by (auto simp: append_locked_Ok)
  have open_log: "\<not> jl_terminal l" and n: "length ?us \<le> MAX_UPDATES_PER_JOB"
    using checks log_ok_open_length [OF us m] by (auto simp: append_checks_Ok)
  have latest: "latest_sequence ?us = of_nat (length ?us)"
    using us by (simp add: updates_ok_def latest_sequence_eq)
  have seqs: "map update_sequence (?us @ [u]) = map of_nat [1..<Suc (length (?us @ [u]))]"
    using us by (simp add: updates_ok_def u drafted_update_def into_update_views latest)
  have "?us = [] \<or> \<not> update_is_terminal (last ?us)"
    using m open_log unfolding log_matches_def by blast
  moreover have "\<forall>v \<in> set (butlast ?us). \<not> update_is_terminal v"
    using us unfolding updates_ok_def by blast
  ultimately have running: "\<forall>v \<in> set ?us. \<not> update_is_terminal v"
    by (rule butlast_last_not_terminal)
  have item: "update_item u = draft_item_id d"
    by (simp add: u drafted_update_def into_update_views)
  have "\<forall>i. draft_item_id d = Some i \<longrightarrow> i \<notin> set (collect update_item ?us)"
    using checks m by (simp add: append_checks_Ok log_matches_def)
  moreover have "distinct (collect update_item ?us)"
    using us by (simp add: updates_ok_def)
  ultimately have "distinct (collect update_item (?us @ [u]))"
    by (simp add: collect_snoc item split: option.splits)
  moreover have "progress_ascends (collect update_progress (?us @ [u]))"
    by (rule progress_ascends_append [OF ok checks u])
  moreover have "update_kind u \<in> {None, Some kind}"
    and "length ?us = MAX_UPDATES_PER_JOB \<longrightarrow> update_is_terminal u"
    using checks by (auto simp: append_checks_Ok u drafted_update_def into_update_views)
  moreover have "completion_counts ?us u"
    unfolding u by (rule completion_counts_drafted [OF m n])
  moreover have "\<forall>v \<in> set (?us @ [u]). validate_update v = Ok () \<and> update_kind v \<in> {None, Some kind}"
    using us v \<open>update_kind u \<in> {None, Some kind}\<close> unfolding updates_ok_def by simp
  ultimately show ?thesis
    using seqs n running unfolding updates_ok_def by simp
qed

lemma append_keeps_ok:
  assumes "update_log_ok kind l" "append_locked kind l d = Ok (u, l')"
  shows "update_log_ok kind l'"
  using assms updates_ok_push [OF assms] log_matches_push [of l u]
  by (auto simp: update_log_ok_def append_locked_Ok append_checks_Ok drafted_update_def into_update_views)

lemma log_ok_focus:
  "update_log_ok kind l \<Longrightarrow> update_log_ok kind (fst (update_focus kind l request))"
  by (cases kind; cases request) (simp_all add: update_focus_def Let_def update_log_ok_def log_matches_def)

section \<open>Reachable logs\<close>

text \<open>
  What the threads of a job do to its log: appends, accepted or refused, and focus updates, in
  any order. A thread may have read the cancel flag long before it takes the lock.
\<close>

inductive reachable_log :: "job_source_kind \<Rightarrow> job_log \<Rightarrow> bool" for kind where
  image_start: "kind = ImageSource \<Longrightarrow> reachable_log kind (jo_log (new_record order i source rects))"
| document_start: "kind = DocumentSource \<Longrightarrow> reachable_log kind (jo_log (new_document order i ids))"
| append: "reachable_log kind l \<Longrightarrow> append_locked kind l d = Ok (u, l') \<Longrightarrow> reachable_log kind l'"
| focus: "reachable_log kind l \<Longrightarrow> reachable_log kind (fst (update_focus kind l request))"

lemma log_ok_new: "jl_updates l = [] \<Longrightarrow> log_matches l \<Longrightarrow> update_log_ok kind l"
  by (simp add: update_log_ok_def updates_ok_def collect_Nil)

lemma log_matches_start [simp]:
  "log_matches (jo_log (new_record order i source rects))"
  "log_matches (jo_log (new_document order i ids))"
  "jl_updates (jo_log (new_record order i source rects)) = []"
  "jl_updates (jo_log (new_document order i ids)) = []"
  by (simp_all add: log_matches_def new_record_def new_document_def new_log_def Let_def collect_Nil)

lemma reachable_log_ok: "reachable_log kind l \<Longrightarrow> update_log_ok kind l"
  by (induction rule: reachable_log.induct) (auto simp: log_ok_new append_keeps_ok log_ok_focus)

text \<open>The single parts of \<open>update_log_ok\<close>.\<close>

lemma update_log_okD:
  assumes "update_log_ok kind l"
  shows "map update_sequence (jl_updates l) = map of_nat [1..<Suc (length (jl_updates l))]"
    and "length (jl_updates l) \<le> 10001"
    and "\<forall>u \<in> set (jl_updates l). validate_update u = Ok ()"
    and "\<forall>u \<in> set (butlast (jl_updates l)). \<not> update_is_terminal u"
  using assms unfolding update_log_ok_def updates_ok_def MAX_UPDATES_PER_JOB_def by auto

section \<open>Replay\<close>

lemma updates_nth_sequence:
  assumes "map update_sequence us = map of_nat [1..<Suc (length us)]" "i < length us"
  shows "update_sequence (us ! i) = of_nat (Suc i)"
proof -
  have "map update_sequence us ! i = map of_nat [1..<Suc (length us)] ! i" using assms by simp
  then show ?thesis using assms(2) by (simp del: upt_Suc)
qed

lemma sequence_less_iff:
  assumes "i < length us" "length us \<le> 10001" "unat after \<le> length us"
  shows "(after :: u64) < of_nat (Suc i) \<longleftrightarrow> unat after \<le> i"
  using assms by (auto simp: word_less_nat_alt unat_of_nat simp del: of_nat_Suc)

text \<open>The updates behind an acknowledged sequence are the rest of the list.\<close>

lemma filter_drop:
  assumes s: "map update_sequence us = map of_nat [1..<Suc (length us)]"
    and n: "length us \<le> 10001" and a: "unat (after :: u64) \<le> length us"
  shows "filter (\<lambda>u. after < update_sequence u) us = drop (unat after) us"
proof -
  let ?n = "unat after"
  have low: "\<not> after < update_sequence u" if "u \<in> set (take ?n us)" for u
  proof -
    obtain i where i: "i < ?n" "i < length us" "u = us ! i"
      using \<open>u \<in> set (take ?n us)\<close> by (auto simp: in_set_conv_nth)
    then show ?thesis
      using updates_nth_sequence [OF s i(2)] sequence_less_iff [OF i(2) n a] by simp
  qed
  have high: "after < update_sequence u" if "u \<in> set (drop ?n us)" for u
  proof -
    obtain i where i: "?n \<le> i" "i < length us" "u = us ! i"
      using \<open>u \<in> set (drop ?n us)\<close> a
      by (auto simp: in_set_conv_nth) (metis add.commute le_add1 less_diff_conv)
    then show ?thesis
      using updates_nth_sequence [OF s i(2)] sequence_less_iff [OF i(2) n a] by simp
  qed
  have "filter (\<lambda>u. after < update_sequence u) (take ?n us @ drop ?n us) = drop ?n us"
    using low high unfolding filter_append by (simp add: filter_empty_conv filter_id_conv)
  then show ?thesis by simp
qed

lemma replay_updates_eq:
  assumes "update_log_ok kind l" "unat after \<le> length (jl_updates l)"
  shows "rs_updates (replay_after l after) = take MAX_REPLAY_UPDATES (drop (unat after) (jl_updates l))"
  using assms filter_drop [of "jl_updates l" after]
  by (simp add: update_log_ok_def updates_ok_def replay_after_def MAX_UPDATES_PER_JOB_def)

lemma replay_latest_eq:
  "update_log_ok kind l \<Longrightarrow> rs_latest (replay_after l after) = of_nat (length (jl_updates l))"
  by (simp add: replay_after_def latest_sequence_eq update_log_ok_def updates_ok_def)

lemma reachable_after_append:
  assumes "append_update cancel_seen r d = Ok (u, r')"
  shows "append_locked (jo_source_kind r) (jo_log r) d = Ok (u, jo_log r')" "jo_source_kind r' = jo_source_kind r"
    "jo_cancel r' = jo_cancel r" "jo_job_id r' = jo_job_id r" "jo_active r' = jo_active r" "jo_order r' = jo_order r"
  using assms by (auto simp: append_update_def split: if_splits)

text \<open>What the validator says of an update does not depend on its sequence.\<close>

lemma validate_update_Ok: "validate_update u = Ok () \<longleftrightarrow> update_sequence u \<noteq> 0 \<and> validate_update_body u = Ok ()"
  by (simp add: validate_update_def)

lemma validate_body_into:
  "validate_update_body (into_update d s t p) = validate_update_body (into_update d s' t' p')"
  by (cases d) simp_all

definition draft_valid :: "job_update_draft \<Rightarrow> bool" where
  "draft_valid d \<longleftrightarrow> validate_update_body (into_update d 1 0 0) = Ok ()"

lemma next_sequence_ok:
  assumes "update_log_ok kind l" "\<not> jl_terminal l"
  shows "checked_succ (latest_sequence (jl_updates l)) \<noteq> None" "latest_sequence (jl_updates l) + 1 \<noteq> 0"
proof -
  have n: "length (jl_updates l) \<le> 10000" and latest: "latest_sequence (jl_updates l) = of_nat (length (jl_updates l))"
    using assms log_ok_open_length [of kind l]
    by (auto simp: update_log_ok_def updates_ok_def latest_sequence_eq MAX_UPDATES_PER_JOB_def)
  have "unat (of_nat (Suc (length (jl_updates l))) :: u64) = Suc (length (jl_updates l))"
    using n unfolding unat_of_nat by simp
  then have "of_nat (Suc (length (jl_updates l))) \<noteq> (0 :: u64)"
    by (metis unat_0 nat.distinct(1))
  then have "of_nat (length (jl_updates l)) \<noteq> (-1 :: u64)"
    by auto
  then show "checked_succ (latest_sequence (jl_updates l)) \<noteq> None" "latest_sequence (jl_updates l) + 1 \<noteq> 0"
    unfolding latest checked_succ_def by (auto simp: add_eq_0_iff2)
qed

text \<open>A draft that passes its own validator is accepted unless one of the stated reasons holds.\<close>

lemma append_accepts:
  assumes "update_log_ok kind l" "\<not> jl_terminal l" "draft_valid d"
    and "length (jl_updates l) < MAX_UPDATES_PER_JOB \<or> draft_is_terminal d"
    and "\<not> regressive (jl_last_overall_progress l) d"
    and "draft_source_kind d \<in> {None, Some kind}"
    and "\<And>i. draft_item_id d = Some i \<Longrightarrow> i \<notin> jl_published_items l"
  shows "append_locked kind l d = Ok (drafted_update l d, push_update (drafted_update l d) l)"
proof -
  have "append_checks kind l d = Ok ()"
    using assms next_sequence_ok [OF assms(1,2)] by (auto simp: append_checks_Ok)
  moreover have "validate_update (drafted_update l d) = Ok ()"
    using assms(3) next_sequence_ok [OF assms(1,2)] validate_body_into
    unfolding validate_update_Ok draft_valid_def drafted_update_def into_update_views by metis
  ultimately show ?thesis by (simp add: append_locked_Ok)
qed

end
