(* ===== verification/Job_Storage.thy ===== *)
theory Job_Storage
  imports Job_Log_Laws
begin

text \<open>
  The bounded storage of the daemon (\<open>Storage\<close> of \<open>server.rs\<close>): jobs and patch blobs, the
  eviction of finished jobs, the reservation of a job and the storing of a patch. Every operation
  holds the storage lock, so it is one step. A \<open>usize\<close> is a natural number up to
  \<open>USIZE_MAX\<close> with the checked and saturating sums written out.
\<close>

section \<open>State\<close>

record stored_blob =
  bl_bytes :: "u8 list"
  bl_content_type :: string
  bl_owner_job_id :: rstring

record storage =
  sg_jobs :: "(rstring, job_record) index_map"
  sg_blobs :: "(rstring, stored_blob) index_map"
  sg_next_job_order :: u64

record server_limits =
  sl_max_upload_bytes :: nat
  sl_max_metadata_bytes :: nat
  sl_max_http_body_bytes :: nat
  sl_max_pixels :: u64
  sl_max_dimension :: u32
  sl_max_decoded_bytes :: u64
  sl_max_patch_blob_bytes :: nat
  sl_max_retained_jobs :: nat
  sl_max_stored_blob_bytes :: nat
  sl_max_concurrent_requests :: nat

definition MIB :: nat where "MIB = 1048576"

definition default_limits :: server_limits where
  "default_limits = \<lparr>sl_max_upload_bytes = 20 * MIB, sl_max_metadata_bytes = 65536,
     sl_max_http_body_bytes = 21 * MIB, sl_max_pixels = 25000000, sl_max_dimension = 16384,
     sl_max_decoded_bytes = of_nat (128 * MIB), sl_max_patch_blob_bytes = 16 * MIB,
     sl_max_retained_jobs = 128, sl_max_stored_blob_bytes = 256 * MIB, sl_max_concurrent_requests = 64\<rparr>"

definition empty_storage :: storage where
  "empty_storage = \<lparr>sg_jobs = [], sg_blobs = [], sg_next_job_order = 0\<rparr>"

datatype capacity_kind = JobCapacity | BlobCapacity

section \<open>Sums\<close>

definition saturating_add :: "nat \<Rightarrow> nat \<Rightarrow> nat" where
  "saturating_add a b = min (a + b) USIZE_MAX"

fun try_sum :: "nat \<Rightarrow> nat list \<Rightarrow> nat option" where
  "try_sum acc [] = Some acc"
| "try_sum acc (x # xs) = (if acc + x \<le> USIZE_MAX then try_sum (acc + x) xs else None)"

definition sum_or_max :: "nat list \<Rightarrow> nat" where
  "sum_or_max xs = (case try_sum 0 xs of None \<Rightarrow> USIZE_MAX | Some n \<Rightarrow> n)"

definition stored_blob_bytes :: "storage \<Rightarrow> nat" where
  "stored_blob_bytes s = sum_or_max (map (length \<circ> bl_bytes) (im_values (sg_blobs s)))"

definition retained_bytes :: "storage \<Rightarrow> nat" where
  "retained_bytes s =
     saturating_add (stored_blob_bytes s) (sum_or_max (map retained_source_bytes (im_values (sg_jobs s))))"

section \<open>Eviction\<close>

definition next_order :: "storage \<Rightarrow> u64 \<times> storage" where
  "next_order s = (sg_next_job_order s, s\<lparr>sg_next_job_order := sat_succ (sg_next_job_order s)\<rparr>)"

definition job_before :: "rstring \<times> job_record \<Rightarrow> rstring \<times> job_record \<Rightarrow> bool" where
  "job_before a b \<longleftrightarrow>
     jo_order (snd a) < jo_order (snd b) \<or> jo_order (snd a) = jo_order (snd b) \<and> fst a < fst b"

fun first_job :: "(rstring \<times> job_record) list \<Rightarrow> (rstring \<times> job_record) option" where
  "first_job [] = None"
| "first_job (j # js) = (case first_job js of None \<Rightarrow> Some j
     | Some k \<Rightarrow> Some (if job_before k j then k else j))"

definition oldest_evictable_job_id :: "storage \<Rightarrow> rstring option" where
  "oldest_evictable_job_id s = map_option fst (first_job (filter (\<lambda>j. is_evictable (snd j)) (sg_jobs s)))"

definition evict_job :: "rstring \<Rightarrow> storage \<Rightarrow> storage" where
  "evict_job i s =
     (if im_contains_key (sg_jobs s) i
      then s\<lparr>sg_jobs := filter (\<lambda>j. fst j \<noteq> i) (sg_jobs s),
             sg_blobs := filter (\<lambda>b. bl_owner_job_id (snd b) \<noteq> i) (sg_blobs s)\<rparr>
      else s)"

lemma first_job_in: "first_job js = Some j \<Longrightarrow> j \<in> set js"
  by (induction js arbitrary: j) (auto split: option.splits if_splits)

lemma first_job_None [simp]: "first_job js = None \<longleftrightarrow> js = []"
  by (cases js) (auto split: option.splits)

lemma oldest_evictable_Some:
  "oldest_evictable_job_id s = Some i \<Longrightarrow> \<exists>r. (i, r) \<in> set (sg_jobs s) \<and> is_evictable r"
  by (auto simp: oldest_evictable_job_id_def dest!: first_job_in)

lemma evict_shrinks [termination_simp]:
  "oldest_evictable_job_id s = Some i \<Longrightarrow> length (sg_jobs (evict_job i s)) < length (sg_jobs s)"
  by (force simp: evict_job_def im_contains_key_def im_keys_def dest!: oldest_evictable_Some
      intro!: length_filter_less)

definition jobs_full :: "server_limits \<Rightarrow> storage \<Rightarrow> bool" where
  "jobs_full limits s \<longleftrightarrow> sl_max_retained_jobs limits \<le> length (sg_jobs s)"

definition bytes_full :: "server_limits \<Rightarrow> nat \<Rightarrow> storage \<Rightarrow> bool" where
  "bytes_full limits added s \<longleftrightarrow> sl_max_stored_blob_bytes limits < saturating_add (retained_bytes s) added"

text \<open>The evictions of a refused request stay: the storage is part of the result.\<close>

function room_for_job :: "server_limits \<Rightarrow> nat \<Rightarrow> storage \<Rightarrow> storage \<times> (capacity_kind + unit)" where
  "room_for_job limits added s =
     (if \<not> jobs_full limits s \<and> \<not> bytes_full limits added s then (s, Ok ())
      else (case oldest_evictable_job_id s of
          None \<Rightarrow> (s, Err (if jobs_full limits s then JobCapacity else BlobCapacity))
        | Some i \<Rightarrow> room_for_job limits added (evict_job i s)))"
  by auto
termination by (relation "measure (\<lambda>(limits, added, s). length (sg_jobs s))") (auto simp: evict_shrinks)

declare room_for_job.simps [simp del]

definition make_room_for_job :: "server_limits \<Rightarrow> nat \<Rightarrow> storage \<Rightarrow> storage \<times> (capacity_kind + unit)" where
  "make_room_for_job limits added s =
     (if sl_max_stored_blob_bytes limits < added then (s, Err BlobCapacity) else room_for_job limits added s)"

function room_for_blob :: "server_limits \<Rightarrow> nat \<Rightarrow> storage \<Rightarrow> storage \<times> (capacity_kind + unit)" where
  "room_for_blob limits added s =
     (if \<not> bytes_full limits added s then (s, Ok ())
      else (case oldest_evictable_job_id s of
          None \<Rightarrow> (s, Err BlobCapacity)
        | Some i \<Rightarrow> room_for_blob limits added (evict_job i s)))"
  by auto
termination by (relation "measure (\<lambda>(limits, added, s). length (sg_jobs s))") (auto simp: evict_shrinks)

declare room_for_blob.simps [simp del]

definition make_room_for_blob :: "server_limits \<Rightarrow> nat \<Rightarrow> storage \<Rightarrow> storage \<times> (capacity_kind + unit)" where
  "make_room_for_blob limits added s =
     (if sl_max_stored_blob_bytes limits < added then (s, Err BlobCapacity) else room_for_blob limits added s)"

section \<open>Reserving a job\<close>

definition capacity_api_error :: "capacity_kind \<Rightarrow> api_error" where
  "capacity_api_error k = (case k of JobCapacity \<Rightarrow> JobLimitReached | BlobCapacity \<Rightarrow> BlobLimitReached)"

text \<open>
  The fresh ids are an argument: the candidates the generator draws until one is not taken. The
  result is \<open>None\<close> only when the list of candidates ends before.
\<close>

definition draw_id :: "('v \<times> 'w) list \<Rightarrow> 'v list \<Rightarrow> 'v option" where
  "draw_id taken candidates = List.find (\<lambda>c. \<not> im_contains_key taken c) candidates"

definition reserve_job ::
  "server_limits \<Rightarrow> rstring list \<Rightarrow> decoded_image option \<Rightarrow> normalized_rect list \<Rightarrow> rstring list option
     \<Rightarrow> storage \<Rightarrow> (storage \<times> (api_error + rstring)) option" where
  "reserve_job limits candidates source rects document_focus s =
     (let added = (case source of None \<Rightarrow> 0 | Some img \<Rightarrow> image_bytes img) in
      (case make_room_for_job limits added s of
         (s1, Err k) \<Rightarrow> Some (s1, Err (capacity_api_error k))
       | (s1, Ok _) \<Rightarrow> (case draw_id (sg_jobs s1) candidates of
            None \<Rightarrow> None
          | Some i \<Rightarrow>
              (let (order, s2) = next_order s1;
                   r = (case document_focus of Some ids \<Rightarrow> new_document order i ids
                        | None \<Rightarrow> new_record order i source rects)
               in Some (case append_update False r queued_draft of
                    Err _ \<Rightarrow> (s2, Err InternalError)
                  | Ok (u, r') \<Rightarrow> (s2\<lparr>sg_jobs := im_insert (sg_jobs s2) i r'\<rparr>, Ok i))))))"

section \<open>Patches\<close>

definition store_patch_bytes ::
  "server_limits \<Rightarrow> rstring list \<Rightarrow> rstring \<Rightarrow> normalized_rect \<Rightarrow> u8 list \<Rightarrow> storage
     \<Rightarrow> (storage \<times> (publish_error + region_patch)) option" where
  "store_patch_bytes limits candidates job rect bytes s =
     (if \<not> im_contains_key (sg_jobs s) job then Some (s, Err PublishTerminal)
      else (case make_room_for_blob limits (length bytes) s of
          (s1, Err _) \<Rightarrow> Some (s1, Err StorageFull)
        | (s1, Ok _) \<Rightarrow> (case draw_id (sg_blobs s1) candidates of
             None \<Rightarrow> None
           | Some i \<Rightarrow> Some (s1\<lparr>sg_blobs := im_insert (sg_blobs s1) i
                 \<lparr>bl_bytes = bytes, bl_content_type = ''image/png'', bl_owner_job_id = job\<rparr>\<rparr>,
               Ok \<lparr>rp_blob_id = i, rp_mime_type = Png, rp_rect = rect\<rparr>))))"

definition be_u32 :: "u8 list \<Rightarrow> nat" where
  "be_u32 bs = foldl (\<lambda>n b. n * 256 + unat b) 0 bs"

definition validate_generated_patch_png :: "u8 list \<Rightarrow> server_limits \<Rightarrow> publish_error + unit" where
  "validate_generated_patch_png bytes limits = check_all
     [reject_if (sl_max_patch_blob_bytes limits < length bytes) PatchTooLarge,
      reject_if (length bytes < 8 \<or> take 8 bytes \<noteq> [137, 80, 78, 71, 13, 10, 26, 10]) InvalidPatch,
      reject_if (length bytes < 24 \<or> take 4 (drop 12 bytes) \<noteq> [73, 72, 68, 82]) InvalidPatch,
      (let width = be_u32 (take 4 (drop 16 bytes)); height = be_u32 (take 4 (drop 20 bytes)) in
       reject_if (width = 0 \<or> height = 0 \<or> unat (sl_max_dimension limits) < width
           \<or> unat (sl_max_dimension limits) < height) InvalidPatch)]"

definition store_generated_patch_png ::
  "server_limits \<Rightarrow> rstring list \<Rightarrow> rstring \<Rightarrow> normalized_rect \<Rightarrow> u8 list \<Rightarrow> storage
     \<Rightarrow> (storage \<times> (publish_error + region_patch)) option" where
  "store_generated_patch_png limits candidates job rect bytes s =
     (case validate_generated_patch_png bytes limits of
        Err e \<Rightarrow> Some (s, Err e)
      | Ok _ \<Rightarrow> store_patch_bytes limits candidates job rect bytes s)"

definition store_cached_patch_png ::
  "server_limits \<Rightarrow> rstring list \<Rightarrow> rstring \<Rightarrow> normalized_rect \<Rightarrow> u8 list \<Rightarrow> storage
     \<Rightarrow> (storage \<times> (publish_error + region_patch)) option" where
  "store_cached_patch_png limits candidates job rect bytes s =
     (if sl_max_patch_blob_bytes limits < length bytes then Some (s, Err PatchTooLarge)
      else store_patch_bytes limits candidates job rect bytes s)"

text \<open>The checks of the sink before a patch is stored.\<close>

definition validate_patch_storage_request :: "job_record \<Rightarrow> normalized_rect \<Rightarrow> publish_error + unit" where
  "validate_patch_storage_request r rect = check_all
     [reject_if (jo_cancel r) PublishCancelled,
      reject_if (is_terminal r) PublishTerminal,
      (case validate_rect ''patch.rect'' rect of Err e \<Rightarrow> Err (PublishContract e) | Ok u \<Rightarrow> Ok u)]"

definition patch_belongs_to_job :: "storage \<Rightarrow> rstring \<Rightarrow> rstring \<Rightarrow> bool" where
  "patch_belongs_to_job s job blob =
     (case im_get (sg_blobs s) blob of None \<Rightarrow> False | Some b \<Rightarrow> bl_owner_job_id b = job)"

definition publish :: "storage \<Rightarrow> job_record \<Rightarrow> job_update_draft \<Rightarrow> publish_error + (job_update \<times> job_record)" where
  "publish s r d = (case d of
     DraftImageRegionReady region \<Rightarrow>
       (if \<not> patch_belongs_to_job s (jo_job_id r) (rp_blob_id (ir_patch region))
        then Err (UnknownPatch (rp_blob_id (ir_patch region)))
        else append_update (jo_cancel r) r d)
   | _ \<Rightarrow> append_update (jo_cancel r) r d)"

record cached_image_region =
  cr_region :: image_region_ready
  cr_patch_png :: "u8 list"

record cached_image_job =
  ci_regions :: "cached_image_region list"
  ci_preserved :: "image_region_preserved list"

definition cache_failed :: pipeline_error where
  "cache_failed = \<lparr>pe_code = lit ''CACHE_FAILED'',
     pe_message = lit ''A completed region patch was unavailable for persistence.''\<rparr>"

fun collect_patches ::
  "storage \<Rightarrow> rstring \<Rightarrow> image_region_ready list \<Rightarrow> pipeline_error + cached_image_region list" where
  "collect_patches s job [] = Ok []"
| "collect_patches s job (r # rs) =
     (case im_get (sg_blobs s) (rp_blob_id (ir_patch r)) of
        None \<Rightarrow> Err cache_failed
      | Some b \<Rightarrow> if bl_owner_job_id b \<noteq> job then Err cache_failed
          else try_bind (collect_patches s job rs)
            (\<lambda>cs. Ok (\<lparr>cr_region = r, cr_patch_png = bl_bytes b\<rparr> # cs)))"

definition completed_cache_job :: "storage \<Rightarrow> job_record \<Rightarrow> pipeline_error + cached_image_job" where
  "completed_cache_job s r =
     try_bind (collect_patches s (jo_job_id r) (translated_regions (jo_log r)))
       (\<lambda>cs. Ok \<lparr>ci_regions = cs, ci_preserved = preserved_regions (jo_log r)\<rparr>)"

definition find_job :: "storage \<Rightarrow> rstring \<Rightarrow> api_error + job_record" where
  "find_job s i = (case im_get (sg_jobs s) i of None \<Rightarrow> Err JobNotFound | Some r \<Rightarrow> Ok r)"

text \<open>The record after the cancel request, which then evicts the job.\<close>

definition cancel_record :: "job_record \<Rightarrow> job_record" where
  "cancel_record r = (let r1 = r\<lparr>jo_cancel := True\<rparr>;
       r2 = (if is_terminal r1 then r1 else try_append r1 (DraftCancelled (Some (lit ''Cancelled''))))
     in finish_active r2)"

definition set_job :: "rstring \<Rightarrow> job_record \<Rightarrow> storage \<Rightarrow> storage" where
  "set_job i r s = s\<lparr>sg_jobs := im_set (sg_jobs s) i r\<rparr>"

definition cancel_job :: "rstring \<Rightarrow> storage \<Rightarrow> storage \<times> (api_error + unit)" where
  "cancel_job i s = (case find_job s i of
     Err e \<Rightarrow> (s, Err e)
   | Ok r \<Rightarrow> (evict_job i (set_job i (cancel_record r) s), Ok ()))"

end
