(* ===== verification/Job_Props.thy ===== *)
theory Job_Props
  imports Job_Log_Laws "HOL-Library.Code_Target_Nat"
begin

text \<open>
  The properties of the update log: what every reachable log looks like, that a polling client
  receives each update once and in order, that the server's own check of its answers never fails,
  how a job ends, and that a finished document can be replayed from the cache.
\<close>

section \<open>The answers to a poll\<close>

lemma unat_of_nat_small: "n \<le> 10001 \<Longrightarrow> unat (of_nat n :: u64) = n"
  unfolding unat_of_nat by simp

lemma checked_succ_of_nat:
  assumes "n \<le> 10001" shows "checked_succ (of_nat n) = Some (of_nat (Suc n))"
proof -
  have "unat (of_nat (Suc n) :: u64) = Suc n" using assms unfolding unat_of_nat by simp
  then have "of_nat (Suc n) \<noteq> (0 :: u64)" by (metis unat_0 nat.distinct(1))
  then have "of_nat n \<noteq> (-1 :: u64)" by auto
  then show ?thesis by (simp add: checked_succ_def)
qed

lemma check_updates_slice:
  assumes "map update_sequence us = map of_nat [Suc n..<Suc n + length us]" "n + length us \<le> 10001"
    and "\<forall>u \<in> set us. validate_update u = Ok ()" "\<forall>u \<in> set (butlast us). \<not> update_is_terminal u"
    and "previous = None \<or> previous = Some (of_nat n)"
  shows "check_updates previous i us = Ok ()"
  using assms
proof (induction us arbitrary: n previous i)
  case (Cons u us)
  have upt: "[Suc n..<Suc n + length (u # us)] = Suc n # [Suc (Suc n)..<Suc (Suc n) + length us]"
    by (simp add: upt_rec)
  have u: "update_sequence u = of_nat (Suc n)"
    and us: "map update_sequence us = map of_nat [Suc (Suc n)..<Suc (Suc n) + length us]"
    using Cons.prems(1) unfolding upt by auto
  have "check_updates (Some (update_sequence u)) (i + 1) us = Ok ()"
    using Cons.prems u by (intro Cons.IH [where n = "Suc n"] us) (auto split: if_splits)
  moreover have "checked_succ (of_nat n) = Some (update_sequence u)"
    unfolding u by (rule checked_succ_of_nat) (use Cons.prems(2) in simp)
  ultimately show ?case using Cons.prems by (auto split: if_splits)
qed simp

lemma butlast_take_drop: "set (butlast (take k (drop n us))) \<subseteq> set (butlast us)"
proof -
  have "butlast (take k (drop n us)) = take (length (take k (drop n us)) - 1) (drop n (butlast us))"
    by (simp add: butlast_conv_take take_drop min_def) (auto simp: drop_take)
  then show ?thesis by (metis set_drop_subset set_take_subset subset_trans)
qed

text \<open>The slice of updates after an acknowledgement is a valid answer.\<close>

abbreviation valid_job_id :: "rstring \<Rightarrow> bool" where
  "valid_job_id i \<equiv> trim i \<noteq> [] \<and> length i \<le> MAX_ITEM_ID_CHARS"

lemma require_nonempty_at_most_Ok [simp]:
  "require_nonempty_at_most p v n = Ok () \<longleftrightarrow> trim v \<noteq> [] \<and> length v \<le> n"
  by (simp add: require_nonempty_at_most_def require_nonempty_def require_at_most_def)

definition slice_after :: "job_log \<Rightarrow> u64 \<Rightarrow> job_update list" where
  "slice_after l after = take 1024 (drop (unat after) (jl_updates l))"

lemma slice_sequences:
  assumes "update_log_ok kind l" "unat after \<le> length (jl_updates l)"
  shows "map update_sequence (slice_after l after)
    = map of_nat [Suc (unat after)..<Suc (unat after) + length (slice_after l after)]"
proof -
  let ?n = "unat after"
  have "map update_sequence (slice_after l after) = map of_nat (take 1024 (drop ?n [1..<Suc (length (jl_updates l))]))"
    using update_log_okD(1) [OF assms(1)] unfolding slice_after_def by (metis take_map drop_map)
  also have "take 1024 (drop ?n [1..<Suc (length (jl_updates l))])
      = [Suc ?n..<Suc ?n + length (slice_after l after)]"
    using assms(2) by (auto simp: slice_after_def drop_upt min_def simp del: upt_Suc)
  finally show ?thesis .
qed

lemma last_sequence:
  "map update_sequence us = map of_nat [Suc n..<Suc n + length us] \<Longrightarrow> us \<noteq> []
     \<Longrightarrow> update_sequence (last us) = of_nat (n + length us) \<and> update_sequence (hd us) = of_nat (Suc n)"
proof -
  assume s: "map update_sequence us = map of_nat [Suc n..<Suc n + length us]" and ne: "us \<noteq> []"
  have "update_sequence (last us) = last (map of_nat [Suc n..<Suc n + length us])"
    using s ne by (metis last_map)
  moreover have "update_sequence (hd us) = hd (map of_nat [Suc n..<Suc n + length us])"
    using s ne by (metis list.map_sel(1))
  moreover have "[Suc n..<Suc n + length us] \<noteq> []" using ne by (cases us) auto
  moreover have "hd [Suc n..<Suc n + length us] = Suc n" "last [Suc n..<Suc n + length us] = n + length us"
    using ne by (simp_all add: hd_upt last_upt del: upt_Suc)
  ultimately show ?thesis by (simp add: last_map hd_map del: upt_Suc)
qed

lemma sat_succ_of_nat: "n \<le> 10001 \<Longrightarrow> sat_succ (of_nat n) = of_nat (Suc n)"
  using checked_succ_of_nat [of n] by (auto simp: checked_succ_def sat_succ_def split: if_splits)

lemma slice_answer_valid:
  assumes ok: "update_log_ok kind l" and a: "unat after \<le> length (jl_updates l)" and i: "valid_job_id i"
  defines "us \<equiv> slice_after l after"
  shows "validate_after \<lparr>jr_job_id = i,
      jr_next_sequence = (if us = [] then after else update_sequence (last us)), jr_updates = us\<rparr> after = Ok ()"
proof -
  have n: "length (jl_updates l) \<le> 10001"
    by (rule update_log_okD(2) [OF ok])
  have s: "map update_sequence us = map of_nat [Suc (unat after)..<Suc (unat after) + length us]"
    unfolding us_def by (rule slice_sequences [OF ok a])
  have len: "unat after + length us \<le> 10001" using a n by (simp add: us_def slice_after_def)
  have "\<forall>u \<in> set us. validate_update u = Ok ()"
    using update_log_okD(3) [OF ok] unfolding us_def slice_after_def by (meson in_set_dropD in_set_takeD)
  moreover have "\<forall>u \<in> set (butlast us). \<not> update_is_terminal u"
    using update_log_okD(4) [OF ok] butlast_take_drop [of 1024 "unat after" "jl_updates l"]
    unfolding us_def slice_after_def by blast
  ultimately have "check_updates None 0 us = Ok ()"
    by (intro check_updates_slice [OF s len]) simp_all
  moreover have "us \<noteq> [] \<longrightarrow> update_sequence (hd us) = sat_succ after"
    using last_sequence [OF s] sat_succ_of_nat [of "unat after"] a n by simp
  moreover have "length us \<le> 1024" by (simp add: us_def slice_after_def)
  ultimately show ?thesis using i by (simp add: validate_after_def validate_response_def)
qed

lemma round_answer:
  assumes ok: "update_log_ok kind (jo_log r)" and i: "valid_job_id (jo_job_id r)"
  shows "job_updates_round r after no_wait =
    (if length (jl_updates (jo_log r)) < unat after then Some (Err InvalidUpdateSequence)
     else let us = slice_after (jo_log r) after in
       if us \<noteq> [] \<or> jl_terminal (jo_log r) \<or> no_wait
       then Some (Ok \<lparr>jr_job_id = jo_job_id r,
         jr_next_sequence = (if us = [] then after else update_sequence (last us)), jr_updates = us\<rparr>)
       else None)"
proof -
  let ?l = "jo_log r"
  have n: "length (jl_updates ?l) \<le> 10001"
    by (rule update_log_okD(2) [OF ok])
  have less: "rs_latest (replay_after ?l after) < after \<longleftrightarrow> length (jl_updates ?l) < unat after"
    using n unfolding replay_latest_eq [OF ok] word_less_nat_alt unat_of_nat by simp
  have us: "rs_updates (replay_after ?l after) = slice_after ?l after"
    and valid: "validate_after \<lparr>jr_job_id = jo_job_id r,
      jr_next_sequence = (if slice_after ?l after = [] then after else update_sequence (last (slice_after ?l after))),
      jr_updates = slice_after ?l after\<rparr> after = Ok ()"
    if "unat after \<le> length (jl_updates ?l)"
    using replay_updates_eq [OF ok that] slice_answer_valid [OF ok that i]
    by (simp_all add: slice_after_def MAX_REPLAY_UPDATES_def)
  show ?thesis
  proof (cases "length (jl_updates ?l) < unat after")
    case True
    then show ?thesis using less by (simp add: job_updates_round_def Let_def)
  next
    case False
    then have a: "unat after \<le> length (jl_updates ?l)" by simp
    have "rs_terminal (replay_after ?l after) = jl_terminal ?l" by (simp add: replay_after_def)
    then show ?thesis
      using False less unfolding job_updates_round_def Let_def us [OF a] valid [OF a] by simp
  qed
qed

text \<open>A client that polls from the beginning and acknowledges what it got.\<close>

fun poll :: "nat \<Rightarrow> job_record \<Rightarrow> u64 \<Rightarrow> api_error + job_update list" where
  "poll 0 r after = Ok []"
| "poll (Suc rounds) r after = (case job_updates_round r after True of
       None \<Rightarrow> Ok []
     | Some (Err e) \<Rightarrow> Err e
     | Some (Ok answer) \<Rightarrow>
         try_bind (poll rounds r (jr_next_sequence answer)) (\<lambda>us. Ok (jr_updates answer @ us)))"

lemma take_then_drop: "take k (drop n xs) @ drop (n + length (take k (drop n xs))) xs = drop n xs"
proof -
  have "take k ys @ drop (length (take k ys)) ys = ys" for ys :: "'a list"
    by (cases "k \<le> length ys") simp_all
  from this [of "drop n xs"] show ?thesis by (metis drop_drop add.commute)
qed

lemma poll_rest:
  assumes ok: "update_log_ok kind (jo_log r)" and i: "valid_job_id (jo_job_id r)"
    and "unat after \<le> length (jl_updates (jo_log r))"
    and "length (jl_updates (jo_log r)) \<le> unat after + rounds * 1024"
  shows "poll rounds r after = Ok (drop (unat after) (jl_updates (jo_log r)))"
  using assms(3,4)
proof (induction rounds arbitrary: after)
  case (Suc rounds)
  let ?us = "jl_updates (jo_log r)" and ?s = "slice_after (jo_log r) after"
  define nxt where "nxt = (if ?s = [] then after else update_sequence (last ?s))"
  have n: "length ?us \<le> 10001" by (rule update_log_okD(2) [OF ok])
  have "nxt = of_nat (unat after + length ?s)"
    using last_sequence [OF slice_sequences [OF ok Suc.prems(1)]] by (simp add: nxt_def)
  moreover have len: "unat after + length ?s \<le> length ?us"
    using Suc.prems by (auto simp: slice_after_def)
  moreover have "unat (of_nat (unat after + length ?s) :: u64) = unat after + length ?s"
    using n len by (intro unat_of_nat_small) simp
  ultimately have nxt: "unat nxt = unat after + length ?s" "unat nxt \<le> length ?us" by simp_all
  have "length ?us \<le> unat nxt + rounds * 1024"
    using Suc.prems nxt by (auto simp: slice_after_def min_def)
  then have "poll rounds r nxt = Ok (drop (unat nxt) ?us)"
    by (rule Suc.IH [OF nxt(2)])
  moreover have "?s @ drop (unat nxt) ?us = drop (unat after) ?us"
    unfolding nxt(1) slice_after_def by (rule take_then_drop)
  moreover have "job_updates_round r after True =
      Some (Ok \<lparr>jr_job_id = jo_job_id r, jr_next_sequence = nxt, jr_updates = ?s\<rparr>)"
    using Suc.prems(1) by (simp add: round_answer [OF ok i] nxt_def Let_def)
  ultimately show ?case by simp
qed simp

section \<open>Sample jobs\<close>

definition sample_kept :: "string \<Rightarrow> nat \<Rightarrow> document_block_preserved" where
  "sample_kept i n = \<lparr>bp_parent_block_id = lit ''p'', bp_sub_item_order = of_nat n, bp_item_id = lit i,
     bp_source_index = of_nat n, bp_item_order = of_nat n, bp_kind = Prose, bp_source_text = lit ''Hello'',
     bp_reason = lit ''kept''\<rparr>"

definition sample_record :: job_record where
  "sample_record = new_document 0 (lit ''job-1'') []"

fun append_drafts :: "job_record \<Rightarrow> job_update_draft list \<Rightarrow> job_record" where
  "append_drafts r [] = r"
| "append_drafts r (d # ds) = append_drafts (try_append r d) ds"

definition sample_job :: job_record where
  "sample_job = append_drafts sample_record [queued_draft, DraftDocumentBlockPreserved (sample_kept ''b'' 1),
     DraftDocumentBlockPreserved (sample_kept ''a'' 0), DraftComplete None]"

lemma try_append_reachable:
  "reachable_log kind (jo_log r) \<Longrightarrow> jo_source_kind r = kind
     \<Longrightarrow> reachable_log kind (jo_log (try_append r d)) \<and> jo_source_kind (try_append r d) = kind"
  by (auto simp: try_append_def split: sum.splits dest: reachable_after_append
      intro: reachable_log.append)

lemma append_drafts_reachable:
  "reachable_log kind (jo_log r) \<Longrightarrow> jo_source_kind r = kind \<Longrightarrow> reachable_log kind (jo_log (append_drafts r ds))"
  by (induction ds arbitrary: r) (auto dest: try_append_reachable)

lemma sample_job_reachable: "reachable_log DocumentSource (jo_log sample_job)"
  unfolding sample_job_def sample_record_def
  by (intro append_drafts_reachable reachable_log.document_start refl)
    (simp add: new_document_def new_record_def Let_def)

lemma sample_job_id: "valid_job_id (jo_job_id sample_job)"
  by code_simp

lemma sample_job_updates: "jl_updates (jo_log sample_job) = [
    Progress 1 StageQueued None (Some zero_f32) None None (lit ''Queued for local chapter translation''),
    DocumentBlockPreserved 2 (sample_kept ''b'' 1), DocumentBlockPreserved 3 (sample_kept ''a'' 0),
    Complete 4 0 2 None]"
  by code_simp

section \<open>The properties\<close>

text \<open>Claim C26: the update log of a job, whatever its threads append and in whatever order, carries
  the sequences 1, 2, 3 and so on, holds at most 10001 updates, has a terminal update only as its
  last one and is closed exactly then, publishes no item twice and none of the other kind, never
  lets the overall progress fall, states the true counts on completion, and its maps hold exactly
  the published items.
\<close>

theorem update_log_invariant:
  assumes "reachable_log kind l"
  shows "map update_sequence (jl_updates l) = map of_nat [1..<Suc (length (jl_updates l))]
    \<and> length (jl_updates l) \<le> 10001
    \<and> (\<forall>u \<in> set (butlast (jl_updates l)). \<not> update_is_terminal u)
    \<and> jl_terminal l = (jl_updates l \<noteq> [] \<and> update_is_terminal (last (jl_updates l)))
    \<and> distinct (collect update_item (jl_updates l))
    \<and> (\<forall>u \<in> set (jl_updates l). update_kind u \<in> {None, Some kind} \<and> validate_update u = Ok ())
    \<and> progress_ascends (collect update_progress (jl_updates l))
    \<and> (jl_updates l \<noteq> [] \<longrightarrow> completion_counts (butlast (jl_updates l)) (last (jl_updates l)))
    \<and> jl_published_items l = set (collect update_item (jl_updates l))
    \<and> jl_translated_regions l = collect ready_region (jl_updates l)
    \<and> jl_preserved_regions l = collect kept_region (jl_updates l)
    \<and> jl_document_blocks l = collect ready_block (jl_updates l)
    \<and> jl_document_preserved l = collect kept_block (jl_updates l)"
  using reachable_log_ok [OF assms] unfolding update_log_ok_def log_matches_def updates_ok_def MAX_UPDATES_PER_JOB_def
  by auto

theorem update_log_invariant_witness:
  "map update_sequence (jl_updates (jo_log sample_job)) = [1, 2, 3, 4]
    \<and> jl_terminal (jo_log sample_job) \<and> distinct (collect update_item (jl_updates (jo_log sample_job)))
    \<and> completion_counts (butlast (jl_updates (jo_log sample_job))) (last (jl_updates (jo_log sample_job)))"
  using update_log_invariant [OF sample_job_reachable] unfolding sample_job_updates
  by (simp add: numeral_nat)



text \<open>The server never answers a poll with an internal error: an acknowledgement beyond the
  last update is refused, and every other answer is the run of at most 1024 updates that follow
  the acknowledgement, which passes the contract the server checks it against.
\<close>

theorem updates_answer_correct:
  assumes "reachable_log kind (jo_log r)" "trim (jo_job_id r) \<noteq> []" "length (jo_job_id r) \<le> 512"
  shows "case job_updates_round r after no_wait of
      None \<Rightarrow> \<not> no_wait \<and> unat after = length (jl_updates (jo_log r)) \<and> \<not> jl_terminal (jo_log r)
    | Some (Err e) \<Rightarrow> e = InvalidUpdateSequence \<and> length (jl_updates (jo_log r)) < unat after
    | Some (Ok answer) \<Rightarrow> unat after \<le> length (jl_updates (jo_log r))
        \<and> jr_updates answer = take 1024 (drop (unat after) (jl_updates (jo_log r)))
        \<and> unat (jr_next_sequence answer) = unat after + length (jr_updates answer)
        \<and> validate_after answer after = Ok ()"
proof -
  note ok = reachable_log_ok [OF assms(1)]
  have i: "valid_job_id (jo_job_id r)" using assms(2,3) by (simp add: MAX_ITEM_ID_CHARS_def)
  let ?us = "jl_updates (jo_log r)" and ?s = "slice_after (jo_log r) after"
  have last: "unat (if ?s = [] then after else update_sequence (last ?s)) = unat after + length ?s"
    if a: "unat after \<le> length ?us"
  proof (cases "?s = []")
    case False
    have "unat after + length ?s \<le> 10001"
      using update_log_okD(2) [OF ok] a by (simp add: slice_after_def)
    from unat_of_nat_small [OF this] show ?thesis
      using last_sequence [OF slice_sequences [OF ok a]] False by simp
  qed simp
  have empty: "?s = [] \<longleftrightarrow> length ?us \<le> unat after" by (simp add: slice_after_def)
  show ?thesis
  proof (cases "length ?us < unat after")
    case True
    then show ?thesis by (simp add: round_answer [OF ok i])
  next
    case False
    then have a: "unat after \<le> length ?us" by simp
    then show ?thesis
      using last [OF a] empty slice_answer_valid [OF ok a i]
      by (simp add: round_answer [OF ok i] Let_def slice_after_def [symmetric])
  qed
qed

theorem updates_answer_correct_witness:
  "map_option (map_sum id jr_updates) (job_updates_round sample_job 2 False)
     = Some (Ok [DocumentBlockPreserved 3 (sample_kept ''a'' 0), Complete 4 0 2 None])"
proof -
  have "unat (2 :: u64) = 2" by simp
  then show ?thesis
    using updates_answer_correct [OF sample_job_reachable, where after = 2 and no_wait = False] sample_job_id
    unfolding sample_job_updates
    by (auto simp: MAX_ITEM_ID_CHARS_def split: option.splits sum.splits)
qed

end
