(* ===== verification/Job_Run.thy ===== *)
theory Job_Run
  imports Job_Props
begin

text \<open>
  How a document job ends: it is closed and can be evicted, unless the failure message is one the
  contract refuses; and the cached result of a finished job replays into an equal one.
\<close>

section \<open>Closing a job\<close>

lemma log_ok_updates_open: "update_log_ok kind l \<Longrightarrow> \<not> jl_terminal l \<Longrightarrow> length (jl_updates l) \<le> MAX_UPDATES_PER_JOB"
  by (auto simp: update_log_ok_def intro: log_ok_open_length)

lemma try_append_terminal:
  assumes "update_log_ok (jo_source_kind r) (jo_log r)" "\<not> is_terminal r" "\<not> jo_cancel r"
    and "draft_valid d" "draft_is_terminal d"
  shows "is_terminal (try_append r d) \<and> jo_active (try_append r d) = jo_active r
    \<and> jo_log (try_append r d) = push_update (drafted_update (jo_log r) d) (jo_log r)
    \<and> update_log_ok (jo_source_kind r) (jo_log (try_append r d))"
proof -
  have "append_locked (jo_source_kind r) (jo_log r) d
      = Ok (drafted_update (jo_log r) d, push_update (drafted_update (jo_log r) d) (jo_log r))"
    using assms by (intro append_accepts)
      (auto simp: is_terminal_def regressive_def draft_is_terminal_def draft_source_kind_def draft_item_id_def
        split: job_update_draft.splits)
  moreover from this have "update_log_ok (jo_source_kind r) (push_update (drafted_update (jo_log r) d) (jo_log r))"
    by (rule append_keeps_ok [OF assms(1)])
  moreover have "jl_terminal (push_update (drafted_update (jo_log r) d) (jo_log r))"
    using assms(5) by (simp add: push_update_def drafted_update_def into_update_views Let_def)
  ultimately show ?thesis
    using assms(3) by (simp add: try_append_def append_update_def is_terminal_def)
qed

definition complete_message :: rstring where
  "complete_message = lit ''All discovered document content processed''"

lemma complete_valid:
  "draft_valid (DraftComplete (Some (lit ''All discovered document content processed'')))"
  "draft_valid (DraftComplete (Some (lit ''Exact cached document translation replayed'')))"
  by code_simp+

definition failure_draft :: "pipeline_error \<Rightarrow> job_update_draft" where
  "failure_draft e = DraftFailed (pe_code e) (pe_message e) (is_transient e)"

lemma failure_valid:
  "draft_valid (failure_draft e) \<longleftrightarrow>
     trim (pe_code e) \<noteq> [] \<and> length (pe_code e) \<le> 256 \<and> trim (pe_message e) \<noteq> [] \<and> length (pe_message e) \<le> 2048"
  by (auto simp: draft_valid_def failure_draft_def validate_message_def MAX_MESSAGE_CHARS_def)

lemma finish_active_simps [simp]:
  "jo_log (finish_active r) = jo_log r" "jo_active (finish_active r) = False" "jo_cancel (finish_active r) = jo_cancel r"
  "jo_source (finish_active r) = None"
  by (simp_all add: finish_active_def release_source_def)

lemma is_terminal_finish [simp]: "is_terminal (finish_active r) = is_terminal r"
  by (simp add: is_terminal_def)

lemma fail_job_closes:
  assumes "update_log_ok (jo_source_kind r) (jo_log r)" "\<not> jo_cancel r" "draft_valid (failure_draft e)"
  shows "is_terminal (fail_job r e)"
proof (cases "is_terminal r")
  case True
  then show ?thesis by (simp add: fail_job_def release_source_def is_terminal_def Let_def)
next
  case False
  have "is_terminal (try_append (release_source r) (failure_draft e))"
    using assms False
    by (intro conjunct1 [OF try_append_terminal])
      (simp_all add: release_source_def is_terminal_def failure_draft_def draft_is_terminal_def)
  then show ?thesis
    using assms(2) False by (simp add: fail_job_def Let_def release_source_def is_terminal_def failure_draft_def)
qed

text \<open>A document job that the pipeline has finished, with a result or with an error whose
  code and message the contract accepts, is closed when it stops being active, so that it can be
  evicted; only a cancelled job is left to the cancel request.
\<close>

theorem finished_job_is_evictable:
  assumes "reachable_log DocumentSource (jo_log (fst (pipeline r)))"
    and "jo_source_kind (fst (pipeline r)) = DocumentSource"
    and "\<not> jo_cancel r" "\<not> jo_cancel (fst (pipeline r))"
    and "case snd (pipeline r) of Ok u \<Rightarrow> True
         | Err e \<Rightarrow> trim (pe_code e) \<noteq> [] \<and> length (pe_code e) \<le> 256
             \<and> trim (pe_message e) \<noteq> [] \<and> length (pe_message e) \<le> 2048"
  shows "is_evictable (run_document_job True pipeline r None)"
proof -
  obtain r' res where p: "pipeline r = (r', res)" by (cases "pipeline r")
  have ok: "update_log_ok (jo_source_kind r') (jo_log r')" and c: "\<not> jo_cancel r'"
    using assms(1,2,4) p reachable_log_ok by auto
  show ?thesis
  proof (cases res)
    case (Inl e)
    then have "draft_valid (failure_draft e)" using assms(5) p by (simp add: failure_valid)
    then show ?thesis
      using fail_job_closes [OF ok c] Inl p c assms(3) by (simp add: run_document_job_def is_evictable_def)
  next
    case (Inr u)
    show ?thesis
    proof (cases "is_terminal r'")
      case False
      then have "is_terminal (try_append r' (DraftComplete (Some (lit ''All discovered document content processed''))))"
        by (intro conjunct1 [OF try_append_terminal [OF ok _ c complete_valid(1)]])
          (simp_all add: draft_is_terminal_def)
      then show ?thesis
        using Inr p c assms(3) False by (simp add: run_document_job_def is_evictable_def)
    qed (use Inr p c assms(3) in \<open>simp add: run_document_job_def is_evictable_def\<close>)
  qed
qed

definition sample_pipeline :: "job_record \<Rightarrow> job_record \<times> (pipeline_error + unit)" where
  "sample_pipeline r = (try_append r (DraftDocumentBlockPreserved (sample_kept ''b'' 1)), Ok ())"

theorem finished_job_is_evictable_witness:
  "is_evictable (run_document_job True sample_pipeline sample_record None)"
proof (rule finished_job_is_evictable)
  have start: "reachable_log DocumentSource (jo_log sample_record)" "jo_source_kind sample_record = DocumentSource"
    unfolding sample_record_def
    by (rule reachable_log.document_start) (simp_all add: new_document_def new_record_def Let_def)
  then show "reachable_log DocumentSource (jo_log (fst (sample_pipeline sample_record)))"
    "jo_source_kind (fst (sample_pipeline sample_record)) = DocumentSource"
    using try_append_reachable [OF start] by (simp_all add: sample_pipeline_def)
  show "\<not> jo_cancel sample_record" "\<not> jo_cancel (fst (sample_pipeline sample_record))" by code_simp+
qed (simp add: sample_pipeline_def)


definition sample_failure :: pipeline_error where
  "sample_failure = \<lparr>pe_code = lit ''PIPELINE_FAILED'', pe_message = replicate 2049 120\<rparr>"


section \<open>Replaying a cached document\<close>

definition draft_block :: "job_update_draft \<Rightarrow> (rstring \<times> document_block_ready) option" where
  "draft_block d = (case d of DraftDocumentBlockReady b \<Rightarrow> Some (br_item_id b, b) | _ \<Rightarrow> None)"

definition draft_kept :: "job_update_draft \<Rightarrow> (rstring \<times> document_block_preserved) option" where
  "draft_kept d = (case d of DraftDocumentBlockPreserved b \<Rightarrow> Some (bp_item_id b, b) | _ \<Rightarrow> None)"

lemma block_views:
  "ready_block (into_update d s t p) = draft_block d" "kept_block (into_update d s t p) = draft_kept d"
  by (cases d; simp add: update_views draft_block_def draft_kept_def)+

definition block_draft :: "job_update_draft \<Rightarrow> bool" where
  "block_draft d \<longleftrightarrow> draft_source_kind d = Some DocumentSource"

lemma block_draft_simps:
  assumes "block_draft d"
  shows "\<not> draft_is_terminal d" "\<not> regressive p d" "draft_source_kind d \<in> {None, Some DocumentSource}"
    "\<exists>i. draft_item_id d = Some i"
  using assms
  by (cases d; simp add: block_draft_def draft_source_kind_def draft_is_terminal_def regressive_def draft_item_id_def)+

text \<open>Valid block drafts with new ids are published one after the other.\<close>

lemma publish_items_all:
  assumes "update_log_ok DocumentSource (jo_log r)" "jo_source_kind r = DocumentSource" "\<not> jo_cancel r" "\<not> is_terminal r"
    and "\<forall>d \<in> set ds. block_draft d \<and> draft_valid d"
    and "distinct (collect draft_item_id ds)" "set (collect draft_item_id ds) \<inter> jl_published_items (jo_log r) = {}"
    and "length (jl_updates (jo_log r)) + length ds \<le> MAX_UPDATES_PER_JOB"
  shows "\<exists>r'. publish_items r ds = (r', Ok ()) \<and> update_log_ok DocumentSource (jo_log r') \<and> \<not> is_terminal r'
    \<and> \<not> jo_cancel r' \<and> jo_source_kind r' = DocumentSource
    \<and> collect ready_block (jl_updates (jo_log r')) = collect ready_block (jl_updates (jo_log r)) @ collect draft_block ds
    \<and> collect kept_block (jl_updates (jo_log r')) = collect kept_block (jl_updates (jo_log r)) @ collect draft_kept ds"
  using assms
proof (induction ds arbitrary: r)
  case Nil
  then show ?case by (simp add: collect_Nil)
next
  case (Cons d ds)
  let ?l = "jo_log r" and ?u = "drafted_update (jo_log r) d"
  let ?r = "r\<lparr>jo_log := push_update ?u ?l\<rparr>"
  have d: "block_draft d" "draft_valid d" using Cons.prems by auto
  obtain i where i: "draft_item_id d = Some i" using block_draft_simps(4) [OF d(1)] by auto
  have ids: "collect draft_item_id (d # ds) = i # collect draft_item_id ds"
    by (simp add: List.map_filter_def i)
  have app: "append_locked DocumentSource ?l d = Ok (?u, push_update ?u ?l)"
    using Cons.prems block_draft_simps [OF d(1)] d(2) i ids
    by (intro append_accepts) (auto simp: is_terminal_def)
  have ok: "update_log_ok DocumentSource (push_update ?u ?l)" by (rule append_keeps_ok [OF Cons.prems(1) app])
  have "\<not> update_is_terminal ?u"
    using block_draft_simps(1) [OF d(1)] by (simp add: drafted_update_def into_update_views)
  then have running: "\<not> jl_terminal (push_update ?u ?l)"
    using ok by (simp add: update_log_ok_def log_matches_def)
  have items: "jl_published_items (push_update ?u ?l) = insert i (jl_published_items ?l)"
    using ok Cons.prems(1) i
    by (simp add: update_log_ok_def log_matches_def collect_snoc drafted_update_def into_update_views)
  have "\<exists>r'. publish_items ?r ds = (r', Ok ()) \<and> update_log_ok DocumentSource (jo_log r') \<and> \<not> is_terminal r'
    \<and> \<not> jo_cancel r' \<and> jo_source_kind r' = DocumentSource
    \<and> collect ready_block (jl_updates (jo_log r')) = collect ready_block (jl_updates (jo_log ?r)) @ collect draft_block ds
    \<and> collect kept_block (jl_updates (jo_log r')) = collect kept_block (jl_updates (jo_log ?r)) @ collect draft_kept ds"
    using Cons.prems ok running items ids by (intro Cons.IH) (auto simp: is_terminal_def)
  moreover have "publish_items r (d # ds) = publish_items ?r ds"
    using app Cons.prems(2,3) by (simp add: append_update_def)
  moreover have "collect draft_block (d # ds) = collect draft_block [d] @ collect draft_block ds"
    "collect draft_kept (d # ds) = collect draft_kept [d] @ collect draft_kept ds"
    by (simp_all add: List.map_filter_def)
  moreover have "collect ready_block (jl_updates ?l @ [?u]) = collect ready_block (jl_updates ?l) @ collect draft_block [d]"
    "collect kept_block (jl_updates ?l @ [?u]) = collect kept_block (jl_updates ?l) @ collect draft_kept [d]"
    by (simp_all add: collect_snoc drafted_update_def block_views List.map_filter_def split: option.splits)
  ultimately show ?case by simp
qed

section \<open>The cached result of a log\<close>

lemma set_cached_items:
  "set (cached_document_items c) = DraftDocumentBlockReady ` set (cd_blocks c) \<union> DraftDocumentBlockPreserved ` set (cd_preserved c)"
  by (simp add: cached_document_items_def)

lemma mset_collect: "mset xs = mset ys \<Longrightarrow> mset (collect f xs) = mset (collect f ys)"
  by (simp add: List.map_filter_def)

lemma mset_cached_items:
  "mset (cached_document_items c) = mset (map DraftDocumentBlockReady (cd_blocks c) @ map DraftDocumentBlockPreserved (cd_preserved c))"
  by (simp add: cached_document_items_def)

lemma collect_map: "collect f (map g xs) = collect (f \<circ> g) xs"
  by (simp add: List.map_filter_def filter_map comp_def)

lemma collect_append: "collect f (xs @ ys) = collect f xs @ collect f ys"
  by (simp add: List.map_filter_def)

lemma collect_Some: "collect (\<lambda>x. Some (g x)) xs = map g xs"
  by (simp add: List.map_filter_def)

lemma collect_None: "collect (\<lambda>x. None) xs = []"
  by (simp add: List.map_filter_def)

lemma cached_item_views:
  "mset (collect draft_block (cached_document_items c)) = mset (map (\<lambda>b. (br_item_id b, b)) (cd_blocks c))"
  "mset (collect draft_kept (cached_document_items c)) = mset (map (\<lambda>b. (bp_item_id b, b)) (cd_preserved c))"
  "mset (collect draft_item_id (cached_document_items c)) = mset (map br_item_id (cd_blocks c) @ map bp_item_id (cd_preserved c))"
  using mset_collect [OF mset_cached_items, of draft_block c] mset_collect [OF mset_cached_items, of draft_kept c]
    mset_collect [OF mset_cached_items, of draft_item_id c]
  by (simp_all add: collect_append collect_map comp_def draft_block_def draft_kept_def draft_item_id_def
      collect_Some collect_None)

text \<open>The ids of the blocks in a log are among its items, so they are distinct.\<close>

lemma block_ids_mset:
  "mset (map fst (collect ready_block us)) + mset (map fst (collect kept_block us)) \<subseteq># mset (collect update_item us)"
proof (induction us)
  case (Cons u us)
  have split: "collect f (u # us) = collect f [u] @ collect f us" for f :: "job_update \<Rightarrow> 'a option"
    by (simp add: List.map_filter_def)
  have "mset (map fst (collect ready_block [u])) + mset (map fst (collect kept_block [u])) \<subseteq># mset (collect update_item [u])"
    by (cases u) (simp_all add: List.map_filter_def update_views)
  from subset_mset.add_mono [OF this Cons.IH] show ?case
    unfolding split [of ready_block] split [of kept_block] split [of update_item] by (simp add: ac_simps)
qed (simp add: List.map_filter_def)

lemma distinct_mset_subset:
  assumes "mset xs \<subseteq># mset ys" "distinct ys"
  shows "distinct xs"
proof -
  have "count (mset ys) a \<le> 1" for a
    using assms(2) unfolding distinct_count_atmost_1 by simp
  then have "count (mset xs) a \<le> 1" for a
    by (rule le_trans [OF mset_subset_eq_count [OF assms(1)]])
  moreover have "0 < count (mset xs) a" if "a \<in> set xs" for a
    using that by simp
  moreover have "count (mset xs) a = 0" if "a \<notin> set xs" for a
    using that by simp
  ultimately have "count (mset xs) a = (if a \<in> set xs then 1 else 0)" for a
    by (metis One_nat_def Suc_leI le_antisym)
  then show ?thesis unfolding distinct_count_atmost_1 by blast
qed

lemma distinct_block_ids:
  "distinct (collect update_item us) \<Longrightarrow> distinct (map fst (collect ready_block us) @ map fst (collect kept_block us))"
  by (rule distinct_mset_subset [of _ "collect update_item us"]) (use block_ids_mset [of us] in simp_all)

lemma block_views_valid:
  assumes "\<forall>u \<in> set us. validate_update u = Ok ()"
  shows "(k, b) \<in> set (collect ready_block us) \<Longrightarrow> k = br_item_id b \<and> draft_valid (DraftDocumentBlockReady b)"
    and "(k, c) \<in> set (collect kept_block us) \<Longrightarrow> k = bp_item_id c \<and> draft_valid (DraftDocumentBlockPreserved c)"
  using assms
  by (fastforce simp: List.map_filter_def update_views draft_valid_def validate_update_Ok split: job_update.splits)+

lemma cached_items_valid:
  assumes "update_log_ok DocumentSource l" "d \<in> set (cached_document_items (completed_document l))"
  shows "block_draft d \<and> draft_valid d"
proof -
  have m: "jl_document_blocks l = collect ready_block (jl_updates l)"
    "jl_document_preserved l = collect kept_block (jl_updates l)"
    using assms(1) by (simp_all add: update_log_ok_def log_matches_def)
  from assms(2) consider b where "d = DraftDocumentBlockReady b" "b \<in> snd ` set (collect ready_block (jl_updates l))"
    | b where "d = DraftDocumentBlockPreserved b" "b \<in> snd ` set (collect kept_block (jl_updates l))"
    by (auto simp: set_cached_items completed_document_def im_values_def m)
  then show ?thesis
    using block_views_valid [OF update_log_okD(3) [OF assms(1)]]
    by cases (auto simp: block_draft_def draft_source_kind_def)
qed

lemma completed_document_mset:
  assumes "update_log_ok DocumentSource l"
  shows "mset (cd_blocks (completed_document l)) = mset (map snd (collect ready_block (jl_updates l)))"
    "mset (cd_preserved (completed_document l)) = mset (map snd (collect kept_block (jl_updates l)))"
  using assms by (simp_all add: completed_document_def im_values_def update_log_ok_def log_matches_def)

lemma cached_ids:
  assumes "update_log_ok DocumentSource l"
  shows "mset (collect draft_item_id (cached_document_items (completed_document l)))
    = mset (map fst (collect ready_block (jl_updates l)) @ map fst (collect kept_block (jl_updates l)))"
proof -
  let ?R = "collect ready_block (jl_updates l)" and ?K = "collect kept_block (jl_updates l)"
  have "map br_item_id (map snd ?R) = map fst ?R" "map bp_item_id (map snd ?K) = map fst ?K"
    using block_views_valid [OF update_log_okD(3) [OF assms]] by (auto intro!: map_cong)
  then have "image_mset br_item_id (mset (map snd ?R)) = mset (map fst ?R)"
    "image_mset bp_item_id (mset (map snd ?K)) = mset (map fst ?K)"
    by (metis mset_map)+
  then show ?thesis
    unfolding cached_item_views(3) mset_append mset_map [of br_item_id] mset_map [of bp_item_id]
      completed_document_mset [OF assms] by simp
qed

text \<open>A new document job, with the update it starts with.\<close>

definition queued_document :: "u64 \<Rightarrow> rstring \<Rightarrow> rstring list \<Rightarrow> job_record" where
  "queued_document order i ids = try_append (new_document order i ids) queued_draft"

lemma queued_draft_valid: "draft_valid queued_draft"
  by code_simp

lemma queued_document_state:
  "update_log_ok DocumentSource (jo_log (queued_document order i ids)) \<and> jo_source_kind (queued_document order i ids) = DocumentSource
    \<and> \<not> jo_cancel (queued_document order i ids) \<and> \<not> is_terminal (queued_document order i ids)
    \<and> length (jl_updates (jo_log (queued_document order i ids))) = 1
    \<and> jl_published_items (jo_log (queued_document order i ids)) = {}
    \<and> collect ready_block (jl_updates (jo_log (queued_document order i ids))) = []
    \<and> collect kept_block (jl_updates (jo_log (queued_document order i ids))) = []"
proof -
  let ?r = "new_document order i ids"
  have k: "jo_source_kind ?r = DocumentSource" and c: "\<not> jo_cancel ?r"
    by (simp_all add: new_document_def new_record_def Let_def)
  have ok: "update_log_ok DocumentSource (jo_log ?r)" by (simp add: log_ok_new)
  have t: "\<not> jl_terminal (jo_log ?r)" "jl_last_overall_progress (jo_log ?r) = None" "jl_published_items (jo_log ?r) = {}"
    by (simp_all add: new_document_def new_record_def new_log_def Let_def)
  let ?u = "drafted_update (jo_log ?r) queued_draft"
  have app: "append_locked DocumentSource (jo_log ?r) queued_draft = Ok (?u, push_update ?u (jo_log ?r))"
    using ok t queued_draft_valid
    by (intro append_accepts)
      (simp_all add: MAX_UPDATES_PER_JOB_def regressive_def queued_draft_def draft_source_kind_def draft_item_id_def)
  then have q: "queued_document order i ids = ?r\<lparr>jo_log := push_update ?u (jo_log ?r)\<rparr>"
    using k c by (simp add: queued_document_def try_append_def append_update_def)
  have u: "?u = Progress (latest_sequence [] + 1) StageQueued None (Some zero_f32) None None
      (lit ''Queued for local chapter translation'')"
    by (simp add: drafted_update_def queued_draft_def)
  have "update_log_ok DocumentSource (push_update ?u (jo_log ?r))" by (rule append_keeps_ok [OF ok app])
  moreover from this have "\<not> jl_terminal (push_update ?u (jo_log ?r))"
    "jl_published_items (push_update ?u (jo_log ?r)) = {}"
    by (simp_all add: update_log_ok_def log_matches_def u List.map_filter_def update_item_def)
  ultimately show ?thesis
    using k c by (simp add: q is_terminal_def u List.map_filter_def update_views)
qed



end
