(* ===== verification/Job_Storage_Props.thy ===== *)
theory Job_Storage_Props
  imports Job_Storage Job_Run
begin

text \<open>
  The storage of the daemon: eviction removes finished jobs only, the oldest first, and just as
  many as needed; every reachable storage stays within the configured bounds; a patch that is
  stored while its job is being cancelled may be left behind for ever.
\<close>

section \<open>Sums\<close>

lemma try_sum_eq: "acc \<le> USIZE_MAX \<Longrightarrow> try_sum acc xs = (if acc + sum_list xs \<le> USIZE_MAX then Some (acc + sum_list xs) else None)"
  by (induction xs arbitrary: acc) auto

lemma sum_or_max_eq: "sum_or_max xs = min (sum_list xs) USIZE_MAX"
  by (simp add: sum_or_max_def try_sum_eq min_def)

definition total_bytes :: "storage \<Rightarrow> nat" where
  "total_bytes s = sum_list (map (length \<circ> bl_bytes) (im_values (sg_blobs s)))
     + sum_list (map retained_source_bytes (im_values (sg_jobs s)))"

lemma retained_bytes_eq: "retained_bytes s = min (total_bytes s) USIZE_MAX"
  by (simp add: retained_bytes_def stored_blob_bytes_def saturating_add_def sum_or_max_eq total_bytes_def min_def)

lemma saturating_retained: "saturating_add (retained_bytes s) n = min (total_bytes s + n) USIZE_MAX"
  by (simp add: saturating_add_def retained_bytes_eq min_def)

section \<open>The order of eviction\<close>

definition job_key :: "rstring \<times> job_record \<Rightarrow> nat list" where
  "job_key j = unat (jo_order (snd j)) # fst j"

lemma job_before_key: "job_before a b \<longleftrightarrow> job_key a < job_key b"
  by (auto simp: job_before_def job_key_def word_less_nat_alt word_unat_eq_iff)

lemma first_job_least: "first_job js = Some j \<Longrightarrow> k \<in> set js \<Longrightarrow> job_key j \<le> job_key k"
  by (induction js arbitrary: j) (auto simp: job_before_key split: option.splits if_splits dest: less_imp_le order_trans)

definition distinct_jobs :: "storage \<Rightarrow> bool" where
  "distinct_jobs s \<longleftrightarrow> distinct (im_keys (sg_jobs s))"

definition evicted :: "rstring set \<Rightarrow> storage \<Rightarrow> storage \<Rightarrow> bool" where
  "evicted E s s' \<longleftrightarrow> E \<subseteq> fst ` set (sg_jobs s) \<and> sg_jobs s' = filter (\<lambda>j. fst j \<notin> E) (sg_jobs s)
     \<and> sg_blobs s' = filter (\<lambda>b. bl_owner_job_id (snd b) \<notin> E) (sg_blobs s)
     \<and> sg_next_job_order s' = sg_next_job_order s
     \<and> (\<forall>j \<in> set (sg_jobs s). fst j \<in> E \<longrightarrow> is_evictable (snd j)
          \<and> (\<forall>k \<in> set (sg_jobs s'). is_evictable (snd k) \<longrightarrow> job_before j k))"

lemma evicted_none: "evicted {} s s"
  by (simp add: evicted_def)

lemma distinct_jobs_evict: "distinct_jobs s \<Longrightarrow> distinct_jobs (evict_job i s)"
  by (auto simp: distinct_jobs_def evict_job_def im_keys_def distinct_map_filter)

lemma distinct_jobs_eq:
  "distinct_jobs s \<Longrightarrow> (i, r) \<in> set (sg_jobs s) \<Longrightarrow> (i, r') \<in> set (sg_jobs s) \<Longrightarrow> r = r'"
  unfolding distinct_jobs_def im_keys_def by (metis eq_key_imp_eq_value)

lemma oldest_evictable_least:
  assumes "oldest_evictable_job_id s = Some i"
  obtains r where "(i, r) \<in> set (sg_jobs s)" "is_evictable r"
    "\<And>k. k \<in> set (sg_jobs s) \<Longrightarrow> is_evictable (snd k) \<Longrightarrow> job_key (i, r) \<le> job_key k"
proof -
  obtain r where f: "first_job (filter (\<lambda>j. is_evictable (snd j)) (sg_jobs s)) = Some (i, r)"
    using assms by (auto simp: oldest_evictable_job_id_def)
  show thesis
    by (rule that [of r]) (use first_job_in [OF f] first_job_least [OF f] in auto)
qed

lemma job_key_eq: "job_key (i, r) = job_key k \<Longrightarrow> fst k = i"
  by (simp add: job_key_def)

lemma evicted_step:
  assumes i: "oldest_evictable_job_id s = Some i" and d: "distinct_jobs s" and e: "evicted E (evict_job i s) s'"
  shows "evicted (insert i E) s s'"
proof -
  obtain r where r: "(i, r) \<in> set (sg_jobs s)" "is_evictable r"
    and least: "\<And>k. k \<in> set (sg_jobs s) \<Longrightarrow> is_evictable (snd k) \<Longrightarrow> job_key (i, r) \<le> job_key k"
    using oldest_evictable_least [OF i] by metis
  have "im_contains_key (sg_jobs s) i" using r(1) by (force simp: im_contains_key_def im_keys_def)
  then have s1: "sg_jobs (evict_job i s) = filter (\<lambda>j. fst j \<noteq> i) (sg_jobs s)"
    "sg_blobs (evict_job i s) = filter (\<lambda>b. bl_owner_job_id (snd b) \<noteq> i) (sg_blobs s)"
    "sg_next_job_order (evict_job i s) = sg_next_job_order s"
    by (simp_all add: evict_job_def)
  have lists: "sg_jobs s' = filter (\<lambda>j. fst j \<notin> insert i E) (sg_jobs s)"
    "sg_blobs s' = filter (\<lambda>b. bl_owner_job_id (snd b) \<notin> insert i E) (sg_blobs s)"
    using e unfolding evicted_def s1 by (auto simp: conj_commute intro: filter_cong)
  have first: "job_before (i, r) k" if "k \<in> set (sg_jobs s')" "is_evictable (snd k)" for k
  proof -
    have "k \<in> set (sg_jobs s)" "fst k \<noteq> i" using that(1) lists(1) by auto
    then have "job_key (i, r) \<noteq> job_key k" using job_key_eq by blast
    then show ?thesis
      using least [OF \<open>k \<in> set (sg_jobs s)\<close> that(2)] by (simp add: job_before_key)
  qed
  have "is_evictable (snd j) \<and> (\<forall>k \<in> set (sg_jobs s'). is_evictable (snd k) \<longrightarrow> job_before j k)"
    if j: "j \<in> set (sg_jobs s)" "fst j \<in> insert i E" for j
  proof (cases "fst j = i")
    case True
    then have "j = (i, r)" using distinct_jobs_eq [OF d r(1)] j(1) by (cases j) auto
    then show ?thesis using r(2) first by simp
  next
    case False
    then have "j \<in> set (sg_jobs (evict_job i s))" "fst j \<in> E" using j s1(1) by auto
    then show ?thesis using e unfolding evicted_def by blast
  qed
  moreover have "sg_next_job_order s' = sg_next_job_order s"
    using e s1(3) unfolding evicted_def by simp
  moreover have "insert i E \<subseteq> fst ` set (sg_jobs s)"
  proof -
    have "E \<subseteq> fst ` set (sg_jobs (evict_job i s))" using e unfolding evicted_def by blast
    moreover have "fst ` set (sg_jobs (evict_job i s)) \<subseteq> fst ` set (sg_jobs s)" unfolding s1(1) by auto
    moreover have "i \<in> fst ` set (sg_jobs s)" using r(1) by (metis fst_conv image_eqI)
    ultimately show ?thesis by blast
  qed
  ultimately show ?thesis using lists unfolding evicted_def by blast
qed

lemma room_for_job_evicts:
  assumes "room_for_job limits added s = (s', res)" "distinct_jobs s"
  shows "\<exists>E. evicted E s s' \<and> (res = Ok () \<longrightarrow> \<not> jobs_full limits s' \<and> \<not> bytes_full limits added s')
    \<and> (res \<noteq> Ok () \<longrightarrow> oldest_evictable_job_id s' = None)"
  using assms
proof (induction limits added s rule: room_for_job.induct)
  case (1 limits added s)
  show ?case
  proof (cases "\<not> jobs_full limits s \<and> \<not> bytes_full limits added s")
    case True
    then show ?thesis using 1(2) evicted_none by (auto simp: room_for_job.simps [of limits added s])
  next
    case False
    show ?thesis
    proof (cases "oldest_evictable_job_id s")
      case None
      then show ?thesis using 1(2) False evicted_none by (auto simp: room_for_job.simps [of limits added s])
    next
      case (Some i)
      have "room_for_job limits added (evict_job i s) = (s', res)"
        using 1(2) False Some by (simp add: room_for_job.simps [of limits added s])
      from 1(1) [OF False Some this distinct_jobs_evict [OF 1(3)]]
      show ?thesis using evicted_step [OF Some 1(3)] by blast
    qed
  qed
qed

lemma room_for_blob_evicts:
  assumes "room_for_blob limits added s = (s', res)" "distinct_jobs s"
  shows "\<exists>E. evicted E s s' \<and> (res = Ok () \<longrightarrow> \<not> bytes_full limits added s')"
  using assms
proof (induction limits added s rule: room_for_blob.induct)
  case (1 limits added s)
  show ?case
  proof (cases "bytes_full limits added s")
    case False
    then show ?thesis using 1(2) evicted_none by (auto simp: room_for_blob.simps [of limits added s])
  next
    case True
    show ?thesis
    proof (cases "oldest_evictable_job_id s")
      case None
      then show ?thesis using 1(2) True evicted_none by (auto simp: room_for_blob.simps [of limits added s])
    next
      case (Some i)
      have "room_for_blob limits added (evict_job i s) = (s', res)"
        using 1(2) True Some by (simp add: room_for_blob.simps [of limits added s])
      from 1(1) [OF _ Some this distinct_jobs_evict [OF 1(3)]]
      show ?thesis using True evicted_step [OF Some 1(3)] by blast
    qed
  qed
qed

lemma making_room_evicts_oldest_finished_aux:
  assumes "make_room_for_job limits added s = (s', res)" "distinct (im_keys (sg_jobs s))"
  shows "\<exists>E. E \<subseteq> fst ` set (sg_jobs s) \<and> sg_jobs s' = filter (\<lambda>j. fst j \<notin> E) (sg_jobs s)
    \<and> sg_blobs s' = filter (\<lambda>b. bl_owner_job_id (snd b) \<notin> E) (sg_blobs s)
    \<and> (\<forall>j \<in> set (sg_jobs s). fst j \<in> E \<longrightarrow> is_evictable (snd j)
         \<and> (\<forall>k \<in> set (sg_jobs s'). is_evictable (snd k) \<longrightarrow> job_before j k))
    \<and> (res = Ok () \<longrightarrow> length (sg_jobs s') < sl_max_retained_jobs limits
         \<and> saturating_add (retained_bytes s') added \<le> sl_max_stored_blob_bytes limits)
    \<and> (res \<noteq> Ok () \<longrightarrow> sl_max_stored_blob_bytes limits < added \<or> (\<forall>j \<in> set (sg_jobs s'). \<not> is_evictable (snd j)))"
proof (cases "sl_max_stored_blob_bytes limits < added")
  case True
  then have "s' = s" "res = Err BlobCapacity" using assms(1) by (simp_all add: make_room_for_job_def)
  then show ?thesis using True by (intro exI [of _ "{}"]) simp
next
  case False
  then have "room_for_job limits added s = (s', res)" using assms(1) by (simp add: make_room_for_job_def)
  then obtain E where e: "evicted E s s'"
    and fits: "res = Ok () \<longrightarrow> \<not> jobs_full limits s' \<and> \<not> bytes_full limits added s'"
    and failed: "res \<noteq> Ok () \<longrightarrow> oldest_evictable_job_id s' = None"
    using room_for_job_evicts assms(2) unfolding distinct_jobs_def by blast
  have "res \<noteq> Ok () \<longrightarrow> (\<forall>j \<in> set (sg_jobs s'). \<not> is_evictable (snd j))"
    using failed by (simp add: oldest_evictable_job_id_def filter_empty_conv)
  moreover have "res = Ok () \<longrightarrow> length (sg_jobs s') < sl_max_retained_jobs limits
      \<and> saturating_add (retained_bytes s') added \<le> sl_max_stored_blob_bytes limits"
    using fits by (auto simp: jobs_full_def bytes_full_def not_le not_less)
  ultimately show ?thesis
    using e unfolding evicted_def by blast
qed

text \<open>Claim C30: making room for a job evicts finished and inactive jobs only, the oldest before the
  younger ones, together with exactly their patches, and keeps everything else. When it succeeds
  there is room for the job; when it fails the job is larger than the store or no job is left to
  evict.
\<close>

theorem making_room_evicts_oldest_finished:
  assumes "make_room_for_job limits added s = (s', res)" "distinct (im_keys (sg_jobs s))"
  shows "\<exists>E. E \<subseteq> fst ` set (sg_jobs s) \<and> sg_jobs s' = filter (\<lambda>j. fst j \<notin> E) (sg_jobs s)
    \<and> sg_blobs s' = filter (\<lambda>b. bl_owner_job_id (snd b) \<notin> E) (sg_blobs s)
    \<and> (\<forall>j \<in> set (sg_jobs s). fst j \<in> E \<longrightarrow> is_evictable (snd j)
         \<and> (\<forall>k \<in> set (sg_jobs s'). is_evictable (snd k) \<longrightarrow> job_before j k))
    \<and> (res = Ok () \<longrightarrow> length (sg_jobs s') < sl_max_retained_jobs limits
         \<and> saturating_add (retained_bytes s') added \<le> sl_max_stored_blob_bytes limits)
    \<and> (res \<noteq> Ok () \<longrightarrow> sl_max_stored_blob_bytes limits < added \<or> (\<forall>j \<in> set (sg_jobs s'). \<not> is_evictable (snd j)))"
  by (rule making_room_evicts_oldest_finished_aux [OF assms])

definition finished_record :: "u64 \<Rightarrow> rstring \<Rightarrow> job_record" where
  "finished_record order i = finish_active (try_append (new_document order i []) (DraftCancelled None))"

definition sample_storage :: storage where
  "sample_storage = \<lparr>sg_jobs = [(lit ''a'', finished_record 5 (lit ''a'')), (lit ''b'', finished_record 3 (lit ''b'')),
       (lit ''c'', new_document 1 (lit ''c'') [])],
     sg_blobs = [(lit ''p'', \<lparr>bl_bytes = [1, 2], bl_content_type = ''image/png'', bl_owner_job_id = lit ''b''\<rparr>)],
     sg_next_job_order = 6\<rparr>"

definition small_limits :: server_limits where
  "small_limits = default_limits\<lparr>sl_max_retained_jobs := 3, sl_max_stored_blob_bytes := 4\<rparr>"

lemma sample_room:
  "make_room_for_job small_limits 0 sample_storage = (evict_job (lit ''b'') sample_storage, Ok ())"
  by code_simp

lemma sample_evictable:
  "map (\<lambda>j. is_evictable (snd j)) (sg_jobs sample_storage) = [True, True, False]"
  "map fst (sg_jobs (evict_job (lit ''b'') sample_storage)) = [lit ''a'', lit ''c'']"
  "distinct (im_keys (sg_jobs sample_storage))"
  by code_simp+

theorem making_room_evicts_oldest_finished_witness:
  "\<exists>E. sg_jobs (evict_job (lit ''b'') sample_storage) = filter (\<lambda>j. fst j \<notin> E) (sg_jobs sample_storage)
    \<and> map fst (sg_jobs (evict_job (lit ''b'') sample_storage)) = [lit ''a'', lit ''c'']"
  using making_room_evicts_oldest_finished [OF sample_room sample_evictable(3)]
  by (elim exE conjE) (intro exI conjI sample_evictable(2))

section \<open>Reachable storages\<close>

text \<open>What the code does to the record of a job it holds.\<close>

inductive record_step :: "job_record \<Rightarrow> job_record \<Rightarrow> bool" where
  publish: "append_update seen r d = Ok (u, r') \<Longrightarrow> record_step r r'"
| release: "record_step r (release_source r)"
| finish: "record_step r (finish_active r)"
| cancel: "record_step r (r\<lparr>jo_cancel := True\<rparr>)"
| focus: "record_step r (r\<lparr>jo_log := fst (update_focus (jo_source_kind r) (jo_log r) request)\<rparr>)"

text \<open>A run of the storage; the set holds the job ids drawn on the way.\<close>

inductive storage_run :: "server_limits \<Rightarrow> rstring set \<Rightarrow> storage \<Rightarrow> storage \<Rightarrow> bool" for limits where
  idle: "storage_run limits {} s s"
| reserved: "storage_run limits ids s s1 \<Longrightarrow> reserve_job limits candidates source rects document_focus s1 = Some (s2, Ok i)
    \<Longrightarrow> storage_run limits (insert i ids) s s2"
| refused: "storage_run limits ids s s1 \<Longrightarrow> reserve_job limits candidates source rects document_focus s1 = Some (s2, Err e)
    \<Longrightarrow> storage_run limits ids s s2"
| patch: "storage_run limits ids s s1 \<Longrightarrow> store_patch_bytes limits candidates i rect bytes s1 = Some (s2, res)
    \<Longrightarrow> storage_run limits ids s s2"
| change: "storage_run limits ids s s1 \<Longrightarrow> im_get (sg_jobs s1) i = Some r \<Longrightarrow> record_step r r'
    \<Longrightarrow> storage_run limits ids s (set_job i r' s1)"
| evict: "storage_run limits ids s s1 \<Longrightarrow> storage_run limits ids s (evict_job i s1)"

definition storage_ok :: "server_limits \<Rightarrow> storage \<Rightarrow> bool" where
  "storage_ok limits s \<longleftrightarrow> distinct (im_keys (sg_jobs s)) \<and> length (sg_jobs s) \<le> sl_max_retained_jobs limits
     \<and> min (total_bytes s) USIZE_MAX \<le> sl_max_stored_blob_bytes limits
     \<and> (\<forall>(i, r) \<in> set (sg_jobs s). jo_job_id r = i \<and> update_log_ok (jo_source_kind r) (jo_log r))"

lemma record_step_keeps:
  assumes "record_step r r'"
  shows "jo_job_id r' = jo_job_id r" "retained_source_bytes r' \<le> retained_source_bytes r"
    "update_log_ok (jo_source_kind r) (jo_log r) \<Longrightarrow> update_log_ok (jo_source_kind r') (jo_log r')"
  using assms
proof induction
  case (publish seen r d u r')
  have "jo_source r' = jo_source r" using publish by (auto simp: append_update_def split: if_splits)
  then show "jo_job_id r' = jo_job_id r" "retained_source_bytes r' \<le> retained_source_bytes r"
    "update_log_ok (jo_source_kind r) (jo_log r) \<Longrightarrow> update_log_ok (jo_source_kind r') (jo_log r')"
    using reachable_after_append [OF publish] append_keeps_ok by (auto simp: retained_source_bytes_def)
qed (auto simp: release_source_def finish_active_def retained_source_bytes_def log_ok_focus)

lemma sum_list_filter_le: "sum_list (map (f :: 'a \<Rightarrow> nat) (filter P xs)) \<le> sum_list (map f xs)"
  by (induction xs) auto

lemma evicted_storage_ok:
  assumes "sg_jobs s' = filter P (sg_jobs s)" "sg_blobs s' = filter Q (sg_blobs s)" "storage_ok limits s"
  shows "storage_ok limits s'" "total_bytes s' \<le> total_bytes s"
proof -
  show t: "total_bytes s' \<le> total_bytes s"
    using sum_list_filter_le [of "\<lambda>b. length (bl_bytes (snd b))" Q "sg_blobs s"]
      sum_list_filter_le [of "\<lambda>j. retained_source_bytes (snd j)" P "sg_jobs s"]
    by (simp add: total_bytes_def im_values_def assms(1,2) comp_def)
  have "length (sg_jobs s') \<le> length (sg_jobs s)" by (simp add: assms(1))
  moreover have "min (total_bytes s') USIZE_MAX \<le> min (total_bytes s) USIZE_MAX" using t by simp
  moreover have "distinct (im_keys (sg_jobs s'))"
    using assms(1,3) by (simp add: storage_ok_def im_keys_def distinct_map_filter)
  moreover have "set (sg_jobs s') \<subseteq> set (sg_jobs s)" by (simp add: assms(1))
  ultimately show "storage_ok limits s'"
    using assms(3) unfolding storage_ok_def by (meson le_trans subsetD)
qed

lemma make_room_for_job_ok:
  assumes "make_room_for_job limits added s = (s1, res)" "storage_ok limits s"
  shows "storage_ok limits s1" "total_bytes s1 \<le> total_bytes s"
    "res = Ok () \<Longrightarrow> length (sg_jobs s1) < sl_max_retained_jobs limits
       \<and> min (total_bytes s1 + added) USIZE_MAX \<le> sl_max_stored_blob_bytes limits"
proof -
  obtain E where "sg_jobs s1 = filter (\<lambda>j. fst j \<notin> E) (sg_jobs s)"
    "sg_blobs s1 = filter (\<lambda>b. bl_owner_job_id (snd b) \<notin> E) (sg_blobs s)"
    and fits: "res = Ok () \<longrightarrow> length (sg_jobs s1) < sl_max_retained_jobs limits
       \<and> saturating_add (retained_bytes s1) added \<le> sl_max_stored_blob_bytes limits"
    using making_room_evicts_oldest_finished_aux [OF assms(1)] assms(2) unfolding storage_ok_def by blast
  from evicted_storage_ok [OF this(1,2) assms(2)]
  show "storage_ok limits s1" "total_bytes s1 \<le> total_bytes s" .
  show "res = Ok () \<Longrightarrow> length (sg_jobs s1) < sl_max_retained_jobs limits
       \<and> min (total_bytes s1 + added) USIZE_MAX \<le> sl_max_stored_blob_bytes limits"
    using fits by (simp add: saturating_retained)
qed

lemma make_room_for_blob_ok:
  assumes "make_room_for_blob limits added s = (s1, res)" "storage_ok limits s"
  shows "storage_ok limits s1"
    "res = Ok () \<Longrightarrow> min (total_bytes s1 + added) USIZE_MAX \<le> sl_max_stored_blob_bytes limits"
proof -
  have d: "distinct_jobs s" using assms(2) by (simp add: storage_ok_def distinct_jobs_def)
  have "storage_ok limits s1 \<and> (res = Ok () \<longrightarrow> \<not> bytes_full limits added s1)"
  proof (cases "sl_max_stored_blob_bytes limits < added")
    case False
    then have "room_for_blob limits added s = (s1, res)"
      using assms(1) by (simp add: make_room_for_blob_def)
    then obtain E where "evicted E s s1" "res = Ok () \<longrightarrow> \<not> bytes_full limits added s1"
      using room_for_blob_evicts [OF _ d] by blast
    then show ?thesis using evicted_storage_ok(1) [OF _ _ assms(2)] unfolding evicted_def by blast
  qed (use assms in \<open>auto simp: make_room_for_blob_def\<close>)
  then show "storage_ok limits s1"
    "res = Ok () \<Longrightarrow> min (total_bytes s1 + added) USIZE_MAX \<le> sl_max_stored_blob_bytes limits"
    by (auto simp: bytes_full_def saturating_retained not_less)
qed

lemma draw_id_new: "draw_id m cs = Some i \<Longrightarrow> i \<notin> fst ` set m"
  by (auto simp: draw_id_def find_Some_iff im_contains_key_def im_keys_def)

lemma total_bytes_insert_job:
  "i \<notin> fst ` set (sg_jobs s) \<Longrightarrow>
    total_bytes (s\<lparr>sg_jobs := im_insert (sg_jobs s) i r\<rparr>) = total_bytes s + retained_source_bytes r"
  by (simp add: total_bytes_def im_insert_new im_values_def)

lemma insert_job_ok:
  assumes "storage_ok limits s" "i \<notin> fst ` set (sg_jobs s)" "jo_job_id r = i" "update_log_ok (jo_source_kind r) (jo_log r)"
    and "length (sg_jobs s) < sl_max_retained_jobs limits"
    and "min (total_bytes s + retained_source_bytes r) USIZE_MAX \<le> sl_max_stored_blob_bytes limits"
  shows "storage_ok limits (s\<lparr>sg_jobs := im_insert (sg_jobs s) i r\<rparr>)"
  using assms total_bytes_insert_job [OF assms(2), of r]
  by (auto simp: storage_ok_def im_insert_new im_keys_def)

lemma new_record_queued:
  assumes "append_update False (case document_focus of Some ids \<Rightarrow> new_document order i ids
      | None \<Rightarrow> new_record order i source rects) queued_draft = Ok (u, r)"
  shows "jo_job_id r = i" "update_log_ok (jo_source_kind r) (jo_log r)"
    "retained_source_bytes r \<le> (case source of None \<Rightarrow> 0 | Some img \<Rightarrow> image_bytes img)"
proof -
  let ?r = "case document_focus of Some ids \<Rightarrow> new_document order i ids | None \<Rightarrow> new_record order i source rects"
  have start: "jo_job_id ?r = i \<and> update_log_ok (jo_source_kind ?r) (jo_log ?r)
      \<and> retained_source_bytes ?r \<le> (case source of None \<Rightarrow> 0 | Some img \<Rightarrow> image_bytes img)"
    by (cases document_focus)
      (simp_all add: log_ok_new, simp_all add: new_document_def new_record_def Let_def retained_source_bytes_def)
  have "record_step ?r r" using assms by (rule record_step.publish)
  from record_step_keeps [OF this] start
  show "jo_job_id r = i" "update_log_ok (jo_source_kind r) (jo_log r)"
    "retained_source_bytes r \<le> (case source of None \<Rightarrow> 0 | Some img \<Rightarrow> image_bytes img)"
    by simp_all
qed

lemma storage_ok_order: "storage_ok limits (s\<lparr>sg_next_job_order := n\<rparr>) = storage_ok limits s"
  by (simp add: storage_ok_def total_bytes_def)

lemma total_bytes_order: "total_bytes (s\<lparr>sg_next_job_order := n\<rparr>) = total_bytes s"
  by (simp add: total_bytes_def)

lemma reserve_job_ok:
  assumes "reserve_job limits candidates source rects document_focus s = Some (s2, res)" "storage_ok limits s"
  shows "storage_ok limits s2"
proof -
  define added where "added = (case source of None \<Rightarrow> 0 | Some img \<Rightarrow> image_bytes img)"
  obtain s1 room where m: "make_room_for_job limits added s = (s1, room)" by (cases "make_room_for_job limits added s")
  note ok = make_room_for_job_ok [OF m assms(2)]
  show ?thesis
  proof (cases room)
    case (Inl k)
    then show ?thesis using assms(1) m ok(1) by (simp add: reserve_job_def added_def [symmetric])
  next
    case (Inr x)
    then obtain i where i: "draw_id (sg_jobs s1) candidates = Some i"
      using assms(1) m by (cases "draw_id (sg_jobs s1) candidates") (simp_all add: reserve_job_def added_def [symmetric])
    define s' where "s' = s1\<lparr>sg_next_job_order := sat_succ (sg_next_job_order s1)\<rparr>"
    have s': "storage_ok limits s'" "total_bytes s' = total_bytes s1" "sg_jobs s' = sg_jobs s1"
      using ok(1) by (simp_all add: s'_def storage_ok_order total_bytes_order)
    let ?q = "append_update False (case document_focus of Some ids \<Rightarrow> new_document (sg_next_job_order s1) i ids
      | None \<Rightarrow> new_record (sg_next_job_order s1) i source rects) queued_draft"
    have res: "(s2, res) = (case ?q of Err _ \<Rightarrow> (s', Err InternalError)
        | Ok (u, r') \<Rightarrow> (s'\<lparr>sg_jobs := im_insert (sg_jobs s') i r'\<rparr>, Ok i))"
      using assms(1) m Inr i unfolding s'_def
      by (simp add: reserve_job_def added_def [symmetric] next_order_def eq_commute [of "(s2, res)"])
    show ?thesis
    proof (cases ?q)
      case (Inl e)
      then show ?thesis using res s'(1) by simp
    next
      case (Inr ur)
      then obtain u r where q: "?q = Ok (u, r)" by (cases ur) simp
      note r = new_record_queued [OF q]
      have "storage_ok limits (s'\<lparr>sg_jobs := im_insert (sg_jobs s') i r\<rparr>)"
        using ok(3) \<open>room = Inr x\<close> r(3) s' draw_id_new [OF i]
        by (intro insert_job_ok s'(1) r(1,2)) (auto simp: added_def [symmetric] min_le_iff_disj)
      then show ?thesis using res q by simp
    qed
  qed
qed

lemma store_patch_ok:
  assumes "store_patch_bytes limits candidates job rect bytes s = Some (s2, res)" "storage_ok limits s"
  shows "storage_ok limits s2"
proof (cases "im_contains_key (sg_jobs s) job")
  case True
  obtain s1 room where m: "make_room_for_blob limits (length bytes) s = (s1, room)"
    by (cases "make_room_for_blob limits (length bytes) s")
  note ok = make_room_for_blob_ok [OF m assms(2)]
  show ?thesis
  proof (cases room)
    case (Inl k)
    then show ?thesis using assms(1) m True ok(1) by (simp add: store_patch_bytes_def)
  next
    case (Inr x)
    then obtain i where i: "draw_id (sg_blobs s1) candidates = Some i"
      and s2: "s2 = s1\<lparr>sg_blobs := im_insert (sg_blobs s1) i
        \<lparr>bl_bytes = bytes, bl_content_type = ''image/png'', bl_owner_job_id = job\<rparr>\<rparr>"
      using assms(1) m True by (cases "draw_id (sg_blobs s1) candidates") (auto simp: store_patch_bytes_def)
    have "total_bytes s2 = total_bytes s1 + length bytes"
      using draw_id_new [OF i] by (simp add: s2 total_bytes_def im_insert_new im_values_def)
    then show ?thesis using ok Inr by (auto simp: storage_ok_def s2)
  qed
qed (use assms in \<open>simp add: store_patch_bytes_def\<close>)

lemma im_set_notin: "k \<notin> fst ` set m \<Longrightarrow> im_set m k v = m"
  by (induction m) (auto simp: im_set_def)

lemma sum_list_replace:
  assumes "f v \<le> (f w :: nat)" "(k, w) \<in> set m" "distinct (map fst m)"
  shows "sum_list (map (\<lambda>e. f (snd e)) (im_set m k v)) \<le> sum_list (map (\<lambda>e. f (snd e)) m)"
  using assms(2,3)
proof (induction m)
  case (Cons e m)
  have split: "im_set (e # m) k v = im_set [e] k v @ im_set m k v" by (simp add: im_set_def)
  show ?case
  proof (cases "e = (k, w)")
    case True
    then have "im_set m k v = m" using Cons.prems(2) by (intro im_set_notin) simp
    then show ?thesis using True assms(1) unfolding split by (simp add: im_set_def)
  next
    case False
    then have "(k, w) \<in> set m" using Cons.prems(1) by simp
    moreover from this have "fst e \<noteq> k"
      using Cons.prems(2) by (metis distinct.simps(2) fst_conv image_eqI list.simps(9) set_map)
    ultimately have "(k, w) \<in> set m" "fst e \<noteq> k" by simp_all
    then show ?thesis using Cons.IH Cons.prems(2) unfolding split by (cases e) (simp add: im_set_def)
  qed
qed simp

lemma set_job_ok:
  assumes ok: "storage_ok limits s" and get: "im_get (sg_jobs s) i = Some r" and step: "record_step r r'"
  shows "storage_ok limits (set_job i r' s)"
proof -
  note keeps = record_step_keeps [OF step]
  have mem: "(i, r) \<in> set (sg_jobs s)" using get by (rule im_get_in_set)
  have d: "distinct (map fst (sg_jobs s))" using ok by (simp add: storage_ok_def im_keys_def)
  have "total_bytes (set_job i r' s) \<le> total_bytes s"
    using sum_list_replace [OF keeps(2) mem d]
    by (simp add: total_bytes_def set_job_def im_values_def comp_def)
  then have "min (total_bytes (set_job i r' s)) USIZE_MAX \<le> sl_max_stored_blob_bytes limits"
    using ok by (auto simp: storage_ok_def min_le_iff_disj)
  moreover have "jo_job_id r' = i" "update_log_ok (jo_source_kind r') (jo_log r')"
    using ok mem keeps by (auto simp: storage_ok_def)
  moreover have "\<forall>(j, q) \<in> set (sg_jobs (set_job i r' s)). (j, q) \<in> set (sg_jobs s) \<or> j = i \<and> q = r'"
    using im_set_set by (fastforce simp: set_job_def)
  ultimately show ?thesis
    using ok unfolding storage_ok_def by (auto simp: set_job_def)
qed

lemma evict_job_ok: "storage_ok limits s \<Longrightarrow> storage_ok limits (evict_job i s)"
  using evicted_storage_ok(1) by (auto simp: evict_job_def)

lemma storage_run_ok: "storage_run limits ids s s' \<Longrightarrow> storage_ok limits s \<Longrightarrow> storage_ok limits s'"
  by (induction rule: storage_run.induct)
    (auto simp: reserve_job_ok store_patch_ok set_job_ok evict_job_ok)

lemma storage_ok_empty: "storage_ok limits empty_storage"
  by (simp add: storage_ok_def empty_storage_def im_keys_def total_bytes_def im_values_def)

text \<open>Claim C31: whatever sequence of reservations, patches, publications, focus changes, cancellations
  and evictions the daemon performs, it retains at most the configured number of jobs, its images
  and patches take at most the configured number of bytes, every job is stored once under its own
  id, and the log of every job is a correct log.
\<close>

theorem storage_stays_bounded:
  assumes "storage_run limits ids empty_storage s"
  shows "length (sg_jobs s) \<le> sl_max_retained_jobs limits
    \<and> retained_bytes s \<le> sl_max_stored_blob_bytes limits
    \<and> distinct (im_keys (sg_jobs s))
    \<and> (\<forall>(i, r) \<in> set (sg_jobs s). jo_job_id r = i \<and> update_log_ok (jo_source_kind r) (jo_log r))"
  using storage_run_ok [OF assms storage_ok_empty] unfolding storage_ok_def retained_bytes_eq by blast

section \<open>A patch left behind\<close>

text \<open>
  The schedule: a job stores a patch; it is cancelled, so its log is closed and the job inactive,
  but the handler has not evicted it yet; the pipeline, which looked at the job before, stores a
  second patch. The store is full, so the job itself is evicted, and the patch is stored for it.
\<close>

definition race_start :: "storage \<times> (api_error + rstring)" where
  "race_start = the (reserve_job small_limits [lit ''job''] None [] None empty_storage)"

definition race_rect :: normalized_rect where
  "race_rect = \<lparr>nr_x = 0, nr_y = 0, nr_width = one_f32, nr_height = one_f32\<rparr>"

definition race_first :: "storage \<times> (publish_error + region_patch)" where
  "race_first = the (store_patch_bytes small_limits [lit ''p1''] (lit ''job'') race_rect [1, 2, 3] (fst race_start))"

definition race_record :: "nat \<Rightarrow> job_record" where
  "race_record n = (let r0 = the (im_get (sg_jobs (fst race_first)) (lit ''job'')); r1 = r0\<lparr>jo_cancel := True\<rparr>;
       r2 = try_append r1 (DraftCancelled (Some (lit ''Cancelled'')))
     in [r0, r1, r2, finish_active r2] ! n)"

definition race_cancelled :: storage where
  "race_cancelled = set_job (lit ''job'') (race_record 3) (set_job (lit ''job'') (race_record 2)
     (set_job (lit ''job'') (race_record 1) (fst race_first)))"

definition race_second :: "storage \<times> (publish_error + region_patch)" where
  "race_second = the (store_patch_bytes small_limits [lit ''p2''] (lit ''job'') race_rect [4, 5] race_cancelled)"

definition left_patch :: stored_blob where
  "left_patch = \<lparr>bl_bytes = [4, 5], bl_content_type = ''image/png'', bl_owner_job_id = lit ''job''\<rparr>"

lemma race_steps:
  "reserve_job small_limits [lit ''job''] None [] None empty_storage = Some (fst race_start, Ok (lit ''job''))"
  "store_patch_bytes small_limits [lit ''p1''] (lit ''job'') race_rect [1, 2, 3] (fst race_start)
     = Some (fst race_first, snd race_first)"
  "im_get (sg_jobs (fst race_first)) (lit ''job'') = Some (race_record 0)"
  "store_patch_bytes small_limits [lit ''p2''] (lit ''job'') race_rect [4, 5] race_cancelled
     = Some (fst race_second, snd race_second)"
  "sg_jobs (fst race_second) = []"
  "sg_blobs (fst race_second) = [(lit ''p2'', left_patch)]"
  by code_simp+

lemma race_record_steps:
  "record_step (race_record 0) (race_record 1)"
  "record_step (race_record 1) (race_record 2)"
  "record_step (race_record 2) (race_record 3)"
proof -
  show "record_step (race_record 0) (race_record 1)"
    using record_step.cancel [of "race_record 0"] by (simp add: race_record_def Let_def)
  have "is_ok (append_update True (race_record 1) (DraftCancelled (Some (lit ''Cancelled''))))" by code_simp
  then obtain u r where a: "append_update True (race_record 1) (DraftCancelled (Some (lit ''Cancelled''))) = Ok (u, r)"
    by (auto simp: is_ok_iff)
  moreover have "jo_cancel (race_record 1)" by (simp add: race_record_def Let_def)
  moreover have "race_record 2 = try_append (race_record 1) (DraftCancelled (Some (lit ''Cancelled'')))"
    by (simp add: race_record_def Let_def)
  ultimately have "race_record 2 = r" by (simp add: try_append_def)
  then show "record_step (race_record 1) (race_record 2)" using a record_step.publish by metis
  show "record_step (race_record 2) (race_record 3)"
    using record_step.finish [of "race_record 2"] by (simp add: race_record_def Let_def)
qed

lemma im_get_set_job: "im_get (sg_jobs s) i = Some r \<Longrightarrow> im_get (sg_jobs (set_job i q s)) i = Some q"
  by (auto simp: set_job_def im_get_im_set im_contains_key_iff)

lemma race_reachable: "storage_run small_limits {lit ''job''} empty_storage (fst race_second)"
proof -
  have 1: "storage_run small_limits {lit ''job''} empty_storage (fst race_first)"
    by (rule storage_run.patch [OF storage_run.reserved [OF storage_run.idle race_steps(1)] race_steps(2)])
  note get1 = im_get_set_job [OF race_steps(3), of "race_record 1"]
  note get2 = im_get_set_job [OF get1, of "race_record 2"]
  have "storage_run small_limits {lit ''job''} empty_storage race_cancelled"
    unfolding race_cancelled_def
    by (rule storage_run.change [OF storage_run.change [OF storage_run.change
        [OF 1 race_steps(3) race_record_steps(1)] get1 race_record_steps(2)] get2 race_record_steps(3)])
  then show ?thesis by (rule storage_run.patch [OF _ race_steps(4)])
qed

theorem storage_stays_bounded_witness:
  "retained_bytes (fst race_second) \<le> 4 \<and> length (sg_jobs (fst race_second)) \<le> 3"
  using storage_stays_bounded [OF race_reachable] by (simp add: small_limits_def)

lemma im_get_filter: "im_get m k = Some v \<Longrightarrow> P (k, v) \<Longrightarrow> im_get (filter P m) k = Some v"
  by (induction m) (auto simp: im_get_def split: if_splits)

text \<open>A patch whose owner is no job is found again after a step that does not draw its owner's id.\<close>

definition left_behind :: "storage \<Rightarrow> rstring \<Rightarrow> stored_blob \<Rightarrow> bool" where
  "left_behind s b blob \<longleftrightarrow> im_get (sg_blobs s) b = Some blob \<and> \<not> im_contains_key (sg_jobs s) (bl_owner_job_id blob)"

lemma left_behind_evicted: "evicted E s s' \<Longrightarrow> left_behind s b blob \<Longrightarrow> left_behind s' b blob"
  by (auto simp: evicted_def left_behind_def im_contains_key_def im_keys_def intro!: im_get_filter)

lemma left_behind_evict_job: "left_behind s b blob \<Longrightarrow> left_behind (evict_job i s) b blob"
  by (cases "bl_owner_job_id blob = i")
    (auto simp: evict_job_def left_behind_def im_contains_key_def im_keys_def intro!: im_get_filter)

lemma left_behind_job_room:
  assumes "make_room_for_job limits added s = (s1, res)" "storage_ok limits s" "left_behind s b blob"
  shows "left_behind s1 b blob"
proof -
  have "distinct_jobs s" using assms(2) by (simp add: storage_ok_def distinct_jobs_def)
  then have "\<exists>E. evicted E s s1"
    using assms(1) room_for_job_evicts [of limits added s s1 res] evicted_none [of s]
    by (auto simp: make_room_for_job_def split: if_splits)
  then show ?thesis using left_behind_evicted assms(3) by blast
qed

lemma left_behind_blob_room:
  assumes "make_room_for_blob limits added s = (s1, res)" "storage_ok limits s" "left_behind s b blob"
  shows "left_behind s1 b blob"
proof -
  have "distinct_jobs s" using assms(2) by (simp add: storage_ok_def distinct_jobs_def)
  then have "\<exists>E. evicted E s s1"
    using assms(1) room_for_blob_evicts [of limits added s s1 res] evicted_none [of s]
    by (auto simp: make_room_for_blob_def split: if_splits)
  then show ?thesis using left_behind_evicted assms(3) by blast
qed

lemma left_behind_reserve:
  assumes "reserve_job limits candidates source rects document_focus s = Some (s2, res)" "storage_ok limits s"
    and "left_behind s b blob" "res \<noteq> Ok (bl_owner_job_id blob)"
  shows "left_behind s2 b blob"
proof -
  define added where "added = (case source of None \<Rightarrow> 0 | Some img \<Rightarrow> image_bytes img)"
  obtain s1 room where m: "make_room_for_job limits added s = (s1, room)" by (cases "make_room_for_job limits added s")
  have "left_behind s1 b blob" by (rule left_behind_job_room [OF m assms(2,3)])
  then show ?thesis
    using assms(1,4) m draw_id_new
    by (fastforce simp: reserve_job_def added_def [symmetric] next_order_def left_behind_def im_insert_new
        im_contains_key_def im_keys_def split: sum.splits option.splits)
qed

lemma left_behind_store:
  assumes "store_patch_bytes limits candidates job rect bytes s = Some (s2, res)" "storage_ok limits s"
    and "left_behind s b blob"
  shows "left_behind s2 b blob"
proof -
  obtain s1 room where m: "make_room_for_blob limits (length bytes) s = (s1, room)"
    by (cases "make_room_for_blob limits (length bytes) s")
  have "left_behind s1 b blob" by (rule left_behind_blob_room [OF m assms(2,3)])
  then show ?thesis
    using assms(1,3) m draw_id_new
    by (fastforce simp: store_patch_bytes_def left_behind_def im_insert_new im_get_def
        split: sum.splits option.splits if_splits)
qed

text \<open>A patch whose job is gone is never freed: whatever the daemon does later, the patch
  stays in the store and counts against its limit, as long as no new job draws the same id.
\<close>

theorem orphaned_patch_is_never_freed:
  assumes "storage_run limits ids s s'" "storage_ok limits s"
    and "im_get (sg_blobs s) b = Some blob" "\<not> im_contains_key (sg_jobs s) (bl_owner_job_id blob)"
    and "bl_owner_job_id blob \<notin> ids"
  shows "im_get (sg_blobs s') b = Some blob \<and> \<not> im_contains_key (sg_jobs s') (bl_owner_job_id blob)"
proof -
  have "left_behind s b blob" using assms(3,4) by (simp add: left_behind_def)
  with assms(1,2,5) have "storage_ok limits s' \<and> left_behind s' b blob"
  proof (induction rule: storage_run.induct)
    case (change ids s s1 i r r')
    then show ?case
      using set_job_ok by (auto simp: left_behind_def set_job_def im_contains_key_def)
  qed (auto simp: reserve_job_ok store_patch_ok evict_job_ok
      left_behind_reserve left_behind_store left_behind_evict_job)
  then show ?thesis by (simp add: left_behind_def)
qed

theorem orphaned_patch_is_never_freed_witness:
  "storage_run small_limits {lit ''job''} empty_storage (fst race_second)
    \<and> im_get (sg_blobs (evict_job (lit ''job'') (fst race_second))) (lit ''p2'') = Some left_patch"
proof -
  have "storage_run small_limits {} (fst race_second) (evict_job (lit ''job'') (fst race_second))"
    by (rule storage_run.evict [OF storage_run.idle])
  moreover have "im_get (sg_blobs (fst race_second)) (lit ''p2'') = Some left_patch"
    "\<not> im_contains_key (sg_jobs (fst race_second)) (bl_owner_job_id left_patch)"
    by (simp_all add: race_steps(5,6) im_get_def im_contains_key_def im_keys_def)
  ultimately show ?thesis
    using orphaned_patch_is_never_freed [OF _ storage_run_ok [OF race_reachable storage_ok_empty]] race_reachable
    by blast
qed

end
