(* ===== verification/Server_Access.thy ===== *)
theory Server_Access
  imports Job_Storage "HOL-Library.Code_Target_Nat"
begin

text \<open>
  The trust boundary of the daemon (\<open>server.rs\<close>, \<open>origin.rs\<close>, \<open>crypto.rs\<close>): sessions, the
  admission of requests, the idle shutdown, and the security middleware that decides which
  requests reach a handler. Base64 and the random generator are parameters; times are
  milliseconds.
\<close>

section \<open>Origins and secrets\<close>

definition MAX_HOST_LEN :: nat where "MAX_HOST_LEN = 128"
definition ENCODED_SECRET_LEN :: nat where "ENCODED_SECRET_LEN = 43"
definition SECRET_BYTES :: nat where "SECRET_BYTES = 32"

definition strip_prefix :: "rstring \<Rightarrow> rstring \<Rightarrow> rstring option" where
  "strip_prefix s pre = (if str_starts_with s pre then Some (drop (length pre) s) else None)"

definition origin_char :: "rchar \<Rightarrow> bool" where
  "origin_char c \<longleftrightarrow> is_ascii_alphanumeric c \<or> c = 45 \<or> c = 46 \<or> c = 95"

definition valid_extension_origin :: "rstring \<Rightarrow> bool" where
  "valid_extension_origin v = (case strip_prefix v (lit ''moz-extension://'') of None \<Rightarrow> False
     | Some host \<Rightarrow> \<not> (host = [] \<or> MAX_HOST_LEN < str_len host \<or> str_starts_with host [46]
         \<or> str_ends_with host [46] \<or> \<not> list_all origin_char host))"

definition secret_char :: "rchar \<Rightarrow> bool" where
  "secret_char c \<longleftrightarrow> is_ascii_alphanumeric c \<or> c = 45 \<or> c = 95"

definition decode_secret :: "(rstring \<Rightarrow> u8 list option) \<Rightarrow> rstring \<Rightarrow> u8 list option" where
  "decode_secret base64 v =
     (if str_len v \<noteq> ENCODED_SECRET_LEN \<or> \<not> list_all secret_char v then None
      else (case base64 v of None \<Rightarrow> None
        | Some raw \<Rightarrow> if length raw = SECRET_BYTES then Some raw else None))"

definition secrets_equal :: "u8 list \<Rightarrow> u8 list \<Rightarrow> bool" where
  "secrets_equal a b \<longleftrightarrow> a = b"

section \<open>Sessions\<close>

record access_session =
  as_token :: "u8 list"
  as_origin :: rstring
  as_expires_at :: u64

definition MAX_SESSIONS :: nat where "MAX_SESSIONS = 64"

definition live_sessions :: "u64 \<Rightarrow> access_session list \<Rightarrow> access_session list" where
  "live_sessions now sessions = filter (\<lambda>s. now < as_expires_at s) sessions"

definition sat_add_u64 :: "u64 \<Rightarrow> u64 \<Rightarrow> u64" where
  "sat_add_u64 a b = (if unat a + unat b < 2 ^ 64 then a + b else -1)"

text \<open>The secret comes from the random generator, which may fail.\<close>

definition issue_session ::
  "(u8 list \<times> rstring) option \<Rightarrow> u64 \<Rightarrow> u64 \<Rightarrow> u16 \<Rightarrow> bool \<Rightarrow> rstring \<Rightarrow> rstring \<Rightarrow> access_session list
     \<Rightarrow> access_session list \<times> (string + native_ready)" where
  "issue_session secret now ttl_ms port ready version origin sessions =
     (if \<not> valid_extension_origin origin then (sessions, Err ''INVALID_EXTENSION_ORIGIN'')
      else (case secret of None \<Rightarrow> (sessions, Err ''INTERNAL_ERROR'')
        | Some (raw, encoded) \<Rightarrow>
          (let expires = sat_add_u64 now (max ttl_ms 1); live = live_sessions now sessions;
               kept = (if MAX_SESSIONS \<le> length live then tl live else live)
           in (kept @ [\<lparr>as_token = raw, as_origin = origin, as_expires_at = expires\<rparr>],
               Ok \<lparr>nr_build_fingerprint = lit BUILD_FINGERPRINT, nr_engine_version = version, nr_port = port,
                   nr_token = encoded, nr_session_expires_at = expires,
                   nr_capabilities = \<lparr>bc_source_languages = [SOURCE_LANGUAGE], bc_target_languages = [TARGET_LANGUAGE],
                     bc_hsk_levels = [One, Two, Three, Four, Five, Six], bc_models_ready = ready\<rparr>\<rparr>))))"

definition origin_has_session :: "u64 \<Rightarrow> rstring \<Rightarrow> access_session list \<Rightarrow> access_session list \<times> bool" where
  "origin_has_session now origin sessions =
     (let live = live_sessions now sessions in (live, list_ex (\<lambda>s. as_origin s = origin) live))"

definition authenticate ::
  "(rstring \<Rightarrow> u8 list option) \<Rightarrow> u64 \<Rightarrow> rstring \<Rightarrow> rstring \<Rightarrow> access_session list
     \<Rightarrow> access_session list \<times> bool" where
  "authenticate base64 now origin token sessions =
     (case decode_secret base64 token of None \<Rightarrow> (sessions, False)
      | Some candidate \<Rightarrow>
        (let live = live_sessions now sessions
         in (live, foldl (\<lambda>accepted s. accepted \<or> secrets_equal (as_token s) candidate \<and> as_origin s = origin)
               False live)))"

definition control_authenticates :: "(rstring \<Rightarrow> u8 list option) \<Rightarrow> u8 list \<Rightarrow> rstring \<Rightarrow> bool" where
  "control_authenticates base64 control candidate =
     (case decode_secret base64 candidate of None \<Rightarrow> False | Some raw \<Rightarrow> secrets_equal control raw)"

section \<open>Admission and idle shutdown\<close>

record access_state =
  ac_sessions :: "access_session list"
  ac_permits :: nat
  ac_admitted :: nat
  ac_last_activity :: nat
  ac_latched :: bool
  ac_active_jobs :: nat

definition try_admit :: "nat \<Rightarrow> access_state \<Rightarrow> access_state \<times> (string + unit)" where
  "try_admit now a =
     (if ac_permits a = 0 then (a, Err ''REQUEST_CAPACITY_EXHAUSTED'')
      else if ac_latched a then (a, Err ''DAEMON_SHUTTING_DOWN'')
      else (a\<lparr>ac_permits := ac_permits a - 1, ac_admitted := ac_admitted a + 1, ac_last_activity := now\<rparr>, Ok ()))"

text \<open>Dropping an admission gives the permit back after the count has been lowered.\<close>

definition drop_admission :: "nat \<Rightarrow> access_state \<Rightarrow> access_state" where
  "drop_admission now a =
     a\<lparr>ac_admitted := ac_admitted a - 1, ac_last_activity := now, ac_permits := ac_permits a + 1\<rparr>"

definition try_latch_idle_shutdown :: "nat \<Rightarrow> nat \<Rightarrow> access_state \<Rightarrow> access_state \<times> bool" where
  "try_latch_idle_shutdown idle_timeout now a =
     (if ac_latched a then (a, True)
      else if ac_active_jobs a = 0 \<and> ac_admitted a = 0 \<and> idle_timeout \<le> now - ac_last_activity a
      then (a\<lparr>ac_latched := True\<rparr>, True)
      else (a, False))"

section \<open>Paths\<close>

definition fixed_paths :: "rstring list" where
  "fixed_paths = map lit [''/health'', ''/setup'', ''/setup/models'', ''/warmup'', ''/jobs/image'',
     ''/jobs/document'', ''/lookup'']"

definition internal_session_path :: rstring where
  "internal_session_path = lit ''/browser-internal/session''"

definition job_path :: "rstring \<Rightarrow> bool" where
  "job_path rest = (case str_split (\<lambda>c. c = 47) rest of
     [job] \<Rightarrow> job \<noteq> []
   | [job, action] \<Rightarrow> job \<noteq> [] \<and> action \<in> {lit ''focus'', lit ''updates''}
   | _ \<Rightarrow> False)"

definition chapter_id_char :: "rchar \<Rightarrow> bool" where
  "chapter_id_char c \<longleftrightarrow> is_ascii_alphanumeric c \<or> c = 45 \<or> c = 95"

definition chapter_path :: "rstring \<Rightarrow> bool" where
  "chapter_path rest \<longleftrightarrow> rest \<noteq> [] \<and> 47 \<notin> set rest \<and> str_len rest \<le> 256 \<and> list_all chapter_id_char rest"

definition browser_path :: "rstring \<Rightarrow> bool" where
  "browser_path path =
     (if path \<in> set fixed_paths then True
      else (case strip_prefix path (lit ''/jobs/'') of
        Some rest \<Rightarrow> job_path rest
      | None \<Rightarrow> (case strip_prefix path (lit ''/chapters/'') of
          Some rest \<Rightarrow> chapter_path rest
        | None \<Rightarrow> list_ex (\<lambda>pre. case strip_prefix path pre of None \<Rightarrow> False
              | Some i \<Rightarrow> i \<noteq> [] \<and> 47 \<notin> set i) [lit ''/blobs/'', lit ''/fonts/''])))"

text \<open>The check of \<open>close_chapter\<close>.\<close>

definition chapter_closable :: "rstring \<Rightarrow> bool" where
  "chapter_closable i \<longleftrightarrow> \<not> (i = [] \<or> 256 < str_len i \<or> \<not> list_all chapter_id_char i)"

section \<open>The security boundary\<close>

text \<open>Header names in lower case; a value that is no visible ASCII is \<open>None\<close>.\<close>

type_synonym headers = "(string \<times> rstring option) list"

datatype http_method = GET | POST | PUT | DELETE | OPTIONS | OtherMethod

record http_request =
  rq_method :: http_method
  rq_path :: rstring
  rq_headers :: headers

definition single_header :: "headers \<Rightarrow> string \<Rightarrow> rstring option" where
  "single_header hs name = (case filter (\<lambda>h. fst h = name) hs of [h] \<Rightarrow> snd h | _ \<Rightarrow> None)"

definition valid_host :: "headers \<Rightarrow> u16 \<Rightarrow> bool" where
  "valid_host hs port \<longleftrightarrow> single_header hs ''host'' = Some (lit (''127.0.0.1:'' @ show_nat (unat port)))"

definition eq_ignore_ascii_case :: "rstring \<Rightarrow> rstring \<Rightarrow> bool" where
  "eq_ignore_ascii_case a b \<longleftrightarrow> map to_ascii_lowercase a = map to_ascii_lowercase b"

definition extension_origin_header :: string where "extension_origin_header = ''x-hskify-extension-origin''"
definition control_header :: string where "control_header = ''x-hskify-control''"

definition allowed_methods :: "rstring list" where
  "allowed_methods = map lit [''GET'', ''POST'', ''PUT'', ''DELETE'']"

fun preflight_headers :: "bool \<Rightarrow> rstring list \<Rightarrow> bool option" where
  "preflight_headers saw [] = Some saw"
| "preflight_headers saw (v # vs) =
     (if eq_ignore_ascii_case v (lit ''authorization'') then preflight_headers True vs
      else if eq_ignore_ascii_case v (lit extension_origin_header) \<or> eq_ignore_ascii_case v (lit ''content-type'')
      then preflight_headers saw vs
      else None)"

definition preflight_allowed :: "headers \<Rightarrow> bool" where
  "preflight_allowed hs = (case single_header hs ''access-control-request-method'' of None \<Rightarrow> False
     | Some m \<Rightarrow> m \<in> set allowed_methods \<and>
        (case single_header hs ''access-control-request-headers'' of None \<Rightarrow> False
         | Some requested \<Rightarrow> preflight_headers False (map trim (str_split (\<lambda>c. c = 44) requested)) = Some True))"

datatype boundary_result = RouteNotFound | InvalidHost | Unauthorized | PreflightOk | PreflightRefused
| NotAdmitted string | PassedToHandler

definition request_origin :: "headers \<Rightarrow> rstring option" where
  "request_origin hs = (case (single_header hs ''origin'', single_header hs extension_origin_header) of
     (Some standard, Some extension) \<Rightarrow> if standard = extension then Some standard else None
   | (Some standard, None) \<Rightarrow> Some standard
   | (None, Some extension) \<Rightarrow> Some extension
   | _ \<Rightarrow> None)"

definition admit :: "nat \<Rightarrow> access_state \<Rightarrow> access_state \<times> boundary_result" where
  "admit now a = (case try_admit now a of
     (a', Err e) \<Rightarrow> (a', NotAdmitted e) | (a', Ok _) \<Rightarrow> (a', PassedToHandler))"

definition bearer_token :: "headers \<Rightarrow> rstring option" where
  "bearer_token hs = (case single_header hs ''authorization'' of None \<Rightarrow> None
     | Some v \<Rightarrow> strip_prefix v (lit ''Bearer ''))"

definition browser_boundary ::
  "(rstring \<Rightarrow> u8 list option) \<Rightarrow> u64 \<Rightarrow> http_request \<Rightarrow> access_state \<Rightarrow> access_state \<times> boundary_result" where
  "browser_boundary base64 now r a = (case request_origin (rq_headers r) of
     None \<Rightarrow> (a, Unauthorized)
   | Some origin \<Rightarrow>
      (if \<not> valid_extension_origin origin then (a, Unauthorized)
       else (case origin_has_session now origin (ac_sessions a) of (ss1, known) \<Rightarrow>
         (let a1 = a\<lparr>ac_sessions := ss1\<rparr> in
          if \<not> known then (a1, Unauthorized)
          else if rq_method r = OPTIONS
          then (a1, if preflight_allowed (rq_headers r) then PreflightOk else PreflightRefused)
          else (case bearer_token (rq_headers r) of
            None \<Rightarrow> (a1, Unauthorized)
          | Some token \<Rightarrow> (case authenticate base64 now origin token (ac_sessions a1) of (ss2, ok) \<Rightarrow>
              (let a2 = a1\<lparr>ac_sessions := ss2\<rparr> in
               if \<not> ok then (a2, Unauthorized) else admit (unat now) a2)))))))"

definition security_boundary ::
  "(rstring \<Rightarrow> u8 list option) \<Rightarrow> u8 list \<Rightarrow> u16 \<Rightarrow> u64 \<Rightarrow> http_request \<Rightarrow> access_state
     \<Rightarrow> access_state \<times> boundary_result" where
  "security_boundary base64 control port now r a =
     (let is_internal = (rq_path r = internal_session_path) in
      if \<not> is_internal \<and> \<not> browser_path (rq_path r) then (a, RouteNotFound)
      else if \<not> valid_host (rq_headers r) port then (a, InvalidHost)
      else if is_internal then
        (if case single_header (rq_headers r) control_header of None \<Rightarrow> False
            | Some v \<Rightarrow> control_authenticates base64 control v
         then admit (unat now) a else (a, Unauthorized))
      else browser_boundary base64 now r a)"

section \<open>Laws\<close>

lemma foldl_or: "foldl (\<lambda>acc x. acc \<or> P x) b xs \<longleftrightarrow> b \<or> (\<exists>x \<in> set xs. P x)"
  by (induction xs arbitrary: b) auto

lemma authenticate_iff:
  "snd (authenticate base64 now origin token sessions) \<longleftrightarrow>
     (\<exists>s \<in> set sessions. now < as_expires_at s \<and> as_origin s = origin \<and> decode_secret base64 token = Some (as_token s))"
  by (auto simp: authenticate_def foldl_or secrets_equal_def live_sessions_def Let_def split: option.splits)

lemma admit_passed:
  "admit now a = (a', PassedToHandler) \<longleftrightarrow>
     ac_permits a \<noteq> 0 \<and> \<not> ac_latched a
     \<and> a' = a\<lparr>ac_permits := ac_permits a - 1, ac_admitted := ac_admitted a + 1, ac_last_activity := now\<rparr>"
  by (auto simp: admit_def try_admit_def)

lemma live_sessions_subset: "set (live_sessions now sessions) \<subseteq> set sessions"
  by (auto simp: live_sessions_def)

lemma browser_boundary_passed:
  assumes "browser_boundary base64 now r a = (a', PassedToHandler)"
  shows "\<exists>origin token s. request_origin (rq_headers r) = Some origin \<and> valid_extension_origin origin
    \<and> bearer_token (rq_headers r) = Some token \<and> rq_method r \<noteq> OPTIONS
    \<and> s \<in> set (ac_sessions a) \<and> now < as_expires_at s \<and> as_origin s = origin
    \<and> decode_secret base64 token = Some (as_token s)
    \<and> \<not> ac_latched a \<and> ac_permits a \<noteq> 0 \<and> ac_admitted a' = ac_admitted a + 1 \<and> ac_latched a' = ac_latched a"
proof -
  obtain origin where o: "request_origin (rq_headers r) = Some origin" "valid_extension_origin origin"
    using assms by (auto simp: browser_boundary_def split: option.splits if_splits)
  let ?live = "live_sessions now (ac_sessions a)"
  have step: "rq_method r \<noteq> OPTIONS" "\<exists>token. bearer_token (rq_headers r) = Some token"
    using assms o by (auto simp: browser_boundary_def origin_has_session_def Let_def split: option.splits if_splits)
  then obtain token where t: "bearer_token (rq_headers r) = Some token" by blast
  obtain ss ok where auth: "authenticate base64 now origin token ?live = (ss, ok)"
    by (cases "authenticate base64 now origin token ?live")
  have "ok" and adm: "admit (unat now) (a\<lparr>ac_sessions := ss\<rparr>) = (a', PassedToHandler)"
    using assms o t step auth by (auto simp: browser_boundary_def origin_has_session_def Let_def split: if_splits)
  then obtain s where "s \<in> set ?live" "now < as_expires_at s" "as_origin s = origin"
    "decode_secret base64 token = Some (as_token s)"
    using authenticate_iff [of base64 now origin token ?live] auth by auto
  then show ?thesis
    using o t step adm live_sessions_subset by (auto simp: admit_passed)
qed

text \<open>Claim C34: a request reaches a handler only if its path is known, its single Host header names
  this loopback endpoint, the daemon is not shutting down, a permit is free, and it carries
  either, on the internal path, the control secret, or, on a browser path, a well-formed
  extension origin together with the token of a session of that origin that has not expired.
\<close>

theorem only_authenticated_requests_pass:
  assumes "security_boundary base64 control port now r a = (a', PassedToHandler)"
  shows "single_header (rq_headers r) ''host'' = Some (lit (''127.0.0.1:'' @ show_nat (unat port)))
    \<and> \<not> ac_latched a \<and> ac_permits a \<noteq> 0 \<and> ac_admitted a' = ac_admitted a + 1
    \<and> (rq_path r = internal_session_path
         \<and> (\<exists>v. single_header (rq_headers r) control_header = Some v \<and> decode_secret base64 v = Some control)
       \<or> browser_path (rq_path r)
         \<and> (\<exists>origin token s. request_origin (rq_headers r) = Some origin \<and> valid_extension_origin origin
              \<and> bearer_token (rq_headers r) = Some token \<and> s \<in> set (ac_sessions a)
              \<and> now < as_expires_at s \<and> as_origin s = origin \<and> decode_secret base64 token = Some (as_token s)))"
proof (cases "rq_path r = internal_session_path")
  case True
  then show ?thesis
    using assms
    by (auto simp: security_boundary_def valid_host_def admit_passed control_authenticates_def secrets_equal_def
        split: if_splits option.splits)
next
  case False
  then have "browser_path (rq_path r)" "valid_host (rq_headers r) port"
    "browser_boundary base64 now r a = (a', PassedToHandler)"
    using assms by (auto simp: security_boundary_def split: if_splits)
  with browser_boundary_passed [OF this(3)] show ?thesis by (auto simp: valid_host_def)
qed

definition sample_secret :: rstring where "sample_secret = replicate 43 65"
definition sample_raw :: "u8 list" where "sample_raw = replicate 32 0"

definition sample_base64 :: "rstring \<Rightarrow> u8 list option" where
  "sample_base64 v = (if v = sample_secret then Some sample_raw else None)"

definition sample_request :: http_request where
  "sample_request = \<lparr>rq_method = GET, rq_path = lit ''/jobs/job-1/updates'',
     rq_headers = [(''host'', Some (lit ''127.0.0.1:9000'')), (''origin'', Some (lit ''moz-extension://abc'')),
       (''authorization'', Some (lit ''Bearer '' @ sample_secret))]\<rparr>"

definition sample_access :: access_state where
  "sample_access = \<lparr>ac_sessions = [\<lparr>as_token = sample_raw, as_origin = lit ''moz-extension://abc'', as_expires_at = 100\<rparr>],
     ac_permits = 64, ac_admitted = 0, ac_last_activity = 0, ac_latched = False, ac_active_jobs = 0\<rparr>"

lemma sample_passes:
  "snd (security_boundary sample_base64 [] 9000 5 sample_request sample_access) = PassedToHandler"
  by code_simp

theorem only_authenticated_requests_pass_witness:
  "ac_admitted (fst (security_boundary sample_base64 [] 9000 5 sample_request sample_access)) = 1"
  using only_authenticated_requests_pass [of sample_base64 "[]" 9000 5 sample_request sample_access
      "fst (security_boundary sample_base64 [] 9000 5 sample_request sample_access)"] sample_passes
  by (simp add: prod_eq_iff) (simp add: sample_access_def)

text \<open>An image job may carry a page session that no request can close.\<close>

lemma unclosable_page_session:
  "trim (lit ''page 1'') \<noteq> [] \<and> \<not> chapter_closable (lit ''page 1'') \<and> \<not> browser_path (lit ''/chapters/page 1'')"
  by code_simp

end
