(* ===== verification/Contracts_Props.thy ===== *)
theory Contracts_Props
  imports Job_Log_Laws "HOL-Library.Code_Target_Nat"
begin

text \<open>
  The properties of the request contracts: the structure of a validated document and what its
  canonical hash identifies.
\<close>

section \<open>Printed numbers\<close>

lemma show_u32_inj: "show_u32 a = show_u32 b \<Longrightarrow> a = b"
proof -
  assume eq: "show_u32 a = show_u32 b"
  have "unat x < 10 ^ 20" for x :: u32
    using unsigned_less [of x, where 'a = nat] by simp
  then have "value_of (show_u32 x) = unat x" for x
    by (simp add: show_u32_def show_nat_def value_of_show)
  then have "unat a = unat b" using eq by metis
  then show ?thesis by (simp add: word_unat_eq_iff)
qed

section \<open>The canonical document\<close>

lemma split_at_separator:
  "a @ x # r = b @ x # s \<Longrightarrow> x \<notin> set a \<Longrightarrow> x \<notin> set b \<Longrightarrow> a = b \<and> r = s"
proof (induction a arbitrary: b)
  case Nil
  then show ?case by (cases b) auto
next
  case (Cons c a)
  then show ?case by (cases b) auto
qed

text \<open>No id and no text of the block contains a separator.\<close>

definition separable :: "document_source_block \<Rightarrow> bool" where
  "separable b \<longleftrightarrow> (\<forall>x \<in> {30, 31}. x \<notin> set (sb_item_id b) \<and> x \<notin> set (sb_parent_block_id b) \<and> x \<notin> set (sb_text b))"

lemma numbers_separable: "30 \<notin> set (show_u32 n)" "31 \<notin> set (show_u32 n)"
  using show_digits_range [of 30 20 "unat n"] show_digits_range [of 31 20 "unat n"]
  by (auto simp: show_u32_def show_nat_def)

lemma names_separable:
  "30 \<notin> set (lit (span_kind_name k))" "31 \<notin> set (lit (span_kind_name k))"
  "30 \<notin> set (lit (provenance_name p))" "31 \<notin> set (lit (provenance_name p))"
proof -
  show "30 \<notin> set (lit (span_kind_name k))" "31 \<notin> set (lit (span_kind_name k))" by (cases k; simp)+
  show "30 \<notin> set (lit (provenance_name p))" "31 \<notin> set (lit (provenance_name p))" by (cases p; simp)+
qed

lemma names_inj:
  "lit (span_kind_name k) = lit (span_kind_name k') \<Longrightarrow> k = k'"
  "lit (provenance_name p) = lit (provenance_name p') \<Longrightarrow> p = p'"
  by (cases k; cases k'; simp) (cases p; cases p'; simp)

lemma canonical_record_inj:
  assumes "canonical_record b @ r = canonical_record c @ s" "separable b" "separable c"
  shows "b = c \<and> r = s"
proof -
  note sep = assms(2,3) [unfolded separable_def, simplified] numbers_separable names_separable
  have 1: "sb_item_id b = sb_item_id c"
    and r1: "sb_parent_block_id b @ 31 # show_u32 (sb_sub_item_order b) @ 31 # show_u32 (sb_source_index b) @ 31 #
        show_u32 (sb_item_order b) @ 31 # lit (span_kind_name (sb_kind b)) @ 31 # lit (provenance_name (sb_provenance b)) @
        31 # sb_text b @ 30 # r
      = sb_parent_block_id c @ 31 # show_u32 (sb_sub_item_order c) @ 31 # show_u32 (sb_source_index c) @ 31 #
        show_u32 (sb_item_order c) @ 31 # lit (span_kind_name (sb_kind c)) @ 31 # lit (provenance_name (sb_provenance c)) @
        31 # sb_text c @ 30 # s"
    using split_at_separator [of "sb_item_id b" 31 _ "sb_item_id c"] assms(1) sep
    by (simp_all add: canonical_record_def)
  note 2 = split_at_separator [OF r1]
  note 3 = split_at_separator [OF conjunct2 [OF 2]]
  note 4 = split_at_separator [OF conjunct2 [OF 3]]
  note 5 = split_at_separator [OF conjunct2 [OF 4]]
  note 6 = split_at_separator [OF conjunct2 [OF 5]]
  note 7 = split_at_separator [OF conjunct2 [OF 6]]
  note 8 = split_at_separator [OF conjunct2 [OF 7]]
  have "sb_parent_block_id b = sb_parent_block_id c" using 2 sep by simp
  moreover have "sb_sub_item_order b = sb_sub_item_order c" using 3 sep show_u32_inj by simp
  moreover have "sb_source_index b = sb_source_index c" using 4 sep show_u32_inj by simp
  moreover have "sb_item_order b = sb_item_order c" using 5 sep show_u32_inj by simp
  moreover have "sb_kind b = sb_kind c" using 6 sep names_inj(1) by simp
  moreover have "sb_provenance b = sb_provenance c" using 7 sep names_inj(2) by simp
  moreover have "sb_text b = sb_text c" "r = s" using 8 sep by simp_all
  ultimately show ?thesis using 1 by simp
qed

lemma canonical_record_nonempty: "canonical_record b \<noteq> []"
  by (simp add: canonical_record_def)

lemma canonical_text_inj:
  assumes "concat (map canonical_record bs) = concat (map canonical_record cs)"
    and "\<forall>b \<in> set bs. separable b" "\<forall>c \<in> set cs. separable c"
  shows "bs = cs"
  using assms
proof (induction bs arbitrary: cs)
  case Nil
  then show ?case using canonical_record_nonempty by (cases cs) auto
next
  case (Cons b bs)
  then obtain c cs' where cs: "cs = c # cs'" using canonical_record_nonempty by (cases cs) auto
  have "canonical_record b @ concat (map canonical_record bs) = canonical_record c @ concat (map canonical_record cs')"
    using Cons.prems(1) cs by simp
  from canonical_record_inj [OF this] show ?case using Cons.prems Cons.IH [of cs'] cs by simp
qed

text \<open>If no id and no text contains one of the two separator characters and the hash does
  not collide on the two canonical texts, two documents with the same canonical hash have the
  same blocks: the hash covers every field of every block, and their order.
\<close>

theorem canonical_hash_identifies_document:
  assumes "canonical_document_sha256 h bs = canonical_document_sha256 h cs"
    and "inj_on h {concat (map canonical_record bs), concat (map canonical_record cs)}"
    and "\<forall>b \<in> set (bs @ cs). separable b"
  shows "bs = cs"
  using assms canonical_text_inj [of bs cs]
  by (auto simp: canonical_document_sha256_def dest: inj_onD)

definition sample_block :: "string \<Rightarrow> nat \<Rightarrow> rstring \<Rightarrow> document_source_block" where
  "sample_block i n t = \<lparr>sb_parent_block_id = lit ''p'', sb_sub_item_order = of_nat n, sb_item_id = lit i,
     sb_source_index = of_nat n, sb_item_order = 0, sb_kind = Prose, sb_provenance = Dom, sb_text = t\<rparr>"

theorem canonical_hash_identifies_document_witness:
  "[sample_block ''a'' 0 (lit ''x''), sample_block ''b'' 1 (lit ''y'')] = [sample_block ''a'' 0 (lit ''x''), sample_block ''b'' 1 (lit ''y'')]
    \<and> [sample_block ''a'' 0 (lit ''x'')] \<noteq> [sample_block ''b'' 0 (lit ''x'')]"
  using canonical_hash_identifies_document [of id "[sample_block ''a'' 0 (lit ''x''), sample_block ''b'' 1 (lit ''y'')]"
      "[sample_block ''a'' 0 (lit ''x''), sample_block ''b'' 1 (lit ''y'')]"]
  by (simp add: sample_block_def separable_def)

text \<open>
  With a separator in the text the canonical form is ambiguous: one block whose text spells the
  end of its record and a second record has the hash of the two blocks, and both documents are
  accepted.
\<close>

definition forged_text :: rstring where
  "forged_text = lit ''x'' @ [30] @ lit ''b'' @ [31] @ lit ''p'' @ [31] @ lit ''1'' @ [31] @ lit ''1'' @ [31] @ lit ''0''
     @ [31] @ lit ''prose'' @ [31] @ lit ''dom'' @ [31] @ lit ''y''"

definition sample_document_request :: "document_source_block list \<Rightarrow> document_job_request" where
  "sample_document_request bs = \<lparr>dj_build_fingerprint = lit BUILD_FINGERPRINT, dj_client_request_id = lit ''r'',
     dj_retry_item_ids = [], dj_focus = FocusDocument [] True, dj_page_session_id = lit ''s'',
     dj_source_sha256 = replicate 64 97,
     dj_settings = \<lparr>bs_source_language = SOURCE_LANGUAGE, bs_target_language = TARGET_LANGUAGE,
       bs_hsk_standard = BROWSER_HSK_STANDARD, bs_hsk_level = Three, bs_learning_mode = Natural\<rparr>,
     dj_blocks = bs\<rparr>"

lemma canonical_form_ambiguous:
  "canonical_document_sha256 h [sample_block ''a'' 0 (lit ''x''), sample_block ''b'' 1 (lit ''y'')]
     = canonical_document_sha256 h [sample_block ''a'' 0 forged_text]"
proof -
  have "concat (map canonical_record [sample_block ''a'' 0 (lit ''x''), sample_block ''b'' 1 (lit ''y'')])
      = concat (map canonical_record [sample_block ''a'' 0 forged_text])"
    by code_simp
  then show ?thesis by (simp only: canonical_document_sha256_def)
qed

lemma ambiguous_documents_accepted:
  "is_ok (validate_document_job (\<lambda>_. replicate 64 97) (\<lambda>_. Inr 600 :: unit + nat)
     (sample_document_request [sample_block ''a'' 0 (lit ''x''), sample_block ''b'' 1 (lit ''y'')]))"
  "is_ok (validate_document_job (\<lambda>_. replicate 64 97) (\<lambda>_. Inr 600 :: unit + nat)
     (sample_document_request [sample_block ''a'' 0 forged_text]))"
  by code_simp+

section \<open>Validated documents\<close>

definition before :: "document_source_block \<Rightarrow> document_source_block \<Rightarrow> bool" where
  "before b c \<longleftrightarrow> sb_source_index b < sb_source_index c
     \<or> sb_source_index b = sb_source_index c \<and> sb_item_order b < sb_item_order c"

lemma before_trans: "before a b \<Longrightarrow> before b c \<Longrightarrow> before a c"
  by (auto simp: before_def)

definition siblings :: "rstring \<Rightarrow> document_source_block list \<Rightarrow> nat" where
  "siblings parent bs = length (filter (\<lambda>b. sb_parent_block_id b = parent) bs)"

lemma check_blocks_Ok:
  assumes "check_blocks ids orders previous i bs = Ok ()"
    and "previous = map_option (\<lambda>b. (sb_source_index b, sb_item_order b)) prev"
  shows "distinct (map sb_item_id bs) \<and> ids \<inter> set (map sb_item_id bs) = {}
    \<and> sorted_wrt before bs \<and> (\<forall>p. prev = Some p \<longrightarrow> (\<forall>b \<in> set bs. before p b))
    \<and> (\<forall>j < length bs. sb_sub_item_order (bs ! j)
         = orders (sb_parent_block_id (bs ! j)) + of_nat (siblings (sb_parent_block_id (bs ! j)) (take j bs)))"
  using assms
proof (induction bs arbitrary: ids orders previous i prev)
  case (Cons b bs)
  let ?orders = "orders(sb_parent_block_id b := orders (sb_parent_block_id b) + 1)"
  have here: "sb_sub_item_order b = orders (sb_parent_block_id b)" "sb_item_id b \<notin> ids"
    "\<And>p. prev = Some p \<Longrightarrow> before p b"
    and rest: "check_blocks (insert (sb_item_id b) ids) ?orders
      (Some (sb_source_index b, sb_item_order b)) (i + 1) bs = Ok ()"
    using Cons.prems by (auto simp: Let_def before_def)
  have ih: "distinct (map sb_item_id bs)" "insert (sb_item_id b) ids \<inter> set (map sb_item_id bs) = {}"
    "sorted_wrt before bs" "\<forall>c \<in> set bs. before b c"
    "\<And>j. j < length bs \<Longrightarrow> sb_sub_item_order (bs ! j)
       = ?orders (sb_parent_block_id (bs ! j)) + of_nat (siblings (sb_parent_block_id (bs ! j)) (take j bs))"
    using Cons.IH [OF rest, of "Some b"] by auto
  have orders: "sb_sub_item_order ((b # bs) ! j)
      = orders (sb_parent_block_id ((b # bs) ! j)) + of_nat (siblings (sb_parent_block_id ((b # bs) ! j)) (take j (b # bs)))"
    if "j < length (b # bs)" for j
    using that here(1) ih(5) by (cases j) (auto simp: siblings_def algebra_simps)
  have "\<forall>p. prev = Some p \<longrightarrow> (\<forall>c \<in> set (b # bs). before p c)"
    using here(3) ih(4) before_trans by (metis set_ConsD)
  then show ?case using ih here(2) orders by simp
qed simp

text \<open>Claim C35: an accepted document job has between 1 and 2000 blocks with distinct ids in strictly
  ascending position, every block numbered by its siblings before it, only retries and focus ids
  that name its blocks, and the canonical hash of its blocks as its source hash.
\<close>

theorem accepted_document_well_formed:
  assumes "validate_document_job h json_len r = Ok ()"
  shows "1 \<le> length (dj_blocks r) \<and> length (dj_blocks r) \<le> 2000
    \<and> distinct (map sb_item_id (dj_blocks r)) \<and> sorted_wrt before (dj_blocks r)
    \<and> (\<forall>j < length (dj_blocks r). unat (sb_sub_item_order (dj_blocks r ! j))
         = siblings (sb_parent_block_id (dj_blocks r ! j)) (take j (dj_blocks r)))
    \<and> set (dj_retry_item_ids r) \<subseteq> set (map sb_item_id (dj_blocks r))
    \<and> (\<exists>ids active. dj_focus r = FocusDocument ids active \<and> set ids \<subseteq> set (map sb_item_id (dj_blocks r)))
    \<and> canonical_document_sha256 h (dj_blocks r) = dj_source_sha256 r"
proof -
  let ?bs = "dj_blocks r"
  have size: "?bs \<noteq> []" "length ?bs \<le> 2000"
    and blocks: "check_blocks {} (\<lambda>_. 0) None 0 ?bs = Ok ()"
    and retries: "list_all (\<lambda>i. i \<in> set (map sb_item_id ?bs)) (dj_retry_item_ids r)"
    and focus: "focus_in_document (set (map sb_item_id ?bs)) (dj_focus r)"
    and hash: "canonical_document_sha256 h ?bs = dj_source_sha256 r"
    using assms by (simp_all add: validate_document_job_def Let_def MAX_DOCUMENT_BLOCKS_def)
  note ok = check_blocks_Ok [OF blocks, of None, simplified]
  have "unat (sb_sub_item_order (?bs ! j)) = siblings (sb_parent_block_id (?bs ! j)) (take j ?bs)"
    if j: "j < length ?bs" for j
  proof -
    have "siblings (sb_parent_block_id (?bs ! j)) (take j ?bs) \<le> length (take j ?bs)"
      unfolding siblings_def by (rule length_filter_le)
    then have "siblings (sb_parent_block_id (?bs ! j)) (take j ?bs) \<le> 2000" using j size(2) by simp
    then have "unat (of_nat (siblings (sb_parent_block_id (?bs ! j)) (take j ?bs)) :: u32)
        = siblings (sb_parent_block_id (?bs ! j)) (take j ?bs)"
      unfolding unat_of_nat by simp
    then show ?thesis using ok j by simp
  qed
  moreover have "\<exists>ids active. dj_focus r = FocusDocument ids active \<and> set ids \<subseteq> set (map sb_item_id ?bs)"
    using focus by (auto simp: focus_in_document_def list_all_iff split: focus_update_request.splits)
  moreover have "1 \<le> length ?bs" using size(1) by (cases ?bs) simp_all
  ultimately show ?thesis
    using ok size(2) retries hash by (auto simp: list_all_iff)
qed

theorem accepted_document_well_formed_witness:
  "sorted_wrt before (dj_blocks (sample_document_request [sample_block ''a'' 0 (lit ''x''), sample_block ''b'' 1 (lit ''y'')]))"
proof -
  let ?r = "sample_document_request [sample_block ''a'' 0 (lit ''x''), sample_block ''b'' 1 (lit ''y'')]"
  obtain u where "validate_document_job (\<lambda>_. replicate 64 97) (\<lambda>_. Inr 600 :: unit + nat) ?r = Ok u"
    using ambiguous_documents_accepted(1) by (auto simp: is_ok_iff)
  then show ?thesis using accepted_document_well_formed [of "\<lambda>_. replicate 64 97" "\<lambda>_. Inr 600" ?r] by auto
qed

end
