(* ===== verification/Chapter_Context.thy ===== *)
theory Chapter_Context
  imports Sorted_Map Ordered_Map "HOL-Library.Product_Lexorder" "HOL-Library.Code_Target_Nat"
begin

text \<open>
  The chapter state shared by the pages of a chapter (\<open>chapter_session.rs\<close>): the store of the
  context units with their published translations, read in the order of the positions, and the
  page surfaces and analyses of a chapter session.
\<close>

section \<open>The context store\<close>

type_synonym unit_pos = "u32 \<times> u32"

record chapter_context_unit =
  cu_item_id :: rstring
  cu_source_index :: u32
  cu_item_order :: u32
  cu_source_text :: rstring
  cu_displayed_text :: "rstring option"

type_synonym chapter_units = "(unit_pos, chapter_context_unit) btree_map"
type_synonym chapter_context_store = "(rstring, chapter_units) index_map"

record preceding_utterance =
  hp_source_english :: rstring
  hp_chinese :: rstring

definition MAX_CONTEXT_UTTERANCES :: nat where "MAX_CONTEXT_UTTERANCES = 6"

text \<open>A write through \<open>get_mut\<close>: the entry keeps its place.\<close>

definition modify_entry :: "'k \<Rightarrow> ('v \<Rightarrow> 'v) \<Rightarrow> ('k \<times> 'v) list \<Rightarrow> ('k \<times> 'v) list" where
  "modify_entry k f m = map (\<lambda>(j, v). if j = k then (j, f v) else (j, v)) m"

definition or_default :: "'k \<Rightarrow> ('k, 'v list) index_map \<Rightarrow> ('k, 'v list) index_map" where
  "or_default k m = (if im_contains_key m k then m else m @ [(k, [])])"

definition unit_position :: "chapter_context_unit \<Rightarrow> unit_pos" where
  "unit_position u = (cu_source_index u, cu_item_order u)"

definition register_unit :: "chapter_context_unit \<Rightarrow> chapter_units \<Rightarrow> chapter_units" where
  "register_unit u chapter = (case bt_get chapter (unit_position u) of
     Some existing \<Rightarrow>
       (if cu_item_id existing = cu_item_id u \<and> cu_source_text existing = cu_source_text u
        then modify_entry (unit_position u) (\<lambda>_. u\<lparr>cu_displayed_text := cu_displayed_text existing\<rparr>) chapter
        else modify_entry (unit_position u) (\<lambda>_. u) chapter)
   | None \<Rightarrow> bt_insert chapter (unit_position u) u)"

definition register_units ::
  "rstring \<Rightarrow> chapter_context_unit list \<Rightarrow> chapter_context_store \<Rightarrow> chapter_context_store" where
  "register_units chapter_id us store =
     modify_entry chapter_id (fold register_unit us) (or_default chapter_id store)"

definition publish_unit :: "rstring \<Rightarrow> rstring \<Rightarrow> chapter_context_unit \<Rightarrow> chapter_context_unit" where
  "publish_unit item_id displayed u =
     (if cu_item_id u = item_id then u\<lparr>cu_displayed_text := Some displayed\<rparr> else u)"

definition publish_translation ::
  "rstring \<Rightarrow> unit_pos \<Rightarrow> rstring \<Rightarrow> rstring \<Rightarrow> chapter_context_store \<Rightarrow> chapter_context_store" where
  "publish_translation chapter_id pos item_id displayed store =
     modify_entry chapter_id (modify_entry pos (publish_unit item_id displayed)) store"

definition usable_context :: "chapter_context_unit \<Rightarrow> preceding_utterance option" where
  "usable_context u = (case cu_displayed_text u of None \<Rightarrow> None
     | Some displayed \<Rightarrow>
        (let chinese = trim displayed; source = trim (cu_source_text u)
         in if source \<noteq> [] \<and> chinese \<noteq> []
            then Some \<lparr>hp_source_english = source, hp_chinese = chinese\<rparr> else None))"

definition preceding :: "chapter_context_store \<Rightarrow> rstring \<Rightarrow> unit_pos \<Rightarrow> preceding_utterance list" where
  "preceding store chapter_id pos = (case im_get store chapter_id of None \<Rightarrow> []
     | Some chapter \<Rightarrow> rev (take MAX_CONTEXT_UTTERANCES
         (List.map_filter (\<lambda>e. usable_context (snd e)) (rev (filter (\<lambda>e. fst e < pos) chapter)))))"

definition following_source :: "chapter_context_store \<Rightarrow> rstring \<Rightarrow> unit_pos \<Rightarrow> nat \<Rightarrow> rstring list" where
  "following_source store chapter_id pos limit = (case im_get store chapter_id of None \<Rightarrow> []
     | Some chapter \<Rightarrow> take limit (filter (\<lambda>t. t \<noteq> [])
         (map (\<lambda>e. trim (cu_source_text (snd e))) (filter (\<lambda>e. pos < fst e) chapter))))"

text \<open>The range \<open>(index, 0)..=(index, u32::MAX)\<close>: the units of one source.\<close>

definition source_units :: "chapter_units \<Rightarrow> u32 \<Rightarrow> chapter_context_unit list" where
  "source_units chapter index =
     map snd (filter (\<lambda>e. (index, 0) \<le> fst e \<and> fst e \<le> (index, 4294967295)) chapter)"

definition snapshot_excluding_source ::
  "chapter_context_store \<Rightarrow> rstring \<Rightarrow> u32 \<Rightarrow> u32 list \<Rightarrow> chapter_context_unit list" where
  "snapshot_excluding_source store chapter_id source_index source_order =
     (case (im_get store chapter_id, index_of source_order source_index) of
        (Some chapter, Some i) \<Rightarrow>
          rev (take MAX_CONTEXT_UTTERANCES
            (concat (map (\<lambda>s. rev (source_units chapter s)) (rev (take i source_order))))) @
          take MAX_CONTEXT_UTTERANCES (concat (map (source_units chapter) (drop (i + 1) source_order)))
      | _ \<Rightarrow> [])"

definition remove_source :: "rstring \<Rightarrow> u32 \<Rightarrow> chapter_context_store \<Rightarrow> chapter_context_store" where
  "remove_source chapter_id source_index store = modify_entry chapter_id
     (filter (\<lambda>e. \<not> ((source_index, 0) \<le> fst e \<and> fst e \<le> (source_index, 4294967295)))) store"

definition remove_chapter :: "rstring \<Rightarrow> chapter_context_store \<Rightarrow> chapter_context_store" where
  "remove_chapter chapter_id store = filter (\<lambda>e. fst e \<noteq> chapter_id) store"

section \<open>Chapter sessions\<close>

datatype page_surface_kind = ImageSurface | ContinuousStrip | FrameSurface | CanvasSurface | WebGlSurface
datatype region_role = RoleDialogue | RoleNarration | RoleSystem | RoleSoundEffect | RoleTechniqueArtwork
| RoleExclusion | RoleUnreadable | RoleUnknown

record page_surface =
  ps_session_id :: rstring
  ps_page_index :: u32
  ps_source_sha256 :: rstring
  ps_width :: u32
  ps_height :: u32
  ps_kind :: page_surface_kind

record region_plan =
  rg_id :: rstring
  rg_reading_order :: u32
  rg_role :: region_role
  rg_source_english :: rstring
  rg_continuation_group :: "rstring option"

record page_analysis =
  pa_surface :: page_surface
  pa_regions :: "region_plan list"
  pa_complete :: bool

record chapter_session =
  cs_id :: rstring
  cs_surfaces :: "(u32, page_surface) btree_map"
  cs_analyses :: "(u32, page_analysis) btree_map"

type_synonym chapter_session_store = "(rstring, chapter_session) index_map"

definition new_session :: "rstring \<Rightarrow> chapter_session" where
  "new_session i = \<lparr>cs_id = i, cs_surfaces = [], cs_analyses = []\<rparr>"

definition register_surface :: "page_surface \<Rightarrow> chapter_session \<Rightarrow> chapter_session \<times> bool" where
  "register_surface surface s =
     (let changed = (case bt_get (cs_surfaces s) (ps_page_index surface) of None \<Rightarrow> False
            | Some previous \<Rightarrow> ps_source_sha256 previous \<noteq> ps_source_sha256 surface);
          s1 = (if changed then s\<lparr>cs_analyses := filter (\<lambda>e. fst e \<noteq> ps_page_index surface) (cs_analyses s)\<rparr> else s)
      in (s1\<lparr>cs_surfaces := bt_insert (cs_surfaces s1) (ps_page_index surface) surface\<rparr>, changed))"

fun merge_region :: "region_plan \<Rightarrow> region_plan list \<Rightarrow> region_plan list" where
  "merge_region r [] = [r]"
| "merge_region r (q # qs) = (if rg_id q = rg_id r then r # qs else q # merge_region r qs)"

definition region_order :: "region_plan \<Rightarrow> nat list" where
  "region_order r = unat (rg_reading_order r) # rg_id r"

definition record_analysis :: "page_analysis \<Rightarrow> chapter_session \<Rightarrow> chapter_session" where
  "record_analysis a s =
     (let surface = pa_surface a; i = ps_page_index surface; s1 = fst (register_surface surface s);
          entry = (case bt_get (cs_analyses s1) i of Some e \<Rightarrow> e
            | None \<Rightarrow> \<lparr>pa_surface = surface, pa_regions = [], pa_complete = False\<rparr>);
          regions = sort_key region_order (fold merge_region (pa_regions a) (pa_regions entry))
      in s1\<lparr>cs_analyses := bt_insert (cs_analyses s1) i
            \<lparr>pa_surface = surface, pa_regions = regions, pa_complete = (pa_complete entry \<or> pa_complete a)\<rparr>\<rparr>)"

definition session_entry :: "rstring \<Rightarrow> chapter_session_store \<Rightarrow> chapter_session_store \<times> chapter_session" where
  "session_entry i store = (case im_get store i of Some s \<Rightarrow> (store, s)
     | None \<Rightarrow> (store @ [(i, new_session i)], new_session i))"

definition session_of :: "rstring \<Rightarrow> chapter_session_store \<Rightarrow> chapter_session option" where
  "session_of i store = im_get store i"

definition remove_session :: "rstring \<Rightarrow> chapter_session_store \<Rightarrow> chapter_session_store" where
  "remove_session i store = filter (\<lambda>e. fst e \<noteq> i) store"

section \<open>Laws\<close>

text \<open>What the pages of the chapters do to the store, in the order in which it happens.\<close>

datatype chapter_event =
  UnitsRegistered rstring "chapter_context_unit list"
| TranslationPublished rstring unit_pos rstring rstring
| SourceRemoved rstring u32

fun apply_event :: "chapter_event \<Rightarrow> chapter_context_store \<Rightarrow> chapter_context_store" where
  "apply_event (UnitsRegistered c us) = register_units c us"
| "apply_event (TranslationPublished c pos item displayed) = publish_translation c pos item displayed"
| "apply_event (SourceRemoved c index) = remove_source c index"

text \<open>The units an event is about, and what it does to one of them.\<close>

fun touches :: "rstring \<Rightarrow> unit_pos \<Rightarrow> chapter_event \<Rightarrow> bool" where
  "touches c pos (UnitsRegistered d us) \<longleftrightarrow> d = c \<and> pos \<in> unit_position ` set us"
| "touches c pos (TranslationPublished d p item displayed) \<longleftrightarrow> d = c \<and> p = pos"
| "touches c pos (SourceRemoved d index) \<longleftrightarrow> d = c \<and> fst pos = index"

definition registered_over :: "chapter_context_unit \<Rightarrow> chapter_context_unit option \<Rightarrow> chapter_context_unit" where
  "registered_over u old = (case old of None \<Rightarrow> u | Some e \<Rightarrow>
     if cu_item_id e = cu_item_id u \<and> cu_source_text e = cu_source_text u then u\<lparr>cu_displayed_text := cu_displayed_text e\<rparr> else u)"

fun unit_after :: "rstring \<Rightarrow> unit_pos \<Rightarrow> chapter_event \<Rightarrow> chapter_context_unit option \<Rightarrow> chapter_context_unit option" where
  "unit_after c pos (UnitsRegistered d us) old =
     (if d = c then fold (\<lambda>u old. if unit_position u = pos then Some (registered_over u old) else old) us old else old)"
| "unit_after c pos (TranslationPublished d p item displayed) old =
     (if d = c \<and> p = pos then map_option (publish_unit item displayed) old else old)"
| "unit_after c pos (SourceRemoved d index) old = (if d = c \<and> fst pos = index then None else old)"

definition chapter_of :: "rstring \<Rightarrow> chapter_context_store \<Rightarrow> chapter_units" where
  "chapter_of c store = (case im_get store c of None \<Rightarrow> [] | Some m \<Rightarrow> m)"

lemma get_modify: "map_of (modify_entry k f m) j = (if j = k then map_option f (map_of m j) else map_of m j)"
  by (induction m) (auto simp: modify_entry_def)

lemma keys_modify [simp]: "map fst (modify_entry k f m) = map fst m"
  by (simp add: modify_entry_def case_prod_beta if_distrib cong: if_cong)

lemma bt_ok_modify: "bt_ok (modify_entry k f m) = bt_ok m"
  by (simp add: bt_ok_def bt_keys_def)

lemma bt_ok_register: "bt_ok m \<Longrightarrow> bt_ok (register_unit u m)"
  by (simp add: register_unit_def bt_ok_modify split: option.splits)

lemma bt_ok_register_all: "bt_ok m \<Longrightarrow> bt_ok (fold register_unit us m)"
  by (induction us arbitrary: m) (auto simp: bt_ok_register)

lemma bt_ok_filter: "bt_ok m \<Longrightarrow> bt_ok (filter P m)"
  by (induction m) (auto simp: bt_ok_def bt_keys_def)

lemma map_of_filter: "map_of (filter (\<lambda>e. P (fst e)) m) k = (if P k then map_of m k else None)"
  by (induction m) auto

lemma in_source:
  fixes pos :: unit_pos
  shows "(index, 0) \<le> pos \<and> pos \<le> (index, 4294967295) \<longleftrightarrow> fst pos = index"
proof -
  have "snd pos \<le> (4294967295 :: u32)" using unsigned_less [of "snd pos", where ?'a = nat] by (simp add: word_le_nat_alt)
  then show ?thesis by (cases pos) (auto simp: less_eq_prod_def)
qed

lemma get_register:
  "bt_ok m \<Longrightarrow> bt_get (register_unit u m) pos = (if unit_position u = pos then Some (registered_over u (bt_get m pos)) else bt_get m pos)"
  by (auto simp: register_unit_def registered_over_def bt_get_insert split: option.split)
    (auto simp: bt_get_def get_modify)

lemma get_register_all:
  "bt_ok m \<Longrightarrow> bt_get (fold register_unit us m) pos
     = fold (\<lambda>u old. if unit_position u = pos then Some (registered_over u old) else old) us (bt_get m pos)"
  by (induction us arbitrary: m) (simp_all add: bt_ok_register get_register)

lemma chapter_of_modify:
  "f [] = [] \<or> (\<exists>m. im_get store d = Some m) \<Longrightarrow> chapter_of c (modify_entry d f store) = (if c = d then f (chapter_of c store) else chapter_of c store)"
  by (auto simp: chapter_of_def im_get_def get_modify split: option.split)

lemma chapter_of_default: "chapter_of c (or_default d store) = chapter_of c store" "\<exists>m. im_get (or_default d store) d = Some m"
  by (auto simp: chapter_of_def or_default_def im_get_def im_contains_key_iff map_add_def split: option.split)

lemma chapter_of_event:
  "chapter_of c (apply_event e store) = (case e of
     UnitsRegistered d us \<Rightarrow> if c = d then fold register_unit us (chapter_of c store) else chapter_of c store
   | TranslationPublished d p item displayed \<Rightarrow> if c = d then modify_entry p (publish_unit item displayed) (chapter_of c store) else chapter_of c store
   | SourceRemoved d index \<Rightarrow> if c = d then filter (\<lambda>e. \<not> ((index, 0) \<le> fst e \<and> fst e \<le> (index, 4294967295))) (chapter_of c store) else chapter_of c store)"
proof (cases e)
  case (UnitsRegistered d us)
  have "chapter_of c (register_units d us store) = (if c = d then fold register_unit us (chapter_of c (or_default d store)) else chapter_of c (or_default d store))"
    unfolding register_units_def by (rule chapter_of_modify) (simp add: chapter_of_default)
  then show ?thesis using UnitsRegistered by (simp add: chapter_of_default)
qed (simp_all add: publish_translation_def remove_source_def chapter_of_modify modify_entry_def [of _ _ "[]"])

lemma unit_after_event:
  assumes "bt_ok (chapter_of c store)"
  shows "bt_ok (chapter_of c (apply_event e store))
    \<and> bt_get (chapter_of c (apply_event e store)) pos = unit_after c pos e (bt_get (chapter_of c store) pos)"
proof (cases e)
  case (SourceRemoved d index)
  then show ?thesis using assms map_of_filter [of "\<lambda>p. fst p \<noteq> index" "chapter_of c store" pos]
    by (auto simp: chapter_of_event bt_ok_filter in_source bt_get_def simp del: apply_event.simps)
next
  case (UnitsRegistered d us)
  then show ?thesis using assms by (auto simp: chapter_of_event bt_ok_register_all get_register_all simp del: apply_event.simps)
next
  case (TranslationPublished d p item displayed)
  then show ?thesis using assms by (auto simp: chapter_of_event bt_ok_modify bt_get_def get_modify simp del: apply_event.simps)
qed

lemma untouched_unit: "\<not> touches c pos e \<Longrightarrow> unit_after c pos e old = old"
proof (cases e)
  case (UnitsRegistered d us)
  assume "\<not> touches c pos e"
  then have "d = c \<Longrightarrow> \<forall>u \<in> set us. unit_position u \<noteq> pos" using UnitsRegistered by auto
  then have "d = c \<Longrightarrow> fold (\<lambda>u old. if unit_position u = pos then Some (registered_over u old) else old) us old = old"
    by (induction us) auto
  then show ?thesis using UnitsRegistered by simp
qed auto

lemma unit_after_events:
  assumes "bt_ok (chapter_of c store)"
  shows "bt_ok (chapter_of c (fold apply_event es store))
    \<and> bt_get (chapter_of c (fold apply_event es store)) pos = fold (unit_after c pos) (filter (touches c pos) es) (bt_get (chapter_of c store) pos)"
  using assms
proof (induction es arbitrary: store)
  case (Cons e es)
  note step = unit_after_event [OF Cons.prems, of e pos]
  then show ?case using Cons.IH [of "apply_event e store"] untouched_unit [of c pos e] by simp
qed simp

lemma bt_ext:
  assumes "bt_ok m" "bt_ok n" "\<And>k. bt_get m k = bt_get n k"
  shows "m = n"
proof -
  have "map_of m = map_of n" using assms(3) by (simp add: bt_get_def fun_eq_iff)
  moreover have sorted: "distinct (map fst m)" "distinct (map fst n)" "sorted (map fst m)" "sorted (map fst n)"
    using assms(1,2) by (simp_all add: bt_ok_def bt_keys_def strict_sorted_iff)
  ultimately have "set m = set n" by (metis map_of_inject_set)
  moreover have "inj_on fst (set m \<union> set n)" using sorted(1) \<open>set m = set n\<close> by (simp add: distinct_map)
  ultimately show ?thesis using map_sorted_distinct_set_unique [of fst m n] sorted by blast
qed

text \<open>The context as the end of the usable units before the position.\<close>

lemma rev_take_rev: "rev (take n (rev xs)) = drop (length xs - n) xs"
  by (simp add: rev_take)

lemma map_filter_rev: "List.map_filter f (rev xs) = rev (List.map_filter f xs)"
  by (simp add: List.map_filter_def rev_map rev_filter)

lemma preceding_eq:
  "preceding store chapter_id pos = (case im_get store chapter_id of None \<Rightarrow> []
     | Some chapter \<Rightarrow>
        (let usable = List.map_filter (\<lambda>e. usable_context (snd e)) (filter (\<lambda>e. fst e < pos) chapter)
         in drop (length usable - 6) usable))"
  by (simp add: preceding_def map_filter_rev rev_take_rev MAX_CONTEXT_UTTERANCES_def Let_def split: option.splits)

lemma preceding_of_chapter: "preceding store c pos =
    (let usable = List.map_filter (\<lambda>e. usable_context (snd e)) (filter (\<lambda>e. fst e < pos) (chapter_of c store))
     in drop (length usable - 6) usable)"
  by (simp add: preceding_eq chapter_of_def List.map_filter_def split: option.split)

text \<open>Claim C33: the context of a unit does not depend on the order in which the pages of a chapter
  are registered, translated, published and removed: two orders of the same events that agree on the events at each
  single unit give every unit the same context, and the context is always the last six utterances before the
  position that have a source and a translation.
\<close>

theorem publication_order_irrelevant:
  assumes "bt_ok (chapter_of c store)" and "\<And>pos. filter (touches c pos) es = filter (touches c pos) es'"
  shows "preceding (fold apply_event es store) c pos = preceding (fold apply_event es' store) c pos
    \<and> preceding (fold apply_event es store) c pos =
       (let usable = List.map_filter (\<lambda>e. usable_context (snd e)) (filter (\<lambda>e. fst e < pos) (chapter_of c (fold apply_event es store)))
        in drop (length usable - 6) usable)"
proof -
  have "chapter_of c (fold apply_event es store) = chapter_of c (fold apply_event es' store)"
    using unit_after_events [OF assms(1), of es] unit_after_events [OF assms(1), of es'] assms(2) by (intro bt_ext) simp_all
  then show ?thesis by (simp add: preceding_of_chapter)
qed

definition sample_unit :: "nat \<Rightarrow> string \<Rightarrow> chapter_context_unit" where
  "sample_unit n t = \<lparr>cu_item_id = lit t, cu_source_index = of_nat n, cu_item_order = 0,
     cu_source_text = lit t, cu_displayed_text = None\<rparr>"

text \<open>The second page of the sample is finished before the first one is even registered, and the other way round.\<close>

definition page_history :: "nat \<Rightarrow> string \<Rightarrow> nat \<Rightarrow> chapter_event list" where
  "page_history n t c = [UnitsRegistered (lit ''c'') [sample_unit n t], TranslationPublished (lit ''c'') (of_nat n, 0) (lit t) [c]]"

lemma publication_order_irrelevant_witness:
  "preceding (fold apply_event (page_history 2 ''two'' 20108 @ page_history 1 ''one'' 19968) []) (lit ''c'') (3, 0)
    = preceding (fold apply_event (page_history 1 ''one'' 19968 @ page_history 2 ''two'' 20108) []) (lit ''c'') (3, 0)
   \<and> preceding (fold apply_event (page_history 1 ''one'' 19968 @ page_history 2 ''two'' 20108) []) (lit ''c'') (3, 0)
      = [\<lparr>hp_source_english = lit ''one'', hp_chinese = [19968]\<rparr>, \<lparr>hp_source_english = lit ''two'', hp_chinese = [20108]\<rparr>]"
proof -
  have "filter (touches (lit ''c'') pos) (page_history 2 ''two'' 20108 @ page_history 1 ''one'' 19968)
      = filter (touches (lit ''c'') pos) (page_history 1 ''one'' 19968 @ page_history 2 ''two'' 20108)" for pos
    by (auto simp: page_history_def unit_position_def sample_unit_def)
  moreover have "bt_ok (chapter_of (lit ''c'') [])" by (simp add: chapter_of_def im_get_def)
  moreover have "preceding (fold apply_event (page_history 1 ''one'' 19968 @ page_history 2 ''two'' 20108) []) (lit ''c'') (3, 0)
      = [\<lparr>hp_source_english = lit ''one'', hp_chinese = [19968]\<rparr>, \<lparr>hp_source_english = lit ''two'', hp_chinese = [20108]\<rparr>]"
    by code_simp
  ultimately show ?thesis using publication_order_irrelevant by blast
qed

end
