(* ===== verification/Cuda_Scheduler.thy ===== *)
theory Cuda_Scheduler
  imports Prelude
begin

text \<open>
  The admission of CUDA phases (\<open>cuda_scheduler.rs\<close>): one running phase for vision and one for
  language, and a bounded queue of waiters. Each function holds the lock of the state once. A
  cancel flag is shared with its owner, so the waiters carry the name of the flag, and the set of
  the raised flags is an argument.
\<close>

section \<open>State\<close>

datatype cuda_priority = Offscreen | Visible
datatype cuda_workload = Vision | Language
datatype cuda_admission_error = CudaCancelled | CudaQueueFull nat

type_synonym cancel_flag = nat

record waiter =
  wt_sequence :: u64
  wt_priority :: cuda_priority
  wt_workload :: cuda_workload
  wt_cancel :: cancel_flag

record scheduler_state =
  ss_vision_active :: bool
  ss_language_active :: bool
  ss_next_sequence :: u64
  ss_waiters :: "waiter list"

definition CUDA_QUEUE_CAPACITY :: nat where "CUDA_QUEUE_CAPACITY = 64"

definition new_scheduler :: scheduler_state where
  "new_scheduler = \<lparr>ss_vision_active = False, ss_language_active = False, ss_next_sequence = 0, ss_waiters = []\<rparr>"

definition remove_cancelled :: "cancel_flag set \<Rightarrow> scheduler_state \<Rightarrow> scheduler_state" where
  "remove_cancelled raised s = s\<lparr>ss_waiters := filter (\<lambda>w. wt_cancel w \<notin> raised) (ss_waiters s)\<rparr>"

definition is_active :: "scheduler_state \<Rightarrow> cuda_workload \<Rightarrow> bool" where
  "is_active s w = (case w of Vision \<Rightarrow> ss_vision_active s | Language \<Rightarrow> ss_language_active s)"

definition set_active :: "cuda_workload \<Rightarrow> bool \<Rightarrow> scheduler_state \<Rightarrow> scheduler_state" where
  "set_active w active s =
     (case w of Vision \<Rightarrow> s\<lparr>ss_vision_active := active\<rparr> | Language \<Rightarrow> s\<lparr>ss_language_active := active\<rparr>)"

primrec priority_rank :: "cuda_priority \<Rightarrow> nat" where
  "priority_rank Offscreen = 0"
| "priority_rank Visible = 1"

text \<open>A higher priority wins, then the earlier sequence.\<close>

definition waits_before :: "waiter \<Rightarrow> waiter \<Rightarrow> bool" where
  "waits_before a b \<longleftrightarrow> priority_rank (wt_priority b) < priority_rank (wt_priority a)
     \<or> wt_priority a = wt_priority b \<and> wt_sequence a < wt_sequence b"

fun first_waiter :: "waiter list \<Rightarrow> waiter option" where
  "first_waiter [] = None"
| "first_waiter (w # ws) = (case first_waiter ws of None \<Rightarrow> Some w
     | Some v \<Rightarrow> Some (if waits_before w v then w else v))"

definition next_waiter_sequence :: "scheduler_state \<Rightarrow> cuda_workload \<Rightarrow> u64 option" where
  "next_waiter_sequence s w =
     map_option wt_sequence (first_waiter (filter (\<lambda>v. wt_workload v = w) (ss_waiters s)))"

definition remove_waiter :: "u64 \<Rightarrow> scheduler_state \<Rightarrow> scheduler_state \<times> bool" where
  "remove_waiter sequence s =
     (let s' = s\<lparr>ss_waiters := filter (\<lambda>w. wt_sequence w \<noteq> sequence) (ss_waiters s)\<rparr>
      in (s', length (ss_waiters s') \<noteq> length (ss_waiters s)))"

section \<open>Acquire and release\<close>

datatype admission = Granted | Queued u64 | Refused cuda_admission_error

text \<open>The first part of \<open>acquire\<close>: grant at once, or register a waiter.\<close>

definition acquire_start ::
  "nat \<Rightarrow> cancel_flag set \<Rightarrow> cuda_workload \<Rightarrow> cuda_priority \<Rightarrow> cancel_flag \<Rightarrow> scheduler_state
     \<Rightarrow> scheduler_state \<times> admission" where
  "acquire_start capacity raised w p flag s =
     (if flag \<in> raised then (s, Refused CudaCancelled)
      else (let s1 = remove_cancelled raised s in
        if \<not> is_active s1 w \<and> \<not> list_ex (\<lambda>v. wt_workload v = w) (ss_waiters s1)
        then (set_active w True s1, Granted)
        else if capacity \<le> length (ss_waiters s1) then (s1, Refused (CudaQueueFull capacity))
        else (s1\<lparr>ss_next_sequence := ss_next_sequence s1 + 1,
                 ss_waiters := ss_waiters s1 @ [\<lparr>wt_sequence = ss_next_sequence s1, wt_priority = p,
                   wt_workload = w, wt_cancel = flag\<rparr>]\<rparr>,
              Queued (ss_next_sequence s1))))"

text \<open>
  One turn of the loop of \<open>acquire\<close>: \<open>None\<close> when it goes on waiting. An error drops the
  registration, which removes the waiter.
\<close>

definition acquire_turn ::
  "cancel_flag set \<Rightarrow> cuda_workload \<Rightarrow> cancel_flag \<Rightarrow> u64 \<Rightarrow> scheduler_state
     \<Rightarrow> scheduler_state \<times> admission option" where
  "acquire_turn raised w flag sequence s =
     (if flag \<in> raised then (fst (remove_waiter sequence s), Some (Refused CudaCancelled))
      else (let s1 = remove_cancelled raised s in
        if \<not> is_active s1 w \<and> next_waiter_sequence s1 w = Some sequence
        then (set_active w True (fst (remove_waiter sequence s1)), Some Granted)
        else if \<not> list_ex (\<lambda>v. wt_sequence v = sequence) (ss_waiters s1)
        then (fst (remove_waiter sequence s1), Some (Refused CudaCancelled))
        else (s1, None)))"

definition cancel_waiter :: "u64 \<Rightarrow> scheduler_state \<Rightarrow> scheduler_state" where
  "cancel_waiter sequence s = fst (remove_waiter sequence s)"

definition release :: "cancel_flag set \<Rightarrow> cuda_workload \<Rightarrow> scheduler_state \<Rightarrow> scheduler_state" where
  "release raised w s = remove_cancelled raised (set_active w False s)"

section \<open>The running system\<close>

text \<open>
  The tasks around the scheduler: who holds a permit and who is still inside \<open>acquire\<close> with
  which sequence. A task may be aborted at any time, which drops its registration.
\<close>

record cuda_system =
  cy_state :: scheduler_state
  cy_permits :: "cuda_workload list"
  cy_waiting :: "(u64 \<times> cuda_workload \<times> cancel_flag) list"
  cy_raised :: "cancel_flag set"

definition new_system :: cuda_system where
  "new_system = \<lparr>cy_state = new_scheduler, cy_permits = [], cy_waiting = [], cy_raised = {}\<rparr>"

definition leave :: "u64 \<Rightarrow> cuda_system \<Rightarrow> (u64 \<times> cuda_workload \<times> cancel_flag) list" where
  "leave sequence y = filter (\<lambda>t. fst t \<noteq> sequence) (cy_waiting y)"

text \<open>The sequence counter wraps after \<open>2^64\<close> registrations; the runs looked at stay below.\<close>

inductive cuda_step :: "nat \<Rightarrow> cuda_system \<Rightarrow> cuda_system \<Rightarrow> bool" for capacity where
  granted_at_once:
    "acquire_start capacity (cy_raised y) w p flag (cy_state y) = (s, Granted) \<Longrightarrow>
     cuda_step capacity y (y\<lparr>cy_state := s, cy_permits := w # cy_permits y\<rparr>)"
| queued:
    "acquire_start capacity (cy_raised y) w p flag (cy_state y) = (s, Queued n) \<Longrightarrow>
     ss_next_sequence (cy_state y) \<noteq> -1 \<Longrightarrow>
     cuda_step capacity y (y\<lparr>cy_state := s, cy_waiting := (n, w, flag) # cy_waiting y\<rparr>)"
| refused:
    "acquire_start capacity (cy_raised y) w p flag (cy_state y) = (s, Refused e) \<Longrightarrow>
     cuda_step capacity y (y\<lparr>cy_state := s\<rparr>)"
| turn_granted:
    "(n, w, flag) \<in> set (cy_waiting y) \<Longrightarrow> acquire_turn (cy_raised y) w flag n (cy_state y) = (s, Some Granted) \<Longrightarrow>
     cuda_step capacity y (y\<lparr>cy_state := s, cy_permits := w # cy_permits y, cy_waiting := leave n y\<rparr>)"
| turn_refused:
    "(n, w, flag) \<in> set (cy_waiting y) \<Longrightarrow> acquire_turn (cy_raised y) w flag n (cy_state y) = (s, Some (Refused e)) \<Longrightarrow>
     cuda_step capacity y (y\<lparr>cy_state := s, cy_waiting := leave n y\<rparr>)"
| turn_waits:
    "(n, w, flag) \<in> set (cy_waiting y) \<Longrightarrow> acquire_turn (cy_raised y) w flag n (cy_state y) = (s, None) \<Longrightarrow>
     cuda_step capacity y (y\<lparr>cy_state := s\<rparr>)"
| aborted:
    "(n, w, flag) \<in> set (cy_waiting y) \<Longrightarrow>
     cuda_step capacity y (y\<lparr>cy_state := cancel_waiter n (cy_state y), cy_waiting := leave n y\<rparr>)"
| released:
    "w \<in> set (cy_permits y) \<Longrightarrow>
     cuda_step capacity y (y\<lparr>cy_state := release (cy_raised y) w (cy_state y), cy_permits := remove1 w (cy_permits y)\<rparr>)"
| raised:
    "cuda_step capacity y (y\<lparr>cy_raised := insert flag (cy_raised y)\<rparr>)"

inductive cuda_reachable :: "nat \<Rightarrow> cuda_system \<Rightarrow> bool" for capacity where
  start: "cuda_reachable capacity new_system"
| step: "cuda_reachable capacity y \<Longrightarrow> cuda_step capacity y y' \<Longrightarrow> cuda_reachable capacity y'"

section \<open>The invariant\<close>

definition cuda_ok :: "nat \<Rightarrow> cuda_system \<Rightarrow> bool" where
  "cuda_ok capacity y \<longleftrightarrow>
     (\<forall>w. count (mset (cy_permits y)) w = (if is_active (cy_state y) w then 1 else 0))
     \<and> length (ss_waiters (cy_state y)) \<le> capacity
     \<and> distinct (map wt_sequence (ss_waiters (cy_state y)))
     \<and> distinct (map fst (cy_waiting y))
     \<and> (\<forall>t \<in> set (cy_waiting y). fst t < ss_next_sequence (cy_state y))
     \<and> (\<forall>v \<in> set (ss_waiters (cy_state y)). (wt_sequence v, wt_workload v, wt_cancel v) \<in> set (cy_waiting y))"

lemma waiters_simps [simp]:
  "ss_waiters (remove_cancelled raised s) = filter (\<lambda>w. wt_cancel w \<notin> raised) (ss_waiters s)"
  "ss_waiters (set_active w a s) = ss_waiters s"
  "ss_waiters (fst (remove_waiter n s)) = filter (\<lambda>w. wt_sequence w \<noteq> n) (ss_waiters s)"
  "ss_next_sequence (remove_cancelled raised s) = ss_next_sequence s"
  "ss_next_sequence (set_active w a s) = ss_next_sequence s"
  "ss_next_sequence (fst (remove_waiter n s)) = ss_next_sequence s"
  by (simp_all add: remove_cancelled_def set_active_def remove_waiter_def Let_def split: cuda_workload.splits)

lemma active_simps [simp]:
  "is_active (remove_cancelled raised s) v = is_active s v"
  "is_active (fst (remove_waiter n s)) v = is_active s v"
  "is_active (set_active w a s) v = (if v = w then a else is_active s v)"
  by (cases v; cases w; simp add: is_active_def remove_cancelled_def set_active_def remove_waiter_def Let_def)+

lemma active_update [simp]:
  "is_active (s\<lparr>ss_waiters := ws\<rparr>) v = is_active s v" "is_active (s\<lparr>ss_next_sequence := n\<rparr>) v = is_active s v"
  by (cases v; simp add: is_active_def)+

lemma cuda_ok_new: "cuda_ok capacity new_system"
  by (simp add: cuda_ok_def new_system_def new_scheduler_def is_active_def split: cuda_workload.splits)

text \<open>A state with fewer waiters, whose owners are still waiting.\<close>

lemma cuda_ok_fewer:
  assumes "cuda_ok capacity y" "ss_waiters s = filter P (ss_waiters (cy_state y))"
    and "ss_next_sequence s = ss_next_sequence (cy_state y)"
    and "\<And>w. count (mset ps) w = (if is_active s w then 1 else 0)"
    and "ts = cy_waiting y \<or> (\<exists>n. ts = leave n y \<and> (\<forall>v \<in> set (ss_waiters s). wt_sequence v \<noteq> n))"
  shows "cuda_ok capacity (y\<lparr>cy_state := s, cy_permits := ps, cy_waiting := ts\<rparr>)"
proof -
  have "length (ss_waiters s) \<le> length (ss_waiters (cy_state y))" by (simp add: assms(2))
  then have "length (ss_waiters s) \<le> capacity" using assms(1) unfolding cuda_ok_def by linarith
  moreover have "distinct (map wt_sequence (ss_waiters s))"
    using assms(1,2) by (simp add: cuda_ok_def distinct_map_filter)
  moreover have "distinct (map fst ts)" "\<forall>t \<in> set ts. fst t < ss_next_sequence s"
    using assms(1,3,5) by (auto simp: cuda_ok_def leave_def distinct_map_filter)
  moreover have "\<forall>v \<in> set (ss_waiters s). (wt_sequence v, wt_workload v, wt_cancel v) \<in> set ts"
    using assms(1,2,5) by (auto simp: cuda_ok_def leave_def)
  ultimately show ?thesis using assms(4) by (simp add: cuda_ok_def)
qed

lemma first_waiter_in: "first_waiter ws = Some v \<Longrightarrow> v \<in> set ws"
  by (induction ws arbitrary: v) (auto split: option.splits if_splits)

lemma first_waiter_None [simp]: "first_waiter ws = None \<longleftrightarrow> ws = []"
  by (cases ws) (auto split: option.splits)

lemma cuda_ok_counts:
  "cuda_ok capacity y \<Longrightarrow> count (mset (cy_permits y)) w = (if is_active (cy_state y) w then 1 else 0)"
  by (simp add: cuda_ok_def)

lemma acquire_start_cases:
  assumes "acquire_start capacity raised w p flag s = (s', a)"
  obtains (cancelled) "flag \<in> raised" "s' = s" "a = Refused CudaCancelled"
  | (granted) "\<not> is_active s w" "s' = set_active w True (remove_cancelled raised s)" "a = Granted"
  | (full) "s' = remove_cancelled raised s" "a = Refused (CudaQueueFull capacity)"
  | (registered) "length (ss_waiters (remove_cancelled raised s)) < capacity" "a = Queued (ss_next_sequence s)"
      "s' = (remove_cancelled raised s)\<lparr>ss_next_sequence := ss_next_sequence s + 1,
        ss_waiters := ss_waiters (remove_cancelled raised s) @ [\<lparr>wt_sequence = ss_next_sequence s, wt_priority = p,
          wt_workload = w, wt_cancel = flag\<rparr>]\<rparr>"
proof (cases "flag \<in> raised")
  case True
  then show ?thesis using assms cancelled by (simp add: acquire_start_def)
next
  case alive: False
  let ?s1 = "remove_cancelled raised s"
  show ?thesis
  proof (cases "\<not> is_active ?s1 w \<and> \<not> list_ex (\<lambda>v. wt_workload v = w) (ss_waiters ?s1)")
    case True
    then have "s' = set_active w True ?s1" "a = Granted"
      using assms alive by (simp_all add: acquire_start_def Let_def del: waiters_simps)
    then show ?thesis using True granted by simp
  next
    case busy: False
    show ?thesis
    proof (cases "capacity \<le> length (ss_waiters ?s1)")
      case True
      have "acquire_start capacity raised w p flag s = (?s1, Refused (CudaQueueFull capacity))"
        unfolding acquire_start_def Let_def using alive busy True by (simp only: if_False if_True)
      then show ?thesis using assms full by simp
    next
      case False
      have "acquire_start capacity raised w p flag s = (?s1\<lparr>ss_next_sequence := ss_next_sequence ?s1 + 1,
          ss_waiters := ss_waiters ?s1 @ [\<lparr>wt_sequence = ss_next_sequence ?s1, wt_priority = p,
            wt_workload = w, wt_cancel = flag\<rparr>]\<rparr>, Queued (ss_next_sequence ?s1))"
        unfolding acquire_start_def Let_def using alive busy False by (simp only: if_False)
      then show ?thesis
        using assms False registered by (simp del: waiters_simps(1) add: not_le)
    qed
  qed
qed

lemma acquire_turn_cases:
  assumes "acquire_turn raised w flag n s = (s', a)"
  obtains (cancelled) "s' = fst (remove_waiter n s)" "a = Some (Refused CudaCancelled)"
  | (granted) "\<not> is_active s w" "next_waiter_sequence (remove_cancelled raised s) w = Some n"
      "s' = set_active w True (fst (remove_waiter n (remove_cancelled raised s)))" "a = Some Granted"
  | (gone) "s' = fst (remove_waiter n (remove_cancelled raised s))" "a = Some (Refused CudaCancelled)"
  | (waits) "s' = remove_cancelled raised s" "a = None"
proof (cases "flag \<in> raised")
  case True
  then show ?thesis using assms cancelled by (simp add: acquire_turn_def)
next
  case alive: False
  let ?s1 = "remove_cancelled raised s"
  show ?thesis
  proof (cases "\<not> is_active ?s1 w \<and> next_waiter_sequence ?s1 w = Some n")
    case True
    then have "s' = set_active w True (fst (remove_waiter n ?s1))" "a = Some Granted"
      using assms alive by (simp_all add: acquire_turn_def Let_def)
    then show ?thesis using True granted by simp
  next
    case busy: False
    show ?thesis
    proof (cases "list_ex (\<lambda>v. wt_sequence v = n) (ss_waiters ?s1)")
      case True
      have "acquire_turn raised w flag n s = (?s1, None)"
        unfolding acquire_turn_def Let_def using alive busy True by (simp only: if_False simp_thms)
      then show ?thesis using assms waits by simp
    next
      case False
      have "acquire_turn raised w flag n s = (fst (remove_waiter n ?s1), Some (Refused CudaCancelled))"
        unfolding acquire_turn_def Let_def using alive busy False by (simp only: if_False if_True simp_thms)
      then show ?thesis using assms gone by simp
    qed
  qed
qed

lemma next_sequence_fresh:
  assumes "cuda_ok capacity y"
  shows "ss_next_sequence (cy_state y) \<notin> fst ` set (cy_waiting y)"
    and "ss_next_sequence (cy_state y) \<notin> wt_sequence ` set (ss_waiters (cy_state y))"
  using assms by (force simp: cuda_ok_def)+

lemma word_less_Suc: "b \<noteq> -1 \<Longrightarrow> b < b + (1 :: u64)" "(a :: u64) < b \<Longrightarrow> b \<noteq> -1 \<Longrightarrow> a < b + 1"
proof -
  have u: "unat (b + 1) = Suc (unat b)" if "b \<noteq> -1" for b :: u64
    using that unatSuc [of b] by (metis add.commute eq_neg_iff_add_eq_0)
  show "b \<noteq> -1 \<Longrightarrow> b < b + (1 :: u64)" "(a :: u64) < b \<Longrightarrow> b \<noteq> -1 \<Longrightarrow> a < b + 1"
    using u by (auto simp: word_less_nat_alt)
qed

lemma count_remove1: "w \<in> set ps \<Longrightarrow> count (mset (remove1 w ps)) v = count (mset ps) v - (if v = w then 1 else 0)"
  by auto

lemma cuda_step_ok:
  assumes "cuda_step capacity y y'" "cuda_ok capacity y"
  shows "cuda_ok capacity y'"
  using assms
proof (induction rule: cuda_step.induct)
  case (granted_at_once y w p flag s)
  from granted_at_once(1) show ?case
  proof (cases rule: acquire_start_cases)
    case granted
    then show ?thesis
      using cuda_ok_counts [OF granted_at_once(2)]
      by (intro cuda_ok_fewer [OF granted_at_once(2), of s _ "w # cy_permits y" "cy_waiting y", simplified]) auto
  qed simp_all
next
  case (queued y w p flag s n)
  from queued(1) show ?case
  proof (cases rule: acquire_start_cases)
    case registered
    have n: "n = ss_next_sequence (cy_state y)" using registered by simp
    have old: "v \<in> set (ss_waiters (cy_state y))" if "v \<in> set (filter P (ss_waiters (cy_state y)))" for v P
      using that by simp
    show ?thesis
      using queued(2,3) registered(1) next_sequence_fresh [OF queued(3)] word_less_Suc
      unfolding cuda_ok_def registered(3) n
      by (auto simp: distinct_map_filter image_iff)
  qed simp_all
next
  case (refused y w p flag s e)
  from refused(1) show ?case
  proof (cases rule: acquire_start_cases)
    case cancelled
    then show ?thesis using refused(2) by simp
  next
    case full
    then show ?thesis
      using cuda_ok_counts [OF refused(2)]
      by (intro cuda_ok_fewer [OF refused(2), of s _ "cy_permits y" "cy_waiting y", simplified]) auto
  qed simp_all
next
  case (turn_granted n w flag y s)
  from turn_granted(2) show ?case
  proof (cases rule: acquire_turn_cases)
    case granted
    then show ?thesis
      using cuda_ok_counts [OF turn_granted(3)]
      by (intro cuda_ok_fewer [OF turn_granted(3), of s _ "w # cy_permits y" "leave n y"]) auto
  qed simp_all
next
  case (turn_refused n w flag y s e)
  from turn_refused(2) show ?case
  proof (cases rule: acquire_turn_cases)
    case cancelled
    then show ?thesis
      using cuda_ok_counts [OF turn_refused(3)]
      by (intro cuda_ok_fewer [OF turn_refused(3), of s _ "cy_permits y" "leave n y", simplified]) auto
  next
    case gone
    then show ?thesis
      using cuda_ok_counts [OF turn_refused(3)]
      by (intro cuda_ok_fewer [OF turn_refused(3), of s _ "cy_permits y" "leave n y", simplified]) auto
  qed simp_all
next
  case (turn_waits n w flag y s)
  from turn_waits(2) show ?case
  proof (cases rule: acquire_turn_cases)
    case waits
    then show ?thesis
      using cuda_ok_counts [OF turn_waits(3)]
      by (intro cuda_ok_fewer [OF turn_waits(3), of s _ "cy_permits y" "cy_waiting y", simplified]) auto
  qed simp_all
next
  case (aborted n w flag y)
  then show ?case
    using cuda_ok_counts [OF aborted(2)]
    by (intro cuda_ok_fewer [OF aborted(2), of _ _ "cy_permits y" "leave n y", simplified])
      (auto simp: cancel_waiter_def)
next
  case (released w y)
  then show ?case
    using cuda_ok_counts [OF released(2)]
    by (intro cuda_ok_fewer [OF released(2), of _ _ "remove1 w (cy_permits y)" "cy_waiting y", simplified])
      (auto simp: release_def count_remove1)
next
  case (raised y flag)
  then show ?case by (simp add: cuda_ok_def)
qed

lemma cuda_reachable_ok: "cuda_reachable capacity y \<Longrightarrow> cuda_ok capacity y"
  by (induction rule: cuda_reachable.induct) (auto simp: cuda_ok_new cuda_step_ok)

end
