(* ===== verification/Cuda_Props.thy ===== *)
theory Cuda_Props
  imports Cuda_Scheduler
begin

text \<open>
  The properties of the CUDA scheduler: mutual exclusion in each lane, a bounded queue without
  ownerless waiters, and the choice of the next phase.
\<close>

section \<open>The order of the waiters\<close>

definition wait_key :: "waiter \<Rightarrow> nat" where
  "wait_key v = (1 - priority_rank (wt_priority v)) * 2 ^ 64 + unat (wt_sequence v)"

lemma unat_u64_less: "unat (x :: u64) < 2 ^ 64"
  using unsigned_less [of x, where 'a = nat] by simp

lemma waits_before_key: "waits_before a b \<longleftrightarrow> wait_key a < wait_key b"
proof -
  have "unat (wt_sequence a) < 2 ^ 64" "unat (wt_sequence b) < 2 ^ 64"
    by (rule unat_u64_less)+
  then show ?thesis
    by (cases "wt_priority a"; cases "wt_priority b") (auto simp: waits_before_def wait_key_def word_less_nat_alt)
qed

lemma first_waiter_least: "first_waiter ws = Some v \<Longrightarrow> u \<in> set ws \<Longrightarrow> wait_key v \<le> wait_key u"
  by (induction ws arbitrary: v)
    (auto simp: waits_before_key split: option.splits if_splits dest: less_imp_le order_trans)

lemma wait_key_eq: "wait_key a = wait_key b \<Longrightarrow> wt_sequence a = wt_sequence b"
proof -
  assume eq: "wait_key a = wait_key b"
  have "unat (wt_sequence a) < 2 ^ 64" "unat (wt_sequence b) < 2 ^ 64"
    by (rule unat_u64_less)+
  then have "unat (wt_sequence a) = unat (wt_sequence b)"
    using eq by (cases "wt_priority a"; cases "wt_priority b") (auto simp: wait_key_def)
  then show ?thesis by (simp add: word_unat_eq_iff)
qed

text \<open>The waiters of a lane whose flags are not raised.\<close>

definition alive_waiters :: "cuda_system \<Rightarrow> cuda_workload \<Rightarrow> waiter list" where
  "alive_waiters y w =
     filter (\<lambda>v. wt_cancel v \<notin> cy_raised y \<and> wt_workload v = w) (ss_waiters (cy_state y))"

lemma next_waiter_alive:
  "next_waiter_sequence (remove_cancelled (cy_raised y) (cy_state y)) w
     = map_option wt_sequence (first_waiter (alive_waiters y w))"
  by (simp add: next_waiter_sequence_def alive_waiters_def conj_commute)

section \<open>A sample run\<close>

definition sample_step :: "cuda_system \<Rightarrow> cuda_priority \<Rightarrow> cancel_flag \<Rightarrow> cuda_system" where
  "sample_step y p flag = (case acquire_start 64 (cy_raised y) Vision p flag (cy_state y) of
     (s, Granted) \<Rightarrow> y\<lparr>cy_state := s, cy_permits := Vision # cy_permits y\<rparr>
   | (s, Queued n) \<Rightarrow> y\<lparr>cy_state := s, cy_waiting := (n, Vision, flag) # cy_waiting y\<rparr>
   | (s, Refused e) \<Rightarrow> y\<lparr>cy_state := s\<rparr>)"

definition sample_busy :: cuda_system where
  "sample_busy = sample_step (sample_step (sample_step new_system Offscreen 0) Offscreen 1) Visible 2"

definition sample_free :: cuda_system where
  "sample_free = sample_busy\<lparr>cy_state := release (cy_raised sample_busy) Vision (cy_state sample_busy),
     cy_permits := remove1 Vision (cy_permits sample_busy)\<rparr>"

lemma sample_step_reachable:
  assumes "cuda_reachable 64 y" "ss_next_sequence (cy_state y) \<noteq> -1"
  shows "cuda_reachable 64 (sample_step y p flag)"
proof -
  obtain s a where a: "acquire_start 64 (cy_raised y) Vision p flag (cy_state y) = (s, a)"
    by (cases "acquire_start 64 (cy_raised y) Vision p flag (cy_state y)")
  have "cuda_step 64 y (sample_step y p flag)"
  proof (cases a)
    case Granted
    then show ?thesis using a by (simp add: sample_step_def cuda_step.granted_at_once)
  next
    case (Queued n)
    then show ?thesis using a assms(2) cuda_step.queued [of 64 y Vision p flag s n] by (simp add: sample_step_def)
  next
    case (Refused e)
    then show ?thesis using a cuda_step.refused [of 64 y Vision p flag s e] by (simp add: sample_step_def)
  qed
  then show ?thesis by (rule cuda_reachable.step [OF assms(1)])
qed

lemma sample_sequences:
  "ss_next_sequence (cy_state new_system) \<noteq> -1"
  "ss_next_sequence (cy_state (sample_step new_system Offscreen 0)) \<noteq> -1"
  "ss_next_sequence (cy_state (sample_step (sample_step new_system Offscreen 0) Offscreen 1)) \<noteq> -1"
  "Vision \<in> set (cy_permits sample_busy)"
  "map wt_sequence (alive_waiters sample_free Vision) = [0, 1]"
  "\<not> is_active (cy_state sample_free) Vision"
  by code_simp+

lemma sample_busy_reachable: "cuda_reachable 64 sample_busy"
  unfolding sample_busy_def
  by (intro sample_step_reachable cuda_reachable.start sample_sequences)

lemma sample_free_reachable: "cuda_reachable 64 sample_free"
  unfolding sample_free_def
  by (rule cuda_reachable.step [OF sample_busy_reachable cuda_step.released [OF sample_sequences(4)]])

section \<open>The properties\<close>

text \<open>Claim C32: in every reachable state at most one vision phase and one language phase hold a
  permit, exactly when their lane is marked active, the queue keeps its bound, and every waiter
  belongs to a task that is still inside \<open>acquire\<close>, so no abandoned waiter blocks a lane.
\<close>

theorem cuda_lanes_exclusive:
  assumes "cuda_reachable capacity y"
  shows "(\<forall>w. count (mset (cy_permits y)) w = (if is_active (cy_state y) w then 1 else 0))
    \<and> length (ss_waiters (cy_state y)) \<le> capacity
    \<and> (\<forall>v \<in> set (ss_waiters (cy_state y)). (wt_sequence v, wt_workload v, wt_cancel v) \<in> set (cy_waiting y))"
  using cuda_reachable_ok [OF assms] unfolding cuda_ok_def by blast

theorem cuda_lanes_exclusive_witness:
  "count (mset (cy_permits sample_busy)) Vision \<le> 1 \<and> Vision \<in> set (cy_permits sample_busy)"
  using cuda_lanes_exclusive [OF sample_busy_reachable] sample_sequences(4) by (simp split: if_splits)

text \<open>When a lane is free and waiters that are not cancelled are queued for it, one of the
  waiting tasks is granted the lane at its next turn: the one of the highest priority and, among
  those, the one that came first. The turn of any other task does not take the lane.
\<close>

theorem free_lane_goes_to_first_waiter:
  assumes "cuda_reachable capacity y" "\<not> is_active (cy_state y) w" "alive_waiters y w \<noteq> []"
  shows "\<exists>v \<in> set (alive_waiters y w).
    (\<forall>u \<in> set (alive_waiters y w). u = v \<or> waits_before v u)
    \<and> (wt_sequence v, w, wt_cancel v) \<in> set (cy_waiting y)
    \<and> snd (acquire_turn (cy_raised y) w (wt_cancel v) (wt_sequence v) (cy_state y)) = Some Granted
    \<and> (\<forall>n flag. n \<noteq> wt_sequence v \<longrightarrow> snd (acquire_turn (cy_raised y) w flag n (cy_state y)) \<noteq> Some Granted)"
proof -
  have ok: "cuda_ok capacity y" by (rule cuda_reachable_ok [OF assms(1)])
  obtain v where v: "first_waiter (alive_waiters y w) = Some v"
    using assms(3) by (cases "first_waiter (alive_waiters y w)") auto
  have mem: "v \<in> set (alive_waiters y w)" by (rule first_waiter_in [OF v])
  have dist: "inj_on wt_sequence (set (ss_waiters (cy_state y)))"
    using ok by (simp add: cuda_ok_def distinct_map)
  have "u = v \<or> waits_before v u" if u: "u \<in> set (alive_waiters y w)" for u
  proof (cases "wait_key v = wait_key u")
    case True
    then have "wt_sequence u = wt_sequence v" using wait_key_eq by metis
    then have "u = v" using dist u mem by (auto simp: alive_waiters_def dest: inj_onD)
    then show ?thesis ..
  next
    case False
    then show ?thesis using first_waiter_least [OF v u] by (simp add: waits_before_key)
  qed
  moreover have "(wt_sequence v, w, wt_cancel v) \<in> set (cy_waiting y)"
    using ok mem by (auto simp: cuda_ok_def alive_waiters_def)
  moreover have "snd (acquire_turn (cy_raised y) w (wt_cancel v) (wt_sequence v) (cy_state y)) = Some Granted"
    using mem assms(2) v by (simp add: acquire_turn_def next_waiter_alive alive_waiters_def)
  moreover have "snd (acquire_turn (cy_raised y) w flag n (cy_state y)) \<noteq> Some Granted"
    if "n \<noteq> wt_sequence v" for n flag
    using that v by (simp add: acquire_turn_def next_waiter_alive Let_def)
  ultimately show ?thesis using mem by blast
qed

theorem free_lane_goes_to_first_waiter_witness:
  "\<exists>v \<in> set (alive_waiters sample_free Vision).
    snd (acquire_turn (cy_raised sample_free) Vision (wt_cancel v) (wt_sequence v) (cy_state sample_free)) = Some Granted"
  using free_lane_goes_to_first_waiter [OF sample_free_reachable sample_sequences(6)] sample_sequences(5) by auto

end
