(* ===== verification/Replay_Law.thy ===== *)
theory Replay_Law
  imports Prelude
begin

text \<open>
  The contract of a log that a client catches up with: its entries carry ascending numbers, and a
  replay after a number is a run of the entries behind it, empty only when there are none. The
  update log of a browser job and the event bus of the desktop application both offer it.
\<close>

text \<open>A client that replays from its last number on until nothing comes back.\<close>

fun catch_up :: "('q \<Rightarrow> 'e list) \<Rightarrow> ('e \<Rightarrow> 'q) \<Rightarrow> nat \<Rightarrow> 'q \<Rightarrow> 'e list" where
  "catch_up fetch number 0 after = []"
| "catch_up fetch number (Suc rounds) after =
     (let es = fetch after in if es = [] then [] else es @ catch_up fetch number rounds (number (last es)))"

text \<open>The entries behind a number.\<close>

definition behind :: "('e \<Rightarrow> 'q :: linorder) \<Rightarrow> 'e list \<Rightarrow> 'q \<Rightarrow> 'e list" where
  "behind number es after = filter (\<lambda>e. after < number e) es"

lemma filter_after_take:
  fixes number :: "'e \<Rightarrow> 'q :: linorder"
  assumes "sorted_wrt (<) (map number es)" "k < length es"
  shows "filter (\<lambda>e. number (es ! k) < number e) es = drop (Suc k) es"
proof -
  have es: "es = take (Suc k) es @ drop (Suc k) es" by simp
  have "filter (\<lambda>e. number (es ! k) < number e) (take (Suc k) es) = []"
  proof (rule filter_False, clarify)
    fix e assume "e \<in> set (take (Suc k) es)" "number (es ! k) < number e"
    then obtain i where "i \<le> k" "e = es ! i" by (auto simp: in_set_conv_nth less_Suc_eq_le)
    moreover from assms have "i < k \<Longrightarrow> number (es ! i) < number (es ! k)"
      by (auto simp: sorted_wrt_iff_nth_less)
    ultimately show False using \<open>number (es ! k) < number e\<close> by (cases "i = k") auto
  qed
  moreover have "filter (\<lambda>e. number (es ! k) < number e) (drop (Suc k) es) = drop (Suc k) es"
  proof (rule filter_True, clarify)
    fix e assume "e \<in> set (drop (Suc k) es)"
    then obtain i where "i < length es - Suc k" "e = drop (Suc k) es ! i"
      by (auto simp: in_set_conv_nth)
    then show "number (es ! k) < number e"
      using assms by (auto simp: sorted_wrt_iff_nth_less)
  qed
  ultimately show ?thesis by (metis es filter_append append_Nil)
qed

locale replayable =
  fixes ok :: "'s \<Rightarrow> bool" and entries :: "'s \<Rightarrow> 'e list" and number :: "'e \<Rightarrow> 'q :: linorder"
    and replay :: "'s \<Rightarrow> 'q \<Rightarrow> 'e list"
  assumes ascending: "ok s \<Longrightarrow> sorted_wrt (<) (map number (entries s))"
    and replay_run: "ok s \<Longrightarrow> \<exists>k. replay s after = take k (behind number (entries s) after)"
    and replay_progress: "ok s \<Longrightarrow> replay s after = [] \<Longrightarrow> behind number (entries s) after = []"
begin

lemma behind_ascending: "ok s \<Longrightarrow> sorted_wrt (<) (map number (behind number (entries s) after))"
  unfolding behind_def sorted_wrt_map by (rule sorted_wrt_filter) (simp add: ascending flip: sorted_wrt_map)

lemma replay_in_order: "ok s \<Longrightarrow> sorted_wrt (<) (map number (replay s after))"
  using replay_run [of s after] behind_ascending [of s after]
  by (auto simp flip: take_map intro: sorted_wrt_take)

lemma replayed_is_new: "ok s \<Longrightarrow> e \<in> set (replay s after) \<Longrightarrow> after < number e \<and> e \<in> set (entries s)"
  using replay_run [of s after] by (auto simp: behind_def dest!: in_set_takeD)

lemma resume:
  assumes "ok s" "replay s after \<noteq> []"
  shows "behind number (entries s) after = replay s after @ behind number (entries s) (number (last (replay s after)))"
proof -
  obtain j where j: "replay s after = take j (behind number (entries s) after)"
    using replay_run [OF assms(1)] by blast
  define k where "k = length (replay s after) - 1"
  have len: "length (replay s after) = Suc k" using assms(2) by (simp add: k_def)
  have run: "replay s after = take (Suc k) (behind number (entries s) after)"
    using j len by (metis length_take min.absorb_iff2 nat_le_linear take_all)
  have k: "k < length (behind number (entries s) after)" using run len by (metis Suc_le_eq length_take min.cobounded1)
  have last: "last (replay s after) = behind number (entries s) after ! k"
    using assms(2) len k by (simp add: run last_conv_nth)
  have "after < number (last (replay s after))"
    using replayed_is_new [OF assms(1)] assms(2) last_in_set by blast
  then have "behind number (entries s) (number (last (replay s after)))
      = filter (\<lambda>e. number (last (replay s after)) < number e) (behind number (entries s) after)"
    by (auto simp: behind_def intro: filter_cong)
  also have "\<dots> = drop (Suc k) (behind number (entries s) after)"
    unfolding last by (rule filter_after_take [OF behind_ascending [OF assms(1)] k])
  finally show ?thesis using run by (metis append_take_drop_id)
qed

text \<open>Catching up gives every entry behind the number once and in order.\<close>

lemma catch_up_complete:
  assumes "ok s" "length (behind number (entries s) after) \<le> rounds"
  shows "catch_up (replay s) number rounds after = behind number (entries s) after"
  using assms(2)
proof (induction rounds arbitrary: after)
  case (Suc rounds)
  show ?case
  proof (cases "replay s after = []")
    case True
    then show ?thesis using replay_progress [OF assms(1)] by (simp add: behind_def)
  next
    case False
    then have "length (replay s after) \<ge> 1" by (simp add: Suc_le_eq)
    then have "length (behind number (entries s) (number (last (replay s after)))) \<le> rounds"
      using arg_cong [OF resume [OF assms(1) False], of length] Suc.prems by simp
    then have "catch_up (replay s) number rounds (number (last (replay s after)))
        = behind number (entries s) (number (last (replay s after)))" by (rule Suc.IH)
    then show ?thesis using False resume [OF assms(1) False] by (simp add: Let_def)
  qed
qed simp

end

end
