(* ===== verification/Event_Bus.thy ===== *)
theory Event_Bus
  imports Replay_Law Job_Props
begin

text \<open>
  The event bus behind the SSE stream of the desktop application (\<open>koharu-app/src/bus.rs\<close>): the
  atomic counter, the bounded ring and the replay for a client that reconnects. A publication
  draws its number before it takes the lock of the ring, so the two are separate steps here and
  the publications of several threads interleave. The broadcast channel to the live subscribers
  is \<open>tokio\<close>'s and is not modelled.
\<close>

section \<open>The bus\<close>

record 'event sequenced_event =
  se_seq :: u64
  se_event :: 'event

record 'event event_bus =
  eb_next_seq :: u64
  eb_capacity :: nat
  eb_history :: "'event sequenced_event list"

text \<open>\<open>new\<close> panics on a capacity of zero.\<close>

definition new_bus :: "nat \<Rightarrow> 'event event_bus option" where
  "new_bus capacity = (if 0 < capacity then Some \<lparr>eb_next_seq = 0, eb_capacity = capacity, eb_history = []\<rparr> else None)"

definition draw_seq :: "'event \<Rightarrow> 'event event_bus \<Rightarrow> 'event sequenced_event \<times> 'event event_bus" where
  "draw_seq e b = (\<lparr>se_seq = eb_next_seq b, se_event = e\<rparr>, b\<lparr>eb_next_seq := eb_next_seq b + 1\<rparr>)"

definition push_event :: "'event sequenced_event \<Rightarrow> 'event event_bus \<Rightarrow> 'event event_bus" where
  "push_event sev b = b\<lparr>eb_history :=
     (if length (eb_history b) = eb_capacity b then tl (eb_history b) else eb_history b) @ [sev]\<rparr>"

definition publish_event :: "'event \<Rightarrow> 'event event_bus \<Rightarrow> u64 \<times> 'event event_bus" where
  "publish_event e b = (let (sev, b') = draw_seq e b in (se_seq sev, push_event sev b'))"

definition replay_since :: "'event event_bus \<Rightarrow> u64 \<Rightarrow> 'event sequenced_event list" where
  "replay_since b after = filter (\<lambda>e. after < se_seq e) (eb_history b)"

definition latest_seq :: "'event event_bus \<Rightarrow> u64 option" where
  "latest_seq b = (if eb_next_seq b = 0 then None else Some (eb_next_seq b - 1))"

definition buffered :: "'event event_bus \<Rightarrow> nat" where
  "buffered b = length (eb_history b)"

section \<open>Interleaved publications\<close>

text \<open>A bus with the events whose number is drawn and that are not in the ring yet.\<close>

type_synonym 'event bus_run = "'event event_bus \<times> 'event sequenced_event list"

inductive bus_reach :: "nat \<Rightarrow> 'event list \<Rightarrow> 'event bus_run \<Rightarrow> bool" for capacity where
  start: "new_bus capacity = Some b \<Longrightarrow> bus_reach capacity [] (b, [])"
| draw: "bus_reach capacity es (b, pending) \<Longrightarrow> draw_seq e b = (sev, b')
    \<Longrightarrow> bus_reach capacity (es @ [e]) (b', sev # pending)"
| push: "bus_reach capacity es (b, pending) \<Longrightarrow> sev \<in> set pending
    \<Longrightarrow> bus_reach capacity es (push_event sev b, remove1 sev pending)"

text \<open>The events under the numbers they are given.\<close>

definition numbered :: "'event list \<Rightarrow> 'event sequenced_event list" where
  "numbered es = map2 (\<lambda>n e. \<lparr>se_seq = of_nat n, se_event = e\<rparr>) [0..<length es] es"

lemma length_numbered [simp]: "length (numbered es) = length es"
  by (simp add: numbered_def)

lemma numbered_append: "numbered (es @ [e]) = numbered es @ [\<lparr>se_seq = of_nat (length es), se_event = e\<rparr>]"
  by (simp add: numbered_def)

lemma seq_numbered: "map se_seq (numbered es) = map of_nat [0..<length es]"
  by (rule nth_equalityI) (auto simp: numbered_def)

lemma bus_reach_invariant:
  assumes "bus_reach capacity es (b, pending)"
  shows "0 < capacity \<and> eb_capacity b = capacity \<and> eb_next_seq b = of_nat (length es)
    \<and> length (eb_history b) \<le> capacity
    \<and> mset (eb_history b) + mset pending \<subseteq># mset (numbered es)"
  using assms
proof (induction es "(b, pending)" arbitrary: b pending rule: bus_reach.induct)
  case (start b)
  then show ?case by (auto simp: new_bus_def numbered_def split: if_splits)
next
  case (draw es b pending e sev b')
  then show ?case by (auto simp: draw_seq_def numbered_append)
next
  case (push es b pending sev)
  let ?h = "if length (eb_history b) = eb_capacity b then tl (eb_history b) else eb_history b"
  have "mset ?h \<subseteq># mset (eb_history b)"
    by (cases "eb_history b") auto
  then have "mset ?h + mset pending \<subseteq># mset (numbered es)"
    using push(2) by (meson mset_subset_eq_mono_add_right_cancel subset_mset.order_trans)
  moreover have "add_mset sev (mset (remove1 sev pending)) = mset pending"
    using push(3) by simp
  moreover have "mset (eb_history (push_event sev b)) + mset (remove1 sev pending)
      = mset ?h + add_mset sev (mset (remove1 sev pending))"
    by (simp add: push_event_def)
  ultimately have "mset (eb_history (push_event sev b)) + mset (remove1 sev pending) \<subseteq># mset (numbered es)"
    by (simp only:)
  moreover have "length (eb_history (push_event sev b)) \<le> capacity"
    using push(2) by (auto simp: push_event_def)
  ultimately show ?case using push(2) by (simp add: push_event_def)
qed

lemma distinct_seq_numbered: "length es \<le> 2 ^ 64 \<Longrightarrow> distinct (map se_seq (numbered es))"
proof -
  assume n: "length es \<le> 2 ^ 64"
  have "inj_on (of_nat :: nat \<Rightarrow> u64) {0..<length es}"
    by (rule inj_onI) (use n in \<open>simp add: word_unat_eq_iff unat_of_nat\<close>)
  then show ?thesis by (simp add: seq_numbered distinct_map)
qed

lemma distinct_submset: "mset xs \<subseteq># mset ys \<Longrightarrow> distinct ys \<Longrightarrow> distinct xs"
proof -
  assume sub: "mset xs \<subseteq># mset ys" and d: "distinct ys"
  have "count (mset xs) x \<le> 1" for x
  proof -
    have "count (mset xs) x \<le> count (mset ys) x" using sub by (rule mset_subset_eq_count)
    also have "\<dots> \<le> 1" using d by (auto simp: distinct_count_atmost_1)
    finally show ?thesis .
  qed
  then have "count (mset xs) x = (if x \<in> set xs then 1 else 0)" for x
    by (metis count_eq_zero_iff le_neq_implies_less less_one set_mset_mset)
  then show "distinct xs" by (simp add: distinct_count_atmost_1)
qed

text \<open>However the publications of several threads interleave, no number is used twice
  among the events in the ring and those on their way to it, every one of them is an event that
  was published, the ring holds at most as many events as its capacity, and the latest number is
  that of the last event that drew one.\<close>

theorem event_numbers_unique:
  assumes "bus_reach capacity es (b, pending)" "length es < 2 ^ 64"
  shows "distinct (map se_seq (eb_history b @ pending)) \<and> buffered b \<le> capacity
    \<and> set (map se_event (eb_history b @ pending)) \<subseteq> set es
    \<and> latest_seq b = (if es = [] then None else Some (of_nat (length es - 1)))"
proof -
  note inv = bus_reach_invariant [OF assms(1)]
  have sub: "mset (eb_history b @ pending) \<subseteq># mset (numbered es)" using inv by simp
  have "mset (map se_seq (eb_history b @ pending)) \<subseteq># mset (map se_seq (numbered es))"
    unfolding mset_map by (rule image_mset_subseteq_mono [OF sub])
  moreover have "distinct (map se_seq (numbered es))"
    using distinct_seq_numbered [of es] assms(2) by simp
  ultimately have "distinct (map se_seq (eb_history b @ pending))"
    by (rule distinct_submset)
  moreover have "set (map se_event (eb_history b @ pending)) \<subseteq> set es"
    using set_mset_mono [OF sub] by (force simp: numbered_def set_zip)
  moreover have "of_nat (length es) = (0 :: u64) \<longleftrightarrow> es = []"
    using assms(2) by (auto simp: word_unat_eq_iff unat_of_nat)
  moreover have "es \<noteq> [] \<Longrightarrow> of_nat (length es) - 1 = (of_nat (length es - 1) :: u64)"
    by (cases es) simp_all
  ultimately show ?thesis using inv by (auto simp: latest_seq_def buffered_def)
qed

section \<open>One publisher at a time\<close>

text \<open>When the publications do not overlap the ring is in order: the last events of the sequence.\<close>

definition in_order :: "'event event_bus \<Rightarrow> bool" where
  "in_order b \<longleftrightarrow> sorted_wrt (<) (map se_seq (eb_history b))"

definition publish_all :: "'event list \<Rightarrow> 'event event_bus \<Rightarrow> 'event event_bus" where
  "publish_all es b = fold (\<lambda>e b. snd (publish_event e b)) es b"

lemma publish_all_append: "publish_all (es @ [e]) b = snd (publish_event e (publish_all es b))"
  by (simp add: publish_all_def)

lemma publish_all_history:
  assumes "new_bus capacity = Some b"
  shows "eb_capacity (publish_all es b) = capacity \<and> eb_next_seq (publish_all es b) = of_nat (length es)
    \<and> eb_history (publish_all es b) = drop (length es - capacity) (numbered es)"
proof (induction es rule: rev_induct)
  case Nil
  then show ?case using assms by (auto simp: new_bus_def numbered_def publish_all_def split: if_splits)
next
  case (snoc e es)
  have "0 < capacity" using assms by (auto simp: new_bus_def split: if_splits)
  then have "(if length es - (length es - capacity) = capacity then tl (drop (length es - capacity) (numbered es))
      else drop (length es - capacity) (numbered es)) = drop (Suc (length es) - capacity) (numbered es)"
    by (auto simp: tl_drop Suc_diff_le drop_Suc simp flip: drop_Suc split: if_splits)
  moreover have "drop (Suc 0 - capacity) [\<lparr>se_seq = of_nat (length es), se_event = e\<rparr>] = [\<lparr>se_seq = of_nat (length es), se_event = e\<rparr>]"
    using \<open>0 < capacity\<close> by simp
  moreover have "drop (Suc (length es) - capacity) (numbered (es @ [e]))
      = drop (Suc (length es) - capacity) (numbered es) @ [\<lparr>se_seq = of_nat (length es), se_event = e\<rparr>]"
    using \<open>0 < capacity\<close> by (simp add: numbered_append)
  ultimately show ?case
    using snoc by (auto simp: publish_all_append publish_event_def draw_seq_def push_event_def Let_def)
qed

interpretation bus: replayable in_order eb_history se_seq replay_since
proof
  fix b :: "'a event_bus" and after
  have "replay_since b after = take (length (eb_history b)) (behind se_seq (eb_history b) after)"
    by (simp add: replay_since_def behind_def)
  then show "\<exists>k. replay_since b after = take k (behind se_seq (eb_history b) after)" ..
qed (simp_all add: in_order_def replay_since_def behind_def)

text \<open>The update log of a browser job keeps the same contract, with answers of bounded length.\<close>

interpretation job_updates: replayable "update_log_ok kind" jl_updates update_sequence "\<lambda>l after. rs_updates (replay_after l after)"
  for kind
proof
  fix l after assume ok: "update_log_ok kind l"
  have "map update_sequence (jl_updates l) = map of_nat [1..<Suc (length (jl_updates l))]"
    "length (jl_updates l) \<le> 10001"
    using update_log_okD(1,2) [OF ok] by simp_all
  moreover have "sorted_wrt (<) (map (of_nat :: nat \<Rightarrow> u64) [1..<Suc n])" if "n \<le> 10001" for n
    unfolding sorted_wrt_map
    by (rule sorted_wrt_mono_rel [OF _ sorted_wrt_upt]) (use that in \<open>auto simp: word_less_nat_alt unat_of_nat\<close>)
  ultimately show "sorted_wrt (<) (map update_sequence (jl_updates l))" by simp
  show "\<exists>k. rs_updates (replay_after l after) = take k (behind update_sequence (jl_updates l) after)"
    by (auto simp: replay_after_def behind_def)
  show "rs_updates (replay_after l after) = [] \<Longrightarrow> behind update_sequence (jl_updates l) after = []"
    by (simp add: replay_after_def behind_def MAX_REPLAY_UPDATES_def)
qed

lemma sorted_numbered: "length es \<le> 2 ^ 64 \<Longrightarrow> sorted_wrt (<) (map se_seq (numbered es))"
  by (auto simp: seq_numbered sorted_wrt_map sorted_wrt_iff_nth_less word_less_nat_alt unat_of_nat)

text \<open>While publications do not overlap the ring holds the last events up to its
  capacity, under consecutive numbers; a client that reconnects with the number of an event still
  in the ring, or of the one right before it, is handed every later event once and in order.\<close>

theorem reconnecting_client_misses_nothing:
  assumes "new_bus capacity = Some b" "length es < 2 ^ 64"
    and "n < length es" "length es \<le> Suc n + capacity"
  shows "map se_event (replay_since (publish_all es b) (of_nat n)) = drop (Suc n) es
    \<and> catch_up (replay_since (publish_all es b)) se_seq capacity (of_nat n)
        = replay_since (publish_all es b) (of_nat n)"
proof -
  let ?b = "publish_all es b"
  have history: "eb_history ?b = drop (length es - capacity) (numbered es)"
    using publish_all_history [OF assms(1)] by blast
  have sorted: "sorted_wrt (<) (map se_seq (numbered es))" by (rule sorted_numbered [OF less_imp_le [OF assms(2)]])
  then have ok: "in_order ?b"
    unfolding in_order_def history by (simp flip: drop_map add: sorted_wrt_drop)
  have n: "se_seq (numbered es ! n) = of_nat n" "n < length (numbered es)"
    using assms(3) by (simp_all add: numbered_def)
  have "filter (\<lambda>e. of_nat n < se_seq e) (numbered es) = drop (Suc n) (numbered es)"
    using filter_after_take [OF sorted n(2)] n(1) by simp
  moreover have "numbered es = take (length es - capacity) (numbered es) @ eb_history ?b"
    by (simp add: history)
  moreover have "filter (\<lambda>e. of_nat n < se_seq e) (take (length es - capacity) (numbered es)) = []"
  proof (rule filter_False, clarify)
    fix e assume "e \<in> set (take (length es - capacity) (numbered es))" "(of_nat n :: u64) < se_seq e"
    then obtain i where "i < length es - capacity" "e = numbered es ! i" by (auto simp: in_set_conv_nth)
    moreover from this have "se_seq e = of_nat i" by (simp add: numbered_def)
    ultimately show False
      using \<open>of_nat n < se_seq e\<close> assms by (simp add: word_less_nat_alt unat_of_nat)
  qed
  ultimately have *: "replay_since ?b (of_nat n) = drop (Suc n) (numbered es)"
    unfolding replay_since_def by (metis append_Nil filter_append)
  have "map se_event (numbered es) = es"
    by (rule nth_equalityI) (auto simp: numbered_def)
  then have "map se_event (replay_since ?b (of_nat n)) = drop (Suc n) es"
    by (simp add: * flip: drop_map)
  moreover have "length (behind se_seq (eb_history ?b) (of_nat n)) \<le> capacity"
    using * assms(4) by (simp add: behind_def replay_since_def)
  then have "catch_up (replay_since ?b) se_seq capacity (of_nat n) = behind se_seq (eb_history ?b) (of_nat n)"
    by (rule bus.catch_up_complete [OF ok])
  ultimately show ?thesis by (simp add: behind_def replay_since_def)
qed

theorem reconnecting_client_misses_nothing_witness:
  "map se_event (replay_since (publish_all ''abcde'' \<lparr>eb_next_seq = 0, eb_capacity = 2, eb_history = []\<rparr>) (of_nat 2)) = drop (Suc 2) ''abcde''
    \<and> catch_up (replay_since (publish_all ''abcde'' \<lparr>eb_next_seq = 0, eb_capacity = 2, eb_history = []\<rparr>)) se_seq 2 (of_nat 2)
        = replay_since (publish_all ''abcde'' \<lparr>eb_next_seq = 0, eb_capacity = 2, eb_history = []\<rparr>) (of_nat 2)"
  by (rule reconnecting_client_misses_nothing) (simp_all add: new_bus_def)

section \<open>Two publishers\<close>

definition race_bus :: "char event_bus" where
  "race_bus = \<lparr>eb_next_seq = 0, eb_capacity = 1, eb_history = []\<rparr>"

lemma race_run:
  "bus_reach 1 ''ab'' (race_bus\<lparr>eb_next_seq := 2, eb_history := [\<lparr>se_seq = 0, se_event = CHR ''a''\<rparr>]\<rparr>, [])"
proof -
  let ?a = "\<lparr>se_seq = 0, se_event = CHR ''a''\<rparr> :: char sequenced_event"
  let ?b = "\<lparr>se_seq = 1, se_event = CHR ''b''\<rparr> :: char sequenced_event"
  have "bus_reach 1 [] (race_bus, [])" by (rule bus_reach.start) (simp add: new_bus_def race_bus_def)
  from bus_reach.draw [OF this, of "CHR ''a''" ?a "race_bus\<lparr>eb_next_seq := 1\<rparr>"]
  have "bus_reach 1 ''a'' (race_bus\<lparr>eb_next_seq := 1\<rparr>, [?a])" by (simp add: draw_seq_def race_bus_def)
  from bus_reach.draw [OF this, of "CHR ''b''" ?b "race_bus\<lparr>eb_next_seq := 2\<rparr>"]
  have "bus_reach 1 ''ab'' (race_bus\<lparr>eb_next_seq := 2\<rparr>, [?b, ?a])" by (simp add: draw_seq_def race_bus_def)
  from bus_reach.push [OF this, of ?b]
  have "bus_reach 1 ''ab'' (race_bus\<lparr>eb_next_seq := 2, eb_history := [?b]\<rparr>, [?a])"
    by (simp add: push_event_def race_bus_def)
  from bus_reach.push [OF this, of ?a]
  show ?thesis by (simp add: push_event_def race_bus_def)
qed

text \<open>When a thread that drew its number first reaches the ring last, the ring evicts
  the newer event and keeps the older one: nothing is pending, the latest number is 1, the ring
  is full, and a client that has seen number 0 is handed nothing.\<close>

theorem late_publisher_evicts_newer_event:
  "\<exists>b :: char event_bus. bus_reach 1 ''ab'' (b, []) \<and> latest_seq b = Some 1
     \<and> map se_seq (eb_history b) = [0] \<and> replay_since b 0 = []"
  by (rule exI, rule conjI [OF race_run]) (simp add: race_bus_def latest_seq_def replay_since_def)

theorem event_numbers_unique_witness:
  "distinct (map se_seq (eb_history (race_bus\<lparr>eb_next_seq := 2, eb_history := [\<lparr>se_seq = 0, se_event = CHR ''a''\<rparr>]\<rparr>) @ []))
    \<and> buffered (race_bus\<lparr>eb_next_seq := 2, eb_history := [\<lparr>se_seq = 0, se_event = CHR ''a''\<rparr>]\<rparr>) \<le> 1
    \<and> set (map se_event (eb_history (race_bus\<lparr>eb_next_seq := 2, eb_history := [\<lparr>se_seq = 0, se_event = CHR ''a''\<rparr>]\<rparr>) @ [])) \<subseteq> set ''ab''
    \<and> latest_seq (race_bus\<lparr>eb_next_seq := 2, eb_history := [\<lparr>se_seq = 0, se_event = CHR ''a''\<rparr>]\<rparr>)
        = (if ''ab'' = [] then None else Some (of_nat (length ''ab'' - 1)))"
  by (rule event_numbers_unique [OF race_run]) simp

end
