(* ===== verification/Native_Framing.thy ===== *)
theory Native_Framing
  imports Byte_Codec "HOL-Library.Code_Target_Nat"
begin

text \<open>
  The native-messaging frames between Firefox and the launcher
  (\<open>browser-companion/src/native_framing.rs\<close>): a little-endian length and a JSON text of bounded
  size. Reading returns what is left of the stream; JSON is a parameter.
\<close>

definition MAX_NATIVE_REQUEST_BYTES :: nat where "MAX_NATIVE_REQUEST_BYTES = 64 * 1024"
definition MAX_NATIVE_RESPONSE_BYTES :: nat where "MAX_NATIVE_RESPONSE_BYTES = 64 * 1024"

datatype native_frame_error = FrameIo | FrameTooLarge nat nat | FrameEmpty | FrameJson

definition read_native_frame ::
  "(u8 list \<Rightarrow> 'a option) \<Rightarrow> u8 list \<Rightarrow> (native_frame_error + 'a) \<times> u8 list" where
  "read_native_frame from_slice stream =
     (case read_exact 4 stream of
        None \<Rightarrow> (Err FrameIo, [])
      | Some (size_bytes, stream) \<Rightarrow>
          let len = unat (u32_from_le_bytes size_bytes) in
          if len = 0 then (Err FrameEmpty, stream)
          else if MAX_NATIVE_REQUEST_BYTES < len then (Err (FrameTooLarge len MAX_NATIVE_REQUEST_BYTES), stream)
          else (case read_exact len stream of
              None \<Rightarrow> (Err FrameIo, [])
            | Some (payload, stream) \<Rightarrow>
                ((case from_slice payload of None \<Rightarrow> Err FrameJson | Some v \<Rightarrow> Ok v), stream)))"

definition write_native_frame ::
  "('a \<Rightarrow> u8 list option) \<Rightarrow> u8 list \<Rightarrow> 'a \<Rightarrow> (native_frame_error + unit) \<times> u8 list" where
  "write_native_frame to_vec out v =
     (case to_vec v of
        None \<Rightarrow> (Err FrameJson, out)
      | Some payload \<Rightarrow>
          if payload = [] then (Err FrameEmpty, out)
          else if MAX_NATIVE_RESPONSE_BYTES < length payload
            then (Err (FrameTooLarge (length payload) MAX_NATIVE_RESPONSE_BYTES), out)
          else (Ok (), out @ u32_to_le_bytes (of_nat (length payload)) @ payload))"

text \<open>A frame that is written is read back as the same message, whatever follows it in
  the stream, and the reader stops at its end; a writer that refuses a message writes nothing.\<close>

theorem native_frame_roundtrip:
  assumes "\<And>v bytes. to_vec v = Some bytes \<Longrightarrow> from_slice bytes = Some v"
    and "write_native_frame to_vec out v = (res, out')"
  shows "case res of
      Ok _ \<Rightarrow> (\<exists>frame. out' = out @ frame \<and> length frame \<le> 4 + 64 * 1024
        \<and> (\<forall>rest. read_native_frame from_slice (frame @ rest) = (Ok v, rest)))
    | Err e \<Rightarrow> out' = out"
proof (cases res)
  case (Inl e)
  then show ?thesis
    using assms(2) by (auto simp: write_native_frame_def split: option.splits if_splits)
next
  case (Inr u)
  then obtain payload where p: "to_vec v = Some payload" "payload \<noteq> []" "length payload \<le> 64 * 1024"
      "out' = out @ u32_to_le_bytes (of_nat (length payload)) @ payload"
    using assms(2)
    by (auto simp: write_native_frame_def MAX_NATIVE_RESPONSE_BYTES_def split: option.splits if_splits)
  let ?frame = "u32_to_le_bytes (of_nat (length payload)) @ payload"
  have "unat (of_nat (length payload) :: u32) = length payload"
    using p(3) by (simp add: unat_of_nat)
  then have "read_native_frame from_slice (?frame @ rest) = (Ok v, rest)" for rest
    using p assms(1) by (simp add: read_native_frame_def MAX_NATIVE_REQUEST_BYTES_def Let_def)
  then show ?thesis using Inr p by auto
qed

theorem native_frame_roundtrip_witness:
  "case Inr () of
      Ok _ \<Rightarrow> (\<exists>frame. [5, 0, 0, 0, 34, 111, 107, 33, 34 :: u8] = [] @ frame \<and> length frame \<le> 4 + 64 * 1024
        \<and> (\<forall>rest. read_native_frame Some (frame @ rest) = (Ok [34, 111, 107, 33, 34], rest)))
    | Err (e :: native_frame_error) \<Rightarrow> [5, 0, 0, 0, 34, 111, 107, 33, 34 :: u8] = []"
  by (rule native_frame_roundtrip [where to_vec = Some]) (simp, code_simp)

text \<open>An oversized length is refused with only the prefix consumed, before any payload is read.\<close>

lemma oversized_frame_refused:
  assumes "length size_bytes = 4" "MAX_NATIVE_REQUEST_BYTES < unat (u32_from_le_bytes size_bytes)"
  shows "read_native_frame from_slice (size_bytes @ rest)
    = (Err (FrameTooLarge (unat (u32_from_le_bytes size_bytes)) MAX_NATIVE_REQUEST_BYTES), rest)"
  using assms by (simp add: read_native_frame_def Let_def MAX_NATIVE_REQUEST_BYTES_def)

end
