(* ===== verification/Decoded_Cache.thy ===== *)
theory Decoded_Cache
  imports Job_Storage "HOL-Library.Code_Target_Nat"
begin

text \<open>
  The cache of decoded images (\<open>browser-companion/src/decoded_cache.rs\<close>): entries with the time
  of their last use on a saturating clock, dropped_entries by least recent use until the retained bytes
  fit. The sums of bytes saturate like those of the storage.
\<close>

record cache_entry =
  ce_image :: decoded_image
  ce_bytes :: nat
  ce_last_used :: u64

record decoded_image_cache =
  dc_entries :: "(rstring \<times> cache_entry) list"
  dc_retained_bytes :: nat
  dc_max_bytes :: nat
  dc_clock :: u64

definition DECODED_IMAGE_CACHE_MAX_BYTES :: nat where
  "DECODED_IMAGE_CACHE_MAX_BYTES = 512 * 1024 * 1024"

definition new_cache :: "nat \<Rightarrow> decoded_image_cache" where
  "new_cache max_bytes = \<lparr>dc_entries = [], dc_retained_bytes = 0, dc_max_bytes = max_bytes, dc_clock = 0\<rparr>"

definition cache_get :: "rstring \<Rightarrow> decoded_image_cache \<Rightarrow> decoded_image option \<times> decoded_image_cache" where
  "cache_get key c =
     (let c = c\<lparr>dc_clock := sat_succ (dc_clock c)\<rparr>
      in (case im_get (dc_entries c) key of
            None \<Rightarrow> (None, c)
          | Some e \<Rightarrow> (Some (ce_image e),
              c\<lparr>dc_entries := im_set (dc_entries c) key (e\<lparr>ce_last_used := dc_clock c\<rparr>)\<rparr>)))"

definition remove_entry :: "rstring \<Rightarrow> decoded_image_cache \<Rightarrow> decoded_image_cache" where
  "remove_entry key c =
     (case im_get (dc_entries c) key of
        None \<Rightarrow> c
      | Some e \<Rightarrow> c\<lparr>dc_entries := filter (\<lambda>x. fst x \<noteq> key) (dc_entries c),
          dc_retained_bytes := dc_retained_bytes c - ce_bytes e\<rparr>)"

fun least_used :: "(rstring \<times> cache_entry) list \<Rightarrow> (rstring \<times> cache_entry) option" where
  "least_used [] = None"
| "least_used (x # xs) = (case least_used xs of
       None \<Rightarrow> Some x
     | Some y \<Rightarrow> Some (if ce_last_used (snd y) < ce_last_used (snd x) then y else x))"

lemma least_used_in: "least_used xs = Some x \<Longrightarrow> x \<in> set xs"
  by (induction xs arbitrary: x) (auto split: option.splits if_splits)

lemma least_used_None [simp]: "least_used xs = None \<longleftrightarrow> xs = []"
  by (cases xs) (auto split: option.splits)

lemma least_used_le: "least_used xs = Some x \<Longrightarrow> y \<in> set xs \<Longrightarrow> ce_last_used (snd x) \<le> ce_last_used (snd y)"
  by (induction xs arbitrary: x) (fastforce split: option.splits if_splits)+

lemma im_get_filter_length:
  "(k, e) \<in> set m \<Longrightarrow> length (filter (\<lambda>x. fst x \<noteq> k) m) < length m"
  by (rule length_filter_less [of "(k, e)"]) simp_all

lemma remove_least_shrinks [termination_simp]:
  "least_used (dc_entries c) = Some (k, e) \<Longrightarrow> length (dc_entries (remove_entry k c)) < length (dc_entries c)"
  using least_used_in [of "dc_entries c" "(k, e)"] image_eqI [of k fst "(k, e)" "set (dc_entries c)"]
  by (auto simp: remove_entry_def im_get_def map_of_eq_None_iff intro: im_get_filter_length
      split: option.splits dest: weak_map_of_SomeI)

function evict_to_limit :: "decoded_image_cache \<Rightarrow> decoded_image_cache" where
  "evict_to_limit c =
     (if dc_retained_bytes c \<le> dc_max_bytes c then c
      else (case least_used (dc_entries c) of
          None \<Rightarrow> c
        | Some (k, _) \<Rightarrow> evict_to_limit (remove_entry k c)))"
  by pat_completeness auto
termination by (relation "measure (length \<circ> dc_entries)") (auto simp: remove_least_shrinks)

declare evict_to_limit.simps [simp del]

definition cache_insert :: "rstring \<Rightarrow> decoded_image \<Rightarrow> decoded_image_cache \<Rightarrow> decoded_image \<times> decoded_image_cache" where
  "cache_insert key img c =
     (let bytes = image_bytes img
      in if dc_max_bytes c < bytes then (img, c)
         else let c = c\<lparr>dc_clock := sat_succ (dc_clock c)\<rparr>;
                  c = remove_entry key c;
                  c = c\<lparr>dc_retained_bytes := saturating_add (dc_retained_bytes c) bytes,
                        dc_entries := (key, \<lparr>ce_image = img, ce_bytes = bytes, ce_last_used = dc_clock c\<rparr>) # dc_entries c\<rparr>
              in (img, evict_to_limit c))"

section \<open>The invariant\<close>

definition entry_bytes :: "(rstring \<times> cache_entry) list \<Rightarrow> nat" where
  "entry_bytes es = sum_list (map (ce_bytes \<circ> snd) es)"

text \<open>
  The retained bytes are the sum of the entries, the keys are distinct, and no entry was used
  later than the clock. A cache that is full only while \<open>evict_to_limit\<close> runs is \<open>cache_sound\<close>.
\<close>

definition cache_sound :: "decoded_image_cache \<Rightarrow> bool" where
  "cache_sound c \<longleftrightarrow> distinct (im_keys (dc_entries c)) \<and> dc_retained_bytes c = entry_bytes (dc_entries c)
     \<and> (\<forall>(k, e) \<in> set (dc_entries c). ce_bytes e = image_bytes (ce_image e) \<and> ce_last_used e \<le> dc_clock c)"

definition cache_ok :: "decoded_image_cache \<Rightarrow> bool" where
  "cache_ok c \<longleftrightarrow> cache_sound c \<and> dc_retained_bytes c \<le> dc_max_bytes c"

lemma cache_soundD:
  assumes "cache_sound c"
  shows "distinct (im_keys (dc_entries c))" "dc_retained_bytes c = entry_bytes (dc_entries c)"
    "\<And>k e. (k, e) \<in> set (dc_entries c) \<Longrightarrow> ce_bytes e = image_bytes (ce_image e) \<and> ce_last_used e \<le> dc_clock c"
  using assms by (auto simp: cache_sound_def)

lemma new_cache_ok: "cache_ok (new_cache n)"
  by (simp add: cache_ok_def cache_sound_def new_cache_def entry_bytes_def im_keys_def)

lemma entry_bytes_remove:
  assumes "distinct (im_keys m)" "(k, e) \<in> set m"
  shows "entry_bytes (filter (\<lambda>x. fst x \<noteq> k) m) = entry_bytes m - ce_bytes e"
    and "ce_bytes e \<le> entry_bytes m"
proof -
  have "entry_bytes m = entry_bytes (filter (\<lambda>x. fst x \<noteq> k) m) + ce_bytes e"
    using assms
  proof (induction m)
    case (Cons x m)
    show ?case
    proof (cases "x = (k, e)")
      case True
      then have "filter (\<lambda>x. fst x \<noteq> k) m = m"
        using Cons.prems by (intro filter_True) (force simp: im_keys_def)
      with True show ?thesis by (simp add: entry_bytes_def)
    next
      case False
      then have m: "(k, e) \<in> set m" using Cons.prems by auto
      then have "k \<in> fst ` set m" by force
      then have "fst x \<noteq> k" using Cons.prems by (auto simp: im_keys_def)
      with m Cons show ?thesis by (simp add: entry_bytes_def im_keys_def)
    qed
  qed simp
  then show "entry_bytes (filter (\<lambda>x. fst x \<noteq> k) m) = entry_bytes m - ce_bytes e" "ce_bytes e \<le> entry_bytes m"
    by simp_all
qed

lemma remove_entry_entries:
  "distinct (im_keys (dc_entries c)) \<Longrightarrow> dc_entries (remove_entry k c) = filter (\<lambda>x. fst x \<noteq> k) (dc_entries c)"
  by (auto simp: remove_entry_def im_get_def map_of_eq_None_iff split: option.splits intro!: filter_True [symmetric])

lemma remove_entry_other [simp]:
  "dc_max_bytes (remove_entry k c) = dc_max_bytes c" "dc_clock (remove_entry k c) = dc_clock c"
  by (simp_all add: remove_entry_def split: option.splits)

lemma remove_entry_sound:
  assumes "cache_sound c"
  shows "cache_sound (remove_entry k c)"
proof -
  note sound = cache_soundD [OF assms]
  have "distinct (im_keys (filter (\<lambda>x. fst x \<noteq> k) (dc_entries c)))"
    using sound(1) by (auto simp: im_keys_def distinct_map intro: inj_on_subset)
  moreover have "dc_retained_bytes (remove_entry k c) = entry_bytes (filter (\<lambda>x. fst x \<noteq> k) (dc_entries c))"
  proof (cases "im_get (dc_entries c) k")
    case None
    then have "filter (\<lambda>x. fst x \<noteq> k) (dc_entries c) = dc_entries c"
      by (auto simp: im_get_def map_of_eq_None_iff intro!: filter_True)
    with None sound(2) show ?thesis by (simp add: remove_entry_def)
  next
    case (Some e)
    then have "(k, e) \<in> set (dc_entries c)" by (simp add: im_get_def map_of_SomeD)
    with Some sound(1,2) show ?thesis by (simp add: remove_entry_def entry_bytes_remove)
  qed
  ultimately show ?thesis
    using sound(3) by (auto simp: cache_sound_def remove_entry_entries [OF sound(1)])
qed

text \<open>
  Eviction keeps the recently used: what is gone was used no later than what stays, and the
  last one to go had to.
\<close>

definition dropped_entries :: "decoded_image_cache \<Rightarrow> decoded_image_cache \<Rightarrow> (rstring \<times> cache_entry) set" where
  "dropped_entries c c' = set (dc_entries c) - set (dc_entries c')"

definition lru_eviction :: "decoded_image_cache \<Rightarrow> decoded_image_cache \<Rightarrow> bool" where
  "lru_eviction c c' \<longleftrightarrow> set (dc_entries c') \<subseteq> set (dc_entries c)
     \<and> (\<forall>x \<in> dropped_entries c c'. \<forall>y \<in> set (dc_entries c'). ce_last_used (snd x) \<le> ce_last_used (snd y))
     \<and> (dropped_entries c c' \<noteq> {} \<longrightarrow> (\<exists>x \<in> dropped_entries c c'. dc_max_bytes c < dc_retained_bytes c' + ce_bytes (snd x)
           \<and> (\<forall>z \<in> dropped_entries c c'. ce_last_used (snd z) \<le> ce_last_used (snd x))))"

lemma lru_step:
  assumes "cache_sound c" "least_used (dc_entries c) = Some (k, e)" "dc_max_bytes c < dc_retained_bytes c"
    and later: "lru_eviction (remove_entry k c) c'" "cache_sound c'"
  shows "lru_eviction c c'"
proof -
  note sound = cache_soundD [OF assms(1)]
  have least: "(k, e) \<in> set (dc_entries c)" "\<And>y. y \<in> set (dc_entries c) \<Longrightarrow> ce_last_used e \<le> ce_last_used (snd y)"
    using least_used_in [OF assms(2)] least_used_le [OF assms(2)] by auto
  have only: "x = (k, e)" if "x \<in> set (dc_entries c)" "fst x = k" for x
    using that least(1) sound(1) unfolding im_keys_def by (metis eq_key_imp_eq_value prod.collapse)
  have rest: "set (dc_entries (remove_entry k c)) = set (dc_entries c) - {(k, e)}"
  proof (rule set_eqI)
    fix x
    show "x \<in> set (dc_entries (remove_entry k c)) \<longleftrightarrow> x \<in> set (dc_entries c) - {(k, e)}"
      using only [of x] by (auto simp only: remove_entry_entries [OF sound(1)] set_filter mem_Collect_eq Diff_iff fst_conv insert_iff empty_iff)
  qed
  have gone: "dropped_entries c c' = insert (k, e) (dropped_entries (remove_entry k c) c')"
    using later(1) least(1) rest by (auto simp: dropped_entries_def lru_eviction_def)
  show ?thesis
  proof (cases "dropped_entries (remove_entry k c) c' = {}")
    case True
    then have same: "set (dc_entries c') = set (dc_entries (remove_entry k c))"
      using later(1) by (auto simp: dropped_entries_def lru_eviction_def)
    have "dc_retained_bytes c' = dc_retained_bytes (remove_entry k c)"
    proof -
      have "mset (dc_entries c') = mset (dc_entries (remove_entry k c))"
        using same cache_soundD(1) [OF later(2)] cache_soundD(1) [OF remove_entry_sound [OF assms(1)]]
        by (intro set_eq_iff_mset_eq_distinct [THEN iffD1]) (auto simp: im_keys_def distinct_map)
      then have "entry_bytes (dc_entries c') = entry_bytes (dc_entries (remove_entry k c))"
        unfolding entry_bytes_def by (metis mset_map sum_mset_sum_list)
      then show ?thesis
        using cache_soundD(2) [OF later(2)] cache_soundD(2) [OF remove_entry_sound [OF assms(1)]] by simp
    qed
    also have "\<dots> = dc_retained_bytes c - ce_bytes e"
      using sound(1,2) least(1)
      by (simp add: cache_soundD(2) [OF remove_entry_sound [OF assms(1)]] remove_entry_entries entry_bytes_remove)
    finally have "dc_max_bytes c < dc_retained_bytes c' + ce_bytes e"
      using assms(3) entry_bytes_remove(2) [OF sound(1) least(1)] sound(2) by simp
    with True gone same rest least(2) show ?thesis by (auto simp: lru_eviction_def)
  next
    case False
    with later(1) obtain x where "x \<in> dropped_entries (remove_entry k c) c'"
        "dc_max_bytes c < dc_retained_bytes c' + ce_bytes (snd x)"
        "\<forall>z \<in> dropped_entries (remove_entry k c) c'. ce_last_used (snd z) \<le> ce_last_used (snd x)"
      by (auto simp: lru_eviction_def)
    moreover from this(1) have "x \<in> set (dc_entries c)" using rest by (auto simp: dropped_entries_def)
    ultimately have "\<exists>x \<in> dropped_entries c c'. dc_max_bytes c < dc_retained_bytes c' + ce_bytes (snd x)
        \<and> (\<forall>z \<in> dropped_entries c c'. ce_last_used (snd z) \<le> ce_last_used (snd x))"
      unfolding gone using least(2) by (intro bexI [of _ x]) auto
    moreover have "set (dc_entries c') \<subseteq> set (dc_entries c)" using later(1) rest by (auto simp: lru_eviction_def)
    moreover from this have "\<forall>x \<in> dropped_entries c c'. \<forall>y \<in> set (dc_entries c'). ce_last_used (snd x) \<le> ce_last_used (snd y)"
      unfolding gone using later(1) least(2) by (auto simp: lru_eviction_def)
    ultimately show ?thesis by (simp add: lru_eviction_def)
  qed
qed

lemma evict_to_limit_spec:
  "cache_sound c \<Longrightarrow> cache_ok (evict_to_limit c) \<and> dc_max_bytes (evict_to_limit c) = dc_max_bytes c
     \<and> dc_clock (evict_to_limit c) = dc_clock c \<and> lru_eviction c (evict_to_limit c)"
proof (induction c rule: evict_to_limit.induct)
  case (1 c)
  show ?case
  proof (cases "dc_retained_bytes c \<le> dc_max_bytes c")
    case True
    then show ?thesis
      using 1(2) by (simp add: evict_to_limit.simps [of c] cache_ok_def lru_eviction_def dropped_entries_def)
  next
    case False
    then have "dc_entries c \<noteq> []"
      using cache_soundD(2) [OF 1(2)] by (auto simp: entry_bytes_def)
    then obtain k e where least: "least_used (dc_entries c) = Some (k, e)"
      by (cases "least_used (dc_entries c)") auto
    then have step: "evict_to_limit c = evict_to_limit (remove_entry k c)"
      using False by (simp add: evict_to_limit.simps [of c])
    have IH: "cache_ok (evict_to_limit (remove_entry k c))
        \<and> dc_max_bytes (evict_to_limit (remove_entry k c)) = dc_max_bytes c
        \<and> dc_clock (evict_to_limit (remove_entry k c)) = dc_clock c
        \<and> lru_eviction (remove_entry k c) (evict_to_limit (remove_entry k c))"
      using 1(1) [OF False least refl remove_entry_sound [OF 1(2)]] by simp
    moreover from this have "lru_eviction c (evict_to_limit (remove_entry k c))"
      using lru_step [OF 1(2) least] False by (simp add: cache_ok_def)
    ultimately show ?thesis unfolding step by simp
  qed
qed

section \<open>Insert and get\<close>

text \<open>The cache that \<open>evict_to_limit\<close> starts from when an image is inserted.\<close>

definition with_image :: "rstring \<Rightarrow> decoded_image \<Rightarrow> decoded_image_cache \<Rightarrow> decoded_image_cache" where
  "with_image key img c =
     (let c = remove_entry key (c\<lparr>dc_clock := sat_succ (dc_clock c)\<rparr>)
      in c\<lparr>dc_retained_bytes := saturating_add (dc_retained_bytes c) (image_bytes img),
           dc_entries := (key, \<lparr>ce_image = img, ce_bytes = image_bytes img, ce_last_used = dc_clock c\<rparr>) # dc_entries c\<rparr>)"

lemma cache_insert_eq:
  "cache_insert key img c = (img, if dc_max_bytes c < image_bytes img then c else evict_to_limit (with_image key img c))"
  by (simp add: cache_insert_def with_image_def Let_def)

lemma unat_sat_succ: "w \<noteq> - 1 \<Longrightarrow> unat (sat_succ w) = Suc (unat w)"
proof -
  assume w: "w \<noteq> - 1"
  then have "1 + w \<noteq> 0" by (metis add.inverse_unique)
  then have "unat (1 + w) = Suc (unat w)" by (rule unatSuc)
  then show ?thesis using w by (simp add: sat_succ_def add.commute)
qed

lemma sat_succ_le: "w \<le> sat_succ w"
  by (cases "w = - 1") (simp_all add: word_le_nat_alt unat_sat_succ, simp add: sat_succ_def)

lemma ticked_sound: "cache_sound c \<Longrightarrow> cache_sound (c\<lparr>dc_clock := sat_succ (dc_clock c)\<rparr>)"
  using order_trans [OF _ sat_succ_le] by (fastforce simp: cache_sound_def)

lemma with_image_sound:
  assumes "cache_ok c" "2 * dc_max_bytes c \<le> USIZE_MAX" "image_bytes img \<le> dc_max_bytes c"
  shows "cache_sound (with_image key img c)"
    and "dc_entries (with_image key img c)
      = (key, \<lparr>ce_image = img, ce_bytes = image_bytes img, ce_last_used = sat_succ (dc_clock c)\<rparr>)
        # filter (\<lambda>x. fst x \<noteq> key) (dc_entries c)"
    and "dc_max_bytes (with_image key img c) = dc_max_bytes c"
proof -
  let ?c = "c\<lparr>dc_clock := sat_succ (dc_clock c)\<rparr>"
  have sound: "cache_sound ?c" using assms(1) by (simp add: cache_ok_def ticked_sound)
  note r = cache_soundD [OF remove_entry_sound [OF sound, of key]]
  have entries: "dc_entries (remove_entry key ?c) = filter (\<lambda>x. fst x \<noteq> key) (dc_entries c)"
    using cache_soundD(1) [OF sound] by (simp add: remove_entry_entries)
  have "dc_retained_bytes (remove_entry key ?c) \<le> dc_retained_bytes ?c"
    by (simp add: remove_entry_def split: option.split)
  also have "\<dots> \<le> dc_max_bytes c" using assms(1) by (simp add: cache_ok_def)
  finally have "saturating_add (dc_retained_bytes (remove_entry key ?c)) (image_bytes img)
      = dc_retained_bytes (remove_entry key ?c) + image_bytes img"
    using assms(2,3) by (simp add: saturating_add_def)
  then show "cache_sound (with_image key img c)"
    using r entries by (auto simp: cache_sound_def with_image_def Let_def entry_bytes_def im_keys_def)
  show "dc_entries (with_image key img c)
      = (key, \<lparr>ce_image = img, ce_bytes = image_bytes img, ce_last_used = sat_succ (dc_clock c)\<rparr>)
        # filter (\<lambda>x. fst x \<noteq> key) (dc_entries c)"
    by (simp add: with_image_def Let_def entries)
  show "dc_max_bytes (with_image key img c) = dc_max_bytes c"
    by (simp add: with_image_def Let_def)
qed

lemma cache_insert_ok:
  assumes "cache_ok c" "2 * dc_max_bytes c \<le> USIZE_MAX"
  shows "cache_ok (snd (cache_insert key img c)) \<and> dc_max_bytes (snd (cache_insert key img c)) = dc_max_bytes c"
  using assms evict_to_limit_spec [OF with_image_sound(1) [OF assms, of img key]]
    with_image_sound(3) [OF assms, of img key]
  by (simp add: cache_insert_eq)

lemma cache_get_ok:
  assumes "cache_ok c"
  shows "cache_ok (snd (cache_get key c)) \<and> dc_max_bytes (snd (cache_get key c)) = dc_max_bytes c"
proof -
  let ?c = "c\<lparr>dc_clock := sat_succ (dc_clock c)\<rparr>"
  have sound: "cache_sound ?c" using assms by (simp add: cache_ok_def ticked_sound)
  show ?thesis
  proof (cases "im_get (dc_entries c) key")
    case None
    with sound assms show ?thesis by (simp add: cache_get_def cache_ok_def)
  next
    case (Some e)
    let ?set = "im_set (dc_entries c) key (e\<lparr>ce_last_used := sat_succ (dc_clock c)\<rparr>)"
    have e: "(key, e) \<in> set (dc_entries c)" using Some by (simp add: im_get_def map_of_SomeD)
    have "map (ce_bytes \<circ> snd) ?set = map (ce_bytes \<circ> snd) (dc_entries c)"
    proof -
      have "x \<in> set (dc_entries c) \<Longrightarrow> fst x = key \<Longrightarrow> snd x = e" for x
        using e cache_soundD(1) [OF sound] eq_key_imp_eq_value [of "dc_entries c" key "snd x" e]
        by (cases x) (auto simp: im_keys_def)
      then show ?thesis by (auto simp: im_set_def split_beta)
    qed
    then have "entry_bytes ?set = entry_bytes (dc_entries c)" by (simp only: entry_bytes_def)
    moreover have "im_keys ?set = im_keys (dc_entries c)" by (auto simp: im_keys_def im_set_def)
    moreover have "\<forall>(k, d) \<in> set ?set. ce_bytes d = image_bytes (ce_image d) \<and> ce_last_used d \<le> sat_succ (dc_clock c)"
    proof clarify
      fix k d assume "(k, d) \<in> set ?set"
      then have "(k, d) \<in> set (dc_entries c) \<or> d = e\<lparr>ce_last_used := sat_succ (dc_clock c)\<rparr>"
        by (auto simp: im_set_def split: if_splits)
      then show "ce_bytes d = image_bytes (ce_image d) \<and> ce_last_used d \<le> sat_succ (dc_clock c)"
        using cache_soundD(3) [OF sound, of k d] cache_soundD(3) [OF sound, of key e] e by auto
    qed
    ultimately show ?thesis
      using Some sound assms by (auto simp: cache_get_def cache_ok_def cache_sound_def Let_def)
  qed
qed

text \<open>The calls the pipeline makes, in any order.\<close>

datatype cache_call = GetImage rstring | InsertImage rstring decoded_image

primrec run_call :: "cache_call \<Rightarrow> decoded_image_cache \<Rightarrow> decoded_image_cache" where
  "run_call (GetImage key) c = snd (cache_get key c)"
| "run_call (InsertImage key img) c = snd (cache_insert key img c)"

lemma cache_calls_ok:
  "2 * n \<le> USIZE_MAX \<Longrightarrow> cache_ok (fold run_call calls (new_cache n))
     \<and> dc_max_bytes (fold run_call calls (new_cache n)) = n"
proof (induction calls rule: rev_induct)
  case Nil
  then show ?case by (simp add: new_cache_ok) (simp add: new_cache_def)
next
  case (snoc call calls)
  then show ?case
    using cache_insert_ok cache_get_ok by (cases call) auto
qed

text \<open>The entry just used is never dropped for itself.\<close>

lemma newest_stays:
  assumes "lru_eviction w c'" "dc_entries w = new # rest" "\<And>x. x \<in> set rest \<Longrightarrow> ce_last_used (snd x) < ce_last_used (snd new)"
    and "dc_retained_bytes c' = entry_bytes (dc_entries c')" "ce_bytes (snd new) \<le> dc_max_bytes w"
  shows "new \<in> set (dc_entries c')"
proof (rule ccontr)
  assume gone: "new \<notin> set (dc_entries c')"
  then have ev: "new \<in> dropped_entries w c'" by (simp add: dropped_entries_def assms(2))
  have old: "set (dc_entries c') \<subseteq> set rest" using assms(1) gone by (auto simp: lru_eviction_def assms(2))
  have "set (dc_entries c') = {}"
  proof (rule equals0I)
    fix y assume y: "y \<in> set (dc_entries c')"
    then have "ce_last_used (snd new) \<le> ce_last_used (snd y)" using assms(1) ev unfolding lru_eviction_def by blast
    with assms(3) [of y] y old show False by (meson not_le subsetD)
  qed
  then have empty: "dc_retained_bytes c' = 0" using assms(4) by (simp add: entry_bytes_def)
  from ev assms(1) obtain x where x: "x \<in> dropped_entries w c'"
      "dc_max_bytes w < dc_retained_bytes c' + ce_bytes (snd x)" "ce_last_used (snd new) \<le> ce_last_used (snd x)"
    unfolding lru_eviction_def by blast
  from x(1) have "x = new \<or> x \<in> set rest" by (auto simp: dropped_entries_def assms(2))
  with x(3) assms(3) have "x = new" by (metis not_le)
  with x(2) empty assms(5) show False by simp
qed

text \<open>After any sequence of calls the cache retains at most its limit, and inserting an
  image that fits makes it available at once, evicts only images that were used no later than
  every other image that stays, and evicts no more than needed: putting the last one back would
  exceed the limit. An image larger than the limit leaves the cache as it is.\<close>

theorem decoded_cache_evicts_least_recent:
  assumes "2 * n \<le> USIZE_MAX" "c = fold run_call calls (new_cache n)" "dc_clock c \<noteq> - 1"
    and "cache_insert key img c = (img', c')"
  shows "img' = img \<and> dc_retained_bytes c' \<le> n \<and> dc_retained_bytes c' = entry_bytes (dc_entries c')
    \<and> (if n < image_bytes img then c' = c
       else fst (cache_get key c') = Some img \<and> lru_eviction (with_image key img c) c')"
proof -
  have c: "cache_ok c" "dc_max_bytes c = n" using cache_calls_ok [OF assms(1)] assms(2) by simp_all
  have c': "cache_ok c'" "dc_max_bytes c' = n"
    using cache_insert_ok [OF c(1), of key img] c(2) assms(1,4) by simp_all
  have "fst (cache_get key c') = Some img \<and> lru_eviction (with_image key img c) c'" if fits: "\<not> n < image_bytes img"
  proof -
    let ?new = "(key, \<lparr>ce_image = img, ce_bytes = image_bytes img, ce_last_used = sat_succ (dc_clock c)\<rparr>)"
    have w: "cache_sound (with_image key img c)" "dc_max_bytes (with_image key img c) = n"
        "dc_entries (with_image key img c) = ?new # filter (\<lambda>x. fst x \<noteq> key) (dc_entries c)"
      using with_image_sound [OF c(1), of img key] c(2) assms(1) fits by simp_all
    have c'eq: "c' = evict_to_limit (with_image key img c)"
      using assms(4) fits c(2) by (auto simp: cache_insert_eq)
    then have lru: "lru_eviction (with_image key img c) c'" using evict_to_limit_spec [OF w(1)] by simp
    have newer: "ce_last_used (snd x) < ce_last_used (snd ?new)" if "x \<in> set (dc_entries c)" for x
    proof -
      have "ce_last_used (snd x) \<le> dc_clock c"
        using c(1) that by (cases x) (auto simp: cache_ok_def dest: cache_soundD(3))
      also have "dc_clock c < sat_succ (dc_clock c)"
        using assms(3) by (simp add: word_less_nat_alt unat_sat_succ)
      finally show ?thesis by simp
    qed
    have "?new \<in> set (dc_entries c')"
      using newest_stays [OF lru w(3)] newer cache_soundD(2) [of c'] c'(1) fits w(2) by (simp add: cache_ok_def)
    then have "im_get (dc_entries c') key = Some (snd ?new)"
      using c'(1) by (simp add: im_get_def cache_ok_def cache_sound_def im_keys_def)
    then show ?thesis using lru by (simp add: cache_get_def Let_def)
  qed
  moreover have "c' = c" if "n < image_bytes img" using assms(4) that c(2) by (simp add: cache_insert_eq)
  ultimately show ?thesis
    using c' assms(4) cache_soundD(2) [of c'] by (simp add: cache_ok_def cache_insert_eq)
qed

definition sample_decoded :: "u32 \<Rightarrow> decoded_image" where
  "sample_decoded w = \<lparr>di_width = w, di_height = 2\<rparr>"

definition sample_cache :: decoded_image_cache where
  "sample_cache = fold run_call [InsertImage [97] (sample_decoded 2), InsertImage [98] (sample_decoded 1), GetImage [97]] (new_cache 18)"

text \<open>With 18 bytes, an image of 12 and one of 6 stored and the first used again, a third of 6 bytes evicts the second.\<close>

theorem decoded_cache_evicts_least_recent_witness:
  "sample_decoded 1 = sample_decoded 1 \<and> dc_retained_bytes (snd (cache_insert [99] (sample_decoded 1) sample_cache)) \<le> 18
    \<and> dc_retained_bytes (snd (cache_insert [99] (sample_decoded 1) sample_cache))
        = entry_bytes (dc_entries (snd (cache_insert [99] (sample_decoded 1) sample_cache)))
    \<and> (if 18 < image_bytes (sample_decoded 1) then snd (cache_insert [99] (sample_decoded 1) sample_cache) = sample_cache
       else fst (cache_get [99] (snd (cache_insert [99] (sample_decoded 1) sample_cache))) = Some (sample_decoded 1)
         \<and> lru_eviction (with_image [99] (sample_decoded 1) sample_cache) (snd (cache_insert [99] (sample_decoded 1) sample_cache)))"
proof (rule decoded_cache_evicts_least_recent)
  show "2 * 18 \<le> USIZE_MAX" by (simp add: USIZE_MAX_def)
  show "sample_cache = fold run_call [InsertImage [97] (sample_decoded 2), InsertImage [98] (sample_decoded 1), GetImage [97]] (new_cache 18)"
    by (rule sample_cache_def)
  show "dc_clock sample_cache \<noteq> - 1" by code_simp
  show "cache_insert [99] (sample_decoded 1) sample_cache = (sample_decoded 1, snd (cache_insert [99] (sample_decoded 1) sample_cache))"
    by (simp add: cache_insert_eq)
qed

end
