(* ===== verification/Packbits.thy ===== *)
theory Packbits
  imports Byte_Codec "HOL-Library.Code_Target_Nat"
begin

text \<open>
  The PackBits compression of the PSD export (\<open>koharu-psd/src/packbits.rs\<close>): the packets of a
  row, the channels of an image, and a reader of the format that shows what the packets say.
\<close>

section \<open>The encoder\<close>

datatype channel_id = ChannelRed | ChannelGreen | ChannelBlue | ChannelAlpha

primrec psd_id :: "channel_id \<Rightarrow> 16 word" where
  "psd_id ChannelRed = 0"
| "psd_id ChannelGreen = 1"
| "psd_id ChannelBlue = 2"
| "psd_id ChannelAlpha = - 1"

primrec rgba_offset :: "channel_id \<Rightarrow> nat" where
  "rgba_offset ChannelRed = 0"
| "rgba_offset ChannelGreen = 1"
| "rgba_offset ChannelBlue = 2"
| "rgba_offset ChannelAlpha = 3"

record encoded_channel =
  ec_channel_id :: "16 word"
  ec_data :: "u8 list"

datatype psd_error = InvalidChannelEncoding rstring nat nat

text \<open>An \<open>RgbaImage\<close>: its size and the four bytes of the pixel at a position.\<close>

record rgba_image =
  ri_width :: u32
  ri_height :: u32
  ri_pixel :: "nat \<Rightarrow> nat \<Rightarrow> u8 list"

fun run_loop :: "u8 \<Rightarrow> u8 list \<Rightarrow> nat \<Rightarrow> nat" where
  "run_loop v [] n = n"
| "run_loop v (x # xs) n = (if x = v \<and> n < 128 then run_loop v xs (Suc n) else n)"

text \<open>The rows below are what is left of the row from the index of the loop on.\<close>

definition repeated_run_len :: "u8 list \<Rightarrow> nat" where
  "repeated_run_len row = run_loop (hd row) (tl row) 1"

fun literal_loop :: "u8 list \<Rightarrow> nat \<Rightarrow> nat" where
  "literal_loop [] n = n"
| "literal_loop (x # xs) n =
     (if n < 128 \<and> \<not> 3 \<le> repeated_run_len (x # xs) then literal_loop xs (Suc n) else n)"

lemma literal_loop_mono: "n \<le> literal_loop row n"
  by (induction row n rule: literal_loop.induct) (auto intro: order_trans [OF le_SucI])

lemma literal_loop_pos: "row \<noteq> [] \<Longrightarrow> \<not> 3 \<le> repeated_run_len row \<Longrightarrow> 0 < literal_loop row 0"
  using literal_loop_mono [where n = "Suc 0"] by (cases row) (auto simp: Suc_le_eq)

function encode_row :: "u8 list \<Rightarrow> u8 list" where
  "encode_row row =
     (if row = [] then []
      else let run_len = repeated_run_len row in
        if 3 \<le> run_len then
          let chunk = min run_len 128
          in word_of_int (1 - int chunk) # hd row # encode_row (drop chunk row)
        else
          let literal_len = literal_loop row 0
          in word_of_nat (literal_len - 1) # take literal_len row @ encode_row (drop literal_len row))"
  by pat_completeness auto
termination
  by (relation "measure length") (use literal_loop_pos in \<open>auto simp: Suc_le_eq\<close>)

declare encode_row.simps [simp del]

definition u16_to_be_bytes :: "u16 \<Rightarrow> u8 list" where
  "u16_to_be_bytes w = [ucast (drop_bit 8 w), ucast w]"

definition image_row :: "rgba_image \<Rightarrow> nat \<Rightarrow> nat \<Rightarrow> u8 list" where
  "image_row img offset y = map (\<lambda>x. ri_pixel img x y ! offset) [0..<unat (ri_width img)]"

text \<open>The rows of a channel: the lengths and the packets collected so far, then the rest.\<close>

fun encode_rows :: "rstring \<Rightarrow> rgba_image \<Rightarrow> nat \<Rightarrow> nat list \<Rightarrow> u16 list \<times> u8 list \<Rightarrow> psd_error + u16 list \<times> u8 list" where
  "encode_rows layer img offset [] acc = Ok acc"
| "encode_rows layer img offset (y # ys) (lengths, data) =
     (let packets = encode_row (image_row img offset y)
      in if 65535 < length packets then Err (InvalidChannelEncoding layer y (length packets))
         else encode_rows layer img offset ys (lengths @ [word_of_nat (length packets)], data @ packets))"

definition encode_channel :: "rstring \<Rightarrow> rgba_image \<Rightarrow> channel_id \<Rightarrow> psd_error + encoded_channel" where
  "encode_channel layer img channel =
     try_bind (encode_rows layer img (rgba_offset channel) [0..<unat (ri_height img)] ([], []))
       (\<lambda>(lengths, data). Ok \<lparr>ec_channel_id = psd_id channel,
          ec_data = concat (map u16_to_be_bytes lengths) @ data\<rparr>)"

fun encode_image_rle :: "rgba_image \<Rightarrow> channel_id list \<Rightarrow> rstring \<Rightarrow> psd_error + encoded_channel list" where
  "encode_image_rle img [] layer = Ok []"
| "encode_image_rle img (c # cs) layer =
     try_bind (encode_channel layer img c) (\<lambda>e. try_bind (encode_image_rle img cs layer) (\<lambda>es. Ok (e # es)))"

section \<open>A reader of the format\<close>

text \<open>
  PackBits as the file format defines it: a header byte below 128 is followed by one literal
  byte more than it says, a header above 128 repeats the next byte \<open>257 - header\<close> times, and
  128 is skipped. A packet that is cut short is an error.
\<close>

function unpack_row :: "u8 list \<Rightarrow> u8 list option" where
  "unpack_row [] = Some []"
| "unpack_row (h # bs) =
     (if unat h < 128 then
        (if length bs < unat h + 1 then None
         else map_option ((@) (take (unat h + 1) bs)) (unpack_row (drop (unat h + 1) bs)))
      else if unat h = 128 then unpack_row bs
      else case bs of [] \<Rightarrow> None | b # cs \<Rightarrow> map_option ((@) (replicate (257 - unat h) b)) (unpack_row cs))"
  by pat_completeness auto
termination by (relation "measure length") auto

section \<open>Runs\<close>

lemma run_loop_bounds:
  "n \<le> run_loop v xs n" "run_loop v xs n \<le> n + length xs" "n \<le> 128 \<Longrightarrow> run_loop v xs n \<le> 128"
  by (induction v xs n rule: run_loop.induct) auto

lemma run_loop_take: "take (run_loop v xs n - n) xs = replicate (run_loop v xs n - n) v"
proof (induction v xs n rule: run_loop.induct)
  case (2 v x xs n)
  show ?case
  proof (cases "x = v \<and> n < 128")
    case True
    then have "run_loop v (x # xs) n - n = Suc (run_loop v xs (Suc n) - Suc n)"
      using run_loop_bounds(1) [where n = "Suc n" and v = v and xs = xs] by simp
    with True 2 show ?thesis by simp
  qed auto
qed simp

lemma repeated_run:
  assumes "row \<noteq> []"
  shows "1 \<le> repeated_run_len row" "repeated_run_len row \<le> length row" "repeated_run_len row \<le> 128"
    and "take (repeated_run_len row) row = replicate (repeated_run_len row) (hd row)"
proof -
  obtain v xs where row: "row = v # xs" using assms by (cases row) auto
  let ?n = "run_loop v xs 1"
  have bounds: "1 \<le> ?n" "?n \<le> 1 + length xs" "?n \<le> 128"
    using run_loop_bounds [where n = 1 and v = v and xs = xs] by auto
  then show "1 \<le> repeated_run_len row" "repeated_run_len row \<le> length row" "repeated_run_len row \<le> 128"
    by (simp_all add: repeated_run_len_def row)
  have "?n = Suc (?n - 1)" using bounds by simp
  then have "take ?n (v # xs) = v # take (?n - 1) xs" by (metis take_Suc_Cons)
  also have "\<dots> = replicate ?n v" using run_loop_take [where v = v and xs = xs and n = 1] bounds
    by (metis \<open>?n = Suc (?n - 1)\<close> replicate_Suc)
  finally show "take (repeated_run_len row) row = replicate (repeated_run_len row) (hd row)"
    by (simp add: repeated_run_len_def row)
qed

lemma literal_loop_bounds: "literal_loop row n \<le> n + length row" "n \<le> 128 \<Longrightarrow> literal_loop row n \<le> 128"
  by (induction row n rule: literal_loop.induct) auto

text \<open>A literal stops at its limit, at a run or at the end of the row.\<close>

lemma literal_loop_stop:
  "n \<le> 128 \<Longrightarrow> literal_loop row n = 128 \<or> drop (literal_loop row n - n) row = []
     \<or> 3 \<le> repeated_run_len (drop (literal_loop row n - n) row)"
proof (induction row n rule: literal_loop.induct)
  case (2 x xs n)
  show ?case
  proof (cases "n < 128 \<and> \<not> 3 \<le> repeated_run_len (x # xs)")
    case True
    then have "literal_loop (x # xs) n - n = Suc (literal_loop xs (Suc n) - Suc n)"
      using literal_loop_mono [where n = "Suc n" and row = xs] by simp
    with True 2 show ?thesis by simp
  qed (use 2 in auto)
qed simp

text \<open>The cases of the encoder, as its proofs use them.\<close>

lemma encode_row_cases:
  assumes "row \<noteq> []"
  obtains (run) n where "3 \<le> n" "n \<le> 128" "n \<le> length row" "n = repeated_run_len row"
      "take n row = replicate n (hd row)"
      "encode_row row = word_of_int (1 - int n) # hd row # encode_row (drop n row)"
  | (literal) n where "1 \<le> n" "n \<le> 128" "n \<le> length row" "\<not> 3 \<le> repeated_run_len row"
      "n = 128 \<or> drop n row = [] \<or> 3 \<le> repeated_run_len (drop n row)"
      "encode_row row = word_of_nat (n - 1) # take n row @ encode_row (drop n row)"
proof (cases "3 \<le> repeated_run_len row")
  case True
  with assms repeated_run [OF assms] show ?thesis
    by (intro run [of "repeated_run_len row"]) (simp_all add: encode_row.simps [of row] Let_def)
next
  case False
  have "encode_row row = word_of_nat (literal_loop row 0 - 1) # take (literal_loop row 0) row
      @ encode_row (drop (literal_loop row 0) row)"
    using assms False by (simp add: encode_row.simps [of row] Let_def)
  with literal_loop_pos [OF assms False] literal_loop_bounds [where row = row and n = 0] literal_loop_stop [where row = row and n = 0] False
  show ?thesis by (intro literal [of "literal_loop row 0"]) auto
qed

section \<open>Properties\<close>

lemma unat_run_header: "3 \<le> n \<Longrightarrow> n \<le> 128 \<Longrightarrow> unat (word_of_int (1 - int n) :: u8) = 257 - n"
proof -
  assume n: "3 \<le> n" "n \<le> 128"
  have "uint (word_of_int (1 - int n) :: u8) = (1 - int n) mod 256"
    by (simp only: uint_word_of_int) simp
  also have "(1 - int n) mod 256 = (1 - int n + 256) mod 256" by (simp only: mod_add_self2)
  also have "\<dots> = 257 - int n" using n by (subst mod_pos_pos_trivial) auto
  finally show ?thesis using n by (simp flip: nat_uint_eq)
qed

lemma unpack_run: "129 \<le> unat h \<Longrightarrow> unpack_row (h # b # cs) = map_option ((@) (replicate (257 - unat h) b)) (unpack_row cs)"
  by simp

lemma unpack_literal:
  "unat h + 1 = n \<Longrightarrow> n \<le> 128 \<Longrightarrow> length bs = n \<Longrightarrow> unpack_row (h # bs @ cs) = map_option ((@) bs) (unpack_row cs)"
  by simp

lemma unpack_encode_row: "unpack_row (encode_row row) = Some row"
proof (induction row rule: length_induct)
  case (1 row)
  show ?case
  proof (cases "row = []")
    case True
    then show ?thesis by (simp add: encode_row.simps)
  next
    case False
    then show ?thesis
    proof (cases rule: encode_row_cases)
      case (run n)
      then have rest: "unpack_row (encode_row (drop n row)) = Some (drop n row)" using 1 False by simp
      have head: "unat (word_of_int (1 - int n) :: u8) = 257 - n" by (rule unat_run_header [OF run(1,2)])
      have "unpack_row (encode_row row) = Some (replicate n (hd row) @ drop n row)"
        unfolding run(6) using run(1,2) by (subst unpack_run) (simp_all only: head rest, simp_all)
      then show ?thesis using run(5) by (metis append_take_drop_id)
    next
      case (literal n)
      then have rest: "unpack_row (encode_row (drop n row)) = Some (drop n row)" using 1 False by simp
      have head: "unat (word_of_nat (n - 1) :: u8) = n - 1"
        using literal(2) by (simp only: unat_of_nat) simp
      show ?thesis
        unfolding literal(6) using literal(1-3)
        by (subst unpack_literal [where n = n]) (simp_all only: head rest, simp_all)
    qed
  qed
qed

lemma encode_row_length:
  "length (encode_row row) + (if row \<noteq> [] \<and> 3 \<le> repeated_run_len row then 1 else 0)
     \<le> length row + (length row + 127) div 128"
proof (induction row rule: length_induct)
  case (1 row)
  show ?case
  proof (cases "row = []")
    case True
    then show ?thesis by (simp add: encode_row.simps)
  next
    case False
    then have *: "length (encode_row (drop n row)) + (if drop n row \<noteq> [] \<and> 3 \<le> repeated_run_len (drop n row) then 1 else 0)
        \<le> length row - n + (length row - n + 127) div 128" if "1 \<le> n" for n
      using 1 [rule_format, of "drop n row"] that by simp
    from False show ?thesis
    proof (cases rule: encode_row_cases)
      case (run n)
      have "length (encode_row row) = 2 + length (encode_row (drop n row))" by (simp add: run(6))
      moreover have "(length row - n + 127) div 128 \<le> (length row + 127) div 128"
        by (intro div_le_mono) simp
      ultimately show ?thesis using * [of n] run(1,3) False by (auto split: if_splits)
    next
      case (literal n)
      have len: "length (encode_row row) = 1 + n + length (encode_row (drop n row))"
        using literal(3) by (simp add: literal(6))
      have step: "(length row - 128 + 127) div 128 + 1 = (length row + 127) div 128" if "128 \<le> length row"
      proof -
        have "length row + 127 = length row - 128 + 127 + 128" using that by simp
        then show ?thesis by simp
      qed
      have mono: "(length row - n + 127) div 128 \<le> (length row + 127) div 128"
        by (intro div_le_mono) simp
      consider "n = 128" | "drop n row = []" | "3 \<le> repeated_run_len (drop n row)" "drop n row \<noteq> []"
        using literal(5) by blast
      then show ?thesis
      proof cases
        case 1
        then show ?thesis using * [of n] len literal(3,4) step by simp
      next
        case 2
        then have "n = length row" using literal(3) by simp
        moreover have "1 \<le> (length row + 127) div 128" using literal(1) \<open>n = length row\<close> by linarith
        ultimately show ?thesis using len literal(4) by (simp add: encode_row.simps)
      next
        case 3
        then show ?thesis using * [of n] len literal(1,3,4) mono by simp
      qed
    qed
  qed
qed

text \<open>A channel read back: the lengths, then as many packets per row as its length says.\<close>

fun unpack_rows :: "nat list \<Rightarrow> u8 list \<Rightarrow> u8 list list option" where
  "unpack_rows [] bs = (if bs = [] then Some [] else None)"
| "unpack_rows (n # ns) bs =
     (if length bs < n then None
      else case unpack_row (take n bs) of None \<Rightarrow> None
        | Some row \<Rightarrow> map_option ((#) row) (unpack_rows ns (drop n bs)))"

fun read_lengths :: "nat \<Rightarrow> u8 list \<Rightarrow> (nat list \<times> u8 list) option" where
  "read_lengths 0 bs = Some ([], bs)"
| "read_lengths (Suc k) (a # b # bs) =
     map_option (\<lambda>(ns, r). ((256 * unat a + unat b) # ns, r)) (read_lengths k bs)"
| "read_lengths (Suc k) bs = None"

definition unpack_channel :: "nat \<Rightarrow> u8 list \<Rightarrow> u8 list list option" where
  "unpack_channel height bs =
     (case read_lengths height bs of None \<Rightarrow> None | Some (ns, data) \<Rightarrow> unpack_rows ns data)"

lemma encode_rows_Ok:
  "(\<forall>y \<in> set ys. length (encode_row (image_row img offset y)) \<le> 65535) \<Longrightarrow>
   encode_rows layer img offset ys acc
     = Ok (fst acc @ map (\<lambda>y. word_of_nat (length (encode_row (image_row img offset y)))) ys,
           snd acc @ concat (map (\<lambda>y. encode_row (image_row img offset y)) ys))"
  by (induction layer img offset ys acc rule: encode_rows.induct) (auto simp: Let_def)

lemma image_row_length [simp]: "length (image_row img offset y) = unat (ri_width img)"
  by (simp add: image_row_def)

lemma narrow_row_fits:
  assumes "unat (ri_width img) \<le> 30000"
  shows "length (encode_row (image_row img offset y)) \<le> 65535"
proof -
  have "length (encode_row (image_row img offset y)) \<le> unat (ri_width img) + (unat (ri_width img) + 127) div 128"
    using encode_row_length [of "image_row img offset y"] by (simp split: if_splits)
  also have "\<dots> \<le> 65535" using assms by linarith
  finally show ?thesis .
qed

lemma read_lengths_encoded:
  "(\<forall>n \<in> set ns. n \<le> 65535) \<Longrightarrow>
   read_lengths (length ns) (concat (map u16_to_be_bytes (map word_of_nat ns)) @ bs) = Some (ns, bs)"
proof (induction ns)
  case (Cons n ns)
  have "256 * unat (ucast (drop_bit 8 (word_of_nat n :: u16)) :: u8) + unat (ucast (word_of_nat n :: u16) :: u8) = n"
  proof -
    have n: "unat (word_of_nat n :: u16) = n" using Cons.prems by (simp add: unat_of_nat)
    have "unat (ucast (drop_bit 8 (word_of_nat n :: u16)) :: u8) = (n div 256) mod 256"
      by (simp only: unsigned_ucast_eq unsigned_drop_bit_eq n) (use Cons.prems in \<open>simp add: drop_bit_eq_div take_bit_eq_mod\<close>)
    moreover have "unat (ucast (word_of_nat n :: u16) :: u8) = n mod 256"
      by (simp only: unsigned_ucast_eq n) (simp add: take_bit_eq_mod)
    moreover have "n div 256 < 256" using Cons.prems by (simp add: div_less_iff_less_mult)
    ultimately show ?thesis by simp
  qed
  with Cons show ?case by (simp add: u16_to_be_bytes_def)
qed simp

lemma unpack_rows_encoded:
  "unpack_rows (map (\<lambda>r. length (encode_row r)) rows) (concat (map encode_row rows)) = Some rows"
  by (induction rows) (simp_all add: unpack_encode_row)

lemma encode_channel_Ok:
  assumes "unat (ri_width img) \<le> 30000"
  shows "\<exists>e. encode_channel layer img c = Ok e \<and> ec_channel_id e = psd_id c
    \<and> unpack_channel (unat (ri_height img)) (ec_data e)
        = Some (map (image_row img (rgba_offset c)) [0..<unat (ri_height img)])"
proof -
  let ?ys = "[0..<unat (ri_height img)]" and ?row = "image_row img (rgba_offset c)"
  let ?ns = "map (\<lambda>y. length (encode_row (?row y))) ?ys"
  have fits: "\<forall>y \<in> set ?ys. length (encode_row (?row y)) \<le> 65535"
    using narrow_row_fits [OF assms] by blast
  have ok: "encode_channel layer img c = Ok \<lparr>ec_channel_id = psd_id c,
      ec_data = concat (map u16_to_be_bytes (map word_of_nat ?ns)) @ concat (map encode_row (map ?row ?ys))\<rparr>"
    using fits by (simp add: encode_channel_def encode_rows_Ok comp_def)
  have "read_lengths (length ?ns) (concat (map u16_to_be_bytes (map word_of_nat ?ns)) @ concat (map encode_row (map ?row ?ys)))
      = Some (?ns, concat (map encode_row (map ?row ?ys)))"
    by (rule read_lengths_encoded) (use fits in auto)
  moreover have "unpack_rows ?ns (concat (map encode_row (map ?row ?ys))) = Some (map ?row ?ys)"
    using unpack_rows_encoded [of "map ?row ?ys"] by (simp add: comp_def)
  ultimately show ?thesis
    unfolding ok by (simp add: unpack_channel_def del: map_map)
qed

text \<open>Claim C36: every image the export accepts, at most 30,000 pixels wide, is compressed without
  an error, one channel per requested channel in that order, and reading the packets back gives
  exactly the bytes of the channel, row by row.\<close>

theorem packbits_roundtrip:
  assumes "unat (ri_width img) \<le> 30000"
  shows "\<exists>es. encode_image_rle img cs layer = Ok es \<and> map ec_channel_id es = map psd_id cs
    \<and> map (\<lambda>e. unpack_channel (unat (ri_height img)) (ec_data e)) es
        = map (\<lambda>c. Some (map (image_row img (rgba_offset c)) [0..<unat (ri_height img)])) cs"
proof (induction cs)
  case (Cons c cs)
  from Cons obtain es where "encode_image_rle img cs layer = Ok es" "map ec_channel_id es = map psd_id cs"
    "map (\<lambda>e. unpack_channel (unat (ri_height img)) (ec_data e)) es
        = map (\<lambda>c. Some (map (image_row img (rgba_offset c)) [0..<unat (ri_height img)])) cs" by blast
  moreover from encode_channel_Ok [OF assms] obtain e where "encode_channel layer img c = Ok e"
    "ec_channel_id e = psd_id c" "unpack_channel (unat (ri_height img)) (ec_data e)
        = Some (map (image_row img (rgba_offset c)) [0..<unat (ri_height img)])" by blast
  ultimately show ?case by simp
qed simp

definition sample_image :: rgba_image where
  "sample_image = \<lparr>ri_width = 6, ri_height = 2,
     ri_pixel = (\<lambda>x y. [if x < 3 then 7 else word_of_nat x, word_of_nat y, 0, 255])\<rparr>"

theorem packbits_roundtrip_witness:
  "\<exists>es. encode_image_rle sample_image [ChannelAlpha, ChannelRed] [] = Ok es
    \<and> map ec_channel_id es = map psd_id [ChannelAlpha, ChannelRed]
    \<and> map (\<lambda>e. unpack_channel (unat (ri_height sample_image)) (ec_data e)) es
        = map (\<lambda>c. Some (map (image_row sample_image (rgba_offset c)) [0..<unat (ri_height sample_image)]))
            [ChannelAlpha, ChannelRed]"
  by (rule packbits_roundtrip) (simp add: sample_image_def)

end
