(* ===== verification/Pipeline_Order.thy ===== *)
theory Pipeline_Order
  imports Scene_Op "HOL-Library.Code_Target_Nat"
begin

text \<open>
  The engines of the desktop pipeline as the driver sees them
  (\<open>koharu-app/src/pipeline/artifacts.rs\<close>, \<open>engine.rs\<close>): which artifacts an engine needs and
  produces, when a page has them, and the order of execution. The topological sort is that of
  \<open>petgraph\<close> and a parameter.
\<close>

section \<open>Artifacts\<close>

datatype artifact =
  SourceImage | InpaintedImage | SegmentMask | BubbleMask | BrushMask | TextBoxes | OcrText
| FontPredictions | Translations | RenderedSprites | FinalRender

definition page_has_image :: "page \<Rightarrow> image_role \<Rightarrow> bool" where
  "page_has_image p role = list_ex (has_image_role role) (im_values (page_nodes p))"

definition page_has_mask :: "page \<Rightarrow> mask_role \<Rightarrow> bool" where
  "page_has_mask p role = list_ex (has_mask_role role) (im_values (page_nodes p))"

definition text_of :: "node \<Rightarrow> text_data option" where
  "text_of n = (case node_kind n of Text t \<Rightarrow> Some t | _ \<Rightarrow> None)"

definition every_text :: "page \<Rightarrow> (text_data \<Rightarrow> bool) \<Rightarrow> bool" where
  "every_text p P = (let texts = List.map_filter text_of (im_values (page_nodes p))
     in texts = [] \<or> list_all P texts)"

definition has_words :: "rstring option \<Rightarrow> bool" where
  "has_words s = (case s of None \<Rightarrow> False | Some s \<Rightarrow> trim s \<noteq> [])"

fun artifact_ready :: "artifact \<Rightarrow> page \<Rightarrow> bool" where
  "artifact_ready SourceImage p = page_has_image p Source"
| "artifact_ready InpaintedImage p = page_has_image p Inpainted"
| "artifact_ready SegmentMask p = page_has_mask p Segment"
| "artifact_ready BubbleMask p = page_has_mask p Bubble"
| "artifact_ready BrushMask p = page_has_mask p BrushInpaint"
| "artifact_ready TextBoxes p = list_ex (\<lambda>n. text_of n \<noteq> None) (im_values (page_nodes p))"
| "artifact_ready OcrText p = every_text p (\<lambda>t. has_words (txt_text t))"
| "artifact_ready FontPredictions p = every_text p (\<lambda>t. txt_font_prediction t \<noteq> None)"
| "artifact_ready Translations p =
     every_text p (\<lambda>t. if \<not> has_words (txt_text t) then True else has_words (txt_translation t))"
| "artifact_ready RenderedSprites p = every_text p (\<lambda>t. txt_sprite t \<noteq> None)"
| "artifact_ready FinalRender p = page_has_image p Rendered"

section \<open>Engines and their registry\<close>

record engine_info =
  ei_id :: rstring
  ei_name :: rstring
  ei_needs :: "artifact list"
  ei_produces :: "artifact list"

datatype order_error = UnknownEngine rstring | DuplicateEngine rstring | CycleAt rstring

definition find_engine :: "engine_info list \<Rightarrow> rstring \<Rightarrow> order_error + engine_info" where
  "find_engine catalog i = (case List.find (\<lambda>e. ei_id e = i) catalog of
     None \<Rightarrow> Err (UnknownEngine i) | Some e \<Rightarrow> Ok e)"

definition providers :: "engine_info list \<Rightarrow> artifact \<Rightarrow> engine_info list" where
  "providers catalog a = filter (\<lambda>e. a \<in> set (ei_produces e)) catalog"

section \<open>The order of execution\<close>

text \<open>The nodes are numbered by the engines; \<open>id_to_node\<close> names them.\<close>

fun node_ids :: "nat \<Rightarrow> engine_info list \<Rightarrow> (rstring, nat) index_map \<Rightarrow> order_error + (rstring, nat) index_map" where
  "node_ids i [] m = Ok m"
| "node_ids i (e # es) m =
     (if im_contains_key m (ei_id e) then Err (DuplicateEngine (ei_id e))
      else node_ids (Suc i) es (im_insert m (ei_id e) i))"

text \<open>The last engine that produces an artifact is its producer.\<close>

definition insert_producers :: "nat \<times> engine_info \<Rightarrow> (artifact, nat) index_map \<Rightarrow> (artifact, nat) index_map" where
  "insert_producers = (\<lambda>(i, e). fold (\<lambda>a m. im_insert m a i) (ei_produces e))"

definition producers :: "engine_info list \<Rightarrow> (artifact, nat) index_map" where
  "producers infos = fold insert_producers (enumerate 0 infos) []"

definition need_edges ::
  "(rstring, nat) index_map \<Rightarrow> (artifact, nat) index_map \<Rightarrow> engine_info list \<Rightarrow> engine_info \<Rightarrow> (nat \<times> nat) list" where
  "need_edges nodes made infos e =
     List.map_filter (\<lambda>a. map_option (\<lambda>p. (the (im_get nodes (ei_id (infos ! p))), the (im_get nodes (ei_id e)))) (im_get made a))
       (ei_needs e)"

definition engine_edges :: "engine_info list \<Rightarrow> (rstring, nat) index_map \<Rightarrow> (nat \<times> nat) list" where
  "engine_edges infos nodes = concat (map (need_edges nodes (producers infos) infos) infos)"

text \<open>\<open>toposort n edges\<close> orders the nodes below \<open>n\<close> or names a node on a cycle.\<close>

definition build_order ::
  "(nat \<Rightarrow> (nat \<times> nat) list \<Rightarrow> nat + nat list) \<Rightarrow> engine_info list \<Rightarrow> order_error + nat list" where
  "build_order toposort infos =
     try_bind (node_ids 0 infos [])
       (\<lambda>nodes. case toposort (length infos) (engine_edges infos nodes) of
          Inl c \<Rightarrow> Err (CycleAt (ei_id (infos ! c)))
        | Inr order \<Rightarrow> Ok order)"

text \<open>
  What the code relies on, for one graph: the answer is an order of all nodes that respects the
  edges, or a node on a cycle.
\<close>

definition precedes :: "'a list \<Rightarrow> 'a \<Rightarrow> 'a \<Rightarrow> bool" where
  "precedes order a b \<longleftrightarrow> (\<exists>i j. i < j \<and> j < length order \<and> order ! i = a \<and> order ! j = b)"

definition topological_answer :: "nat \<Rightarrow> (nat \<times> nat) list \<Rightarrow> nat + nat list \<Rightarrow> bool" where
  "topological_answer n edges answer \<longleftrightarrow> (case answer of
      Inr order \<Rightarrow> mset order = mset [0..<n] \<and> (\<forall>(a, b) \<in> set edges. precedes order a b)
    | Inl c \<Rightarrow> c < n \<and> (c, c) \<in> (set edges)\<^sup>+)"

section \<open>Laws\<close>

lemma node_ids_Ok:
  "node_ids i infos m = Ok nodes \<Longrightarrow> distinct (map ei_id infos) \<and> set (map ei_id infos) \<inter> set (im_keys m) = {}
     \<and> (\<forall>k < length infos. im_get nodes (ei_id (infos ! k)) = Some (i + k))
     \<and> (\<forall>x. x \<notin> set (map ei_id infos) \<longrightarrow> im_get nodes x = im_get m x)"
proof (induction i infos m rule: node_ids.induct)
  case (2 i e es m)
  then have free: "\<not> im_contains_key m (ei_id e)" and rest: "node_ids (Suc i) es (im_insert m (ei_id e) i) = Ok nodes"
    by (auto split: if_splits)
  note IH = 2(1) [OF free rest]
  have keys: "set (im_keys (im_insert m (ei_id e) i)) = insert (ei_id e) (set (im_keys m))"
    using free by (simp add: im_insert_def im_keys_def)
  have head: "im_get nodes (ei_id e) = Some i"
    using IH free keys by (auto simp: im_insert_def im_get_def map_of_eq_None_iff im_contains_key_def im_keys_def map_add_Some_iff)
  show ?case
    using IH head free keys
    by (auto simp: nth_Cons im_contains_key_def im_get_def im_insert_def im_keys_def map_add_def split: nat.splits option.splits)
qed simp

lemma node_ids_distinct: "distinct (map ei_id infos) \<Longrightarrow> set (map ei_id infos) \<inter> set (im_keys m) = {}
  \<Longrightarrow> \<exists>nodes. node_ids i infos m = Ok nodes"
  by (induction i infos m rule: node_ids.induct) (auto simp: im_contains_key_def im_insert_def im_keys_def)

lemma node_ids_eq: "node_ids 0 infos [] = Ok nodes \<Longrightarrow> e \<in> set infos \<Longrightarrow> \<exists>k < length infos. infos ! k = e
    \<and> im_get nodes (ei_id e) = Some k"
  using node_ids_Ok [of 0 infos "[]" nodes] by (auto simp: in_set_conv_nth)

lemma node_ids_Err: "node_ids i infos m = Err err \<Longrightarrow> \<exists>x. err = DuplicateEngine x"
  by (induction i infos m rule: node_ids.induct) (auto split: if_splits)

text \<open>The producer of an artifact is the last engine of the list that produces it.\<close>

definition last_producer :: "engine_info list \<Rightarrow> artifact \<Rightarrow> nat \<Rightarrow> bool" where
  "last_producer infos a p \<longleftrightarrow> p < length infos \<and> a \<in> set (ei_produces (infos ! p))
     \<and> (\<forall>q. p < q \<and> q < length infos \<longrightarrow> a \<notin> set (ei_produces (infos ! q)))"

lemma im_get_insert: "im_get (im_insert m k v) j = (if j = k then Some v else im_get m j)"
proof (cases "im_contains_key m k")
  case True
  then obtain w where "im_get m k = Some w" by (auto simp: im_contains_key_iff)
  with True show ?thesis
    by (cases "j = k") (simp_all add: im_insert_def im_get_im_set_other)
next
  case False
  then have "map_of m k = None" by (simp add: map_of_eq_None_iff im_contains_key_def im_keys_def)
  with False show ?thesis
    by (simp add: im_insert_def im_get_def map_add_def split: option.splits)
qed

lemma insert_producers_get:
  "im_get (insert_producers (i, e) m) a = (if a \<in> set (ei_produces e) then Some i else im_get m a)"
proof -
  have "im_get (fold (\<lambda>a m. im_insert m a i) as m) a = (if a \<in> set as then Some i else im_get m a)" for as
    by (induction as arbitrary: m) (auto simp: im_get_insert)
  then show ?thesis by (simp add: insert_producers_def)
qed

lemma producers_snoc: "producers (infos @ [e]) = insert_producers (length infos, e) (producers infos)"
  by (simp add: producers_def enumerate_append_eq)

lemma producers_last: "im_get (producers infos) a = Some p \<longleftrightarrow> last_producer infos a p"
proof (induction infos rule: rev_induct)
  case Nil
  then show ?case by (simp add: producers_def last_producer_def im_get_def)
next
  case (snoc e infos)
  show ?case
  proof (cases "a \<in> set (ei_produces e)")
    case True
    have "last_producer (infos @ [e]) a p \<longleftrightarrow> p = length infos"
    proof
      assume last: "last_producer (infos @ [e]) a p"
      then have "\<not> p < length infos"
        using True unfolding last_producer_def by (metis length_append_singleton lessI nth_append_length)
      with last show "p = length infos" by (simp add: last_producer_def)
    qed (use True in \<open>auto simp: last_producer_def\<close>)
    then show ?thesis using True by (auto simp: producers_snoc insert_producers_get)
  next
    case False
    have "last_producer (infos @ [e]) a p \<longleftrightarrow> last_producer infos a p"
      using False by (auto simp: last_producer_def nth_append less_Suc_eq)
    then show ?thesis using False snoc by (simp add: producers_snoc insert_producers_get)
  qed
qed

lemma engine_edges_iff:
  assumes "node_ids 0 infos [] = Ok nodes"
  shows "(p, e) \<in> set (engine_edges infos nodes) \<longleftrightarrow>
    e < length infos \<and> (\<exists>a \<in> set (ei_needs (infos ! e)). last_producer infos a p)"
proof -
  have ids: "im_get nodes (ei_id (infos ! k)) = Some k" if "k < length infos" for k
    using node_ids_Ok [OF assms] that by simp
  have "(p, e) \<in> set (engine_edges infos nodes) \<longleftrightarrow>
    (\<exists>k < length infos. \<exists>a \<in> set (ei_needs (infos ! k)). \<exists>q. last_producer infos a q
       \<and> p = the (im_get nodes (ei_id (infos ! q))) \<and> e = the (im_get nodes (ei_id (infos ! k))))"
  proof -
    have need: "(p, e) \<in> set (need_edges nodes (producers infos) infos x) \<longleftrightarrow> (\<exists>a \<in> set (ei_needs x). \<exists>q.
        last_producer infos a q \<and> p = the (im_get nodes (ei_id (infos ! q))) \<and> e = the (im_get nodes (ei_id x)))" for x
      unfolding need_edges_def producers_last [symmetric] by (auto simp: set_map_filter_iff)
    show ?thesis
      unfolding engine_edges_def set_concat set_map by (simp only: UN_iff bex_simps need) (metis in_set_conv_nth)
  qed
  also have "\<dots> \<longleftrightarrow> (\<exists>k < length infos. \<exists>a \<in> set (ei_needs (infos ! k)). \<exists>q. last_producer infos a q \<and> p = q \<and> e = k)"
    by (metis ids last_producer_def option.sel)
  finally show ?thesis by blast
qed

definition feeds :: "engine_info list \<Rightarrow> nat \<Rightarrow> nat \<Rightarrow> bool" where
  "feeds infos p e \<longleftrightarrow> e < length infos \<and> (\<exists>a \<in> set (ei_needs (infos ! e)). last_producer infos a p)"

definition respects_needs :: "engine_info list \<Rightarrow> nat list \<Rightarrow> bool" where
  "respects_needs infos order \<longleftrightarrow> (\<forall>p e. feeds infos p e \<longrightarrow> precedes order p e)"

text \<open>Claim C37: an accepted set of engines has no id twice, and the order runs each of them once
  and every engine after the last one in the list that produces an artifact it needs; a set is
  refused exactly for an id that is taken or for an engine that, through the artifacts, would
  have to run before itself.\<close>

theorem build_order_respects_needs:
  assumes "\<And>nodes. node_ids 0 infos [] = Ok nodes \<Longrightarrow>
      topological_answer (length infos) (engine_edges infos nodes) (toposort (length infos) (engine_edges infos nodes))"
  shows "case build_order toposort infos of
      Ok order \<Rightarrow> distinct (map ei_id infos) \<and> mset order = mset [0..<length infos]
        \<and> respects_needs infos order
    | Err (DuplicateEngine i) \<Rightarrow> \<not> distinct (map ei_id infos)
    | Err (CycleAt i) \<Rightarrow> (\<exists>c < length infos. ei_id (infos ! c) = i
        \<and> (c, c) \<in> {(p, e). feeds infos p e}\<^sup>+)
    | Err (UnknownEngine i) \<Rightarrow> False"
proof (cases "node_ids 0 infos []")
  case (Inl err)
  have "\<exists>i. err = DuplicateEngine i" using node_ids_Err [OF Inl] .
  moreover have "\<not> distinct (map ei_id infos)"
    using node_ids_distinct [of infos "[]" 0] Inl by (auto simp: im_keys_def)
  ultimately show ?thesis using Inl by (auto simp: build_order_def)
next
  case (Inr nodes)
  let ?E = "engine_edges infos nodes"
  note answer = assms [OF Inr]
  have edges: "set ?E = {(p, e). feeds infos p e}"
    using engine_edges_iff [OF Inr] by (auto simp: feeds_def)
  show ?thesis
  proof (cases "toposort (length infos) ?E")
    case (Inl c)
    with answer Inr show ?thesis by (auto simp: build_order_def topological_answer_def edges)
  next
    case order: (Inr order)
    with answer have "mset order = mset [0..<length infos]" "\<forall>(p, e) \<in> set ?E. precedes order p e"
      by (simp_all add: topological_answer_def)
    moreover have "distinct (map ei_id infos)" using node_ids_Ok [OF Inr] by blast
    ultimately show ?thesis
      using order Inr unfolding edges by (auto simp: build_order_def respects_needs_def)
  qed
qed

text \<open>A concrete sort: take the first node none of whose predecessors is left.\<close>

fun kahn :: "nat \<Rightarrow> (nat \<times> nat) list \<Rightarrow> nat list \<Rightarrow> nat + nat list" where
  "kahn 0 edges left = Inr []"
| "kahn (Suc fuel) edges left = (if left = [] then Inr [] else
     (case List.find (\<lambda>v. \<forall>(a, b) \<in> set edges. b = v \<longrightarrow> a \<notin> set left) left of
        None \<Rightarrow> Inl (hd left)
      | Some v \<Rightarrow> map_sum id ((#) v) (kahn fuel edges (remove1 v left))))"

definition kahn_sort :: "nat \<Rightarrow> (nat \<times> nat) list \<Rightarrow> nat + nat list" where
  "kahn_sort n edges = kahn n edges [0..<n]"

definition sample_engines :: "engine_info list" where
  "sample_engines =
     [\<lparr>ei_id = lit ''llm-translate'', ei_name = [], ei_needs = [OcrText], ei_produces = [Translations]\<rparr>,
      \<lparr>ei_id = lit ''comic-text-detector'', ei_name = [], ei_needs = [SourceImage], ei_produces = [TextBoxes, SegmentMask]\<rparr>,
      \<lparr>ei_id = lit ''paddle-ocr'', ei_name = [], ei_needs = [TextBoxes], ei_produces = [OcrText]\<rparr>]"

lemma sample_nodes: "node_ids 0 sample_engines [] = Ok nodes \<Longrightarrow> engine_edges sample_engines nodes = [(2, 0), (1, 2)]"
proof -
  assume "node_ids 0 sample_engines [] = Ok nodes"
  moreover have "node_ids 0 sample_engines [] = Ok [(lit ''llm-translate'', 0), (lit ''comic-text-detector'', 1), (lit ''paddle-ocr'', 2)]"
    by code_simp
  moreover have "engine_edges sample_engines [(lit ''llm-translate'', 0), (lit ''comic-text-detector'', 1), (lit ''paddle-ocr'', 2)] = [(2, 0), (1, 2)]"
    by code_simp
  ultimately show ?thesis by simp
qed

lemma sample_length: "length sample_engines = 3"
  by code_simp

lemma sample_sorted: "kahn_sort 3 [(2, 0), (1, 2)] = Inr [1, 2, 0]"
  by code_simp

lemma sample_answer: "topological_answer 3 [(2, 0), (1, 2)] (Inr [1, 2, 0])"
proof -
  have "precedes [1, 2, 0 :: nat] 2 0" unfolding precedes_def by (intro exI [of _ 1] exI [of _ 2]) simp
  moreover have "precedes [1, 2, 0 :: nat] 1 2" unfolding precedes_def by (intro exI [of _ 0] exI [of _ 1]) simp
  ultimately show ?thesis by (simp add: topological_answer_def upt_rec)
qed

theorem build_order_respects_needs_witness:
  "build_order kahn_sort sample_engines = Ok [1, 2, 0]
   \<and> (case build_order kahn_sort sample_engines of
      Ok order \<Rightarrow> distinct (map ei_id sample_engines) \<and> mset order = mset [0..<length sample_engines]
        \<and> respects_needs sample_engines order
    | Err (DuplicateEngine i) \<Rightarrow> \<not> distinct (map ei_id sample_engines)
    | Err (CycleAt i) \<Rightarrow> (\<exists>c < length sample_engines. ei_id (sample_engines ! c) = i
        \<and> (c, c) \<in> {(p, e). feeds sample_engines p e}\<^sup>+)
    | Err (UnknownEngine i) \<Rightarrow> False)"
proof
  show "build_order kahn_sort sample_engines = Ok [1, 2, 0]" by code_simp
qed (rule build_order_respects_needs, simp only: sample_nodes sample_length sample_sorted sample_answer)

end
