(* ===== verification/Pipeline_Run.thy ===== *)
theory Pipeline_Run
  imports Pipeline_Order Session_Props
begin

text \<open>
  The driver of the desktop pipeline (\<open>koharu-app/src/pipeline/mod.rs\<close>): the engines run page by
  page in the order of their artifacts, each output is applied to the session as one batch, and a
  failing step costs the rest of its page only. The driver awaits between its steps, so what the
  other users of the session did meanwhile is an argument, as are the engines and the flag.
\<close>

section \<open>Steps and ticks\<close>

datatype pipeline_step = Detect | Ocr | Inpaint | LlmGenerate | Render

definition step_of_artifact :: "artifact \<Rightarrow> pipeline_step option" where
  "step_of_artifact a = (case a of
     TextBoxes \<Rightarrow> Some Detect | SegmentMask \<Rightarrow> Some Detect | FontPredictions \<Rightarrow> Some Detect | BubbleMask \<Rightarrow> Some Detect
   | OcrText \<Rightarrow> Some Ocr | Translations \<Rightarrow> Some LlmGenerate | InpaintedImage \<Rightarrow> Some Inpaint | FinalRender \<Rightarrow> Some Render
   | _ \<Rightarrow> None)"

fun find_map :: "('a \<Rightarrow> 'b option) \<Rightarrow> 'a list \<Rightarrow> 'b option" where
  "find_map f [] = None"
| "find_map f (x # xs) = (case f x of None \<Rightarrow> find_map f xs | Some y \<Rightarrow> Some y)"

definition step_for :: "engine_info \<Rightarrow> pipeline_step option" where
  "step_for info = find_map step_of_artifact (ei_produces info)"

record progress_tick =
  pt_step :: "pipeline_step option"
  pt_step_id :: rstring
  pt_step_index :: nat
  pt_total_steps :: nat
  pt_page_index :: nat
  pt_total_pages :: nat
  pt_overall_percent :: nat

record warning_tick =
  wa_step_id :: rstring
  wa_page_index :: nat
  wa_total_pages :: nat
  wa_message :: rstring

section \<open>What the driver calls\<close>

text \<open>
  Every call of an engine may answer differently, so each is given the page and the step it is
  made at. \<open>ps_before\<close>, \<open>ps_loading\<close> and \<open>ps_during\<close> are what others did to the session before the step looked
  at it, while the engine was loaded and while it ran.
\<close>

record pipeline_services =
  ps_cancelled :: "nat \<Rightarrow> nat \<Rightarrow> bool"
  ps_before :: "nat \<Rightarrow> nat \<Rightarrow> session \<Rightarrow> session"
  ps_loading :: "nat \<Rightarrow> nat \<Rightarrow> session \<Rightarrow> session"
  ps_load :: "nat \<Rightarrow> nat \<Rightarrow> rstring \<Rightarrow> rstring + unit"
  ps_run :: "nat \<Rightarrow> nat \<Rightarrow> rstring \<Rightarrow> scene \<Rightarrow> page_id \<Rightarrow> rstring + op list"
  ps_during :: "nat \<Rightarrow> nat \<Rightarrow> session \<Rightarrow> session"
  ps_describe :: "history_error \<Rightarrow> rstring"
  ps_show_page :: "page_id \<Rightarrow> rstring"

record run_state =
  rn_session :: session
  rn_completed :: nat
  rn_warning_count :: nat
  rn_ticks :: "progress_tick list"
  rn_warnings :: "warning_tick list"

section \<open>The driver\<close>

definition report_step_failure :: "rstring \<Rightarrow> nat \<Rightarrow> nat \<Rightarrow> rstring \<Rightarrow> run_state \<Rightarrow> run_state" where
  "report_step_failure engine_id page_index total_pages message st =
     st\<lparr>rn_warning_count := rn_warning_count st + 1,
        rn_warnings := rn_warnings st @ [\<lparr>wa_step_id = engine_id, wa_page_index = page_index,
          wa_total_pages = total_pages, wa_message = message\<rparr>]\<rparr>"

definition overall_percent :: "nat \<Rightarrow> nat \<Rightarrow> nat" where
  "overall_percent completed total_units = min (completed * 100 div total_units) 100"

definition send_tick :: "engine_info \<Rightarrow> nat \<Rightarrow> nat \<Rightarrow> nat \<Rightarrow> nat \<Rightarrow> run_state \<Rightarrow> run_state" where
  "send_tick info seq total_steps page_index total_pages st =
     st\<lparr>rn_ticks := rn_ticks st @ [\<lparr>pt_step = step_for info, pt_step_id = ei_id info, pt_step_index = seq,
        pt_total_steps = total_steps, pt_page_index = page_index, pt_total_pages = total_pages,
        pt_overall_percent = overall_percent (rn_completed st) (total_pages * total_steps)\<rparr>]\<rparr>"

definition credit :: "nat \<Rightarrow> run_state \<Rightarrow> run_state" where
  "credit n st = st\<lparr>rn_completed := rn_completed st + n\<rparr>"

definition step_label :: "pipeline_services \<Rightarrow> engine_info \<Rightarrow> page_id \<Rightarrow> rstring" where
  "step_label sv info pid = ei_id info @ lit '': page '' @ ps_show_page sv pid"

datatype step_end = NextStep | NextPage | Cancelled

definition run_step ::
  "codecs \<Rightarrow> pipeline_services \<Rightarrow> nat \<Rightarrow> nat \<Rightarrow> nat \<Rightarrow> page_id \<Rightarrow> nat \<Rightarrow> engine_info \<Rightarrow> run_state \<Rightarrow> run_state \<times> step_end" where
  "run_step c sv total_steps total_pages page_index pid seq info st =
     (if ps_cancelled sv page_index seq then (st, Cancelled)
      else
        let st = send_tick info seq total_steps page_index total_pages st;
            st = st\<lparr>rn_session := ps_before sv page_index seq (rn_session st)\<rparr>
        in if \<not> im_contains_key (sc_pages (ses_scene (rn_session st))) pid
           then (credit (total_steps - seq) st, NextPage)
           else
             let loading = st\<lparr>rn_session := ps_loading sv page_index seq (rn_session st)\<rparr>
             in (case ps_load sv page_index seq (ei_id info) of
                 Inl err \<Rightarrow>
                   (credit (total_steps - seq) (report_step_failure (ei_id info) page_index total_pages err loading), NextPage)
               | Inr _ \<Rightarrow>
                   let result = ps_run sv page_index seq (ei_id info) (ses_scene (rn_session loading)) pid;
                       st = loading\<lparr>rn_session := ps_during sv page_index seq (rn_session loading)\<rparr>
                   in (case result of
                       Inl err \<Rightarrow>
                         (credit (total_steps - seq) (report_step_failure (ei_id info) page_index total_pages err st), NextPage)
                     | Inr ops \<Rightarrow>
                         let st = credit 1 st
                         in if ops = [] then (st, NextStep)
                            else (case session_apply c (rn_session st) (Batch ops (step_label sv info pid)) of
                                (Inl err, ses) \<Rightarrow>
                                  (report_step_failure (ei_id info) page_index total_pages (ps_describe sv err)
                                     (st\<lparr>rn_session := ses\<rparr>), NextPage)
                              | (Inr _, ses) \<Rightarrow> (st\<lparr>rn_session := ses\<rparr>, NextStep)))))"

fun run_page ::
  "codecs \<Rightarrow> pipeline_services \<Rightarrow> nat \<Rightarrow> nat \<Rightarrow> nat \<Rightarrow> page_id \<Rightarrow> (nat \<times> engine_info) list \<Rightarrow> run_state \<Rightarrow> run_state \<times> bool" where
  "run_page c sv total_steps total_pages page_index pid [] st = (st, True)"
| "run_page c sv total_steps total_pages page_index pid ((seq, info) # steps) st =
     (case run_step c sv total_steps total_pages page_index pid seq info st of
        (st, NextStep) \<Rightarrow> run_page c sv total_steps total_pages page_index pid steps st
      | (st, NextPage) \<Rightarrow> (st, True)
      | (st, Cancelled) \<Rightarrow> (st, False))"

fun run_pages ::
  "codecs \<Rightarrow> pipeline_services \<Rightarrow> nat \<Rightarrow> nat \<Rightarrow> (nat \<times> engine_info) list \<Rightarrow> (nat \<times> page_id) list \<Rightarrow> run_state \<Rightarrow> run_state \<times> bool" where
  "run_pages c sv total_steps total_pages steps [] st = (st, True)"
| "run_pages c sv total_steps total_pages steps ((page_index, pid) # pages) st =
     (case run_page c sv total_steps total_pages page_index pid steps st of
        (st, True) \<Rightarrow> run_pages c sv total_steps total_pages steps pages st
      | (st, False) \<Rightarrow> (st, False))"

datatype scope = WholeProject | Pages "page_id list"

record pipeline_spec =
  sp_scope :: scope
  sp_steps :: "rstring list"

datatype run_error = OrderError order_error | RunCancelled

fun find_engines :: "engine_info list \<Rightarrow> rstring list \<Rightarrow> order_error + engine_info list" where
  "find_engines catalog [] = Ok []"
| "find_engines catalog (i # is) =
     try_bind (find_engine catalog i) (\<lambda>e. try_bind (find_engines catalog is) (\<lambda>es. Ok (e # es)))"

definition final_tick :: "nat \<Rightarrow> nat \<Rightarrow> progress_tick" where
  "final_tick total_steps total_pages = \<lparr>pt_step = None, pt_step_id = [], pt_step_index = total_steps - 1,
     pt_total_steps = total_steps, pt_page_index = total_pages - 1, pt_total_pages = total_pages,
     pt_overall_percent = 100\<rparr>"

definition start_state :: "session \<Rightarrow> run_state" where
  "start_state ses = \<lparr>rn_session = ses, rn_completed = 0, rn_warning_count = 0, rn_ticks = [], rn_warnings = []\<rparr>"

definition run_scope :: "pipeline_spec \<Rightarrow> session \<Rightarrow> page_id list" where
  "run_scope spec ses = (case sp_scope spec of WholeProject \<Rightarrow> im_keys (sc_pages (ses_scene ses)) | Pages ids \<Rightarrow> ids)"

definition run_pipeline ::
  "codecs \<Rightarrow> (nat \<Rightarrow> (nat \<times> nat) list \<Rightarrow> nat + nat list) \<Rightarrow> engine_info list \<Rightarrow> pipeline_services \<Rightarrow> pipeline_spec
     \<Rightarrow> session \<Rightarrow> (run_error + nat) \<times> run_state" where
  "run_pipeline c toposort catalog sv spec ses =
     (case try_bind (find_engines catalog (sp_steps spec))
              (\<lambda>infos. try_bind (build_order toposort infos) (\<lambda>order. Ok (map ((!) infos) order))) of
        Inl e \<Rightarrow> (Err (OrderError e), start_state ses)
      | Inr engines \<Rightarrow>
          let pages = run_scope spec ses;
              total_pages = max (length pages) 1; total_steps = max (length engines) 1
          in (case run_pages c sv total_steps total_pages (enumerate 0 engines) (enumerate 0 pages) (start_state ses) of
              (st, False) \<Rightarrow> (Err RunCancelled, st)
            | (st, True) \<Rightarrow> (Ok (rn_warning_count st), st\<lparr>rn_ticks := rn_ticks st @ [final_tick total_steps total_pages]\<rparr>)))"

section \<open>Accounting\<close>

text \<open>
  What a part of the run may add: at most \<open>n\<close> completed units, ticks whose percentages never fall,
  and warnings that are counted.
\<close>

definition accounts :: "nat \<Rightarrow> nat \<Rightarrow> run_state \<Rightarrow> run_state \<Rightarrow> bool" where
  "accounts units n a b \<longleftrightarrow> rn_completed a \<le> rn_completed b \<and> rn_completed b \<le> rn_completed a + n
     \<and> (\<exists>ts. rn_ticks b = rn_ticks a @ ts \<and> sorted (map pt_overall_percent ts)
          \<and> (\<forall>t \<in> set ts. overall_percent (rn_completed a) units \<le> pt_overall_percent t
               \<and> pt_overall_percent t \<le> overall_percent (rn_completed b) units))
     \<and> (\<exists>ws. rn_warnings b = rn_warnings a @ ws \<and> rn_warning_count b = rn_warning_count a + length ws)"

lemma overall_percent_mono: "m \<le> n \<Longrightarrow> overall_percent m units \<le> overall_percent n units"
  unfolding overall_percent_def by (intro min.mono div_le_mono) simp_all

lemma overall_percent_le: "overall_percent n units \<le> 100"
  by (simp add: overall_percent_def)

lemma accounts_refl: "accounts units n a a"
  by (simp add: accounts_def)

lemma accounts_mono: "accounts units n a b \<Longrightarrow> n \<le> m \<Longrightarrow> accounts units m a b"
  by (auto simp: accounts_def)

lemma accounts_trans:
  assumes "accounts units n a b" "accounts units m b c"
  shows "accounts units (n + m) a c"
proof -
  obtain ts us where "rn_ticks b = rn_ticks a @ ts" "rn_ticks c = rn_ticks b @ us"
      and ts: "sorted (map pt_overall_percent ts)" "\<forall>t \<in> set ts. overall_percent (rn_completed a) units \<le> pt_overall_percent t
               \<and> pt_overall_percent t \<le> overall_percent (rn_completed b) units"
      and us: "sorted (map pt_overall_percent us)" "\<forall>t \<in> set us. overall_percent (rn_completed b) units \<le> pt_overall_percent t
               \<and> pt_overall_percent t \<le> overall_percent (rn_completed c) units"
    using assms unfolding accounts_def by metis
  moreover have mono: "overall_percent (rn_completed a) units \<le> overall_percent (rn_completed b) units"
      "overall_percent (rn_completed b) units \<le> overall_percent (rn_completed c) units"
    using assms by (auto simp: accounts_def intro: overall_percent_mono)
  have "sorted (map pt_overall_percent (ts @ us))"
    using ts us by (auto simp: sorted_append intro: order_trans)
  moreover have "\<forall>t \<in> set (ts @ us). overall_percent (rn_completed a) units \<le> pt_overall_percent t
               \<and> pt_overall_percent t \<le> overall_percent (rn_completed c) units"
    using ts us mono by (auto intro: order_trans)
  ultimately have ticks: "\<exists>ts. rn_ticks c = rn_ticks a @ ts \<and> sorted (map pt_overall_percent ts)
          \<and> (\<forall>t \<in> set ts. overall_percent (rn_completed a) units \<le> pt_overall_percent t
               \<and> pt_overall_percent t \<le> overall_percent (rn_completed c) units)" by auto
  have "\<exists>ws. rn_warnings c = rn_warnings a @ ws \<and> rn_warning_count c = rn_warning_count a + length ws"
    using assms unfolding accounts_def by fastforce
  with ticks assms show ?thesis unfolding accounts_def by auto
qed

lemma session_only: "accounts units n a (b\<lparr>rn_session := ses\<rparr>) \<longleftrightarrow> accounts units n a b"
  by (simp add: accounts_def)

definition tick_of :: "engine_info \<Rightarrow> nat \<Rightarrow> nat \<Rightarrow> nat \<Rightarrow> nat \<Rightarrow> nat \<Rightarrow> progress_tick" where
  "tick_of info seq total_steps page_index total_pages completed =
     \<lparr>pt_step = step_for info, pt_step_id = ei_id info, pt_step_index = seq,
      pt_total_steps = total_steps, pt_page_index = page_index, pt_total_pages = total_pages,
      pt_overall_percent = overall_percent completed (total_pages * total_steps)\<rparr>"

text \<open>What one step does to the account, however it ends.\<close>

lemma run_step_effect:
  assumes "run_step c sv total_steps total_pages page_index pid seq info st = (st', e)"
    and "\<not> ps_cancelled sv page_index seq"
  shows "e \<noteq> Cancelled"
    and "rn_ticks st' = rn_ticks st @ [tick_of info seq total_steps page_index total_pages (rn_completed st)]"
    and "e = NextStep \<Longrightarrow> rn_completed st' = rn_completed st + 1 \<and> rn_warnings st' = rn_warnings st
      \<and> rn_warning_count st' = rn_warning_count st"
    and "seq < total_steps \<Longrightarrow> rn_completed st \<le> rn_completed st' \<and> rn_completed st' \<le> rn_completed st + (total_steps - seq)"
    and "\<exists>ws. rn_warnings st' = rn_warnings st @ ws \<and> rn_warning_count st' = rn_warning_count st + length ws
      \<and> length ws \<le> 1 \<and> wa_page_index ` set ws \<subseteq> {page_index}"
  using assms
  by (auto simp: run_step_def Let_def credit_def report_step_failure_def send_tick_def tick_of_def
      split: if_splits sum.splits prod.splits)

lemma run_step_cancelled:
  "ps_cancelled sv page_index seq \<Longrightarrow> run_step c sv total_steps total_pages page_index pid seq info st = (st, Cancelled)"
  by (simp add: run_step_def)

lemma run_step_accounts:
  assumes "run_step c sv total_steps total_pages page_index pid seq info st = (st', e)"
    and "\<not> ps_cancelled sv page_index seq" "seq < total_steps"
  shows "accounts (total_pages * total_steps) (if e = NextStep then 1 else total_steps - seq) st st'"
proof -
  note eff = run_step_effect [OF assms(1,2)]
  have le: "rn_completed st \<le> rn_completed st'" "rn_completed st' \<le> rn_completed st + (if e = NextStep then 1 else total_steps - seq)"
    using eff(3) eff(4) [OF assms(3)] by auto
  have "pt_overall_percent (tick_of info seq total_steps page_index total_pages (rn_completed st))
      = overall_percent (rn_completed st) (total_pages * total_steps)"
    by (simp add: tick_of_def)
  then show ?thesis
    using le eff(2,5) overall_percent_mono [OF le(1)] unfolding accounts_def by auto
qed

text \<open>A page that is not cancelled: its account, its warnings and its first tick.\<close>

lemma run_page_effect:
  assumes "run_page c sv total_steps total_pages page_index pid (enumerate k infos) st = (st', go)"
    and "\<And>seq. \<not> ps_cancelled sv page_index seq" "k + length infos \<le> total_steps"
  shows "go \<and> accounts (total_pages * total_steps) (total_steps - k) st st'
    \<and> (\<exists>ws. rn_warnings st' = rn_warnings st @ ws \<and> length ws \<le> 1 \<and> wa_page_index ` set ws \<subseteq> {page_index})
    \<and> (infos \<noteq> [] \<longrightarrow> (page_index, k) \<in> (\<lambda>t. (pt_page_index t, pt_step_index t)) ` set (rn_ticks st'))
    \<and> set (rn_ticks st) \<subseteq> set (rn_ticks st')"
  using assms(1,3)
proof (induction infos arbitrary: k st)
  case Nil
  then show ?case by (auto simp: accounts_refl)
next
  case (Cons info infos)
  obtain st1 e where step: "run_step c sv total_steps total_pages page_index pid k info st = (st1, e)" by fastforce
  note eff = run_step_effect [OF step assms(2)]
  have acc: "accounts (total_pages * total_steps) (if e = NextStep then 1 else total_steps - k) st st1"
    using run_step_accounts [OF step assms(2)] Cons.prems(2) by simp
  have tick: "(page_index, k) \<in> (\<lambda>t. (pt_page_index t, pt_step_index t)) ` set (rn_ticks st1)"
      "set (rn_ticks st) \<subseteq> set (rn_ticks st1)"
    using eff(2) by (auto simp: tick_of_def)
  show ?case
  proof (cases e)
    case NextStep
    then have "run_page c sv total_steps total_pages page_index pid (enumerate (Suc k) infos) st1 = (st', go)"
      using Cons.prems(1) step by simp
    from Cons.IH [OF this] Cons.prems(2)
    have IH: "go" "accounts (total_pages * total_steps) (total_steps - Suc k) st1 st'"
      "\<exists>ws. rn_warnings st' = rn_warnings st1 @ ws \<and> length ws \<le> 1 \<and> wa_page_index ` set ws \<subseteq> {page_index}"
      "set (rn_ticks st1) \<subseteq> set (rn_ticks st')" by auto
    have "accounts (total_pages * total_steps) (1 + (total_steps - Suc k)) st st'"
      using accounts_trans [OF acc IH(2)] NextStep by simp
    moreover have "1 + (total_steps - Suc k) = total_steps - k" using Cons.prems(2) by simp
    ultimately show ?thesis using IH(1,3,4) tick eff(3) [OF NextStep] by auto
  next
    case NextPage
    then have "st' = st1" "go" using Cons.prems(1) step by simp_all
    with acc NextPage tick eff(5) show ?thesis by auto
  next
    case Cancelled
    with eff(1) show ?thesis by simp
  qed
qed

lemma run_pages_effect:
  assumes "run_pages c sv total_steps total_pages (enumerate 0 infos) (enumerate k pages) st = (st', go)"
    and "\<And>p seq. \<not> ps_cancelled sv p seq" "length infos \<le> total_steps"
  shows "go \<and> accounts (total_pages * total_steps) (length pages * total_steps) st st'
    \<and> (\<exists>ws. rn_warnings st' = rn_warnings st @ ws \<and> sorted_wrt (<) (map wa_page_index ws)
         \<and> wa_page_index ` set ws \<subseteq> {k..<k + length pages})
    \<and> (infos \<noteq> [] \<longrightarrow> (\<forall>p \<in> {k..<k + length pages}. (p, 0) \<in> (\<lambda>t. (pt_page_index t, pt_step_index t)) ` set (rn_ticks st')))
    \<and> set (rn_ticks st) \<subseteq> set (rn_ticks st')"
  using assms(1)
proof (induction pages arbitrary: k st)
  case Nil
  then show ?case by (auto simp: accounts_refl)
next
  case (Cons pid pages)
  obtain st1 g where page: "run_page c sv total_steps total_pages k pid (enumerate 0 infos) st = (st1, g)" by fastforce
  from run_page_effect [OF page assms(2)] assms(3)
  have one: "g" "accounts (total_pages * total_steps) total_steps st st1"
    "\<exists>ws. rn_warnings st1 = rn_warnings st @ ws \<and> length ws \<le> 1 \<and> wa_page_index ` set ws \<subseteq> {k}"
    "infos \<noteq> [] \<longrightarrow> (k, 0) \<in> (\<lambda>t. (pt_page_index t, pt_step_index t)) ` set (rn_ticks st1)"
    "set (rn_ticks st) \<subseteq> set (rn_ticks st1)" by auto
  then have "run_pages c sv total_steps total_pages (enumerate 0 infos) (enumerate (Suc k) pages) st1 = (st', go)"
    using Cons.prems page by simp
  note IH = Cons.IH [OF this]
  have acc: "accounts (total_pages * total_steps) (length (pid # pages) * total_steps) st st'"
    using accounts_trans [OF one(2)] IH by simp
  obtain ws vs where ws: "rn_warnings st1 = rn_warnings st @ ws" "length ws \<le> 1" "wa_page_index ` set ws \<subseteq> {k}"
      and vs: "rn_warnings st' = rn_warnings st1 @ vs" "sorted_wrt (<) (map wa_page_index vs)"
        "wa_page_index ` set vs \<subseteq> {Suc k..<Suc k + length pages}"
    using one(3) IH by blast
  have "sorted_wrt (<) (map wa_page_index ws)" using ws(2) by (cases ws) auto
  then have "sorted_wrt (<) (map wa_page_index (ws @ vs))"
    using ws(3) vs(2,3) by (fastforce simp: sorted_wrt_append)
  moreover have "wa_page_index ` set (ws @ vs) \<subseteq> {k..<k + length (pid # pages)}"
    using ws(3) vs(3) by fastforce
  ultimately have warn: "\<exists>ws. rn_warnings st' = rn_warnings st @ ws \<and> sorted_wrt (<) (map wa_page_index ws)
         \<and> wa_page_index ` set ws \<subseteq> {k..<k + length (pid # pages)}"
    using ws(1) vs(1) by auto
  have "(p, 0) \<in> (\<lambda>t. (pt_page_index t, pt_step_index t)) ` set (rn_ticks st')"
    if "infos \<noteq> []" "p \<in> {k..<k + length (pid # pages)}" for p
    using that one(4) IH by (cases "p = k") auto
  then show ?case using acc warn IH one(5) by blast
qed

section \<open>Properties\<close>


text \<open>What every step of the run keeps, if the others keep it and every batch does.\<close>

lemma run_step_keeps:
  assumes "run_step c sv total_steps total_pages page_index pid seq info st = (st', e)" "R (rn_session st)"
    and others: "\<And>p s x. R x \<Longrightarrow> R (ps_before sv p s x)" "\<And>p s x. R x \<Longrightarrow> R (ps_loading sv p s x)"
      "\<And>p s x. R x \<Longrightarrow> R (ps_during sv p s x)"
    and batch: "\<And>p s i sc pid ops x l. ps_run sv p s i sc pid = Ok ops \<Longrightarrow> ops \<noteq> [] \<Longrightarrow> R x \<Longrightarrow> R (snd (session_apply c x (Batch ops l)))"
  shows "R (rn_session st')"
proof -
  define x1 where "x1 = ps_before sv page_index seq (rn_session st)"
  define x2 where "x2 = ps_loading sv page_index seq x1"
  define x3 where "x3 = ps_during sv page_index seq x2"
  have R: "R x1" "R x2" "R x3" using assms(2) others by (simp_all add: x1_def x2_def x3_def)
  have "rn_session st' \<in> {rn_session st, x1, x2, x3} \<or>
      (\<exists>ops l. ps_run sv page_index seq (ei_id info) (ses_scene x2) pid = Ok ops \<and> ops \<noteq> [] \<and> rn_session st' = snd (session_apply c x3 (Batch ops l)))"
    using assms(1)
    by (auto simp: run_step_def Let_def credit_def report_step_failure_def send_tick_def x1_def x2_def x3_def
        split: if_splits sum.splits prod.splits) (metis snd_conv)+
  then show ?thesis using R assms(2) batch by auto
qed

lemma run_page_keeps:
  assumes "\<And>seq info st st' e. run_step c sv total_steps total_pages page_index pid seq info st = (st', e)
      \<Longrightarrow> R (rn_session st) \<Longrightarrow> R (rn_session st')"
    and "run_page c sv total_steps total_pages page_index pid steps st = (st', go)" "R (rn_session st)"
  shows "R (rn_session st')"
  using assms(2,3)
proof (induction steps arbitrary: st)
  case (Cons step steps)
  obtain seq info where "step = (seq, info)" by fastforce
  with Cons assms(1) show ?case by (fastforce split: prod.splits step_end.splits)
qed simp

lemma run_pages_keeps:
  assumes "\<And>p pid seq info st st' e. run_step c sv total_steps total_pages p pid seq info st = (st', e)
      \<Longrightarrow> R (rn_session st) \<Longrightarrow> R (rn_session st')"
    and "run_pages c sv total_steps total_pages steps pages st = (st', go)" "R (rn_session st)"
  shows "R (rn_session st')"
  using assms(2,3)
proof (induction pages arbitrary: st)
  case (Cons page pages)
  obtain p pid where page: "page = (p, pid)" by fastforce
  obtain st1 g where one: "run_page c sv total_steps total_pages p pid steps st = (st1, g)" by fastforce
  have "R (rn_session st1)" by (rule run_page_keeps [where R = R, OF _ one Cons.prems(2)]) (rule assms(1))
  with Cons page one show ?case by (auto split: if_splits bool.splits)
qed simp

text \<open>An output that is applied as a whole or not at all, whatever the scene.\<close>

definition all_or_nothing :: "op list \<Rightarrow> bool" where
  "all_or_nothing ops \<longleftrightarrow> (\<forall>l s e s'. apply_op (Batch ops l) s = (Inl e, s') \<longrightarrow> s' = s)"

lemma session_apply_rejects_whole:
  assumes "all_or_nothing ops" "session_apply c x (Batch ops l) = (Inl (ApplyFailed e), x')"
  shows "ses_scene x' = ses_scene x"
proof (cases "apply_op (Batch ops l) (ses_scene x)")
  case (Pair r s')
  with assms(2) have "r = Inl e \<and> ses_scene x' = s'"
    by (auto simp: session_apply_def history_apply_def write_frame_def Let_def
        split: sum.splits prod.splits option.splits if_splits)
  with Pair assms(1) show ?thesis unfolding all_or_nothing_def by blast
qed


section \<open>A concrete run\<close>

definition sample_page :: page where
  "sample_page = new_page (PageId 1) (lit ''p'') 100 100"

text \<open>Two frames are all the run writes.\<close>

definition page_frame :: log_frame where "page_frame = \<lparr>fr_epoch = 1, fr_op = AddPage sample_page 0\<rparr>"

definition run_codecs :: codecs where
  "run_codecs = \<lparr>enc_frame = (\<lambda>f. if f = page_frame then Some [1] else Some []),
     dec_frame = (\<lambda>b. if b = [1] then Some page_frame else None),
     enc_snapshot = (\<lambda>s. None), dec_snapshot = (\<lambda>b. None),
     dec_toml = (\<lambda>t. Some \<lparr>pt_name = t, pt_created_at = 0, pt_updated_at = 0\<rparr>)\<rparr>"

definition paged_session :: session where
  "paged_session = snd (session_apply run_codecs demo_session (AddPage sample_page 0))"

lemma run_fresh: "reachable run_codecs 0 0 demo_session"
proof (rule fresh [of "\<lparr>dir_scene_bin = None, dir_log = None, dir_toml = Some (lit ''a'')\<rparr>" _ _ False])
  show "open_inner run_codecs 0 \<lparr>dir_scene_bin = None, dir_log = None, dir_toml = Some (lit ''a'')\<rparr> False
      = Ok demo_session"
    by (simp add: open_inner_def load_snapshot_def run_codecs_def replay_def demo_session_def
        named_scene_def default_scene_def default_project_meta_def)
qed simp_all

lemma paged_ok: "fst (session_apply run_codecs demo_session (AddPage sample_page 0)) = Inr 1"
  by code_simp

lemma sample_page_ok: "page_ok sample_page"
  by (simp add: sample_page_def new_page_def page_ok_def keyed_def roles_ok_def role_count_def im_values_def im_keys_def)

lemma paged_reachable: "reachable run_codecs 0 1 paged_session"
proof -
  have "session_apply run_codecs demo_session (AddPage sample_page 0) = (Inr 1, paged_session)"
    by (rule prod_eqI) (simp_all add: paged_ok paged_session_def)
  from reachable.applied [OF run_fresh _ this] sample_page_ok show ?thesis by simp
qed

definition detect_engine :: engine_info where
  "detect_engine = \<lparr>ei_id = lit ''detect'', ei_name = [], ei_needs = [SourceImage], ei_produces = [TextBoxes]\<rparr>"

definition sample_services :: "op list \<Rightarrow> pipeline_services" where
  "sample_services ops = \<lparr>ps_cancelled = (\<lambda>p s. False), ps_before = (\<lambda>p s x. x), ps_loading = (\<lambda>p s x. x),
     ps_load = (\<lambda>p s i. Ok ()), ps_run = (\<lambda>p s i sc pid. Ok ops), ps_during = (\<lambda>p s x. x),
     ps_describe = (\<lambda>e. lit ''failed''), ps_show_page = (\<lambda>pid. lit ''1'')\<rparr>"

definition sample_spec :: pipeline_spec where
  "sample_spec = \<lparr>sp_scope = WholeProject, sp_steps = [lit ''detect'']\<rparr>"

definition sample_run :: "op list \<Rightarrow> (run_error + nat) \<times> run_state" where
  "sample_run ops = run_pipeline run_codecs kahn_sort [detect_engine] (sample_services ops) sample_spec paged_session"

text \<open>The engine renames the page and orders a node that is not, or no longer, on it.\<close>

definition stale_ops :: "op list" where
  "stale_ops = [UpdatePage (PageId 1) \<lparr>pp_name = Some (lit ''q''), pp_width = None, pp_height = None\<rparr>
       \<lparr>pp_name = None, pp_width = None, pp_height = None\<rparr>,
     ReorderNodes (PageId 1) [NodeId 7] []]"

lemma sample_order: "find_engines [detect_engine] (sp_steps sample_spec) = Ok [detect_engine]"
  "build_order kahn_sort [detect_engine] = Ok [0]"
  by code_simp+


lemma rename_whole: "all_or_nothing [rename_op]"
  by (auto simp: all_or_nothing_def rename_op_def apply_update_project_meta_def Let_def split: prod.splits sum.splits)


text \<open>A batch that fails half way is not undone. An engine whose second operation no
  longer applies costs the page a warning, but its first operation stays in the scene without a
  trace in the log or the undo stack: the files of the session reopen to another scene than the
  one in memory.\<close>

theorem failed_batch_diverges_from_log:
  "reachable run_codecs 0 1 paged_session \<and> fst (sample_run stale_ops) = Ok 1
    \<and> ses_history (rn_session (snd (sample_run stale_ops))) = ses_history paged_session
    \<and> ses_scene (rn_session (snd (sample_run stale_ops))) \<noteq> ses_scene paged_session
    \<and> map_sum id ses_scene (open_inner run_codecs 0 (on_disk (rn_session (snd (sample_run stale_ops)))) False)
        = Ok (ses_scene paged_session)"
proof (intro conjI paged_reachable)
  show "fst (sample_run stale_ops) = Ok 1" by code_simp
  show "ses_history (rn_session (snd (sample_run stale_ops))) = ses_history paged_session" by code_simp
  show "ses_scene (rn_session (snd (sample_run stale_ops))) \<noteq> ses_scene paged_session" by code_simp
  show "map_sum id ses_scene (open_inner run_codecs 0 (on_disk (rn_session (snd (sample_run stale_ops)))) False)
        = Ok (ses_scene paged_session)" by code_simp
qed

end
