(* ===== verification/Result_Cache.thy ===== *)
theory Result_Cache
  imports Job_Storage Chapter_Context
begin

text \<open>
  The persistent cache of finished results (\<open>browser-companion/src/result_cache.rs\<close>): the identity
  a result is filed under, the checks on what is stored and loaded, and the index by age that
  keeps the directory within its limit. JSON, Base64, SHA-256, the decoder of PNG images and the
  clock are parameters; file operations succeed.
\<close>

section \<open>Limits and errors\<close>

definition RESULT_CACHE_MAX_BYTES :: nat where "RESULT_CACHE_MAX_BYTES = 2 * 1024 * 1024 * 1024"
definition RESULT_CACHE_MAX_ENTRY_BYTES :: nat where "RESULT_CACHE_MAX_ENTRY_BYTES = 512 * 1024 * 1024"
definition RESULT_CACHE_MAX_DECODED_PATCH_BYTES :: nat where "RESULT_CACHE_MAX_DECODED_PATCH_BYTES = 256 * 1024 * 1024"
definition RESULT_CACHE_SCHEMA :: rstring where
  "RESULT_CACHE_SCHEMA = lit ''hskify-source-revision-result-2026-10-01-v2''"

datatype cache_error =
  InvalidItem contract_error | DuplicateTerminal | DuplicatePatch | NotOnePerBlock | MissingSource rstring
| SourceMismatch | WrongModality | DecodedLimit | Base64Invalid | LengthOverflow | PngInvalid | Unserializable
| Unparsable | EntryLimit | IdentityMismatch | CacheLimit

definition lift_error :: "contract_error + unit \<Rightarrow> cache_error + unit" where
  "lift_error r = (case r of Inl e \<Rightarrow> Err (InvalidItem e) | Inr u \<Rightarrow> Ok u)"

section \<open>What may be cached\<close>

fun check_ready :: "rstring list \<Rightarrow> document_block_ready list \<Rightarrow> cache_error + rstring list" where
  "check_ready ids [] = Ok ids"
| "check_ready ids (b # bs) =
     try_bind (lift_error (validate_update (DocumentBlockReady 1 b)))
       (\<lambda>_. if br_item_id b \<in> set ids then Err DuplicateTerminal else check_ready (br_item_id b # ids) bs)"

fun check_preserved :: "rstring list \<Rightarrow> document_block_preserved list \<Rightarrow> cache_error + rstring list" where
  "check_preserved ids [] = Ok ids"
| "check_preserved ids (b # bs) =
     try_bind (lift_error (validate_update (DocumentBlockPreserved 1 b)))
       (\<lambda>_. if bp_item_id b \<in> set ids then Err DuplicateTerminal else check_preserved (bp_item_id b # ids) bs)"

definition validate_cached_document :: "cached_document_job \<Rightarrow> cache_error + unit" where
  "validate_cached_document job =
     try_bind (check_ready [] (cd_blocks job))
       (\<lambda>ids. try_bind (check_preserved ids (cd_preserved job)) (\<lambda>_. Ok ()))"

text \<open>What a terminal item says about its source block.\<close>

record terminal_item =
  ti_parent_block_id :: rstring
  ti_sub_item_order :: u32
  ti_source_index :: u32
  ti_item_order :: u32
  ti_kind :: source_span_kind
  ti_source_text :: rstring

definition ready_terminal :: "document_block_ready \<Rightarrow> rstring \<times> terminal_item" where
  "ready_terminal b = (br_item_id b, \<lparr>ti_parent_block_id = br_parent_block_id b, ti_sub_item_order = br_sub_item_order b,
     ti_source_index = br_source_index b, ti_item_order = br_item_order b, ti_kind = br_kind b,
     ti_source_text = tx_source_text (br_text b)\<rparr>)"

definition preserved_terminal :: "document_block_preserved \<Rightarrow> rstring \<times> terminal_item" where
  "preserved_terminal b = (bp_item_id b, \<lparr>ti_parent_block_id = bp_parent_block_id b, ti_sub_item_order = bp_sub_item_order b,
     ti_source_index = bp_source_index b, ti_item_order = bp_item_order b, ti_kind = bp_kind b,
     ti_source_text = bp_source_text b\<rparr>)"

definition job_terminals :: "cached_document_job \<Rightarrow> (rstring, terminal_item) index_map" where
  "job_terminals job = fold (\<lambda>(k, t) m. im_insert m k t)
     (map ready_terminal (cd_blocks job) @ map preserved_terminal (cd_preserved job)) []"

definition matches_source :: "terminal_item \<Rightarrow> document_source_block \<Rightarrow> bool" where
  "matches_source t s \<longleftrightarrow> ti_parent_block_id t = sb_parent_block_id s \<and> ti_sub_item_order t = sb_sub_item_order s
     \<and> ti_source_index t = sb_source_index s \<and> ti_item_order t = sb_item_order s \<and> ti_kind t = sb_kind s
     \<and> ti_source_text t = sb_text s"

fun check_sources :: "(rstring, terminal_item) index_map \<Rightarrow> document_source_block list \<Rightarrow> cache_error + unit" where
  "check_sources terminals [] = Ok ()"
| "check_sources terminals (s # ss) = (case im_get terminals (sb_item_id s) of
       None \<Rightarrow> Err (MissingSource (sb_item_id s))
     | Some t \<Rightarrow> if \<not> matches_source t s then Err SourceMismatch else check_sources terminals ss)"

definition validate_against :: "cached_document_job \<Rightarrow> document_job_request \<Rightarrow> cache_error + unit" where
  "validate_against job request =
     try_bind (validate_cached_document job)
       (\<lambda>_. let terminals = job_terminals job
            in if length terminals \<noteq> length (dj_blocks request) then Err NotOnePerBlock
               else check_sources terminals (dj_blocks request))"

fun check_regions :: "rstring list \<Rightarrow> rstring list \<Rightarrow> cached_image_region list \<Rightarrow> cache_error + rstring list" where
  "check_regions ids patches [] = Ok ids"
| "check_regions ids patches (c # cs) =
     try_bind (lift_error (validate_region_ready ''region'' (cr_region c)))
       (\<lambda>_. if ir_item_id (cr_region c) \<in> set ids then Err DuplicateTerminal
            else if rp_blob_id (ir_patch (cr_region c)) \<in> set patches then Err DuplicatePatch
            else check_regions (ir_item_id (cr_region c) # ids) (rp_blob_id (ir_patch (cr_region c)) # patches) cs)"

fun check_kept_regions :: "rstring list \<Rightarrow> image_region_preserved list \<Rightarrow> cache_error + unit" where
  "check_kept_regions ids [] = Ok ()"
| "check_kept_regions ids (r # rs) =
     try_bind (lift_error (validate_update (ImageRegionPreserved 1 r)))
       (\<lambda>_. if ip_item_id r \<in> set ids then Err DuplicateTerminal else check_kept_regions (ip_item_id r # ids) rs)"

definition validate_cached_image :: "cached_image_job \<Rightarrow> cache_error + unit" where
  "validate_cached_image job =
     try_bind (check_regions [] [] (ci_regions job)) (\<lambda>ids. check_kept_regions ids (ci_preserved job))"

section \<open>Identities and keys\<close>

record image_cache_identity =
  ic_source_index :: u32
  ic_source_sha256 :: rstring
  ic_natural_width :: u32
  ic_natural_height :: u32
  ic_surface_kind :: browser_surface_kind
  ic_reading_direction :: reading_direction
  ic_settings :: browser_job_settings
  ic_surrounding_context :: "chapter_context_unit list"

record document_cache_identity =
  dc_source_sha256 :: rstring
  dc_settings :: browser_job_settings
  dc_blocks :: "document_source_block list"

datatype cache_source_identity = ImageIdentity image_cache_identity | DocumentIdentity document_cache_identity

definition image_identity :: "'c image_pipeline_input \<Rightarrow> chapter_context_unit list \<Rightarrow> cache_source_identity" where
  "image_identity request surrounding = ImageIdentity \<lparr>ic_source_index = ip_source_index request,
     ic_source_sha256 = ip_source_sha256 request, ic_natural_width = ip_natural_width request,
     ic_natural_height = ip_natural_height request, ic_surface_kind = ip_surface_kind request,
     ic_reading_direction = ip_reading_direction request, ic_settings = ip_settings request,
     ic_surrounding_context = surrounding\<rparr>"

definition document_identity :: "document_job_request \<Rightarrow> cache_source_identity" where
  "document_identity request = DocumentIdentity \<lparr>dc_source_sha256 = dj_source_sha256 request,
     dc_settings = dj_settings request, dc_blocks = dj_blocks request\<rparr>"

record stored_region =
  sr_region :: image_region_ready
  sr_patch_png_base64 :: rstring

datatype stored_chapter_result =
  StoredImage "stored_region list" "image_region_preserved list"
| StoredDocument "document_block_ready list" "document_block_preserved list"

record stored_job =
  sj_schema :: rstring
  sj_build_fingerprint :: rstring
  sj_pipeline_fingerprint :: rstring
  sj_key :: rstring
  sj_result :: stored_chapter_result

text \<open>The codecs of the cache and the fingerprint of the pipeline, a hash over build constants.\<close>

record cache_codecs =
  cx_material :: "rstring \<Rightarrow> rstring \<Rightarrow> rstring \<Rightarrow> cache_source_identity \<Rightarrow> u8 list option"
  cx_sha256_hex :: "u8 list \<Rightarrow> rstring"
  cx_to_json :: "stored_job \<Rightarrow> u8 list option"
  cx_from_json :: "u8 list \<Rightarrow> stored_job option"
  cx_base64 :: "u8 list \<Rightarrow> rstring"
  cx_base64_decode :: "rstring \<Rightarrow> u8 list option"
  cx_png_decodes :: "u8 list \<Rightarrow> nat \<Rightarrow> bool"
  cx_pipeline_fingerprint :: rstring

definition cache_key :: "cache_codecs \<Rightarrow> cache_source_identity \<Rightarrow> cache_error + rstring" where
  "cache_key cx identity =
     (case cx_material cx RESULT_CACHE_SCHEMA (lit BUILD_FINGERPRINT) (cx_pipeline_fingerprint cx) identity of
        None \<Rightarrow> Err Unserializable | Some bytes \<Rightarrow> Ok (cx_sha256_hex cx bytes))"

section \<open>The index and the directory\<close>

text \<open>
  The directory maps the key of a \<open>.json\<close> file to its bytes and the time of its last change; other
  files are neither read nor removed.
\<close>

record cache_file =
  cf_bytes :: "u8 list"
  cf_modified :: nat

record cache_index =
  ix_entries :: "(nat \<times> rstring, nat) btree_map"
  ix_paths :: "(rstring, nat \<times> nat) index_map"
  ix_total :: nat

record result_cache =
  rc_files :: "(rstring, cache_file) index_map"
  rc_max_bytes :: nat
  rc_max_entry_bytes :: nat
  rc_max_decoded_patch_bytes :: nat
  rc_index :: "cache_index option"

definition new_result_cache :: "(rstring, cache_file) index_map \<Rightarrow> result_cache" where
  "new_result_cache files = \<lparr>rc_files = files, rc_max_bytes = RESULT_CACHE_MAX_BYTES,
     rc_max_entry_bytes = RESULT_CACHE_MAX_ENTRY_BYTES,
     rc_max_decoded_patch_bytes = RESULT_CACHE_MAX_DECODED_PATCH_BYTES, rc_index = None\<rparr>"

definition empty_index :: cache_index where
  "empty_index = \<lparr>ix_entries = [], ix_paths = [], ix_total = 0\<rparr>"

definition im_remove :: "'k \<Rightarrow> ('k, 'v) index_map \<Rightarrow> ('k, 'v) index_map" where
  "im_remove k m = filter (\<lambda>e. fst e \<noteq> k) m"

definition index_insert :: "rstring \<Rightarrow> nat \<Rightarrow> nat \<Rightarrow> cache_index \<Rightarrow> cache_index" where
  "index_insert path bytes modified ix =
     (let ix' = (case im_get (ix_paths ix) path of
            None \<Rightarrow> ix
          | Some (time, old_bytes) \<Rightarrow> ix\<lparr>ix_entries := im_remove (time, path) (ix_entries ix),
              ix_total := ix_total ix - old_bytes\<rparr>)
      in ix'\<lparr>ix_paths := im_insert (ix_paths ix') path (modified, bytes),
             ix_entries := bt_insert (ix_entries ix') (modified, path) bytes,
             ix_total := min (ix_total ix' + bytes) U64_MAX\<rparr>)"

definition scan_directory :: "(rstring, cache_file) index_map \<Rightarrow> cache_index" where
  "scan_directory files = fold (\<lambda>(path, f). index_insert path (length (cf_bytes f)) (cf_modified f)) files empty_index"

function prune_loop ::
  "nat \<Rightarrow> rstring option \<Rightarrow> cache_index \<Rightarrow> (rstring, cache_file) index_map
     \<Rightarrow> (cache_error + unit) \<times> cache_index \<times> (rstring, cache_file) index_map" where
  "prune_loop max_bytes protected ix files =
     (if ix_total ix \<le> max_bytes then (Ok (), ix, files)
      else (case ix_entries ix of
          [] \<Rightarrow> (Ok (), ix, files)
        | ((time, path), bytes) # rest \<Rightarrow>
            if protected = Some path then (Err CacheLimit, ix, files)
            else prune_loop max_bytes protected
              (ix\<lparr>ix_entries := rest, ix_paths := im_remove path (ix_paths ix), ix_total := ix_total ix - bytes\<rparr>)
              (im_remove path files)))"
  by pat_completeness auto
termination by (relation "measure (\<lambda>(m, p, ix, f). length (ix_entries ix))") auto

declare prune_loop.simps [simp del]

definition prune_to_limit :: "rstring option \<Rightarrow> result_cache \<Rightarrow> (cache_error + unit) \<times> result_cache" where
  "prune_to_limit protected c =
     (let ix = (case rc_index c of None \<Rightarrow> scan_directory (rc_files c) | Some ix \<Rightarrow> ix);
          ix = (case protected of None \<Rightarrow> ix
             | Some path \<Rightarrow> (case im_get (rc_files c) path of None \<Rightarrow> ix
                  | Some f \<Rightarrow> index_insert path (length (cf_bytes f)) (cf_modified f) ix));
          (res, ix, files) = prune_loop (rc_max_bytes c) protected ix (rc_files c)
      in (res, c\<lparr>rc_index := Some ix, rc_files := files\<rparr>))"

section \<open>Store\<close>

definition store_stored :: "cache_codecs \<Rightarrow> nat \<Rightarrow> stored_job \<Rightarrow> result_cache \<Rightarrow> (cache_error + unit) \<times> result_cache" where
  "store_stored cx now stored c =
     (case cx_to_json cx stored of
        None \<Rightarrow> (Err Unserializable, c)
      | Some bytes \<Rightarrow>
          if rc_max_entry_bytes c < length bytes \<or> rc_max_bytes c < length bytes then (Err EntryLimit, c)
          else prune_to_limit (Some (sj_key stored))
            (c\<lparr>rc_files := im_insert (rc_files c) (sj_key stored) \<lparr>cf_bytes = bytes, cf_modified = now\<rparr>\<rparr>))"

definition store_document ::
  "cache_codecs \<Rightarrow> nat \<Rightarrow> document_job_request \<Rightarrow> cached_document_job \<Rightarrow> result_cache \<Rightarrow> (cache_error + unit) \<times> result_cache" where
  "store_document cx now request job c =
     (case try_bind (validate_against job request) (\<lambda>_. cache_key cx (document_identity request)) of
        Inl e \<Rightarrow> (Err e, c)
      | Inr key \<Rightarrow> store_stored cx now
          \<lparr>sj_schema = RESULT_CACHE_SCHEMA, sj_build_fingerprint = lit BUILD_FINGERPRINT,
           sj_pipeline_fingerprint = cx_pipeline_fingerprint cx, sj_key = key,
           sj_result = StoredDocument (cd_blocks job) (cd_preserved job)\<rparr> c)"

definition is_png :: "u8 list \<Rightarrow> bool" where
  "is_png bytes \<longleftrightarrow> 8 \<le> length bytes \<and> take 8 bytes = [137, 80, 78, 71, 13, 10, 26, 10]"

fun encode_regions :: "cache_codecs \<Rightarrow> nat \<Rightarrow> nat \<Rightarrow> cached_image_region list \<Rightarrow> cache_error + stored_region list" where
  "encode_regions cx limit decoded [] = Ok []"
| "encode_regions cx limit decoded (r # rs) =
     try_bind (lift_error (validate_region_ready ''region'' (cr_region r)))
       (\<lambda>_. let total = decoded + length (cr_patch_png r)
            in if \<not> is_png (cr_patch_png r) then Err PngInvalid
               else if U64_MAX < total then Err LengthOverflow
               else if limit < total then Err DecodedLimit
               else try_bind (encode_regions cx limit total rs)
                 (\<lambda>ss. Ok (\<lparr>sr_region = cr_region r, sr_patch_png_base64 = cx_base64 cx (cr_patch_png r)\<rparr> # ss)))"

definition store_image ::
  "cache_codecs \<Rightarrow> nat \<Rightarrow> 'c image_pipeline_input \<Rightarrow> chapter_context_unit list \<Rightarrow> cached_image_job \<Rightarrow> result_cache
     \<Rightarrow> (cache_error + unit) \<times> result_cache" where
  "store_image cx now request surrounding job c =
     (case try_bind (validate_cached_image job) (\<lambda>_. try_bind (cache_key cx (image_identity request surrounding))
             (\<lambda>key. try_bind (encode_regions cx (rc_max_decoded_patch_bytes c) 0 (ci_regions job)) (\<lambda>rs. Ok (key, rs)))) of
        Inl e \<Rightarrow> (Err e, c)
      | Inr (key, regions) \<Rightarrow> store_stored cx now
          \<lparr>sj_schema = RESULT_CACHE_SCHEMA, sj_build_fingerprint = lit BUILD_FINGERPRINT,
           sj_pipeline_fingerprint = cx_pipeline_fingerprint cx, sj_key = key,
           sj_result = StoredImage regions (ci_preserved job)\<rparr> c)"

section \<open>Load and invalidate\<close>

definition load_stored :: "cache_codecs \<Rightarrow> rstring \<Rightarrow> result_cache \<Rightarrow> cache_error + stored_job option" where
  "load_stored cx key c =
     (case im_get (rc_files c) key of
        None \<Rightarrow> Ok None
      | Some f \<Rightarrow>
          if rc_max_entry_bytes c < length (cf_bytes f) then Err EntryLimit
          else (case cx_from_json cx (cf_bytes f) of
              None \<Rightarrow> Err Unparsable
            | Some stored \<Rightarrow>
                if sj_schema stored \<noteq> RESULT_CACHE_SCHEMA \<or> sj_build_fingerprint stored \<noteq> lit BUILD_FINGERPRINT
                   \<or> sj_pipeline_fingerprint stored \<noteq> cx_pipeline_fingerprint cx \<or> sj_key stored \<noteq> key
                then Err IdentityMismatch else Ok (Some stored)))"

definition load_document :: "cache_codecs \<Rightarrow> document_job_request \<Rightarrow> result_cache \<Rightarrow> cache_error + cached_document_job option" where
  "load_document cx request c =
     try_bind (cache_key cx (document_identity request))
       (\<lambda>key. try_bind (load_stored cx key c)
         (\<lambda>stored. case stored of
            None \<Rightarrow> Ok None
          | Some s \<Rightarrow> (case sj_result s of
                StoredImage _ _ \<Rightarrow> Err WrongModality
              | StoredDocument blocks kept \<Rightarrow>
                  let job = \<lparr>cd_blocks = blocks, cd_preserved = kept\<rparr>
                  in try_bind (validate_against job request) (\<lambda>_. Ok (Some job)))))"

definition base64_decoded_upper_bound :: "nat \<Rightarrow> cache_error + nat" where
  "base64_decoded_upper_bound encoded_len =
     (if U64_MAX < encoded_len + 3 \<or> U64_MAX < (encoded_len + 3) div 4 * 3 then Err LengthOverflow
      else Ok ((encoded_len + 3) div 4 * 3))"

fun decode_regions :: "cache_codecs \<Rightarrow> nat \<Rightarrow> nat \<Rightarrow> stored_region list \<Rightarrow> cache_error + cached_image_region list" where
  "decode_regions cx limit decoded [] = Ok []"
| "decode_regions cx limit decoded (s # ss) =
     try_bind (lift_error (validate_region_ready ''region'' (sr_region s)))
       (\<lambda>_. try_bind (base64_decoded_upper_bound (str_len (sr_patch_png_base64 s)))
         (\<lambda>bound. if limit - decoded < bound then Err DecodedLimit
            else (case cx_base64_decode cx (sr_patch_png_base64 s) of
                None \<Rightarrow> Err Base64Invalid
              | Some png \<Rightarrow>
                  let total = decoded + length png
                  in if U64_MAX < total then Err LengthOverflow
                     else if limit < total then Err DecodedLimit
                     else if \<not> cx_png_decodes cx png limit then Err PngInvalid
                     else try_bind (decode_regions cx limit total ss)
                       (\<lambda>rs. Ok (\<lparr>cr_region = sr_region s, cr_patch_png = png\<rparr> # rs)))))"

definition load_image ::
  "cache_codecs \<Rightarrow> 'c image_pipeline_input \<Rightarrow> chapter_context_unit list \<Rightarrow> result_cache \<Rightarrow> cache_error + cached_image_job option" where
  "load_image cx request surrounding c =
     try_bind (cache_key cx (image_identity request surrounding))
       (\<lambda>key. try_bind (load_stored cx key c)
         (\<lambda>stored. case stored of
            None \<Rightarrow> Ok None
          | Some s \<Rightarrow> (case sj_result s of
                StoredDocument _ _ \<Rightarrow> Err WrongModality
              | StoredImage regions kept \<Rightarrow>
                  try_bind (decode_regions cx (rc_max_decoded_patch_bytes c) 0 regions)
                    (\<lambda>rs. let job = \<lparr>ci_regions = rs, ci_preserved = kept\<rparr>
                          in try_bind (validate_cached_image job) (\<lambda>_. Ok (Some job))))))"

text \<open>The file goes, the index is left as it is.\<close>

definition invalidate_key :: "cache_error + rstring \<Rightarrow> result_cache \<Rightarrow> (cache_error + unit) \<times> result_cache" where
  "invalidate_key key c = (case key of Inl e \<Rightarrow> (Err e, c) | Inr k \<Rightarrow> (Ok (), c\<lparr>rc_files := im_remove k (rc_files c)\<rparr>))"

definition invalidate_document :: "cache_codecs \<Rightarrow> document_job_request \<Rightarrow> result_cache \<Rightarrow> (cache_error + unit) \<times> result_cache" where
  "invalidate_document cx request = invalidate_key (cache_key cx (document_identity request))"

definition invalidate_image ::
  "cache_codecs \<Rightarrow> 'c image_pipeline_input \<Rightarrow> chapter_context_unit list \<Rightarrow> result_cache \<Rightarrow> (cache_error + unit) \<times> result_cache" where
  "invalidate_image cx request surrounding = invalidate_key (cache_key cx (image_identity request surrounding))"

end
