(* ===== verification/Result_Cache_Props.thy ===== *)
theory Result_Cache_Props
  imports Result_Cache Pipeline_Order Contracts_Props Job_Props
begin

text \<open>
  The properties of the result cache: a loaded document belongs to its request, what was stored
  is loaded again, the directory stays within its limit, and what invalidated entries cost.
\<close>

section \<open>A loaded document\<close>

definition source_terminal :: "document_source_block \<Rightarrow> rstring \<times> terminal_item" where
  "source_terminal s = (sb_item_id s, \<lparr>ti_parent_block_id = sb_parent_block_id s, ti_sub_item_order = sb_sub_item_order s,
     ti_source_index = sb_source_index s, ti_item_order = sb_item_order s, ti_kind = sb_kind s, ti_source_text = sb_text s\<rparr>)"

definition terminals_of :: "cached_document_job \<Rightarrow> (rstring \<times> terminal_item) list" where
  "terminals_of job = map ready_terminal (cd_blocks job) @ map preserved_terminal (cd_preserved job)"

lemma check_ready_Ok:
  "check_ready ids bs = Ok ids' \<Longrightarrow> ids' = rev (map br_item_id bs) @ ids \<and> (distinct ids \<longrightarrow> distinct (rev (map br_item_id bs) @ ids))
     \<and> (\<forall>b \<in> set bs. validate_update (DocumentBlockReady 1 b) = Ok ())"
  by (induction ids bs rule: check_ready.induct) (auto simp: lift_error_def disjoint_iff split: sum.splits if_splits)

lemma check_preserved_Ok:
  "check_preserved ids bs = Ok ids' \<Longrightarrow> ids' = rev (map bp_item_id bs) @ ids \<and> (distinct ids \<longrightarrow> distinct (rev (map bp_item_id bs) @ ids))
     \<and> (\<forall>b \<in> set bs. validate_update (DocumentBlockPreserved 1 b) = Ok ())"
  by (induction ids bs rule: check_preserved.induct) (auto simp: lift_error_def disjoint_iff split: sum.splits if_splits)

lemma fst_terminals: "map fst (terminals_of job) = map br_item_id (cd_blocks job) @ map bp_item_id (cd_preserved job)"
  by (simp add: terminals_of_def ready_terminal_def preserved_terminal_def comp_def)

lemma validate_cached_document_Ok:
  assumes "validate_cached_document job = Ok ()"
  shows "distinct (map fst (terminals_of job))"
    and "\<forall>b \<in> set (cd_blocks job). validate_update (DocumentBlockReady 1 b) = Ok ()"
    and "\<forall>b \<in> set (cd_preserved job). validate_update (DocumentBlockPreserved 1 b) = Ok ()"
proof -
  from assms obtain ids ids' where "check_ready [] (cd_blocks job) = Ok ids" "check_preserved ids (cd_preserved job) = Ok ids'"
    by (auto simp: validate_cached_document_def)
  note ok = check_ready_Ok [OF this(1)] check_preserved_Ok [OF this(2)]
  then have "distinct (rev (map bp_item_id (cd_preserved job)) @ rev (map br_item_id (cd_blocks job)))" by auto
  then show "distinct (map fst (terminals_of job))" unfolding fst_terminals by auto
  show "\<forall>b \<in> set (cd_blocks job). validate_update (DocumentBlockReady 1 b) = Ok ()"
    "\<forall>b \<in> set (cd_preserved job). validate_update (DocumentBlockPreserved 1 b) = Ok ()" using ok by simp_all
qed

lemma fold_insert_distinct:
  "distinct (map fst xs) \<Longrightarrow> set (map fst xs) \<inter> set (im_keys m) = {} \<Longrightarrow> fold (\<lambda>(k, t) m. im_insert m k t) xs m = m @ xs"
  by (induction xs arbitrary: m) (auto simp: im_insert_def im_contains_key_def im_keys_def)

lemma job_terminals_eq: "distinct (map fst (terminals_of job)) \<Longrightarrow> job_terminals job = terminals_of job"
  unfolding job_terminals_def terminals_of_def [symmetric] by (simp add: fold_insert_distinct im_keys_def)

lemma check_sources_Ok:
  "check_sources terminals ss = Ok () \<Longrightarrow> s \<in> set ss \<Longrightarrow> source_terminal s \<in> set terminals"
proof (induction terminals ss rule: check_sources.induct)
  case (2 terminals s' ss)
  from 2(2) obtain t where t: "im_get terminals (sb_item_id s') = Some t" "matches_source t s'" "check_sources terminals ss = Ok ()"
    by (auto split: option.splits if_splits)
  have "source_terminal s' = (sb_item_id s', t)"
    using t(2) by (auto simp: matches_source_def source_terminal_def intro: terminal_item.equality)
  moreover have "(sb_item_id s', t) \<in> set terminals" using t(1) by (simp add: im_get_def map_of_SomeD)
  ultimately show ?case using 2 t by auto
qed simp

lemma check_sources_refl:
  assumes "set (map source_terminal ss) \<subseteq> set terminals" "distinct (map fst terminals)"
  shows "check_sources terminals ss = Ok ()"
  using assms(1)
proof (induction ss)
  case (Cons s ss)
  then have "im_get terminals (sb_item_id s) = Some (snd (source_terminal s))"
    using assms(2) by (auto simp: im_get_def source_terminal_def intro!: map_of_is_SomeI)
  with Cons show ?case by (simp add: source_terminal_def matches_source_def)
qed simp

text \<open>What \<open>validate_against\<close> guarantees, for a request whose items have distinct ids.\<close>

lemma validate_against_Ok:
  assumes "validate_against job request = Ok ()" "distinct (map sb_item_id (dj_blocks request))"
  shows "mset (terminals_of job) = mset (map source_terminal (dj_blocks request))"
    and "validate_cached_document job = Ok ()"
proof -
  show valid: "validate_cached_document job = Ok ()" using assms(1) by (auto simp: validate_against_def)
  note d = validate_cached_document_Ok(1) [OF valid]
  from assms(1) have len: "length (terminals_of job) = length (dj_blocks request)"
      and check: "check_sources (terminals_of job) (dj_blocks request) = Ok ()"
    using job_terminals_eq [OF d] by (auto simp: validate_against_def Let_def split: if_splits)
  have dist: "distinct (map source_terminal (dj_blocks request))"
    using assms(2) by (auto simp: distinct_map source_terminal_def inj_on_def)
  have sub: "set (map source_terminal (dj_blocks request)) \<subseteq> set (terminals_of job)"
    using check_sources_Ok [OF check] by auto
  have "distinct (terminals_of job)" using d by (simp add: distinct_map)
  moreover have "card (set (map source_terminal (dj_blocks request))) = card (set (terminals_of job))"
    using dist calculation len by (simp only: distinct_card length_map)
  then have "set (map source_terminal (dj_blocks request)) = set (terminals_of job)"
    using sub by (simp add: card_subset_eq)
  ultimately show "mset (terminals_of job) = mset (map source_terminal (dj_blocks request))"
    using dist by (metis set_eq_iff_mset_eq_distinct)
qed

text \<open>Claim C40: whatever is in the cache directory, a document that is loaded belongs to its
  request: it has exactly one terminal item per source block, under the id, parent, position and
  kind of the block and with its source text, and every item passes the contract of updates.\<close>

theorem loaded_document_belongs_to_request:
  assumes "load_document cx request c = Ok (Some job)" "distinct (map sb_item_id (dj_blocks request))"
  shows "mset (terminals_of job) = mset (map source_terminal (dj_blocks request))
    \<and> list_all (\<lambda>b. validate_update (DocumentBlockReady 1 b) = Ok ()) (cd_blocks job)
    \<and> list_all (\<lambda>b. validate_update (DocumentBlockPreserved 1 b) = Ok ()) (cd_preserved job)"
proof -
  have "validate_against job request = Ok ()"
  proof -
    from assms(1) obtain key stored where "cache_key cx (document_identity request) = Ok key"
        "load_stored cx key c = Ok stored" by (auto simp: load_document_def)
    with assms(1) show ?thesis
      by (cases stored; cases "sj_result (the stored)") (auto simp: load_document_def Let_def)
  qed
  from validate_against_Ok [OF this assms(2)] show ?thesis
    using validate_cached_document_Ok by (simp add: list_all_iff)
qed

section \<open>Pruning\<close>

definition index_sound :: "cache_index \<Rightarrow> bool" where
  "index_sound ix \<longleftrightarrow> distinct (im_keys (ix_paths ix)) \<and> bt_ok (ix_entries ix)
     \<and> set (ix_entries ix) = (\<lambda>(p, t, b). ((t, p), b)) ` set (ix_paths ix)
     \<and> ix_total ix = sum_list (map snd (ix_entries ix))"

lemma index_soundD:
  assumes "index_sound ix"
  shows "distinct (im_keys (ix_paths ix))" "bt_ok (ix_entries ix)"
    "set (ix_entries ix) = (\<lambda>(p, t, b). ((t, p), b)) ` set (ix_paths ix)"
    "ix_total ix = sum_list (map snd (ix_entries ix))"
  using assms by (simp_all add: index_sound_def)

text \<open>Every file of the directory is in the index with its size; the index may know more.\<close>

definition covers :: "cache_index \<Rightarrow> (rstring, cache_file) index_map \<Rightarrow> bool" where
  "covers ix files \<longleftrightarrow> distinct (im_keys files)
     \<and> (\<forall>(k, f) \<in> set files. im_get (ix_paths ix) k = Some (cf_modified f, length (cf_bytes f)))"

definition disk_bytes :: "(rstring, cache_file) index_map \<Rightarrow> nat" where
  "disk_bytes files = sum_list (map (\<lambda>(k, f). length (cf_bytes f)) files)"

lemma bt_ok_distinct_entries: "bt_ok m \<Longrightarrow> distinct m"
  using bt_ok_distinct [of m] by (simp add: bt_keys_def distinct_map)

lemma total_by_paths:
  assumes "index_sound ix"
  shows "ix_total ix = (\<Sum>(p, t, b) \<in> set (ix_paths ix). b)"
proof -
  have "ix_total ix = sum snd (set (ix_entries ix))"
    unfolding index_soundD(4) [OF assms]
    by (rule sum_list_distinct_conv_sum_set [OF bt_ok_distinct_entries [OF index_soundD(2) [OF assms]]])
  also have "\<dots> = (\<Sum>x \<in> set (ix_paths ix). snd ((\<lambda>(p, t, b). ((t, p), b)) x))"
    unfolding index_soundD(3) [OF assms] by (rule sum.reindex_cong [OF _ refl]) (auto simp: inj_on_def)
  also have "\<dots> = (\<Sum>(p, t, b) \<in> set (ix_paths ix). b)" by (rule sum.cong) auto
  finally show ?thesis .
qed

lemma disk_bytes_le_total:
  assumes "index_sound ix" "covers ix files"
  shows "disk_bytes files \<le> ix_total ix"
proof -
  have d: "distinct files" using assms(2) by (simp add: covers_def im_keys_def distinct_map)
  let ?g = "\<lambda>(k, f). (k, cf_modified f, length (cf_bytes f))"
  have "disk_bytes files = (\<Sum>(k, f) \<in> set files. length (cf_bytes f))"
    using d by (simp add: disk_bytes_def sum_list_distinct_conv_sum_set)
  also have "\<dots> = (\<Sum>(p, t, b) \<in> ?g ` set files. b)"
  proof (rule sum.reindex_cong [symmetric, of ?g])
    show "inj_on ?g (set files)"
    proof (rule inj_on_imageI2 [where f' = fst])
      have "fst \<circ> ?g = (fst :: rstring \<times> cache_file \<Rightarrow> rstring)" by (rule ext) auto
      moreover have "inj_on fst (set files)"
        using assms(2) by (simp add: covers_def im_keys_def distinct_map)
      ultimately show "inj_on (fst \<circ> ?g) (set files)" by (simp only:)
    qed
  qed auto
  also have "\<dots> \<le> (\<Sum>(p, t, b) \<in> set (ix_paths ix). b)"
    using assms(2) by (intro sum_mono2) (auto simp: covers_def im_get_def dest!: map_of_SomeD)
  finally show ?thesis using total_by_paths [OF assms(1)] by simp
qed

text \<open>One insertion.\<close>

lemma im_keys_remove: "distinct (im_keys m) \<Longrightarrow> distinct (im_keys (im_remove k m))"
  by (auto simp: im_keys_def im_remove_def distinct_map intro: inj_on_subset)

lemma im_get_remove: "im_get (im_remove k m) j = (if j = k then None else im_get m j)"
  by (induction m) (auto simp: im_get_def im_remove_def)

lemma bt_ok_remove: "bt_ok m \<Longrightarrow> bt_ok (im_remove k m)"
  unfolding bt_ok_def bt_keys_def im_remove_def sorted_wrt_map by (rule sorted_wrt_filter)

lemma sum_list_bt_insert:
  "k \<notin> set (bt_keys m) \<Longrightarrow> sum_list (map snd (bt_insert m k v)) = sum_list (map snd m) + (v :: nat)"
  by (induction m k v rule: bt_insert.induct) (auto simp: bt_keys_def)

lemma set_bt_entries_insert: "k \<notin> set (bt_keys m) \<Longrightarrow> set (bt_insert m k v) = insert (k, v) (set m)"
  by (induction m k v rule: bt_insert.induct) (auto simp: bt_keys_def)

lemma sum_list_remove:
  "distinct (map fst m) \<Longrightarrow> (k, v) \<in> set m \<Longrightarrow> sum_list (map snd (im_remove k m)) + v = sum_list (map snd m)" for v :: nat
proof (induction m)
  case (Cons x m)
  show ?case
  proof (cases "x = (k, v)")
    case True
    then have "filter (\<lambda>e. fst e \<noteq> k) m = m" using Cons.prems by (auto intro!: filter_True)
    with True show ?thesis by (simp add: im_remove_def)
  next
    case False
    then have m: "(k, v) \<in> set m" using Cons.prems by auto
    then have "k \<in> fst ` set m" by force
    then have "fst x \<noteq> k" using Cons.prems by auto
    with m Cons show ?thesis by (simp add: im_remove_def)
  qed
qed simp

lemma in_im_set:
  "(j, w) \<in> set (im_set m k v) \<longleftrightarrow> (if j = k then w = v \<and> im_contains_key m k else (j, w) \<in> set m)"
  by (induction m) (auto simp: im_set_def im_contains_key_def im_keys_def split: if_splits)

lemma set_im_set: "im_contains_key m k \<Longrightarrow> set (im_set m k v) = insert (k, v) (set (im_remove k m))"
  by (rule set_eqI) (auto simp: in_im_set im_remove_def split: if_splits)

lemma drop_path_sound:
  assumes "index_sound ix" "im_get (ix_paths ix) p = Some (t, b)"
  shows "index_sound (ix\<lparr>ix_entries := im_remove (t, p) (ix_entries ix), ix_paths := im_remove p (ix_paths ix),
      ix_total := ix_total ix - b\<rparr>)"
proof -
  note s = index_soundD [OF assms(1)]
  have p: "(p, t, b) \<in> set (ix_paths ix)" using assms(2) by (simp add: im_get_def map_of_SomeD)
  then have e: "((t, p), b) \<in> set (ix_entries ix)" unfolding s(3) by (rule rev_image_eqI) simp
  have only: "t' = t" if "(p, t', b') \<in> set (ix_paths ix)" for t' b'
    using that p s(1) unfolding im_keys_def by (auto dest: eq_key_imp_eq_value)
  have "set (im_remove (t, p) (ix_entries ix)) = (\<lambda>(p, t, b). ((t, p), b)) ` set (im_remove p (ix_paths ix))"
    using only unfolding im_remove_def set_filter s(3) by force
  moreover have "ix_total ix - b = sum_list (map snd (im_remove (t, p) (ix_entries ix)))"
    using sum_list_remove [OF _ e] bt_ok_distinct [OF s(2)] s(4) by (simp add: bt_keys_def)
  ultimately show ?thesis
    using s(1,2) by (simp add: index_sound_def im_keys_remove bt_ok_remove)
qed

lemma index_insert_sound:
  assumes "index_sound ix" "ix_total ix + bytes \<le> U64_MAX"
  shows "index_sound (index_insert path bytes modified ix)"
    and "im_get (ix_paths (index_insert path bytes modified ix)) q
      = (if q = path then Some (modified, bytes) else im_get (ix_paths ix) q)"
    and "ix_total (index_insert path bytes modified ix) \<le> ix_total ix + bytes"
proof -
  define base where "base = (case im_get (ix_paths ix) path of None \<Rightarrow> ix
    | Some (t, b) \<Rightarrow> ix\<lparr>ix_entries := im_remove (t, path) (ix_entries ix), ix_paths := im_remove path (ix_paths ix),
        ix_total := ix_total ix - b\<rparr>)"
  have sound: "index_sound base"
    using assms(1) drop_path_sound [OF assms(1)] by (auto simp: base_def split: option.splits)
  have free: "path \<notin> set (im_keys (ix_paths base))"
    by (auto simp: base_def im_keys_def im_remove_def im_get_def map_of_eq_None_iff split: option.splits)
  note s = index_soundD [OF sound]
  have total: "ix_total base \<le> ix_total ix" by (auto simp: base_def split: option.splits)
  have unused: "(modified, path) \<notin> set (bt_keys (ix_entries base))"
  proof
    assume "(modified, path) \<in> set (bt_keys (ix_entries base))"
    then obtain b where "((modified, path), b) \<in> set (ix_entries base)" by (auto simp: bt_keys_def)
    then have "(path, modified, b) \<in> set (ix_paths base)" unfolding s(3) by auto
    with free show False by (force simp: im_keys_def)
  qed
  let ?new = "index_insert path bytes modified ix"
  have entries: "ix_entries ?new = bt_insert (ix_entries base) (modified, path) bytes"
    and sum: "ix_total ?new = ix_total base + bytes"
    using assms(2) total by (auto simp: index_insert_def base_def Let_def split: option.splits)
  have paths: "set (ix_paths ?new) = insert (path, modified, bytes) (set (ix_paths base))"
    and keys: "distinct (im_keys (ix_paths ?new))"
  proof -
    have "ix_paths ?new = im_insert (ix_paths ix) path (modified, bytes)"
      by (auto simp: index_insert_def Let_def split: option.splits)
    moreover have "set (im_insert (ix_paths ix) path (modified, bytes)) = insert (path, modified, bytes) (set (ix_paths base))
        \<and> distinct (im_keys (im_insert (ix_paths ix) path (modified, bytes)))"
    proof (cases "im_get (ix_paths ix) path")
      case None
      then have "path \<notin> fst ` set (ix_paths ix)" by (simp add: im_get_def map_of_eq_None_iff)
      then show ?thesis
        using None index_soundD(1) [OF assms(1)] by (simp add: base_def im_insert_def im_contains_key_def im_keys_def)
    next
      case (Some v)
      then have "im_contains_key (ix_paths ix) path" by (auto simp: im_contains_key_iff)
      then show ?thesis
        using Some index_soundD(1) [OF assms(1)] by (cases v) (simp add: base_def im_insert_def set_im_set)
    qed
    ultimately show "set (ix_paths ?new) = insert (path, modified, bytes) (set (ix_paths base))"
      "distinct (im_keys (ix_paths ?new))" by simp_all
  qed
  have "set (ix_entries ?new) = (\<lambda>(p, t, b). ((t, p), b)) ` set (ix_paths ?new)"
    unfolding entries set_bt_entries_insert [OF unused] paths s(3) by simp
  moreover have "ix_total ?new = sum_list (map snd (ix_entries ?new))"
    unfolding entries sum sum_list_bt_insert [OF unused] s(4) by simp
  ultimately show "index_sound ?new"
    using keys s(2) by (simp add: index_sound_def entries)
  show "im_get (ix_paths ?new) q = (if q = path then Some (modified, bytes) else im_get (ix_paths ix) q)"
    by (auto simp: index_insert_def Let_def im_get_insert split: option.splits)
  show "ix_total ?new \<le> ix_total ix + bytes" using sum total by simp
qed

text \<open>The loop: what is dropped are the first entries, the oldest, and their files.\<close>

lemma prune_loop_spec:
  assumes "prune_loop max_bytes protected ix files = (res, ix', files')" "index_sound ix"
  shows "index_sound ix' \<and> ix_total ix' \<le> ix_total ix
    \<and> (\<exists>n. ix_entries ix' = drop n (ix_entries ix)
         \<and> files' = filter (\<lambda>e. fst e \<notin> snd ` fst ` set (take n (ix_entries ix))) files
         \<and> (\<forall>p. protected = Some p \<longrightarrow> p \<notin> snd ` fst ` set (take n (ix_entries ix))))
    \<and> (covers ix files \<longrightarrow> covers ix' files')
    \<and> (case res of Ok _ \<Rightarrow> ix_total ix' \<le> max_bytes
       | Err e \<Rightarrow> e = CacheLimit \<and> max_bytes < ix_total ix'
           \<and> (\<exists>t p b rest. protected = Some p \<and> ix_entries ix' = ((t, p), b) # rest))"
  using assms
proof (induction max_bytes protected ix files rule: prune_loop.induct)
  case (1 max_bytes protected ix files)
  show ?case
  proof (cases "ix_total ix \<le> max_bytes")
    case True
    then show ?thesis using 1(2,3) by (auto simp: prune_loop.simps [of max_bytes] intro!: exI [of _ 0])
  next
    case over: False
    show ?thesis
    proof (cases "ix_entries ix")
      case Nil
      with over index_soundD(4) [OF 1(3)] show ?thesis by simp
    next
      case (Cons entry rest)
      obtain t p b where entry: "entry = ((t, p), b)" by (metis prod.exhaust)
      show ?thesis
      proof (cases "protected = Some p")
        case True
        then show ?thesis
          using 1(2,3) over Cons entry by (auto simp: prune_loop.simps [of max_bytes] intro!: exI [of _ 0])
      next
        case False
        let ?ix = "ix\<lparr>ix_entries := rest, ix_paths := im_remove p (ix_paths ix), ix_total := ix_total ix - b\<rparr>"
        note s = index_soundD [OF 1(3)]
        have path: "im_get (ix_paths ix) p = Some (t, b)"
          using s(1,3) Cons entry by (fastforce simp: im_get_def im_keys_def intro!: map_of_is_SomeI)
        have rest: "im_remove (t, p) (ix_entries ix) = rest"
          using bt_ok_distinct [OF s(2)] Cons entry by (auto simp: im_remove_def bt_keys_def intro!: filter_True) force
        have sound: "index_sound ?ix" using drop_path_sound [OF 1(3) path] rest by simp
        have next_run: "prune_loop max_bytes protected ?ix (im_remove p files) = (res, ix', files')"
          using 1(2) over Cons entry False by (simp add: prune_loop.simps [of max_bytes])
        note IH = 1(1) [OF over Cons entry [symmetric] refl False next_run sound]
        then obtain n where n: "ix_entries ix' = drop n rest"
            "files' = filter (\<lambda>e. fst e \<notin> snd ` fst ` set (take n rest)) (im_remove p files)"
            "\<forall>q. protected = Some q \<longrightarrow> q \<notin> snd ` fst ` set (take n rest)" by auto
        have "ix_entries ix' = drop (Suc n) (ix_entries ix)" using n(1) Cons by simp
        moreover have "files' = filter (\<lambda>e. fst e \<notin> snd ` fst ` set (take (Suc n) (ix_entries ix))) files"
          unfolding n(2) im_remove_def filter_filter Cons entry by (rule filter_cong) auto
        moreover have "\<forall>q. protected = Some q \<longrightarrow> q \<notin> snd ` fst ` set (take (Suc n) (ix_entries ix))"
          using n(3) False Cons entry by auto
        moreover have "covers ?ix (im_remove p files)" if "covers ix files"
          using that unfolding covers_def by (auto simp: im_keys_remove im_get_remove) (auto simp: im_remove_def)
        moreover have "ix_total ix' \<le> ix_total ix"
          using conjunct1 [OF conjunct2 [OF IH]] by simp
        ultimately show ?thesis using IH by blast
      qed
    qed
  qed
qed

section \<open>The cache over its whole life\<close>

definition current_index :: "result_cache \<Rightarrow> cache_index" where
  "current_index c = (case rc_index c of None \<Rightarrow> scan_directory (rc_files c) | Some ix \<Rightarrow> ix)"

definition cache_sound_within :: "nat \<Rightarrow> result_cache \<Rightarrow> bool" where
  "cache_sound_within n c \<longleftrightarrow> index_sound (current_index c) \<and> covers (current_index c) (rc_files c)
     \<and> ix_total (current_index c) \<le> n"

lemma scan_directory_ok:
  "distinct (im_keys files) \<Longrightarrow> disk_bytes files \<le> U64_MAX \<Longrightarrow> index_sound (scan_directory files)
     \<and> covers (scan_directory files) files \<and> ix_total (scan_directory files) \<le> disk_bytes files"
proof (induction files rule: rev_induct)
  case Nil
  then show ?case by (simp add: scan_directory_def empty_index_def index_sound_def covers_def im_keys_def disk_bytes_def)
next
  case (snoc x files)
  obtain k f where x: "x = (k, f)" by fastforce
  have bytes: "disk_bytes (files @ [x]) = disk_bytes files + length (cf_bytes f)" by (simp add: disk_bytes_def x)
  then have IH: "index_sound (scan_directory files)" "covers (scan_directory files) files"
      "ix_total (scan_directory files) \<le> disk_bytes files"
    using snoc by (auto simp: im_keys_def)
  have "ix_total (scan_directory files) + length (cf_bytes f) \<le> U64_MAX" using IH(3) bytes snoc.prems(2) by simp
  note ins = index_insert_sound [OF IH(1) this, where path = k and modified = "cf_modified f"]
  have step: "scan_directory (files @ [x]) = index_insert k (length (cf_bytes f)) (cf_modified f) (scan_directory files)"
    by (simp add: scan_directory_def x)
  have "covers (scan_directory (files @ [x])) (files @ [x])"
    unfolding covers_def step
  proof (intro conjI ballI)
    show "distinct (im_keys (files @ [x]))" by (rule snoc.prems(1))
    fix e assume e: "e \<in> set (files @ [x])"
    obtain j g where jg: "e = (j, g)" by fastforce
    show "case e of (k', f') \<Rightarrow> im_get (ix_paths (index_insert k (length (cf_bytes f)) (cf_modified f) (scan_directory files))) k'
        = Some (cf_modified f', length (cf_bytes f'))"
    proof (cases "j = k")
      case True
      then have "(j, g) \<notin> set files" using snoc.prems(1) by (force simp: im_keys_def x)
      then show ?thesis using e jg x True by (simp add: ins(2))
    next
      case False
      then have "(j, g) \<in> set files" using e jg x by simp
      then show ?thesis using IH(2) False unfolding jg covers_def by (auto simp: ins(2))
    qed
  qed
  then show ?case using ins(1,3) IH(3) bytes unfolding step by simp
qed

lemma new_cache_sound:
  "distinct (im_keys files) \<Longrightarrow> disk_bytes files \<le> U64_MAX \<Longrightarrow> cache_sound_within (disk_bytes files) (new_result_cache files)"
  using scan_directory_ok by (simp add: cache_sound_within_def current_index_def new_result_cache_def)

lemma disk_bytes_insert:
  assumes "distinct (im_keys files)"
  shows "disk_bytes (im_insert files k f) \<le> disk_bytes files + length (cf_bytes f)"
proof (cases "im_contains_key files k")
  case True
  have "distinct (im_keys fs) \<Longrightarrow> disk_bytes (im_set fs k f) \<le> disk_bytes fs + length (cf_bytes f)" for fs
  proof (induction fs)
    case (Cons x fs)
    have IH: "disk_bytes (im_set fs k f) \<le> disk_bytes fs + length (cf_bytes f)" using Cons by (simp add: im_keys_def)
    show ?case
    proof (cases "fst x = k")
      case True
      have "k' \<noteq> k" if "(k', v') \<in> set fs" for k' v'
        using Cons.prems True imageI [OF that, of fst] by (simp add: im_keys_def) metis
      then have "im_set fs k f = fs"
        unfolding im_set_def by (intro map_idI) auto
      then have "im_set (x # fs) k f = (k, f) # fs" using True by (cases x) (simp add: im_set_def)
      then show ?thesis by (cases x) (simp add: disk_bytes_def)
    next
      case False
      then have "im_set (x # fs) k f = x # im_set fs k f" by (cases x) (simp add: im_set_def)
      then show ?thesis using IH by (cases x) (simp add: disk_bytes_def)
    qed
  qed (simp add: disk_bytes_def im_set_def)
  with True assms show ?thesis by (simp add: im_insert_def)
next
  case False
  then show ?thesis by (simp add: im_insert_def disk_bytes_def)
qed

lemma distinct_im_insert: "distinct (im_keys files) \<Longrightarrow> distinct (im_keys (im_insert files k f))"
  by (simp add: im_insert_def im_contains_key_def) (auto simp: im_keys_def)

text \<open>The index a store prunes, when the file has been written.\<close>

lemma store_written:
  assumes "cache_sound_within n c" "n + 2 * length (cf_bytes f) \<le> U64_MAX"
    and "files = im_insert (rc_files c) key f" "now = cf_modified f"
    and "ix = index_insert key (length (cf_bytes f)) now (case rc_index c of None \<Rightarrow> scan_directory files | Some ix \<Rightarrow> ix)"
  shows "index_sound ix" "covers ix files" "ix_total ix \<le> n + 2 * length (cf_bytes f)"
proof -
  let ?base = "case rc_index c of None \<Rightarrow> scan_directory files | Some ix \<Rightarrow> ix"
  have c: "index_sound (current_index c)" "covers (current_index c) (rc_files c)" "ix_total (current_index c) \<le> n"
    using assms(1) by (simp_all add: cache_sound_within_def)
  have files: "distinct (im_keys files)"
    using c(2) by (simp add: assms(3) covers_def distinct_im_insert)
  have get: "g = f" if "(key, g) \<in> set files" for g
    using that files unfolding assms(3) im_insert_def
    by (cases "im_contains_key (rc_files c) key") (auto simp: in_im_set im_contains_key_def im_keys_def, force)
  have "disk_bytes files \<le> n + length (cf_bytes f)"
    using disk_bytes_insert [of "rc_files c" key f] disk_bytes_le_total [OF c(1,2)] c(2,3)
    by (simp add: covers_def assms(3))
  then have scan: "index_sound (scan_directory files)" "covers (scan_directory files) files" "ix_total (scan_directory files) \<le> n + length (cf_bytes f)"
    using scan_directory_ok [OF files] assms(2) by auto
  have base: "index_sound ?base" "ix_total ?base \<le> n + length (cf_bytes f)"
    using scan c by (auto simp: current_index_def split: option.splits)
  have others: "im_get (ix_paths ?base) j = Some (cf_modified g, length (cf_bytes g))"
    if j: "(j, g) \<in> set files" "j \<noteq> key" for j g
  proof -
    have "(j, g) \<in> set (rc_files c)"
      using j unfolding assms(3) im_insert_def by (auto simp: in_im_set split: if_splits)
    then show ?thesis
      using scan(2) c(2) j by (auto simp: covers_def current_index_def split: option.splits)
  qed
  have "ix_total ?base + length (cf_bytes f) \<le> U64_MAX" using base(2) assms(2) by simp
  note ins = index_insert_sound [OF base(1) this, where path = key and modified = now]
  show "index_sound ix" "ix_total ix \<le> n + 2 * length (cf_bytes f)"
    using ins(1,3) base(2) by (simp_all add: assms(5))
  show "covers ix files" unfolding covers_def
    unfolding assms(5) ins(2) using files get others by (auto simp: assms(4))
qed

lemma store_stored_effect:
  assumes "cache_sound_within n c" "n + 2 * rc_max_entry_bytes c \<le> U64_MAX"
    and "store_stored cx now stored c = (res, c')"
  shows "cache_sound_within (n + 2 * rc_max_entry_bytes c) c'
    \<and> rc_max_bytes c' = rc_max_bytes c \<and> rc_max_entry_bytes c' = rc_max_entry_bytes c
    \<and> (res = Ok () \<longrightarrow> cache_sound_within (rc_max_bytes c) c' \<and> disk_bytes (rc_files c') \<le> rc_max_bytes c
         \<and> (\<exists>bytes. cx_to_json cx stored = Some bytes \<and> length bytes \<le> rc_max_entry_bytes c
              \<and> im_get (rc_files c') (sj_key stored) = Some \<lparr>cf_bytes = bytes, cf_modified = now\<rparr>))"
proof (cases "cx_to_json cx stored")
  case None
  with assms(1,3) show ?thesis by (auto simp: store_stored_def cache_sound_within_def)
next
  case (Some bytes)
  show ?thesis
  proof (cases "rc_max_entry_bytes c < length bytes \<or> rc_max_bytes c < length bytes")
    case True
    with Some assms(1,3) show ?thesis
      by (auto simp: store_stored_def cache_sound_within_def)
  next
    case False
    let ?f = "\<lparr>cf_bytes = bytes, cf_modified = now\<rparr>"
    define files where "files = im_insert (rc_files c) (sj_key stored) ?f"
    define ix where "ix = index_insert (sj_key stored) (length (cf_bytes ?f)) now
      (case rc_index c of None \<Rightarrow> scan_directory files | Some ix \<Rightarrow> ix)"
    have b: "length (cf_bytes ?f) \<le> rc_max_entry_bytes c" using False by simp
    have w: "index_sound ix" "covers ix files" "ix_total ix \<le> n + 2 * rc_max_entry_bytes c"
      using store_written [OF assms(1) _ files_def _ ix_def] assms(2) b by auto
    obtain ix' files' where loop: "prune_loop (rc_max_bytes c) (Some (sj_key stored)) ix files = (res, ix', files')"
        and c': "c' = c\<lparr>rc_files := files', rc_index := Some ix'\<rparr>"
    proof -
      obtain r ix' files' where loop: "prune_loop (rc_max_bytes c) (Some (sj_key stored)) ix files = (r, ix', files')"
        by (metis prod.exhaust)
      have got: "im_get files (sj_key stored) = Some ?f" by (simp add: files_def im_get_insert)
      have run: "store_stored cx now stored c = prune_to_limit (Some (sj_key stored)) (c\<lparr>rc_files := files\<rparr>)"
        using Some False by (simp add: store_stored_def files_def)
      have "prune_to_limit (Some (sj_key stored)) (c\<lparr>rc_files := files\<rparr>) = (r, c\<lparr>rc_files := files', rc_index := Some ix'\<rparr>)"
        using loop [unfolded ix_def] by (cases "rc_index c") (simp_all add: prune_to_limit_def Let_def got)
      then show ?thesis using assms(3) loop that unfolding run by simp
    qed
    note spec = prune_loop_spec [OF loop w(1)]
    then have total: "ix_total ix' \<le> n + 2 * rc_max_entry_bytes c" using w(3) by linarith
    have cov: "covers ix' files'" using spec w(2) by blast
    have "im_get files' (sj_key stored) = Some ?f"
    proof -
      obtain P where P: "files' = filter P files" "\<And>x. fst x = sj_key stored \<Longrightarrow> P x" using spec by force
      have "im_get files (sj_key stored) = Some ?f" by (simp add: files_def im_get_insert)
      then show ?thesis unfolding P(1) using P(2) by (induction files) (auto simp: im_get_def)
    qed
    moreover have "disk_bytes files' \<le> ix_total ix'"
      using disk_bytes_le_total cov spec by blast
    ultimately show ?thesis
      using spec total cov False Some by (auto simp: c' cache_sound_within_def current_index_def)
  qed
qed

section \<open>Properties\<close>

text \<open>A document result that was stored is what a later load of the same request finds;
  the directory is within its limit then, and the index covers it, whatever was stored before. The
  JSON codec reads back what it wrote.\<close>

theorem document_cache_roundtrip:
  assumes "store_document cx now request job c = (Ok (), c')"
    and "cache_sound_within n c" "n + 2 * rc_max_entry_bytes c \<le> U64_MAX"
    and "\<And>stored bytes. cx_to_json cx stored = Some bytes \<Longrightarrow> cx_from_json cx bytes = Some stored"
  shows "load_document cx request c' = Ok (Some job)
    \<and> disk_bytes (rc_files c') \<le> rc_max_bytes c' \<and> cache_sound_within (rc_max_bytes c') c'"
proof -
  obtain key where valid: "validate_against job request = Ok ()"
      and key: "cache_key cx (document_identity request) = Ok key"
      and store: "store_stored cx now
          \<lparr>sj_schema = RESULT_CACHE_SCHEMA, sj_build_fingerprint = lit BUILD_FINGERPRINT,
           sj_pipeline_fingerprint = cx_pipeline_fingerprint cx, sj_key = key,
           sj_result = StoredDocument (cd_blocks job) (cd_preserved job)\<rparr> c = (Ok (), c')"
    using assms(1) by (auto simp: store_document_def try_bind_def split: sum.splits)
  note effect = store_stored_effect [OF assms(2,3) store]
  moreover have "validate_against \<lparr>cd_blocks = cd_blocks job, cd_preserved = cd_preserved job\<rparr> request = Ok ()"
    using valid by (cases job) simp
  ultimately show ?thesis
    using valid key assms(4) by (auto simp: load_document_def load_stored_def Let_def)
qed

definition cached_sample :: cached_document_job where
  "cached_sample = \<lparr>cd_blocks = [], cd_preserved = [\<lparr>bp_parent_block_id = lit ''p'', bp_sub_item_order = 0, bp_item_id = lit ''a'',
     bp_source_index = 0, bp_item_order = 0, bp_kind = Prose, bp_source_text = lit ''x'', bp_reason = lit ''unclear''\<rparr>]\<rparr>"

definition cached_request :: document_job_request where
  "cached_request = sample_document_request [sample_block ''a'' 0 (lit ''x'')]"

definition stored_sample :: stored_job where
  "stored_sample = \<lparr>sj_schema = RESULT_CACHE_SCHEMA, sj_build_fingerprint = lit BUILD_FINGERPRINT,
     sj_pipeline_fingerprint = lit ''p'', sj_key = lit ''k'',
     sj_result = StoredDocument (cd_blocks cached_sample) (cd_preserved cached_sample)\<rparr>"

definition sample_codecs :: cache_codecs where
  "sample_codecs = \<lparr>cx_material = (\<lambda>_ _ _ _. Some []), cx_sha256_hex = (\<lambda>_. lit ''k''),
     cx_to_json = (\<lambda>s. if s = stored_sample then Some [1, 2, 3, 4, 5] else None),
     cx_from_json = (\<lambda>bytes. if bytes = [1, 2, 3, 4, 5] then Some stored_sample else None),
     cx_base64 = (\<lambda>_. []), cx_base64_decode = (\<lambda>_. None), cx_png_decodes = (\<lambda>_ _. False),
     cx_pipeline_fingerprint = lit ''p''\<rparr>"

lemma sample_valid: "validate_against cached_sample cached_request = Ok ()"
  by code_simp

lemma sample_stored_in_empty_cache:
  "store_document sample_codecs 7 cached_request cached_sample (new_result_cache [])
     = (Ok (), (new_result_cache [])\<lparr>
         rc_files := [(lit ''k'', \<lparr>cf_bytes = [1, 2, 3, 4, 5], cf_modified = 7\<rparr>)],
         rc_index := Some \<lparr>ix_entries = [((7, lit ''k''), 5)], ix_paths = [(lit ''k'', 7, 5)], ix_total = 5\<rparr>\<rparr>)"
proof -
  have stored: "\<lparr>sj_schema = RESULT_CACHE_SCHEMA, sj_build_fingerprint = lit BUILD_FINGERPRINT,
     sj_pipeline_fingerprint = lit ''p'', sj_key = lit ''k'',
     sj_result = StoredDocument (cd_blocks cached_sample) (cd_preserved cached_sample)\<rparr> = stored_sample"
    by (simp add: stored_sample_def)
  show ?thesis
    by (simp add: store_document_def sample_valid cache_key_def sample_codecs_def stored store_stored_def,
      simp add: stored_sample_def new_result_cache_def prune_to_limit_def im_insert_def im_contains_key_def im_keys_def
        scan_directory_def index_insert_def empty_index_def im_get_def im_remove_def Let_def U64_MAX_def
        RESULT_CACHE_MAX_BYTES_def RESULT_CACHE_MAX_ENTRY_BYTES_def prune_loop.simps [of 2147483648], simp add: im_set_def)
qed

theorem document_cache_roundtrip_witness:
  "load_document sample_codecs cached_request (snd (store_document sample_codecs 7 cached_request cached_sample (new_result_cache [])))
     = Ok (Some cached_sample)"
proof -
  let ?run = "store_document sample_codecs 7 cached_request cached_sample (new_result_cache [])"
  have "?run = (Ok (), snd ?run)" by (simp only: sample_stored_in_empty_cache snd_conv)
  moreover have "cache_sound_within 0 (new_result_cache [])"
    using new_cache_sound [of "[]"] by (simp add: disk_bytes_def im_keys_def)
  moreover have "0 + 2 * rc_max_entry_bytes (new_result_cache []) \<le> U64_MAX"
    by (simp add: new_result_cache_def RESULT_CACHE_MAX_ENTRY_BYTES_def U64_MAX_def)
  moreover have "cx_from_json sample_codecs bytes = Some stored" if "cx_to_json sample_codecs stored = Some bytes" for stored bytes
    using that by (auto simp: sample_codecs_def split: if_splits)
  ultimately show ?thesis by (rule document_cache_roundtrip [THEN conjunct1])
qed

lemma sample_loaded:
  "load_document sample_codecs cached_request
     (new_result_cache [(lit ''k'', \<lparr>cf_bytes = [1, 2, 3, 4, 5], cf_modified = 7\<rparr>)]) = Ok (Some cached_sample)"
  by code_simp

theorem loaded_document_belongs_to_request_witness:
  "mset (terminals_of cached_sample) = {# source_terminal (sample_block ''a'' 0 (lit ''x'')) #}"
  using loaded_document_belongs_to_request [OF sample_loaded]
  by (simp add: cached_request_def sample_document_request_def)

definition tight_cache :: "(rstring, cache_file) index_map \<Rightarrow> result_cache" where
  "tight_cache files = \<lparr>rc_files = files, rc_max_bytes = 10, rc_max_entry_bytes = 10, rc_max_decoded_patch_bytes = 10, rc_index = None\<rparr>"

definition two_files :: "(rstring, cache_file) index_map" where
  "two_files = [(lit ''a'', \<lparr>cf_bytes = [1, 1, 1, 1], cf_modified = 1\<rparr>), (lit ''b'', \<lparr>cf_bytes = [2, 2, 2, 2, 2], cf_modified = 2\<rparr>)]"

definition scanned_cache :: result_cache where
  "scanned_cache = snd (prune_to_limit None (tight_cache two_files))"

text \<open>An invalidated entry keeps its place in the index: of two entries of 4 and 5 bytes
  in a cache of 10 the second is invalidated, and the next 5 bytes evict the first, though the
  directory would hold 9; a fresh scan of the same directory keeps both.\<close>

theorem invalidated_entry_still_counts:
  "let c = snd (invalidate_key (Ok (lit ''b'')) scanned_cache)
   in disk_bytes (rc_files c) = 4
    \<and> im_keys (rc_files (snd (store_stored sample_codecs 3 stored_sample c))) = [lit ''k'']
    \<and> im_keys (rc_files (snd (store_stored sample_codecs 3 stored_sample (c\<lparr>rc_index := None\<rparr>)))) = [lit ''a'', lit ''k'']"
  by code_simp

end
