(* ===== verification/Quantities.thy ===== *)
theory Quantities
  imports Text_Tools "HOL-Library.Code_Target_Nat"
begin

text \<open>
  The numeric evidence a translation is compared on (\<open>koharu-app/src/llm/quantities.rs\<close>): the value
  of an Arabic or Chinese numeral in a canonical decimal form, the numbers a text states
  explicitly, and the English number words. Positions are positions of characters.
\<close>

section \<open>Numerals\<close>

definition chinese_digits :: "(rchar \<times> nat) list" where
  "chinese_digits = [(38646, 0), (12295, 0), (19968, 1), (20108, 2), (20004, 2), (19977, 3), (22235, 4), (20116, 5), (20845, 6), (19971, 7), (20843, 8), (20061, 9)]"

definition digit_value :: "rchar \<Rightarrow> nat option" where
  "digit_value c = (if is_ascii_digit c then Some (c - 48) else map_of chinese_digits c)"

definition unit_value :: "rchar \<Rightarrow> nat option" where
  "unit_value c = map_of [(21313, 10), (30334, 100), (21315, 1000), (19975, 10000), (20159, 100000000)] c"

definition point_char :: rchar where "point_char = 28857"
definition minus_char :: rchar where "minus_char = 36127"
definition plus_char :: rchar where "plus_char = 27491"

definition numeral_char :: "rchar \<Rightarrow> bool" where
  "numeral_char c \<longleftrightarrow> digit_value c \<noteq> None \<or> unit_value c \<noteq> None \<or> c \<in> {point_char, minus_char, plus_char}"

definition sign_chars :: "rchar list" where "sign_chars = [45, 8722, 65293, 43, 65291, 36127, 27491]"

definition negative_chars :: "rchar list" where "negative_chars = [45, 8722, 65293, 36127]"

text \<open>The loop over an integer part that is not made of digits alone.\<close>

record numeral_state =
  ns_total :: nat
  ns_section :: nat
  ns_number :: "nat option"
  ns_small :: nat
  ns_large :: nat

definition or_else :: "'a option \<Rightarrow> 'a \<Rightarrow> 'a" where
  "or_else v d = (case v of None \<Rightarrow> d | Some x \<Rightarrow> x)"

definition take_digit :: "nat \<Rightarrow> numeral_state \<Rightarrow> numeral_state option" where
  "take_digit value s =
     Option.bind (checked_u64 (or_else (ns_number s) 0 * 10)) (\<lambda>n.
     Option.bind (checked_u64 (n + value)) (\<lambda>n. Some (s\<lparr>ns_number := Some n\<rparr>)))"

definition take_unit :: "nat \<Rightarrow> numeral_state \<Rightarrow> numeral_state option" where
  "take_unit unit s =
     (if unit < 10000
      then (if ns_small s \<le> unit then None
        else Option.bind (checked_u64 (or_else (ns_number s) 1 * unit)) (\<lambda>p.
             Option.bind (checked_u64 (ns_section s + p)) (\<lambda>section.
             Some (s\<lparr>ns_section := section, ns_number := None, ns_small := unit\<rparr>))))
      else (if ns_large s \<le> unit then None
        else Option.bind (checked_u64 (ns_section s + or_else (ns_number s) 0)) (\<lambda>section.
             Option.bind (checked_u64 (section * unit)) (\<lambda>p.
             Option.bind (checked_u64 (ns_total s + p)) (\<lambda>total.
             Some \<lparr>ns_total = total, ns_section = 0, ns_number = None, ns_small = 10000, ns_large = unit\<rparr>)))))"

fun numeral_loop :: "rstring \<Rightarrow> numeral_state \<Rightarrow> numeral_state option" where
  "numeral_loop [] s = Some s"
| "numeral_loop (c # cs) s =
     (case digit_value c of
        Some value \<Rightarrow> Option.bind (take_digit value s) (numeral_loop cs)
      | None \<Rightarrow> (case unit_value c of
          None \<Rightarrow> None
        | Some unit \<Rightarrow> Option.bind (take_unit unit s) (numeral_loop cs)))"

fun digits_loop :: "rstring \<Rightarrow> nat \<Rightarrow> nat option" where
  "digits_loop [] value = Some value"
| "digits_loop (c # cs) value =
     Option.bind (checked_u64 (value * 10)) (\<lambda>v.
     Option.bind (digit_value c) (\<lambda>d. Option.bind (checked_u64 (v + d)) (digits_loop cs)))"

definition numeral_start :: numeral_state where
  "numeral_start = \<lparr>ns_total = 0, ns_section = 0, ns_number = None, ns_small = 10000, ns_large = U64_MAX\<rparr>"

definition integer_value :: "rstring \<Rightarrow> nat option" where
  "integer_value integer =
     (if list_all (\<lambda>c. digit_value c \<noteq> None) integer then digits_loop integer 0
      else Option.bind (numeral_loop integer numeral_start) (\<lambda>s.
           Option.bind (checked_u64 (ns_total s + ns_section s)) (\<lambda>t.
           checked_u64 (t + or_else (ns_number s) 0))))"

definition decimal_digits :: "rstring list \<Rightarrow> rstring option" where
  "decimal_digits parts = (case parts of
       [] \<Rightarrow> Some []
     | part # rest \<Rightarrow>
         if list_all (\<lambda>c. digit_value c \<noteq> None) part \<and> rest = []
         then Some (map (\<lambda>c. 48 + the (digit_value c)) part) else None)"

definition trim_zeros :: "rstring \<Rightarrow> rstring" where
  "trim_zeros ds = rev (dropWhile (\<lambda>c. c = 48) (rev ds))"

definition canonical :: "rstring \<Rightarrow> rstring option" where
  "canonical value =
     (let negative = (case value of [] \<Rightarrow> False | c # _ \<Rightarrow> c \<in> set negative_chars);
          parts = str_split (\<lambda>c. c = 46 \<or> c = point_char) (dropWhile (\<lambda>c. c \<in> set sign_chars) value)
      in Option.bind (integer_value (hd parts)) (\<lambda>integer.
         Option.bind (decimal_digits (tl parts)) (\<lambda>decimal.
         let decimal = trim_zeros decimal;
             sign = (if negative \<and> (integer \<noteq> 0 \<or> decimal \<noteq> []) then [45] else [])
         in Some (sign @ lit (show_nat integer) @ (if decimal = [] then [] else 46 # decimal)))))"

section \<open>Magnitudes\<close>

definition scale_zeros :: "rstring \<Rightarrow> nat option" where
  "scale_zeros word = map_of [(lit ''hundred'', 2), (lit ''thousand'', 3), (lit ''million'', 6), (lit ''billion'', 9)]
     (map to_ascii_lowercase (trim_by (\<lambda>c. \<not> is_ascii_alphabetic c) word))"

text \<open>Canonical values are ASCII, so that bytes and characters agree.\<close>

definition decimal_scale :: "rstring \<Rightarrow> nat \<Rightarrow> rstring option" where
  "decimal_scale value zeros =
     (let negative = (case value of [] \<Rightarrow> False | c # _ \<Rightarrow> c = 45);
          unsigned = dropWhile (\<lambda>c. c = 45) value;
          integer = takeWhile (\<lambda>c. c \<noteq> 46) unsigned;
          decimal = drop (length integer + 1) unsigned;
          position = length integer + zeros;
          digits = integer @ decimal;
          digits = digits @ replicate (position - length digits) 48;
          digits = (if position < length digits then insert_at position 46 digits else digits);
          digits = (if negative then 45 # digits else digits)
      in canonical digits)"

section \<open>English number words\<close>

definition english_words :: "(rstring \<times> nat) list" where
  "english_words = [(lit ''zero'', 0), (lit ''one'', 1), (lit ''two'', 2), (lit ''three'', 3), (lit ''four'', 4), (lit ''five'',
     5), (lit ''six'', 6), (lit ''seven'', 7), (lit ''eight'', 8), (lit ''nine'', 9), (lit ''ten'', 10), (lit
     ''eleven'', 11), (lit ''twelve'', 12), (lit ''thirteen'', 13), (lit ''fourteen'', 14), (lit ''fifteen'', 15),
     (lit ''sixteen'', 16), (lit ''seventeen'', 17), (lit ''eighteen'', 18), (lit ''nineteen'', 19), (lit
     ''twenty'', 20), (lit ''thirty'', 30), (lit ''forty'', 40), (lit ''fifty'', 50), (lit ''sixty'', 60), (lit
     ''seventy'', 70), (lit ''eighty'', 80), (lit ''ninety'', 90)]"

definition english_number :: "rstring \<Rightarrow> nat option" where
  "english_number word = map_of english_words (map to_ascii_lowercase word)"

record english_state =
  en_total :: nat
  en_section :: "nat option"
  en_previous :: "nat option"
  en_negative :: bool

definition en_start :: english_state where
  "en_start = \<lparr>en_total = 0, en_section = None, en_previous = None, en_negative = False\<rparr>"

text \<open>What \<open>flush\<close> pushes; it leaves the state as at the start.\<close>

definition flushed :: "english_state \<Rightarrow> rstring list" where
  "flushed s =
     (if en_section s \<noteq> None \<or> en_total s \<noteq> 0
      then (let value = saturated_u64 (en_total s + or_else (en_section s) 0)
            in [(if en_negative s \<and> value \<noteq> 0 then [45] else []) @ lit (show_nat value)])
      else [])"

definition word_of :: "rstring \<Rightarrow> rstring" where
  "word_of token = trim_by (\<lambda>c. \<not> is_ascii_alphabetic c) token"

text \<open>A standalone \<open>one\<close> is no number.\<close>

definition pronoun_one :: "nat \<Rightarrow> english_state \<Rightarrow> rstring list \<Rightarrow> bool" where
  "pronoun_one value s rest \<longleftrightarrow> value = 1 \<and> \<not> en_negative s \<and> en_total s = 0
     \<and> (case en_section s of None \<Rightarrow> True | Some n \<Rightarrow> n < 20)
     \<and> (case rest of [] \<Rightarrow> True | next # _ \<Rightarrow> scale_zeros (word_of next) = None)"

definition sign_words :: "rstring list" where
  "sign_words = [lit ''minus'', lit ''negative'', lit ''plus'', lit ''positive'']"

definition big_scale :: "rstring \<Rightarrow> nat option" where
  "big_scale word = (case scale_zeros word of None \<Rightarrow> None | Some zeros \<Rightarrow> if 3 \<le> zeros then Some zeros else None)"

text \<open>One word: the numbers it completes and the state after it.\<close>

definition english_step :: "rstring \<Rightarrow> english_state \<Rightarrow> rstring list \<times> english_state" where
  "english_step word s = (case english_number word of
       Some value \<Rightarrow>
         let same_group = (case en_previous s of None \<Rightarrow> True | Some prev \<Rightarrow> 20 \<le> prev \<and> prev mod 10 = 0 \<and> value < 10);
             (out, s) = (if same_group then ([], s) else (flushed s, en_start))
         in (out, s\<lparr>en_section := Some (saturated_u64 (or_else (en_section s) 0 + value)), en_previous := Some value\<rparr>)
     | None \<Rightarrow>
         if eq_ignore_case word (lit ''hundred'') \<and> (case en_section s of None \<Rightarrow> False | Some n \<Rightarrow> 1 \<le> n \<and> n \<le> 9)
         then ([], s\<lparr>en_section := map_option (\<lambda>n. n * 100) (en_section s), en_previous := None\<rparr>)
         else (case (big_scale word, en_section s) of
             (Some zeros, Some section) \<Rightarrow>
               ([], s\<lparr>en_total := saturated_u64 (en_total s + saturated_u64 (section * 10 ^ zeros)),
                      en_section := None, en_previous := None\<rparr>)
           | _ \<Rightarrow>
               if list_ex (eq_ignore_case word) sign_words
               then (flushed s, en_start\<lparr>en_negative := eq_ignore_case word (lit ''minus'') \<or> eq_ignore_case word (lit ''negative'')\<rparr>)
               else if eq_ignore_case word (lit ''and'')
                 \<and> (0 < en_total s \<or> (case en_section s of None \<Rightarrow> False | Some n \<Rightarrow> 100 \<le> n))
               then ([], s) else (flushed s, en_start)))"

definition ends_group :: "rstring \<Rightarrow> bool" where
  "ends_group token \<longleftrightarrow> token \<noteq> [] \<and> last token \<in> set (lit '',;.!?'')"

definition after_word :: "rstring \<Rightarrow> english_state \<Rightarrow> rstring list \<times> english_state" where
  "after_word token s =
     (let (out, s) = english_step (word_of token) s
      in if ends_group token then (out @ flushed s, en_start) else (out, s))"

fun english_loop :: "rstring list \<Rightarrow> english_state \<Rightarrow> rstring list" where
  "english_loop [] s = []"
| "english_loop (token # rest) s =
     (case english_number (word_of token) of
        Some value \<Rightarrow>
          if pronoun_one value s rest then english_loop rest s
          else (let (out, s) = after_word token s in out @ english_loop rest s)
      | None \<Rightarrow> (let (out, s) = after_word token s in out @ english_loop rest s))"

definition english_numbers :: "rstring \<Rightarrow> rstring list" where
  "english_numbers t = english_loop (split_inclusive (\<lambda>c. \<not> is_ascii_alphabetic c) t @ [[]]) en_start"

section \<open>The numbers of a text\<close>

definition char_is :: "(rchar \<Rightarrow> bool) \<Rightarrow> rstring \<Rightarrow> nat \<Rightarrow> bool" where
  "char_is p cs i \<longleftrightarrow> i < length cs \<and> p (cs ! i)"

definition chinese_core :: "rchar \<Rightarrow> bool" where
  "chinese_core c \<longleftrightarrow> digit_value c \<noteq> None \<or> unit_value c \<noteq> None"

definition starts_number :: "bool \<Rightarrow> rstring \<Rightarrow> nat \<Rightarrow> bool" where
  "starts_number chinese cs i \<longleftrightarrow>
     (let c = cs ! i
      in is_ascii_digit c
       \<or> chinese \<and> (chinese_core c \<or> c \<in> {minus_char, plus_char, point_char} \<and> char_is chinese_core cs (i + 1))
       \<or> c = 46 \<and> char_is is_ascii_digit cs (i + 1)
       \<or> c \<in> {45, 8722, 65293, 43, 65291} \<and> char_is is_ascii_digit cs (i + 1))"

definition continues_number :: "bool \<Rightarrow> rstring \<Rightarrow> nat \<Rightarrow> nat \<Rightarrow> bool" where
  "continues_number chinese cs first i \<longleftrightarrow>
     (let c = cs ! i
      in is_ascii_digit c
       \<or> chinese \<and> numeral_char c
       \<or> c = 46 \<and> char_is is_ascii_digit cs (i + 1)
       \<or> c = 44 \<and> (i - first \<le> 3 \<or> 44 \<in> set (drop first (take i cs)))
         \<and> char_is is_ascii_digit cs (i + 1) \<and> char_is is_ascii_digit cs (i + 2) \<and> char_is is_ascii_digit cs (i + 3)
         \<and> \<not> char_is is_ascii_digit cs (i + 4))"

function number_end :: "bool \<Rightarrow> rstring \<Rightarrow> nat \<Rightarrow> nat \<Rightarrow> nat" where
  "number_end chinese cs first i =
     (if i < length cs \<and> continues_number chinese cs first i then number_end chinese cs first (i + 1) else i)"
  by pat_completeness auto
termination by (relation "measure (\<lambda>(_, cs, _, i). length cs - i)") auto

declare number_end.simps [simp del]

lemma number_end_ge: "i \<le> number_end chinese cs first i"
  by (induction chinese cs first i rule: number_end.induct) (subst number_end.simps, force)

text \<open>What may follow a Chinese numeral without digits: punctuation, a percent sign or a measure word.\<close>

definition numeral_followers :: "rchar list" where
  "numeral_followers = [65292, 12290, 65281, 65311, 12289, 65306, 65307, 44, 46, 33, 63, 59, 58, 37, 65285, 20010, 21517, 20301,
     23681, 24180, 26376, 22825, 27425, 26412, 21482, 26465, 24352, 37096, 36742, 29942, 26479, 20214, 31859,
     20803, 20998, 31186, 26020, 21544, 20493, 23618, 31456, 39029, 21495, 32452, 38431, 31665, 31181, 20154,
     29983]"

definition grouping_ok :: "rstring \<Rightarrow> bool" where
  "grouping_ok literal \<longleftrightarrow>
     (let groups = str_split (\<lambda>c. c = 44) (hd (str_split (\<lambda>c. c = 46)
            (dropWhile (\<lambda>c. c \<in> {45, 8722, 65293, 43, 65291}) literal)))
      in 2 \<le> length groups \<and> str_len (hd groups) \<le> 3
       \<and> list_all (\<lambda>g. str_len g = 3 \<and> list_all is_ascii_digit g) (tl groups))"

text \<open>The number that the characters from \<open>first\<close> to \<open>end\<close> state, if they state one.\<close>

definition stated_number :: "bool \<Rightarrow> rstring \<Rightarrow> nat \<Rightarrow> nat \<Rightarrow> rstring option" where
  "stated_number chinese cs first stop =
     (let literal = drop first (take stop cs);
          left = (\<lambda>p. 0 < first \<and> p (cs ! (first - 1)));
          right = (\<lambda>p. char_is p cs stop);
          multiplier = (left (\<lambda>c. c = 120 \<or> c = 88) \<or> right (\<lambda>c. c = 120 \<or> c = 88))
      in if \<not> chinese \<and> \<not> multiplier \<and> (left is_ascii_alphabetic \<or> right is_ascii_alphabetic) then None
         else if chinese \<and> \<not> (literal \<noteq> [] \<and> hd literal \<in> {minus_char, plus_char}) \<and> \<not> list_ex is_ascii_digit literal
           \<and> right (\<lambda>c. \<not> is_whitespace c \<and> c \<notin> set numeral_followers) then None
         else if 44 \<in> set literal \<and> \<not> grouping_ok literal then None
         else Option.bind (canonical (filter (\<lambda>c. c \<noteq> 44) literal)) (\<lambda>value.
           if chinese then Some value
           else (let before = split_whitespace (take first cs);
                     value = (if hd value \<noteq> 45 \<and> value \<noteq> [48] \<and> before \<noteq> []
                         \<and> (eq_ignore_case (last before) (lit ''minus'') \<or> eq_ignore_case (last before) (lit ''negative''))
                       then 45 # value else value)
                 in (case split_whitespace (drop stop cs) of
                       [] \<Rightarrow> Some value
                     | next # _ \<Rightarrow> (case scale_zeros next of None \<Rightarrow> Some value | Some zeros \<Rightarrow> decimal_scale value zeros)))))"

function numbers_from :: "bool \<Rightarrow> rstring \<Rightarrow> nat \<Rightarrow> rstring list" where
  "numbers_from chinese cs i =
     (if length cs \<le> i then []
      else if \<not> starts_number chinese cs i then numbers_from chinese cs (i + 1)
      else (let stop = number_end chinese cs i (i + 1)
            in (case stated_number chinese cs i stop of None \<Rightarrow> [] | Some n \<Rightarrow> [n])
               @ numbers_from chinese cs stop))"
  by pat_completeness auto
termination
proof (relation "measure (\<lambda>(_, cs, i). length cs - i)", goal_cases)
  case (3 chinese cs i stop)
  then show ?case using number_end_ge [of "i + 1" chinese cs i] by simp
qed auto

declare numbers_from.simps [simp del]

definition explicit_numbers :: "rstring \<Rightarrow> bool \<Rightarrow> rstring list" where
  "explicit_numbers t chinese = numbers_from chinese t 0 @ (if chinese then [] else english_numbers t)"

section \<open>A printer of Chinese integers\<close>

definition chinese_digit_chars :: "rchar list" where
  "chinese_digit_chars = [38646, 19968, 20108, 19977, 22235, 20116, 20845, 19971, 20843, 20061]"

fun chinese_loop :: "(nat \<times> rstring) list \<Rightarrow> nat \<Rightarrow> bool \<Rightarrow> rstring \<Rightarrow> rstring" where
  "chinese_loop [] value zero_pending rendered = rendered"
| "chinese_loop ((divisor, unit) # rest) value zero_pending rendered =
     (let digit = value div divisor mod 10
      in if digit = 0
         then chinese_loop rest value (zero_pending \<or> rendered \<noteq> [] \<and> value mod divisor \<noteq> 0) rendered
         else (let rendered = rendered @ (if zero_pending then [chinese_digit_chars ! 0] else []);
                   rendered = rendered @ (if digit = 1 \<and> divisor = 10 \<and> rendered = [] then [] else [chinese_digit_chars ! digit]) @ unit
               in chinese_loop rest value False rendered))"

definition chinese_integer :: "nat \<Rightarrow> rstring" where
  "chinese_integer value =
     (if value = 0 then [chinese_digit_chars ! 0]
      else chinese_loop [(1000, [21315]), (100, [30334]), (10, [21313]), (1, [])] value False [])"

end
