(* ===== verification/Hsk_Translation.thy ===== *)
theory Hsk_Translation
  imports Quantities Contracts_Results Chapter_Context "HOL-Library.List_Lexorder"
begin

text \<open>
  The deterministic part of the direct translation (\<open>koharu-app/src/llm/direct_hsk.rs\<close>): the requests
  and their validation, the parsing of what the model answers, and the checks a translation must
  pass. The Unicode classes of letters and the JSON of the name records are parameters.
\<close>

section \<open>Requests\<close>

definition MAX_HSK_PRECEDING_UTTERANCES :: nat where "MAX_HSK_PRECEDING_UTTERANCES = 6"
definition MAX_HSK_CONTEXT_TOKENS :: nat where "MAX_HSK_CONTEXT_TOKENS = 256"
definition MAX_HSK_TRANSLATION_BATCH :: nat where "MAX_HSK_TRANSLATION_BATCH = 6"
definition MIN_HSK_LAYOUT_CHARACTERS :: u16 where "MIN_HSK_LAYOUT_CHARACTERS = 4"
definition MAX_HSK_LAYOUT_CHARACTERS :: u16 where "MAX_HSK_LAYOUT_CHARACTERS = 512"
definition MAX_HSK_LAYOUT_LINES :: u8 where "MAX_HSK_LAYOUT_LINES = 32"
definition MIN_OUTPUT_TOKENS :: nat where "MIN_OUTPUT_TOKENS = 24"
definition MAX_OUTPUT_TOKENS :: nat where "MAX_OUTPUT_TOKENS = 1024"
definition OUTPUT_TOKENS_PER_UTTERANCE :: nat where "OUTPUT_TOKENS_PER_UTTERANCE = 8"

datatype hsk_learning_mode = NaturalMode | StrictMode
datatype direct_provenance = DomSource | OcrSource
datatype hsk_utterance_kind = ProseSpan | HeadingSpan | DialogueSpan | CaptionSpan | ThoughtSpan | SfxSpan

record hsk_layout =
  hl_max_characters :: u16
  hl_max_lines :: u8

record source_utterance =
  su_id :: rstring
  su_kind :: hsk_utterance_kind
  su_source_english :: rstring
  su_faithful_chinese :: rstring
  su_layout :: "hsk_layout option"

record translation_request =
  tq_requested_level :: u8
  tq_learning_mode :: hsk_learning_mode
  tq_utterances :: "source_utterance list"
  tq_preceding_utterances :: "preceding_utterance list"
  tq_preceding_english :: "rstring list"
  tq_following_english :: "rstring list"

record faithful_utterance =
  fu_id :: rstring
  fu_kind :: hsk_utterance_kind
  fu_source_english :: rstring

record faithful_request =
  fq_utterances :: "faithful_utterance list"
  fq_preceding_utterances :: "preceding_utterance list"
  fq_preceding_english :: "rstring list"
  fq_following_english :: "rstring list"

record repair_utterance =
  ru_id :: rstring
  ru_kind :: hsk_utterance_kind
  ru_source_english :: rstring
  ru_faithful_chinese :: rstring
  ru_layout :: "hsk_layout option"
  ru_rejected_chinese :: "rstring option"
  ru_avoid_chinese :: "rstring list"
  ru_problems :: "rstring list"

record repair_request =
  rq_requested_level :: u8
  rq_learning_mode :: hsk_learning_mode
  rq_utterances :: "repair_utterance list"
  rq_preceding_utterances :: "preceding_utterance list"
  rq_preceding_english :: "rstring list"
  rq_following_english :: "rstring list"

datatype translation_error =
  TranslationCancelled | BatchTooLarge | ContextTooLarge | EmptyContextSpan
| CharacterBudget rstring | LineBudget rstring | NoFaithfulReference rstring
| NoProblems rstring | EmptyRejected rstring | AvoidTerms rstring | LevelOutOfRange
| EmptyApplicationId | DuplicateApplicationId rstring | EmptyEnglish rstring | EmptyContextText
| SpanDoesNotFit | FaithfulSpanDoesNotFit | RepairSpanDoesNotFit
| GeneratorFailed rstring | CallbackFailed rstring | OutOfFuel

definition blank_text :: "rstring \<Rightarrow> bool" where
  "blank_text s \<longleftrightarrow> trim s = []"

definition validate_level :: "u8 \<Rightarrow> translation_error + unit" where
  "validate_level level = reject_if (\<not> (1 \<le> level \<and> level \<le> 6)) LevelOutOfRange"

definition validate_source_context :: "rstring list \<Rightarrow> rstring list \<Rightarrow> translation_error + unit" where
  "validate_source_context earlier following =
     (if MAX_HSK_PRECEDING_UTTERANCES < length earlier + length following then Err ContextTooLarge
      else reject_if (list_ex blank_text (earlier @ following)) EmptyContextSpan)"

definition validate_layout_budget :: "rstring \<Rightarrow> hsk_layout option \<Rightarrow> translation_error + unit" where
  "validate_layout_budget i layout = (case layout of None \<Rightarrow> Ok ()
     | Some l \<Rightarrow>
         if \<not> (MIN_HSK_LAYOUT_CHARACTERS \<le> hl_max_characters l \<and> hl_max_characters l \<le> MAX_HSK_LAYOUT_CHARACTERS)
         then Err (CharacterBudget i)
         else reject_if (\<not> (1 \<le> hl_max_lines l \<and> hl_max_lines l \<le> MAX_HSK_LAYOUT_LINES)) (LineBudget i))"

definition validate_faithful_chinese :: "rstring \<Rightarrow> rstring \<Rightarrow> translation_error + unit" where
  "validate_faithful_chinese i t = reject_if (blank_text t \<or> \<not> contains_han t) (NoFaithfulReference i)"

fun check_utterances :: "rstring list \<Rightarrow> (rstring \<times> rstring) list \<Rightarrow> translation_error + unit" where
  "check_utterances ids [] = Ok ()"
| "check_utterances ids ((i, source) # us) =
     (if blank_text i then Err EmptyApplicationId
      else if i \<in> set ids then Err (DuplicateApplicationId i)
      else if blank_text source then Err (EmptyEnglish i)
      else check_utterances (i # ids) us)"

definition validate_spans_common :: "(rstring \<times> rstring) list \<Rightarrow> preceding_utterance list \<Rightarrow> translation_error + unit" where
  "validate_spans_common us context = try_bind (check_utterances [] us)
     (\<lambda>_. reject_if (list_ex (\<lambda>u. blank_text (hp_source_english u) \<or> blank_text (hp_chinese u)) context) EmptyContextText)"

fun check_sequence :: "('a \<Rightarrow> translation_error + unit) \<Rightarrow> 'a list \<Rightarrow> translation_error + unit" where
  "check_sequence f [] = Ok ()"
| "check_sequence f (x # xs) = try_bind (f x) (\<lambda>_. check_sequence f xs)"

definition validate_translation_request :: "translation_request \<Rightarrow> translation_error + unit" where
  "validate_translation_request r =
     try_bind (validate_level (tq_requested_level r)) (\<lambda>_.
     try_bind (reject_if (MAX_HSK_TRANSLATION_BATCH < length (tq_utterances r)) BatchTooLarge) (\<lambda>_.
     try_bind (validate_source_context (tq_preceding_english r) (tq_following_english r)) (\<lambda>_.
     try_bind (check_sequence (\<lambda>u. try_bind (validate_layout_budget (su_id u) (su_layout u))
         (\<lambda>_. validate_faithful_chinese (su_id u) (su_faithful_chinese u))) (tq_utterances r)) (\<lambda>_.
     validate_spans_common (map (\<lambda>u. (su_id u, su_source_english u)) (tq_utterances r)) (tq_preceding_utterances r)))))"

definition validate_faithful_request :: "faithful_request \<Rightarrow> translation_error + unit" where
  "validate_faithful_request r =
     try_bind (reject_if (MAX_HSK_TRANSLATION_BATCH < length (fq_utterances r)) BatchTooLarge) (\<lambda>_.
     try_bind (validate_source_context (fq_preceding_english r) (fq_following_english r)) (\<lambda>_.
     validate_spans_common (map (\<lambda>u. (fu_id u, fu_source_english u)) (fq_utterances r)) (fq_preceding_utterances r)))"

definition validate_repair_utterance :: "repair_utterance \<Rightarrow> translation_error + unit" where
  "validate_repair_utterance u =
     try_bind (validate_faithful_chinese (ru_id u) (ru_faithful_chinese u)) (\<lambda>_.
     try_bind (reject_if (ru_problems u = [] \<or> list_ex blank_text (ru_problems u)) (NoProblems (ru_id u))) (\<lambda>_.
     try_bind (reject_if (case ru_rejected_chinese u of None \<Rightarrow> False | Some t \<Rightarrow> blank_text t) (EmptyRejected (ru_id u))) (\<lambda>_.
     reject_if (32 < length (ru_avoid_chinese u) \<or> list_ex blank_text (ru_avoid_chinese u)) (AvoidTerms (ru_id u)))))"

definition validate_repair_request :: "repair_request \<Rightarrow> translation_error + unit" where
  "validate_repair_request r =
     try_bind (validate_level (rq_requested_level r)) (\<lambda>_.
     try_bind (validate_source_context (rq_preceding_english r) (rq_following_english r)) (\<lambda>_.
     try_bind (reject_if (MAX_HSK_TRANSLATION_BATCH < length (rq_utterances r)) BatchTooLarge) (\<lambda>_.
     try_bind (validate_spans_common (map (\<lambda>u. (ru_id u, ru_source_english u)) (rq_utterances r)) (rq_preceding_utterances r)) (\<lambda>_.
     check_sequence (\<lambda>u. try_bind (validate_layout_budget (ru_id u) (ru_layout u))
         (\<lambda>_. validate_repair_utterance u)) (rq_utterances r)))))"

section \<open>Outcomes\<close>

datatype translation_issue =
  InvalidProtectedNames | TruncatedOutput | MissingLine | DuplicateLine | MalformedLine | SourceEcho
| EmptyTranslation | MissingChineseText | RoleLabelLeakage
| NumberMismatch "rstring list" "rstring list" | QuestionIntentMissing | ExcessiveExpansion nat nat
| InvalidMarkup | SourceLanguageLeakage

record translation_outcome =
  to_id :: rstring
  to_text :: "rstring option"
  to_issues :: "translation_issue list"
  to_termination :: generation_termination
  to_protected_names :: "protected_name list"

definition outcome_valid :: "translation_outcome \<Rightarrow> bool" where
  "outcome_valid x \<longleftrightarrow> to_termination x = Stop \<and> to_issues x = []
     \<and> (case to_text x of None \<Rightarrow> False | Some t \<Rightarrow> \<not> blank_text t)"

definition with_termination :: "generation_termination \<Rightarrow> translation_outcome list \<Rightarrow> translation_outcome list" where
  "with_termination termination items = map (\<lambda>x. x\<lparr>to_termination := termination,
     to_issues := (if termination \<noteq> Stop then to_issues x @ [TruncatedOutput] else to_issues x)\<rparr>) items"

section \<open>Checks on one translation\<close>

definition is_marker :: "rchar \<Rightarrow> bool" where
  "is_marker c \<longleftrightarrow> c = 10214 \<or> c = 10215"

definition validate_and_strip_markup :: "rstring \<Rightarrow> rstring \<times> translation_issue list" where
  "validate_and_strip_markup t =
     (let output = filter (\<lambda>c. \<not> is_marker c) t
      in (output, (if list_ex is_marker t then [InvalidMarkup] else [])
                  @ (if list_ex is_ascii_alphabetic output then [SourceLanguageLeakage] else [])))"

definition has_question_intent :: "rstring \<Rightarrow> bool" where
  "has_question_intent t \<longleftrightarrow> 63 \<in> set t \<or> 65311 \<in> set t"

definition english_word_count :: "rstring \<Rightarrow> nat" where
  "english_word_count t = length (filter (\<lambda>w. w \<noteq> []) (str_split (\<lambda>c. \<not> is_ascii_alphabetic c) t))"

definition chinese_character_count :: "rstring \<Rightarrow> nat" where
  "chinese_character_count t = length (filter is_han_char t)"

definition number_issues :: "rstring \<Rightarrow> rstring \<Rightarrow> translation_issue list" where
  "number_issues source chinese =
     (let expected = sort (explicit_numbers source False); actual = sort (explicit_numbers chinese True)
      in if expected \<noteq> [] \<and> actual \<noteq> expected then [NumberMismatch expected actual] else [])"

definition expansion_issues :: "rstring \<Rightarrow> rstring \<Rightarrow> translation_issue list" where
  "expansion_issues source chinese =
     (let words = english_word_count source; characters = chinese_character_count chinese
      in if words \<le> 8 \<and> max (words * 4 + 4) 12 < characters then [ExcessiveExpansion words characters] else [])"

definition preservation_issues :: "rstring \<Rightarrow> rstring \<Rightarrow> translation_issue list" where
  "preservation_issues source chinese = number_issues source chinese
     @ (if has_question_intent source \<and> \<not> has_question_intent chinese then [QuestionIntentMissing] else [])
     @ expansion_issues source chinese"

section \<open>Parsing the numbered answer\<close>

record expected_utterance =
  ex_id :: rstring
  ex_source_english :: rstring

datatype parsed_line = Candidate rstring | Malformed

definition strip_return :: "rstring \<Rightarrow> rstring" where
  "strip_return line = (if line \<noteq> [] \<and> last line = 13 then butlast line else line)"

definition trim_spaces :: "rstring \<Rightarrow> rstring" where
  "trim_spaces s = dropWhile (\<lambda>c. c = 32) s"

definition separator_chars :: "rchar list" where
  "separator_chars = [46, 65294, 41, 65289, 58, 65306, 12289]"

definition line_text :: "rstring \<Rightarrow> rstring option" where
  "line_text remainder = (case remainder of
       [] \<Rightarrow> None
     | c # rest \<Rightarrow>
         if c = 9 then Some rest
         else if c = 32 then Some (trim_spaces remainder)
         else if c \<in> set separator_chars then Some (trim_spaces rest) else None)"

definition parse_output_line :: "rstring \<Rightarrow> nat \<Rightarrow> (nat \<times> parsed_line) option" where
  "parse_output_line line expected_count =
     (let digits = takeWhile is_ascii_digit line; position = value_of digits
      in if digits = [] \<or> U64_MAX < position then None
         else if position = 0 \<or> expected_count < position \<or> lit (show_nat position) \<noteq> digits then None
         else (case line_text (drop (length digits) line) of
             None \<Rightarrow> Some (position, Malformed)
           | Some t \<Rightarrow> Some (position, if 9 \<in> set t then Malformed else Candidate t)))"

definition is_source_echo :: "parsed_line \<Rightarrow> rstring \<Rightarrow> bool" where
  "is_source_echo line source = (case line of Malformed \<Rightarrow> False | Candidate t \<Rightarrow> compact_words t = compact_words source)"

definition outcome_with :: "expected_utterance \<Rightarrow> rstring option \<Rightarrow> translation_issue list \<Rightarrow> translation_outcome" where
  "outcome_with e t issues = \<lparr>to_id = ex_id e, to_text = t, to_issues = issues, to_termination = Stop, to_protected_names = []\<rparr>"

definition candidate_outcome :: "expected_utterance \<Rightarrow> rstring \<Rightarrow> translation_outcome" where
  "candidate_outcome e t =
     (if blank_text t then outcome_with e None [EmptyTranslation]
      else (let (output, markup) = validate_and_strip_markup (trim t)
            in outcome_with e (Some output) (preservation_issues (ex_source_english e) output @ markup)))"

fun first_text :: "parsed_line list \<Rightarrow> rstring option" where
  "first_text [] = None"
| "first_text (Malformed # ls) = first_text ls"
| "first_text (Candidate t # ls) = (if blank_text t then first_text ls else Some t)"

definition outcome_from_lines :: "expected_utterance \<Rightarrow> parsed_line list \<Rightarrow> translation_outcome" where
  "outcome_from_lines e ls = (case ls of
       [] \<Rightarrow> outcome_with e None [MissingLine]
     | [Candidate t] \<Rightarrow> candidate_outcome e t
     | [Malformed] \<Rightarrow> outcome_with e None [MalformedLine]
     | _ \<Rightarrow> outcome_with e (first_text ls) [DuplicateLine])"

definition output_lines :: "rstring \<Rightarrow> rstring list" where
  "output_lines output = filter (\<lambda>l. l \<noteq> []) (map strip_return (str_split (\<lambda>c. c = 10) output))"

definition numbered_lines :: "rstring \<Rightarrow> expected_utterance list \<Rightarrow> (nat \<times> parsed_line) list" where
  "numbered_lines output expected =
     filter (\<lambda>(p, l). \<not> is_source_echo l (ex_source_english (expected ! (p - 1))))
       (List.map_filter (\<lambda>l. parse_output_line l (length expected)) (output_lines output))"

definition slot :: "(nat \<times> parsed_line) list \<Rightarrow> nat \<Rightarrow> parsed_line list" where
  "slot ls i = map snd (filter (\<lambda>(p, _). p = i + 1) ls)"

definition is_markup_issue :: "translation_issue \<Rightarrow> bool" where
  "is_markup_issue i \<longleftrightarrow> i = InvalidMarkup \<or> i = SourceLanguageLeakage"

text \<open>The repair keeps of an outcome only the issues of its markup and checks preservation anew.\<close>

definition recheck :: "rstring \<Rightarrow> translation_outcome \<Rightarrow> translation_outcome" where
  "recheck source x = (case to_text x of None \<Rightarrow> x
     | Some t \<Rightarrow> x\<lparr>to_issues := preservation_issues source t @ filter is_markup_issue (to_issues x)\<rparr>)"

definition parse_repair_output :: "rstring \<Rightarrow> expected_utterance \<Rightarrow> translation_outcome" where
  "parse_repair_output output e =
     (case filter (\<lambda>l. \<not> blank_text l) (map strip_return (str_split (\<lambda>c. c = 10) output)) of
        [] \<Rightarrow> outcome_from_lines e []
      | line # others \<Rightarrow>
          if others \<noteq> [] \<or> 9 \<in> set line then outcome_from_lines e [Malformed]
          else if compact_words line = compact_words (ex_source_english e) then outcome_with e None [SourceEcho]
          else recheck (ex_source_english e) (outcome_from_lines e [Candidate line]))"

definition parse_numbered_output :: "rstring \<Rightarrow> expected_utterance list \<Rightarrow> translation_outcome list" where
  "parse_numbered_output output expected =
     (let ls = numbered_lines output expected
      in if length expected = 1 \<and> slot ls 0 = [] then [parse_repair_output output (expected ! 0)]
         else map (\<lambda>(i, e). outcome_from_lines e (slot ls i)) (enumerate 0 expected))"

definition expected_source :: "expected_utterance list \<Rightarrow> rstring \<Rightarrow> rstring option" where
  "expected_source expected i = map_option ex_source_english (find (\<lambda>e. ex_id e = i) expected)"

definition parse_numbered_repair_output :: "rstring \<Rightarrow> expected_utterance list \<Rightarrow> translation_outcome list" where
  "parse_numbered_repair_output output expected =
     map (\<lambda>x. case expected_source expected (to_id x) of None \<Rightarrow> x | Some source \<Rightarrow> recheck source x)
       (parse_numbered_output output expected)"

definition parse_repair_batch_output :: "rstring \<Rightarrow> expected_utterance list \<Rightarrow> translation_outcome list" where
  "parse_repair_batch_output output expected = (case expected of
       [e] \<Rightarrow> [parse_repair_output output e]
     | _ \<Rightarrow> parse_numbered_repair_output output expected)"

section \<open>Parsing the faithful answer\<close>

record translation_env =
  te_alphabetic :: "rchar \<Rightarrow> bool"
  te_uppercase :: "rchar \<Rightarrow> bool"
  te_parse_names :: "rstring \<Rightarrow> protected_name list option"

text \<open>\<open>str::lines\<close> and \<open>splitn(3, tab)\<close>; \<open>usize::from_str\<close> allows a plus sign and leading zeros.\<close>

definition lines_of :: "rstring \<Rightarrow> rstring list" where
  "lines_of s = map (\<lambda>l. if last l = 10 then strip_return (butlast l) else l) (split_inclusive (\<lambda>c. c = 10) s)"

definition split_tab :: "rstring \<Rightarrow> rstring \<times> rstring option" where
  "split_tab s = (case dropWhile (\<lambda>c. c \<noteq> 9) s of [] \<Rightarrow> (s, None) | _ # rest \<Rightarrow> (takeWhile (\<lambda>c. c \<noteq> 9) s, Some rest))"

definition parse_usize :: "rstring \<Rightarrow> nat option" where
  "parse_usize s =
     (let digits = (case s of c # rest \<Rightarrow> if c = 43 then rest else s | [] \<Rightarrow> s)
      in if digits \<noteq> [] \<and> list_all is_ascii_digit digits \<and> value_of digits \<le> U64_MAX then Some (value_of digits) else None)"

record faithful_line =
  fl_position :: rstring
  fl_text :: rstring
  fl_names :: "protected_name list option"

definition faithful_line_of :: "translation_env \<Rightarrow> rstring \<Rightarrow> faithful_line" where
  "faithful_line_of env line =
     (let (position, rest) = split_tab line;
          (t, names) = (case rest of None \<Rightarrow> ([], None) | Some r \<Rightarrow> split_tab r)
      in \<lparr>fl_position = position, fl_text = t,
          fl_names = (case names of None \<Rightarrow> None | Some n \<Rightarrow> te_parse_names env n)\<rparr>)"

text \<open>What the map of name records holds at a position: a position named twice loses its record.\<close>

definition names_at :: "faithful_line list \<Rightarrow> nat \<Rightarrow> protected_name list option" where
  "names_at ls position = (case filter (\<lambda>l. parse_usize (fl_position l) = Some position) ls of
       [l] \<Rightarrow> fl_names l | _ \<Rightarrow> None)"

definition role_labels :: "rstring list" where
  "role_labels = [[12304, 38899, 25928, 12305], [12304, 23545, 35805, 12305], [12304, 26049, 30333, 12305],
     [91, 38899, 25928, 93], [91, 23545, 35805, 93], [91, 26049, 30333, 93],
     [65288, 38899, 25928, 65289], [65288, 23545, 35805, 65289], [65288, 26049, 30333, 65289],
     [40, 38899, 25928, 41], [40, 23545, 35805, 41], [40, 26049, 30333, 41],
     [38899, 25928, 65306], [23545, 35805, 65306], [26049, 30333, 65306],
     [38899, 25928, 58], [23545, 35805, 58], [26049, 30333, 58]]"

definition starts_with_role_label :: "rstring \<Rightarrow> bool" where
  "starts_with_role_label t \<longleftrightarrow> list_ex (str_starts_with (trim_start t)) role_labels"

definition add_issue :: "bool \<Rightarrow> translation_issue \<Rightarrow> translation_outcome \<Rightarrow> translation_outcome" where
  "add_issue when issue x = (if when \<and> issue \<notin> set (to_issues x) then x\<lparr>to_issues := to_issues x @ [issue]\<rparr> else x)"

definition accept_names :: "translation_env \<Rightarrow> rstring \<Rightarrow> protected_name list option \<Rightarrow> translation_outcome \<Rightarrow> translation_outcome" where
  "accept_names env source names x = (case names of
       Some ns \<Rightarrow>
         if length ns \<le> 32 \<and> list_all (\<lambda>n. is_anchored n source (case to_text x of None \<Rightarrow> [] | Some t \<Rightarrow> t)) ns
         then x\<lparr>to_protected_names := filter (\<lambda>n. list_ex (te_uppercase env) (pr_source_text n)) ns\<rparr>
         else x\<lparr>to_issues := to_issues x @ [InvalidProtectedNames]\<rparr>
     | None \<Rightarrow> x\<lparr>to_issues := to_issues x @ [InvalidProtectedNames]\<rparr>)"

definition faithful_outcome :: "translation_env \<Rightarrow> rstring \<Rightarrow> protected_name list option \<Rightarrow> translation_outcome \<Rightarrow> translation_outcome" where
  "faithful_outcome env source names x =
     (let x = accept_names env source names x
      in case to_text x of None \<Rightarrow> x
       | Some t \<Rightarrow> add_issue (starts_with_role_label t) RoleLabelLeakage
           (add_issue (list_ex (te_alphabetic env) source \<and> \<not> contains_han t) MissingChineseText x))"

definition parse_faithful_output :: "translation_env \<Rightarrow> rstring \<Rightarrow> expected_utterance list \<Rightarrow> translation_outcome list" where
  "parse_faithful_output env output expected =
     (let ls = map (faithful_line_of env) (lines_of output);
          translations = concat (map (\<lambda>l. fl_position l @ [9] @ fl_text l @ [10]) ls)
      in map (\<lambda>(i, x, e). faithful_outcome env (ex_source_english e) (names_at ls (i + 1)) x)
           (enumerate 0 (zip (parse_numbered_output translations expected) expected)))"

end
