(* ===== verification/Hsk_Prompts.thy ===== *)
theory Hsk_Prompts
  imports Hsk_Translation
begin

text \<open>
  The user prompts of the translator and the budgets of its answers
  (\<open>koharu-llm/src/direct_hsk_protocol.rs\<close>, \<open>koharu-app/src/llm/direct_hsk.rs\<close>). Every text that enters
  a prompt is reduced to its words on one line.
\<close>

section \<open>Parts of a prompt\<close>

abbreviation newline :: rstring where "newline \<equiv> [10]"

definition show_count :: "nat \<Rightarrow> rstring" where
  "show_count n = lit (show_nat n)"

definition numbered_rows :: "rstring list \<Rightarrow> rstring" where
  "numbered_rows rows = concat (map (\<lambda>(i, row). show_count (i + 1) @ [9] @ compact_words row @ newline) (enumerate 0 rows))"

definition context_budget_text :: "preceding_utterance list \<Rightarrow> rstring" where
  "context_budget_text context = concat (map (\<lambda>u. lit ''- '' @ compact_words (hp_source_english u) @ lit '' => ''
     @ compact_words (hp_chinese u) @ newline) context)"

definition primary_user_prompt :: "preceding_utterance list \<Rightarrow> source_utterance list \<Rightarrow> rstring" where
  "primary_user_prompt context sources =
     (if context = [] then []
      else lit ''Previous translations (reference only; do not output):'' @ newline @ context_budget_text context @ newline)
     @ lit ''Faithful Chinese references (semantic authority):'' @ newline
     @ numbered_rows (map su_faithful_chinese sources)
     @ newline @ lit ''English source lines (name and structure reference):'' @ newline
     @ numbered_rows (map su_source_english sources)"

definition source_context_part :: "string \<Rightarrow> rstring list \<Rightarrow> rstring" where
  "source_context_part title spans = (if spans = [] then [] else lit title @ newline @ numbered_rows spans @ newline)"

definition append_preceding_source_context :: "rstring list \<Rightarrow> rstring" where
  "append_preceding_source_context earlier = source_context_part
     ''Preceding untranslated spans (reference only; do not translate or output them):'' earlier"

definition append_following_context :: "rstring list \<Rightarrow> rstring" where
  "append_following_context following = source_context_part
     ''Following untranslated spans (reference only; do not translate or output them):'' following"

definition hsk_kind_label :: "hsk_utterance_kind \<Rightarrow> rstring" where
  "hsk_kind_label kind = lit (case kind of ProseSpan \<Rightarrow> ''prose'' | HeadingSpan \<Rightarrow> ''heading'' | DialogueSpan \<Rightarrow> ''dialogue''
     | CaptionSpan \<Rightarrow> ''caption'' | ThoughtSpan \<Rightarrow> ''thought'' | SfxSpan \<Rightarrow> ''sfx'')"

definition append_kind_positions :: "hsk_utterance_kind list \<Rightarrow> rstring" where
  "append_kind_positions kinds = newline @ lit ''Source span kinds:'' @ newline
     @ concat (map (\<lambda>(i, kind). lit ''line '' @ show_count (i + 1) @ lit '': '' @ hsk_kind_label kind @ newline) (enumerate 0 kinds))"

definition layout_text :: "hsk_layout \<Rightarrow> rstring" where
  "layout_text l = lit ''maximum '' @ show_count (unat (hl_max_characters l)) @ lit '' Chinese characters; maximum ''
     @ show_count (unat (hl_max_lines l)) @ lit '' lines''"

definition append_layout_budgets :: "source_utterance list \<Rightarrow> rstring" where
  "append_layout_budgets us =
     (if list_all (\<lambda>u. su_layout u = None) us then []
      else newline @ lit ''Image layout budgets (hard limits for readable placement; unconstrained lines are omitted):'' @ newline
        @ concat (map (\<lambda>(i, u). case su_layout u of None \<Rightarrow> []
            | Some l \<Rightarrow> lit ''line '' @ show_count (i + 1) @ lit '': '' @ layout_text l @ newline) (enumerate 0 us)))"

definition append_repair_context :: "preceding_utterance list \<Rightarrow> rstring" where
  "append_repair_context context =
     (if context = [] then []
      else lit ''Previous translations (reference only; do not copy or output):'' @ newline
        @ context_budget_text context @ newline @ newline)"

section \<open>The prompts\<close>

definition build_translation_prompt :: "translation_request \<Rightarrow> rstring" where
  "build_translation_prompt r = primary_user_prompt (tq_preceding_utterances r) (tq_utterances r)
     @ append_preceding_source_context (tq_preceding_english r)
     @ append_following_context (tq_following_english r)
     @ append_kind_positions (map su_kind (tq_utterances r))
     @ append_layout_budgets (tq_utterances r)"

definition kind_labels :: "(string \<times> hsk_utterance_kind) list" where
  "kind_labels = [(''Prose'', ProseSpan), (''Heading'', HeadingSpan), (''Dialogue'', DialogueSpan),
     (''Caption'', CaptionSpan), (''Thought'', ThoughtSpan), (''Sound-effect'', SfxSpan)]"

definition kind_positions :: "faithful_utterance list \<Rightarrow> hsk_utterance_kind \<Rightarrow> rstring list" where
  "kind_positions us kind = map (\<lambda>(i, u). show_count (i + 1)) (filter (\<lambda>(i, u). fu_kind u = kind) (enumerate 0 us))"

definition build_faithful_translation_prompt :: "faithful_request \<Rightarrow> rstring" where
  "build_faithful_translation_prompt r = append_repair_context (fq_preceding_utterances r)
     @ append_preceding_source_context (fq_preceding_english r)
     @ append_following_context (fq_following_english r)
     @ concat (map (\<lambda>(label, kind). lit label @ lit '' positions: ''
          @ (let positions = kind_positions (fq_utterances r) kind
             in if positions = [] then lit ''none'' else str_join (lit '','') positions) @ newline) kind_labels)
     @ lit ''Source spans to translate:'' @ newline
     @ numbered_rows (map fu_source_english (fq_utterances r))
     @ lit ''Numbered Simplified Chinese translations:''"

definition repair_item_constraints :: "repair_utterance \<Rightarrow> rstring" where
  "repair_item_constraints u =
     lit ''English source: '' @ compact_words (ru_source_english u) @ newline
     @ lit ''Faithful Chinese reference: '' @ compact_words (ru_faithful_chinese u) @ newline
     @ lit ''Rejected: '' @ (case ru_rejected_chinese u of None \<Rightarrow> lit ''<missing>'' | Some t \<Rightarrow> compact_words t) @ newline
     @ lit ''Validator avoid-list: ''
     @ (if ru_avoid_chinese u = [] then lit ''<none>'' else str_join (lit '', '') (map compact_words (ru_avoid_chinese u))) @ newline
     @ lit ''Problems: '' @ str_join (lit '' | '') (map compact_words (ru_problems u))"

definition repair_item :: "nat \<Rightarrow> repair_utterance \<Rightarrow> rstring" where
  "repair_item i u = lit ''Item '' @ show_count (i + 1) @ lit '' ('' @ hsk_kind_label (ru_kind u) @ lit ''):'' @ newline
     @ (case ru_layout u of None \<Rightarrow> [] | Some l \<Rightarrow> lit ''Layout budget: '' @ layout_text l @ lit ''.'' @ newline)
     @ repair_item_constraints u @ newline"

definition build_repair_batch_prompt :: "repair_request \<Rightarrow> rstring" where
  "build_repair_batch_prompt r = append_repair_context (rq_preceding_utterances r)
     @ append_preceding_source_context (rq_preceding_english r)
     @ append_following_context (rq_following_english r)
     @ lit ''Rejected items:'' @ newline
     @ concat (map (\<lambda>(i, u). repair_item i u) (enumerate 0 (rq_utterances r)))
     @ lit ''Corrected numbered lines:''"

section \<open>Problems of a rejected translation\<close>

text \<open>\<open>{:?}\<close> of canonical numbers, which need no escapes.\<close>

definition debug_numbers :: "rstring list \<Rightarrow> rstring" where
  "debug_numbers ns = [91] @ str_join (lit '', '') (map (\<lambda>n. [34] @ n @ [34]) ns) @ [93]"

definition issue_description :: "translation_issue \<Rightarrow> rstring" where
  "issue_description issue = (case issue of
     InvalidProtectedNames \<Rightarrow> lit ''protected names must match exact source and Chinese text''
   | TruncatedOutput \<Rightarrow> lit ''generation reached its completion token limit''
   | MissingLine \<Rightarrow> lit ''no translation was returned''
   | DuplicateLine \<Rightarrow> lit ''more than one translation was returned''
   | MalformedLine \<Rightarrow> lit ''return only the Simplified Chinese translation''
   | SourceEcho \<Rightarrow> lit ''translate the source instead of copying it''
   | EmptyTranslation \<Rightarrow> lit ''translation is empty''
   | MissingChineseText \<Rightarrow> lit ''return complete Simplified Chinese text instead of punctuation or Latin text''
   | RoleLabelLeakage \<Rightarrow> lit ''return only the translation, without dialogue, caption, or sound-effect labels''
   | NumberMismatch expected actual \<Rightarrow> lit ''preserve ASCII numbers exactly: expected '' @ debug_numbers expected
       @ lit '', got '' @ debug_numbers actual
   | QuestionIntentMissing \<Rightarrow> lit ''preserve the source question intent''
   | ExcessiveExpansion words characters \<Rightarrow> lit ''translate only this source fragment; '' @ show_count words
       @ lit '' English words expanded to '' @ show_count characters @ lit '' Chinese characters''
   | InvalidMarkup \<Rightarrow> lit ''return only the translation without opaque markers''
   | SourceLanguageLeakage \<Rightarrow> lit ''translate every Latin word into Chinese'')"

definition repair_problems :: "translation_outcome \<Rightarrow> rstring list" where
  "repair_problems x = map issue_description (to_issues x)"

text \<open>Every issue has words for the repair: a rejected outcome never yields a repair request without problems.\<close>

lemma issue_description_visible: "\<not> blank_text (issue_description issue)"
proof -
  have visible: "\<not> blank_text (c # s)" if "\<not> is_whitespace c" for c s
    using that by (auto simp: blank_text_def trim_def trim_start_def trim_end_def dropWhile_eq_Nil_conv)
  show ?thesis by (cases issue) (auto simp: issue_description_def is_whitespace_def intro!: visible)
qed

section \<open>Budgets\<close>

definition render_source_context_for_budget :: "rstring list \<Rightarrow> rstring list \<Rightarrow> rstring" where
  "render_source_context_for_budget earlier following =
     concat (map (\<lambda>s. [80, 9] @ s @ newline) earlier) @ concat (map (\<lambda>s. [70, 9] @ s @ newline) following)"

definition output_token_budget :: "rstring list \<Rightarrow> nat \<Rightarrow> nat" where
  "output_token_budget sources utterance_count =
     (let translated = (sum_list (map length sources) + 1) div 2
      in min MAX_OUTPUT_TOKENS (max MIN_OUTPUT_TOKENS (translated + (utterance_count * OUTPUT_TOKENS_PER_UTTERANCE + 8))))"

definition faithful_output_token_budget :: "rstring list \<Rightarrow> nat \<Rightarrow> nat" where
  "faithful_output_token_budget sources utterance_count =
     min 4096 (output_token_budget sources utterance_count
       + sum_list (map (\<lambda>s. min 32 (length (split_whitespace s))) sources) * 64)"

text \<open>The context span farthest from the batch goes first.\<close>

definition evict_farthest_source_context :: "rstring list \<Rightarrow> rstring list \<Rightarrow> (rstring list \<times> rstring list) option" where
  "evict_farthest_source_context earlier following =
     (if following \<noteq> [] \<and> (length earlier \<le> length following \<or> earlier = []) then Some (earlier, butlast following)
      else if earlier \<noteq> [] then Some (tl earlier, following)
      else if following \<noteq> [] then Some (earlier, butlast following)
      else None)"

lemma evict_source_shrinks:
  "evict_farthest_source_context p f = Some (p', f') \<Longrightarrow> length p' + length f' < length p + length f"
  by (auto simp: evict_farthest_source_context_def split: if_splits)

section \<open>Texts cannot add lines\<close>

lemma str_join_free: "\<forall>w \<in> set ws. c \<notin> set w \<Longrightarrow> c \<notin> set sep \<Longrightarrow> c \<notin> set (str_join sep ws)"
  by (induction sep ws rule: str_join.induct) auto

lemma words_not_blank: "w \<in> set (split_whitespace s) \<Longrightarrow> is_whitespace c \<Longrightarrow> c \<notin> set w"
  using str_split_pieces [of w is_whitespace s] by (auto simp: split_whitespace_def list_all_iff)

lemma newline_free_words: "10 \<notin> set (compact_words s)"
proof -
  have "is_whitespace 10" by (simp add: is_whitespace_def)
  then show ?thesis unfolding compact_words_def using words_not_blank [of _ s 10] by (intro str_join_free) auto
qed

lemma newline_free_number: "10 \<notin> set (show_count n)"
  using show_digits_range [of 10 20 n] by (auto simp: show_count_def show_nat_def)

definition line_count :: "rstring \<Rightarrow> nat" where
  "line_count s = count_list s 10"

lemma line_count_append [simp]: "line_count (a @ b) = line_count a + line_count b"
  by (simp add: line_count_def)

lemma line_count_Cons [simp]: "line_count (c # s) = (if c = 10 then Suc (line_count s) else line_count s)"
  by (simp add: line_count_def)

lemma line_count_free: "10 \<notin> set s \<Longrightarrow> line_count s = 0"
  by (simp add: line_count_def)

lemma line_count_parts [simp]:
  "line_count [] = 0" "line_count newline = 1" "line_count [9] = 0" "line_count (compact_words s) = 0"
  "line_count (show_count n) = 0" "line_count (hsk_kind_label kind) = 0" "line_count (layout_text l) = 0"
  using newline_free_words [of s] newline_free_number
  by (simp_all add: line_count_free layout_text_def) (simp_all add: line_count_def hsk_kind_label_def split: hsk_utterance_kind.splits)

lemma line_count_concat: "line_count (concat xs) = sum_list (map line_count xs)"
  by (induction xs) simp_all

lemma sum_list_enumerate: "sum_list (map (\<lambda>(i, x). f x) (enumerate k xs)) = sum_list (map f xs)"
  by (induction xs arbitrary: k) simp_all

lemma line_count_rows [simp]: "line_count (numbered_rows rows) = length rows"
  by (simp add: numbered_rows_def line_count_concat comp_def split_def sum_list_triv)

lemma line_count_context [simp]: "line_count (context_budget_text context) = length context"
proof -
  have "line_count (lit ''- '') = 0" "line_count (lit '' => '') = 0" by (simp_all add: line_count_def)
  then show ?thesis by (simp add: context_budget_text_def line_count_concat comp_def sum_list_triv del: list.map)
qed

definition part_lines :: "'a list \<Rightarrow> nat" where
  "part_lines xs = (if xs = [] then 0 else length xs + 2)"

definition layout_lines :: "source_utterance list \<Rightarrow> nat" where
  "layout_lines us = part_lines (filter (\<lambda>u. su_layout u \<noteq> None) us)"

definition translation_prompt_lines :: "translation_request \<Rightarrow> nat" where
  "translation_prompt_lines r = part_lines (tq_preceding_utterances r) + part_lines (tq_preceding_english r)
     + part_lines (tq_following_english r) + layout_lines (tq_utterances r) + 3 * length (tq_utterances r) + 5"

lemma line_count_source_part: "10 \<notin> set (lit title) \<Longrightarrow> line_count (source_context_part title spans) = part_lines spans"
  by (simp add: source_context_part_def part_lines_def line_count_free)

lemma line_count_source_parts [simp]:
  "line_count (append_preceding_source_context spans) = part_lines spans"
  "line_count (append_following_context spans) = part_lines spans"
  unfolding append_preceding_source_context_def append_following_context_def
  by (rule line_count_source_part, simp)+

lemma line_count_primary: "line_count (primary_user_prompt context sources) = part_lines context + 2 * length sources + 3"
proof -
  have "line_count (lit ''Previous translations (reference only; do not output):'') = 0"
    "line_count (lit ''Faithful Chinese references (semantic authority):'') = 0"
    "line_count (lit ''English source lines (name and structure reference):'') = 0"
    by (simp_all add: line_count_def)
  then show ?thesis by (simp add: primary_user_prompt_def part_lines_def del: list.map)
qed

lemma line_count_kinds: "line_count (append_kind_positions kinds) = length kinds + 2"
proof -
  have "line_count (lit ''Source span kinds:'') = 0" "line_count (lit ''line '') = 0" "line_count (lit '': '') = 0"
    by (simp_all add: line_count_def)
  then show ?thesis
    by (simp add: append_kind_positions_def line_count_concat comp_def split_def sum_list_triv del: list.map)
qed

lemma line_count_layouts: "line_count (append_layout_budgets us) = layout_lines us"
proof -
  have parts: "line_count (lit ''Image layout budgets (hard limits for readable placement; unconstrained lines are omitted):'') = 0"
    "line_count (lit ''line '') = 0" "line_count (lit '': '') = 0"
    by (simp_all add: line_count_def)
  let ?f = "\<lambda>u. if su_layout u = None then 0 else Suc 0"
  have "line_count (case su_layout u of None \<Rightarrow> [] | Some l \<Rightarrow> lit ''line '' @ show_count i @ lit '': '' @ layout_text l @ newline) = ?f u" for i and u :: source_utterance
    by (simp add: parts del: list.map split: option.splits)
  then have "sum_list (map line_count (map (\<lambda>(i, u). case su_layout u of None \<Rightarrow> []
            | Some l \<Rightarrow> lit ''line '' @ show_count (i + 1) @ lit '': '' @ layout_text l @ newline) (enumerate 0 us)))
      = sum_list (map (\<lambda>(i, u). ?f u) (enumerate 0 us))"
    by (simp add: comp_def split_def del: list.map)
  also have "\<dots> = length (filter (\<lambda>u. su_layout u \<noteq> None) us)"
    unfolding sum_list_enumerate by (induction us) auto
  finally show ?thesis
    using parts by (auto simp: append_layout_budgets_def line_count_concat layout_lines_def part_lines_def list_all_iff
        filter_empty_conv simp del: list.map)
qed

text \<open>No text of a request, of its context or of its neighbours can add a line to the prompt or
  take one away: the number of lines depends on how many spans there are and which have a layout.\<close>

theorem prompt_lines_fixed: "line_count (build_translation_prompt r) = translation_prompt_lines r"
  by (simp add: build_translation_prompt_def translation_prompt_lines_def line_count_primary line_count_kinds line_count_layouts)

section \<open>System prompts\<close>

text \<open>
  The system prompts of the three model calls, character for character, and the grammar that constrains
  the faithful translation. They are the texts the planners charge against the model's context.
\<close>

definition level_style_instruction :: "u8 \<Rightarrow> rstring" where
  "level_style_instruction level =
    (if level = 1 \<or> level = 2 then lit ''Use basic everyday words and short, direct subject-verb-object clauses. Make referents explicit ''
     @ lit ''when natural. Prefer two simple clauses over one nested clause. Avoid idioms, literary or ''
     @ lit ''formal wording, nominalization, dense modifiers, and avoidable '' @ [25226] @ lit ''/'' @ [34987]
     @ lit '' or passive constructions.''
     else if level = 3 \<or> level = 4 then lit ''Use common conversational words and familiar connectors. Moderate compound sentences are fine, ''
     @ lit ''but replace advanced idioms, formal synonyms, nominalization, and deeply nested clauses with ''
     @ lit ''clearer everyday phrasing.''
     else lit ''Natural advanced grammar and precise vocabulary are allowed, while concise everyday wording is ''
     @ lit ''still preferred when equally accurate.'')"

definition coverage_target :: "u8 \<Rightarrow> nat \<times> nat" where
  "coverage_target level = (if 1 \<le> level \<and> level \<le> 3 then (90, 1) else if level = 4 then (93, 2)
     else if level = 5 then (95, 2) else (95, 3))"

definition natural_learning_instruction :: "u8 \<Rightarrow> rstring" where
  "natural_learning_instruction level =
    (let (coverage, term_limit) = coverage_target level
     in lit ''Use the simplify-preserve-teach policy. First simplify advanced vocabulary and grammar wherever ''
     @ lit ''an everyday expression preserves the complete meaning naturally. Target at least ''
     @ show_count coverage @ lit ''% level-appropriate lexical occurrences and retain no more than ''
     @ show_count term_limit
     @ lit '' above-level occurrence in this complete line. Retain one only when paraphrasing it would ''
     @ lit ''become awkward, childish, repetitive, or materially less precise. Prefer a useful recurring ''
     @ lit ''content word over a decorative literary synonym. The application will identify and teach ''
     @ lit ''retained terms; do not add explanations or markup.'')"

definition semantic_admission_instruction :: "rstring" where
  "semantic_admission_instruction = lit ''Source registration is already complete: every supplied span is admitted content that must ''
     @ lit ''receive a translation. Do not classify, exclude, skip, merge, or reorder any span.''"

definition primary_name_instruction :: "rstring" where
  "primary_name_instruction = lit ''Treat person, place, organization, and other proper names as names: never translate their ''
     @ lit ''dictionary meaning. Preserve the Chinese form in the faithful reference, or use an established ''
     @ lit ''Chinese name when certain and otherwise a phonetic Chinese transliteration. Keep it consistent ''
     @ lit ''with preceding context. Never emit Latin name spellings.''"

definition primary_learning_instruction :: "u8 \<Rightarrow> hsk_learning_mode \<Rightarrow> rstring" where
  "primary_learning_instruction level mode =
    (case mode of NaturalMode \<Rightarrow> natural_learning_instruction level
       | StrictMode \<Rightarrow> lit ''Use strict HSK policy. Rewrite every avoidable above-level word and grammar pattern with ''
     @ lit ''level-appropriate language even when the result is less elegant. Only protected proper names ''
     @ lit ''and exact required glossary forms may remain outside the selected level.'')"

definition primary_provenance_instruction :: "direct_provenance \<Rightarrow> rstring" where
  "primary_provenance_instruction provenance =
    (case provenance of DomSource \<Rightarrow> lit ''The English was extracted directly from the document DOM and is authoritative; preserve it ''
     @ lit ''exactly as the source and do not rewrite or correct it before translation.''
       | OcrSource \<Rightarrow> lit ''The English came from OCR and can contain minor recognition errors in letters, spacing, or ''
     @ lit ''punctuation. Silently correct only an obvious OCR error when grammar and neighboring context ''
     @ lit ''make the intended English clear; do not invent content when it is genuinely ambiguous.'')"

definition primary_system_prompt :: "u8 \<Rightarrow> nat \<Rightarrow> hsk_learning_mode \<Rightarrow> direct_provenance \<Rightarrow> rstring" where
  "primary_system_prompt level n mode provenance =
     lit ''Realize the '' @ show_count n
     @ lit '' numbered faithful Chinese references in their supplied source order at the requested HSK ''
     @ lit ''level. '' @ semantic_admission_instruction @ lit '' '' @ primary_provenance_instruction provenance
     @ lit '' The faithful Chinese reference is the semantic authority: preserve all of its meaning, add ''
     @ lit ''nothing, and omit nothing; use the English only to resolve names and source structure. Rewrite ''
     @ lit ''each reference into concise, natural Simplified Chinese for a reader targeting cumulative HSK ''
     @ lit ''2.0 level '' @ show_count (unat level)
     @ lit ''. Use the supplied preceding translations and neighboring numbered spans to resolve pronouns, ''
     @ lit ''omitted subjects, ellipsis, and sentences split across source spans. Adjacent spans are ''
     @ lit ''context, not extra content: each numbered output must contain only the meaning carried by its ''
     @ lit ''own source span, while using the surrounding sequence to make that portion coherent. Preserve a ''
     @ lit ''genuinely standalone fragment as a fragment; when several spans form one sentence, translate ''
     @ lit ''each span as its corresponding portion of that sentence without duplicating or inventing ''
     @ lit ''meaning. Actively rewrite vocabulary, grammar, clause structure, and idioms to suit the ''
     @ lit ''requested level'' @ [8212] @ lit ''not vocabulary alone. '' @ level_style_instruction level
     @ lit '' '' @ primary_learning_instruction level mode
     @ lit '' Prefer the simplest natural wording that preserves the complete meaning; do not keep advanced ''
     @ lit ''grammar merely because its vocabulary passes the HSK list. Preserve complete meaning: every ''
     @ lit ''clause and detail; speaker, addressee, and participant roles; who acts on whom and whether ''
     @ lit ''agency is intentional or accidental; attachment, cause and result; modality, certainty, and ''
     @ lit ''conditions; quantities and comparisons; negation; question intent; tone and humour; ''
     @ lit ''relationships and pronoun referents; ambiguity as resolved by preceding context, or the ''
     @ lit ''ambiguity itself when unresolved; and self-corrections in their original order. Preserve ''
     @ lit ''numeric values. When a numbered line has an image layout budget, stay within its maximum ''
     @ lit ''Chinese-character and line counts, choosing a concise equivalent before allowing overflow. ''
     @ primary_name_instruction @ lit '' Your response must start with '' @ [96] @ lit ''1'' @ [9, 96]
     @ lit '' and contain exactly '' @ show_count n @ lit '' non-empty lines numbered 1 through '' @ show_count n
     @ lit '' in order. On every line, write the position, one tab, and only its Simplified Chinese ''
     @ lit ''translation. Do not write headings, labels, explanations, Markdown, JSON, or application IDs.''"

definition repair_name_instruction :: "rstring" where
  "repair_name_instruction = lit ''Never translate proper names by dictionary meaning. Preserve their Chinese form from the ''
     @ lit ''faithful reference, or use an established Chinese form when certain and otherwise a phonetic ''
     @ lit ''Chinese transliteration. Never emit Latin name spellings.''"

definition repair_learning_instruction :: "u8 \<Rightarrow> hsk_learning_mode \<Rightarrow> rstring" where
  "repair_learning_instruction level mode =
    (case mode of NaturalMode \<Rightarrow> natural_learning_instruction level
       | StrictMode \<Rightarrow> lit ''Replace every listed above-level term and grammar pattern with level-appropriate wording. Treat ''
     @ lit ''every exact term in the Validator avoid-list as a forbidden Chinese substring: check the ''
     @ lit ''completed answer and emit none of them. A name form required to preserve the faithful reference ''
     @ lit ''is the only exception.'')"

definition repair_scope_instruction :: "nat \<Rightarrow> rstring" where
  "repair_scope_instruction n = (if n = 1 then lit ''Repair this one English-to-Simplified-Chinese translation''
     else lit ''Repair each of the '' @ show_count n
     @ lit '' numbered English-to-Simplified-Chinese translations independently'')"

definition repair_output_instruction :: "nat \<Rightarrow> rstring" where
  "repair_output_instruction n = (if n = 1 then lit ''Return exactly one non-empty line containing only the corrected translation; write no position ''
     @ lit ''or tab.''
     else lit ''Return exactly '' @ show_count n @ lit '' non-empty lines numbered 1 through '' @ show_count n
     @ lit '' in order. On every line write the position, one tab, and only that corrected translation.'')"

definition repair_provenance_instruction :: "direct_provenance \<Rightarrow> rstring" where
  "repair_provenance_instruction provenance =
    (case provenance of DomSource \<Rightarrow> lit ''The DOM source is authoritative; do not correct or reinterpret its English before translation.''
       | OcrSource \<Rightarrow> lit ''Correct only an obvious OCR recognition error when grammar and context make the intended ''
     @ lit ''English clear; do not carry nonsensical recognition fragments into Chinese.'')"

definition repair_system_prompt :: "u8 \<Rightarrow> nat \<Rightarrow> hsk_learning_mode \<Rightarrow> direct_provenance \<Rightarrow> rstring" where
  "repair_system_prompt level n mode provenance =
     repair_scope_instruction n @ lit '' for a reader targeting cumulative HSK 2.0 level ''
     @ show_count (unat level) @ lit ''. '' @ repair_provenance_instruction provenance
     @ lit '' Fix every listed problem. The faithful Chinese reference is the semantic authority: preserve ''
     @ lit ''all of its meaning, add nothing, and omit nothing. Actively rewrite vocabulary, grammar, clause ''
     @ lit ''structure, and idioms for the requested level'' @ [8212] @ lit ''not vocabulary alone. ''
     @ level_style_instruction level @ lit '' '' @ repair_learning_instruction level mode
     @ lit '' Preserve every clause and detail, participant roles, agency, cause and result, modality, ''
     @ lit ''quantities and comparisons, negation, question intent, tone and humour, ambiguity, pronoun ''
     @ lit ''referents, self-corrections, Chinese name forms already present in the source, and numeric ''
     @ lit ''values. '' @ repair_output_instruction n
     @ lit '' Semantic role classification is already complete; always return a translation. ''
     @ repair_name_instruction
     @ lit '' Write no headings, labels, explanations, Markdown, JSON, or application IDs.''"

definition faithful_provenance_instruction :: "direct_provenance \<Rightarrow> rstring" where
  "faithful_provenance_instruction provenance =
    (case provenance of DomSource \<Rightarrow> lit ''The English comes directly from the document DOM and is authoritative. Do not correct, ''
     @ lit ''normalize, or reinterpret it before translation.''
       | OcrSource \<Rightarrow> lit ''The English comes from OCR. Correct only an obvious recognition error when grammar and ''
     @ lit ''neighboring context make the intended source certain; otherwise preserve the ambiguity.'')"

definition faithful_system_prompt :: "direct_provenance \<Rightarrow> rstring" where
  "faithful_system_prompt provenance =
     lit ''Translate each numbered English source span into complete, natural Simplified Chinese. Each ''
     @ lit ''output line translates only the same numbered span. Render sound-effect spans as concise ''
     @ lit ''natural Chinese sounds; preserve the meaning and tone of prose, headings, dialogue, thoughts, ''
     @ lit ''captions, and sound effects. Do not add role labels or explanations to the Chinese translation ''
     @ lit ''field. '' @ faithful_provenance_instruction provenance @ [10, 10]
     @ lit ''Use preceding and neighboring context only to resolve references and connected text. Never ''
     @ lit ''import context into a span, merge spans, omit meaning, or move meaning to a neighboring line. ''
     @ lit ''Preserve every clause, interjection, hesitation, repetition, fragment, vocative, participant, ''
     @ lit ''proper name, negation, quantity, question, and tone. Render names naturally in Chinese. Do not ''
     @ lit ''leave Latin words in the Chinese translation and do not replace words with punctuation.'' @ [10, 10]
     @ lit ''Return exactly one line per span: position, Chinese translation, and a JSON array of protected ''
     @ lit ''proper names, separated by tabs. Each name is an object with sourceText (an exact English ''
     @ lit ''source substring), chineseText (its exact Chinese rendering), and reason (person-name, ''
     @ lit ''place-name, title, or unavoidable-proper-noun). Use [] when there are no names. Protect actual ''
     @ lit ''names only, never ordinary vocabulary. English names must have source capitalization; do not ''
     @ lit ''mark ordinary lowercase words as names. Do not add introductions, explanations, or Markdown.'' @ [10]
     @ lit ''Formatting example (the separators are literal tabs):'' @ [10] @ lit ''1''
     @ [9, 29233, 20029, 19997, 22238, 23478, 20102, 12290, 9] @ lit ''[{'' @ [34] @ lit ''sourceText'' @ [34]
     @ lit '':'' @ [34] @ lit ''Alice'' @ [34] @ lit '','' @ [34] @ lit ''chineseText'' @ [34] @ lit '':''
     @ [34, 29233, 20029, 19997, 34] @ lit '','' @ [34] @ lit ''reason'' @ [34] @ lit '':'' @ [34]
     @ lit ''person-name'' @ [34] @ lit ''}]'' @ [10] @ lit ''2'' @ [9, 38376, 24320, 20102, 12290, 9] @ lit ''[]''"

definition grammar_item :: "nat \<Rightarrow> rstring" where
  "grammar_item position = (if 1 < position then lit '' '' @ [34, 92] @ lit ''n'' @ [34] @ lit '' '' else [])
     @ [34] @ show_count position @ [92] @ lit ''t'' @ [34] @ lit '' chinese '' @ [34, 92] @ lit ''t'' @ [34]
     @ lit '' names''"

definition faithful_output_grammar :: "nat \<Rightarrow> rstring" where
  "faithful_output_grammar n = lit ''root ::= '' @ concat (map grammar_item [1 ..< n + 1])
     @ lit '' '' @ [34, 92] @ lit ''n'' @ [34] @ lit ''?'' @ [10] @ lit ''chinese ::= [^A-Za-z'' @ [92]
     @ lit ''x00-'' @ [92] @ lit ''x1F'' @ [92] @ lit ''x7F]+'' @ [10] @ lit ''names ::= '' @ [34] @ lit ''[''
     @ [34] @ lit '' ws (name ('' @ [34] @ lit '','' @ [34] @ lit '' ws name){0,31})? '' @ [34] @ lit '']''
     @ [34, 10] @ lit ''name ::= '' @ [34] @ lit ''{'' @ [34] @ lit '' ws '' @ [34, 92, 34] @ lit ''sourceText''
     @ [92, 34, 34] @ lit '' ws '' @ [34] @ lit '':'' @ [34] @ lit '' ws string '' @ [34] @ lit '','' @ [34]
     @ lit '' ws '' @ [34, 92, 34] @ lit ''chineseText'' @ [92, 34, 34] @ lit '' ws '' @ [34] @ lit '':'' @ [34]
     @ lit '' ws string '' @ [34] @ lit '','' @ [34] @ lit '' ws '' @ [34, 92, 34] @ lit ''reason'' @ [92, 34, 34]
     @ lit '' ws '' @ [34] @ lit '':'' @ [34] @ lit '' ws reason '' @ [34] @ lit ''}'' @ [34] @ lit '' ws'' @ [10]
     @ lit ''reason ::= '' @ [34, 92, 34] @ lit ''person-name'' @ [92, 34, 34] @ lit '' ws | '' @ [34, 92, 34]
     @ lit ''place-name'' @ [92, 34, 34] @ lit '' ws | '' @ [34, 92, 34] @ lit ''title'' @ [92, 34, 34]
     @ lit '' ws | '' @ [34, 92, 34] @ lit ''unavoidable-proper-noun'' @ [92, 34, 34] @ lit '' ws'' @ [10]
     @ lit ''string ::= '' @ [34, 92, 34, 34] @ lit '' ([^'' @ [34, 92, 92, 92] @ lit ''x00-'' @ [92] @ lit ''x1F''
     @ [92] @ lit ''x7F] | '' @ [34, 92, 92, 34] @ lit '' (['' @ [34, 92, 92] @ lit ''bfnrt] | '' @ [34]
     @ lit ''u'' @ [34] @ lit '' [0-9a-fA-F]{4})){1,128} '' @ [34, 92, 34, 34] @ lit '' ws'' @ [10]
     @ lit ''ws ::= [ ]{0,8}'' @ [10]"

end
