(* ===== verification/Actions.thy ===== *)
theory Actions
  imports Prelude
begin

text \<open>
  Code that runs in a changing world: an action takes the world and gives a result or an error and the
  world after it. Other threads are part of the world, so that reading a flag is an action too. A small
  calculus of triples reasons about actions the way they are composed.
\<close>

section \<open>Actions\<close>

type_synonym ('w, 'e, 'a) action = "'w \<Rightarrow> ('e + 'a) \<times> 'w"

definition give :: "'a \<Rightarrow> ('w, 'e, 'a) action" where
  "give x w = (Ok x, w)"

definition give_up :: "'e \<Rightarrow> ('w, 'e, 'a) action" where
  "give_up e w = (Err e, w)"

definition checked :: "'e + 'a \<Rightarrow> ('w, 'e, 'a) action" where
  "checked r w = (r, w)"

definition observe :: "('w \<Rightarrow> 'a \<times> 'w) \<Rightarrow> ('w, 'e, 'a) action" where
  "observe f w = (case f w of (x, w') \<Rightarrow> (Ok x, w'))"

definition and_then :: "('w, 'e, 'a) action \<Rightarrow> ('a \<Rightarrow> ('w, 'e, 'b) action) \<Rightarrow> ('w, 'e, 'b) action" where
  "and_then m f w = (case m w of (Inl e, w') \<Rightarrow> (Inl e, w') | (Inr x, w') \<Rightarrow> f x w')"

definition relabelled :: "('d \<Rightarrow> 'e) \<Rightarrow> ('w, 'd, 'a) action \<Rightarrow> ('w, 'e, 'a) action" where
  "relabelled label m w = (case m w of (Inl e, w') \<Rightarrow> (Inl (label e), w') | (Inr x, w') \<Rightarrow> (Inr x, w'))"

fun for_each :: "('a \<Rightarrow> ('w, 'e, unit) action) \<Rightarrow> 'a list \<Rightarrow> ('w, 'e, unit) action" where
  "for_each f [] = give ()"
| "for_each f (x # xs) = and_then (f x) (\<lambda>_. for_each f xs)"

lemma and_then_give [simp]: "and_then (give x) f = f x"
  by (simp add: fun_eq_iff and_then_def give_def)

lemma give_fst [simp]: "fst (give x w) = Inr x"
  by (simp add: give_def)

lemma give_inject [simp]: "give x = give y \<longleftrightarrow> x = y"
  by (auto simp: fun_eq_iff give_def)

section \<open>Triples\<close>

definition triple :: "('w \<Rightarrow> bool) \<Rightarrow> ('w, 'e, 'a) action \<Rightarrow> ('a \<Rightarrow> 'w \<Rightarrow> bool) \<Rightarrow> ('e \<Rightarrow> 'w \<Rightarrow> bool) \<Rightarrow> bool" where
  "triple P m Q E \<longleftrightarrow> (\<forall>w. P w \<longrightarrow> (case m w of (r, w') \<Rightarrow> (case r of Inl e \<Rightarrow> E e w' | Inr x \<Rightarrow> Q x w')))"

lemma tripleD:
  assumes "triple P m Q E" "P w" "m w = (r, w')"
  shows "case r of Inl e \<Rightarrow> E e w' | Inr x \<Rightarrow> Q x w'"
  using assms unfolding triple_def by fastforce

lemma tripleI: "(\<And>w r w'. P w \<Longrightarrow> m w = (r, w') \<Longrightarrow> case r of Inl e \<Rightarrow> E e w' | Inr x \<Rightarrow> Q x w') \<Longrightarrow> triple P m Q E"
  unfolding triple_def by (simp split: prod.split)

lemma triple_give: "(\<And>w. P w \<Longrightarrow> Q x w) \<Longrightarrow> triple P (give x) Q E"
  by (simp add: triple_def give_def)

lemma triple_give_up: "(\<And>w. P w \<Longrightarrow> E e w) \<Longrightarrow> triple P (give_up e) Q E"
  by (simp add: triple_def give_up_def)

lemma triple_checked: "(\<And>e w. r = Inl e \<Longrightarrow> P w \<Longrightarrow> E e w) \<Longrightarrow> (\<And>x w. r = Inr x \<Longrightarrow> P w \<Longrightarrow> Q x w) \<Longrightarrow> triple P (checked r) Q E"
  by (simp add: triple_def checked_def split: sum.split)

lemma triple_observe: "(\<And>w x w'. P w \<Longrightarrow> f w = (x, w') \<Longrightarrow> Q x w') \<Longrightarrow> triple P (observe f) Q E"
  by (simp add: triple_def observe_def split: prod.split)

lemma triple_and_then:
  assumes "triple P m Q E" "\<And>x. triple (Q x) (f x) R E"
  shows "triple P (and_then m f) R E"
proof (rule tripleI)
  fix w r w'
  assume P: "P w" and run: "and_then m f w = (r, w')"
  obtain r1 w1 where m: "m w = (r1, w1)" by (cases "m w")
  note m1 = tripleD [OF assms(1) P m]
  show "case r of Inl e \<Rightarrow> E e w' | Inr x \<Rightarrow> R x w'"
  proof (cases r1)
    case (Inr x)
    then show ?thesis using m1 m run tripleD [OF assms(2) [of x], of w1] by (simp add: and_then_def)
  qed (use m1 m run in \<open>auto simp: and_then_def\<close>)
qed

lemma triple_weaken:
  assumes "triple P m Q E" "\<And>w. P' w \<Longrightarrow> P w" "\<And>x w. Q x w \<Longrightarrow> Q' x w" "\<And>e w. E e w \<Longrightarrow> E' e w"
  shows "triple P' m Q' E'"
proof (rule tripleI)
  fix w r w'
  assume "P' w" "m w = (r, w')"
  then have "case r of Inl e \<Rightarrow> E e w' | Inr x \<Rightarrow> Q x w'" using assms(1,2) by (blast intro: tripleD)
  then show "case r of Inl e \<Rightarrow> E' e w' | Inr x \<Rightarrow> Q' x w'" using assms(3,4) by (auto split: sum.splits)
qed

lemma triple_relabelled: "triple P m Q (\<lambda>e. E (label e)) \<Longrightarrow> triple P (relabelled label m) Q E"
  unfolding triple_def relabelled_def by (auto split: prod.splits sum.splits)

lemma triple_for_each: "(\<And>x. triple P (f x) (\<lambda>_. P) E) \<Longrightarrow> triple P (for_each f xs) (\<lambda>_. P) E"
  by (induction xs) (auto intro: triple_give triple_and_then)

text \<open>What a result satisfies in whatever world.\<close>

definition always :: "('w, 'e, 'a) action \<Rightarrow> ('e \<Rightarrow> bool) \<Rightarrow> ('a \<Rightarrow> bool) \<Rightarrow> bool" where
  "always m E P \<longleftrightarrow> triple (\<lambda>_. True) m (\<lambda>x _. P x) (\<lambda>e _. E e)"

lemma always_iff: "always m E P \<longleftrightarrow> (\<forall>w. case fst (m w) of Inl e \<Rightarrow> E e | Inr x \<Rightarrow> P x)"
  unfolding always_def triple_def by (auto simp: split_def)

lemma always_give: "P x \<Longrightarrow> always (give x) E P"
  by (simp add: always_def triple_give)

lemma always_give_up: "E e \<Longrightarrow> always (give_up e) E P"
  by (simp add: always_def triple_give_up)

lemma always_and_then: "always m E Q \<Longrightarrow> (\<And>x. Q x \<Longrightarrow> always (f x) E P) \<Longrightarrow> always (and_then m f) E P"
  unfolding always_def
proof (erule triple_and_then)
  fix x
  assume "\<And>x. Q x \<Longrightarrow> triple (\<lambda>_. True) (f x) (\<lambda>x _. P x) (\<lambda>e _. E e)"
  then show "triple (\<lambda>_. Q x) (f x) (\<lambda>x _. P x) (\<lambda>e _. E e)" by (cases "Q x") (auto simp: triple_def)
qed

lemma always_checked: "(\<And>e. r = Inl e \<Longrightarrow> E e) \<Longrightarrow> (\<And>x. r = Inr x \<Longrightarrow> P x) \<Longrightarrow> always (checked r) E P"
  by (auto simp: always_def intro: triple_checked)

lemma always_relabelled: "(\<And>t. E (label t)) \<Longrightarrow> always (relabelled label m) E (\<lambda>_. True)"
  by (auto simp: always_iff relabelled_def split: prod.splits sum.splits)

lemma always_for_each: "(\<And>x. always (f x) E (\<lambda>_. True)) \<Longrightarrow> always (for_each f xs) E (\<lambda>_. True)"
  by (induction xs) (auto intro: always_give always_and_then)

lemma always_weaken: "always m E P \<Longrightarrow> (\<And>x. P x \<Longrightarrow> Q x) \<Longrightarrow> always m E Q"
  unfolding always_iff by (metis (no_types, lifting) old.sum.simps(5,6) sum.exhaust)

section \<open>Invariants\<close>

text \<open>An action keeps a property of the world if it holds afterwards, whatever the result.\<close>

definition keeps :: "('w \<Rightarrow> bool) \<Rightarrow> ('w, 'e, 'a) action \<Rightarrow> bool" where
  "keeps J m \<longleftrightarrow> (\<forall>w. J w \<longrightarrow> J (snd (m w)))"

lemma keepsD: "keeps J m \<Longrightarrow> m w = (r, w') \<Longrightarrow> J w \<Longrightarrow> J w'"
  by (auto simp: keeps_def)

lemma keepsI: "(\<And>w. J w \<Longrightarrow> J (snd (m w))) \<Longrightarrow> keeps J m"
  by (simp add: keeps_def)

named_theorems keeping

lemma keeps_give [keeping]: "keeps J (give x)"
  by (simp add: keeps_def give_def)

lemma keeps_give_up [keeping]: "keeps J (give_up e)"
  by (simp add: keeps_def give_up_def)

lemma keeps_checked [keeping]: "keeps J (checked r)"
  by (simp add: keeps_def checked_def)

lemma keeps_observe: "(\<And>w. J w \<Longrightarrow> J (snd (f w))) \<Longrightarrow> keeps J (observe f)"
  by (simp add: keeps_def observe_def split_def)

lemma keeps_and_then [keeping]: "keeps J m \<Longrightarrow> (\<And>x. keeps J (f x)) \<Longrightarrow> keeps J (and_then m f)"
  by (auto simp: keeps_def and_then_def split: prod.split sum.split dest: keepsD)

lemma keeps_relabelled [keeping]: "keeps J m \<Longrightarrow> keeps J (relabelled label m)"
  by (auto simp: keeps_def relabelled_def split: prod.split sum.split dest: keepsD)

lemma keeps_for_each [keeping]: "(\<And>x. keeps J (f x)) \<Longrightarrow> keeps J (for_each f xs)"
  by (induction xs) (auto intro: keeping)

lemma keeps_if [keeping]: "(b \<Longrightarrow> keeps J m) \<Longrightarrow> (\<not> b \<Longrightarrow> keeps J n) \<Longrightarrow> keeps J (if b then m else n)"
  by simp

lemma keeps_option [keeping]: "keeps J m \<Longrightarrow> (\<And>x. keeps J (f x)) \<Longrightarrow> keeps J (case r of None \<Rightarrow> m | Some x \<Rightarrow> f x)"
  by (cases r) simp_all

lemma keeps_pair [keeping]: "(\<And>x y. keeps J (f x y)) \<Longrightarrow> keeps J (case p of (x, y) \<Rightarrow> f x y)"
  by (cases p) simp

lemma keeps_list [keeping]: "keeps J m \<Longrightarrow> (\<And>x xs. keeps J (f x xs)) \<Longrightarrow> keeps J (case l of [] \<Rightarrow> m | x # xs \<Rightarrow> f x xs)"
  by (cases l) simp_all

lemma keeps_Let [keeping]: "keeps J (f t) \<Longrightarrow> keeps J (Let t f)"
  by simp

end
