(* ===== verification/Hsk_Translation_Run.thy ===== *)
theory Hsk_Translation_Run
  imports Hsk_Prompts Actions
begin

text \<open>
  The translator's control flow (\<open>koharu-app/src/llm/direct_hsk.rs\<close>): what context a batch may carry, how
  large it may be, and the loops that translate, faithfully translate and repair all spans of a
  request. The loaded model is a parameter: its answers may depend on a hidden state of type \<open>'w\<close>,
  which every call passes on, and so may the cancellation flag, which other threads set.
\<close>

section \<open>The model\<close>

record generation =
  gn_text :: rstring
  gn_termination :: generation_termination

text \<open>\<open>GenerateOptions::greedy\<close>: of the options only the length and the grammar vary.\<close>

record generate_options =
  go_max_tokens :: nat
  go_grammar :: "rstring option"

definition greedy :: "nat \<Rightarrow> generate_options" where
  "greedy max_tokens = \<lparr>go_max_tokens = max_tokens, go_grammar = None\<rparr>"

record 'w generator =
  ge_token_count :: "rstring \<Rightarrow> 'w \<Rightarrow> (rstring + nat) \<times> 'w"
  ge_capacity :: "rstring \<Rightarrow> rstring \<Rightarrow> 'w \<Rightarrow> (rstring + nat) \<times> 'w"
  ge_generate :: "rstring \<Rightarrow> rstring \<Rightarrow> generate_options \<Rightarrow> 'w \<Rightarrow> (rstring + generation) \<times> 'w"
  ge_cancelled :: "'w \<Rightarrow> bool \<times> 'w"

definition token_count :: "'w generator \<Rightarrow> rstring \<Rightarrow> ('w, translation_error, nat) action" where
  "token_count g t = relabelled GeneratorFailed (ge_token_count g t)"

definition completion_capacity :: "'w generator \<Rightarrow> rstring \<Rightarrow> rstring \<Rightarrow> ('w, translation_error, nat) action" where
  "completion_capacity g system user = relabelled GeneratorFailed (ge_capacity g system user)"

definition generate_streaming :: "'w generator \<Rightarrow> rstring \<Rightarrow> rstring \<Rightarrow> generate_options \<Rightarrow> ('w, translation_error, generation) action" where
  "generate_streaming g system user options = relabelled GeneratorFailed (ge_generate g system user options)"

definition check_cancelled :: "'w generator \<Rightarrow> ('w, translation_error, unit) action" where
  "check_cancelled g w = (let (cancelled, w') = ge_cancelled g w in (if cancelled then Err TranslationCancelled else Ok (), w'))"

text \<open>Only the resident translation model answers; every other state of the application's model is an error.\<close>

datatype model_state = ModelEmpty | ModelLoading | ReadyLocal rstring | ReadyProvider | ModelFailed rstring

definition HSK_TRANSLATION_MODEL :: rstring where
  "HSK_TRANSLATION_MODEL = lit ''qwen3.5-4b''"

definition require_translator :: "model_state \<Rightarrow> rstring + unit" where
  "require_translator state = (case state of
       ReadyLocal m \<Rightarrow> reject_if (m \<noteq> HSK_TRANSLATION_MODEL)
         (lit ''direct HSK translation requires local model `'' @ HSK_TRANSLATION_MODEL @ lit ''`, but `'' @ m @ lit ''` is loaded'')
     | ReadyProvider \<Rightarrow> Err (lit ''direct HSK translation is local-only; remote providers are disabled'')
     | ModelLoading \<Rightarrow> Err (lit ''direct HSK translation model is still loading'')
     | ModelFailed e \<Rightarrow> Err (lit ''direct HSK translation model failed to load: '' @ e)
     | ModelEmpty \<Rightarrow> Err (lit ''direct HSK translation model `'' @ HSK_TRANSLATION_MODEL @ lit ''` is not loaded''))"

definition guarded_call :: "('w \<Rightarrow> model_state) \<Rightarrow> ('w \<Rightarrow> (rstring + 'a) \<times> 'w) \<Rightarrow> 'w \<Rightarrow> (rstring + 'a) \<times> 'w" where
  "guarded_call state call w = (case require_translator (state w) of Inl e \<Rightarrow> (Inl e, w) | Inr _ \<Rightarrow> call w)"

definition model_generator :: "('w \<Rightarrow> model_state) \<Rightarrow> 'w generator \<Rightarrow> 'w generator" where
  "model_generator state llm = \<lparr>ge_token_count = (\<lambda>t. guarded_call state (ge_token_count llm t)),
     ge_capacity = (\<lambda>s u. guarded_call state (ge_capacity llm s u)),
     ge_generate = (\<lambda>s u options. guarded_call state (ge_generate llm s u options)),
     ge_cancelled = ge_cancelled llm\<rparr>"

section \<open>Bounded context\<close>

fun trim_context :: "'w generator \<Rightarrow> preceding_utterance list \<Rightarrow> ('w, translation_error, preceding_utterance list) action" where
  "trim_context g [] = give []"
| "trim_context g (u # us) = and_then (token_count g (context_budget_text (u # us)))
     (\<lambda>n. if MAX_HSK_CONTEXT_TOKENS < n then trim_context g us else give (u # us))"

definition bounded_context :: "'w generator \<Rightarrow> preceding_utterance list \<Rightarrow> ('w, translation_error, preceding_utterance list) action" where
  "bounded_context g context = trim_context g (drop (length context - MAX_HSK_PRECEDING_UTTERANCES) context)"

function shrink_source_context :: "'w generator \<Rightarrow> rstring list \<Rightarrow> rstring list \<Rightarrow> ('w, translation_error, rstring list \<times> rstring list) action" where
  "shrink_source_context g p f =
     (let shrink = (case evict_farthest_source_context p f of None \<Rightarrow> give (p, f)
                      | Some (p', f') \<Rightarrow> shrink_source_context g p' f')
      in if MAX_HSK_PRECEDING_UTTERANCES < length p + length f then shrink
         else and_then (token_count g (render_source_context_for_budget p f))
                (\<lambda>n. if MAX_HSK_CONTEXT_TOKENS < n then shrink else give (p, f)))"
  by pat_completeness auto
termination
  by (relation "measure (\<lambda>(g, p, f). length p + length f)") (auto dest: evict_source_shrinks)

declare shrink_source_context.simps [simp del]

definition bounded_source_context :: "'w generator \<Rightarrow> rstring list \<Rightarrow> rstring list \<Rightarrow> ('w, translation_error, rstring list \<times> rstring list) action" where
  "bounded_source_context g earlier following = shrink_source_context g
     (filter (\<lambda>s. \<not> blank_text s) (drop (length earlier - MAX_HSK_PRECEDING_UTTERANCES) earlier))
     (take MAX_HSK_PRECEDING_UTTERANCES (filter (\<lambda>s. \<not> blank_text s) following))"

section \<open>Planning a batch\<close>

type_synonym batch_context = "preceding_utterance list \<times> rstring list \<times> rstring list"

text \<open>The inner loop: translated context goes first, oldest first, then the farthest source span.\<close>

function fit_context :: "nat \<Rightarrow> (batch_context \<Rightarrow> ('w, translation_error, nat) action) \<Rightarrow> batch_context \<Rightarrow> ('w, translation_error, batch_context option) action" where
  "fit_context budget capacity (ctx, p, f) =
     and_then (capacity (ctx, p, f)) (\<lambda>n.
       if budget \<le> n then give (Some (ctx, p, f))
       else (case ctx of _ # ctx' \<Rightarrow> fit_context budget capacity (ctx', p, f)
             | [] \<Rightarrow> (case evict_farthest_source_context p f of
                        Some (p', f') \<Rightarrow> fit_context budget capacity ([], p', f')
                      | None \<Rightarrow> give None)))"
  by pat_completeness auto
termination
  by (relation "measure (\<lambda>(b, c, ctx, p, f). length ctx + length p + length f)") (auto dest: evict_source_shrinks)

declare fit_context.simps [simp del]

text \<open>\<open>for count in (1..=remaining.len().min(6)).rev()\<close>: the largest batch that fits.\<close>

fun plan_counts :: "translation_error \<Rightarrow> (nat \<Rightarrow> ('w, translation_error, 'b option) action) \<Rightarrow> nat \<Rightarrow> ('w, translation_error, 'b) action" where
  "plan_counts failure attempt 0 = give_up failure"
| "plan_counts failure attempt (Suc n) = and_then (attempt (Suc n))
     (\<lambda>r. case r of Some plan \<Rightarrow> give plan | None \<Rightarrow> plan_counts failure attempt n)"

definition batch_limit :: "'u list \<Rightarrow> nat" where
  "batch_limit remaining = min (length remaining) MAX_HSK_TRANSLATION_BATCH"

definition starting_context :: "'w generator \<Rightarrow> preceding_utterance list \<Rightarrow> rstring list \<Rightarrow> rstring list \<Rightarrow> ('w, translation_error, batch_context) action" where
  "starting_context g rolling earlier following = and_then (bounded_context g rolling)
     (\<lambda>ctx. and_then (bounded_source_context g earlier following) (\<lambda>(p, f). give (ctx, p, f)))"

definition with_context :: "translation_request \<Rightarrow> source_utterance list \<Rightarrow> batch_context \<Rightarrow> translation_request" where
  "with_context r us c = (case c of (ctx, p, f) \<Rightarrow>
     r\<lparr>tq_utterances := us, tq_preceding_utterances := ctx, tq_preceding_english := p, tq_following_english := f\<rparr>)"

definition request_system_prompt :: "translation_request \<Rightarrow> direct_provenance \<Rightarrow> rstring" where
  "request_system_prompt r provenance =
     primary_system_prompt (tq_requested_level r) (length (tq_utterances r)) (tq_learning_mode r) provenance"

definition attempt_translation :: "'w generator \<Rightarrow> translation_request \<Rightarrow> source_utterance list \<Rightarrow> preceding_utterance list
    \<Rightarrow> direct_provenance \<Rightarrow> nat \<Rightarrow> ('w, translation_error, (translation_request \<times> generate_options) option) action" where
  "attempt_translation g r remaining rolling provenance n =
     (let us = take n remaining; budget = output_token_budget (map su_source_english us) (length us) in
      and_then (starting_context g rolling (tq_preceding_english r) (tq_following_english r)) (\<lambda>start.
      and_then (fit_context budget (\<lambda>c. completion_capacity g (request_system_prompt (with_context r us c) provenance)
           (build_translation_prompt (with_context r us c))) start) (\<lambda>fit.
      give (map_option (\<lambda>c. (with_context r us c, greedy budget)) fit))))"

definition plan_translation_subbatch :: "'w generator \<Rightarrow> translation_request \<Rightarrow> source_utterance list \<Rightarrow> preceding_utterance list
    \<Rightarrow> direct_provenance \<Rightarrow> ('w, translation_error, translation_request \<times> generate_options) action" where
  "plan_translation_subbatch g r remaining rolling provenance =
     plan_counts SpanDoesNotFit (attempt_translation g r remaining rolling provenance) (batch_limit remaining)"

definition faithful_with_context :: "faithful_request \<Rightarrow> faithful_utterance list \<Rightarrow> batch_context \<Rightarrow> faithful_request" where
  "faithful_with_context r us c = (case c of (ctx, p, f) \<Rightarrow>
     r\<lparr>fq_utterances := us, fq_preceding_utterances := ctx, fq_preceding_english := p, fq_following_english := f\<rparr>)"

definition attempt_faithful :: "'w generator \<Rightarrow> faithful_request \<Rightarrow> faithful_utterance list \<Rightarrow> preceding_utterance list
    \<Rightarrow> direct_provenance \<Rightarrow> nat \<Rightarrow> ('w, translation_error, (faithful_request \<times> generate_options) option) action" where
  "attempt_faithful g r remaining rolling provenance n =
     (let us = take n remaining; budget = faithful_output_token_budget (map fu_source_english us) (length us) in
      and_then (starting_context g rolling (fq_preceding_english r) (fq_following_english r)) (\<lambda>start.
      and_then (fit_context budget (\<lambda>c. completion_capacity g (faithful_system_prompt provenance)
           (build_faithful_translation_prompt (faithful_with_context r us c))) start) (\<lambda>fit.
      give (map_option (\<lambda>c. (faithful_with_context r us c,
          (greedy budget)\<lparr>go_grammar := Some (faithful_output_grammar (length us))\<rparr>)) fit))))"

definition plan_faithful_subbatch :: "'w generator \<Rightarrow> faithful_request \<Rightarrow> faithful_utterance list \<Rightarrow> preceding_utterance list
    \<Rightarrow> direct_provenance \<Rightarrow> ('w, translation_error, faithful_request \<times> generate_options) action" where
  "plan_faithful_subbatch g r remaining rolling provenance =
     plan_counts FaithfulSpanDoesNotFit (attempt_faithful g r remaining rolling provenance) (batch_limit remaining)"

definition repair_with_context :: "repair_request \<Rightarrow> repair_utterance list \<Rightarrow> batch_context \<Rightarrow> repair_request" where
  "repair_with_context r us c = (case c of (ctx, p, f) \<Rightarrow>
     r\<lparr>rq_utterances := us, rq_preceding_utterances := ctx, rq_preceding_english := p, rq_following_english := f\<rparr>)"

definition repair_request_system_prompt :: "repair_request \<Rightarrow> direct_provenance \<Rightarrow> rstring" where
  "repair_request_system_prompt r provenance =
     repair_system_prompt (rq_requested_level r) (length (rq_utterances r)) (rq_learning_mode r) provenance"

text \<open>
  The repair planner evicts a span of the source context when a batch does not fit, but then goes on
  with the next smaller count, whose candidate is built anew: the eviction has no effect.
\<close>

definition attempt_repair :: "'w generator \<Rightarrow> repair_request \<Rightarrow> repair_utterance list \<Rightarrow> direct_provenance \<Rightarrow> nat
    \<Rightarrow> ('w, translation_error, (repair_request \<times> generate_options) option) action" where
  "attempt_repair g r remaining provenance n =
     (let us = take n remaining; budget = output_token_budget (map ru_source_english us) (length us) in
      and_then (starting_context g (rq_preceding_utterances r) (rq_preceding_english r) (rq_following_english r)) (\<lambda>start.
      let candidate = repair_with_context r us start in
      and_then (completion_capacity g (repair_request_system_prompt candidate provenance) (build_repair_batch_prompt candidate)) (\<lambda>capacity.
      give (if budget \<le> capacity then Some (candidate, greedy budget) else None))))"

definition plan_repair_subbatch :: "'w generator \<Rightarrow> repair_request \<Rightarrow> repair_utterance list \<Rightarrow> direct_provenance
    \<Rightarrow> ('w, translation_error, repair_request \<times> generate_options) action" where
  "plan_repair_subbatch g r remaining provenance =
     plan_counts RepairSpanDoesNotFit (attempt_repair g r remaining provenance) (batch_limit remaining)"

section \<open>The loops over a request\<close>

text \<open>
  \<open>while !remaining.is_empty()\<close>: a step tells how many spans it consumed. Every step consumes at
  least one, so the length of the request is fuel enough.
\<close>

fun run_batches :: "nat \<Rightarrow> ('u list \<Rightarrow> 's \<Rightarrow> ('w, translation_error, nat \<times> translation_outcome list \<times> 's) action) \<Rightarrow> 'u list \<Rightarrow> 's
    \<Rightarrow> ('w, translation_error, translation_outcome list) action" where
  "run_batches fuel step [] s = give []"
| "run_batches 0 step (u # us) s = give_up OutOfFuel"
| "run_batches (Suc fuel) step (u # us) s = and_then (step (u # us) s) (\<lambda>(n, items, s').
     and_then (run_batches fuel step (drop n (u # us)) s') (\<lambda>rest. give (items @ rest)))"

definition push_accepted :: "('u \<Rightarrow> rstring) \<Rightarrow> ('u \<Rightarrow> rstring) \<Rightarrow> 'u list \<Rightarrow> translation_outcome \<Rightarrow> preceding_utterance list \<Rightarrow> preceding_utterance list" where
  "push_accepted id_of source_of us x rolling =
     (if \<not> outcome_valid x then rolling
      else (case find (\<lambda>u. id_of u = to_id x) us of None \<Rightarrow> rolling
            | Some u \<Rightarrow> rolling @ [\<lparr>hp_source_english = source_of u, hp_chinese = the (to_text x)\<rparr>]))"

definition rolled_context :: "('u \<Rightarrow> rstring) \<Rightarrow> ('u \<Rightarrow> rstring) \<Rightarrow> 'u list \<Rightarrow> translation_outcome list \<Rightarrow> preceding_utterance list \<Rightarrow> preceding_utterance list" where
  "rolled_context id_of source_of us items rolling =
     (let all = fold (push_accepted id_of source_of us) items rolling
      in drop (length all - MAX_HSK_PRECEDING_UTTERANCES) all)"

definition expected_sources :: "source_utterance list \<Rightarrow> expected_utterance list" where
  "expected_sources us = map (\<lambda>u. \<lparr>ex_id = su_id u, ex_source_english = su_source_english u\<rparr>) us"

definition translate_prepared_request_streaming :: "'w generator \<Rightarrow> translation_request \<Rightarrow> generate_options \<Rightarrow> direct_provenance
    \<Rightarrow> (translation_outcome \<Rightarrow> 'w \<Rightarrow> (rstring + unit) \<times> 'w) \<Rightarrow> ('w, translation_error, translation_outcome list) action" where
  "translate_prepared_request_streaming g r options provenance on_item =
     and_then (generate_streaming g (request_system_prompt r provenance) (build_translation_prompt r) options) (\<lambda>raw.
     and_then (check_cancelled g) (\<lambda>_.
     let items = with_termination (gn_termination raw) (parse_numbered_output (gn_text raw) (expected_sources (tq_utterances r))) in
     and_then (for_each (\<lambda>x. relabelled CallbackFailed (on_item x)) (filter outcome_valid items)) (\<lambda>_. give items)))"

definition translation_step :: "'w generator \<Rightarrow> translation_request \<Rightarrow> direct_provenance \<Rightarrow> (translation_outcome \<Rightarrow> 'w \<Rightarrow> (rstring + unit) \<times> 'w)
    \<Rightarrow> source_utterance list \<Rightarrow> preceding_utterance list \<Rightarrow> ('w, translation_error, nat \<times> translation_outcome list \<times> preceding_utterance list) action" where
  "translation_step g r provenance on_item remaining rolling =
     and_then (check_cancelled g) (\<lambda>_.
     and_then (plan_translation_subbatch g r remaining rolling provenance) (\<lambda>(batch, options).
     and_then (translate_prepared_request_streaming g batch options provenance on_item) (\<lambda>items.
     give (length (tq_utterances batch), items,
       rolled_context su_id su_source_english (tq_utterances batch) items rolling))))"

definition translate_with_streaming_source :: "'w generator \<Rightarrow> translation_request \<Rightarrow> direct_provenance
    \<Rightarrow> (translation_outcome \<Rightarrow> 'w \<Rightarrow> (rstring + unit) \<times> 'w) \<Rightarrow> ('w, translation_error, translation_outcome list) action" where
  "translate_with_streaming_source g r provenance on_item =
     and_then (check_cancelled g) (\<lambda>_. and_then (checked (validate_translation_request r)) (\<lambda>_.
     run_batches (length (tq_utterances r)) (translation_step g r provenance on_item) (tq_utterances r) (tq_preceding_utterances r)))"

definition translate_with_source :: "'w generator \<Rightarrow> translation_request \<Rightarrow> direct_provenance \<Rightarrow> ('w, translation_error, translation_outcome list) action" where
  "translate_with_source g r provenance = translate_with_streaming_source g r provenance (\<lambda>_ w. (Ok (), w))"

definition expected_faithful :: "faithful_utterance list \<Rightarrow> expected_utterance list" where
  "expected_faithful us = map (\<lambda>u. \<lparr>ex_id = fu_id u, ex_source_english = fu_source_english u\<rparr>) us"

definition faithful_step :: "translation_env \<Rightarrow> 'w generator \<Rightarrow> faithful_request \<Rightarrow> direct_provenance
    \<Rightarrow> faithful_utterance list \<Rightarrow> preceding_utterance list \<Rightarrow> ('w, translation_error, nat \<times> translation_outcome list \<times> preceding_utterance list) action" where
  "faithful_step env g r provenance remaining rolling =
     and_then (check_cancelled g) (\<lambda>_.
     and_then (plan_faithful_subbatch g r remaining rolling provenance) (\<lambda>(batch, options).
     and_then (generate_streaming g (faithful_system_prompt provenance) (build_faithful_translation_prompt batch) options) (\<lambda>raw.
     and_then (check_cancelled g) (\<lambda>_.
     let items = with_termination (gn_termination raw) (parse_faithful_output env (gn_text raw) (expected_faithful (fq_utterances batch)))
     in give (length (fq_utterances batch), items,
       rolled_context fu_id fu_source_english (fq_utterances batch) items rolling)))))"

definition translate_faithfully_with_source :: "translation_env \<Rightarrow> 'w generator \<Rightarrow> faithful_request \<Rightarrow> direct_provenance
    \<Rightarrow> ('w, translation_error, translation_outcome list) action" where
  "translate_faithfully_with_source env g r provenance =
     and_then (check_cancelled g) (\<lambda>_. and_then (checked (validate_faithful_request r)) (\<lambda>_.
     run_batches (length (fq_utterances r)) (faithful_step env g r provenance) (fq_utterances r) (fq_preceding_utterances r)))"

definition expected_repairs :: "repair_utterance list \<Rightarrow> expected_utterance list" where
  "expected_repairs us = map (\<lambda>u. \<lparr>ex_id = ru_id u, ex_source_english = ru_source_english u\<rparr>) us"

definition repair_prepared_batch :: "'w generator \<Rightarrow> repair_request \<Rightarrow> generate_options \<Rightarrow> direct_provenance \<Rightarrow> ('w, translation_error, translation_outcome list) action" where
  "repair_prepared_batch g r options provenance =
     and_then (generate_streaming g (repair_request_system_prompt r provenance) (build_repair_batch_prompt r) options) (\<lambda>raw.
     and_then (check_cancelled g) (\<lambda>_.
     give (with_termination (gn_termination raw) (parse_repair_batch_output (gn_text raw) (expected_repairs (rq_utterances r))))))"

definition repair_step :: "'w generator \<Rightarrow> repair_request \<Rightarrow> direct_provenance \<Rightarrow> repair_utterance list \<Rightarrow> unit
    \<Rightarrow> ('w, translation_error, nat \<times> translation_outcome list \<times> unit) action" where
  "repair_step g r provenance remaining _ =
     and_then (check_cancelled g) (\<lambda>_.
     and_then (plan_repair_subbatch g r remaining provenance) (\<lambda>(batch, options).
     and_then (repair_prepared_batch g batch options provenance) (\<lambda>items.
     give (length (rq_utterances batch), items, ()))))"

definition repair_batch_with_source :: "'w generator \<Rightarrow> repair_request \<Rightarrow> direct_provenance \<Rightarrow> ('w, translation_error, translation_outcome list) action" where
  "repair_batch_with_source g r provenance =
     and_then (check_cancelled g) (\<lambda>_. and_then (checked (validate_repair_request r)) (\<lambda>_.
     run_batches (length (rq_utterances r)) (repair_step g r provenance) (rq_utterances r) ()))"

text \<open>\<open>warm_up\<close>: the answer is thrown away.\<close>

definition warm_up :: "'w generator \<Rightarrow> ('w, translation_error, unit) action" where
  "warm_up g = and_then (generate_streaming g (lit ''Return one short Chinese token. Do not explain.'')
     (lit ''Warm up the resident translation model.'') (greedy 4)) (\<lambda>_. give ())"

end
