(* ===== verification/Quantities_Props.thy ===== *)
theory Quantities_Props
  imports Quantities
begin

text \<open>
  The canonical form of a numeral is a normal form: it reads back as itself, and two numerals have
  the same form exactly when they have the same value. The reading of Chinese integers is checked
  against a printer of the same integers.
\<close>

section \<open>Digits\<close>

lemma ascii_digit_value: "is_ascii_digit c \<Longrightarrow> digit_value c = Some (c - 48)"
  by (simp add: digit_value_def)

lemma digit_value_less: "digit_value c = Some d \<Longrightarrow> d < 10"
  by (auto simp: digit_value_def chinese_digits_def is_ascii_digit_def split: if_splits)

lemma digits_loop_eq:
  "list_all is_ascii_digit ds \<Longrightarrow> foldl (\<lambda>n c. n * 10 + (c - 48)) v ds \<le> U64_MAX
     \<Longrightarrow> digits_loop ds v = Some (foldl (\<lambda>n c. n * 10 + (c - 48)) v ds)"
proof (induction ds arbitrary: v)
  case (Cons c ds)
  have mono: "w \<le> foldl (\<lambda>n c. n * 10 + (c - 48)) w ds" for w :: nat
  proof (induction ds arbitrary: w)
    case (Cons a ds)
    show ?case using Cons [of "w * 10 + (a - 48)"] by simp
  qed simp
  have "v * 10 + (c - 48) \<le> U64_MAX" using mono [of "v * 10 + (c - 48)"] Cons.prems(2) by simp
  with Cons show ?case by (simp add: checked_u64_def ascii_digit_value)
qed simp

lemma digits_loop_Some: "digits_loop ds v = Some n \<Longrightarrow> v \<le> U64_MAX \<Longrightarrow> n \<le> U64_MAX"
proof (induction ds arbitrary: v)
  case (Cons c ds)
  then obtain d where "v * 10 + d \<le> U64_MAX" "digits_loop ds (v * 10 + d) = Some n"
    by (auto simp: checked_u64_def split: if_splits bind_splits)
  then show ?case using Cons.IH by blast
qed simp

lemma show_nat_digits: "list_all is_ascii_digit (lit (show_nat n))"
  using show_digits_range [of _ 20 n] by (auto simp: list_all_iff is_ascii_digit_def show_nat_def)

lemma show_nat_value: "n \<le> U64_MAX \<Longrightarrow> value_of (lit (show_nat n)) = n"
  using value_of_show [of n 20] by (simp add: show_nat_def U64_MAX_def)

lemma show_nat_nonempty: "lit (show_nat n) \<noteq> []"
proof -
  have "show_digits (Suc fuel) n \<noteq> []" for fuel by simp
  from this [of 19] show ?thesis by (simp add: show_nat_def del: show_digits.simps)
qed

lemma integer_value_show: "n \<le> U64_MAX \<Longrightarrow> integer_value (lit (show_nat n)) = Some n"
  using digits_loop_eq [OF show_nat_digits, of 0 n] show_nat_value [of n] show_nat_digits [of n]
  by (auto simp: integer_value_def value_of_def list_all_iff ascii_digit_value)

lemma integer_value_le: "integer_value s = Some n \<Longrightarrow> n \<le> U64_MAX"
  using digits_loop_Some [of s 0 n] by (auto simp: integer_value_def checked_u64_def split: if_splits bind_splits)

section \<open>The normal form\<close>

text \<open>A canonical text: a sign unless the value is zero, an integer, and decimals without a final zero.\<close>

definition printed :: "bool \<Rightarrow> nat \<Rightarrow> rstring \<Rightarrow> rstring" where
  "printed negative n ds = (if negative \<and> (n \<noteq> 0 \<or> ds \<noteq> []) then [45] else []) @ lit (show_nat n)
     @ (if ds = [] then [] else 46 # ds)"

definition decimals_ok :: "rstring \<Rightarrow> bool" where
  "decimals_ok ds \<longleftrightarrow> list_all is_ascii_digit ds \<and> (ds \<noteq> [] \<longrightarrow> last ds \<noteq> 48)"

lemma trim_zeros_last: "trim_zeros ds = [] \<or> last (trim_zeros ds) \<noteq> 48"
proof (cases "rev (trim_zeros ds)")
  case (Cons c cs)
  then have "c \<noteq> 48" using hd_dropWhile [of "\<lambda>c. c = 48" "rev ds"] by (simp add: trim_zeros_def)
  then show ?thesis using Cons by (metis hd_rev list.sel(1))
qed simp

lemma trim_zeros_subset: "set (trim_zeros ds) \<subseteq> set ds"
  using set_dropWhileD [of _ _ "rev ds"] by (auto simp: trim_zeros_def)

lemma trim_zeros_id: "ds \<noteq> [] \<Longrightarrow> last ds \<noteq> 48 \<Longrightarrow> trim_zeros ds = ds"
  by (cases ds rule: rev_cases) (simp_all add: trim_zeros_def)

lemma decimal_digits_ok: "decimal_digits parts = Some ds \<Longrightarrow> list_all is_ascii_digit ds"
proof -
  have "digit_value c \<noteq> None \<Longrightarrow> is_ascii_digit (48 + the (digit_value c))" for c
    using digit_value_less [of c "the (digit_value c)"] by (auto simp: is_ascii_digit_def)
  then show "decimal_digits parts = Some ds \<Longrightarrow> list_all is_ascii_digit ds"
    by (auto simp: decimal_digits_def list_all_iff split: list.splits if_splits)
qed

text \<open>The parts of a numeral: its sign, its integer and its decimals as written.\<close>

definition numeral_parts :: "rstring \<Rightarrow> (bool \<times> nat \<times> rstring) option" where
  "numeral_parts value =
     (let parts = str_split (\<lambda>c. c = 46 \<or> c = point_char) (dropWhile (\<lambda>c. c \<in> set sign_chars) value)
      in Option.bind (integer_value (hd parts)) (\<lambda>n. Option.bind (decimal_digits (tl parts)) (\<lambda>ds.
         Some ((case value of [] \<Rightarrow> False | c # _ \<Rightarrow> c \<in> set negative_chars), n, ds))))"

lemma canonical_eq:
  "canonical value = (case numeral_parts value of None \<Rightarrow> None | Some (negative, n, ds) \<Rightarrow> Some (printed negative n (trim_zeros ds)))"
  by (simp add: canonical_def numeral_parts_def printed_def Let_def split: bind_splits)

lemma numeral_parts_ok:
  assumes "numeral_parts value = Some (negative, n, ds)"
  shows "n \<le> U64_MAX" "list_all is_ascii_digit ds" "decimals_ok (trim_zeros ds)"
proof -
  show "n \<le> U64_MAX" "list_all is_ascii_digit ds"
    using assms by (auto simp: numeral_parts_def Let_def dest: integer_value_le decimal_digits_ok split: bind_splits)
  then show "decimals_ok (trim_zeros ds)"
    using trim_zeros_last [of ds] trim_zeros_subset [of ds] by (auto simp: decimals_ok_def list_all_iff)
qed

lemma numeral_parts_printed:
  assumes "n \<le> U64_MAX" "decimals_ok ds"
  shows "numeral_parts (printed negative n ds) = Some (negative \<and> (n \<noteq> 0 \<or> ds \<noteq> []), n, ds)"
proof -
  let ?s = "lit (show_nat n)"
  have digit: "is_ascii_digit c \<Longrightarrow> c \<notin> set sign_chars \<and> c \<notin> set negative_chars \<and> c \<noteq> 46 \<and> c \<noteq> point_char" for c
    by (auto simp: is_ascii_digit_def sign_chars_def negative_chars_def point_char_def)
  obtain c cs where s: "?s = c # cs" using show_nat_nonempty [of n] by (meson neq_Nil_conv)
  have c: "is_ascii_digit c" using show_nat_digits [of n] unfolding s by simp
  have drop: "dropWhile (\<lambda>c. c \<in> set sign_chars) (printed negative n ds) = ?s @ (if ds = [] then [] else 46 # ds)"
    using digit [OF c] by (simp add: printed_def s sign_chars_def)
  have nosep: "list_all (\<lambda>c. \<not> (c = 46 \<or> c = point_char)) ?s" "list_all (\<lambda>c. \<not> (c = 46 \<or> c = point_char)) ds"
    using show_nat_digits [of n] assms(2) digit by (auto simp: list_all_iff decimals_ok_def)
  have split: "str_split (\<lambda>c. c = 46 \<or> c = point_char) (?s @ (if ds = [] then [] else 46 # ds)) = (if ds = [] then [?s] else [?s, ds])"
    using str_split_no_sep [OF nosep(1)] str_split_sep [OF nosep(1), of 46 ds] str_split_no_sep [OF nosep(2)] by simp
  have "map (\<lambda>c. 48 + the (digit_value c)) ds = ds"
    using assms(2) by (intro map_idI) (auto simp: decimals_ok_def list_all_iff ascii_digit_value is_ascii_digit_def)
  then have dec: "decimal_digits (if ds = [] then [] else [ds]) = Some ds"
    using assms(2) by (auto simp: decimal_digits_def decimals_ok_def list_all_iff ascii_digit_value)
  have neg: "(case printed negative n ds of [] \<Rightarrow> False | c # _ \<Rightarrow> c \<in> set negative_chars) \<longleftrightarrow> negative \<and> (n \<noteq> 0 \<or> ds \<noteq> [])"
    using digit [OF c] by (auto simp: printed_def s negative_chars_def)
  show ?thesis
    unfolding numeral_parts_def drop split Let_def neg
    using dec integer_value_show [OF assms(1)] by auto
qed

lemma canonical_normal: "canonical value = Some t \<Longrightarrow> canonical t = Some t"
proof -
  assume "canonical value = Some t"
  then obtain negative n ds where parts: "numeral_parts value = Some (negative, n, ds)" and t: "t = printed negative n (trim_zeros ds)"
    by (auto simp: canonical_eq split: option.splits)
  have "decimals_ok (trim_zeros ds)" by (rule numeral_parts_ok(3) [OF parts])
  then have "trim_zeros (trim_zeros ds) = trim_zeros ds"
    using trim_zeros_id [of "trim_zeros ds"] by (cases "trim_zeros ds = []") (simp_all add: decimals_ok_def trim_zeros_def)
  then show ?thesis
    unfolding t canonical_eq using numeral_parts_printed [OF numeral_parts_ok(1,3) [OF parts], of negative]
    by (simp add: printed_def)
qed

section \<open>Equal forms, equal values\<close>

lemma value_of_snoc: "value_of (ds @ [c]) = value_of ds * 10 + (c - 48)"
  by (simp add: value_of_def)

lemma value_of_zeros: "value_of (ds @ replicate k 48) = value_of ds * 10 ^ k"
proof (induction k)
  case (Suc k)
  have "replicate (Suc k) (48 :: nat) = replicate k 48 @ [48]" by (simp add: replicate_append_same)
  then show ?case using Suc value_of_snoc [of "ds @ replicate k 48" 48] by simp
qed simp

lemma value_of_less: "list_all is_ascii_digit ds \<Longrightarrow> value_of ds < 10 ^ length ds"
proof (induction ds rule: rev_induct)
  case Nil
  then show ?case by (simp add: value_of_def)
next
  case (snoc c ds)
  then have "value_of ds < 10 ^ length ds" "c - 48 < 10" by (auto simp: is_ascii_digit_def)
  then show ?case by (simp add: value_of_snoc)
qed

lemma value_of_inj:
  "list_all is_ascii_digit ds \<Longrightarrow> list_all is_ascii_digit es \<Longrightarrow> length ds = length es \<Longrightarrow> value_of ds = value_of es \<Longrightarrow> ds = es"
proof (induction ds arbitrary: es rule: rev_induct)
  case (snoc c ds)
  then obtain d es' where es: "es = es' @ [d]" by (metis append_is_Nil_conv length_0_conv rev_exhaust)
  obtain x y where c: "c = 48 + x" "x < 10" and d: "d = 48 + y" "y < 10"
    using snoc.prems le_Suc_ex [of 48 c] le_Suc_ex [of 48 d] by (auto simp: es is_ascii_digit_def)
  have eq: "value_of ds * 10 + x = value_of es' * 10 + y"
    using snoc.prems(4) by (simp add: es value_of_snoc c d)
  have "value_of ds = value_of es'" using arg_cong [OF eq, of "\<lambda>x. x div 10"] c d by simp
  moreover have "c = d" using eq calculation c d by simp
  ultimately have "value_of ds = value_of es'" "c = d" by simp_all
  then show ?case using snoc by (simp add: es)
qed simp

text \<open>The value of a numeral in units of its last decimal.\<close>

definition scaled_value :: "nat \<Rightarrow> rstring \<Rightarrow> nat" where
  "scaled_value n ds = n * 10 ^ length ds + value_of ds"

text \<open>Two numerals are equal as numbers: a zero has no sign.\<close>

definition same_value :: "bool \<times> nat \<times> rstring \<Rightarrow> bool \<times> nat \<times> rstring \<Rightarrow> bool" where
  "same_value x y = (case (x, y) of ((a, n, ds), (b, m, es)) \<Rightarrow>
     scaled_value n ds * 10 ^ length es = scaled_value m es * 10 ^ length ds \<and> (a = b \<or> scaled_value n ds = 0))"

lemma trim_zeros_append: "\<exists>k. ds = trim_zeros ds @ replicate k 48"
proof -
  have "rev ds = takeWhile (\<lambda>c. c = 48) (rev ds) @ dropWhile (\<lambda>c. c = 48) (rev ds)" by simp
  moreover have "takeWhile (\<lambda>c. c = 48) (rev ds) = replicate (length (takeWhile (\<lambda>c. c = 48) (rev ds))) 48"
    by (rule replicate_eqI) (auto dest: set_takeWhileD)
  ultimately have "rev ds = replicate (length (takeWhile (\<lambda>c. c = 48) (rev ds))) 48 @ rev (trim_zeros ds)"
    unfolding trim_zeros_def rev_rev_ident by (rule trans [OF _ arg_cong [where f = "\<lambda>x. x @ _"]])
  from arg_cong [OF this, of rev] show ?thesis by auto
qed

lemma scaled_trim: "scaled_value n ds * 10 ^ length (trim_zeros ds) = scaled_value n (trim_zeros ds) * 10 ^ length ds"
proof -
  obtain k where ds: "ds = trim_zeros ds @ replicate k 48" using trim_zeros_append by blast
  have "length ds = length (trim_zeros ds) + k" using arg_cong [OF ds, of length] by (simp only: length_append length_replicate)
  moreover have "value_of ds = value_of (trim_zeros ds) * 10 ^ k"
    using arg_cong [OF ds, of value_of] by (simp only: value_of_zeros)
  ultimately show ?thesis by (simp add: scaled_value_def power_add algebra_simps)
qed

lemma scaled_value_zero: "list_all is_ascii_digit ds \<Longrightarrow> scaled_value n ds = 0 \<longleftrightarrow> n = 0 \<and> trim_zeros ds = []"
proof -
  assume ds: "list_all is_ascii_digit ds"
  obtain k where k: "ds = trim_zeros ds @ replicate k 48" using trim_zeros_append by blast
  have "trim_zeros ds = []" if "value_of ds = 0"
  proof -
    have all: "ds = replicate (length ds) 48"
      using value_of_inj [OF ds, of "replicate (length ds) 48"] that value_of_zeros [of "[]" "length ds"]
      by (simp add: list_all_iff is_ascii_digit_def value_of_def)
    then have "c = 48" if "c \<in> set ds" for c using that all by (metis in_set_replicate)
    then show ?thesis by (simp add: trim_zeros_def)
  qed
  moreover have "value_of ds = 0" if "trim_zeros ds = []"
    using value_of_zeros [of "[]" k] k that by (simp add: value_of_def)
  ultimately have "value_of ds = 0 \<longleftrightarrow> trim_zeros ds = []" by blast
  then show ?thesis by (simp add: scaled_value_def)
qed

lemma decimals_unique:
  assumes "decimals_ok ds" "decimals_ok es" "scaled_value n ds * 10 ^ length es = scaled_value m es * 10 ^ length ds"
    and "length ds \<le> length es"
  shows "n = m \<and> ds = es"
proof -
  let ?p = "10 ^ length ds :: nat" and ?q = "10 ^ length es :: nat"
  have less: "value_of ds < ?p" "value_of es < ?q" using assms(1,2) by (auto simp: decimals_ok_def intro: value_of_less)
  have eq: "n * (?p * ?q) + value_of ds * ?q = m * (?p * ?q) + value_of es * ?p"
    using assms(3) by (simp add: scaled_value_def algebra_simps)
  have "value_of ds * ?q < ?p * ?q" "value_of es * ?p < ?p * ?q" using less by simp_all
  then have nm: "n = m" using arg_cong [OF eq, of "\<lambda>x. x div (?p * ?q)"] by (simp add: div_mult_self3)
  then have "value_of ds * ?q = value_of es * ?p" using eq by simp
  moreover have "?q = 10 ^ (length es - length ds) * ?p" using assms(4) by (simp flip: power_add)
  ultimately have "value_of es = value_of ds * 10 ^ (length es - length ds)" by simp
  then have "value_of es = value_of (ds @ replicate (length es - length ds) 48)" by (simp add: value_of_zeros)
  moreover have "list_all is_ascii_digit (ds @ replicate (length es - length ds) 48)" "list_all is_ascii_digit es"
    using assms(1,2) by (auto simp: decimals_ok_def list_all_iff is_ascii_digit_def)
  ultimately have es: "es = ds @ replicate (length es - length ds) 48"
    using assms(4) by (intro value_of_inj) simp_all
  have "length es - length ds = 0"
  proof (rule ccontr)
    assume pos: "length es - length ds \<noteq> 0"
    then have "es \<noteq> []" "last es = 48" by (auto, metis es last_append last_replicate replicate_empty)
    then show False using assms(2) by (simp add: decimals_ok_def)
  qed
  then show ?thesis using es nm by simp
qed

lemma printed_eq_iff:
  assumes "n \<le> U64_MAX" "decimals_ok ds" "m \<le> U64_MAX" "decimals_ok es"
  shows "printed a n ds = printed b m es \<longleftrightarrow> n = m \<and> ds = es \<and> (a = b \<or> n = 0 \<and> ds = [])"
proof
  assume eq: "printed a n ds = printed b m es"
  have "Some (a \<and> (n \<noteq> 0 \<or> ds \<noteq> []), n, ds) = Some (b \<and> (m \<noteq> 0 \<or> es \<noteq> []), m, es)"
    using numeral_parts_printed [OF assms(1,2), of a] numeral_parts_printed [OF assms(3,4), of b] unfolding eq by (metis (no_types))
  then show "n = m \<and> ds = es \<and> (a = b \<or> n = 0 \<and> ds = [])" by auto
qed (auto simp: printed_def)

lemma canonical_eq_iff:
  assumes "numeral_parts s = Some (a, n, ds)" "numeral_parts t = Some (b, m, es)"
  shows "canonical s = canonical t \<longleftrightarrow> same_value (a, n, ds) (b, m, es)"
proof -
  note x = numeral_parts_ok [OF assms(1)] and y = numeral_parts_ok [OF assms(2)]
  have "canonical s = canonical t \<longleftrightarrow> printed a n (trim_zeros ds) = printed b m (trim_zeros es)"
    by (simp add: canonical_eq assms)
  also have "\<dots> \<longleftrightarrow> n = m \<and> trim_zeros ds = trim_zeros es \<and> (a = b \<or> n = 0 \<and> trim_zeros ds = [])"
    by (rule printed_eq_iff [OF x(1,3) y(1,3)])
  also have "\<dots> \<longleftrightarrow> same_value (a, n, ds) (b, m, es)"
  proof -
    have up: "scaled_value n ds * 10 ^ length es = scaled_value m es * 10 ^ length ds
        \<longleftrightarrow> scaled_value n (trim_zeros ds) * 10 ^ length (trim_zeros es) = scaled_value m (trim_zeros es) * 10 ^ length (trim_zeros ds)"
      (is "?l \<longleftrightarrow> ?r")
    proof -
      let ?k = "10 ^ (length (trim_zeros ds) + length (trim_zeros es)) :: nat" and ?j = "10 ^ (length ds + length es) :: nat"
      have "?l \<longleftrightarrow> scaled_value n ds * 10 ^ length es * ?k = scaled_value m es * 10 ^ length ds * ?k" by simp
      also have "scaled_value n ds * 10 ^ length es * ?k = scaled_value n (trim_zeros ds) * 10 ^ length (trim_zeros es) * ?j"
        using scaled_trim [of n ds] by (simp add: power_add)
      also have "scaled_value m es * 10 ^ length ds * ?k = scaled_value m (trim_zeros es) * 10 ^ length (trim_zeros ds) * ?j"
        using scaled_trim [of m es] by (simp add: power_add)
      finally show ?thesis by simp
    qed
    have "?thesis" if "length (trim_zeros ds) \<le> length (trim_zeros es)"
      using decimals_unique [OF x(3) y(3) _ that, of n m] up scaled_value_zero [OF x(2), of n]
      by (auto simp: same_value_def)
    moreover have "?thesis" if "length (trim_zeros es) \<le> length (trim_zeros ds)"
      using decimals_unique [OF y(3) x(3) _ that, of m n] up scaled_value_zero [OF x(2), of n]
      by (auto simp: same_value_def)
    ultimately show ?thesis using linear [of "length (trim_zeros ds)" "length (trim_zeros es)"] by blast
  qed
  finally show ?thesis .
qed

section \<open>Chinese integers\<close>

lemma less_10_cases: "a < 10 \<Longrightarrow> a = 0 \<or> a = 1 \<or> a = 2 \<or> a = 3 \<or> a = 4 \<or> a = 5 \<or> a = 6 \<or> a = 7 \<or> a = 8 \<or> a = (9 :: nat)"
  by presburger

lemma chinese_digit:
  assumes "a < 10"
  shows "digit_value (chinese_digit_chars ! a) = Some a" "chinese_digit_chars ! a \<notin> set sign_chars"
    "chinese_digit_chars ! a \<notin> set negative_chars" "chinese_digit_chars ! a \<noteq> point_char" "chinese_digit_chars ! a \<noteq> 46"
  using less_10_cases [OF assms]
  by (auto simp: chinese_digit_chars_def digit_value_def is_ascii_digit_def chinese_digits_def sign_chars_def
      negative_chars_def point_char_def)

lemma chinese_units:
  "digit_value 21315 = None" "digit_value 30334 = None" "digit_value 21313 = None"
  "unit_value 21315 = Some 1000" "unit_value 30334 = Some 100" "unit_value 21313 = Some 10"
  by (simp_all add: digit_value_def is_ascii_digit_def chinese_digits_def unit_value_def)

lemma digit_split: "d < 10 \<Longrightarrow> v = 10 * y + d \<Longrightarrow> v div 10 = y \<and> v mod 10 = (d :: nat)"
  by simp

lemma chinese_integer_value:
  assumes "a < 10" "b < 10" "c < 10" "d < 10" "x = 10 * a + b" "y = 10 * x + c" "v = 10 * y + d"
  shows "integer_value (chinese_integer v) = Some v"
proof -
  note q = digit_split [OF assms(2,5)] digit_split [OF assms(3,6)] digit_split [OF assms(4,7)]
  have h: "v div 100 = x" "v mod 100 = 10 * c + d"
    using div_mult2_eq [of v 10 10] mod_mult2_eq [of v 10 10] by (simp_all add: q)
  have k: "v div 1000 = a" "v mod 1000 = 100 * b + (10 * c + d)"
    using div_mult2_eq [of v 100 10] mod_mult2_eq [of v 100 10] by (simp_all add: h q)
  have parts: "a mod 10 = a" using assms(1) by simp
  have zero: "v = 0 \<longleftrightarrow> a = 0 \<and> b = 0 \<and> c = 0 \<and> d = 0" using assms by auto
  have v: "v = 1000 * a + 100 * b + 10 * c + d" using assms(5-7) by simp
  note dg = chinese_digit(1) [OF assms(1)] chinese_digit(1) [OF assms(2)] chinese_digit(1) [OF assms(3)] chinese_digit(1) [OF assms(4)]
    chinese_digit(1) [of 0, simplified] chinese_digit(1) [of "Suc 0", simplified]
  show ?thesis
    by (cases "a = 0"; cases "b = 0"; cases "c = 0"; cases "d = 0"; cases "c = 1";
      simp add: chinese_integer_def parts k h q zero dg chinese_units integer_value_def numeral_start_def
        take_digit_def take_unit_def or_else_def checked_u64_def U64_MAX_def;
      use assms(1-4) v in simp)
qed

lemma chinese_loop_chars:
  "set (chinese_loop es v zero rendered) \<subseteq> set rendered \<union> (\<Union>e \<in> set es. set (snd e)) \<union> (\<lambda>a. chinese_digit_chars ! a) ` {..< 10}"
proof (induction es arbitrary: zero rendered)
  case (Cons e es)
  obtain divisor unit where e: "e = (divisor, unit)" by fastforce
  let ?digit = "v div divisor mod 10" and ?D = "(\<lambda>a. chinese_digit_chars ! a) ` {..< 10}"
  show ?case
  proof (cases "?digit = 0")
    case True
    then show ?thesis using Cons.IH [of "zero \<or> rendered \<noteq> [] \<and> v mod divisor \<noteq> 0" rendered] by (auto simp: e)
  next
    case False
    let ?r = "rendered @ (if zero then [chinese_digit_chars ! 0] else [])"
    let ?s = "?r @ (if ?digit = 1 \<and> divisor = 10 \<and> ?r = [] then [] else [chinese_digit_chars ! ?digit]) @ unit"
    have "set ?s \<subseteq> set rendered \<union> set unit \<union> ?D" by auto
    moreover have "chinese_loop (e # es) v zero rendered = chinese_loop es v False ?s" using False by (simp add: e Let_def)
    ultimately show ?thesis using Cons.IH [of False ?s] unfolding e by (simp only: list.set UN_insert snd_conv) blast
  qed
qed simp

lemma chinese_integer_chars:
  assumes "c \<in> set (chinese_integer v)"
  shows "c \<notin> set sign_chars" "c \<notin> set negative_chars" "\<not> (c = 46 \<or> c = point_char)"
proof -
  have "c \<in> {21315, 30334, 21313} \<union> (\<lambda>a. chinese_digit_chars ! a) ` {..< 10}"
    using assms chinese_loop_chars [of "[(1000, [21315]), (100, [30334]), (10, [21313]), (1, [])]" v False "[]"]
    by (auto simp: chinese_integer_def split: if_splits)
  then show "c \<notin> set sign_chars" "c \<notin> set negative_chars" "\<not> (c = 46 \<or> c = point_char)"
    using chinese_digit by (auto simp: sign_chars_def negative_chars_def point_char_def)
qed

text \<open>Claim C23: the Chinese numeral of every integer below ten thousand is read as the integer it stands
  for, and comes out in its decimal form.\<close>

theorem chinese_numeral_reads_back:
  assumes "v < 10000"
  shows "canonical (chinese_integer v) = Some (lit (show_nat v))"
proof -
  have steps: "v div 100 = 10 * (v div 1000) + v div 100 mod 10" "v div 10 = 10 * (v div 100) + v div 10 mod 10"
    using div_mult2_eq [of v 100 10] div_mult2_eq [of v 10 10] by simp_all
  have reads: "integer_value (chinese_integer v) = Some v"
    using assms steps by (intro chinese_integer_value [of "v div 1000" "v div 100 mod 10" "v div 10 mod 10" "v mod 10" "v div 100" "v div 10"])
      simp_all
  have "dropWhile (\<lambda>c. c \<in> set sign_chars) (chinese_integer v) = chinese_integer v"
    using chinese_integer_chars(1) [of "hd (chinese_integer v)" v] by (cases "chinese_integer v") auto
  moreover have "str_split (\<lambda>c. c = 46 \<or> c = point_char) (chinese_integer v) = [chinese_integer v]"
    using chinese_integer_chars(3) by (intro str_split_no_sep) (simp add: list_all_iff)
  moreover have "\<not> (case chinese_integer v of [] \<Rightarrow> False | c # _ \<Rightarrow> c \<in> set negative_chars)"
    using chinese_integer_chars(2) [of "hd (chinese_integer v)" v] by (cases "chinese_integer v") auto
  ultimately show ?thesis by (simp add: canonical_def reads decimal_digits_def trim_zeros_def)
qed

theorem chinese_numeral_reads_back_witness:
  "canonical [20108, 21315, 38646, 20845] = Some (lit ''2006'')"
proof -
  have "chinese_integer 2006 = [20108, 21315, 38646, 20845]" "lit (show_nat 2006) = lit ''2006''" by code_simp+
  then show ?thesis using chinese_numeral_reads_back [of 2006] by simp
qed

text \<open>The canonical form is a normal form of decimal numbers. It reads back as itself, and two
  numerals, in whatever script, have the same form exactly when they stand for the same number:
  trailing zeros, leading zeros and the sign of a zero make no difference.\<close>

theorem canonical_is_normal_form:
  assumes "numeral_parts s = Some (a, n, ds)" "numeral_parts t = Some (b, m, es)"
  shows "(canonical s = canonical t \<longleftrightarrow> same_value (a, n, ds) (b, m, es))
    \<and> Option.bind (canonical s) canonical = canonical s"
  using canonical_eq_iff [OF assms] canonical_normal [of s] assms(1) by (simp add: canonical_eq)

theorem canonical_is_normal_form_witness:
  "canonical (lit ''-007.50'') = canonical [36127, 19971, 28857, 20116] \<and> canonical (lit ''-0'') = canonical (lit ''0'')"
proof -
  have s: "numeral_parts (lit ''-007.50'') = Some (True, 7, lit ''50'')" by code_simp
  have t: "numeral_parts [36127, 19971, 28857, 20116] = Some (True, 7, lit ''5'')" by code_simp
  have z: "numeral_parts (lit ''-0'') = Some (True, 0, [])" "numeral_parts (lit ''0'') = Some (False, 0, [])" by code_simp+
  have "same_value (True, 7, lit ''50'') (True, 7, lit ''5'')" "same_value (True, 0, []) (False, 0, [])" by code_simp+
  then show ?thesis using canonical_is_normal_form [OF s t] canonical_is_normal_form [OF z] by blast
qed

end
