(* ===== verification/Hsk_Translation_Laws.thy ===== *)
theory Hsk_Translation_Laws
  imports Hsk_Translation Quantities_Props
begin

text \<open>
  What the parsers of the translator guarantee: one outcome per utterance, whatever the model
  answers; what an accepted translation has passed; and that an answer that keeps the protocol is
  read line by line.
\<close>

section \<open>One outcome per utterance\<close>

lemma to_id_outcome_with [simp]: "to_id (outcome_with e t issues) = ex_id e"
  by (simp add: outcome_with_def)

lemma to_id_candidate [simp]: "to_id (candidate_outcome e t) = ex_id e"
  by (simp add: candidate_outcome_def split_def Let_def)

lemma to_id_from_lines [simp]: "to_id (outcome_from_lines e ls) = ex_id e"
  by (simp add: outcome_from_lines_def split: list.splits parsed_line.splits)

lemma to_id_recheck [simp]: "to_id (recheck source x) = to_id x"
  by (simp add: recheck_def split: option.splits)

lemma to_id_repair [simp]: "to_id (parse_repair_output answer e) = ex_id e"
  by (simp add: parse_repair_output_def split: list.splits)

lemma enumerate_one: "length xs = 1 \<Longrightarrow> xs = [xs ! 0]"
  by (cases xs) auto

lemma ids_numbered: "map to_id (parse_numbered_output answer expected) = map ex_id expected"
proof (cases "length expected = 1 \<and> slot (numbered_lines answer expected) 0 = []")
  case True
  then show ?thesis using enumerate_one [of expected] by (simp add: parse_numbered_output_def) (metis list.simps(8,9))
next
  case False
  have ids: "map to_id (map (\<lambda>(i, e). outcome_from_lines e (slot ls i)) (enumerate k xs)) = map ex_id xs" for ls k xs
    by (induction xs arbitrary: k) simp_all
  show ?thesis using False unfolding parse_numbered_output_def Let_def by (simp only: if_False ids)
qed

lemma ids_numbered_repair: "map to_id (parse_numbered_repair_output answer expected) = map ex_id expected"
proof -
  have "to_id (case expected_source expected (to_id x) of None \<Rightarrow> x | Some source \<Rightarrow> recheck source x) = to_id x" for x
    by (simp split: option.splits)
  then show ?thesis using ids_numbered [of answer expected] by (simp add: parse_numbered_repair_output_def comp_def)
qed

lemma ids_repair_batch: "map to_id (parse_repair_batch_output answer expected) = map ex_id expected"
  by (simp add: parse_repair_batch_output_def ids_numbered_repair split: list.splits)

lemma to_id_add_issue [simp]: "to_id (add_issue when issue x) = to_id x"
  by (simp add: add_issue_def)

lemma to_id_accept_names [simp]: "to_id (accept_names env source names x) = to_id x"
  by (simp add: accept_names_def split: option.splits)

lemma to_id_faithful [simp]: "to_id (faithful_outcome env source names x) = to_id x"
  by (simp add: faithful_outcome_def Let_def split: option.splits)

lemma length_parsed [simp]: "length (parse_numbered_output answer expected) = length expected"
  using arg_cong [OF ids_numbered [of answer expected], of length] by simp

lemma ids_faithful: "map to_id (parse_faithful_output env answer expected) = map ex_id expected"
proof -
  have ids: "map to_id (map (\<lambda>(i, x, e). faithful_outcome env (ex_source_english e) (g i) x) (enumerate k (zip xs es))) = map to_id (take (length es) xs)"
    for g k xs es
  proof (induction es arbitrary: k xs)
    case (Cons e es)
    then show ?case by (cases xs) simp_all
  qed simp
  show ?thesis unfolding parse_faithful_output_def Let_def ids by (simp add: ids_numbered)
qed

lemma ids_with_termination: "map to_id (with_termination how items) = map to_id items"
  by (simp add: with_termination_def)

section \<open>What an accepted translation has passed\<close>

definition passes_checks :: "rstring \<Rightarrow> rstring \<Rightarrow> bool" where
  "passes_checks source t \<longleftrightarrow> \<not> blank_text t \<and> list_all (\<lambda>c. \<not> is_ascii_alphabetic c \<and> \<not> is_marker c) t
     \<and> (explicit_numbers source False \<noteq> [] \<longrightarrow> mset (explicit_numbers t True) = mset (explicit_numbers source False))
     \<and> (has_question_intent source \<longrightarrow> has_question_intent t)
     \<and> (english_word_count source \<le> 8 \<longrightarrow> chinese_character_count t \<le> max (english_word_count source * 4 + 4) 12)"

lemma preservation_none:
  "preservation_issues source t = [] \<longleftrightarrow>
     (explicit_numbers source False \<noteq> [] \<longrightarrow> mset (explicit_numbers t True) = mset (explicit_numbers source False))
     \<and> (has_question_intent source \<longrightarrow> has_question_intent t)
     \<and> (english_word_count source \<le> 8 \<longrightarrow> chinese_character_count t \<le> max (english_word_count source * 4 + 4) 12)"
proof -
  have "sort xs = sort ys \<longleftrightarrow> mset xs = mset ys" for xs ys :: "rstring list"
    by (metis mset_sort properties_for_sort sorted_sort)
  moreover have "sort xs = [] \<longleftrightarrow> xs = []" for xs :: "rstring list" by (metis mset_sort mset_zero_iff)
  ultimately show ?thesis
    by (auto simp: preservation_issues_def number_issues_def expansion_issues_def Let_def)
qed

lemma candidate_valid:
  assumes "to_issues (candidate_outcome e t) = []" "to_text (candidate_outcome e t) = Some u" "\<not> blank_text u"
  shows "passes_checks (ex_source_english e) u"
  using assms
  by (auto simp: candidate_outcome_def outcome_with_def validate_and_strip_markup_def Let_def passes_checks_def
      preservation_none list_all_iff list_ex_iff split: if_splits)

lemma from_lines_valid:
  assumes "to_issues (outcome_from_lines e ls) = []" "to_text (outcome_from_lines e ls) = Some u" "\<not> blank_text u"
  shows "passes_checks (ex_source_english e) u"
  using assms candidate_valid
  by (auto simp: outcome_from_lines_def outcome_with_def split: list.splits parsed_line.splits)

lemma repair_valid:
  assumes "to_issues (parse_repair_output answer e) = []" "to_text (parse_repair_output answer e) = Some u" "\<not> blank_text u"
  shows "passes_checks (ex_source_english e) u"
proof -
  have "passes_checks (ex_source_english e) u"
    if "to_issues (recheck (ex_source_english e) (candidate_outcome e t)) = []"
      "to_text (recheck (ex_source_english e) (candidate_outcome e t)) = Some u" for t
    using that assms(3)
    by (auto simp: recheck_def candidate_outcome_def outcome_with_def validate_and_strip_markup_def Let_def passes_checks_def
        preservation_none list_all_iff list_ex_iff is_markup_issue_def split: if_splits option.splits)
  then show ?thesis using assms
    by (auto simp: parse_repair_output_def outcome_from_lines_def outcome_with_def split: list.splits if_splits)
qed

lemma numbered_nth:
  assumes "i < length expected"
  shows "parse_numbered_output answer expected ! i = parse_repair_output answer (expected ! i)
    \<or> parse_numbered_output answer expected ! i = outcome_from_lines (expected ! i) (slot (numbered_lines answer expected) i)"
  using assms by (auto simp: parse_numbered_output_def Let_def nth_enumerate_eq)

lemma numbered_valid:
  assumes "i < length expected" "x = parse_numbered_output answer expected ! i" "to_issues x = []" "to_text x = Some u" "\<not> blank_text u"
  shows "passes_checks (ex_source_english (expected ! i)) u"
  using numbered_nth [OF assms(1), of answer] assms from_lines_valid repair_valid by metis

lemma valid_before_termination:
  assumes "outcome_valid (with_termination how items ! i)" "i < length items"
  obtains t where "to_text (items ! i) = Some t" "\<not> blank_text t" "to_issues (items ! i) = []" "how = Stop"
    "with_termination how items ! i = (items ! i)\<lparr>to_termination := Stop\<rparr>"
  using assms by (auto simp: with_termination_def outcome_valid_def split: if_splits option.splits)

lemma accepted_translation:
  assumes "i < length expected" "x = with_termination how (parse_numbered_output answer expected) ! i" "outcome_valid x"
  shows "passes_checks (ex_source_english (expected ! i)) (the (to_text x))"
proof -
  obtain t where t: "to_text (parse_numbered_output answer expected ! i) = Some t" "\<not> blank_text t"
      "to_issues (parse_numbered_output answer expected ! i) = []" "x = (parse_numbered_output answer expected ! i)\<lparr>to_termination := Stop\<rparr>"
    using valid_before_termination [of how "parse_numbered_output answer expected" i] assms by auto
  then show ?thesis using numbered_valid [OF assms(1) refl t(3,1,2)] by simp
qed

section \<open>The faithful translation\<close>

lemma add_issue_none: "to_issues (add_issue when issue x) = [] \<longleftrightarrow> to_issues x = [] \<and> \<not> when"
  by (auto simp: add_issue_def)

lemma to_text_add_issue [simp]: "to_text (add_issue when issue x) = to_text x"
  "to_protected_names (add_issue when issue x) = to_protected_names x"
  by (simp_all add: add_issue_def)

lemma accept_names_none:
  assumes "to_issues (accept_names env source names x) = []"
  shows "to_issues x = [] \<and> to_text (accept_names env source names x) = to_text x
    \<and> (\<forall>t n. to_text x = Some t \<longrightarrow> n \<in> set (to_protected_names (accept_names env source names x))
         \<longrightarrow> is_anchored n source t \<and> list_ex (te_uppercase env) (pr_source_text n))"
  using assms by (auto simp: accept_names_def list_all_iff split: option.splits if_splits)

text \<open>A name record of an accepted faithful translation is evidence found in both texts.\<close>

definition names_evident :: "translation_env \<Rightarrow> rstring \<Rightarrow> rstring \<Rightarrow> protected_name list \<Rightarrow> bool" where
  "names_evident env source t names \<longleftrightarrow>
     list_all (\<lambda>n. is_anchored n source t \<and> list_ex (te_uppercase env) (pr_source_text n)) names"

lemma faithful_outcome_none:
  assumes "to_issues (faithful_outcome env source names x) = []" "to_text (faithful_outcome env source names x) = Some t"
  shows "to_issues x = []" "to_text x = Some t" "list_ex (te_alphabetic env) source \<Longrightarrow> contains_han t"
    "\<not> starts_with_role_label t" "names_evident env source t (to_protected_names (faithful_outcome env source names x))"
proof -
  let ?y = "accept_names env source names x"
  have same: "to_text (faithful_outcome env source names x) = to_text ?y"
    by (simp add: faithful_outcome_def Let_def split: option.splits)
  then have t: "to_text ?y = Some t" using assms(2) by simp
  then have y: "to_issues ?y = []" "\<not> starts_with_role_label t" "\<not> (list_ex (te_alphabetic env) source \<and> \<not> contains_han t)"
      "to_protected_names (faithful_outcome env source names x) = to_protected_names ?y"
    using assms(1) by (auto simp: faithful_outcome_def Let_def add_issue_none)
  note names = accept_names_none [OF y(1)]
  then show "to_issues x = []" "to_text x = Some t" using t by simp_all
  then show "list_ex (te_alphabetic env) source \<Longrightarrow> contains_han t" "\<not> starts_with_role_label t"
    "names_evident env source t (to_protected_names (faithful_outcome env source names x))"
    using y names by (auto simp: names_evident_def list_all_iff)
qed

lemma faithful_nth:
  assumes "i < length expected"
  shows "\<exists>names answer'. parse_faithful_output env answer expected ! i
    = faithful_outcome env (ex_source_english (expected ! i)) names (parse_numbered_output answer' expected ! i)"
  using assms by (auto simp: parse_faithful_output_def Let_def nth_enumerate_eq)

lemma length_faithful [simp]: "length (parse_faithful_output env answer expected) = length expected"
  using arg_cong [OF ids_faithful [of env answer expected], of length] by simp

lemma accepted_faithful:
  assumes "i < length expected" "x = with_termination how (parse_faithful_output env answer expected) ! i" "outcome_valid x"
  shows "passes_checks (ex_source_english (expected ! i)) (the (to_text x))
    \<and> (list_ex (te_alphabetic env) (ex_source_english (expected ! i)) \<longrightarrow> contains_han (the (to_text x)))
    \<and> names_evident env (ex_source_english (expected ! i)) (the (to_text x)) (to_protected_names x)"
proof -
  let ?z = "parse_faithful_output env answer expected ! i"
  obtain t where t: "to_text ?z = Some t" "\<not> blank_text t" "to_issues ?z = []" "x = (?z)\<lparr>to_termination := Stop\<rparr>"
    using valid_before_termination [of how "parse_faithful_output env answer expected" i] assms by auto
  obtain names answer' where z: "?z = faithful_outcome env (ex_source_english (expected ! i)) names (parse_numbered_output answer' expected ! i)"
    using faithful_nth [OF assms(1)] by blast
  note none = faithful_outcome_none [OF t(3,1) [unfolded z]]
  have "passes_checks (ex_source_english (expected ! i)) t"
    using numbered_valid [OF assms(1) refl none(1,2) t(2)] .
  then show ?thesis using none t(1,4) z by (simp add: names_evident_def)
qed

section \<open>An answer that keeps the protocol\<close>

text \<open>The lines the prompt asks for, in the order the model gives them.\<close>

definition protocol_line :: "rstring list \<Rightarrow> nat \<Rightarrow> rstring" where
  "protocol_line ts i = lit (show_nat (i + 1)) @ [9] @ ts ! i"

definition protocol_answer :: "nat list \<Rightarrow> rstring list \<Rightarrow> rstring" where
  "protocol_answer order ts = concat (map (\<lambda>i. protocol_line ts i @ [10]) order)"

definition one_line :: "rstring \<Rightarrow> bool" where
  "one_line t \<longleftrightarrow> 9 \<notin> set t \<and> 10 \<notin> set t \<and> 13 \<notin> set t"

lemma str_split_lines:
  "list_all (\<lambda>l. 10 \<notin> set l) ls \<Longrightarrow> str_split (\<lambda>c. c = 10) (concat (map (\<lambda>l. l @ [10]) ls)) = ls @ [[]]"
proof (induction ls)
  case (Cons l ls)
  have "list_all (\<lambda>c. \<not> c = 10) l" using Cons.prems by (auto simp: list_all_iff)
  from str_split_sep [OF this, of 10] show ?case using Cons by simp
qed simp

lemma show_nat_clean: "c \<in> set (lit (show_nat n)) \<Longrightarrow> is_ascii_digit c"
  using show_nat_digits [of n] unfolding list_all_iff by blast

lemma protocol_line_parsed:
  assumes "i < n" "n \<le> U64_MAX" "one_line (ts ! i)"
  shows "parse_output_line (protocol_line ts i) n = Some (i + 1, Candidate (ts ! i))"
proof -
  let ?s = "lit (show_nat (i + 1))"
  have "takeWhile is_ascii_digit (?s @ 9 # ts ! i) = ?s"
    using takeWhile_append2 [of ?s is_ascii_digit "9 # ts ! i"] show_nat_clean [of _ "i + 1"] by (simp add: is_ascii_digit_def)
  moreover have "value_of ?s = i + 1" using assms by (intro show_nat_value) simp
  moreover have "9 \<notin> set (ts ! i)" using assms(3) by (simp add: one_line_def)
  ultimately show ?thesis using assms show_nat_nonempty [of "i + 1"]
    by (simp add: parse_output_line_def protocol_line_def Let_def line_text_def)
qed

lemma protocol_line_clean:
  assumes "one_line (ts ! i)"
  shows "10 \<notin> set (protocol_line ts i)" "strip_return (protocol_line ts i) = protocol_line ts i" "protocol_line ts i \<noteq> []"
proof -
  have "c \<noteq> 10 \<and> c \<noteq> 13" if "c \<in> set (protocol_line ts i)" for c
    using that assms show_nat_clean [of c "i + 1"] by (auto simp: protocol_line_def one_line_def is_ascii_digit_def)
  then show "10 \<notin> set (protocol_line ts i)" "strip_return (protocol_line ts i) = protocol_line ts i" "protocol_line ts i \<noteq> []"
    using last_in_set [of "protocol_line ts i"] by (auto simp: strip_return_def protocol_line_def)
qed

lemma protocol_numbered_lines:
  assumes "set order \<subseteq> {..< length expected}" "length expected \<le> U64_MAX"
    and "\<And>i. i < length expected \<Longrightarrow> one_line (ts ! i) \<and> compact_words (ts ! i) \<noteq> compact_words (ex_source_english (expected ! i))"
  shows "numbered_lines (protocol_answer order ts) expected = map (\<lambda>i. (i + 1, Candidate (ts ! i))) order"
proof -
  have ok: "one_line (ts ! i)" "i < length expected" if "i \<in> set order" for i using that assms by auto
  have "concat (map (\<lambda>l. l @ [10]) (map (protocol_line ts) order)) = protocol_answer order ts"
    by (simp add: protocol_answer_def comp_def)
  then have "str_split (\<lambda>c. c = 10) (protocol_answer order ts) = map (protocol_line ts) order @ [[]]"
    using str_split_lines [of "map (protocol_line ts) order"] protocol_line_clean(1) ok by (simp add: list_all_iff)
  then have "output_lines (protocol_answer order ts) = map (protocol_line ts) order"
    using protocol_line_clean ok by (simp add: output_lines_def strip_return_def filter_id_conv cong: map_cong)
  moreover have "List.map_filter (\<lambda>l. parse_output_line l (length expected)) (map (protocol_line ts) order)
      = map (\<lambda>i. (i + 1, Candidate (ts ! i))) order"
    using ok protocol_line_parsed [OF _ assms(2)] by (induction order) (auto simp: List.map_filter_def)
  moreover have "filter (\<lambda>(p, l). \<not> is_source_echo l (ex_source_english (expected ! (p - 1)))) (map (\<lambda>i. (i + 1, Candidate (ts ! i))) order)
      = map (\<lambda>i. (i + 1, Candidate (ts ! i))) order"
    using ok assms(3) by (intro filter_True) (auto simp: is_source_echo_def)
  ultimately show ?thesis by (simp add: numbered_lines_def)
qed

lemma protocol_answer_parsed:
  assumes "distinct order" "set order = {..< length expected}" "length expected \<le> U64_MAX"
    and "\<And>i. i < length expected \<Longrightarrow> one_line (ts ! i) \<and> compact_words (ts ! i) \<noteq> compact_words (ex_source_english (expected ! i))"
    and "i < length expected"
  shows "parse_numbered_output (protocol_answer order ts) expected ! i = candidate_outcome (expected ! i) (ts ! i)"
proof -
  have ls: "numbered_lines (protocol_answer order ts) expected = map (\<lambda>i. (i + 1, Candidate (ts ! i))) order"
    by (rule protocol_numbered_lines [OF _ assms(3,4)]) (simp_all add: assms(2))
  have slots: "slot (map (\<lambda>i. (i + 1, Candidate (ts ! i))) order) j = [Candidate (ts ! j)]" if "j < length expected" for j
  proof -
    have "distinct xs \<Longrightarrow> j \<in> set xs \<Longrightarrow> filter (\<lambda>i. i = j) xs = [j]" for xs
      by (induction xs) (auto simp: filter_empty_conv)
    then have "filter (\<lambda>i. i = j) order = [j]" using assms(1,2) that by simp
    then show ?thesis by (simp add: slot_def filter_map comp_def)
  qed
  have "0 < length expected" using assms(5) by (cases expected) simp_all
  note slots = slots [OF this] slots [OF assms(5)]
  show ?thesis unfolding parse_numbered_output_def ls Let_def slots(1)
    using assms(5) slots(2) by (simp add: nth_enumerate_eq outcome_from_lines_def)
qed

end
