(* ===== verification/Hsk_Run_Laws.thy ===== *)
theory Hsk_Run_Laws
  imports Hsk_Translation_Run Hsk_Translation_Laws
begin

text \<open>
  Laws of the translator's loops: a small calculus of what an action ensures, what it writes to the
  stream of published outcomes, and what the planners guarantee about the batches they choose.
\<close>

section \<open>What an action ensures\<close>

text \<open>The loops never run out of fuel; every other error is possible.\<close>

abbreviation ensures :: "('w, translation_error, 'a) action \<Rightarrow> ('a \<Rightarrow> bool) \<Rightarrow> bool" where
  "ensures m P \<equiv> always m (\<lambda>e. e \<noteq> OutOfFuel) P"

lemmas ensures_def = always_iff
lemmas ensures_give = always_give
lemmas ensures_and_then = always_and_then
lemmas ensures_any = always_weaken

lemma ensures_give_up: "e \<noteq> OutOfFuel \<Longrightarrow> ensures (give_up e) P"
  by (simp add: always_give_up)

lemma ensures_checked: "r \<noteq> Inl OutOfFuel \<Longrightarrow> (\<And>x. r = Inr x \<Longrightarrow> P x) \<Longrightarrow> ensures (checked r) P"
  by (auto intro: always_checked)

lemma ensures_relabelled: "(\<And>t. label t \<noteq> OutOfFuel) \<Longrightarrow> ensures (relabelled label m) (\<lambda>_. True)"
  by (auto intro: always_relabelled)

lemma ensures_calls:
  "ensures (token_count g t) (\<lambda>_. True)" "ensures (completion_capacity g s u) (\<lambda>_. True)"
  "ensures (generate_streaming g s u options) (\<lambda>_. True)"
  by (auto simp: token_count_def completion_capacity_def generate_streaming_def intro: ensures_relabelled)

lemma ensures_check_cancelled: "ensures (check_cancelled g) (\<lambda>_. True)"
  by (auto simp: ensures_def check_cancelled_def split_def Let_def)

lemma ensures_for_each: "(\<And>x. ensures (f x) (\<lambda>_. True)) \<Longrightarrow> ensures (for_each f xs) (\<lambda>_. True)"
  by (rule always_for_each)

section \<open>Context\<close>

lemma trim_context_ensures: "ensures (trim_context g us) (\<lambda>ctx. suffix ctx us)"
proof (induction us)
  case (Cons u us)
  show ?case
    by (auto intro!: ensures_and_then [OF ensures_calls(1)] ensures_give ensures_any [OF Cons.IH] suffix_ConsI)
qed (simp add: ensures_give)

text \<open>The context of a batch: the latest translations, at most six, and at most six neighbouring spans.\<close>

definition context_within :: "preceding_utterance list \<Rightarrow> batch_context \<Rightarrow> bool" where
  "context_within rolling c \<longleftrightarrow> (case c of (ctx, p, f) \<Rightarrow> suffix ctx rolling \<and> length ctx \<le> MAX_HSK_PRECEDING_UTTERANCES
     \<and> length p + length f \<le> MAX_HSK_PRECEDING_UTTERANCES)"

lemma bounded_context_ensures:
  "ensures (bounded_context g rolling) (\<lambda>ctx. suffix ctx rolling \<and> length ctx \<le> MAX_HSK_PRECEDING_UTTERANCES)"
proof -
  let ?last = "drop (length rolling - MAX_HSK_PRECEDING_UTTERANCES) rolling"
  have "suffix ctx rolling \<and> length ctx \<le> MAX_HSK_PRECEDING_UTTERANCES" if "suffix ctx ?last" for ctx
    using that suffix_length_le [OF that] suffix_drop [of "length rolling - MAX_HSK_PRECEDING_UTTERANCES" rolling]
    by (auto dest: suffix_order.trans)
  then show ?thesis unfolding bounded_context_def by (rule ensures_any [OF trim_context_ensures])
qed

lemma evict_none: "evict_farthest_source_context p f = None \<longleftrightarrow> p = [] \<and> f = []"
  by (auto simp: evict_farthest_source_context_def)

lemma shrink_ensures:
  "ensures (shrink_source_context g p f) (\<lambda>(p, f). length p + length f \<le> MAX_HSK_PRECEDING_UTTERANCES)"
proof (induction g p f rule: shrink_source_context.induct)
  case (1 g p f)
  have shrunk: "ensures (case evict_farthest_source_context p f of None \<Rightarrow> give (p, f)
      | Some (p', f') \<Rightarrow> shrink_source_context g p' f') (\<lambda>(p, f). length p + length f \<le> MAX_HSK_PRECEDING_UTTERANCES)"
    using 1 evict_none [of p f] by (cases "evict_farthest_source_context p f") (auto simp del: fst_conv intro!: ensures_give)
  then show ?case
    by (subst shrink_source_context.simps) (auto simp: Let_def intro!: ensures_and_then [OF ensures_calls(1)] ensures_give)
qed

lemma starting_context_ensures: "ensures (starting_context g rolling p f) (context_within rolling)"
  unfolding starting_context_def bounded_source_context_def
  by (rule ensures_and_then [OF bounded_context_ensures] ensures_and_then [OF shrink_ensures])+
    (auto simp: context_within_def intro!: ensures_give)

lemma fit_context_ensures:
  assumes "\<And>c. ensures (capacity c) (\<lambda>_. True)" "context_within rolling c"
  shows "ensures (fit_context budget capacity c) (\<lambda>r. case r of None \<Rightarrow> True | Some c \<Rightarrow> context_within rolling c)"
  using assms
proof (induction budget capacity c rule: fit_context.induct)
  case (1 budget capacity ctx p f)
  have evicted: "context_within rolling ([], p', f')" if "evict_farthest_source_context p f = Some (p', f')" for p' f'
    using 1(4) evict_source_shrinks [OF that] by (auto simp: context_within_def)
  have dropped: "context_within rolling (ctx', p, f)" if "ctx = u # ctx'" for u ctx'
    using 1(4) that by (auto simp: context_within_def dest: suffix_ConsD)
  show ?case
    using 1 evicted dropped
    by (subst fit_context.simps)
      (auto intro!: ensures_and_then [OF 1(3)] ensures_give split: list.splits option.splits)
qed

section \<open>Planned batches\<close>

definition planned :: "'u list \<Rightarrow> 'u list \<Rightarrow> bool" where
  "planned remaining us \<longleftrightarrow> us \<noteq> [] \<and> prefix us remaining \<and> length us \<le> MAX_HSK_TRANSLATION_BATCH"

lemma plan_counts_ensures:
  assumes "failure \<noteq> OutOfFuel" "\<And>k. 1 \<le> k \<Longrightarrow> k \<le> n \<Longrightarrow> ensures (attempt k) (\<lambda>r. case r of None \<Rightarrow> True | Some x \<Rightarrow> P x)"
  shows "ensures (plan_counts failure attempt n) P"
  using assms(2)
proof (induction n)
  case (Suc n)
  have step: "ensures (case r of None \<Rightarrow> plan_counts failure attempt n | Some x \<Rightarrow> give x) P"
    if "case r of None \<Rightarrow> True | Some x \<Rightarrow> P x" for r
    using that Suc by (auto intro!: ensures_give split: option.splits)
  show ?case unfolding plan_counts.simps by (rule ensures_and_then [OF Suc.prems]) (auto intro: step)
qed (simp add: ensures_give_up assms(1))

lemma take_planned: "1 \<le> k \<Longrightarrow> k \<le> batch_limit remaining \<Longrightarrow> planned remaining (take k remaining)"
  by (auto simp: planned_def batch_limit_def take_is_prefix)

lemma plan_translation_ensures:
  "ensures (plan_translation_subbatch g r remaining rolling provenance) (\<lambda>(batch, options). planned remaining (tq_utterances batch)
     \<and> context_within rolling (tq_preceding_utterances batch, tq_preceding_english batch, tq_following_english batch))"
  unfolding plan_translation_subbatch_def
  apply (rule plan_counts_ensures, simp)
  unfolding attempt_translation_def Let_def
  apply (rule ensures_and_then [OF starting_context_ensures], rule ensures_and_then [OF fit_context_ensures])
  by (auto simp: with_context_def take_planned intro!: ensures_give ensures_calls split: option.splits)

lemma plan_faithful_ensures:
  "ensures (plan_faithful_subbatch g r remaining rolling provenance) (\<lambda>(batch, options). planned remaining (fq_utterances batch)
     \<and> context_within rolling (fq_preceding_utterances batch, fq_preceding_english batch, fq_following_english batch))"
  unfolding plan_faithful_subbatch_def
  apply (rule plan_counts_ensures, simp)
  unfolding attempt_faithful_def Let_def
  apply (rule ensures_and_then [OF starting_context_ensures], rule ensures_and_then [OF fit_context_ensures])
  by (auto simp: faithful_with_context_def take_planned intro!: ensures_give ensures_calls split: option.splits)

lemma plan_repair_ensures:
  "ensures (plan_repair_subbatch g r remaining provenance) (\<lambda>(batch, options). planned remaining (rq_utterances batch)
     \<and> context_within (rq_preceding_utterances r) (rq_preceding_utterances batch, rq_preceding_english batch, rq_following_english batch))"
  unfolding plan_repair_subbatch_def
  apply (rule plan_counts_ensures, simp)
  unfolding attempt_repair_def Let_def
  apply (rule ensures_and_then [OF starting_context_ensures], rule ensures_and_then [OF ensures_calls(2)])
  by (auto simp: repair_with_context_def take_planned intro!: ensures_give)

section \<open>The loops\<close>

lemma run_batches_ensures:
  assumes "\<And>us s. us \<noteq> [] \<Longrightarrow> I us \<Longrightarrow>
      ensures (step us s) (\<lambda>(n, items, s'). 0 < n \<and> n \<le> length us \<and> list_all2 A (take n us) items)"
    and "\<And>us n. I us \<Longrightarrow> I (drop n us)"
  shows "length us \<le> fuel \<Longrightarrow> I us \<Longrightarrow> ensures (run_batches fuel step us s) (list_all2 A us)"
proof (induction fuel arbitrary: us s)
  case (Suc fuel)
  have rest: "ensures (and_then (run_batches fuel step (drop n us) s') (\<lambda>rest. give (items @ rest))) (list_all2 A us)"
    if "0 < n \<and> n \<le> length us \<and> list_all2 A (take n us) items" for n items s'
  proof (rule ensures_and_then)
    show "ensures (run_batches fuel step (drop n us) s') (list_all2 A (drop n us))"
      using Suc.prems that assms(2) by (intro Suc.IH) auto
    fix rest
    assume "list_all2 A (drop n us) rest"
    with that have "list_all2 A (take n us @ drop n us) (items @ rest)" by (blast intro: list_all2_appendI)
    then show "ensures (give (items @ rest)) (list_all2 A us)" by (intro ensures_give) simp
  qed
  show ?case
  proof (cases us)
    case (Cons u us')
    have "ensures (step (u # us') s) (\<lambda>(n, items, s'). 0 < n \<and> n \<le> length us \<and> list_all2 A (take n us) items)"
      using assms(1) [of us s] Suc.prems(2) by (simp add: Cons)
    then show ?thesis unfolding Cons run_batches.simps
      by (rule ensures_and_then) (auto simp: split_def Cons [symmetric] intro: rest)
  qed (simp add: ensures_give)
qed (simp add: ensures_give)

lemma list_all2_nthI: "length xs = length ys \<Longrightarrow> (\<And>i. i < length xs \<Longrightarrow> A (xs ! i) (ys ! i)) \<Longrightarrow> list_all2 A xs ys"
  by (simp add: list_all2_conv_all_nth)

lemma planned_take: "planned remaining us \<Longrightarrow> 0 < length us \<and> length us \<le> length remaining \<and> take (length us) remaining = us"
  by (auto simp: planned_def prefix_def)

lemma planned_Nil [simp]: "\<not> planned remaining []"
  by (simp add: planned_def)

section \<open>Validation spends no fuel\<close>

lemma try_bind_eq_Err: "try_bind r f = Inl e \<longleftrightarrow> r = Inl e \<or> (\<exists>x. r = Inr x \<and> f x = Inl e)"
  by (cases r) auto

lemma reject_eq_Err: "reject_if bad e = Inl e' \<longleftrightarrow> bad \<and> e = e'"
  by (simp add: reject_if_def)

lemma check_utterances_no_fuel: "check_utterances ids us \<noteq> Inl OutOfFuel"
  by (induction ids us rule: check_utterances.induct) auto

lemma check_sequence_no_fuel: "(\<And>x. f x \<noteq> Inl OutOfFuel) \<Longrightarrow> check_sequence f xs \<noteq> Inl OutOfFuel"
  by (induction xs) (auto simp: try_bind_eq_Err)

lemma validators_no_fuel:
  "validate_level l \<noteq> Inl OutOfFuel" "validate_source_context p f \<noteq> Inl OutOfFuel" "validate_layout_budget i layout \<noteq> Inl OutOfFuel"
  "validate_faithful_chinese i t \<noteq> Inl OutOfFuel" "validate_spans_common us context \<noteq> Inl OutOfFuel" "validate_repair_utterance ru \<noteq> Inl OutOfFuel"
  by (simp_all add: validate_level_def validate_source_context_def validate_layout_budget_def validate_faithful_chinese_def
      validate_spans_common_def validate_repair_utterance_def Let_def try_bind_eq_Err reject_eq_Err check_utterances_no_fuel split: option.splits)

lemma requests_no_fuel:
  "validate_translation_request tr \<noteq> Inl OutOfFuel" "validate_faithful_request fr \<noteq> Inl OutOfFuel" "validate_repair_request rr \<noteq> Inl OutOfFuel"
  unfolding validate_translation_request_def validate_faithful_request_def validate_repair_request_def
  by (simp_all add: try_bind_eq_Err reject_eq_Err validators_no_fuel check_sequence_no_fuel)

section \<open>Every span gets an answer\<close>

text \<open>What a caller may rely on for the outcome of a span.\<close>

definition answers_span :: "rstring \<Rightarrow> rstring \<Rightarrow> translation_outcome \<Rightarrow> bool" where
  "answers_span i source x \<longleftrightarrow> to_id x = i \<and> (outcome_valid x \<longrightarrow> passes_checks source (the (to_text x)))"

definition answers_faithfully :: "translation_env \<Rightarrow> rstring \<Rightarrow> rstring \<Rightarrow> translation_outcome \<Rightarrow> bool" where
  "answers_faithfully env i source x \<longleftrightarrow> to_id x = i \<and> (outcome_valid x \<longrightarrow> passes_checks source (the (to_text x))
     \<and> (list_ex (te_alphabetic env) source \<longrightarrow> contains_han (the (to_text x)))
     \<and> names_evident env source (the (to_text x)) (to_protected_names x))"

definition answers_repair :: "rstring \<Rightarrow> rstring \<Rightarrow> translation_outcome \<Rightarrow> bool" where
  "answers_repair i source x \<longleftrightarrow> to_id x = i \<and> (outcome_valid x \<longrightarrow> preservation_issues source (the (to_text x)) = [])"

lemma ids_nth: "map to_id xs = map ex_id es \<Longrightarrow> i < length es \<Longrightarrow> to_id (xs ! i) = ex_id (es ! i)"
  by (metis length_map nth_map)

lemma translation_answers:
  "list_all2 (\<lambda>u. answers_span (su_id u) (su_source_english u)) us
     (with_termination how (parse_numbered_output answer (expected_sources us)))"
proof (rule list_all2_nthI)
  let ?xs = "with_termination how (parse_numbered_output answer (expected_sources us))"
  have ids: "map to_id ?xs = map ex_id (expected_sources us)" by (simp add: ids_with_termination ids_numbered)
  show "length us = length ?xs" using arg_cong [OF ids, of length] by (simp add: expected_sources_def)
  fix i
  assume i: "i < length us"
  then have "to_id (?xs ! i) = su_id (us ! i)" using ids_nth [OF ids, of i] by (simp add: expected_sources_def)
  then show "answers_span (su_id (us ! i)) (su_source_english (us ! i)) (?xs ! i)"
    using accepted_translation [of i "expected_sources us" "?xs ! i" how answer] i
    by (simp add: answers_span_def expected_sources_def)
qed

lemma faithful_answers:
  "list_all2 (\<lambda>u. answers_faithfully env (fu_id u) (fu_source_english u)) us
     (with_termination how (parse_faithful_output env answer (expected_faithful us)))"
proof (rule list_all2_nthI)
  let ?xs = "with_termination how (parse_faithful_output env answer (expected_faithful us))"
  have ids: "map to_id ?xs = map ex_id (expected_faithful us)" by (simp add: ids_with_termination ids_faithful)
  show "length us = length ?xs" using arg_cong [OF ids, of length] by (simp add: expected_faithful_def)
  fix i
  assume i: "i < length us"
  then have "to_id (?xs ! i) = fu_id (us ! i)" using ids_nth [OF ids, of i] by (simp add: expected_faithful_def)
  then show "answers_faithfully env (fu_id (us ! i)) (fu_source_english (us ! i)) (?xs ! i)"
    using accepted_faithful [of i "expected_faithful us" "?xs ! i" how env answer] i
    by (simp add: answers_faithfully_def expected_faithful_def)
qed

lemma translation_step_ensures:
  "remaining \<noteq> [] \<Longrightarrow> ensures (translation_step g r provenance on_item remaining rolling)
     (\<lambda>(n, items, s'). 0 < n \<and> n \<le> length remaining
        \<and> list_all2 (\<lambda>u. answers_span (su_id u) (su_source_english u)) (take n remaining) items)"
  unfolding translation_step_def translate_prepared_request_streaming_def Let_def
  by (rule ensures_and_then [OF ensures_check_cancelled], rule ensures_and_then [OF plan_translation_ensures])
    (auto intro!: ensures_and_then [OF ensures_calls(3)] ensures_and_then [OF ensures_check_cancelled]
        ensures_and_then [where Q = "\<lambda>items. list_all2 _ _ items"]
        ensures_and_then [OF ensures_for_each] ensures_relabelled ensures_give translation_answers
      simp: planned_take)

lemma faithful_step_ensures:
  "remaining \<noteq> [] \<Longrightarrow> ensures (faithful_step env g r provenance remaining rolling)
     (\<lambda>(n, items, s'). 0 < n \<and> n \<le> length remaining
        \<and> list_all2 (\<lambda>u. answers_faithfully env (fu_id u) (fu_source_english u)) (take n remaining) items)"
  unfolding faithful_step_def Let_def
  by (rule ensures_and_then [OF ensures_check_cancelled], rule ensures_and_then [OF plan_faithful_ensures])
    (auto intro!: ensures_and_then [OF ensures_calls(3)] ensures_and_then [OF ensures_check_cancelled] ensures_give faithful_answers
      simp: planned_take)

lemma translation_answered:
  "ensures (translate_with_streaming_source g r provenance on_item)
     (list_all2 (\<lambda>u. answers_span (su_id u) (su_source_english u)) (tq_utterances r))"
  unfolding translate_with_streaming_source_def
  by (intro ensures_and_then [OF ensures_check_cancelled] ensures_and_then [OF ensures_checked [where P = "\<lambda>_. True"]]
      run_batches_ensures [where I = "\<lambda>_. True"] translation_step_ensures requests_no_fuel order_refl TrueI)

lemma faithful_answered:
  "ensures (translate_faithfully_with_source env g r provenance)
     (list_all2 (\<lambda>u. answers_faithfully env (fu_id u) (fu_source_english u)) (fq_utterances r))"
  unfolding translate_faithfully_with_source_def
  by (intro ensures_and_then [OF ensures_check_cancelled] ensures_and_then [OF ensures_checked [where P = "\<lambda>_. True"]]
      run_batches_ensures [where I = "\<lambda>_. True"] faithful_step_ensures requests_no_fuel order_refl TrueI)

section \<open>Repairs\<close>

lemma check_utterances_distinct:
  "check_utterances ids us = Inr () \<Longrightarrow> distinct (map fst us) \<and> set ids \<inter> set (map fst us) = {}"
  by (induction ids us rule: check_utterances.induct) (auto split: if_splits)

lemma repair_ids_distinct: "validate_repair_request r = Inr () \<Longrightarrow> distinct (map ru_id (rq_utterances r))"
  using check_utterances_distinct [of "[]" "map (\<lambda>u. (ru_id u, ru_source_english u)) (rq_utterances r)"]
  by (auto simp: validate_repair_request_def validate_spans_common_def comp_def)

lemma acceptable_preserves: "passes_checks source t \<Longrightarrow> preservation_issues source t = []"
  by (simp add: passes_checks_def preservation_none)

lemma recheck_preserves:
  "to_issues (recheck source x) = [] \<Longrightarrow> to_text (recheck source x) = Some t \<Longrightarrow> preservation_issues source t = []"
  by (auto simp: recheck_def split: option.splits)

lemma expected_source_nth:
  "distinct (map ex_id es) \<Longrightarrow> i < length es \<Longrightarrow> expected_source es (ex_id (es ! i)) = Some (ex_source_english (es ! i))"
proof (induction es arbitrary: i)
  case (Cons e es)
  then show ?case by (cases i) (auto simp: expected_source_def)
qed simp

lemma repair_batch_preserves:
  assumes "distinct (map ex_id es)" "i < length es"
    and "to_issues (parse_repair_batch_output answer es ! i) = []" "to_text (parse_repair_batch_output answer es ! i) = Some t" "\<not> blank_text t"
  shows "preservation_issues (ex_source_english (es ! i)) t = []"
proof (cases "\<exists>e. es = [e]")
  case True
  then show ?thesis using assms repair_valid acceptable_preserves by (auto simp: parse_repair_batch_output_def)
next
  case False
  then have "parse_repair_batch_output answer es = parse_numbered_repair_output answer es"
    by (auto simp: parse_repair_batch_output_def split: list.splits)
  moreover have "to_id (parse_numbered_output answer es ! i) = ex_id (es ! i)"
    using ids_nth [OF ids_numbered assms(2)] .
  ultimately have "parse_repair_batch_output answer es ! i = recheck (ex_source_english (es ! i)) (parse_numbered_output answer es ! i)"
    using assms(2) expected_source_nth [OF assms(1,2)] by (simp add: parse_numbered_repair_output_def)
  then show ?thesis using assms(3,4) recheck_preserves by simp
qed

lemma repair_answers:
  assumes "distinct (map ru_id us)"
  shows "list_all2 (\<lambda>u. answers_repair (ru_id u) (ru_source_english u)) us
     (with_termination how (parse_repair_batch_output answer (expected_repairs us)))"
proof (rule list_all2_nthI)
  let ?es = "expected_repairs us"
  let ?xs = "with_termination how (parse_repair_batch_output answer ?es)"
  have ids: "map to_id ?xs = map ex_id ?es" by (simp add: ids_with_termination ids_repair_batch)
  show len: "length us = length ?xs" using arg_cong [OF ids, of length] by (simp add: expected_repairs_def)
  fix i
  assume i: "i < length us"
  have "map ex_id ?es = map ru_id us" by (simp add: expected_repairs_def comp_def)
  then have es: "distinct (map ex_id ?es)" "i < length ?es" "ex_source_english (?es ! i) = ru_source_english (us ! i)"
    using assms i by (simp_all add: expected_repairs_def comp_def)
  have "to_id (?xs ! i) = ru_id (us ! i)" using ids_nth [OF ids, of i] i by (simp add: expected_repairs_def)
  moreover have "preservation_issues (ru_source_english (us ! i)) (the (to_text (?xs ! i))) = []" if valid: "outcome_valid (?xs ! i)"
  proof -
    let ?ys = "parse_repair_batch_output answer ?es"
    have "i < length ?ys" using i len by (simp add: with_termination_def)
    from valid_before_termination [OF valid this] obtain t where
      t: "to_text (?ys ! i) = Some t" "\<not> blank_text t" "to_issues (?ys ! i) = []" "?xs ! i = (?ys ! i)\<lparr>to_termination := Stop\<rparr>"
      by blast
    then show ?thesis using repair_batch_preserves [OF es(1,2) t(3,1,2)] es(3) by simp
  qed
  ultimately show "answers_repair (ru_id (us ! i)) (ru_source_english (us ! i)) (?xs ! i)" by (simp add: answers_repair_def)
qed

lemma repair_prepared_ensures:
  "distinct (map ru_id (rq_utterances r)) \<Longrightarrow> ensures (repair_prepared_batch g r options provenance)
     (list_all2 (\<lambda>u. answers_repair (ru_id u) (ru_source_english u)) (rq_utterances r))"
  unfolding repair_prepared_batch_def
  by (intro ensures_and_then [OF ensures_calls(3)] ensures_and_then [OF ensures_check_cancelled] ensures_give repair_answers)

lemma planned_distinct: "distinct (map i remaining) \<Longrightarrow> planned remaining us \<Longrightarrow> distinct (map i us)"
  by (auto simp: planned_def prefix_def)

lemma repair_step_ensures:
  "remaining \<noteq> [] \<Longrightarrow> distinct (map ru_id remaining) \<Longrightarrow> ensures (repair_step g r provenance remaining s)
     (\<lambda>(n, items, s'). 0 < n \<and> n \<le> length remaining
        \<and> list_all2 (\<lambda>u. answers_repair (ru_id u) (ru_source_english u)) (take n remaining) items)"
  unfolding repair_step_def
  by (rule ensures_and_then [OF ensures_check_cancelled], rule ensures_and_then [OF plan_repair_ensures])
    (auto intro!: ensures_and_then [OF repair_prepared_ensures] ensures_give simp: planned_take dest: planned_distinct)

lemma distinct_ids_drop: "distinct (map i us) \<Longrightarrow> distinct (map i (drop n us))"
  by (simp add: drop_map [symmetric])

lemma repair_answered:
  "ensures (repair_batch_with_source g r provenance)
     (list_all2 (\<lambda>u. answers_repair (ru_id u) (ru_source_english u)) (rq_utterances r))"
  unfolding repair_batch_with_source_def
  by (intro ensures_and_then [OF ensures_check_cancelled]
      ensures_and_then [OF ensures_checked [where P = "\<lambda>_. distinct (map ru_id (rq_utterances r))"]]
      run_batches_ensures [where I = "\<lambda>us. distinct (map ru_id us)"] repair_step_ensures requests_no_fuel order_refl)
    (auto intro: repair_ids_distinct distinct_ids_drop)

end
