(* ===== verification/Hsk_Run_Props.thy ===== *)
theory Hsk_Run_Props
  imports Hsk_Run_Laws "HOL-Library.Code_Target_Nat"
begin

text \<open>
  Properties of the translator as a whole: every span is answered, what is published while a request
  runs is what it returns, a batch is found whenever one span fits alone, and where the repair planner
  and the repair parser fall short of that.
\<close>

section \<open>A model that depends on its input only\<close>

text \<open>A generator whose counts, capacities and answers are functions of the texts it is given.\<close>

definition fixed_generator :: "(rstring \<Rightarrow> nat) \<Rightarrow> (rstring \<Rightarrow> rstring \<Rightarrow> nat) \<Rightarrow> (rstring \<Rightarrow> rstring \<Rightarrow> generation) \<Rightarrow> 'w generator" where
  "fixed_generator tokens capacity answer = \<lparr>ge_token_count = (\<lambda>t w. (Inr (tokens t), w)),
     ge_capacity = (\<lambda>s u w. (Inr (capacity s u), w)), ge_generate = (\<lambda>s u _ w. (Inr (answer s u), w)),
     ge_cancelled = (\<lambda>w. (False, w))\<rparr>"

lemma fixed_calls [simp]:
  "token_count (fixed_generator tokens capacity answer) t = give (tokens t)"
  "completion_capacity (fixed_generator tokens capacity answer) s u = give (capacity s u)"
  "generate_streaming (fixed_generator tokens capacity answer) s u options = give (answer s u)"
  "check_cancelled (fixed_generator tokens capacity answer) = give ()"
  by (simp_all add: fun_eq_iff fixed_generator_def token_count_def completion_capacity_def generate_streaming_def
      check_cancelled_def relabelled_def give_def)

lemma trim_context_fixed: "\<exists>x. trim_context (fixed_generator tokens capacity answer) us = give x"
  by (induction us) auto

lemma shrink_fixed:
  fixes g :: "'w generator"
  assumes "g = fixed_generator tokens capacity answer"
  shows "\<exists>x. shrink_source_context g p f = give x"
proof (induction "length p + length f" arbitrary: p f rule: less_induct)
  case less
  have "\<exists>x. (case evict_farthest_source_context p f of None \<Rightarrow> give (p, f)
      | Some (p', f') \<Rightarrow> shrink_source_context g p' f') = give x"
  proof (cases "evict_farthest_source_context p f")
    case (Some x)
    obtain p' f' where "x = (p', f')" by (cases x)
    then show ?thesis using less [of p' f'] evict_source_shrinks [of p f p' f'] Some by simp
  qed simp
  then show ?case by (subst shrink_source_context.simps) (auto simp: Let_def assms)
qed

lemma starting_context_fixed:
  fixes g :: "'w generator"
  assumes "g = fixed_generator tokens capacity answer"
  shows "\<exists>x. starting_context g rolling p f = give x"
proof -
  obtain ctx where ctx: "bounded_context g rolling = give ctx"
    using trim_context_fixed unfolding bounded_context_def assms by blast
  obtain pf where pf: "bounded_source_context g p f = give pf"
    using shrink_fixed [OF assms] unfolding bounded_source_context_def by blast
  show ?thesis unfolding starting_context_def ctx pf by (cases pf) auto
qed

text \<open>The inner loop stops at the first context that fits, and misses none if the empty one does.\<close>

lemma fit_context_fixed:
  "\<exists>x. fit_context budget (\<lambda>c. give (k c)) (ctx, p, f) = give x
     \<and> (case x of None \<Rightarrow> k ([], [], []) < budget | Some c \<Rightarrow> budget \<le> k c)"
proof (induction "length ctx + length p + length f" arbitrary: ctx p f rule: less_induct)
  case less
  show ?case
  proof (cases "budget \<le> k (ctx, p, f)")
    case True
    then show ?thesis by (subst fit_context.simps) simp
  next
    case False
    show ?thesis
    proof (cases ctx)
      case (Cons u ctx')
      then show ?thesis using False less [of ctx' p f] by (subst fit_context.simps) simp
    next
      case Nil
      show ?thesis
      proof (cases "evict_farthest_source_context p f")
        case None
        then show ?thesis using False Nil evict_none [of p f] by (subst fit_context.simps) simp
      next
        case (Some x)
        obtain p' f' where x: "x = (p', f')" by (cases x)
        then show ?thesis using less [of "[]" p' f'] evict_source_shrinks [of p f p' f'] Some False Nil
          by (subst fit_context.simps) simp
      qed
    qed
  qed
qed

section \<open>A batch is found\<close>

definition fits_alone :: "(rstring \<Rightarrow> rstring \<Rightarrow> nat) \<Rightarrow> translation_request \<Rightarrow> direct_provenance \<Rightarrow> source_utterance \<Rightarrow> bool" where
  "fits_alone capacity r provenance u \<longleftrightarrow> output_token_budget [su_source_english u] 1
     \<le> capacity (request_system_prompt (with_context r [u] ([], [], [])) provenance)
         (build_translation_prompt (with_context r [u] ([], [], [])))"

lemma attempt_fixed:
  fixes g :: "'w generator"
  assumes "g = fixed_generator tokens capacity answer"
  shows "\<exists>x. attempt_translation g r us rolling provenance n = give x
    \<and> (case x of None \<Rightarrow> n = 1 \<longrightarrow> us \<noteq> [] \<longrightarrow> \<not> fits_alone capacity r provenance (hd us)
       | Some (batch, options) \<Rightarrow> go_max_tokens options \<le> capacity (request_system_prompt batch provenance) (build_translation_prompt batch))"
proof -
  obtain ctx p f where start: "starting_context g rolling (tq_preceding_english r) (tq_following_english r) = give (ctx, p, f)"
    using starting_context_fixed [OF assms] by (metis surj_pair)
  let ?b = "output_token_budget (map su_source_english (take n us)) (length (take n us))"
  let ?k = "\<lambda>c. capacity (request_system_prompt (with_context r (take n us) c) provenance)
    (build_translation_prompt (with_context r (take n us) c))"
  obtain x where x: "fit_context ?b (\<lambda>c. give (?k c) :: ('w, translation_error, nat) action) (ctx, p, f) = give x"
      "case x of None \<Rightarrow> ?k ([], [], []) < ?b | Some c \<Rightarrow> ?b \<le> ?k c"
    using fit_context_fixed [of ?b ?k ctx p f] by blast
  have "attempt_translation g r us rolling provenance n = give (map_option (\<lambda>c. (with_context r (take n us) c, greedy ?b)) x)"
    using start x(1) by (simp add: attempt_translation_def assms Let_def del: length_take)
  moreover have "take n us = [hd us]" if "n = 1" "us \<noteq> []" using that by (cases us) auto
  ultimately show ?thesis using x(2) by (cases x) (auto simp: greedy_def fits_alone_def simp del: length_take)
qed

lemma plan_counts_fixed:
  assumes "\<And>k. \<exists>x. attempt k = give x \<and> (case x of None \<Rightarrow> k \<noteq> 1 | Some y \<Rightarrow> P y)" "0 < n"
  shows "\<exists>y. plan_counts failure attempt n = give y \<and> P y"
  using assms(2)
proof (induction n)
  case (Suc n)
  obtain x where x: "attempt (Suc n) = give x" "case x of None \<Rightarrow> Suc n \<noteq> 1 | Some y \<Rightarrow> P y" using assms(1) by blast
  then show ?case using Suc.IH by (cases x) auto
qed simp

lemma plan_fixed:
  fixes g :: "'w generator"
  assumes "g = fixed_generator tokens capacity answer" "us \<noteq> []" "fits_alone capacity r provenance (hd us)"
  shows "\<exists>batch options. plan_translation_subbatch g r us rolling provenance = give (batch, options)
    \<and> planned us (tq_utterances batch)
    \<and> go_max_tokens options \<le> capacity (request_system_prompt batch provenance) (build_translation_prompt batch)"
proof -
  have "\<exists>y. plan_translation_subbatch g r us rolling provenance = give y
      \<and> (case y of (batch, options) \<Rightarrow> go_max_tokens options \<le> capacity (request_system_prompt batch provenance) (build_translation_prompt batch))"
    unfolding plan_translation_subbatch_def
  proof (rule plan_counts_fixed)
    fix k
    obtain x where "attempt_translation g r us rolling provenance k = give x
        \<and> (case x of None \<Rightarrow> k = 1 \<longrightarrow> us \<noteq> [] \<longrightarrow> \<not> fits_alone capacity r provenance (hd us)
           | Some (batch, options) \<Rightarrow> go_max_tokens options \<le> capacity (request_system_prompt batch provenance) (build_translation_prompt batch))"
      using attempt_fixed [OF assms(1)] by blast
    then show "\<exists>x. attempt_translation g r us rolling provenance k = give x \<and> (case x of None \<Rightarrow> k \<noteq> 1
        | Some (batch, options) \<Rightarrow> go_max_tokens options \<le> capacity (request_system_prompt batch provenance) (build_translation_prompt batch))"
      using assms(2,3) by (cases x) auto
  qed (use assms(2) in \<open>simp add: batch_limit_def MAX_HSK_TRANSLATION_BATCH_def\<close>)
  then obtain batch options where y: "plan_translation_subbatch g r us rolling provenance = give (batch, options)"
      "go_max_tokens options \<le> capacity (request_system_prompt batch provenance) (build_translation_prompt batch)"
    by auto
  moreover have "planned us (tq_utterances batch)"
    using plan_translation_ensures [of g r us rolling provenance] y(1) by (auto simp: ensures_def)
  ultimately show ?thesis by blast
qed

text \<open>Claim C21: with a model that depends on its input only, the planner finds a batch whenever the first
  span fits on its own: a non-empty prefix of the spans left, at most six, whose answer fits the
  completion the model has room for.\<close>

theorem planner_finds_a_batch:
  fixes w :: 'w
  assumes "us \<noteq> []" "fits_alone capacity r provenance (hd us)"
  shows "\<exists>batch options. plan_translation_subbatch (fixed_generator tokens capacity answer) r us rolling provenance w = (Inr (batch, options), w)
    \<and> tq_utterances batch \<noteq> [] \<and> prefix (tq_utterances batch) us \<and> length (tq_utterances batch) \<le> 6
    \<and> go_max_tokens options \<le> capacity (request_system_prompt batch provenance) (build_translation_prompt batch)"
proof -
  obtain batch options where
      "plan_translation_subbatch (fixed_generator tokens capacity answer :: 'w generator) r us rolling provenance = give (batch, options)"
      "planned us (tq_utterances batch)"
      "go_max_tokens options \<le> capacity (request_system_prompt batch provenance) (build_translation_prompt batch)"
    using plan_fixed [OF refl assms, of tokens answer rolling] by blast
  then show ?thesis by (auto simp: planned_def MAX_HSK_TRANSLATION_BATCH_def give_def intro!: exI [of _ batch] exI [of _ options])
qed

definition plain_span :: "rstring \<Rightarrow> rstring \<Rightarrow> source_utterance" where
  "plain_span i t = \<lparr>su_id = i, su_kind = ProseSpan, su_source_english = t, su_faithful_chinese = [24456], su_layout = None\<rparr>"

definition plain_request :: "source_utterance list \<Rightarrow> translation_request" where
  "plain_request us = \<lparr>tq_requested_level = 3, tq_learning_mode = NaturalMode, tq_utterances = us,
     tq_preceding_utterances = [], tq_preceding_english = [], tq_following_english = []\<rparr>"

lemma output_budget_bound: "output_token_budget ts n \<le> 1024"
  by (simp add: output_token_budget_def Let_def MAX_OUTPUT_TOKENS_def)

lemma roomy_fits: "fits_alone (\<lambda>_ _. 1024) r provenance u"
  by (simp add: fits_alone_def output_budget_bound)

theorem planner_finds_a_batch_witness:
  "\<exists>batch options. plan_translation_subbatch (fixed_generator length (\<lambda>_ _. 1024) (\<lambda>_ _. \<lparr>gn_text = [], gn_termination = Stop\<rparr>))
       (plain_request [plain_span [97] [98]]) [plain_span [97] [98]] [] DomSource () = (Inr (batch, options), ())
    \<and> tq_utterances batch \<noteq> [] \<and> prefix (tq_utterances batch) [plain_span [97] [98]] \<and> length (tq_utterances batch) \<le> 6
    \<and> go_max_tokens options \<le> 1024"
  by (rule planner_finds_a_batch [where capacity = "\<lambda>_ _. 1024"]) (simp_all add: roomy_fits)

section \<open>A request is answered\<close>

text \<open>Claim C20: a translation that returns answers every span of the request, in order and under the
  span's own identifier, and an accepted answer has passed every check against its own source; the
  loop never runs out of spans to consume. The model's answers, its failures and the cancellation
  flag are arbitrary.\<close>

theorem request_answered_in_order:
  "case fst (translate_with_streaming_source g r provenance on_item w) of
     Inl e \<Rightarrow> e \<noteq> OutOfFuel
   | Inr items \<Rightarrow> list_all2 (\<lambda>u. answers_span (su_id u) (su_source_english u)) (tq_utterances r) items"
  using translation_answered [of g r provenance on_item] unfolding ensures_def by blast

text \<open>The same for the faithful translation, whose accepted answers also contain Chinese wherever
  the source has letters and carry only name records found in both texts.\<close>

theorem faithful_answered_in_order:
  "case fst (translate_faithfully_with_source env g r provenance w) of
     Inl e \<Rightarrow> e \<noteq> OutOfFuel
   | Inr items \<Rightarrow> list_all2 (\<lambda>u. answers_faithfully env (fu_id u) (fu_source_english u)) (fq_utterances r) items"
  using faithful_answered [of env g r provenance] unfolding ensures_def by blast

text \<open>The same for a repair, whose accepted answers keep numbers, question and length of their
  source; that they are free of Latin words and markers is not guaranteed (see the next theorem).\<close>

theorem repairs_answered_in_order:
  "case fst (repair_batch_with_source g r provenance w) of
     Inl e \<Rightarrow> e \<noteq> OutOfFuel
   | Inr items \<Rightarrow> list_all2 (\<lambda>u. answers_repair (ru_id u) (ru_source_english u)) (rq_utterances r) items"
  using repair_answered [of g r provenance] unfolding ensures_def by blast

definition two_spans :: "expected_utterance list" where
  "two_spans = [\<lparr>ex_id = lit ''a'', ex_source_english = lit ''A cat.''\<rparr>, \<lparr>ex_id = lit ''b'', ex_source_english = lit ''A dog.''\<rparr>]"

text \<open>The model repeats line 1, its first text in Latin letters.\<close>

definition repeated_answer :: "rstring" where
  "repeated_answer = lit ''1'' @ [9] @ lit ''cat mao'' @ [10] @ lit ''1'' @ [9, 29483, 10] @ lit ''2'' @ [9, 29399, 10]"

text \<open>In a repair of several spans an answer that repeats a line is accepted with its first text
  as it stands, Latin words included, while the primary translation rejects the same answer.\<close>

theorem repeated_repair_line_accepted:
  "map outcome_valid (with_termination Stop (parse_repair_batch_output repeated_answer two_spans)) = [True, True]
   \<and> to_text (hd (parse_repair_batch_output repeated_answer two_spans)) = Some (lit ''cat mao'')
   \<and> map outcome_valid (with_termination Stop (parse_numbered_output repeated_answer two_spans)) = [False, True]"
  by code_simp

section \<open>The repair planner\<close>

text \<open>A repair with one neighbouring span, and a model with room for the prompt only without it.\<close>

definition cramped_span :: repair_utterance where
  "cramped_span = \<lparr>ru_id = lit ''a'', ru_kind = ProseSpan, ru_source_english = lit ''A cat.'', ru_faithful_chinese = [29483],
     ru_layout = None, ru_rejected_chinese = None, ru_avoid_chinese = [], ru_problems = [lit ''too hard'']\<rparr>"

definition cramped_request :: repair_request where
  "cramped_request = \<lparr>rq_requested_level = 3, rq_learning_mode = NaturalMode, rq_utterances = [cramped_span],
     rq_preceding_utterances = [], rq_preceding_english = [lit ''A dog.''], rq_following_english = []\<rparr>"

definition cramped_capacity :: "rstring \<Rightarrow> rstring \<Rightarrow> nat" where
  "cramped_capacity system user = (if user = build_repair_batch_prompt (repair_with_context cramped_request [cramped_span] ([], [], [])) then 1024 else 0)"

lemma cramped_prompts_differ:
  "build_repair_batch_prompt (repair_with_context cramped_request [cramped_span] ([], [lit ''A dog.''], []))
     \<noteq> build_repair_batch_prompt (repair_with_context cramped_request [cramped_span] ([], [], []))"
  by (simp add: build_repair_batch_prompt_def repair_with_context_def cramped_request_def append_preceding_source_context_def
      source_context_part_def append_repair_context_def append_following_context_def)

lemma cramped_start:
  "starting_context (fixed_generator (\<lambda>_. 0) cramped_capacity answer) [] [lit ''A dog.''] [] = give ([], [lit ''A dog.''], [])"
proof -
  have "\<not> blank_text (lit ''A dog.'')" by code_simp
  then show ?thesis
    by (simp add: starting_context_def bounded_context_def bounded_source_context_def shrink_source_context.simps Let_def
        MAX_HSK_PRECEDING_UTTERANCES_def MAX_HSK_CONTEXT_TOKENS_def del: list.map)
qed

text \<open>The repair planner gives up on a span that would fit if its neighbouring span were left out:
  what it evicts is put back before the next attempt, and after the last count there is none.\<close>

theorem repair_planner_keeps_context:
  fixes w :: 'w
  shows "fst (plan_repair_subbatch (fixed_generator (\<lambda>_. 0) cramped_capacity answer) cramped_request [cramped_span] DomSource w) = Inl RepairSpanDoesNotFit
   \<and> output_token_budget [ru_source_english cramped_span] 1
       \<le> cramped_capacity system (build_repair_batch_prompt (repair_with_context cramped_request [cramped_span] ([], [], [])))"
proof
  have req: "rq_preceding_utterances cramped_request = []" "rq_preceding_english cramped_request = [lit ''A dog.'']"
    "rq_following_english cramped_request = []"
    by (simp_all add: cramped_request_def)
  have "0 < output_token_budget [ru_source_english cramped_span] (Suc 0)"
    by (simp add: output_token_budget_def Let_def MIN_OUTPUT_TOKENS_def MAX_OUTPUT_TOKENS_def)
  moreover have one: "map ru_source_english [cramped_span] = [ru_source_english cramped_span]" by simp
  ultimately have "attempt_repair (fixed_generator (\<lambda>_. 0) cramped_capacity answer :: 'w generator) cramped_request [cramped_span] DomSource (Suc 0) = give None"
    using cramped_prompts_differ one
    by (simp add: attempt_repair_def Let_def req cramped_start cramped_capacity_def del: list.map)
  then show "fst (plan_repair_subbatch (fixed_generator (\<lambda>_. 0) cramped_capacity answer) cramped_request [cramped_span] DomSource w)
      = Inl RepairSpanDoesNotFit"
    by (simp add: plan_repair_subbatch_def batch_limit_def MAX_HSK_TRANSLATION_BATCH_def give_up_def)
qed (simp add: cramped_capacity_def output_budget_bound)

section \<open>What is published\<close>

text \<open>The callback of the stream, seen as a log next to the model's hidden state.\<close>

definition on_log :: "('w \<Rightarrow> 'a \<times> 'w) \<Rightarrow> 'w \<times> 'l \<Rightarrow> 'a \<times> 'w \<times> 'l" where
  "on_log f wl = (case wl of (w, l) \<Rightarrow> (case f w of (r, w') \<Rightarrow> (r, w', l)))"

definition with_log :: "'w generator \<Rightarrow> ('w \<times> 'l) generator" where
  "with_log g = \<lparr>ge_token_count = (\<lambda>t. on_log (ge_token_count g t)), ge_capacity = (\<lambda>s u. on_log (ge_capacity g s u)),
     ge_generate = (\<lambda>s u options. on_log (ge_generate g s u options)), ge_cancelled = on_log (ge_cancelled g)\<rparr>"

definition log_item :: "'x \<Rightarrow> 'w \<times> 'x list \<Rightarrow> (rstring + unit) \<times> 'w \<times> 'x list" where
  "log_item x wl = (case wl of (w, l) \<Rightarrow> (Ok (), w, l @ [x]))"

definition publishes :: "('w \<times> translation_outcome list, 'e, 'a) action \<Rightarrow> (translation_outcome list \<Rightarrow> 'a \<Rightarrow> bool) \<Rightarrow> bool" where
  "publishes m D \<longleftrightarrow> (\<forall>w l. case m (w, l) of (r, w', l') \<Rightarrow>
     \<exists>d. l' = l @ d \<and> list_all outcome_valid d \<and> (case r of Inl e \<Rightarrow> True | Inr x \<Rightarrow> D d x))"

lemma publishesD:
  assumes "publishes m D" "m (w, l) = (r, w', l')"
  obtains d where "l' = l @ d" "list_all outcome_valid d" "case r of Inl e \<Rightarrow> True | Inr x \<Rightarrow> D d x"
  using assms(1) [unfolded publishes_def, THEN spec, of w, THEN spec, of l] assms(2) that by auto

lemma publishes_give: "D [] x \<Longrightarrow> publishes (give x) D"
  by (auto simp: publishes_def give_def)

lemma publishes_give_up: "publishes (give_up e) D"
  by (auto simp: publishes_def give_up_def)

lemma publishes_checked: "(\<And>x. D [] x) \<Longrightarrow> publishes (checked r) D"
  by (auto simp: publishes_def checked_def split: sum.splits)

lemma publishes_and_then:
  assumes "publishes m D" "\<And>x d. D d x \<Longrightarrow> publishes (f x) (\<lambda>d' y. R (d @ d') y)"
  shows "publishes (and_then m f) R"
  unfolding publishes_def
proof (intro allI)
  fix w l
  obtain r w1 l1 where m: "m (w, l) = (r, w1, l1)" by (metis surj_pair)
  obtain d where d: "l1 = l @ d" "list_all outcome_valid d" "case r of Inl e \<Rightarrow> True | Inr x \<Rightarrow> D d x"
    by (rule publishesD [OF assms(1) m])
  show "case and_then m f (w, l) of (r, w', l') \<Rightarrow>
     \<exists>d. l' = l @ d \<and> list_all outcome_valid d \<and> (case r of Inl e \<Rightarrow> True | Inr x \<Rightarrow> R d x)"
  proof (cases r)
    case (Inr x)
    obtain r2 w2 l2 where f: "f x (w1, l1) = (r2, w2, l2)" by (metis surj_pair)
    have "publishes (f x) (\<lambda>d' y. R (d @ d') y)" using assms(2) d(3) Inr by simp
    from this f obtain d' where "l2 = l1 @ d'" "list_all outcome_valid d'" "case r2 of Inl e \<Rightarrow> True | Inr y \<Rightarrow> R (d @ d') y"
      by (rule publishesD)
    then show ?thesis using m d f Inr by (auto simp: and_then_def intro: exI [of _ "d @ d'"])
  qed (use m d in \<open>auto simp: and_then_def\<close>)
qed

lemma publishes_silent:
  "publishes (token_count (with_log g) t) (\<lambda>d _. d = [])" "publishes (completion_capacity (with_log g) s u) (\<lambda>d _. d = [])"
  "publishes (generate_streaming (with_log g) s u options) (\<lambda>d _. d = [])" "publishes (check_cancelled (with_log g)) (\<lambda>d _. d = [])"
  by (auto simp: publishes_def with_log_def on_log_def token_count_def completion_capacity_def generate_streaming_def
      check_cancelled_def relabelled_def split: prod.splits sum.splits)

lemma publishes_silent_then:
  "publishes m (\<lambda>d _. d = []) \<Longrightarrow> (\<And>x. publishes (f x) R) \<Longrightarrow> publishes (and_then m f) R"
  by (erule publishes_and_then) simp

lemma trim_context_silent: "publishes (trim_context (with_log g) us) (\<lambda>d _. d = [])"
  by (induction us) (auto intro!: publishes_give publishes_silent_then [OF publishes_silent(1)])

lemma shrink_silent: "publishes (shrink_source_context (with_log g) p f) (\<lambda>d _. d = [])"
proof (induction "length p + length f" arbitrary: p f rule: less_induct)
  case less
  have "publishes (case evict_farthest_source_context p f of None \<Rightarrow> give (p, f)
      | Some (p', f') \<Rightarrow> shrink_source_context (with_log g) p' f') (\<lambda>d _. d = [])"
  proof (cases "evict_farthest_source_context p f")
    case (Some x)
    obtain p' f' where "x = (p', f')" by (cases x)
    then show ?thesis using less [of p' f'] evict_source_shrinks [of p f p' f'] Some by simp
  qed (simp add: publishes_give)
  then show ?case
    by (subst shrink_source_context.simps) (auto simp: Let_def intro!: publishes_give publishes_silent_then [OF publishes_silent(1)])
qed

lemma starting_context_silent: "publishes (starting_context (with_log g) rolling p f) (\<lambda>d _. d = [])"
  unfolding starting_context_def bounded_context_def bounded_source_context_def
  by (auto intro!: publishes_silent_then [OF trim_context_silent] publishes_silent_then [OF shrink_silent] publishes_give split: prod.splits)

lemma fit_context_silent:
  assumes "\<And>c. publishes (capacity c) (\<lambda>d _. d = [])"
  shows "publishes (fit_context budget capacity (ctx, p, f)) (\<lambda>d _. d = [])"
proof (induction "length ctx + length p + length f" arbitrary: ctx p f rule: less_induct)
  case less
  have rest: "publishes (case ctx of _ # ctx' \<Rightarrow> fit_context budget capacity (ctx', p, f)
             | [] \<Rightarrow> (case evict_farthest_source_context p f of
                        Some (p', f') \<Rightarrow> fit_context budget capacity ([], p', f')
                      | None \<Rightarrow> give None)) (\<lambda>d _. d = [])"
  proof (cases ctx)
    case Nil
    then show ?thesis using less [of "[]"] evict_source_shrinks [of p f]
      by (cases "evict_farthest_source_context p f") (auto intro!: publishes_give)
  qed (use less in simp)
  then show ?case
    by (subst fit_context.simps) (auto intro!: publishes_silent_then [OF assms] publishes_give)
qed

lemma plan_counts_silent:
  "(\<And>k. publishes (attempt k) (\<lambda>d _. d = [])) \<Longrightarrow> publishes (plan_counts failure attempt n) (\<lambda>d _. d = [])"
  by (induction n) (auto intro!: publishes_give_up publishes_silent_then publishes_give split: option.splits)

lemma plan_translation_silent: "publishes (plan_translation_subbatch (with_log g) r us rolling provenance) (\<lambda>d _. d = [])"
  unfolding plan_translation_subbatch_def attempt_translation_def Let_def
  by (rule plan_counts_silent, rule publishes_silent_then [OF starting_context_silent])
    (auto intro!: publishes_silent_then [OF fit_context_silent] publishes_silent(2) publishes_give)

lemma for_each_logs:
  "list_all outcome_valid xs \<Longrightarrow> publishes (for_each (\<lambda>x. relabelled CallbackFailed (log_item x)) xs) (\<lambda>d _. d = xs)"
proof (induction xs)
  case (Cons x xs)
  have "publishes (relabelled CallbackFailed (log_item x)) (\<lambda>d _. d = [x])"
    using Cons.prems by (auto simp: publishes_def relabelled_def log_item_def)
  then show ?case using Cons unfolding for_each.simps
    by (auto intro!: publishes_and_then)
qed (simp add: publishes_give)

lemma translation_step_publishes:
  "publishes (translation_step (with_log g) r provenance log_item us rolling) (\<lambda>d (n, items, s). d = filter outcome_valid items)"
  unfolding translation_step_def translate_prepared_request_streaming_def Let_def
  apply (rule publishes_silent_then [OF publishes_silent(4)], rule publishes_silent_then [OF plan_translation_silent])
  apply (clarify, rule publishes_and_then [where D = "\<lambda>d items. d = filter outcome_valid items"])
  by (auto intro!: publishes_silent_then [OF publishes_silent(3)] publishes_silent_then [OF publishes_silent(4)]
      publishes_and_then [OF for_each_logs] publishes_give simp: list_all_iff)

lemma run_batches_publishes:
  "(\<And>us s. publishes (step us s) (\<lambda>d (n, items, s). d = filter outcome_valid items))
    \<Longrightarrow> publishes (run_batches fuel step us s) (\<lambda>d items. d = filter outcome_valid items)"
proof (induction fuel arbitrary: us s)
  case 0
  then show ?case by (cases us) (auto intro: publishes_give publishes_give_up)
next
  case (Suc fuel)
  show ?case
  proof (cases us)
    case (Cons u us')
    show ?thesis unfolding Cons run_batches.simps
      by (rule publishes_and_then [OF Suc.prems])
        (auto intro!: publishes_and_then [OF Suc.IH [OF Suc.prems]] publishes_give)
  qed (simp add: publishes_give)
qed

lemma translation_publishes:
  "publishes (translate_with_streaming_source (with_log g) r provenance log_item) (\<lambda>d items. d = filter outcome_valid items)"
  unfolding translate_with_streaming_source_def
  by (rule publishes_silent_then [OF publishes_silent(4)], rule publishes_silent_then [OF publishes_checked])
    (auto intro: run_batches_publishes translation_step_publishes)

text \<open>What the callback of a streamed translation receives are exactly the valid outcomes of the
  result, in order and each once; when the request fails or is cancelled half way, what was published
  before stays published and is valid.\<close>

theorem stream_publishes_the_result:
  "case translate_with_streaming_source (with_log g) r provenance log_item (w, l) of
     (Inl e, w', l') \<Rightarrow> prefix l l' \<and> list_all outcome_valid (drop (length l) l')
   | (Inr items, w', l') \<Rightarrow> l' = l @ filter outcome_valid items"
proof -
  obtain x w' l' where run: "translate_with_streaming_source (with_log g) r provenance log_item (w, l) = (x, w', l')"
    by (metis surj_pair)
  from translation_publishes this show ?thesis by (rule publishesD) (auto simp: run split: sum.splits)
qed

section \<open>Answers that keep the protocol\<close>

definition readable :: "rstring list \<Rightarrow> expected_utterance list \<Rightarrow> bool" where
  "readable ts expected \<longleftrightarrow> length ts = length expected \<and> length expected \<le> U64_MAX
     \<and> list_all2 (\<lambda>t e. one_line t \<and> compact_words t \<noteq> compact_words (ex_source_english e)) ts expected"

text \<open>Claim C22: an answer with one numbered line per span, in any order of the lines, is read back text by
  text: every span is judged by its own line.\<close>

theorem any_line_order_is_read:
  assumes "distinct order" "set order = {..< length expected}" "readable ts expected"
  shows "parse_numbered_output (protocol_answer order ts) expected = map2 candidate_outcome expected ts"
proof (rule nth_equalityI)
  have len: "length ts = length expected" using assms(3) by (simp add: readable_def)
  show "length (parse_numbered_output (protocol_answer order ts) expected) = length (map2 candidate_outcome expected ts)"
    by (simp add: len)
  fix i
  assume "i < length (parse_numbered_output (protocol_answer order ts) expected)"
  then have i: "i < length expected" by simp
  have "parse_numbered_output (protocol_answer order ts) expected ! i = candidate_outcome (expected ! i) (ts ! i)"
    by (rule protocol_answer_parsed [OF assms(1,2)]) (use assms(3) i in \<open>auto simp: readable_def list_all2_conv_all_nth\<close>)
  then show "parse_numbered_output (protocol_answer order ts) expected ! i = map2 candidate_outcome expected ts ! i"
    using i len by simp
qed

theorem any_line_order_is_read_witness:
  "parse_numbered_output (protocol_answer [1, 0] [[29483], [29399]]) two_spans = map2 candidate_outcome two_spans [[29483], [29399]]"
proof (rule any_line_order_is_read)
  show "readable [[29483], [29399]] two_spans" by code_simp
  show "set [1, 0] = {..< length two_spans}" by (auto simp: two_spans_def)
qed simp

end
