(* ===== verification/Document_Pieces.thy ===== *)
theory Document_Pieces
  imports Contracts_Jobs Word_Trie "HOL-Library.Product_Lexorder"
begin

text \<open>
  The document scheduler of \<open>browser-companion/src/pipeline_adapter.rs\<close>: how a block is cut into pieces the
  model can take, which neighbours of a piece go into its context, and which pieces are translated
  next. The tokenizer and the sentence segmenter (both third-party) are parameters: the one a function
  from a text to its number of tokens or an error, the other to the positions of the sentence
  boundaries, which are positions of characters here. Sums of token counts never leave \<open>usize\<close>, so that
  \<open>saturating_add\<close> is \<open>+\<close>.
\<close>

section \<open>Pieces\<close>

record document_piece =
  dp_piece_id :: rstring
  dp_block_index :: nat
  dp_piece_order :: nat
  dp_source_text :: rstring
  dp_separator_after :: rstring
  dp_kind :: source_span_kind
  dp_token_count :: nat

record document_context_span =
  cx_piece_id :: "rstring option"
  cx_source_text :: rstring
  cx_separator_after :: rstring
  cx_token_count :: nat

definition span_of_piece :: "document_piece \<Rightarrow> document_context_span" where
  "span_of_piece p = \<lparr>cx_piece_id = Some (dp_piece_id p), cx_source_text = dp_source_text p,
     cx_separator_after = dp_separator_after p, cx_token_count = dp_token_count p\<rparr>"

definition DOCUMENT_BATCH_MAX :: nat where "DOCUMENT_BATCH_MAX = 6"
definition DOCUMENT_PIECE_TOKEN_BUDGET :: nat where "DOCUMENT_PIECE_TOKEN_BUDGET = 320"
definition DOCUMENT_BATCH_TOKEN_BUDGET :: nat where "DOCUMENT_BATCH_TOKEN_BUDGET = 1800"
definition DOCUMENT_CONTEXT_TOKEN_BUDGET :: nat where "DOCUMENT_CONTEXT_TOKEN_BUDGET = 512"
definition MAX_CONTEXT_SPANS :: nat where "MAX_CONTEXT_SPANS = 6"

type_synonym tokenizer = "rstring \<Rightarrow> rstring + nat"

definition model_token_count :: "tokenizer \<Rightarrow> rstring \<Rightarrow> rstring + nat" where
  "model_token_count tokens t = (case tokens t of
     Err e \<Rightarrow> Err (lit ''count document source tokens: '' @ e) | Ok n \<Rightarrow> Ok n)"

definition piece_id_of :: "rstring \<Rightarrow> nat \<Rightarrow> rstring" where
  "piece_id_of item_id order = item_id @ lit ''::'' @ lit (show_nat order)"

fun segments :: "rstring \<Rightarrow> nat list \<Rightarrow> rstring list" where
  "segments t (a # b # bs) = char_slice t a b # segments t (b # bs)"
| "segments t _ = []"

definition sentence_too_long :: rstring where
  "sentence_too_long = lit ''one sentence exceeds the resident language context and cannot be split safely''"

definition no_sentence_boundary :: rstring where
  "no_sentence_boundary = lit ''the oversized block has no safe ICU sentence boundary for translation''"

fun collect_sentences :: "tokenizer \<Rightarrow> rstring list \<Rightarrow> rstring + rstring list" where
  "collect_sentences tokens [] = Ok []"
| "collect_sentences tokens (s # ss) =
     (if trim s = [] then collect_sentences tokens ss
      else try_bind (model_token_count tokens s) (\<lambda>n.
        if DOCUMENT_PIECE_TOKEN_BUDGET < n then Err sentence_too_long
        else try_bind (collect_sentences tokens ss) (\<lambda>rest. Ok (s # rest))))"

definition overflows :: "tokenizer \<Rightarrow> rstring \<Rightarrow> rstring \<Rightarrow> rstring + bool" where
  "overflows tokens current sentence =
     (if current = [] then Ok False
      else try_bind (model_token_count tokens (current @ sentence)) (\<lambda>n. Ok (DOCUMENT_PIECE_TOKEN_BUDGET < n)))"

fun pack_sentences :: "tokenizer \<Rightarrow> rstring \<Rightarrow> rstring list \<Rightarrow> rstring + rstring list" where
  "pack_sentences tokens current [] = Ok (if current = [] then [] else [current])"
| "pack_sentences tokens current (s # ss) =
     try_bind (overflows tokens current s) (\<lambda>full.
       if full then try_bind (pack_sentences tokens s ss) (\<lambda>chunks. Ok (current # chunks))
       else pack_sentences tokens (current @ s) ss)"

definition piece_of_chunk :: "tokenizer \<Rightarrow> nat \<Rightarrow> document_source_block \<Rightarrow> nat \<Rightarrow> rstring \<Rightarrow> rstring + document_piece" where
  "piece_of_chunk tokens block_index b order source =
     (let trimmed = trim_end source in
      try_bind (model_token_count tokens trimmed) (\<lambda>n.
        Ok \<lparr>dp_piece_id = piece_id_of (sb_item_id b) order, dp_block_index = block_index, dp_piece_order = order,
            dp_source_text = trimmed, dp_separator_after = filter (\<lambda>c. c = 10) (drop (length trimmed) source),
            dp_kind = sb_kind b, dp_token_count = n\<rparr>))"

fun pieces_of_chunks :: "tokenizer \<Rightarrow> nat \<Rightarrow> document_source_block \<Rightarrow> nat \<Rightarrow> rstring list \<Rightarrow> rstring + document_piece list" where
  "pieces_of_chunks tokens block_index b order [] = Ok []"
| "pieces_of_chunks tokens block_index b order (c # cs) =
     try_bind (piece_of_chunk tokens block_index b order c) (\<lambda>p.
     try_bind (pieces_of_chunks tokens block_index b (order + 1) cs) (\<lambda>ps. Ok (p # ps)))"

definition split_document_block ::
  "tokenizer \<Rightarrow> (rstring \<Rightarrow> nat list) \<Rightarrow> nat \<Rightarrow> document_source_block \<Rightarrow> rstring + document_piece list" where
  "split_document_block tokens segment block_index b =
     try_bind (model_token_count tokens (sb_text b)) (\<lambda>n.
       if n \<le> DOCUMENT_PIECE_TOKEN_BUDGET
       then Ok [\<lparr>dp_piece_id = piece_id_of (sb_item_id b) 0, dp_block_index = block_index, dp_piece_order = 0,
                 dp_source_text = sb_text b, dp_separator_after = [], dp_kind = sb_kind b, dp_token_count = n\<rparr>]
       else try_bind (collect_sentences tokens (segments (sb_text b) (segment (sb_text b)))) (\<lambda>sentences.
         if length sentences < 2 then Err no_sentence_boundary
         else try_bind (pack_sentences tokens [] sentences) (pieces_of_chunks tokens block_index b 0)))"

section \<open>The context of a piece\<close>

text \<open>
  The code walks with an index to the left and to the right; the spans that index still has before it,
  nearest first, are the list here, and the list is empty where the index is \<open>None\<close>.
\<close>

definition span_text :: "document_context_span \<Rightarrow> rstring" where
  "span_text s = cx_source_text s @ cx_separator_after s"

definition take_span :: "nat \<Rightarrow> document_context_span list \<Rightarrow> nat \<times> rstring list \<times> document_context_span list" where
  "take_span used spans = (case spans of
     [] \<Rightarrow> (used, [], [])
   | s # rest \<Rightarrow> if used + cx_token_count s \<le> DOCUMENT_CONTEXT_TOKEN_BUDGET
        then (used + cx_token_count s, [span_text s], rest) else (used, [], []))"

lemma take_span_shorter [dest]: "(used', taken, rest) = take_span used spans \<Longrightarrow> length rest \<le> length spans - 1"
  by (auto simp: take_span_def split: list.splits if_splits)

function gather_neighbours :: "nat \<Rightarrow> rstring list \<Rightarrow> rstring list \<Rightarrow> document_context_span list
    \<Rightarrow> document_context_span list \<Rightarrow> rstring list \<times> rstring list" where
  "gather_neighbours used earlier following left right =
     (if length earlier + length following < MAX_CONTEXT_SPANS \<and> (left \<noteq> [] \<or> right \<noteq> [])
      then (case take_span used left of (used1, taken1, left1) \<Rightarrow>
        if MAX_CONTEXT_SPANS \<le> length (earlier @ taken1) + length following then (earlier @ taken1, following)
        else (case take_span used1 right of (used2, taken2, right2) \<Rightarrow>
          gather_neighbours used2 (earlier @ taken1) (following @ taken2) left1 right2))
      else (earlier, following))"
  by pat_completeness auto
termination
  by (relation "measure (\<lambda>(used, earlier, following, left, right). length left + length right)")
    (auto simp: neq_Nil_conv dest!: take_span_shorter)

declare gather_neighbours.simps [simp del]

definition positions_of :: "document_context_span list \<Rightarrow> rstring list \<Rightarrow> nat list" where
  "positions_of plan ids =
     filter (\<lambda>i. case cx_piece_id (plan ! i) of None \<Rightarrow> False | Some p \<Rightarrow> p \<in> set ids) [0..<length plan]"

fun consecutive :: "nat list \<Rightarrow> bool" where
  "consecutive (a # b # rest) \<longleftrightarrow> b = a + 1 \<and> consecutive (b # rest)"
| "consecutive _ \<longleftrightarrow> True"

definition document_piece_neighbor_context ::
  "document_context_span list \<Rightarrow> document_piece list \<Rightarrow> rstring + (rstring list \<times> rstring list)" where
  "document_piece_neighbor_context plan batch =
     (if batch = [] then Err (lit ''document context requires a non-empty batch'')
      else let positions = positions_of plan (map dp_piece_id batch) in
        if length positions \<noteq> length batch \<or> \<not> consecutive positions
        then Err (lit ''document scheduler selected a non-canonical piece window'')
        else (case gather_neighbours 0 [] [] (rev (take (hd positions) plan)) (drop (last positions + 1) plan) of
                (earlier, following) \<Rightarrow> Ok (rev earlier, following)))"

section \<open>The next batch\<close>

definition piece_key :: "document_piece \<Rightarrow> nat \<times> nat" where
  "piece_key p = (dp_block_index p, dp_piece_order p)"

definition is_visible :: "document_source_block list \<Rightarrow> rstring set \<Rightarrow> nat \<Rightarrow> bool" where
  "is_visible blocks visible i \<longleftrightarrow> sb_item_id (blocks ! i) \<in> visible"

definition priority_block :: "document_piece list \<Rightarrow> document_source_block list \<Rightarrow> rstring set \<Rightarrow> nat option" where
  "priority_block remaining blocks visible =
     List.find (\<lambda>i. is_visible blocks visible i \<and> list_ex (\<lambda>p. dp_block_index p = i) remaining) [0..<length blocks]"

text \<open>\<open>skip(start)\<close>: the position of the first piece of the block, or 0.\<close>

definition from_block :: "nat option \<Rightarrow> document_piece list \<Rightarrow> document_piece list" where
  "from_block priority remaining = (case priority of
     None \<Rightarrow> remaining
   | Some i \<Rightarrow> if list_ex (\<lambda>p. dp_block_index p = i) remaining
               then dropWhile (\<lambda>p. dp_block_index p \<noteq> i) remaining else remaining)"

definition follows_piece :: "document_piece \<Rightarrow> document_piece \<Rightarrow> bool" where
  "follows_piece q p \<longleftrightarrow>
     dp_block_index p = dp_block_index q \<and> dp_piece_order p = dp_piece_order q + 1
     \<or> dp_block_index p = dp_block_index q + 1 \<and> dp_piece_order p = 0"

definition out_of_focus :: "document_source_block list \<Rightarrow> rstring set \<Rightarrow> bool \<Rightarrow> nat option \<Rightarrow> document_piece \<Rightarrow> bool" where
  "out_of_focus blocks visible isolate priority p = (case priority of
     None \<Rightarrow> False
   | Some i \<Rightarrow> \<not> is_visible blocks visible (dp_block_index p) \<or> isolate \<and> dp_block_index p \<noteq> i)"

fun select_pieces :: "(document_piece \<Rightarrow> bool) \<Rightarrow> document_piece option \<Rightarrow> nat \<Rightarrow> nat \<Rightarrow> document_piece list \<Rightarrow> document_piece list" where
  "select_pieces excluded previous n tokens [] = []"
| "select_pieces excluded previous n tokens (p # ps) =
     (if excluded p then []
      else if (case previous of None \<Rightarrow> False | Some q \<Rightarrow> \<not> follows_piece q p) then []
      else if previous \<noteq> None \<and> (DOCUMENT_BATCH_MAX \<le> n \<or> DOCUMENT_BATCH_TOKEN_BUDGET < tokens + dp_token_count p) then []
      else p # select_pieces excluded (Some p) (n + 1) (tokens + dp_token_count p) ps)"

definition take_next_document_batch :: "document_piece list \<Rightarrow> document_source_block list \<Rightarrow> rstring set \<Rightarrow> bool
    \<Rightarrow> (document_piece list \<times> rstring) \<times> document_piece list" where
  "take_next_document_batch remaining blocks visible isolate =
     (let sorted = sort_key piece_key remaining;
          priority = priority_block sorted blocks visible;
          selected = select_pieces (out_of_focus blocks visible isolate priority) None 0 0 (from_block priority sorted);
          ids = map dp_piece_id selected
      in ((selected, if priority = None then lit ''ordered'' else lit ''visible''),
          filter (\<lambda>p. dp_piece_id p \<notin> set ids) sorted))"

end
