(* ===== verification/Float32_Arith.thy ===== *)
theory Float32_Arith
  imports Float32 "HOL-Library.Code_Target_Nat"
begin

text \<open>
  Conversions, products and quotients of \<open>f32\<close>. A finite magnitude is a mantissa times a power of two,
  in units of \<open>2^-149\<close>; the exact result of an operation is a fraction times a power of two, rounded once
  to nearest, ties to even.
\<close>

section \<open>Rounding a scaled fraction\<close>

text \<open>How often a number is halved to fit 24 bits, found by bisection; it is below \<open>2^151\<close>.\<close>

fun excess_by :: "nat list \<Rightarrow> nat \<Rightarrow> nat" where
  "excess_by [] n = 0"
| "excess_by (j # js) n = (if 2 ^ (23 + j) \<le> n then j + excess_by js (n div 2 ^ j) else excess_by js n)"

definition excess_levels :: "nat list" where
  "excess_levels = [64, 32, 16, 8, 4, 2, 1]"

text \<open>
  The magnitude nearest to \<open>n / d * 2^e\<close> units, for \<open>d < 2^24\<close>. The fraction is scaled up so that its integer
  part has more than 24 bits. A result below \<open>2^23\<close> units is subnormal and rounded to a whole unit.
\<close>

definition round_scaled :: "nat \<Rightarrow> nat \<Rightarrow> int \<Rightarrow> nat" where
  "round_scaled n d e =
     (let m = n * 2 ^ 48; k = excess_by excess_levels (m div d); e' = e - 48 + int k
      in if n = 0 then 0
         else min (if 0 \<le> e' then half_even m (d * 2 ^ k) + nat e' * 8388608
                   else half_even m (d * 2 ^ nat (48 - e))) f32_inf_mag)"

definition mantissa :: "nat \<Rightarrow> nat" where
  "mantissa mag = (if mag < 8388608 then mag else 8388608 + mag mod 8388608)"

definition exponent :: "nat \<Rightarrow> int" where
  "exponent mag = (if mag < 8388608 then 0 else int (mag div 8388608) - 1)"

definition f32_signed :: "bool \<Rightarrow> nat \<Rightarrow> f32" where
  "f32_signed negative mag = of_nat ((if negative then 2147483648 else 0) + mag)"

section \<open>Operations\<close>

text \<open>\<open>as f32\<close> of an unsigned integer of at most 64 bits.\<close>

definition f32_of_nat :: "nat \<Rightarrow> f32" where
  "f32_of_nat n = of_nat (round_scaled n 1 149)"

definition f32_mul :: "f32 \<Rightarrow> f32 \<Rightarrow> f32" where
  "f32_mul x y =
     (let negative = (f32_negative x \<noteq> f32_negative y) in
      if f32_is_nan x \<or> f32_is_nan y then f32_nan
      else if \<not> f32_is_finite x \<or> \<not> f32_is_finite y
        then (if f32_mag x = 0 \<or> f32_mag y = 0 then f32_nan else f32_signed negative f32_inf_mag)
      else f32_signed negative (round_scaled (mantissa (f32_mag x) * mantissa (f32_mag y)) 1
             (exponent (f32_mag x) + exponent (f32_mag y) - 149)))"

definition f32_div :: "f32 \<Rightarrow> f32 \<Rightarrow> f32" where
  "f32_div x y =
     (let negative = (f32_negative x \<noteq> f32_negative y) in
      if f32_is_nan x \<or> f32_is_nan y then f32_nan
      else if \<not> f32_is_finite x then (if \<not> f32_is_finite y then f32_nan else f32_signed negative f32_inf_mag)
      else if \<not> f32_is_finite y then f32_signed negative 0
      else if f32_mag y = 0 then (if f32_mag x = 0 then f32_nan else f32_signed negative f32_inf_mag)
      else f32_signed negative (round_scaled (mantissa (f32_mag x)) (mantissa (f32_mag y))
             (exponent (f32_mag x) - exponent (f32_mag y) + 149)))"

definition f32_share :: "nat \<Rightarrow> nat \<Rightarrow> f32" where
  "f32_share a b = f32_div (f32_of_nat a) (f32_of_nat b)"

text \<open>IEEE 754 results: 5, 1/3, 0.9 * 2, the first integer that is no \<open>f32\<close>, and the least positive number halved.\<close>

lemma f32_samples:
  "f32_of_nat 5 = 1084227584" "f32_share 1 3 = 1051372203" "f32_mul 1063675494 (f32_of_nat 2) = 1072064102"
  "f32_of_nat 16777217 = f32_of_nat 16777216" "f32_div 1 (f32_of_nat 2) = 0"
  by code_simp+

section \<open>Shares\<close>

lemma excess_by_low: "excess_by js n = 0 \<or> 2 ^ (23 + excess_by js n) \<le> n"
proof (induction js n rule: excess_by.induct)
  case (2 j js n)
  show ?case
  proof (cases "2 ^ (23 + j) \<le> n")
    case True
    from 2(1) [OF True] show ?thesis
    proof
      assume "2 ^ (23 + excess_by js (n div 2 ^ j)) \<le> n div 2 ^ j"
      then have "2 ^ (23 + excess_by js (n div 2 ^ j)) * 2 ^ j \<le> n"
        by (meson div_times_less_eq_dividend le_trans mult_le_mono1)
      then show ?thesis using True by (simp add: power_add ac_simps)
    qed (use True in simp)
  qed (use 2(2) in simp)
qed simp

fun halving :: "nat list \<Rightarrow> bool" where
  "halving [] \<longleftrightarrow> True"
| "halving (j # js) \<longleftrightarrow> j = sum_list js + 1 \<and> halving js"

lemma excess_by_high: "halving js \<Longrightarrow> n < 2 ^ (24 + sum_list js) \<Longrightarrow> n < 2 ^ (24 + excess_by js n)"
proof (induction js n rule: excess_by.induct)
  case (2 j js n)
  show ?case
  proof (cases "2 ^ (23 + j) \<le> n")
    case True
    have "n < 2 ^ (24 + sum_list js) * 2 ^ j" using 2(4) by (simp add: power_add ac_simps)
    then have "n div 2 ^ j < 2 ^ (24 + sum_list js)" by (simp add: less_mult_imp_div_less)
    then have "n div 2 ^ j < 2 ^ (24 + excess_by js (n div 2 ^ j))" using 2(1) [OF True] 2(3) by simp
    then have "n < 2 ^ (24 + excess_by js (n div 2 ^ j)) * 2 ^ j" by (simp add: div_less_iff_less_mult)
    then show ?thesis using True by (simp add: power_add ac_simps)
  next
    case False
    then have "n < 2 ^ (24 + sum_list js)" using 2(3) by simp
    then show ?thesis using 2(2) [OF False] 2(3) False by simp
  qed
qed simp

text \<open>The number of halvings is the one that leaves exactly 24 bits.\<close>

lemma excess_exact:
  assumes "2 ^ 23 \<le> n" "n < 2 ^ 151"
  shows "2 ^ (23 + excess_by excess_levels n) \<le> n \<and> n < 2 ^ (24 + excess_by excess_levels n)"
proof -
  have "halving excess_levels" "n < 2 ^ (24 + sum_list excess_levels)" using assms(2) by (simp_all add: excess_levels_def)
  then show ?thesis using excess_by_low [of excess_levels n] excess_by_high assms(1) by auto
qed

end
