(* ===== verification/Translation_State.thy ===== *)
theory Translation_State
  imports Hsk_Validate Hsk_Prompts Float32_Arith
begin

text \<open>
  One translation on its way to publication (\<open>browser-companion/src/pipeline_adapter.rs\<close>): the value that
  is cached, the state that a primary answer and one repair go through, and the teaching metadata that
  is read off a validation report. Counts of a report are natural numbers, so that \<open>saturating_sub\<close> is \<open>-\<close>.
\<close>

section \<open>Faithful texts and cached translations\<close>

record faithful_text =
  ft_text :: rstring
  ft_protected_names :: "protected_name list"

primrec proper_name_reason_of :: "protected_name_reason \<Rightarrow> proper_name_reason" where
  "proper_name_reason_of ProtectedPerson = PersonName"
| "proper_name_reason_of ProtectedPlace = PlaceName"
| "proper_name_reason_of ProtectedTitle = Title"
| "proper_name_reason_of protected_name_reason.UnavoidableProperNoun = proper_name_reason.UnavoidableProperNoun"

definition proper_names :: "faithful_text \<Rightarrow> proper_name list" where
  "proper_names f = map (\<lambda>n. \<lparr>pn_text = pr_chinese_text n, pn_reason = proper_name_reason_of (pr_reason n)\<rparr>) (ft_protected_names f)"

record cached_translation =
  ct_protected_names :: "protected_name list"
  ct_base_chinese :: rstring
  ct_displayed_chinese :: rstring
  ct_pinyin :: rstring
  ct_report :: validation_report
  ct_repair_state :: repair_state

definition natural_translation :: "faithful_text \<Rightarrow> validation_report \<Rightarrow> cached_translation" where
  "natural_translation f report = \<lparr>ct_protected_names = ft_protected_names f, ct_base_chinese = ft_text f,
     ct_displayed_chinese = vr_normalized_text report, ct_pinyin = [], ct_report = report, ct_repair_state = NotNeeded\<rparr>"

definition translation_is_final :: "cached_translation \<Rightarrow> bool" where
  "translation_is_final t \<longleftrightarrow> ct_repair_state t = NotNeeded \<or> ct_repair_state t = Accepted"

definition level_coverage :: "validation_report \<Rightarrow> f32" where
  "level_coverage r =
     (if vr_lexical_token_count r = 0 then one_f32
      else f32_share (vr_lexical_token_count r - min (vr_above_level_token_count r) (vr_lexical_token_count r))
             (vr_lexical_token_count r))"

definition learning_policy_requires_repair :: "validation_report \<Rightarrow> learning_mode \<Rightarrow> bool" where
  "learning_policy_requires_repair r mode \<longleftrightarrow> mode = Strict \<and> \<not> vr_strictly_valid r"

section \<open>Teaching metadata\<close>

definition above_level_tokens :: "validation_report \<Rightarrow> rstring list" where
  "above_level_tokens r = fold push_unique (map vi_text (vr_violations r)) []"

definition no_definition :: rstring where
  "no_definition = lit ''Story term kept because a simpler wording would be less clear.''"

definition control_lookup :: "hsk_control \<Rightarrow> rstring \<Rightarrow> proper_name list \<Rightarrow> lookup_token list" where
  "control_lookup hc t names = lr_tokens (lookup_with_item_context hc t names None)"

text \<open>The pronunciations and the distinct definitions of the tokens, blank ones left out.\<close>

definition token_pinyin :: "lookup_token list \<Rightarrow> rstring list" where
  "token_pinyin ts = filter (\<lambda>p. trim p \<noteq> []) (map lookup_token.lt_pinyin ts)"

definition token_definitions :: "lookup_token list \<Rightarrow> rstring list" where
  "token_definitions ts = fold push_unique (filter (\<lambda>d. trim d \<noteq> []) (concat (map lookup_token.lt_definitions ts))) []"

definition required_level_of :: "violation_reason \<Rightarrow> browser_level option \<times> teaching_term_reason" where
  "required_level_of reason = (case reason of
     AboveSelectedHskLevel required \<Rightarrow>
       ((case browser_level_try_from (level_get required) of Err _ \<Rightarrow> None | Ok l \<Rightarrow> Some l), AboveLevelTerm)
   | _ \<Rightarrow> (None, OutsideListTerm))"

definition teaching_term_of :: "hsk_control \<Rightarrow> hsk_violation \<Rightarrow> teaching_term" where
  "teaching_term_of hc v =
     (let tokens = control_lookup hc (vi_text v) [];
          pinyin = token_pinyin tokens;
          definitions = token_definitions tokens;
          (required, reason) = required_level_of (vi_reason v)
      in \<lparr>tt_text = vi_text v, tt_start_char = vi_start v, tt_end_char = vi_end v,
          tt_pinyin = (if pinyin = [] then vi_text v else str_join [32] pinyin),
          tt_definitions = (if definitions = [] then [no_definition] else definitions),
          tt_required_level = required, tt_reason = reason\<rparr>)"

fun teaching_terms_from :: "hsk_control \<Rightarrow> nat \<Rightarrow> hsk_violation list \<Rightarrow> teaching_term list" where
  "teaching_terms_from hc previous_end [] = []"
| "teaching_terms_from hc previous_end (v # vs) =
     (if vi_start v < previous_end \<or> vi_end v \<le> vi_start v then teaching_terms_from hc previous_end vs
      else teaching_term_of hc v # teaching_terms_from hc (vi_end v) vs)"

definition teaching_terms :: "hsk_control \<Rightarrow> validation_report \<Rightarrow> teaching_term list" where
  "teaching_terms hc r = teaching_terms_from hc 0 (vr_violations r)"

definition exception_names :: "validation_report \<Rightarrow> proper_name list" where
  "exception_names r = map (\<lambda>e. \<lparr>pn_text = ex_text e, pn_reason = ex_reason e\<rparr>) (vr_exceptions r)"

definition populate_pinyin :: "hsk_control \<Rightarrow> cached_translation \<Rightarrow> cached_translation" where
  "populate_pinyin hc t =
     (let tokens = control_lookup hc (ct_displayed_chinese t) (exception_names (ct_report t));
          pinyin = str_join [32] (map (\<lambda>k. if trim (lookup_token.lt_pinyin k) = [] then lookup_token.lt_simplified k else lookup_token.lt_pinyin k) tokens)
      in t\<lparr>ct_pinyin := (if trim pinyin = [] then ct_displayed_chinese t else pinyin)\<rparr>)"

section \<open>A primary answer and its repair\<close>

record translation_state =
  ts_base_chinese :: "rstring option"
  ts_displayed_chinese :: "rstring option"
  ts_latest_rejected_chinese :: "rstring option"
  ts_latest_rejected_report :: "validation_report option"
  ts_report :: "validation_report option"
  ts_problems :: "rstring list"
  ts_structurally_valid :: bool
  ts_learning_mode :: learning_mode
  ts_repair_state :: repair_state

definition nonempty_translation :: "rstring option \<Rightarrow> rstring option" where
  "nonempty_translation t = (case t of None \<Rightarrow> None | Some s \<Rightarrow> (if trim s = [] then None else Some (trim s)))"

definition missing_translation_outcome :: "rstring \<Rightarrow> translation_outcome" where
  "missing_translation_outcome i = \<lparr>to_id = i, to_text = None, to_issues = [MissingLine], to_termination = Stop, to_protected_names = []\<rparr>"

text \<open>The distinct texts of the violations, trimmed; blank ones are left out.\<close>

definition violation_texts :: "validation_report \<Rightarrow> rstring list" where
  "violation_texts r = fold push_unique (filter (\<lambda>t. t \<noteq> []) (map (\<lambda>v. trim (vi_text v)) (vr_violations r))) []"

definition rewrite_problem :: "rstring list \<Rightarrow> rstring" where
  "rewrite_problem ts = lit ''rewrite these detected above-level spans with contextually natural easier words and grammar: ''
     @ str_join (lit '', '') (map (\<lambda>t. [96] @ t @ [96]) (take 16 (sort ts)))
     @ lit ''; never substitute an unrelated dictionary word''"

definition append_validation_problems :: "rstring list \<Rightarrow> validation_report \<Rightarrow> rstring list" where
  "append_validation_problems problems r =
     (if violation_texts r = [] then problems else push_unique (rewrite_problem (violation_texts r)) problems)"

definition policy_problems :: "learning_mode \<Rightarrow> validation_report option \<Rightarrow> rstring list \<Rightarrow> rstring list" where
  "policy_problems mode report problems = (case report of
     Some r \<Rightarrow> (if learning_policy_requires_repair r mode then append_validation_problems problems r else problems)
   | None \<Rightarrow> problems)"

definition from_initial :: "translation_outcome \<Rightarrow> hsk_control \<Rightarrow> hsk_level \<Rightarrow> proper_name list \<Rightarrow> learning_mode \<Rightarrow> translation_state" where
  "from_initial x hc l names mode =
     (let base = nonempty_translation (to_text x);
          report = map_option (\<lambda>t. validate_text hc t l names) base;
          problems = policy_problems mode report (repair_problems x);
          valid = (problems = [] \<and> report \<noteq> None)
      in \<lparr>ts_base_chinese = base,
          ts_displayed_chinese = (if valid then map_option vr_normalized_text report else None),
          ts_latest_rejected_chinese = None, ts_latest_rejected_report = None, ts_report = report, ts_problems = problems,
          ts_structurally_valid = outcome_valid x, ts_learning_mode = mode, ts_repair_state = NotNeeded\<rparr>)"

definition can_publish :: "translation_state \<Rightarrow> bool" where
  "can_publish s \<longleftrightarrow> ts_structurally_valid s \<and> ts_base_chinese s \<noteq> None \<and> ts_report s \<noteq> None"

definition avoid_chinese :: "translation_state \<Rightarrow> rstring list" where
  "avoid_chinese s = (case (case ts_latest_rejected_report s of Some r \<Rightarrow> Some r | None \<Rightarrow> ts_report s) of
     None \<Rightarrow> [] | Some r \<Rightarrow> violation_texts r)"

text \<open>The second branch of the code, which takes the repaired text, is \<open>takes_repair\<close>.\<close>

definition takes_repair :: "translation_state \<Rightarrow> bool \<Rightarrow> rstring \<Rightarrow> validation_report \<Rightarrow> translation_state" where
  "takes_repair s had_usable_primary repaired r =
     s\<lparr>ts_base_chinese := (if had_usable_primary then ts_base_chinese s else Some repaired),
       ts_displayed_chinese := Some (vr_normalized_text r), ts_report := Some r, ts_structurally_valid := True\<rparr>"

definition apply_evaluated_repair :: "translation_state \<Rightarrow> rstring option \<Rightarrow> validation_report option \<Rightarrow> rstring list
    \<Rightarrow> translation_state \<times> bool" where
  "apply_evaluated_repair s repaired report problems =
     (let had_usable_primary = can_publish s;
          accepted = (repaired \<noteq> None \<and> report \<noteq> None \<and> problems = []);
          s1 = s\<lparr>ts_latest_rejected_chinese := (if accepted then None else repaired),
                 ts_latest_rejected_report := (if accepted then None else if report \<noteq> None then report else ts_latest_rejected_report s)\<rparr>;
          s2 = (case (repaired, report) of
                  (Some t, Some r) \<Rightarrow> (if accepted \<or> \<not> had_usable_primary then takes_repair s1 had_usable_primary t r else s1)
                | _ \<Rightarrow> s1);
          s3 = s2\<lparr>ts_problems := problems\<rparr>
      in (s3\<lparr>ts_repair_state := (if accepted \<and> can_publish s3 then Accepted else RepairRejected)\<rparr>, accepted \<and> can_publish s3))"

definition apply_repair :: "translation_state \<Rightarrow> translation_outcome \<Rightarrow> hsk_control \<Rightarrow> hsk_level \<Rightarrow> proper_name list
    \<Rightarrow> translation_state \<times> bool" where
  "apply_repair s x hc l names =
     (let repaired = (if outcome_valid x then nonempty_translation (to_text x) else None);
          report = map_option (\<lambda>t. validate_text hc t l names) repaired;
          problems = policy_problems (ts_learning_mode s) report (repair_problems x)
      in apply_evaluated_repair s repaired report problems)"

definition not_safe :: rstring where
  "not_safe = lit ''direct translation and its repair are not safe to publish''"

definition finish_state :: "translation_state \<Rightarrow> rstring + cached_translation" where
  "finish_state s =
     (if \<not> can_publish s \<or> ts_repair_state s = RepairPending \<or> ts_repair_state s = RepairRejected then Err not_safe
      else (let displayed = (case ts_displayed_chinese s of Some t \<Rightarrow> Some t | None \<Rightarrow> map_option vr_normalized_text (ts_report s)) in
        (case displayed of
           None \<Rightarrow> Err (lit ''direct translation and its sole repair produced no Chinese text'')
         | Some t \<Rightarrow>
             (if trim t = [] then Err (lit ''direct translation and its sole repair produced no Chinese text'')
              else (case ts_report s of
                 None \<Rightarrow> Err (lit ''translated Chinese is missing deterministic HSK validation'')
               | Some r \<Rightarrow> Ok \<lparr>ct_protected_names = [],
                    ct_base_chinese = (case ts_base_chinese s of Some b \<Rightarrow> b | None \<Rightarrow> t),
                    ct_displayed_chinese = t, ct_pinyin = [], ct_report = r, ct_repair_state = ts_repair_state s\<rparr>)))))"

section \<open>Laws\<close>

lemma populate_pinyin_other [simp]:
  "ct_report (populate_pinyin hc t) = ct_report t" "ct_displayed_chinese (populate_pinyin hc t) = ct_displayed_chinese t"
  "ct_protected_names (populate_pinyin hc t) = ct_protected_names t" "ct_base_chinese (populate_pinyin hc t) = ct_base_chinese t"
  "ct_repair_state (populate_pinyin hc t) = ct_repair_state t"
  by (simp_all add: populate_pinyin_def Let_def)

lemma populate_pinyin_nonblank: "trim (ct_displayed_chinese t) \<noteq> [] \<Longrightarrow> trim (ct_pinyin (populate_pinyin hc t)) \<noteq> []"
  by (simp add: populate_pinyin_def Let_def)

text \<open>
  A state that went through a repair can only be finished if the repair was accepted, and then with the
  repaired text; what the model answered first is the base text if it was usable.
\<close>

lemma finish_after_rejection: "apply_evaluated_repair s repaired report problems = (s', False) \<Longrightarrow> finish_state s' = Inl not_safe"
  by (auto simp: apply_evaluated_repair_def Let_def finish_state_def)

lemma finish_after_acceptance:
  assumes "apply_evaluated_repair s repaired report problems = (s', True)" "finish_state s' = Inr t"
  obtains r u where "report = Some r" "repaired = Some u" "problems = []" "ct_report t = r"
    "ct_displayed_chinese t = vr_normalized_text r" "ct_repair_state t = Accepted"
    "ct_base_chinese t = (if can_publish s then the (ts_base_chinese s) else u)"
proof -
  have eqs: "repaired \<noteq> None" "report \<noteq> None" "problems = []" using assms(1) by (auto simp: apply_evaluated_repair_def Let_def)
  then obtain u r where "repaired = Some u" "report = Some r" by auto
  then show ?thesis
    using assms eqs that
    by (auto simp: apply_evaluated_repair_def Let_def finish_state_def takes_repair_def can_publish_def split: if_splits)
qed

lemma apply_repair_parts:
  "apply_repair s x hc l names = apply_evaluated_repair s
     (if outcome_valid x then nonempty_translation (to_text x) else None)
     (if outcome_valid x then map_option (\<lambda>t. validate_text hc t l names) (nonempty_translation (to_text x)) else None)
     (policy_problems (ts_learning_mode s)
       (if outcome_valid x then map_option (\<lambda>t. validate_text hc t l names) (nonempty_translation (to_text x)) else None) (repair_problems x))"
  by (simp add: apply_repair_def Let_def)

end
