(* ===== verification/Translation_Cache.thy ===== *)
theory Translation_Cache
  imports Job_Storage "HOL-Library.Code_Target_Nat"
begin

text \<open>
  The cache of translations (\<open>TranslationCache\<close> of \<open>browser-companion/src/pipeline_adapter.rs\<close>): values
  under the hash of what they depend on, the least recently used dropped until the retained bytes fit.
  It serves two kinds of value, so the model is polymorphic and the size of a value is a parameter. A
  \<open>HashMap\<close> is an association list whose order stands for the unspecified order of iteration.
\<close>

section \<open>State and operations\<close>

record 'v cached_value =
  tv_value :: 'v
  tv_bytes :: nat
  tv_last_used :: u64

record 'v translation_cache =
  tc_entries :: "(rstring \<times> 'v cached_value) list"
  tc_retained_bytes :: nat
  tc_clock :: u64
  tc_max_bytes :: nat

definition TRANSLATION_CACHE_MAX_BYTES :: nat where
  "TRANSLATION_CACHE_MAX_BYTES = 64 * 1024 * 1024"

definition empty_translation_cache :: "'v translation_cache" where
  "empty_translation_cache = \<lparr>tc_entries = [], tc_retained_bytes = 0, tc_clock = 0, tc_max_bytes = TRANSLATION_CACHE_MAX_BYTES\<rparr>"

definition tc_get :: "rstring \<Rightarrow> 'v translation_cache \<Rightarrow> 'v option \<times> 'v translation_cache" where
  "tc_get key c =
     (let c1 = c\<lparr>tc_clock := sat_succ (tc_clock c)\<rparr>
      in (case im_get (tc_entries c1) key of
            None \<Rightarrow> (None, c1)
          | Some e \<Rightarrow> (Some (tv_value e),
              c1\<lparr>tc_entries := im_set (tc_entries c1) key (e\<lparr>tv_last_used := tc_clock c1\<rparr>)\<rparr>)))"

definition tc_remove :: "rstring \<Rightarrow> 'v translation_cache \<Rightarrow> 'v translation_cache" where
  "tc_remove key c =
     (case im_get (tc_entries c) key of
        None \<Rightarrow> c
      | Some e \<Rightarrow> c\<lparr>tc_entries := filter (\<lambda>x. fst x \<noteq> key) (tc_entries c),
          tc_retained_bytes := tc_retained_bytes c - tv_bytes e\<rparr>)"

fun tc_oldest :: "(rstring \<times> 'v cached_value) list \<Rightarrow> (rstring \<times> 'v cached_value) option" where
  "tc_oldest [] = None"
| "tc_oldest (x # xs) = (case tc_oldest xs of
       None \<Rightarrow> Some x
     | Some y \<Rightarrow> Some (if tv_last_used (snd y) < tv_last_used (snd x) then y else x))"

lemma tc_oldest_in: "tc_oldest xs = Some x \<Longrightarrow> x \<in> set xs"
  by (induction xs arbitrary: x) (auto split: option.splits if_splits)

lemma tc_oldest_None [simp]: "tc_oldest xs = None \<longleftrightarrow> xs = []"
  by (cases xs) (auto split: option.splits)

lemma tc_remove_shrinks [termination_simp]:
  "tc_oldest (tc_entries c) = Some (k, e) \<Longrightarrow> length (tc_entries (tc_remove k c)) < length (tc_entries c)"
  using tc_oldest_in [of "tc_entries c" "(k, e)"] length_filter_less [of "(k, e)" "tc_entries c" "\<lambda>x. fst x \<noteq> k"]
    weak_map_of_SomeI [of k e "tc_entries c"]
  by (auto simp: tc_remove_def im_get_def split: option.splits)

function tc_evict :: "'v translation_cache \<Rightarrow> 'v translation_cache" where
  "tc_evict c =
     (if tc_retained_bytes c \<le> tc_max_bytes c then c
      else (case tc_oldest (tc_entries c) of
          None \<Rightarrow> c
        | Some (k, _) \<Rightarrow> tc_evict (tc_remove k c)))"
  by pat_completeness auto
termination by (relation "measure (length \<circ> tc_entries)") (auto simp: tc_remove_shrinks)

declare tc_evict.simps [simp del]

definition tc_store :: "rstring \<Rightarrow> 'v \<Rightarrow> nat \<Rightarrow> 'v translation_cache \<Rightarrow> 'v translation_cache" where
  "tc_store key v bytes c =
     (let c1 = tc_remove key c; c2 = c1\<lparr>tc_clock := sat_succ (tc_clock c1)\<rparr>
      in c2\<lparr>tc_retained_bytes := saturating_add (tc_retained_bytes c2) bytes,
            tc_entries := (key, \<lparr>tv_value = v, tv_bytes = bytes, tv_last_used = tc_clock c2\<rparr>) # tc_entries c2\<rparr>)"

definition tc_insert :: "('v \<Rightarrow> nat) \<Rightarrow> rstring \<Rightarrow> 'v \<Rightarrow> 'v translation_cache \<Rightarrow> 'v translation_cache" where
  "tc_insert size_of key v c =
     (let bytes = saturating_add (str_len key) (size_of v)
      in if tc_max_bytes c < bytes then c else tc_evict (tc_store key v bytes c))"

section \<open>The invariant\<close>

definition tc_bytes :: "(rstring \<times> 'v cached_value) list \<Rightarrow> nat" where
  "tc_bytes es = sum_list (map (tv_bytes \<circ> snd) es)"

text \<open>The accounts are right; a cache that is full only while it evicts is \<open>tc_sound\<close>.\<close>

definition tc_sound :: "'v translation_cache \<Rightarrow> bool" where
  "tc_sound c \<longleftrightarrow> distinct (map fst (tc_entries c)) \<and> tc_retained_bytes c = tc_bytes (tc_entries c)"

definition tc_ok :: "'v translation_cache \<Rightarrow> bool" where
  "tc_ok c \<longleftrightarrow> tc_sound c \<and> tc_retained_bytes c \<le> tc_max_bytes c"

lemma empty_cache_ok: "tc_ok empty_translation_cache"
  by (simp add: tc_ok_def tc_sound_def empty_translation_cache_def tc_bytes_def)

lemma tc_bytes_split:
  "distinct (map fst es) \<Longrightarrow> map_of es k = Some e \<Longrightarrow> tc_bytes es = tv_bytes e + tc_bytes (filter (\<lambda>x. fst x \<noteq> k) es)"
proof (induction es)
  case (Cons x es)
  show ?case
  proof (cases "fst x = k")
    case True
    then have "k \<notin> fst ` set es" using Cons.prems(1) by simp
    then have "fst y \<noteq> k" if "y \<in> set es" for y using that by (metis imageI)
    then have "filter (\<lambda>x. fst x \<noteq> k) es = es" by (intro filter_True ballI)
    then show ?thesis using True Cons.prems(2) by (cases x) (simp add: tc_bytes_def)
  qed (use Cons in \<open>cases x; simp add: tc_bytes_def\<close>)
qed simp

lemma tc_remove_entries: "tc_entries (tc_remove k c) = filter (\<lambda>x. fst x \<noteq> k) (tc_entries c)"
  by (auto simp: tc_remove_def im_get_def map_of_eq_None_iff split: option.splits intro!: filter_True [symmetric])

lemma tc_remove_other [simp]: "tc_max_bytes (tc_remove k c) = tc_max_bytes c" "tc_clock (tc_remove k c) = tc_clock c"
  by (simp_all add: tc_remove_def split: option.splits)

lemma tc_remove_sound: "tc_sound c \<Longrightarrow> tc_sound (tc_remove k c)"
  using tc_bytes_split [of "tc_entries c" k]
  by (auto simp: tc_sound_def tc_remove_def im_get_def distinct_map_filter split: option.splits)

lemma tc_remove_less: "tc_sound c \<Longrightarrow> tc_retained_bytes (tc_remove k c) \<le> tc_retained_bytes c"
  by (simp add: tc_remove_def split: option.splits)

lemma tc_evict_ok:
  "tc_sound c \<Longrightarrow> tc_ok (tc_evict c) \<and> tc_max_bytes (tc_evict c) = tc_max_bytes c
     \<and> set (tc_entries (tc_evict c)) \<subseteq> set (tc_entries c)"
proof (induction c rule: tc_evict.induct)
  case (1 c)
  show ?case
  proof (cases "tc_retained_bytes c \<le> tc_max_bytes c")
    case True
    then show ?thesis using 1(2) by (simp add: tc_evict.simps [of c] tc_ok_def)
  next
    case False
    then have "tc_entries c \<noteq> []" using 1(2) by (auto simp: tc_sound_def tc_bytes_def)
    then obtain k e where oldest: "tc_oldest (tc_entries c) = Some (k, e)" by (cases "tc_oldest (tc_entries c)") auto
    then have "tc_evict c = tc_evict (tc_remove k c)" using False by (simp add: tc_evict.simps [of c])
    then show ?thesis using 1(1) [OF False oldest refl tc_remove_sound [OF 1(2)]] by (auto simp: tc_remove_entries)
  qed
qed

lemma tc_store_sound:
  assumes "tc_ok c" "bytes \<le> tc_max_bytes c" "2 * tc_max_bytes c \<le> USIZE_MAX"
  shows "tc_sound (tc_store key v bytes c)"
proof -
  have "tc_sound (tc_remove key c)" "tc_retained_bytes (tc_remove key c) \<le> tc_max_bytes c"
    using assms(1) tc_remove_sound tc_remove_less [of c key] by (auto simp: tc_ok_def)
  moreover from this(2) have "tc_retained_bytes (tc_remove key c) + bytes \<le> USIZE_MAX" using assms(2,3) by simp
  ultimately show ?thesis
    by (auto simp: tc_store_def Let_def tc_sound_def tc_remove_entries tc_bytes_def saturating_add_def min_def)
qed

text \<open>Whatever is looked up or inserted, the cache keeps within its bound.\<close>

lemma tc_insert_ok:
  assumes "tc_ok c" "2 * tc_max_bytes c \<le> USIZE_MAX"
  shows "tc_ok (tc_insert size_of key v c)" "tc_max_bytes (tc_insert size_of key v c) = tc_max_bytes c"
proof -
  let ?bytes = "saturating_add (str_len key) (size_of v)"
  have max: "tc_max_bytes (tc_store key v ?bytes c) = tc_max_bytes c" by (simp add: tc_store_def Let_def)
  have "tc_ok (tc_insert size_of key v c) \<and> tc_max_bytes (tc_insert size_of key v c) = tc_max_bytes c"
  proof (cases "tc_max_bytes c < ?bytes")
    case True
    then show ?thesis using assms(1) by (simp add: tc_insert_def)
  next
    case False
    then show ?thesis
      using tc_evict_ok [OF tc_store_sound [OF assms(1) _ assms(2)], of ?bytes key v] max
      by (simp add: tc_insert_def)
  qed
  then show "tc_ok (tc_insert size_of key v c)" "tc_max_bytes (tc_insert size_of key v c) = tc_max_bytes c" by simp_all
qed

lemma tc_get_ok:
  assumes "tc_ok c"
  shows "tc_ok (snd (tc_get key c))" "tc_max_bytes (snd (tc_get key c)) = tc_max_bytes c"
proof -
  have same: "tc_bytes (im_set es k (e\<lparr>tv_last_used := t\<rparr>)) = tc_bytes es" "map fst (im_set es k (e\<lparr>tv_last_used := t\<rparr>)) = map fst es"
    if "distinct (map fst es)" "im_get es k = Some e" for es :: "(rstring \<times> 'a cached_value) list" and k e t
  proof -
    have "snd x = e" if "x \<in> set es" "fst x = k" for x
    proof -
      have "map_of es k = Some (snd x)" using \<open>distinct (map fst es)\<close> that by (cases x) simp
      then show ?thesis using \<open>im_get es k = Some e\<close> by (simp add: im_get_def)
    qed
    then show "tc_bytes (im_set es k (e\<lparr>tv_last_used := t\<rparr>)) = tc_bytes es" "map fst (im_set es k (e\<lparr>tv_last_used := t\<rparr>)) = map fst es"
      unfolding tc_bytes_def im_set_def map_map by (intro arg_cong [of _ _ sum_list] map_cong; force)+
  qed
  show "tc_ok (snd (tc_get key c))" "tc_max_bytes (snd (tc_get key c)) = tc_max_bytes c"
    using assms same [of "tc_entries c" key] by (auto simp: tc_get_def Let_def tc_ok_def tc_sound_def split: option.splits)
qed

lemma tc_get_value: "fst (tc_get key c) = map_option tv_value (im_get (tc_entries c) key)"
  by (simp add: tc_get_def Let_def split: option.splits)

text \<open>A value too large for the cache is not stored, and what stood under its key stays.\<close>

lemma oversized_insert_keeps_the_old_value:
  assumes "tc_max_bytes c < saturating_add (str_len key) (size_of v)"
  shows "fst (tc_get key (tc_insert size_of key v c)) = fst (tc_get key c)"
  using assms by (simp add: tc_insert_def)

end
