(* ===== verification/Translation_Service.thy ===== *)
theory Translation_Service
  imports Cuda_Scheduler Document_Pieces Translation_State Translation_Cache Job_Log Actions Hsk_Translation_Run
begin

text \<open>
  The translation service of the companion (\<open>TranslationService\<close> of \<open>pipeline_adapter.rs\<close>): from a span
  of English to text of the level that may be published, through two caches, a faithful translation, a
  translation at the level and at most one repair.

  The world holds the record of the running job, the chapter contexts, the two caches and, of type \<open>'o\<close>,
  everything else, such as the state of the loaded model. Other threads (requests that move the focus or
  cancel, other jobs that fill the caches) run between any two steps: \<open>pv_others\<close> stands for what they
  did and is applied before a flag is read or a lock is taken. The model, its tokenizer, the admission
  to the GPU and the hashes of the cache keys are parameters of the environment. Lock poisoning, which needs
  a panic elsewhere, and the measured durations are left out.
\<close>

section \<open>World and environment\<close>

record 'o pipeline_world =
  pw_job :: job_record
  pw_chapters :: chapter_context_store
  pw_translations :: "cached_translation translation_cache"
  pw_faithful :: "faithful_text translation_cache"
  pw_outside :: 'o

text \<open>What the two cache keys are hashed from.\<close>

record faithful_key =
  fk_source :: rstring
  fk_kind :: hsk_utterance_kind
  fk_provenance :: direct_provenance
  fk_context :: "preceding_utterance list"
  fk_preceding_english :: "rstring list"
  fk_following_english :: "rstring list"

record translation_key =
  tk_source_text :: rstring
  tk_kind :: hsk_utterance_kind
  tk_layout :: "hsk_layout option"
  tk_batch_source_texts :: "rstring list"
  tk_provenance :: direct_provenance
  tk_context :: "preceding_utterance list"
  tk_preceding_english :: "rstring list"
  tk_following_english :: "rstring list"
  tk_learning_mode :: learning_mode
  tk_hsk_level :: u8

record 'o pipeline_env =
  pv_control :: hsk_control
  pv_translator :: "'o pipeline_world generator"
  pv_names :: translation_env
  pv_acquire :: "cuda_priority \<Rightarrow> ('o pipeline_world, cuda_admission_error, unit) action"
  pv_release :: "'o pipeline_world \<Rightarrow> 'o pipeline_world"
  pv_others :: "'o pipeline_world \<Rightarrow> 'o pipeline_world"
  pv_faithful_hash :: "faithful_key \<Rightarrow> rstring"
  pv_translation_hash :: "translation_key \<Rightarrow> rstring"
  pv_error_text :: "translation_error \<Rightarrow> rstring"
  pv_entry_size :: nat

text \<open>The hashes also cover the revisions of the model, the prompt, the validator and the vocabulary, which
  are fixed in one run.\<close>

type_synonym ('o, 'a) pipeline_action = "('o pipeline_world, pipeline_error, 'a) action"

definition failure :: "string \<Rightarrow> string \<Rightarrow> pipeline_error" where
  "failure code message = \<lparr>pe_code = lit code, pe_message = lit message\<rparr>"

definition pipeline_failed :: "rstring \<Rightarrow> pipeline_error" where
  "pipeline_failed e = \<lparr>pe_code = lit ''PIPELINE_FAILED'', pe_message = lit ''Direct browser pipeline failed: '' @ e\<rparr>"

definition cuda_admission_failure :: "cuda_admission_error \<Rightarrow> pipeline_error" where
  "cuda_admission_failure e = (case e of
     CudaCancelled \<Rightarrow> pipeline_cancelled
   | CudaQueueFull capacity \<Rightarrow> \<lparr>pe_code = lit ''CUDA_QUEUE_FULL'',
       pe_message = lit ''CUDA inference queue is full (maximum '' @ lit (show_nat capacity) @ lit '' waiting phases)''\<rparr>)"

definition cancellation_boundary :: "'o pipeline_env \<Rightarrow> ('o, unit) pipeline_action" where
  "cancellation_boundary env w =
     (let w' = pv_others env w in (if jo_cancel (pw_job w') then Err pipeline_cancelled else Ok (), w'))"

text \<open>The translator looks at the same flag.\<close>

definition job_translator :: "'o pipeline_env \<Rightarrow> 'o pipeline_world generator" where
  "job_translator env = (pv_translator env)\<lparr>ge_cancelled := (\<lambda>w. let w' = pv_others env w in (jo_cancel (pw_job w'), w'))\<rparr>"

definition with_translations ::
  "'o pipeline_env \<Rightarrow> (cached_translation translation_cache \<Rightarrow> 'a \<times> cached_translation translation_cache) \<Rightarrow> ('o, 'a) pipeline_action" where
  "with_translations env f w =
     (let w' = pv_others env w; (x, c) = f (pw_translations w') in (Ok x, w'\<lparr>pw_translations := c\<rparr>))"

definition with_faithful ::
  "'o pipeline_env \<Rightarrow> (faithful_text translation_cache \<Rightarrow> 'a \<times> faithful_text translation_cache) \<Rightarrow> ('o, 'a) pipeline_action" where
  "with_faithful env f w =
     (let w' = pv_others env w; (x, c) = f (pw_faithful w') in (Ok x, w'\<lparr>pw_faithful := c\<rparr>))"

text \<open>A generation under a permit, which is given back however the generation ends.\<close>

definition under_permit :: "'o pipeline_env \<Rightarrow> cuda_priority \<Rightarrow> ('o pipeline_world, translation_error, 'a) action \<Rightarrow> ('o, 'a) pipeline_action" where
  "under_permit env priority m = and_then (relabelled cuda_admission_failure (pv_acquire env priority)) (\<lambda>_ w.
     (case relabelled (\<lambda>e. pipeline_failed (pv_error_text env e)) m w of (r, w') \<Rightarrow> (r, pv_release env w')))"

definition name_bytes :: "protected_name list \<Rightarrow> nat" where
  "name_bytes ns = sum_list (map (\<lambda>n. str_len (pr_source_text n) + str_len (pr_chinese_text n) + 64) ns)"

definition faithful_bytes :: "faithful_text \<Rightarrow> nat" where
  "faithful_bytes f = str_len (ft_text f) + name_bytes (ft_protected_names f)"

definition violation_bytes :: "hsk_violation \<Rightarrow> nat" where
  "violation_bytes v = str_len (vi_text v) + sum_list (map str_len (vi_suggested_words v))"

definition translation_cache_bytes :: "nat \<Rightarrow> rstring \<Rightarrow> cached_translation \<Rightarrow> nat" where
  "translation_cache_bytes entry_size key t = str_len key + str_len (ct_base_chinese t) + str_len (ct_displayed_chinese t)
     + str_len (ct_pinyin t) + name_bytes (ct_protected_names t) + str_len (vr_normalized_text (ct_report t))
     + str_len (vr_cache_revision (ct_report t)) + sum_list (map violation_bytes (vr_violations (ct_report t)))
     + sum_list (map (\<lambda>e. str_len (ex_text e)) (vr_exceptions (ct_report t))) + entry_size"

definition cache_translation :: "'o pipeline_env \<Rightarrow> rstring \<Rightarrow> cached_translation \<Rightarrow> cached_translation translation_cache \<Rightarrow> cached_translation translation_cache" where
  "cache_translation env key t = tc_insert (translation_cache_bytes (pv_entry_size env) []) key t"

section \<open>Faithful translations\<close>

text \<open>What a batch has in common: the context around it, where the English comes from and who waits.\<close>

record unit_context =
  uc_context :: "preceding_utterance list"
  uc_preceding_english :: "rstring list"
  uc_following_english :: "rstring list"
  uc_provenance :: direct_provenance
  uc_priority :: cuda_priority

definition faithful_key_of :: "unit_context \<Rightarrow> faithful_utterance \<Rightarrow> faithful_key" where
  "faithful_key_of c u = \<lparr>fk_source = fu_source_english u, fk_kind = fu_kind u, fk_provenance = uc_provenance c,
     fk_context = uc_context c, fk_preceding_english = uc_preceding_english c, fk_following_english = uc_following_english c\<rparr>"

type_synonym 'a answers = "(rstring, 'a) index_map"

fun look_up_faithful :: "(faithful_utterance \<Rightarrow> rstring) \<Rightarrow> faithful_utterance list \<Rightarrow> faithful_text answers \<Rightarrow> faithful_utterance list
    \<Rightarrow> faithful_text translation_cache \<Rightarrow> (faithful_text answers \<times> faithful_utterance list) \<times> faithful_text translation_cache" where
  "look_up_faithful key [] items missing c = ((items, missing), c)"
| "look_up_faithful key (u # us) items missing c =
     (case tc_get (key u) c of
        (Some t, c') \<Rightarrow> look_up_faithful key us (im_insert items (fu_id u) t) missing c'
      | (None, c') \<Rightarrow> look_up_faithful key us items (missing @ [u]) c')"

definition accept_faithful :: "(rstring \<Rightarrow> rstring) \<Rightarrow> translation_outcome
    \<Rightarrow> faithful_text answers \<times> faithful_text translation_cache \<Rightarrow> faithful_text answers \<times> faithful_text translation_cache" where
  "accept_faithful key_of_id x st =
     (case (outcome_valid x, to_text x) of
        (True, Some t) \<Rightarrow> (let f = \<lparr>ft_text = t, ft_protected_names = to_protected_names x\<rparr>
           in (im_insert (fst st) (to_id x) f, tc_insert faithful_bytes (key_of_id (to_id x)) f (snd st)))
      | _ \<Rightarrow> st)"

definition faithful_request_of :: "unit_context \<Rightarrow> faithful_utterance list \<Rightarrow> faithful_request" where
  "faithful_request_of c us = \<lparr>fq_utterances = us, fq_preceding_utterances = uc_context c,
     fq_preceding_english = uc_preceding_english c, fq_following_english = uc_following_english c\<rparr>"

text \<open>The key of an id: that of the last utterance with it.\<close>

definition key_of_id :: "(faithful_utterance \<Rightarrow> rstring) \<Rightarrow> faithful_utterance list \<Rightarrow> rstring \<Rightarrow> rstring" where
  "key_of_id key us i = (case List.find (\<lambda>u. fu_id u = i) (rev us) of Some u \<Rightarrow> key u | None \<Rightarrow> [])"

definition establish_faithful :: "'o pipeline_env \<Rightarrow> unit_context \<Rightarrow> faithful_utterance list \<Rightarrow> ('o, faithful_text answers) pipeline_action" where
  "establish_faithful env c us =
     (let key = (\<lambda>u. pv_faithful_hash env (faithful_key_of c u)) in
      if us = [] then give []
      else and_then (with_faithful env (look_up_faithful key us [] [])) (\<lambda>(items, missing).
        if missing = [] then give items
        else and_then (under_permit env (uc_priority c)
               (translate_faithfully_with_source (pv_names env) (job_translator env) (faithful_request_of c missing) (uc_provenance c))) (\<lambda>xs.
             and_then (cancellation_boundary env) (\<lambda>_.
             with_faithful env (\<lambda>cache. fold (accept_faithful (key_of_id key us)) xs (items, cache))))))"

section \<open>Units\<close>

record translation_unit =
  tu_id :: rstring
  tu_kind :: hsk_utterance_kind
  tu_source_text :: rstring
  tu_faithful_chinese :: "faithful_text option"
  tu_provenance :: direct_provenance
  tu_layout :: "hsk_layout option"
  tu_preceding :: "rstring list"
  tu_following :: "rstring list"

definition normalize_source :: "direct_provenance \<Rightarrow> rstring \<Rightarrow> rstring" where
  "normalize_source provenance t = (case provenance of DomSource \<Rightarrow> t | OcrSource \<Rightarrow> compact_words t)"

definition translation_key_of :: "unit_context \<Rightarrow> learning_mode \<Rightarrow> u8 \<Rightarrow> rstring list \<Rightarrow> translation_unit \<Rightarrow> translation_key" where
  "translation_key_of c mode level batch_sources u =
     \<lparr>tk_source_text = normalize_source (uc_provenance c) (tu_source_text u), tk_kind = tu_kind u, tk_layout = tu_layout u,
      tk_batch_source_texts = map (normalize_source (uc_provenance c)) batch_sources, tk_provenance = uc_provenance c,
      tk_context = drop (length (uc_context c) - MAX_HSK_PRECEDING_UTTERANCES) (uc_context c),
      tk_preceding_english = uc_preceding_english c, tk_following_english = uc_following_english c,
      tk_learning_mode = mode, tk_hsk_level = level\<rparr>"

type_synonym unit_answers = "(rstring + cached_translation) answers"

text \<open>The units a final translation is cached for are answered, the others remain.\<close>

fun look_up_units :: "(translation_unit \<Rightarrow> rstring) \<Rightarrow> translation_unit list \<Rightarrow> unit_answers \<Rightarrow> translation_unit list
    \<Rightarrow> cached_translation translation_cache \<Rightarrow> (unit_answers \<times> translation_unit list) \<times> cached_translation translation_cache" where
  "look_up_units key [] results remaining c = ((results, remaining), c)"
| "look_up_units key (u # us) results remaining c =
     (case tc_get (key u) c of
        (Some t, c') \<Rightarrow> (if translation_is_final t then look_up_units key us (im_insert results (tu_id u) (Ok t)) remaining c'
                        else look_up_units key us results (remaining @ [u]) c')
      | (None, c') \<Rightarrow> look_up_units key us results (remaining @ [u]) c')"

definition given_faithful :: "translation_unit list \<Rightarrow> faithful_text answers" where
  "given_faithful us = fold (\<lambda>u m. case tu_faithful_chinese u of None \<Rightarrow> m | Some f \<Rightarrow> im_insert m (tu_id u) f) us []"

definition missing_faithful :: "faithful_text answers \<Rightarrow> translation_unit list \<Rightarrow> faithful_utterance list" where
  "missing_faithful known us =
     map (\<lambda>u. \<lparr>fu_id = tu_id u, fu_kind = tu_kind u, fu_source_english = tu_source_text u\<rparr>)
       (filter (\<lambda>u. \<not> im_contains_key known (tu_id u)) us)"

definition fits_layout :: "hsk_layout option \<Rightarrow> rstring \<Rightarrow> bool" where
  "fits_layout layout t = (case layout of None \<Rightarrow> True
     | Some l \<Rightarrow> length t \<le> unat (hl_max_characters l) \<and> length (lines_of t) \<le> unat (hl_max_lines l))"

definition faithful_report :: "'o pipeline_env \<Rightarrow> hsk_level \<Rightarrow> faithful_text \<Rightarrow> validation_report" where
  "faithful_report env level f = validate_text (pv_control env) (ft_text f) level (proper_names f)"

definition faithful_translation :: "'o pipeline_env \<Rightarrow> hsk_level \<Rightarrow> faithful_text \<Rightarrow> cached_translation" where
  "faithful_translation env level f = populate_pinyin (pv_control env) (natural_translation f (faithful_report env level f))"

text \<open>A faithful translation that is already at the level needs no other.\<close>

fun settle_faithful :: "'o pipeline_env \<Rightarrow> (translation_unit \<Rightarrow> rstring) \<Rightarrow> learning_mode \<Rightarrow> hsk_level \<Rightarrow> faithful_text answers
    \<Rightarrow> translation_unit list \<Rightarrow> unit_answers \<Rightarrow> translation_unit list \<Rightarrow> cached_translation translation_cache
    \<Rightarrow> (unit_answers \<times> translation_unit list) \<times> cached_translation translation_cache" where
  "settle_faithful env key mode level faithful [] results pending c = ((results, pending), c)"
| "settle_faithful env key mode level faithful (u # us) results pending c =
     (case im_get faithful (tu_id u) of
        None \<Rightarrow> settle_faithful env key mode level faithful us
                  (im_insert results (tu_id u) (Err (lit ''faithful Chinese could not be established''))) pending c
      | Some f \<Rightarrow>
          if mode = Strict \<and> vr_strictly_valid (faithful_report env level f) \<and> fits_layout (tu_layout u) (ft_text f)
          then settle_faithful env key mode level faithful us
                 (im_insert results (tu_id u) (Ok (faithful_translation env level f))) pending
                 (cache_translation env (key u) (faithful_translation env level f) c)
          else settle_faithful env key mode level faithful us results (pending @ [u]) c)"

text \<open>Natural mode publishes the faithful translation with its teaching metadata.\<close>

fun settle_natural :: "'o pipeline_env \<Rightarrow> (translation_unit \<Rightarrow> rstring) \<Rightarrow> hsk_level \<Rightarrow> (translation_unit \<Rightarrow> faithful_text)
    \<Rightarrow> translation_unit list \<Rightarrow> unit_answers \<Rightarrow> ('o, unit_answers) pipeline_action" where
  "settle_natural env key level faithful_of [] results = give results"
| "settle_natural env key level faithful_of (u # us) results =
     (let t = faithful_translation env level (faithful_of u)
      in and_then (with_translations env (\<lambda>c. ((), cache_translation env (key u) t c))) (\<lambda>_.
         settle_natural env key level faithful_of us (im_insert results (tu_id u) (Ok t))))"

section \<open>Strict translation and its repair\<close>

definition source_utterance_of :: "(translation_unit \<Rightarrow> faithful_text) \<Rightarrow> translation_unit \<Rightarrow> source_utterance" where
  "source_utterance_of faithful_of u = \<lparr>su_id = tu_id u, su_kind = tu_kind u, su_source_english = tu_source_text u,
     su_faithful_chinese = ft_text (faithful_of u), su_layout = tu_layout u\<rparr>"

definition strict_request :: "unit_context \<Rightarrow> u8 \<Rightarrow> source_utterance list \<Rightarrow> translation_request" where
  "strict_request c level us = \<lparr>tq_requested_level = level, tq_learning_mode = StrictMode, tq_utterances = us,
     tq_preceding_utterances = uc_context c, tq_preceding_english = uc_preceding_english c, tq_following_english = uc_following_english c\<rparr>"

type_synonym unit_states = "(rstring, translation_state) index_map"

text \<open>Outcomes by id: the last one with an id stands.\<close>

definition outcome_for :: "translation_outcome list \<Rightarrow> rstring \<Rightarrow> translation_outcome" where
  "outcome_for xs i = (case List.find (\<lambda>x. to_id x = i) (rev xs) of Some x \<Rightarrow> x | None \<Rightarrow> missing_translation_outcome i)"

definition name_problem :: "protected_name \<Rightarrow> rstring" where
  "name_problem n = lit ''Preserve the exact proper name: '' @ pr_source_text n @ lit '' => '' @ pr_chinese_text n"

definition shows_name :: "rstring \<Rightarrow> translation_state \<Rightarrow> protected_name \<Rightarrow> bool" where
  "shows_name source s n = (case (case ts_displayed_chinese s of Some t \<Rightarrow> Some t | None \<Rightarrow> ts_base_chinese s) of
     None \<Rightarrow> False | Some t \<Rightarrow> is_anchored n source t)"

definition require_names :: "rstring \<Rightarrow> protected_name list \<Rightarrow> translation_state \<Rightarrow> translation_state" where
  "require_names source ns s = s\<lparr>ts_problems := ts_problems s @ map name_problem (filter (\<lambda>n. \<not> shows_name source s n) ns)\<rparr>"

definition primary_state :: "'o pipeline_env \<Rightarrow> hsk_level \<Rightarrow> translation_outcome list \<Rightarrow> (translation_unit \<Rightarrow> faithful_text) \<Rightarrow> translation_unit \<Rightarrow> translation_state" where
  "primary_state env level xs faithful_of u =
     require_names (tu_source_text u) (ft_protected_names (faithful_of u))
       (from_initial (outcome_for xs (tu_id u)) (pv_control env) level (proper_names (faithful_of u)) Strict)"

definition primary_states :: "'o pipeline_env \<Rightarrow> hsk_level \<Rightarrow> translation_outcome list \<Rightarrow> (translation_unit \<Rightarrow> faithful_text) \<Rightarrow> translation_unit list \<Rightarrow> unit_states" where
  "primary_states env level xs faithful_of us = map (\<lambda>u. (tu_id u, primary_state env level xs faithful_of u)) us"

definition repair_utterance_of :: "(translation_unit \<Rightarrow> faithful_text) \<Rightarrow> translation_unit \<Rightarrow> translation_state \<Rightarrow> repair_utterance" where
  "repair_utterance_of faithful_of u s = \<lparr>ru_id = tu_id u, ru_kind = tu_kind u, ru_source_english = tu_source_text u,
     ru_faithful_chinese = ft_text (faithful_of u), ru_layout = tu_layout u, ru_rejected_chinese = ts_base_chinese s,
     ru_avoid_chinese = avoid_chinese s, ru_problems = ts_problems s\<rparr>"

definition repair_utterances :: "(translation_unit \<Rightarrow> faithful_text) \<Rightarrow> unit_states \<Rightarrow> translation_unit list \<Rightarrow> repair_utterance list" where
  "repair_utterances faithful_of states us = List.map_filter (\<lambda>u. case im_get states (tu_id u) of
     None \<Rightarrow> None | Some s \<Rightarrow> (if ts_problems s = [] then None else Some (repair_utterance_of faithful_of u s))) us"

definition repair_request_of :: "unit_context \<Rightarrow> u8 \<Rightarrow> repair_utterance list \<Rightarrow> repair_request" where
  "repair_request_of c level us = \<lparr>rq_requested_level = level, rq_learning_mode = StrictMode, rq_utterances = us,
     rq_preceding_utterances = uc_context c, rq_preceding_english = uc_preceding_english c, rq_following_english = uc_following_english c\<rparr>"

definition repair_state_with :: "'o pipeline_env \<Rightarrow> hsk_level \<Rightarrow> (rstring \<Rightarrow> proper_name list) \<Rightarrow> translation_outcome \<Rightarrow> unit_states \<Rightarrow> unit_states" where
  "repair_state_with env level names_of x states =
     modify_entry (to_id x) (\<lambda>s. fst (apply_repair s x (pv_control env) level (names_of (to_id x)))) states"

definition still_invalid :: rstring where
  "still_invalid = lit ''strict HSK validation remained invalid after one repair''"

text \<open>The end of a strict unit: only a state without problems is finished, and its names must show.\<close>

definition strict_result :: "'o pipeline_env \<Rightarrow> faithful_text \<Rightarrow> rstring \<Rightarrow> translation_state option \<Rightarrow> rstring + cached_translation" where
  "strict_result env f source state =
     try_bind
       (case state of
          Some s \<Rightarrow> (if ts_problems s = []
            then try_bind (finish_state s) (\<lambda>t. Ok (populate_pinyin (pv_control env) (t\<lparr>ct_protected_names := ft_protected_names f\<rparr>)))
            else Err still_invalid)
        | None \<Rightarrow> Err (lit ''no complete strict translation was returned''))
       (\<lambda>t. if list_all (\<lambda>n. is_anchored n source (ct_displayed_chinese t)) (ct_protected_names t) then Ok t
             else Err (lit ''a protected proper name was changed or omitted''))"

fun settle_strict :: "'o pipeline_env \<Rightarrow> (translation_unit \<Rightarrow> rstring) \<Rightarrow> (translation_unit \<Rightarrow> faithful_text) \<Rightarrow> unit_states
    \<Rightarrow> translation_unit list \<Rightarrow> unit_answers \<Rightarrow> ('o, unit_answers) pipeline_action" where
  "settle_strict env key faithful_of states [] results = give results"
| "settle_strict env key faithful_of states (u # us) results =
     (let r = strict_result env (faithful_of u) (tu_source_text u) (im_get states (tu_id u));
          go_on = settle_strict env key faithful_of states us (im_insert results (tu_id u) r)
      in (case r of
            Ok t \<Rightarrow> and_then (with_translations env (\<lambda>c. ((), cache_translation env (key u) t c))) (\<lambda>_. go_on)
          | Err _ \<Rightarrow> go_on))"

definition repair_states :: "'o pipeline_env \<Rightarrow> unit_context \<Rightarrow> u8 \<Rightarrow> hsk_level \<Rightarrow> (translation_unit \<Rightarrow> faithful_text)
    \<Rightarrow> (rstring \<Rightarrow> proper_name list) \<Rightarrow> translation_unit list \<Rightarrow> unit_states \<Rightarrow> ('o, unit_states) pipeline_action" where
  "repair_states env c level_byte level faithful_of names_of us states =
     (let rejected = repair_utterances faithful_of states us in
      if rejected = [] then give states
      else and_then (under_permit env (uc_priority c)
               (repair_batch_with_source (job_translator env) (repair_request_of c level_byte rejected) (uc_provenance c))) (\<lambda>xs.
             give (fold (repair_state_with env level names_of) xs states)))"

definition translate_strictly :: "'o pipeline_env \<Rightarrow> unit_context \<Rightarrow> u8 \<Rightarrow> hsk_level \<Rightarrow> (translation_unit \<Rightarrow> rstring)
    \<Rightarrow> (translation_unit \<Rightarrow> faithful_text) \<Rightarrow> (rstring \<Rightarrow> proper_name list) \<Rightarrow> translation_unit list \<Rightarrow> unit_answers
    \<Rightarrow> ('o, unit_answers) pipeline_action" where
  "translate_strictly env c level_byte level key faithful_of names_of us results =
     and_then (under_permit env (uc_priority c)
       (translate_with_source (job_translator env) (strict_request c level_byte (map (source_utterance_of faithful_of) us)) (uc_provenance c))) (\<lambda>xs.
     and_then (cancellation_boundary env) (\<lambda>_.
     and_then (repair_states env c level_byte level faithful_of names_of us (primary_states env level xs faithful_of us)) (\<lambda>states.
     settle_strict env key faithful_of states us results)))"

section \<open>The service\<close>

text \<open>\<open>faithful_by_id[&id]\<close>, which is defined for the units that are pending.\<close>

definition faithful_at :: "faithful_text answers \<Rightarrow> rstring \<Rightarrow> faithful_text" where
  "faithful_at faithful i = (case im_get faithful i of Some f \<Rightarrow> f | None \<Rightarrow> \<lparr>ft_text = [], ft_protected_names = []\<rparr>)"

text \<open>\<open>HskLevel::new\<close> has one error.\<close>

definition invalid_level :: "hsk_error \<Rightarrow> pipeline_error" where
  "invalid_level e = \<lparr>pe_code = lit ''INVALID_HSK_LEVEL'', pe_message = (case e of
     InvalidHskLevel v \<Rightarrow> lit ''invalid HSK level '' @ lit (show_nat (unat v)) @ lit ''; expected 1 through 6'' | _ \<Rightarrow> [])\<rparr>"

definition settle_units :: "'o pipeline_env \<Rightarrow> unit_context \<Rightarrow> browser_level \<Rightarrow> learning_mode \<Rightarrow> (translation_unit \<Rightarrow> rstring)
    \<Rightarrow> translation_unit list \<Rightarrow> unit_answers \<Rightarrow> ('o, unit_answers) pipeline_action" where
  "settle_units env c requested mode key us results =
     (let known = given_faithful us; missing = missing_faithful known us in
      and_then (if missing = [] then give [] else establish_faithful env c missing) (\<lambda>established.
        let faithful = fold (\<lambda>(i, f) m. im_insert m i f) established known;
            faithful_of = (\<lambda>u. faithful_at faithful (tu_id u));
            names_of = (\<lambda>i. proper_names (faithful_at faithful i))
        in and_then (cancellation_boundary env) (\<lambda>_.
           and_then (relabelled invalid_level (checked (level_new (browser_level_u8 requested)))) (\<lambda>level.
           and_then (with_translations env (settle_faithful env key mode level faithful us results [])) (\<lambda>(results', pending).
             if mode = Natural then settle_natural env key level faithful_of pending results'
             else if pending = [] then give results'
             else translate_strictly env c (browser_level_u8 requested) level key faithful_of names_of pending results')))))"

definition translate_unit :: "'o pipeline_env \<Rightarrow> translation_unit list \<Rightarrow> browser_level \<Rightarrow> learning_mode \<Rightarrow> preceding_utterance list
    \<Rightarrow> rstring list \<Rightarrow> rstring list \<Rightarrow> cuda_priority \<Rightarrow> ('o, unit_answers) pipeline_action" where
  "translate_unit env us requested mode context_utterances earlier following priority =
     and_then (cancellation_boundary env) (\<lambda>_.
       (case us of
          [] \<Rightarrow> give_up (failure ''TRANSLATION_BATCH_FAILED'' ''The language batch is empty.'')
        | first # _ \<Rightarrow>
            if list_ex (\<lambda>u. tu_provenance u \<noteq> tu_provenance first) us
            then give_up (failure ''TRANSLATION_MODALITY_MISMATCH'' ''One language batch cannot mix DOM and OCR provenance.'')
            else (let c = \<lparr>uc_context = context_utterances, uc_preceding_english = earlier, uc_following_english = following,
                           uc_provenance = tu_provenance first, uc_priority = priority\<rparr>;
                      key = (\<lambda>u. pv_translation_hash env
                        (translation_key_of c mode (browser_level_u8 requested) (map tu_source_text us) u))
                  in and_then (with_translations env (look_up_units key us [] [])) (\<lambda>(results, remaining).
                     if remaining = [] then give results
                     else settle_units env c requested mode key remaining results))))"

fun translate_units :: "'o pipeline_env \<Rightarrow> translation_unit list \<Rightarrow> browser_level \<Rightarrow> learning_mode \<Rightarrow> cuda_priority
    \<Rightarrow> unit_answers \<Rightarrow> ('o, unit_answers) pipeline_action" where
  "translate_units env [] requested mode priority items = give items"
| "translate_units env (u # us) requested mode priority items =
     and_then (cancellation_boundary env) (\<lambda>_.
     and_then (translate_unit env [u] requested mode [] (tu_preceding u) (tu_following u) priority) (\<lambda>results.
     translate_units env us requested mode priority (fold (\<lambda>(i, r) m. im_insert m i r) results items)))"

section \<open>A piece of a document\<close>

primrec document_hsk_kind :: "source_span_kind \<Rightarrow> hsk_utterance_kind" where
  "document_hsk_kind Prose = ProseSpan"
| "document_hsk_kind Heading = HeadingSpan"
| "document_hsk_kind Dialogue = DialogueSpan"
| "document_hsk_kind Caption = CaptionSpan"
| "document_hsk_kind Thought = ThoughtSpan"
| "document_hsk_kind Sfx = SfxSpan"

definition piece_unit :: "document_piece \<Rightarrow> rstring list \<Rightarrow> rstring list \<Rightarrow> translation_unit" where
  "piece_unit p earlier following = \<lparr>tu_id = dp_piece_id p, tu_kind = document_hsk_kind (dp_kind p), tu_source_text = dp_source_text p,
     tu_faithful_chinese = None, tu_provenance = DomSource, tu_layout = None, tu_preceding = earlier, tu_following = following\<rparr>"

definition translate_document_piece :: "'o pipeline_env \<Rightarrow> document_piece \<Rightarrow> browser_job_settings \<Rightarrow> document_context_span list \<Rightarrow> bool
    \<Rightarrow> ('o, unit_answers) pipeline_action" where
  "translate_document_piece env p settings plan visible =
     and_then (relabelled pipeline_failed (checked (document_piece_neighbor_context plan [p]))) (\<lambda>(earlier, following).
       translate_units env [piece_unit p earlier following] (bs_hsk_level settings) (bs_learning_mode settings)
         (if visible then Visible else Offscreen) [])"

end
