(* ===== verification/Document_Run.thy ===== *)
theory Document_Run
  imports Translation_Service
begin

text \<open>
  The document pipeline (\<open>DocumentPipeline::run\<close> of \<open>pipeline_adapter.rs\<close>): a document is cut into pieces,
  the pieces are translated batch by batch with the visible ones first, and a block is published as soon
  as its last piece has come back, as text or with the reason why its source stays.
\<close>

section \<open>Accumulating a block\<close>

record document_accumulator =
  da_block :: document_source_block
  da_expected_pieces :: nat
  da_pieces :: "(nat, cached_translation \<times> rstring) btree_map"
  da_rejection :: "rstring option"
  da_published :: bool

definition new_accumulator :: "document_source_block \<Rightarrow> nat \<Rightarrow> document_accumulator" where
  "new_accumulator b expected = \<lparr>da_block = b, da_expected_pieces = expected, da_pieces = [], da_rejection = None, da_published = False\<rparr>"

definition da_record :: "nat \<Rightarrow> cached_translation \<Rightarrow> rstring \<Rightarrow> document_accumulator \<Rightarrow> document_accumulator" where
  "da_record order t separator a =
     (if da_rejection a = None then a\<lparr>da_pieces := bt_insert (da_pieces a) order (t, separator)\<rparr> else a)"

definition da_reject :: "rstring \<Rightarrow> document_accumulator \<Rightarrow> document_accumulator" where
  "da_reject reason a = (if da_rejection a = None then a\<lparr>da_rejection := Some reason\<rparr> else a)"

definition is_complete :: "document_accumulator \<Rightarrow> bool" where
  "is_complete a \<longleftrightarrow> da_rejection a \<noteq> None \<or> length (da_pieces a) = da_expected_pieces a"

section \<open>Publishing\<close>

text \<open>The flag is read before the lock of the log is taken; after a refusal it is read again.\<close>

definition sink_publish :: "'o pipeline_env \<Rightarrow> job_update_draft \<Rightarrow> ('o, unit) pipeline_action" where
  "sink_publish env d w =
     (let w1 = pv_others env w; w2 = pv_others env w1 in
      (case append_update (jo_cancel (pw_job w1)) (pw_job w2) d of
         Ok (_, r) \<Rightarrow> (Ok (), w2\<lparr>pw_job := r\<rparr>)
       | Err e \<Rightarrow> (let w3 = pv_others env w2 in
           (Err (if jo_cancel (pw_job w3) then pipeline_cancelled
                 else \<lparr>pe_code = lit ''UPDATE_PUBLISH_FAILED'', pe_message = publish_error_text e\<rparr>), w3))))"

definition publish_progress :: "'o pipeline_env \<Rightarrow> browser_job_stage \<Rightarrow> f32 option \<Rightarrow> f32 option \<Rightarrow> u32 option \<Rightarrow> u32 option
    \<Rightarrow> string \<Rightarrow> ('o, unit) pipeline_action" where
  "publish_progress env stage stage_progress overall_progress current total_count message =
     sink_publish env (DraftProgress stage stage_progress overall_progress current total_count (lit message))"

definition with_chapters :: "'o pipeline_env \<Rightarrow> (chapter_context_store \<Rightarrow> chapter_context_store) \<Rightarrow> ('o, unit) pipeline_action" where
  "with_chapters env f w = (let w' = pv_others env w in (Ok (), w'\<lparr>pw_chapters := f (pw_chapters w')\<rparr>))"

definition preserved_draft :: "document_source_block \<Rightarrow> rstring \<Rightarrow> job_update_draft" where
  "preserved_draft b reason = DraftDocumentBlockPreserved \<lparr>bp_parent_block_id = sb_parent_block_id b,
     bp_sub_item_order = sb_sub_item_order b, bp_item_id = sb_item_id b, bp_source_index = sb_source_index b,
     bp_item_order = sb_item_order b, bp_kind = sb_kind b, bp_source_text = sb_text b, bp_reason = reason\<rparr>"

definition joined_text :: "(cached_translation \<Rightarrow> rstring) \<Rightarrow> document_accumulator \<Rightarrow> rstring" where
  "joined_text field a = concat (map (\<lambda>(t, separator). field t @ separator) (map snd (da_pieces a)))"

definition joined_names :: "document_accumulator \<Rightarrow> protected_name list" where
  "joined_names a = concat (map (\<lambda>(t, _). ct_protected_names t) (map snd (da_pieces a)))"

definition joined_repair_state :: "document_accumulator \<Rightarrow> repair_state" where
  "joined_repair_state a = (if list_ex (\<lambda>(t, _). ct_repair_state t = Accepted) (map snd (da_pieces a)) then Accepted else NotNeeded)"

definition joined_report :: "'o pipeline_env \<Rightarrow> hsk_level \<Rightarrow> document_accumulator \<Rightarrow> validation_report" where
  "joined_report env level a = validate_text (pv_control env) (joined_text ct_displayed_chinese a) level
     (proper_names \<lparr>ft_text = joined_text ct_displayed_chinese a, ft_protected_names = joined_names a\<rparr>)"

definition joined_translation :: "'o pipeline_env \<Rightarrow> hsk_level \<Rightarrow> document_accumulator \<Rightarrow> cached_translation" where
  "joined_translation env level a = populate_pinyin (pv_control env)
     \<lparr>ct_protected_names = joined_names a, ct_base_chinese = joined_text ct_base_chinese a,
      ct_displayed_chinese = vr_normalized_text (joined_report env level a), ct_pinyin = [],
      ct_report = joined_report env level a, ct_repair_state = joined_repair_state a\<rparr>"

definition hsk_status_of :: "'o pipeline_env \<Rightarrow> browser_level \<Rightarrow> learning_mode \<Rightarrow> cached_translation \<Rightarrow> translated_hsk_status" where
  "hsk_status_of env requested mode t = \<lparr>hs_requested_level = requested, hs_learning_mode = mode,
     hs_strictly_valid = vr_strictly_valid (ct_report t), hs_level_coverage = level_coverage (ct_report t),
     hs_above_level_tokens = above_level_tokens (ct_report t), hs_teaching_terms = teaching_terms (pv_control env) (ct_report t),
     hs_repair_state = ct_repair_state t\<rparr>"

definition ready_draft :: "'o pipeline_env \<Rightarrow> browser_level \<Rightarrow> learning_mode \<Rightarrow> document_source_block \<Rightarrow> cached_translation \<Rightarrow> job_update_draft" where
  "ready_draft env requested mode b t = DraftDocumentBlockReady \<lparr>br_parent_block_id = sb_parent_block_id b,
     br_sub_item_order = sb_sub_item_order b, br_item_id = sb_item_id b, br_source_index = sb_source_index b,
     br_item_order = sb_item_order b, br_kind = sb_kind b,
     br_text = \<lparr>tx_termination = Stop, tx_protected_names = ct_protected_names t, tx_source_text = sb_text b,
       tx_base_chinese = ct_base_chinese t, tx_displayed_chinese = ct_displayed_chinese t, tx_pinyin = ct_pinyin t,
       tx_hsk = hsk_status_of env requested mode t\<rparr>\<rparr>"

definition joined_block_invalid :: rstring where
  "joined_block_invalid = lit ''joined document block failed whole-block HSK validation''"

definition publish_preserved :: "'o pipeline_env \<Rightarrow> document_accumulator \<Rightarrow> rstring \<Rightarrow> ('o, document_accumulator) pipeline_action" where
  "publish_preserved env a reason = and_then (sink_publish env (preserved_draft (da_block a) reason))
     (\<lambda>_. give (a\<lparr>da_rejection := None, da_published := True\<rparr>))"

definition publish_joined :: "'o pipeline_env \<Rightarrow> browser_level \<Rightarrow> learning_mode \<Rightarrow> rstring \<Rightarrow> hsk_level \<Rightarrow> document_accumulator
    \<Rightarrow> ('o, document_accumulator) pipeline_action" where
  "publish_joined env requested mode chapter_id level a =
     (if learning_policy_requires_repair (joined_report env level a) mode then publish_preserved env a joined_block_invalid
      else (let t = joined_translation env level a; b = da_block a in
        and_then (sink_publish env (ready_draft env requested mode b t)) (\<lambda>_.
        and_then (with_chapters env (publish_translation chapter_id (sb_source_index b, sb_item_order b) (sb_item_id b) (ct_displayed_chinese t))) (\<lambda>_.
        give (a\<lparr>da_published := True\<rparr>)))))"

definition publish_document_accumulator :: "'o pipeline_env \<Rightarrow> browser_level \<Rightarrow> learning_mode \<Rightarrow> rstring \<Rightarrow> document_accumulator
    \<Rightarrow> ('o, document_accumulator) pipeline_action" where
  "publish_document_accumulator env requested mode chapter_id a =
     (if da_published a then give a
      else (case da_rejection a of
        Some reason \<Rightarrow> publish_preserved env a reason
      | None \<Rightarrow>
          if length (da_pieces a) \<noteq> da_expected_pieces a then give a
          else and_then (relabelled invalid_level (checked (level_new (browser_level_u8 requested))))
                 (\<lambda>level. publish_joined env requested mode chapter_id level a)))"

fun publish_ready_document_blocks :: "'o pipeline_env \<Rightarrow> browser_level \<Rightarrow> learning_mode \<Rightarrow> rstring \<Rightarrow> document_accumulator list \<Rightarrow> nat
    \<Rightarrow> ('o, document_accumulator list \<times> nat) pipeline_action" where
  "publish_ready_document_blocks env requested mode chapter_id [] n = give ([], n)"
| "publish_ready_document_blocks env requested mode chapter_id (a # as) n =
     (if \<not> da_published a \<and> is_complete a
      then and_then (publish_document_accumulator env requested mode chapter_id a) (\<lambda>a'.
           and_then (publish_ready_document_blocks env requested mode chapter_id as (n + 1)) (\<lambda>(as', n'). give (a' # as', n')))
      else and_then (publish_ready_document_blocks env requested mode chapter_id as n) (\<lambda>(as', n'). give (a # as', n')))"

section \<open>The plan of a document\<close>

record document_plan =
  pl_pieces :: "document_piece list"
  pl_spans :: "document_context_span list"
  pl_preserved :: "(nat \<times> rstring) list"

text \<open>A block that cannot be cut keeps its place in the context; if its tokens cannot even be counted it
  is a barrier no context crosses.\<close>

definition kept_span :: "tokenizer \<Rightarrow> document_source_block \<Rightarrow> document_context_span" where
  "kept_span tokens b = \<lparr>cx_piece_id = None, cx_source_text = sb_text b, cx_separator_after = [],
     cx_token_count = (case model_token_count tokens (sb_text b) of Ok n \<Rightarrow> n | Err _ \<Rightarrow> DOCUMENT_CONTEXT_TOKEN_BUDGET + 1)\<rparr>"

fun plan_document :: "tokenizer \<Rightarrow> (rstring \<Rightarrow> nat list) \<Rightarrow> nat \<Rightarrow> document_source_block list \<Rightarrow> document_plan" where
  "plan_document tokens segment i [] = \<lparr>pl_pieces = [], pl_spans = [], pl_preserved = []\<rparr>"
| "plan_document tokens segment i (b # bs) = (let rest = plan_document tokens segment (i + 1) bs in
     (case split_document_block tokens segment i b of
        Ok ps \<Rightarrow> \<lparr>pl_pieces = ps @ pl_pieces rest, pl_spans = map span_of_piece ps @ pl_spans rest, pl_preserved = pl_preserved rest\<rparr>
      | Err reason \<Rightarrow> \<lparr>pl_pieces = pl_pieces rest, pl_spans = kept_span tokens b # pl_spans rest,
                       pl_preserved = (i, reason) # pl_preserved rest\<rparr>))"

definition is_targeted :: "document_job_request \<Rightarrow> document_source_block \<Rightarrow> bool" where
  "is_targeted r b \<longleftrightarrow> dj_retry_item_ids r = [] \<or> sb_item_id b \<in> set (dj_retry_item_ids r)"

definition targeted_pieces :: "document_job_request \<Rightarrow> document_piece list \<Rightarrow> document_piece list" where
  "targeted_pieces r ps = filter (\<lambda>p. is_targeted r (dj_blocks r ! dp_block_index p)) ps"

definition first_accumulator :: "document_job_request \<Rightarrow> document_plan \<Rightarrow> nat \<Rightarrow> document_source_block \<Rightarrow> document_accumulator" where
  "first_accumulator r plan i b =
     (let a = (new_accumulator b (length (filter (\<lambda>p. dp_block_index p = i) (pl_pieces plan))))\<lparr>da_published := \<not> is_targeted r b\<rparr>
      in (case map_of (pl_preserved plan) i of None \<Rightarrow> a | Some reason \<Rightarrow> da_reject reason a))"

definition first_accumulators :: "document_job_request \<Rightarrow> document_plan \<Rightarrow> document_accumulator list" where
  "first_accumulators r plan = map (\<lambda>(i, b). first_accumulator r plan i b) (enumerate 0 (dj_blocks r))"

section \<open>The run\<close>

text \<open>
  Loading the runtime and the model, and writing the benchmark evidence of the dispatches, are parameters.
  Two loops depend on the focus, which others move: they have fuel, and running out of it is the result
  \<open>StillRunning\<close>, no error of the code.
\<close>

datatype run_halt = Halted pipeline_error | StillRunning

record document_dispatch =
  dd_reason :: rstring
  dd_item_ids :: "rstring list"
  dd_token_count :: nat

record 'o document_env =
  de_pipeline :: "'o pipeline_env"
  de_tokens :: tokenizer
  de_segment :: "rstring \<Rightarrow> nat list"
  de_ready_language :: "('o pipeline_world, rstring, unit) action"
  de_local_model :: "('o pipeline_world, rstring, unit) action"
  de_emit_evidence :: "document_dispatch list \<Rightarrow> ('o pipeline_world, rstring, unit) action"

type_synonym ('o, 'a) run_action = "('o pipeline_world, run_halt, 'a) action"

definition attempt :: "('o, 'a) pipeline_action \<Rightarrow> ('o, 'a) run_action" where
  "attempt m = relabelled Halted m"

definition sink_focus :: "'o pipeline_env \<Rightarrow> ('o, job_focus) run_action" where
  "sink_focus env = observe (\<lambda>w. let w' = pv_others env w in (jl_focus (jo_log (pw_job w')), w'))"

fun wait_for_active_document :: "nat \<Rightarrow> 'o pipeline_env \<Rightarrow> ('o, job_focus) run_action" where
  "wait_for_active_document 0 env = give_up StillRunning"
| "wait_for_active_document (Suc fuel) env = and_then (attempt (cancellation_boundary env)) (\<lambda>_.
     and_then (sink_focus env) (\<lambda>focus. if jf_active focus then give focus else wait_for_active_document fuel env))"

definition update_nth :: "nat \<Rightarrow> ('a \<Rightarrow> 'a) \<Rightarrow> 'a list \<Rightarrow> 'a list" where
  "update_nth i f xs = xs[i := f (xs ! i)]"

definition omitted_piece :: rstring where
  "omitted_piece = lit ''the language model omitted this document piece''"

definition accumulate :: "document_piece \<Rightarrow> unit_answers \<Rightarrow> document_accumulator list \<Rightarrow> document_accumulator list" where
  "accumulate p items as = update_nth (dp_block_index p)
     (case im_get items (dp_piece_id p) of
        Some (Ok t) \<Rightarrow> da_record (dp_piece_order p) t (dp_separator_after p)
      | Some (Err reason) \<Rightarrow> da_reject reason
      | None \<Rightarrow> da_reject omitted_piece) as"

definition publish_ready :: "'o pipeline_env \<Rightarrow> document_job_request \<Rightarrow> document_accumulator list \<times> nat \<Rightarrow> ('o, document_accumulator list \<times> nat) run_action" where
  "publish_ready env r st = attempt (publish_ready_document_blocks env (bs_hsk_level (dj_settings r)) (bs_learning_mode (dj_settings r))
     (dj_page_session_id r) (fst st) (snd st))"

text \<open>One batch, until it is done or the focus has moved; then the rest of it goes back.\<close>

fun translate_batch :: "'o pipeline_env \<Rightarrow> document_job_request \<Rightarrow> document_context_span list \<Rightarrow> job_focus \<Rightarrow> document_piece list
    \<Rightarrow> document_accumulator list \<times> nat \<Rightarrow> ('o, (document_accumulator list \<times> nat) \<times> document_piece list) run_action" where
  "translate_batch env r plan focus [] st = give (st, [])"
| "translate_batch env r plan focus (p # ps) st = and_then (sink_focus env) (\<lambda>current.
     if \<not> jf_active current \<or> jf_visible_block_ids current \<noteq> jf_visible_block_ids focus then give (st, p # ps)
     else and_then (attempt (translate_document_piece env p (dj_settings r) plan
              (sb_item_id (dj_blocks r ! dp_block_index p) \<in> set (jf_visible_block_ids focus)))) (\<lambda>items.
          and_then (publish_ready env r (accumulate p items (fst st), snd st)) (\<lambda>st'.
          translate_batch env r plan focus ps st')))"

definition dispatch_of :: "document_job_request \<Rightarrow> document_piece list \<Rightarrow> rstring \<Rightarrow> document_dispatch" where
  "dispatch_of r batch reason = \<lparr>dd_reason = reason,
     dd_item_ids = fold push_unique (map (\<lambda>p. sb_item_id (dj_blocks r ! dp_block_index p)) batch) [],
     dd_token_count = sum_list (map dp_token_count batch)\<rparr>"

text \<open>\<open>0.01\<close>, \<open>0.02\<close>, \<open>0.05\<close> and \<open>0.9\<close> as \<open>f32\<close>.\<close>

definition f32_001 :: f32 where "f32_001 = 1008981770"
definition f32_002 :: f32 where "f32_002 = 1017370378"
definition f32_005 :: f32 where "f32_005 = 1028443341"
definition f32_09 :: f32 where "f32_09 = 1063675494"

definition batch_progress :: "'o pipeline_env \<Rightarrow> nat \<Rightarrow> nat \<Rightarrow> ('o, unit) run_action" where
  "batch_progress env finished total_count = attempt (publish_progress env StageTranslating
     (Some (f32_share finished total_count))
     (Some (f32_add f32_005 (f32_div (f32_mul f32_09 (f32_of_nat finished)) (f32_of_nat total_count))))
     (Some (sat_u32 finished)) (Some (sat_u32 total_count)) ''Publishing final document blocks'')"

definition emit_evidence :: "'o document_env \<Rightarrow> document_dispatch list \<Rightarrow> ('o, unit) run_action" where
  "emit_evidence de ds = attempt (relabelled pipeline_failed (de_emit_evidence de ds))"

definition scheduler_failed :: pipeline_error where
  "scheduler_failed = failure ''DOCUMENT_SCHEDULER_FAILED'' ''The document scheduler could not select a remaining source piece.''"

record turn_state =
  ru_remaining :: "document_piece list"
  ru_accumulators :: "document_accumulator list"
  ru_published_count :: nat
  ru_first_dispatch :: bool
  ru_dispatches :: "document_dispatch list"

definition run_turn :: "nat \<Rightarrow> 'o document_env \<Rightarrow> document_job_request \<Rightarrow> document_context_span list \<Rightarrow> turn_state \<Rightarrow> ('o, turn_state) run_action" where
  "run_turn fuel de r plan st = (let env = de_pipeline de in
     and_then (attempt (cancellation_boundary env)) (\<lambda>_.
     and_then (wait_for_active_document fuel env) (\<lambda>focus.
       (case take_next_document_batch (ru_remaining st) (dj_blocks r) (set (jf_visible_block_ids focus)) (ru_first_dispatch st) of
          ((batch, reason), rest) \<Rightarrow>
            if batch = [] then give_up (Halted scheduler_failed)
            else (let dispatches = ru_dispatches st @ [dispatch_of r batch reason] in
              and_then (emit_evidence de dispatches) (\<lambda>_.
              and_then (translate_batch env r plan focus batch (ru_accumulators st, ru_published_count st)) (\<lambda>((as, n), queued).
              and_then (batch_progress env n (max (length (dj_blocks r)) 1)) (\<lambda>_.
              give \<lparr>ru_remaining = rest @ queued, ru_accumulators = as, ru_published_count = n, ru_first_dispatch = False,
                    ru_dispatches = dispatches\<rparr>))))))))"

fun run_turns :: "nat \<Rightarrow> 'o document_env \<Rightarrow> document_job_request \<Rightarrow> document_context_span list \<Rightarrow> turn_state \<Rightarrow> ('o, turn_state) run_action" where
  "run_turns 0 de r plan st = (if ru_remaining st = [] then give st else give_up StillRunning)"
| "run_turns (Suc fuel) de r plan st =
     (if ru_remaining st = [] then give st
      else and_then (run_turn (Suc fuel) de r plan st) (run_turns fuel de r plan))"

definition reject_incomplete :: "document_accumulator \<Rightarrow> document_accumulator" where
  "reject_incomplete a = (if \<not> da_published a \<and> \<not> is_complete a then da_reject (lit ''document block translation was incomplete'') a else a)"

definition context_unit_of :: "document_source_block \<Rightarrow> chapter_context_unit" where
  "context_unit_of b = \<lparr>cu_item_id = sb_item_id b, cu_source_index = sb_source_index b, cu_item_order = sb_item_order b,
     cu_source_text = sb_text b, cu_displayed_text = None\<rparr>"

definition start_document :: "'o document_env \<Rightarrow> document_job_request \<Rightarrow> ('o, unit) run_action" where
  "start_document de r = (let env = de_pipeline de in
     and_then (attempt (cancellation_boundary env)) (\<lambda>_.
     and_then (attempt (publish_progress env StageRegistering None (Some f32_001) (Some 0) (Some (sat_u32 (length (dj_blocks r))))
                ''Registering the complete ordered document context'')) (\<lambda>_.
     and_then (attempt (with_chapters env (register_units (dj_page_session_id r) (map context_unit_of (dj_blocks r))))) (\<lambda>_.
     and_then (attempt (publish_progress env StageWarming None (Some f32_002) None None ''Preparing the shared language runtime'')) (\<lambda>_.
     and_then (attempt (relabelled pipeline_failed (de_ready_language de))) (\<lambda>_.
     and_then (attempt (relabelled pipeline_failed (de_local_model de))) (\<lambda>_.
     and_then (sink_focus env) (\<lambda>_.
     attempt (cancellation_boundary env)))))))))"

definition run_document :: "nat \<Rightarrow> 'o document_env \<Rightarrow> document_job_request \<Rightarrow> ('o, unit) run_action" where
  "run_document fuel de r = (let env = de_pipeline de; plan = plan_document (de_tokens de) (de_segment de) 0 (dj_blocks r) in
     and_then (start_document de r) (\<lambda>_.
     and_then (publish_ready env r (first_accumulators r plan, 0)) (\<lambda>(as, n).
     and_then (run_turns fuel de r (pl_spans plan)
        \<lparr>ru_remaining = targeted_pieces r (pl_pieces plan), ru_accumulators = as, ru_published_count = n, ru_first_dispatch = True, ru_dispatches = []\<rparr>) (\<lambda>st.
     and_then (publish_ready env r (map reject_incomplete (ru_accumulators st), ru_published_count st)) (\<lambda>_.
     emit_evidence de (ru_dispatches st))))))"

end
