(* ===== verification/Document_Pieces_Laws.thy ===== *)
theory Document_Pieces_Laws
  imports Document_Pieces "HOL-Library.Multiset"
begin

text \<open>
  What the scheduler of a document promises: a block is cut without losing a character that is not
  white space, the context of a piece is what stands around it and fits, and a batch is a window of
  consecutive pieces within the budgets, which leaves every other piece for later.
\<close>

section \<open>Cutting a block\<close>

text \<open>The characters that are not white space.\<close>

definition ink :: "rstring \<Rightarrow> rstring" where
  "ink s = filter (\<lambda>c. \<not> is_whitespace c) s"

lemma ink_append [simp]: "ink (a @ b) = ink a @ ink b"
  by (simp add: ink_def)

lemma ink_Nil [simp]: "ink [] = []"
  by (simp add: ink_def)

lemma ink_concat: "ink (concat ts) = concat (map ink ts)"
  by (induction ts) simp_all

lemma dropWhile_ink: "filter (\<lambda>c. \<not> P c) (dropWhile P s) = filter (\<lambda>c. \<not> P c) s"
  by (induction s) auto

lemma ink_trim_end: "ink (trim_end s) = ink s"
  unfolding ink_def trim_end_def by (metis dropWhile_ink rev_filter rev_rev_ident)

lemma ink_trim: "ink (trim s) = ink s"
  unfolding trim_def ink_trim_end by (simp add: ink_def trim_start_def dropWhile_ink)

lemma ink_Nil_iff: "ink s = [] \<longleftrightarrow> trim s = []"
proof
  assume "trim s = []"
  then show "ink s = []" using ink_trim [of s] by simp
next
  assume "ink s = []"
  then have "trim_start s = []" by (auto simp: ink_def filter_empty_conv trim_start_def)
  then show "trim s = []" by (simp add: trim_def trim_end_def)
qed

definition in_budget :: "tokenizer \<Rightarrow> rstring \<Rightarrow> bool" where
  "in_budget tokens t \<longleftrightarrow> (case model_token_count tokens t of Err _ \<Rightarrow> False | Ok n \<Rightarrow> n \<le> DOCUMENT_PIECE_TOKEN_BUDGET)"

lemma in_budgetI: "model_token_count tokens t = Inr n \<Longrightarrow> n \<le> DOCUMENT_PIECE_TOKEN_BUDGET \<Longrightarrow> in_budget tokens t"
  by (simp add: in_budget_def)

lemma collect_sentences_ink:
  "collect_sentences tokens ss = Inr ss' \<Longrightarrow> concat (map ink ss') = concat (map ink ss)
     \<and> list_all (\<lambda>s. ink s \<noteq> []) ss' \<and> list_all (in_budget tokens) ss'"
proof (induction ss arbitrary: ss')
  case (Cons s ss)
  show ?case
  proof (cases "trim s = []")
    case True
    then show ?thesis using Cons by (simp add: ink_Nil_iff [symmetric])
  next
    case False
    then obtain n rest where "model_token_count tokens s = Inr n" "n \<le> DOCUMENT_PIECE_TOKEN_BUDGET"
      and rest: "collect_sentences tokens ss = Inr rest" "ss' = s # rest"
      using Cons.prems by (auto split: if_splits)
    then show ?thesis using Cons.IH [OF rest(1)] False in_budgetI [of tokens s n] by (simp add: ink_Nil_iff)
  qed
qed simp

lemma pack_sentences_concat: "pack_sentences tokens current ss = Inr chunks \<Longrightarrow> concat chunks = current @ concat ss"
proof (induction ss arbitrary: current chunks)
  case (Cons s ss)
  obtain full where full: "overflows tokens current s = Inr full" using Cons.prems by auto
  show ?case
  proof (cases full)
    case True
    with Cons.prems full obtain rest where "pack_sentences tokens s ss = Inr rest" "chunks = current # rest" by auto
    then show ?thesis using Cons.IH by simp
  next
    case False
    then show ?thesis using Cons.prems full Cons.IH [of "current @ s" chunks] by simp
  qed
qed (auto split: if_splits)

text \<open>A chunk keeps what every sentence has and a longer text that still fits.\<close>

lemma pack_sentences_all:
  assumes "pack_sentences tokens current ss = Inr chunks" "current = [] \<or> P current" "list_all P ss"
    and "\<And>a s. a \<noteq> [] \<Longrightarrow> P a \<Longrightarrow> P s \<Longrightarrow> overflows tokens a s = Inr False \<Longrightarrow> P (a @ s)"
  shows "list_all P chunks"
  using assms(1-3)
proof (induction ss arbitrary: current chunks)
  case (Cons s ss)
  obtain full where full: "overflows tokens current s = Inr full" using Cons.prems by auto
  show ?case
  proof (cases full)
    case True
    then have "current \<noteq> []" using full by (auto simp: overflows_def)
    moreover obtain rest where "pack_sentences tokens s ss = Inr rest" "chunks = current # rest"
      using Cons.prems(1) full True by auto
    ultimately show ?thesis using Cons.IH [of s rest] Cons.prems(2,3) by simp
  next
    case False
    then have "P (current @ s)"
      using full Cons.prems(2,3) assms(4) [of current s] by (cases "current = []") simp_all
    then show ?thesis using Cons.prems full False Cons.IH [of "current @ s" chunks] by simp
  qed
qed (auto split: if_splits)

lemma pack_sentences_budget:
  "pack_sentences tokens [] ss = Inr chunks \<Longrightarrow> list_all (in_budget tokens) ss \<Longrightarrow> list_all (in_budget tokens) chunks"
  by (rule pack_sentences_all) (auto simp: overflows_def in_budget_def)

lemma pack_sentences_ink:
  "pack_sentences tokens [] ss = Inr chunks \<Longrightarrow> list_all (\<lambda>s. ink s \<noteq> []) ss \<Longrightarrow> list_all (\<lambda>s. ink s \<noteq> []) chunks"
  by (rule pack_sentences_all) auto

definition cut_ok :: "tokenizer \<Rightarrow> nat \<Rightarrow> document_source_block \<Rightarrow> document_piece \<Rightarrow> bool" where
  "cut_ok tokens i b p \<longleftrightarrow> dp_block_index p = i \<and> dp_kind p = sb_kind b
     \<and> dp_piece_id p = piece_id_of (sb_item_id b) (dp_piece_order p)
     \<and> model_token_count tokens (dp_source_text p) = Inr (dp_token_count p)"

lemma pieces_of_chunks_shape:
  "pieces_of_chunks tokens i b order cs = Inr ps \<Longrightarrow>
     map dp_piece_order ps = [order..<order + length cs] \<and> map dp_source_text ps = map trim_end cs
     \<and> list_all (cut_ok tokens i b) ps"
proof (induction cs arbitrary: order ps)
  case (Cons c cs)
  then obtain p rest where p: "piece_of_chunk tokens i b order c = Inr p"
    and rest: "pieces_of_chunks tokens i b (order + 1) cs = Inr rest" and ps: "ps = p # rest" by auto
  have "cut_ok tokens i b p \<and> dp_piece_order p = order \<and> dp_source_text p = trim_end c"
    using p by (auto simp: piece_of_chunk_def Let_def cut_ok_def)
  then show ?case
    using Cons.IH [OF rest] by (simp add: ps upt_conv_Cons del: upt_Suc)
qed simp

text \<open>The two ways a block is cut.\<close>

lemma split_cases [consumes 1, case_names whole cut]:
  assumes "split_document_block tokens segment i b = Inr ps"
  obtains (whole) n where "model_token_count tokens (sb_text b) = Inr n" "n \<le> DOCUMENT_PIECE_TOKEN_BUDGET"
      "ps = [\<lparr>dp_piece_id = piece_id_of (sb_item_id b) 0, dp_block_index = i, dp_piece_order = 0,
             dp_source_text = sb_text b, dp_separator_after = [], dp_kind = sb_kind b, dp_token_count = n\<rparr>]"
    | (cut) ss cs where "collect_sentences tokens (segments (sb_text b) (segment (sb_text b))) = Inr ss" "2 \<le> length ss"
      "pack_sentences tokens [] ss = Inr cs" "pieces_of_chunks tokens i b 0 cs = Inr ps"
  using assms unfolding split_document_block_def by (auto simp: not_less split: if_splits)

lemma split_shape:
  assumes "split_document_block tokens segment i b = Inr ps"
  shows "ps \<noteq> []" "map dp_piece_order ps = [0..<length ps]" "list_all (cut_ok tokens i b) ps"
  using assms
proof (atomize (full), cases rule: split_cases)
  case (cut ss cs)
  have "list_all (\<lambda>s. ink s \<noteq> []) ss" using collect_sentences_ink [OF cut(1)] by simp
  then have "concat ss \<noteq> []" using cut(2) by (cases ss) auto
  then have "cs \<noteq> []" using pack_sentences_concat [OF cut(3)] by auto
  moreover note shape = pieces_of_chunks_shape [OF cut(4)]
  moreover have "length ps = length cs" using shape by (metis length_map)
  ultimately show "ps \<noteq> [] \<and> map dp_piece_order ps = [0..<length ps] \<and> list_all (cut_ok tokens i b) ps" by auto
qed (simp add: cut_ok_def)

lemma split_keeps_ink:
  assumes "split_document_block tokens segment i b = Inr ps"
    and covers: "concat (segments (sb_text b) (segment (sb_text b))) = sb_text b"
  shows "concat (map (\<lambda>p. ink (dp_source_text p)) ps) = ink (sb_text b)"
    and "trim (sb_text b) \<noteq> [] \<Longrightarrow> list_all (\<lambda>p. trim (dp_source_text p) \<noteq> []) ps"
  using assms(1)
proof (atomize (full), cases rule: split_cases)
  case (cut ss cs)
  note texts = pieces_of_chunks_shape [OF cut(4), THEN conjunct2, THEN conjunct1]
  have "concat (map (\<lambda>p. ink (dp_source_text p)) ps) = concat (map ink (map dp_source_text ps))" by (simp add: comp_def)
  also have "\<dots> = ink (concat ss)"
    using pack_sentences_concat [OF cut(3)] unfolding texts by (simp add: ink_trim_end comp_def flip: ink_concat)
  also have "\<dots> = ink (concat (segments (sb_text b) (segment (sb_text b))))"
    using collect_sentences_ink [OF cut(1)] by (simp add: ink_concat)
  finally have "concat (map (\<lambda>p. ink (dp_source_text p)) ps) = ink (sb_text b)" by (simp add: covers)
  moreover have "list_all (\<lambda>s. trim s \<noteq> []) (map dp_source_text ps)"
    using pack_sentences_ink [OF cut(3)] collect_sentences_ink [OF cut(1)] unfolding texts
    by (simp add: list_all_iff ink_trim_end flip: ink_Nil_iff)
  ultimately show "concat (map (\<lambda>p. ink (dp_source_text p)) ps) = ink (sb_text b)
      \<and> (trim (sb_text b) \<noteq> [] \<longrightarrow> list_all (\<lambda>p. trim (dp_source_text p) \<noteq> []) ps)"
    by (simp add: list_all_iff)
qed simp

section \<open>The context\<close>

lemma take_span_cases:
  assumes "take_span used spans = (used', taken, rest)"
  obtains (took) s where "spans = s # rest" "taken = [span_text s]" "used' = used + cx_token_count s" "used' \<le> DOCUMENT_CONTEXT_TOKEN_BUDGET"
    | (stopped) "taken = []" "rest = []" "used' = used"
        "spans = [] \<or> DOCUMENT_CONTEXT_TOKEN_BUDGET < used + cx_token_count (hd spans)"
  using assms by (auto simp: take_span_def split: list.splits if_splits)

definition span_tokens :: "document_context_span list \<Rightarrow> nat" where
  "span_tokens spans = sum_list (map cx_token_count spans)"

text \<open>What a side gives: the spans nearest to the piece, all of them or as far as they fit.\<close>

definition nearest :: "nat \<Rightarrow> document_context_span list \<Rightarrow> document_context_span list \<Rightarrow> bool" where
  "nearest used spans taken \<longleftrightarrow> (\<exists>rest. spans = taken @ rest
     \<and> (rest = [] \<or> DOCUMENT_CONTEXT_TOKEN_BUDGET < used + cx_token_count (hd rest)))"

definition gathered :: "nat \<Rightarrow> document_context_span list \<Rightarrow> document_context_span list \<Rightarrow> rstring list \<Rightarrow> rstring list
    \<Rightarrow> rstring list \<times> rstring list \<Rightarrow> bool" where
  "gathered used left right earlier following r \<longleftrightarrow> (\<exists>a b used'. r = (earlier @ map span_text a, following @ map span_text b)
     \<and> used' = used + span_tokens a + span_tokens b \<and> used' \<le> DOCUMENT_CONTEXT_TOKEN_BUDGET
     \<and> prefix a left \<and> prefix b right
     \<and> length (fst r) + length (snd r) \<le> MAX_CONTEXT_SPANS
     \<and> (length (fst r) + length (snd r) = MAX_CONTEXT_SPANS \<or> nearest used' left a \<and> nearest used' right b))"

lemma gathered_all:
  "used \<le> DOCUMENT_CONTEXT_TOKEN_BUDGET \<Longrightarrow> length earlier + length following \<le> MAX_CONTEXT_SPANS
   \<Longrightarrow> length earlier + length following = MAX_CONTEXT_SPANS \<or> left = [] \<and> right = []
   \<Longrightarrow> gathered used left right earlier following (earlier, following)"
  unfolding gathered_def by (intro exI [of _ "[]"]) (auto simp: span_tokens_def nearest_def)

lemma gathered_left:
  assumes "take_span used left = (used1, taken, left1)" "gathered used1 left1 right (earlier @ taken) following r"
  shows "gathered used left right earlier following r"
proof -
  obtain a b where r: "r = ((earlier @ taken) @ map span_text a, following @ map span_text b)"
    and used: "used1 + span_tokens a + span_tokens b \<le> DOCUMENT_CONTEXT_TOKEN_BUDGET"
    and pre: "prefix a left1" "prefix b right"
    and len: "length (fst r) + length (snd r) \<le> MAX_CONTEXT_SPANS"
    and full: "length (fst r) + length (snd r) = MAX_CONTEXT_SPANS
       \<or> nearest (used1 + span_tokens a + span_tokens b) left1 a \<and> nearest (used1 + span_tokens a + span_tokens b) right b"
    using assms(2) unfolding gathered_def by blast
  from assms(1) show ?thesis
  proof (cases rule: take_span_cases)
    case (took s)
    have "used + span_tokens (s # a) = used1 + span_tokens a" by (simp add: took span_tokens_def)
    then show ?thesis
      unfolding gathered_def using r used pre len full
      by (intro exI [of _ "s # a"] exI [of _ b]) (auto simp: took nearest_def)
  next
    case stopped
    then have "a = []" using pre(1) by simp
    then show ?thesis
      unfolding gathered_def using r used pre len full stopped
      by (intro exI [of _ "[]"] exI [of _ b]) (auto simp: span_tokens_def nearest_def)
  qed
qed

lemma gatheredE:
  assumes "gathered used left right earlier following (p, f)"
  obtains a b where "p = earlier @ map span_text a" "f = following @ map span_text b"
    "used + span_tokens a + span_tokens b \<le> DOCUMENT_CONTEXT_TOKEN_BUDGET" "prefix a left" "prefix b right"
    "length p + length f \<le> MAX_CONTEXT_SPANS"
    "length p + length f = MAX_CONTEXT_SPANS \<or> nearest (used + span_tokens a + span_tokens b) left a \<and> nearest (used + span_tokens a + span_tokens b) right b"
  using assms unfolding gathered_def by (elim exE conjE) (simp only: prod.inject fst_conv snd_conv)

lemma gathered_swap:
  assumes "gathered used left right earlier following (p, f)"
  shows "gathered used right left following earlier (f, p)"
  using assms
proof (rule gatheredE)
  fix a b
  assume parts: "p = earlier @ map span_text a" "f = following @ map span_text b"
    "used + span_tokens a + span_tokens b \<le> DOCUMENT_CONTEXT_TOKEN_BUDGET" "prefix a left" "prefix b right"
    "length p + length f \<le> MAX_CONTEXT_SPANS"
    "length p + length f = MAX_CONTEXT_SPANS \<or> nearest (used + span_tokens a + span_tokens b) left a \<and> nearest (used + span_tokens a + span_tokens b) right b"
  show ?thesis unfolding gathered_def
    by (rule exI [of _ b], rule exI [of _ a], rule exI [of _ "used + span_tokens a + span_tokens b"])
      (use parts in \<open>simp add: ac_simps\<close>)
qed

lemma gathered_right:
  "take_span used right = (used1, taken, right1) \<Longrightarrow> gathered used1 left right1 earlier (following @ taken) r
   \<Longrightarrow> gathered used left right earlier following r"
  by (cases r) (metis gathered_left gathered_swap)

lemma take_span_used: "take_span used spans = (used', taken, rest) \<Longrightarrow> used \<le> DOCUMENT_CONTEXT_TOKEN_BUDGET
    \<Longrightarrow> used' \<le> DOCUMENT_CONTEXT_TOKEN_BUDGET \<and> length taken \<le> 1"
  by (elim take_span_cases) auto

lemma gather_neighbours_gathers:
  "used \<le> DOCUMENT_CONTEXT_TOKEN_BUDGET \<Longrightarrow> length earlier + length following \<le> MAX_CONTEXT_SPANS
   \<Longrightarrow> gathered used left right earlier following (gather_neighbours used earlier following left right)"
proof (induction "length left + length right" arbitrary: used earlier following left right rule: less_induct)
  case less
  note step = gather_neighbours.simps [of used earlier following left right]
  show ?case
  proof (cases "length earlier + length following < MAX_CONTEXT_SPANS \<and> (left \<noteq> [] \<or> right \<noteq> [])")
    case False
    then have "gather_neighbours used earlier following left right = (earlier, following)"
      unfolding step by (simp only: if_False)
    then show ?thesis using False less.prems by (auto intro: gathered_all)
  next
    case True
    obtain used1 taken1 left1 where l: "take_span used left = (used1, taken1, left1)" by (cases "take_span used left")
    note l' = take_span_used [OF l less.prems(1)]
    obtain used2 taken2 right2 where r: "take_span used1 right = (used2, taken2, right2)" by (cases "take_span used1 right")
    note r' = take_span_used [OF r l'[THEN conjunct1]]
    have "gathered used1 left1 right (earlier @ taken1) following (gather_neighbours used earlier following left right)"
    proof (cases "MAX_CONTEXT_SPANS \<le> length (earlier @ taken1) + length following")
      case big: True
      then have "length (earlier @ taken1) + length following = MAX_CONTEXT_SPANS" using True l' by simp
      then show ?thesis using True big l' by (auto simp: step l intro: gathered_all)
    next
      case small: False
      have "length left1 + length right2 < length left + length right"
        using True take_span_shorter [OF l [symmetric]] take_span_shorter [OF r [symmetric]]
        by (cases left; cases right) auto
      then have "gathered used2 left1 right2 (earlier @ taken1) (following @ taken2)
          (gather_neighbours used2 (earlier @ taken1) (following @ taken2) left1 right2)"
        using small r' by (intro less.hyps) auto
      moreover have "gather_neighbours used earlier following left right
          = gather_neighbours used2 (earlier @ taken1) (following @ taken2) left1 right2"
        using True small by (simp add: step l r)
      ultimately show ?thesis by (simp add: gathered_right [OF r])
    qed
    then show ?thesis by (rule gathered_left [OF l])
  qed
qed

section \<open>The batch\<close>

fun window :: "document_piece list \<Rightarrow> bool" where
  "window (q # p # ps) \<longleftrightarrow> follows_piece q p \<and> window (p # ps)"
| "window _ \<longleftrightarrow> True"

definition batch_tokens :: "document_piece list \<Rightarrow> nat" where
  "batch_tokens ps = sum_list (map dp_token_count ps)"

lemma select_prefix: "prefix (select_pieces excluded previous n tokens ps) ps"
  by (induction ps arbitrary: previous n tokens) auto

lemma select_included: "list_all (\<lambda>p. \<not> excluded p) (select_pieces excluded previous n tokens ps)"
  by (induction ps arbitrary: previous n tokens) auto

lemma select_after:
  assumes "n \<le> DOCUMENT_BATCH_MAX" "tokens \<le> DOCUMENT_BATCH_TOKEN_BUDGET \<or> n = 1"
  shows "window (q # select_pieces excluded (Some q) n tokens ps)
    \<and> n + length (select_pieces excluded (Some q) n tokens ps) \<le> DOCUMENT_BATCH_MAX
    \<and> (tokens + batch_tokens (select_pieces excluded (Some q) n tokens ps) \<le> DOCUMENT_BATCH_TOKEN_BUDGET
       \<or> select_pieces excluded (Some q) n tokens ps = [])"
  using assms
proof (induction ps arbitrary: q n tokens)
  case (Cons p ps)
  show ?case
  proof (cases "excluded p \<or> \<not> follows_piece q p \<or> DOCUMENT_BATCH_MAX \<le> n \<or> DOCUMENT_BATCH_TOKEN_BUDGET < tokens + dp_token_count p")
    case True
    then show ?thesis using Cons.prems by auto
  next
    case False
    then show ?thesis using Cons.IH [of "n + 1" "tokens + dp_token_count p" p] by (auto simp: batch_tokens_def)
  qed
qed simp

lemma select_first:
  assumes "select_pieces excluded None 0 0 ps = batch"
  shows "window batch \<and> length batch \<le> DOCUMENT_BATCH_MAX
    \<and> (batch_tokens batch \<le> DOCUMENT_BATCH_TOKEN_BUDGET \<or> length batch = 1)
    \<and> (ps \<noteq> [] \<longrightarrow> \<not> excluded (hd ps) \<longrightarrow> batch \<noteq> [] \<and> hd batch = hd ps)"
proof (cases ps)
  case (Cons p rest)
  then have "batch = (if excluded p then [] else p # select_pieces excluded (Some p) 1 (dp_token_count p) rest)"
    using assms by auto
  then show ?thesis
    using select_after [of 1 "dp_token_count p" p excluded rest]
    by (auto simp: Cons batch_tokens_def DOCUMENT_BATCH_MAX_def)
qed (use assms in \<open>auto simp: batch_tokens_def\<close>)

lemma find_Some_P: "List.find P xs = Some x \<Longrightarrow> P x \<and> x \<in> set xs"
  by (auto simp: find_Some_iff)

lemma from_block_head:
  assumes "remaining \<noteq> []" and found: "\<And>i. priority = Some i \<Longrightarrow> list_ex (\<lambda>p. dp_block_index p = i) remaining"
  shows "from_block priority remaining \<noteq> []
    \<and> (\<forall>i. priority = Some i \<longrightarrow> dp_block_index (hd (from_block priority remaining)) = i)"
proof (cases priority)
  case (Some i)
  note i = found [OF Some]
  then have drop: "dropWhile (\<lambda>p. dp_block_index p \<noteq> i) remaining \<noteq> []" by (auto simp: list_ex_iff)
  from hd_dropWhile [OF drop] show ?thesis using Some i drop by (auto simp: from_block_def)
qed (simp add: from_block_def assms(1))

lemma from_block_suffix: "suffix (from_block priority remaining) remaining"
  by (auto simp: from_block_def suffix_dropWhile split: option.splits)

lemma partition_by_id:
  assumes "distinct (map f xs)" "prefix b r" "suffix r xs"
  shows "mset b + mset (filter (\<lambda>x. f x \<notin> set (map f b)) xs) = mset xs"
proof -
  obtain u v where xs: "xs = u @ b @ v" using assms(2,3) by (auto simp: prefix_def suffix_def)
  then have "f ` set b \<inter> (f ` set u \<union> f ` set v) = {}" using assms(1) by auto
  then have "filter (\<lambda>x. f x \<notin> set (map f b)) u = u" "filter (\<lambda>x. f x \<notin> set (map f b)) v = v"
    by (auto intro!: filter_True)
  moreover have "filter (\<lambda>x. f x \<notin> set (map f b)) b = []" by (auto simp: filter_empty_conv)
  ultimately show ?thesis by (simp add: xs del: set_map)
qed

end
