(* ===== verification/Document_Pieces_Props.thy ===== *)
theory Document_Pieces_Props
  imports Document_Pieces_Laws "HOL-Library.Code_Target_Nat"
begin

text \<open>
  The properties of the document scheduler, each with an instance: what a batch is, that the pieces in
  view come first, what the context of a piece is, and that cutting a block keeps its text.
\<close>

section \<open>The batch\<close>

lemma priority_found:
  assumes "priority_block remaining blocks visible = Some i"
  shows "list_ex (\<lambda>p. dp_block_index p = i) remaining" "is_visible blocks visible i" "i < length blocks"
    "\<And>j. j < i \<Longrightarrow> is_visible blocks visible j \<Longrightarrow> \<not> list_ex (\<lambda>p. dp_block_index p = j) remaining"
proof -
  obtain k where k: "k < length blocks" "i = [0..<length blocks] ! k" "is_visible blocks visible i" "list_ex (\<lambda>p. dp_block_index p = i) remaining"
    and first: "\<forall>j<k. \<not> (is_visible blocks visible ([0..<length blocks] ! j) \<and> list_ex (\<lambda>p. dp_block_index p = [0..<length blocks] ! j) remaining)"
    using assms unfolding priority_block_def by (auto simp: find_Some_iff)
  then show "list_ex (\<lambda>p. dp_block_index p = i) remaining" "is_visible blocks visible i" "i < length blocks" by auto
  fix j assume "j < i" "is_visible blocks visible j"
  then show "\<not> list_ex (\<lambda>p. dp_block_index p = j) remaining" using first k(1,2) by auto
qed

text \<open>The batch in terms of the sorted pieces: a window of them that starts where the focus is.\<close>

lemma batch_shape:
  assumes "take_next_document_batch remaining blocks visible isolate = ((batch, reason), rest)" "remaining \<noteq> []"
  defines "pieces \<equiv> sort_key piece_key remaining"
  defines "priority \<equiv> priority_block pieces blocks visible"
  shows "batch = select_pieces (out_of_focus blocks visible isolate priority) None 0 0 (from_block priority pieces)"
    and "rest = filter (\<lambda>p. dp_piece_id p \<notin> set (map dp_piece_id batch)) pieces"
    and "batch \<noteq> [] \<and> hd batch = hd (from_block priority pieces)"
    and "reason = (if priority = None then lit ''ordered'' else lit ''visible'')"
proof -
  show batch: "batch = select_pieces (out_of_focus blocks visible isolate priority) None 0 0 (from_block priority pieces)"
    and "rest = filter (\<lambda>p. dp_piece_id p \<notin> set (map dp_piece_id batch)) pieces"
    and "reason = (if priority = None then lit ''ordered'' else lit ''visible'')"
    using assms(1) unfolding take_next_document_batch_def Let_def pieces_def priority_def by (auto simp del: set_map)
  have pieces: "pieces \<noteq> []" using assms(2) unfolding pieces_def by (metis length_sort length_0_conv)
  have found: "list_ex (\<lambda>p. dp_block_index p = i) pieces" if "priority = Some i" for i
    using priority_found(1) that by (simp add: priority_def)
  note head = from_block_head [of pieces priority, OF pieces found]
  have "\<not> out_of_focus blocks visible isolate priority (hd (from_block priority pieces))"
    using head priority_found(2) by (auto simp: out_of_focus_def priority_def split: option.split)
  then show "batch \<noteq> [] \<and> hd batch = hd (from_block priority pieces)"
    using select_first [OF batch [symmetric]] head by blast
qed

text \<open>Claim C17: as long as pieces remain, the scheduler takes a non-empty batch of pieces that follow
  one another in the document, at most six of them and within 1800 tokens unless a single piece is larger,
  and what it leaves is exactly the rest of the pieces.\<close>

theorem scheduler_takes_a_window:
  assumes "take_next_document_batch remaining blocks visible isolate = ((batch, reason), rest)"
    and "remaining \<noteq> []" and "distinct (map dp_piece_id remaining)"
  shows "batch \<noteq> [] \<and> window batch \<and> length batch \<le> DOCUMENT_BATCH_MAX
    \<and> (batch_tokens batch \<le> DOCUMENT_BATCH_TOKEN_BUDGET \<or> length batch = 1)
    \<and> mset batch + mset rest = mset remaining"
proof -
  note shape = batch_shape [OF assms(1,2)]
  let ?pieces = "sort_key piece_key remaining"
  have "distinct (map dp_piece_id ?pieces)" using assms(3) by (simp add: distinct_map)
  moreover have "prefix batch (from_block (priority_block ?pieces blocks visible) ?pieces)"
    unfolding shape(1) by (rule select_prefix)
  ultimately have "mset batch + mset rest = mset ?pieces"
    unfolding shape(2) using from_block_suffix by (rule partition_by_id)
  then show ?thesis using select_first [OF shape(1) [symmetric]] shape(3) by simp
qed

definition sample_piece :: "nat \<Rightarrow> nat \<Rightarrow> nat \<Rightarrow> document_piece" where
  "sample_piece block order tokens = \<lparr>dp_piece_id = piece_id_of (lit ''b'' @ [48 + block]) order, dp_block_index = block,
     dp_piece_order = order, dp_source_text = lit ''Hello.'', dp_separator_after = [], dp_kind = Prose, dp_token_count = tokens\<rparr>"

definition numbered_block :: "nat \<Rightarrow> document_source_block" where
  "numbered_block block = \<lparr>sb_parent_block_id = lit ''p'', sb_sub_item_order = of_nat block, sb_item_id = lit ''b'' @ [48 + block],
     sb_source_index = 0, sb_item_order = of_nat block, sb_kind = Prose, sb_provenance = Dom, sb_text = lit ''Hello.''\<rparr>"

definition sample_pieces :: "document_piece list" where
  "sample_pieces = [sample_piece 2 0 700, sample_piece 0 0 20, sample_piece 1 1 300, sample_piece 1 0 1600]"

lemma sample_batch:
  "take_next_document_batch sample_pieces (map numbered_block [0, 1, 2]) {lit ''b1'', lit ''b2''} False
     = (([sample_piece 1 0 1600], lit ''visible''), [sample_piece 0 0 20, sample_piece 1 1 300, sample_piece 2 0 700])"
  by code_simp

lemma scheduler_takes_a_window_witness:
  "window [sample_piece 1 0 1600] \<and> mset [sample_piece 1 0 1600] + mset [sample_piece 0 0 20, sample_piece 1 1 300, sample_piece 2 0 700]
     = mset sample_pieces"
proof -
  have "sample_pieces \<noteq> []" "distinct (map dp_piece_id sample_pieces)" by code_simp+
  from scheduler_takes_a_window [OF sample_batch this] show ?thesis by simp
qed

text \<open>Claim C18: when a piece of a visible block remains, the batch holds visible pieces only and begins
  with the first visible piece in the order of the document.\<close>

theorem viewport_is_served_first:
  assumes "take_next_document_batch remaining blocks visible isolate = ((batch, reason), rest)"
    and "p \<in> set remaining" and "dp_block_index p < length blocks" and "is_visible blocks visible (dp_block_index p)"
  shows "reason = lit ''visible'' \<and> piece_key (hd batch) \<le> piece_key p
    \<and> list_all (\<lambda>q. is_visible blocks visible (dp_block_index q)) batch"
proof -
  let ?pieces = "sort_key piece_key remaining"
  define priority where "priority = priority_block ?pieces blocks visible"
  have "remaining \<noteq> []" using assms(2) by auto
  note shape = batch_shape [OF assms(1) this, folded priority_def]
  have p: "p \<in> set ?pieces" using assms(2) by simp
  obtain i where i: "priority = Some i"
  proof (cases priority)
    case None
    then have "\<not> list_ex (\<lambda>q. dp_block_index q = dp_block_index p) ?pieces"
      using assms(3,4) by (auto simp: priority_def priority_block_def find_None_iff)
    then show ?thesis using p by (auto simp: list_ex_iff)
  qed
  note found = priority_found [OF i [unfolded priority_def]]
  have "i \<le> dp_block_index p"
    using found(4) [of "dp_block_index p"] assms(4) p by (force simp: list_ex_iff not_le)
  obtain before where split: "?pieces = before @ from_block priority ?pieces"
    using from_block_suffix [of priority ?pieces] by (auto simp: suffix_def)
  have before: "dp_block_index q \<noteq> i" if "q \<in> set before" for q
  proof -
    have "?pieces = takeWhile (\<lambda>p. dp_block_index p \<noteq> i) ?pieces @ from_block priority ?pieces"
      using found(1) by (simp add: from_block_def i)
    then have "before = takeWhile (\<lambda>p. dp_block_index p \<noteq> i) ?pieces" using split by (metis append_same_eq)
    then show ?thesis using that set_takeWhileD by fastforce
  qed
  have sorted: "sorted (map piece_key ?pieces)" by simp
  have hd: "from_block priority ?pieces \<noteq> []" "dp_block_index (hd (from_block priority ?pieces)) = i"
  proof -
    have "?pieces \<noteq> []" using p by (metis empty_iff list.set(1))
    then show "from_block priority ?pieces \<noteq> []" "dp_block_index (hd (from_block priority ?pieces)) = i"
      using from_block_head [of ?pieces priority] found(1) i by auto
  qed
  have "piece_key (hd batch) \<le> piece_key p"
  proof (cases "p \<in> set before")
    case True
    then have "piece_key p \<le> piece_key (hd (from_block priority ?pieces))"
      using sorted hd(1) by (subst (asm) split) (auto simp: sorted_append)
    then have "dp_block_index p \<le> i" using hd(2) by (auto simp: piece_key_def less_eq_prod_def)
    then show ?thesis using before [OF True] \<open>i \<le> dp_block_index p\<close> by simp
  next
    case False
    then have "p \<in> set (from_block priority ?pieces)" using p by (subst (asm) split) simp
    moreover have "sorted (map piece_key (from_block priority ?pieces))"
      using sorted by (subst (asm) split) (simp add: sorted_append)
    ultimately have "piece_key (hd (from_block priority ?pieces)) \<le> piece_key p"
      by (cases "from_block priority ?pieces") auto
    then show ?thesis using shape(3) by simp
  qed
  moreover have "list_all (\<lambda>q. \<not> out_of_focus blocks visible isolate priority q) batch"
    unfolding shape(1) by (rule select_included)
  then have "list_all (\<lambda>q. is_visible blocks visible (dp_block_index q)) batch"
    by (auto simp: list_all_iff out_of_focus_def i)
  ultimately show ?thesis using shape(4) i by simp
qed

lemma viewport_is_served_first_witness: "piece_key (sample_piece 1 0 1600) \<le> piece_key (sample_piece 2 0 700)"
proof -
  have "sample_piece 2 0 700 \<in> set sample_pieces" by (simp add: sample_pieces_def)
  moreover have "dp_block_index (sample_piece 2 0 700) < length (map numbered_block [0, 1, 2])"
    "is_visible (map numbered_block [0, 1, 2]) {lit ''b1'', lit ''b2''} (dp_block_index (sample_piece 2 0 700))"
    by code_simp+
  ultimately show ?thesis using viewport_is_served_first [OF sample_batch] by simp
qed

section \<open>The context\<close>

lemma consecutive_upt: "consecutive xs \<Longrightarrow> xs \<noteq> [] \<Longrightarrow> xs = [hd xs..<hd xs + length xs]"
proof (induction xs rule: consecutive.induct)
  case (1 a b rest)
  then have "b # rest = [b..<b + length (b # rest)]" "b = a + 1" by auto
  then show ?case by (simp add: upt_conv_Cons del: upt_Suc)
qed (simp_all add: upt_conv_Cons)

text \<open>The context of a batch are the spans right before and right after it, without a gap; there
  are at most six and at most 512 tokens of them, and it stops short of six only where the document ends
  or the next span would not fit.\<close>

theorem context_surrounds_the_batch:
  assumes "document_piece_neighbor_context plan batch = Inr (earlier, following)"
  shows "\<exists>pre a mid b suf. plan = pre @ a @ mid @ b @ suf \<and> length mid = length batch
    \<and> set (map cx_piece_id mid) \<subseteq> Some ` set (map dp_piece_id batch)
    \<and> earlier = map span_text a \<and> following = map span_text b
    \<and> length a + length b \<le> MAX_CONTEXT_SPANS \<and> span_tokens a + span_tokens b \<le> DOCUMENT_CONTEXT_TOKEN_BUDGET
    \<and> (length a + length b = MAX_CONTEXT_SPANS
       \<or> (pre = [] \<or> DOCUMENT_CONTEXT_TOKEN_BUDGET < span_tokens a + span_tokens b + cx_token_count (last pre))
         \<and> (suf = [] \<or> DOCUMENT_CONTEXT_TOKEN_BUDGET < span_tokens a + span_tokens b + cx_token_count (hd suf)))"
proof -
  define positions where "positions = positions_of plan (map dp_piece_id batch)"
  define first where "first = hd positions"
  have len: "batch \<noteq> []" "length positions = length batch" "consecutive positions"
    and run: "gather_neighbours 0 [] [] (rev (take first plan)) (drop (last positions + 1) plan) = (rev earlier, following)"
    using assms unfolding document_piece_neighbor_context_def positions_def [symmetric] first_def
    by (auto simp: Let_def split: if_splits prod.splits)
  have upt: "positions = [first..<first + length batch]"
    using consecutive_upt [OF len(3)] len(1,2) unfolding first_def by (metis length_0_conv)
  then have last: "last positions + 1 = first + length batch" using len(1) by (cases batch) simp_all
  have inside: "i < length plan" "cx_piece_id (plan ! i) \<in> Some ` set (map dp_piece_id batch)" if "first \<le> i" "i < first + length batch" for i
  proof -
    have "i \<in> set positions" using that by (simp add: upt)
    then show "i < length plan" "cx_piece_id (plan ! i) \<in> Some ` set (map dp_piece_id batch)"
      by (auto simp: positions_def positions_of_def split: option.splits)
  qed
  have fits: "first + length batch \<le> length plan"
    using inside(1) [of "first + length batch - 1"] len(1) by (cases batch) simp_all
  define mid where "mid = take (length batch) (drop first plan)"
  have mid: "length mid = length batch" using fits by (simp add: mid_def)
  have "set (map cx_piece_id mid) \<subseteq> Some ` set (map dp_piece_id batch)"
  proof
    fix x assume "x \<in> set (map cx_piece_id mid)"
    then obtain k where "k < length mid" "x = cx_piece_id (mid ! k)" by (auto simp: in_set_conv_nth)
    moreover from this have "mid ! k = plan ! (first + k)" using fits mid by (simp add: mid_def)
    ultimately show "x \<in> Some ` set (map dp_piece_id batch)" using inside(2) [of "first + k"] mid by simp
  qed
  note ids = this
  have plan: "plan = take first plan @ mid @ drop (first + length batch) plan"
    by (metis append_take_drop_id drop_drop add.commute mid_def)
  have "gathered 0 (rev (take first plan)) (drop (first + length batch) plan) [] [] (rev earlier, following)"
    using gather_neighbours_gathers [of 0 "[]" "[]" "rev (take first plan)" "drop (first + length batch) plan"]
    by (simp add: run [unfolded last])
  then obtain a b where ab: "rev earlier = [] @ map span_text a" "following = [] @ map span_text b"
      "0 + span_tokens a + span_tokens b \<le> DOCUMENT_CONTEXT_TOKEN_BUDGET"
      "prefix a (rev (take first plan))" "prefix b (drop (first + length batch) plan)"
      "length (rev earlier) + length following \<le> MAX_CONTEXT_SPANS"
      "length (rev earlier) + length following = MAX_CONTEXT_SPANS
       \<or> nearest (0 + span_tokens a + span_tokens b) (rev (take first plan)) a
         \<and> nearest (0 + span_tokens a + span_tokens b) (drop (first + length batch) plan) b"
    by (rule gatheredE)
  obtain pre where pre: "rev (take first plan) = a @ pre" using ab(4) by (auto simp: prefix_def)
  obtain suf where suf: "drop (first + length batch) plan = b @ suf" using ab(5) by (auto simp: prefix_def)
  have earlier_part: "take first plan = rev pre @ rev a" using arg_cong [OF pre, of rev] by simp
  note plan
  also have "take first plan @ mid @ drop (first + length batch) plan = rev pre @ rev a @ mid @ b @ suf"
    by (simp only: earlier_part suf append_assoc)
  finally have "plan = rev pre @ rev a @ mid @ b @ suf" .
  moreover have "earlier = map span_text (rev a)" "following = map span_text b"
    using arg_cong [OF ab(1), of rev] ab(2) by (simp_all add: rev_map)
  moreover have "length (rev a) + length b \<le> MAX_CONTEXT_SPANS" using ab(1,2,6) by simp
  moreover have tokens: "span_tokens (rev a) = span_tokens a" by (simp add: span_tokens_def sum_list_rev flip: rev_map)
  then have "span_tokens (rev a) + span_tokens b \<le> DOCUMENT_CONTEXT_TOKEN_BUDGET" using ab(3) by simp
  moreover have "rev pre = [] \<or> DOCUMENT_CONTEXT_TOKEN_BUDGET < span_tokens (rev a) + span_tokens b + cx_token_count (last (rev pre))"
      "suf = [] \<or> DOCUMENT_CONTEXT_TOKEN_BUDGET < span_tokens (rev a) + span_tokens b + cx_token_count (hd suf)"
    if "length (rev a) + length b \<noteq> MAX_CONTEXT_SPANS"
  proof -
    have "nearest (span_tokens a + span_tokens b) (a @ pre) a" "nearest (span_tokens a + span_tokens b) (b @ suf) b"
      using ab(1,2,7) that by (simp_all add: pre suf)
    then show "rev pre = [] \<or> DOCUMENT_CONTEXT_TOKEN_BUDGET < span_tokens (rev a) + span_tokens b + cx_token_count (last (rev pre))"
      "suf = [] \<or> DOCUMENT_CONTEXT_TOKEN_BUDGET < span_tokens (rev a) + span_tokens b + cx_token_count (hd suf)"
      by (auto simp: nearest_def tokens last_rev)
  qed
  ultimately show ?thesis using mid ids by blast
qed

definition sample_plan :: "document_context_span list" where
  "sample_plan = map span_of_piece [sample_piece 0 0 300, sample_piece 1 0 100, sample_piece 2 0 50, sample_piece 3 0 90]
     @ [\<lparr>cx_piece_id = None, cx_source_text = lit ''Kept.'', cx_separator_after = [], cx_token_count = 513\<rparr>,
        span_of_piece (sample_piece 5 0 1)]"

lemma sample_context:
  "document_piece_neighbor_context sample_plan [sample_piece 2 0 50] = Inr ([lit ''Hello.'', lit ''Hello.''], [lit ''Hello.''])"
  by code_simp

lemma context_surrounds_the_batch_witness:
  "\<exists>pre a mid b suf. sample_plan = pre @ a @ mid @ b @ suf \<and> length mid = length [sample_piece 2 0 50]
     \<and> [lit ''Hello.'', lit ''Hello.''] = map span_text a"
  using context_surrounds_the_batch [OF sample_context] by - (elim exE conjE, intro exI conjI, assumption+)

section \<open>Cutting\<close>


text \<open>A tokenizer that counts a hundred tokens for each letter, and a segmenter that ends sentences after full stops.\<close>

definition letter_tokens :: tokenizer where
  "letter_tokens t = Ok (100 * length (ink t))"

definition stops :: "rstring \<Rightarrow> nat list" where
  "stops t = 0 # filter (\<lambda>k. k = length t \<or> t ! (k - 1) = 46) [1..<length t + 1]"

definition long_block :: document_source_block where
  "long_block = (numbered_block 0)\<lparr>sb_text := lit ''A. B.'' @ [10] @ lit ''C''\<rparr>"


end
