(* ===== verification/Document_Run_Laws.thy ===== *)
theory Document_Run_Laws
  imports Document_Run Document_Pieces_Props Job_Log_Laws
begin

text \<open>
  Laws of the document pipeline: what the service and the run do to the record of the job, given what the
  environment (the model, the GPU, the other threads) leaves alone.
\<close>

section \<open>The translator\<close>

text \<open>What the model and the flag keep, the translator keeps as well: it touches the world through them only.\<close>

definition generator_keeps :: "('w \<Rightarrow> bool) \<Rightarrow> 'w generator \<Rightarrow> bool" where
  "generator_keeps J g \<longleftrightarrow> (\<forall>t. keeps J (ge_token_count g t)) \<and> (\<forall>s u. keeps J (ge_capacity g s u))
     \<and> (\<forall>s u options. keeps J (ge_generate g s u options)) \<and> (\<forall>w. J w \<longrightarrow> J (snd (ge_cancelled g w)))"

lemma calls_keep:
  assumes "generator_keeps J g"
  shows "keeps J (token_count g t)" "keeps J (completion_capacity g s u)" "keeps J (generate_streaming g s u options)"
    "keeps J (check_cancelled g)"
  using assms by (auto simp: generator_keeps_def token_count_def completion_capacity_def generate_streaming_def
      keeps_def relabelled_def check_cancelled_def Let_def split_def split: sum.split)

lemma trim_context_keeps: "generator_keeps J g \<Longrightarrow> keeps J (trim_context g us)"
  by (induction us) (auto intro!: keeping calls_keep)

lemma shrink_keeps: "generator_keeps J g \<Longrightarrow> keeps J (shrink_source_context g p f)"
proof (induction "length p + length f" arbitrary: p f rule: less_induct)
  case less
  have shrunk: "keeps J (case evict_farthest_source_context p f of None \<Rightarrow> give (p, f)
      | Some (p', f') \<Rightarrow> shrink_source_context g p' f')"
    using less by (auto intro!: keeping split: option.split dest: evict_source_shrinks)
  show ?case unfolding shrink_source_context.simps [of g p f] Let_def
    by (intro keeping calls_keep shrunk less.prems)
qed

lemma starting_context_keeps: "generator_keeps J g \<Longrightarrow> keeps J (starting_context g rolling p f)"
  unfolding starting_context_def bounded_context_def bounded_source_context_def
  by (intro keeping trim_context_keeps shrink_keeps)

lemma fit_context_keeps: "(\<And>c. keeps J (capacity c)) \<Longrightarrow> keeps J (fit_context budget capacity c)"
proof (induction budget capacity c rule: fit_context.induct)
  case (1 budget capacity ctx p f)
  then show ?case by (subst fit_context.simps) (auto intro!: keeping split: list.split option.split)
qed

lemma plan_counts_keeps: "(\<And>k. keeps J (m k)) \<Longrightarrow> keeps J (plan_counts x m n)"
  by (induction n) (auto intro!: keeping)

lemma plans_keep:
  assumes "generator_keeps J g"
  shows "keeps J (plan_translation_subbatch g r us rolling provenance)" "keeps J (plan_faithful_subbatch g fr fus rolling provenance)"
    "keeps J (plan_repair_subbatch g rr rus provenance)"
  unfolding plan_translation_subbatch_def plan_faithful_subbatch_def plan_repair_subbatch_def
    attempt_translation_def attempt_faithful_def attempt_repair_def Let_def
  by (intro plan_counts_keeps keeping calls_keep starting_context_keeps fit_context_keeps assms)+

lemma run_batches_keeps: "(\<And>us s. keeps J (step us s)) \<Longrightarrow> keeps J (run_batches fuel step us s)"
  by (induction fuel step us s rule: run_batches.induct) (auto intro!: keeping)

lemma keeps_silent [keeping]: "keeps J (\<lambda>w. (Ok (), w))"
  by (simp add: keeps_def)

lemma translator_keeps:
  assumes "generator_keeps J g"
  shows "keeps J (translate_with_source g r provenance)" "keeps J (translate_faithfully_with_source env g fr provenance)"
    "keeps J (repair_batch_with_source g rr provenance)"
  unfolding translate_with_source_def translate_with_streaming_source_def translate_faithfully_with_source_def
    repair_batch_with_source_def translation_step_def faithful_step_def repair_step_def
    translate_prepared_request_streaming_def repair_prepared_batch_def Let_def
  by (intro run_batches_keeps keeping calls_keep plans_keep assms)+

section \<open>What the environment keeps\<close>

abbreviation on_job :: "(job_record \<Rightarrow> bool) \<Rightarrow> 'o pipeline_world \<Rightarrow> bool" where
  "on_job F \<equiv> \<lambda>w. F (pw_job w)"

definition env_keeps :: "(job_record \<Rightarrow> bool) \<Rightarrow> 'o pipeline_env \<Rightarrow> bool" where
  "env_keeps F env \<longleftrightarrow> (\<forall>w. F (pw_job w) \<longrightarrow> F (pw_job (pv_others env w))) \<and> (\<forall>w. F (pw_job w) \<longrightarrow> F (pw_job (pv_release env w)))
     \<and> (\<forall>p. keeps (on_job F) (pv_acquire env p)) \<and> generator_keeps (on_job F) (pv_translator env)"

definition document_keeps :: "(job_record \<Rightarrow> bool) \<Rightarrow> 'o document_env \<Rightarrow> bool" where
  "document_keeps F de \<longleftrightarrow> env_keeps F (de_pipeline de) \<and> keeps (on_job F) (de_ready_language de)
     \<and> keeps (on_job F) (de_local_model de) \<and> (\<forall>ds. keeps (on_job F) (de_emit_evidence de ds))"

text \<open>
  What the threads of the requests do to a job that runs: they move its focus, set its cancel flag, clear its
  activity and release its source, and a cancel request appends the last update of the log (\<open>cancel_job\<close>). Everything
  else of the log is written by the run alone. \<open>job_history\<close> is what they leave as it is before the cancel request.
\<close>

definition job_history :: "job_record \<Rightarrow> job_source_kind \<times> job_log" where
  "job_history r = (jo_source_kind r, (jo_log r)\<lparr>jl_focus := \<lparr>jf_revision = 0, jf_visible_rects = [], jf_visible_block_ids = [], jf_active = False\<rparr>\<rparr>)"

inductive other_threads :: "job_record \<Rightarrow> job_record \<Rightarrow> bool" where
  unlogged: "job_history r' = job_history r \<Longrightarrow> other_threads r r'"
| cancelled: "append_locked (jo_source_kind r) (jo_log r) (DraftCancelled message) = Ok (u, l)
    \<Longrightarrow> job_history r' = job_history (r\<lparr>jo_log := l\<rparr>) \<Longrightarrow> other_threads r r'"

definition quiet_document :: "'o document_env \<Rightarrow> bool" where
  "quiet_document de \<longleftrightarrow> (\<forall>r. document_keeps (other_threads r) de)"

definition steady_document :: "job_focus \<Rightarrow> 'o document_env \<Rightarrow> bool" where
  "steady_document f de \<longleftrightarrow> document_keeps (\<lambda>r. jl_focus (jo_log r) = f) de"

definition lasting :: "(job_record \<Rightarrow> bool) \<Rightarrow> bool" where
  "lasting F \<longleftrightarrow> (\<forall>r r'. other_threads r r' \<longrightarrow> F r \<longrightarrow> F r')"

lemma other_threads_refl [simp]: "other_threads r r"
  by (simp add: unlogged)

lemma keeps_lasting:
  fixes m :: "('o pipeline_world, 'e, 'a) action"
  assumes "\<And>r. keeps (on_job (other_threads r)) m" "lasting F"
  shows "keeps (on_job F) m"
proof (rule keepsI)
  fix w :: "'o pipeline_world"
  assume "F (pw_job w)"
  moreover have "other_threads (pw_job w) (pw_job (snd (m w)))" using assms(1) [of "pw_job w"] by (simp add: keeps_def)
  ultimately show "F (pw_job (snd (m w)))" using assms(2) unfolding lasting_def by blast
qed

lemma quiet_keeps:
  assumes "quiet_document de" "lasting F"
  shows "document_keeps F de"
proof -
  have all: "document_keeps (other_threads r) de" for r using assms(1) unfolding quiet_document_def by blast
  have step: "F (pw_job (f w))" if "F (pw_job w)" "\<And>r w. other_threads r (pw_job w) \<Longrightarrow> other_threads r (pw_job (f w))" for f :: "'a pipeline_world \<Rightarrow> 'a pipeline_world" and w
    using that(1) that(2) [OF other_threads_refl, of w] assms(2) unfolding lasting_def by blast
  note defs = document_keeps_def env_keeps_def generator_keeps_def
  note kept = keeps_lasting [OF _ assms(2)]
  have steps: "F (pw_job w) \<longrightarrow> F (pw_job (pv_others (de_pipeline de) w))" "F (pw_job w) \<longrightarrow> F (pw_job (pv_release (de_pipeline de) w))"
    "F (pw_job w) \<longrightarrow> F (pw_job (snd (ge_cancelled (pv_translator (de_pipeline de)) w)))" for w
    using step [of w "pv_others (de_pipeline de)"] step [of w "pv_release (de_pipeline de)"]
      step [of w "\<lambda>w. snd (ge_cancelled (pv_translator (de_pipeline de)) w)"] all [unfolded defs] by auto
  have calls: "keeps (on_job F) (ge_token_count (pv_translator (de_pipeline de)) t)"
    "keeps (on_job F) (ge_capacity (pv_translator (de_pipeline de)) s u)"
    "keeps (on_job F) (ge_generate (pv_translator (de_pipeline de)) s u options)"
    "keeps (on_job F) (pv_acquire (de_pipeline de) p)" "keeps (on_job F) (de_ready_language de)"
    "keeps (on_job F) (de_local_model de)" "keeps (on_job F) (de_emit_evidence de ds)" for t s u options p ds
    using all [unfolded defs] by (intro kept; simp)+
  show ?thesis unfolding defs using steps calls by simp
qed

section \<open>The service\<close>

lemma others_keep: "env_keeps F env \<Longrightarrow> F (pw_job w) \<Longrightarrow> F (pw_job (pv_others env w))"
  by (simp add: env_keeps_def)

lemma translator_of_job_keeps: "env_keeps F env \<Longrightarrow> generator_keeps (on_job F) (job_translator env)"
  by (simp add: env_keeps_def generator_keeps_def job_translator_def Let_def)

lemma locked_keep:
  assumes "env_keeps F env"
  shows "keeps (on_job F) (cancellation_boundary env)" "keeps (on_job F) (with_translations env f)" "keeps (on_job F) (with_faithful env g)"
    "keeps (on_job F) (with_chapters env h)"
  using assms by (auto simp: keeps_def cancellation_boundary_def with_translations_def with_faithful_def with_chapters_def
      Let_def split_def others_keep)

lemma under_permit_keeps:
  fixes env :: "'o pipeline_env"
  assumes "env_keeps F env" "keeps (on_job F) m"
  shows "keeps (on_job F) (under_permit env priority m)"
proof -
  have released: "keeps (on_job F) (\<lambda>w. case relabelled label m w of (r, w') \<Rightarrow> (r, pv_release env w'))" for label
  proof (rule keepsI)
    fix w :: "'o pipeline_world"
    assume "F (pw_job w)"
    moreover obtain r w' where run: "relabelled label m w = (r, w')" by (cases "relabelled label m w")
    ultimately have "F (pw_job w')" using keepsD [OF keeps_relabelled [OF assms(2)] run] by simp
    then show "F (pw_job (snd (case relabelled label m w of (r, w') \<Rightarrow> (r, pv_release env w'))))"
      using assms(1) by (simp add: run env_keeps_def)
  qed
  show ?thesis unfolding under_permit_def
    by (intro keeps_and_then keeps_relabelled released) (use assms(1) in \<open>simp add: env_keeps_def\<close>)
qed

lemmas service_keeping = keeping locked_keep under_permit_keeps translator_keeps translator_of_job_keeps

lemma settle_natural_keeps: "env_keeps F env \<Longrightarrow> keeps (on_job F) (settle_natural env key level faithful_of us results)"
  by (induction env key level faithful_of us results rule: settle_natural.induct) (auto simp: Let_def intro!: service_keeping)

lemma settle_strict_keeps: "env_keeps F env \<Longrightarrow> keeps (on_job F) (settle_strict env key faithful_of states us results)"
proof (induction us arbitrary: results)
  case (Cons u us)
  then show ?case by (auto simp: Let_def split: sum.split intro!: service_keeping)
qed (simp add: keeping)

lemma establish_faithful_keeps: "env_keeps F env \<Longrightarrow> keeps (on_job F) (establish_faithful env c us)"
  unfolding establish_faithful_def Let_def by (intro service_keeping)

lemma translate_strictly_keeps:
  "env_keeps F env \<Longrightarrow> keeps (on_job F) (translate_strictly env c level_byte level key faithful_of names_of us results)"
  unfolding translate_strictly_def repair_states_def Let_def by (intro service_keeping settle_strict_keeps)

lemma translate_unit_keeps: "env_keeps F env \<Longrightarrow> keeps (on_job F) (translate_unit env us requested mode ctx p f priority)"
  unfolding translate_unit_def settle_units_def Let_def
  by (intro service_keeping establish_faithful_keeps settle_natural_keeps translate_strictly_keeps)

lemma translate_units_keeps: "env_keeps F env \<Longrightarrow> keeps (on_job F) (translate_units env us requested mode priority items)"
  by (induction us arbitrary: items) (auto intro!: service_keeping translate_unit_keeps)

lemma translate_piece_keeps: "env_keeps F env \<Longrightarrow> keeps (on_job F) (translate_document_piece env p settings plan visible)"
  unfolding translate_document_piece_def by (intro service_keeping translate_units_keeps)

section \<open>Publishing\<close>

text \<open>A log in order whose updates, the one of a cancel request apart, have a property.\<close>

definition written_by_run :: "job_update list \<Rightarrow> job_update list" where
  "written_by_run us = filter (\<lambda>u. case u of Cancelled _ _ \<Rightarrow> False | _ \<Rightarrow> True) us"

definition logged :: "(job_update list \<Rightarrow> bool) \<Rightarrow> job_record \<Rightarrow> bool" where
  "logged P r \<longleftrightarrow> jo_source_kind r = DocumentSource \<and> update_log_ok DocumentSource (jo_log r) \<and> P (written_by_run (jl_updates (jo_log r)))"

lemma log_ok_unfocused [simp]: "update_log_ok kind (l\<lparr>jl_focus := f\<rparr>) = update_log_ok kind l"
  by (simp add: update_log_ok_def log_matches_def)

lemma logged_history: "logged P r \<longleftrightarrow> fst (job_history r) = DocumentSource \<and> update_log_ok DocumentSource (snd (job_history r))
    \<and> P (written_by_run (jl_updates (snd (job_history r))))"
  by (simp add: logged_def job_history_def)

lemma push_updates [simp]: "jl_updates (push_update u l) = jl_updates l @ [u]"
  by (simp add: push_update_def Let_def store_item_def split: job_update.split option.split)

lemma logged_lasting: "lasting (logged P)"
  unfolding lasting_def
proof (intro allI impI)
  fix r r' assume "other_threads r r'" "logged P r"
  then show "logged P r'"
  proof cases
    case (cancelled message u l)
    have "logged P (r\<lparr>jo_log := l\<rparr>)"
      using append_keeps_ok [OF _ cancelled(1)] cancelled(1) \<open>logged P r\<close>
      by (auto simp: logged_def append_locked_Ok drafted_update_def written_by_run_def)
    then show ?thesis using cancelled(2) by (simp add: logged_history)
  qed (simp add: logged_history)
qed

lemma written_Nil [simp]: "written_by_run [] = []"
  by (simp add: written_by_run_def)

lemma written_into: "\<not> is_cancellation d \<Longrightarrow> written_by_run (us @ [into_update d s t p]) = written_by_run us @ [into_update d s t p]"
  by (cases d) (simp_all add: written_by_run_def is_cancellation_def)

lemma append_logged:
  assumes "append_update seen r d = Ok (u, r')" "logged P r" "\<not> is_cancellation d" "\<And>us s t p. P us \<Longrightarrow> Q (us @ [into_update d s t p])"
  shows "logged Q r'"
proof -
  note parts = reachable_after_append [OF assms(1)]
  have "u = drafted_update (jo_log r) d" "jo_log r' = push_update u (jo_log r)"
    using parts(1) by (simp_all add: append_locked_Ok)
  then show ?thesis
    using assms(2-4) append_keeps_ok [of DocumentSource "jo_log r" d u "jo_log r'"] parts(1,2)
    by (simp add: logged_def drafted_update_def written_into)
qed

lemma sink_publish_triple:
  assumes "\<And>P. env_keeps (logged P) env" "\<not> is_cancellation d" "\<And>us s t p. P us \<Longrightarrow> Q (us @ [into_update d s t p])"
  shows "triple (on_job (logged P)) (sink_publish env d) (\<lambda>_. on_job (logged Q)) (\<lambda>_. on_job (logged P))"
proof (rule tripleI)
  fix w r w'
  assume start: "logged P (pw_job w)" and run: "sink_publish env d w = (r, w')"
  define w1 where "w1 = pv_others env w"
  define w2 where "w2 = pv_others env w1"
  have w2: "logged P (pw_job w2)" unfolding w2_def w1_def by (intro others_keep [OF assms(1)] start)
  show "case r of Inl e \<Rightarrow> logged P (pw_job w') | Inr x \<Rightarrow> logged Q (pw_job w')"
  proof (cases "append_update (jo_cancel (pw_job w1)) (pw_job w2) d")
    case (Inl e)
    then show ?thesis using run others_keep [OF assms(1) w2]
      by (auto simp: sink_publish_def Let_def simp flip: w1_def w2_def)
  next
    case (Inr s)
    then show ?thesis using run append_logged [of "jo_cancel (pw_job w1)" "pw_job w2" d "fst s" "snd s" P Q] w2 assms(2,3)
      by (cases s) (auto simp: sink_publish_def Let_def simp flip: w1_def w2_def)
  qed
qed

lemma keeps_triple: "keeps J m \<longleftrightarrow> triple J m (\<lambda>_. J) (\<lambda>_. J)"
  by (auto simp: keeps_def triple_def split_def split: sum.splits)

lemma sink_publish_keeps:
  assumes "\<And>P. env_keeps (logged P) env" "\<not> is_cancellation d" "\<And>us s t p. P us \<Longrightarrow> P (us @ [into_update d s t p])"
  shows "keeps (on_job (logged P)) (sink_publish env d)"
  unfolding keeps_triple by (rule sink_publish_triple) (use assms in auto)

end
