(* ===== verification/Document_Sample.thy ===== *)
theory Document_Sample
  imports Document_Run_Laws Hsk_Sample
begin

text \<open>
  A document of one block, a run of which needs no model: another job has left the translation of its only
  piece in the cache. The other threads do nothing and the GPU is free.
\<close>

definition silent_generator :: "'w generator" where
  "silent_generator = \<lparr>ge_token_count = (\<lambda>t w. (Err (lit ''unloaded''), w)), ge_capacity = (\<lambda>s u w. (Err (lit ''unloaded''), w)),
     ge_generate = (\<lambda>s u options w. (Err (lit ''unloaded''), w)), ge_cancelled = (\<lambda>w. (False, w))\<rparr>"

definition hello_pipeline :: "hsk_control \<Rightarrow> unit pipeline_env" where
  "hello_pipeline hc = \<lparr>pv_control = hc, pv_translator = silent_generator,
     pv_names = \<lparr>te_alphabetic = is_ascii_alphabetic, te_uppercase = (\<lambda>c. 65 \<le> c \<and> c \<le> 90), te_parse_names = (\<lambda>_. None)\<rparr>,
     pv_acquire = (\<lambda>p. give ()), pv_release = (\<lambda>w. w), pv_others = (\<lambda>w. w), pv_faithful_hash = (\<lambda>k. lit ''f''),
     pv_translation_hash = (\<lambda>k. lit ''t''), pv_error_text = (\<lambda>e. lit ''failed''), pv_entry_size = 256\<rparr>"

definition sample_documents :: "hsk_control \<Rightarrow> unit document_env" where
  "sample_documents hc = \<lparr>de_pipeline = hello_pipeline hc, de_tokens = (\<lambda>t. if length t \<le> 10 then Ok (length t) else Err (lit ''too long'')), de_segment = (\<lambda>t. [0, length t]),
     de_ready_language = give (), de_local_model = give (), de_emit_evidence = (\<lambda>ds. give ())\<rparr>"

definition hello_block :: document_source_block where
  "hello_block = \<lparr>sb_parent_block_id = lit ''p'', sb_sub_item_order = 0, sb_item_id = lit ''b'',
     sb_source_index = 0, sb_item_order = 0, sb_kind = Prose, sb_provenance = Dom, sb_text = lit ''Hello.''\<rparr>"

definition hello_request :: document_job_request where
  "hello_request = \<lparr>dj_build_fingerprint = lit ''f'', dj_client_request_id = lit ''c'', dj_retry_item_ids = [],
     dj_focus = FocusDocument [lit ''b''] True, dj_page_session_id = lit ''s'', dj_source_sha256 = replicate 64 97,
     dj_settings = \<lparr>bs_source_language = lit ''en'', bs_target_language = lit ''zh'', bs_hsk_standard = BROWSER_HSK_STANDARD,
       bs_hsk_level = One, bs_learning_mode = Strict\<rparr>, dj_blocks = [hello_block]\<rparr>"

definition hello_faithful :: faithful_text where
  "hello_faithful = \<lparr>ft_text = word_nihao, ft_protected_names = []\<rparr>"

definition hello_translation :: cached_translation where
  "hello_translation = natural_translation hello_faithful (validate_text sample_engine word_nihao (HskLevel 1) [])"

definition hello_world :: "unit pipeline_world" where
  "hello_world = \<lparr>pw_job = new_document 1 (lit ''j'') [lit ''b''], pw_chapters = [],
     pw_translations = empty_translation_cache\<lparr>tc_entries := [(lit ''t'', \<lparr>tv_value = hello_translation, tv_bytes = 0, tv_last_used = 0\<rparr>)]\<rparr>,
     pw_faithful = empty_translation_cache, pw_outside = ()\<rparr>"

text \<open>A second document, whose block the tokenizer cannot count.\<close>

definition long_hello :: document_source_block where
  "long_hello = hello_block\<lparr>sb_text := lit ''Hello everyone.''\<rparr>"

definition long_request :: document_job_request where
  "long_request = hello_request\<lparr>dj_blocks := [long_hello]\<rparr>"

definition empty_world :: "unit pipeline_world" where
  "empty_world = \<lparr>pw_job = new_document 1 (lit ''j'') [lit ''b''], pw_chapters = [],
     pw_translations = empty_translation_cache, pw_faithful = empty_translation_cache, pw_outside = ()\<rparr>"

lemma long_hello_is_answered: "is_ok (fst (run_document 1 (sample_documents hc) long_request empty_world))"
  by code_simp

lemma hello_pieces: "length (pl_pieces (plan_document (de_tokens (sample_documents hc)) (de_segment (sample_documents hc)) 0 (dj_blocks hello_request))) = 1"
  by code_simp

text \<open>What the environment leaves alone, and where the log starts.\<close>

lemma sample_keeps: "document_keeps F (sample_documents hc)"
  by (simp add: document_keeps_def env_keeps_def generator_keeps_def sample_documents_def hello_pipeline_def silent_generator_def
      keeps_def give_def)

lemma sample_quiet: "quiet_document (sample_documents hc)"
  by (simp add: quiet_document_def sample_keeps)

lemma sample_steady: "steady_document f (sample_documents hc)"
  by (simp add: steady_document_def sample_keeps)

lemma new_document_logged: "logged (\<lambda>us. us = []) (new_document order i ids)"
  by (simp add: logged_def new_document_def new_record_def new_log_def Let_def update_log_ok_def updates_ok_def log_matches_def collect_Nil)

lemma worlds_start_new:
  "logged (\<lambda>us. us = []) (pw_job hello_world)" "logged (\<lambda>us. us = []) (pw_job empty_world)"
  by (simp_all add: hello_world_def empty_world_def new_document_logged)

end
