(* ===== verification/Document_Run_Props.thy ===== *)
theory Document_Run_Props
  imports Document_Sample
begin

text \<open>
  What a run keeps of the record of its job, what a document in strict mode may show, and how one block
  can end the job.
\<close>

section \<open>What a run publishes\<close>

definition run_draft :: "'o pipeline_env \<Rightarrow> document_job_request \<Rightarrow> job_update_draft \<Rightarrow> bool" where
  "run_draft env r d \<longleftrightarrow>
     (\<exists>stage sp op current n message. d = DraftProgress stage sp op current n message)
     \<or> (\<exists>b reason. d = preserved_draft b reason)
     \<or> (\<exists>a level. level_new (browser_level_u8 (bs_hsk_level (dj_settings r))) = Inr level
          \<and> \<not> learning_policy_requires_repair (joined_report env level a) (bs_learning_mode (dj_settings r))
          \<and> d = ready_draft env (bs_hsk_level (dj_settings r)) (bs_learning_mode (dj_settings r)) (da_block a) (joined_translation env level a))"

definition publishing_keeps :: "(job_record \<Rightarrow> bool) \<Rightarrow> 'o pipeline_env \<Rightarrow> document_job_request \<Rightarrow> bool" where
  "publishing_keeps F env r \<longleftrightarrow> (\<forall>d. run_draft env r d \<longrightarrow> keeps (on_job F) (sink_publish env d))"

lemma run_drafts:
  "run_draft env r (DraftProgress stage sp op current n message)" "run_draft env r (preserved_draft b reason)"
  "level_new (browser_level_u8 (bs_hsk_level (dj_settings r))) = Inr level
   \<Longrightarrow> \<not> learning_policy_requires_repair (joined_report env level a) (bs_learning_mode (dj_settings r))
   \<Longrightarrow> run_draft env r (ready_draft env (bs_hsk_level (dj_settings r)) (bs_learning_mode (dj_settings r)) (da_block a) (joined_translation env level a))"
  by (force simp: run_draft_def)+

lemma run_drafts_never_cancel: "run_draft env r d \<Longrightarrow> \<not> is_cancellation d"
  by (auto simp: run_draft_def is_cancellation_def preserved_draft_def ready_draft_def)

lemma publishing_keepsD: "publishing_keeps F env r \<Longrightarrow> run_draft env r d \<Longrightarrow> keeps (on_job F) (sink_publish env d)"
  by (simp add: publishing_keeps_def)

lemma attempt_keeps [keeping]: "keeps J m \<Longrightarrow> keeps J (attempt m)"
  by (simp add: attempt_def keeping)

lemma keeps_pair2 [keeping]: "(\<And>x y. keeps J (f x y z)) \<Longrightarrow> keeps J ((case p of (x, y) \<Rightarrow> f x y) z)"
  by (cases p) simp

lemma sink_focus_keeps: "env_keeps F env \<Longrightarrow> keeps (on_job F) (sink_focus env)"
  unfolding sink_focus_def by (rule keeps_observe) (simp add: Let_def others_keep)

lemma wait_keeps: "env_keeps F env \<Longrightarrow> keeps (on_job F) (wait_for_active_document fuel env)"
  by (induction fuel) (auto intro!: keeping locked_keep sink_focus_keeps)

lemma publish_progress_keeps:
  "publishing_keeps F env r \<Longrightarrow> keeps (on_job F) (publish_progress env stage sp op current n message)"
  unfolding publish_progress_def by (rule publishing_keepsD [OF _ run_drafts(1)])

lemma publish_preserved_keeps: "publishing_keeps F env r \<Longrightarrow> keeps (on_job F) (publish_preserved env a reason)"
  unfolding publish_preserved_def by (intro keeping publishing_keepsD [OF _ run_drafts(2)])

lemma publish_joined_keeps:
  assumes "env_keeps F env" "publishing_keeps F env r" "level_new (browser_level_u8 (bs_hsk_level (dj_settings r))) = Inr level"
  shows "keeps (on_job F) (publish_joined env (bs_hsk_level (dj_settings r)) (bs_learning_mode (dj_settings r)) page level a)"
proof (cases "learning_policy_requires_repair (joined_report env level a) (bs_learning_mode (dj_settings r))")
  case True
  then show ?thesis using publish_preserved_keeps [OF assms(2)] by (simp add: publish_joined_def)
next
  case False
  then have "keeps (on_job F) (sink_publish env (ready_draft env (bs_hsk_level (dj_settings r)) (bs_learning_mode (dj_settings r)) (da_block a) (joined_translation env level a)))"
    by (intro publishing_keepsD [OF assms(2)] run_drafts assms(3))
  then show ?thesis using False by (auto simp: publish_joined_def Let_def intro!: service_keeping assms(1))
qed

lemma publish_document_accumulator_keeps:
  assumes "env_keeps F env" "publishing_keeps F env r"
  shows "keeps (on_job F) (publish_document_accumulator env (bs_hsk_level (dj_settings r)) (bs_learning_mode (dj_settings r)) page a)"
  using publish_joined_keeps [OF assms] publish_preserved_keeps [OF assms(2)]
  by (cases "level_new (browser_level_u8 (bs_hsk_level (dj_settings r)))")
    (auto simp: publish_document_accumulator_def keeps_def checked_def relabelled_def and_then_def give_def split: option.split)

lemma publish_ready_keeps:
  assumes "env_keeps F env" "publishing_keeps F env r"
  shows "keeps (on_job F) (publish_ready env r st)"
proof -
  have "keeps (on_job F) (publish_ready_document_blocks env (bs_hsk_level (dj_settings r)) (bs_learning_mode (dj_settings r)) page accs n)" for page accs n
    by (induction accs arbitrary: n) (auto intro!: keeping publish_document_accumulator_keeps [OF assms])
  then show ?thesis unfolding publish_ready_def by (intro keeping)
qed

lemma translate_batch_keeps:
  assumes "env_keeps F env" "publishing_keeps F env r"
  shows "keeps (on_job F) (translate_batch env r plan focus ps st)"
  by (induction ps arbitrary: st)
     (auto intro!: keeping sink_focus_keeps assms translate_piece_keeps publish_ready_keeps [OF assms])

lemma run_turn_keeps:
  assumes "document_keeps F de" "publishing_keeps F (de_pipeline de) r"
  shows "keeps (on_job F) (run_turn fuel de r plan st)"
proof -
  have env: "env_keeps F (de_pipeline de)" using assms(1) by (simp add: document_keeps_def)
  have evidence: "keeps (on_job F) (emit_evidence de ds)" for ds
    using assms(1) by (simp add: document_keeps_def emit_evidence_def keeping)
  have progress: "keeps (on_job F) (batch_progress (de_pipeline de) n m)" for n m
    unfolding batch_progress_def by (intro keeping publish_progress_keeps [OF assms(2)])
  show ?thesis unfolding run_turn_def Let_def
    by (intro keeping locked_keep wait_keeps env evidence progress translate_batch_keeps [OF env assms(2)])
qed

lemma run_turns_keeps:
  assumes "document_keeps F de" "publishing_keeps F (de_pipeline de) r"
  shows "keeps (on_job F) (run_turns fuel de r plan st)"
  by (induction fuel arbitrary: st) (auto intro!: keeping run_turn_keeps assms)

lemma run_document_keeps:
  assumes "document_keeps F de" "publishing_keeps F (de_pipeline de) r"
  shows "keeps (on_job F) (run_document fuel de r)"
proof -
  have env: "env_keeps F (de_pipeline de)" and ready: "keeps (on_job F) (de_ready_language de)" "keeps (on_job F) (de_local_model de)"
    and evidence: "keeps (on_job F) (emit_evidence de ds)" for ds
    using assms(1) by (auto simp: document_keeps_def emit_evidence_def intro: keeping)
  show ?thesis unfolding run_document_def start_document_def Let_def
    by (intro keeping locked_keep ready env evidence sink_focus_keeps publish_progress_keeps [OF assms(2)]
        publish_ready_keeps [OF env assms(2)] run_turns_keeps [OF assms])
qed

text \<open>Appending what the run publishes keeps a property of the updates.\<close>

definition run_appends :: "'o pipeline_env \<Rightarrow> document_job_request \<Rightarrow> (job_update list \<Rightarrow> bool) \<Rightarrow> bool" where
  "run_appends env r P \<longleftrightarrow> (\<forall>d us s t p. run_draft env r d \<longrightarrow> P us \<longrightarrow> P (us @ [into_update d s t p]))"

lemma quiet_env: "quiet_document de \<Longrightarrow> env_keeps (logged P) (de_pipeline de)"
  using quiet_keeps [OF _ logged_lasting] by (auto simp: document_keeps_def)

lemma publishing_keeps_logged:
  assumes "quiet_document de" "run_appends (de_pipeline de) r P"
  shows "publishing_keeps (logged P) (de_pipeline de) r"
  unfolding publishing_keeps_def
  by (intro allI impI sink_publish_keeps quiet_env assms(1)) (use assms(2) in \<open>auto simp: run_appends_def dest: run_drafts_never_cancel\<close>)

lemma run_logged:
  assumes "quiet_document de" "run_appends (de_pipeline de) r P" "logged P (pw_job w)" "run_document fuel de r w = (result, w')"
  shows "logged P (pw_job w')"
  using keepsD [OF run_document_keeps [OF quiet_keeps [OF assms(1) logged_lasting] publishing_keeps_logged [OF assms(1,2)]] assms(4)] assms(3)
  by simp

section \<open>Strict documents\<close>

text \<open>A block that a strict document may show: the text is the normal form of one that the validator
  finds strictly valid at the requested level, with no exception but the names published with it.\<close>

definition strict_block :: "hsk_control \<Rightarrow> document_block_ready \<Rightarrow> bool" where
  "strict_block hc b \<longleftrightarrow> (hs_learning_mode (tx_hsk (br_text b)) = Strict \<longrightarrow>
     hs_strictly_valid (tx_hsk (br_text b))
     \<and> (\<exists>t level. level_new (browser_level_u8 (hs_requested_level (tx_hsk (br_text b)))) = Inr level
          \<and> (let report = validate_text hc t level (proper_names \<lparr>ft_text = t, ft_protected_names = tx_protected_names (br_text b)\<rparr>)
             in vr_strictly_valid report \<and> tx_displayed_chinese (br_text b) = vr_normalized_text report)))"

definition strict_update :: "hsk_control \<Rightarrow> job_update \<Rightarrow> bool" where
  "strict_update hc u = (case u of DocumentBlockReady _ b \<Rightarrow> strict_block hc b | _ \<Rightarrow> True)"

lemma strict_as_written: "list_all (strict_update hc) (written_by_run us) = list_all (strict_update hc) us"
  by (induction us) (auto simp: written_by_run_def strict_update_def split: job_update.split)

lemma ready_draft_strict:
  assumes "level_new (browser_level_u8 requested) = Inr level" "\<not> learning_policy_requires_repair (joined_report env level a) mode"
  shows "strict_update (pv_control env) (into_update (ready_draft env requested mode b (joined_translation env level a)) s t p)"
  using assms
  by (auto simp: strict_update_def ready_draft_def strict_block_def hsk_status_of_def joined_translation_def joined_report_def
      learning_policy_requires_repair_def proper_names_def Let_def intro!: exI [of _ "joined_text ct_displayed_chinese a"] exI [of _ level])



section \<open>One block can end the job\<close>

lemma check_sequence_Err: "x \<in> set xs \<Longrightarrow> \<not> is_ok (f x) \<Longrightarrow> \<not> is_ok (check_sequence f xs)"
  by (induction xs) (auto simp: try_bind_def split: sum.split)

lemma too_many_avoid_terms:
  assumes "u \<in> set (rq_utterances r)" "32 < length (ru_avoid_chinese u)"
  shows "\<not> is_ok (validate_repair_request r)"
proof -
  have "\<not> is_ok (validate_repair_utterance u)"
    using assms(2) by (auto simp: validate_repair_utterance_def try_bind_def reject_if_def split: sum.split)
  then have "\<not> is_ok (try_bind (validate_layout_budget (ru_id u) (ru_layout u)) (\<lambda>_. validate_repair_utterance u))"
    by (auto simp: try_bind_def split: sum.split)
  then have "\<not> is_ok (check_sequence (\<lambda>u. try_bind (validate_layout_budget (ru_id u) (ru_layout u)) (\<lambda>_. validate_repair_utterance u)) (rq_utterances r))"
    by (rule check_sequence_Err [OF assms(1)])
  then show ?thesis unfolding validate_repair_request_def by (auto simp: try_bind_def split: sum.split)
qed

lemma never_Ok_relabelled: "\<not> is_ok (fst (m w)) \<Longrightarrow> \<not> is_ok (fst (relabelled label m w))"
  by (cases "m w"; cases "fst (m w)") (auto simp: relabelled_def)

lemma never_Ok_first: "\<not> is_ok (fst (m w)) \<Longrightarrow> \<not> is_ok (fst (and_then m f w))"
  by (cases "m w"; cases "fst (m w)") (auto simp: and_then_def)

lemma never_Ok_and_then: "(\<And>x w. \<not> is_ok (fst (f x w))) \<Longrightarrow> \<not> is_ok (fst (and_then m f w))"
  by (auto simp: and_then_def split: prod.split sum.split)

lemma never_Ok_permit:
  assumes "\<And>w. \<not> is_ok (fst (m w))"
  shows "\<not> is_ok (fst (under_permit env p m w))"
  unfolding under_permit_def
proof (rule never_Ok_and_then)
  fix x w
  show "\<not> is_ok (fst (case relabelled label m w of (r, w') \<Rightarrow> (r, pv_release env w')))" for label
    using never_Ok_relabelled [of m w label, OF assms] by (simp add: split_def)
qed

lemma never_Ok_checked: "\<not> is_ok r \<Longrightarrow> \<not> is_ok (fst (and_then (checked r) f w))"
  by (cases r) (auto simp: and_then_def checked_def)


definition hard_report :: validation_report where
  "hard_report = \<lparr>vr_normalized_text = map (\<lambda>k. 0x4F60 + k) [0..<33], vr_requested_level = HskLevel 1, vr_strictly_valid = False,
     vr_lexical_token_count = 33, vr_above_level_token_count = 33,
     vr_violations = map (\<lambda>k. \<lparr>vi_text = [0x4F60 + k], vi_start = k, vi_end = k + 1, vi_reason = KnownDictionaryWord, vi_suggested_words = []\<rparr>) [0..<33],
     vr_exceptions = [], vr_cache_revision = lit ''r''\<rparr>"

definition hard_state :: translation_state where
  "hard_state = \<lparr>ts_base_chinese = Some (vr_normalized_text hard_report), ts_displayed_chinese = Some (vr_normalized_text hard_report),
     ts_latest_rejected_chinese = None, ts_latest_rejected_report = None, ts_report = Some hard_report,
     ts_problems = [rewrite_problem (violation_texts hard_report)], ts_structurally_valid = True, ts_learning_mode = Strict,
     ts_repair_state = NotNeeded\<rparr>"

definition hard_unit :: translation_unit where
  "hard_unit = \<lparr>tu_id = lit ''b:0'', tu_kind = ProseSpan, tu_source_text = lit ''Hello.'', tu_faithful_chinese = None,
     tu_provenance = DomSource, tu_layout = None, tu_preceding = [], tu_following = []\<rparr>"

definition hard_context :: unit_context where
  "hard_context = \<lparr>uc_context = [], uc_preceding_english = [], uc_following_english = [], uc_provenance = DomSource, uc_priority = Visible\<rparr>"


end
