(* ===== verification/Document_Run_Answers.thy ===== *)
theory Document_Run_Answers
  imports Document_Run_Props Job_Storage
begin

text \<open>
  The bookkeeping of a run: an accumulator that counts as published stands for a block whose item is in the
  log, and whatever is complete is published by the next call of \<open>publish_ready_document_blocks\<close>.
\<close>

definition answered :: "job_update list \<Rightarrow> rstring \<Rightarrow> bool" where
  "answered us i \<longleftrightarrow> (\<exists>u \<in> set us. update_item u = Some i)"

definition recorded :: "document_job_request \<Rightarrow> document_accumulator list \<Rightarrow> job_update list \<Rightarrow> bool" where
  "recorded r accs us \<longleftrightarrow> (\<forall>a \<in> set accs. da_published a \<longrightarrow> is_targeted r (da_block a) \<longrightarrow> answered us (sb_item_id (da_block a)))"

lemma answered_append [simp]: "answered (us @ vs) i \<longleftrightarrow> answered us i \<or> answered vs i"
  by (auto simp: answered_def)

lemma answered_as_written: "answered (written_by_run us) i \<Longrightarrow> answered us i"
  by (auto simp: answered_def written_by_run_def)

lemma recorded_append: "recorded r accs us \<Longrightarrow> recorded r accs (us @ vs)"
  by (auto simp: recorded_def)

lemma recorded_Cons: "recorded r (a # accs) us \<longleftrightarrow> recorded r [a] us \<and> recorded r accs us"
  by (auto simp: recorded_def)

section \<open>What the other threads do\<close>

text \<open>The requests that a client sends while its job runs, of which \<open>quiet_document\<close> allows any number.\<close>

lemma focus_request_allowed: "other_threads r (r\<lparr>jo_log := fst (update_focus kind (jo_log r) request)\<rparr>)"
  by (rule unlogged) (cases kind; cases request; simp add: job_history_def update_focus_def Let_def)

lemma cancel_request_allowed: "other_threads r (cancel_record r)"
proof -
  let ?d = "DraftCancelled (Some (lit ''Cancelled''))"
  show ?thesis
  proof (cases "append_locked (jo_source_kind r) (jo_log r) ?d")
    case (Inl e)
    then show ?thesis
      by (intro unlogged) (simp add: cancel_record_def Let_def job_history_def try_append_def append_update_def release_source_def finish_active_def is_cancellation_def)
  next
    case (Inr s)
    then obtain u l where app: "append_locked (jo_source_kind r) (jo_log r) ?d = Ok (u, l)" by (cases s) auto
    then have "\<not> jl_terminal (jo_log r)" by (simp add: append_locked_Ok append_checks_Ok)
    then show ?thesis using app
      by (intro cancelled [OF app]) (simp add: cancel_record_def Let_def job_history_def try_append_def append_update_def release_source_def
          finish_active_def is_cancellation_def is_terminal_def)
  qed
qed

lemma store_unfocused: "store_item u (l\<lparr>jl_focus := f\<rparr>) = (store_item u l)\<lparr>jl_focus := f\<rparr>"
  by (simp add: store_item_def split: job_update.split option.split)

lemma parts_unfocused:
  "append_checks kind (l\<lparr>jl_focus := f\<rparr>) d = append_checks kind l d" "drafted_update (l\<lparr>jl_focus := f\<rparr>) d = drafted_update l d"
  "push_update u (l\<lparr>jl_focus := f\<rparr>) = (push_update u l)\<lparr>jl_focus := f\<rparr>"
  by (simp_all add: append_checks_def drafted_update_def push_update_def store_unfocused Let_def split: option.split)

lemma append_unfocused:
  "append_locked kind (l\<lparr>jl_focus := f\<rparr>) d = map_sum id (map_prod id (\<lambda>l'. l'\<lparr>jl_focus := f\<rparr>)) (append_locked kind l d)"
  by (cases "append_checks kind l d"; cases "validate_update (drafted_update l d)") (simp_all add: append_locked_def parts_unfocused Let_def)

lemma same_history_appends:
  assumes "job_history r' = job_history r" "append_locked (jo_source_kind r) (jo_log r) d = Ok (u, l)"
  obtains l' where "append_locked (jo_source_kind r') (jo_log r') d = Ok (u, l')" "job_history (r'\<lparr>jo_log := l'\<rparr>) = job_history (r\<lparr>jo_log := l\<rparr>)"
proof -
  let ?f = "\<lparr>jf_revision = 0, jf_visible_rects = [], jf_visible_block_ids = [], jf_active = False\<rparr>"
  have "append_locked (jo_source_kind r') ((jo_log r')\<lparr>jl_focus := ?f\<rparr>) d = append_locked (jo_source_kind r) ((jo_log r)\<lparr>jl_focus := ?f\<rparr>) d"
    using assms(1) by (simp add: job_history_def)
  then have "map_sum id (map_prod id (\<lambda>l'. l'\<lparr>jl_focus := ?f\<rparr>)) (append_locked (jo_source_kind r') (jo_log r') d) = Ok (u, l\<lparr>jl_focus := ?f\<rparr>)"
    using assms(2) by (simp add: append_unfocused)
  then obtain l' where "append_locked (jo_source_kind r') (jo_log r') d = Ok (u, l')" "l'\<lparr>jl_focus := ?f\<rparr> = l\<lparr>jl_focus := ?f\<rparr>"
    by (cases "append_locked (jo_source_kind r') (jo_log r') d") auto
  then show ?thesis using that assms(1) by (simp add: job_history_def)
qed

lemma other_threads_trans: "other_threads r1 r2 \<Longrightarrow> other_threads r2 r3 \<Longrightarrow> other_threads r1 r3"
proof (induction rule: other_threads.induct)
  case (unlogged r' r)
  from unlogged(2,1) show ?case
  proof cases
    case (cancelled message u l)
    from same_history_appends [OF unlogged(1) [symmetric] cancelled(1)] obtain l' where
      "append_locked (jo_source_kind r) (jo_log r) (DraftCancelled message) = Ok (u, l')" "job_history (r\<lparr>jo_log := l'\<rparr>) = job_history (r'\<lparr>jo_log := l\<rparr>)" .
    then show ?thesis using cancelled(2) by (metis other_threads.cancelled)
  qed (simp add: other_threads.unlogged)
next
  case (cancelled r message u l r')
  from cancelled(3,1,2) show ?case
  proof cases
    case (cancelled m v k)
    have "jl_terminal l" using \<open>append_locked (jo_source_kind r) (jo_log r) (DraftCancelled message) = Ok (u, l)\<close>
      by (auto simp: append_locked_Ok push_update_def Let_def drafted_update_def)
    moreover have "jl_terminal (jo_log r') = jl_terminal l"
      using arg_cong [OF \<open>job_history r' = job_history (r\<lparr>jo_log := l\<rparr>)\<close>, of "\<lambda>h. jl_terminal (snd h)"] by (simp add: job_history_def)
    ultimately show ?thesis using cancelled(1) by (simp add: append_locked_Ok append_checks_Ok)
  qed (auto intro: other_threads.cancelled)
qed

lemma cancelled_document_quiet:
  "quiet_document (sample_documents hc\<lparr>de_pipeline := hello_pipeline hc\<lparr>pv_others := \<lambda>w. w\<lparr>pw_job := cancel_record (pw_job w)\<rparr>\<rparr>\<rparr>)"
  using sample_keeps [of _ hc] other_threads_trans [OF _ cancel_request_allowed]
  by (simp add: quiet_document_def document_keeps_def env_keeps_def generator_keeps_def sample_documents_def hello_pipeline_def silent_generator_def
      keeps_def give_def)

section \<open>Accumulators\<close>

text \<open>What publishing does to an accumulator.\<close>

definition settled :: "document_accumulator \<Rightarrow> document_accumulator \<Rightarrow> bool" where
  "settled a a' \<longleftrightarrow> da_block a' = da_block a \<and> (da_published a \<or> is_complete a \<longrightarrow> da_published a')"

lemma settled_refl: "da_published a \<or> \<not> is_complete a \<Longrightarrow> settled a a"
  by (auto simp: settled_def)

lemma list_all2_settled:
  "list_all2 settled accs accs' \<Longrightarrow> map da_block accs' = map da_block accs
     \<and> (list_all (\<lambda>a. da_published a \<or> is_complete a) accs \<longrightarrow> list_all da_published accs')"
  by (induction rule: list_all2_induct) (auto simp: settled_def)

abbreviation anything :: "'e \<Rightarrow> 'w \<Rightarrow> bool" where
  "anything \<equiv> \<lambda>_ _. True"

text \<open>A step that leaves the log alone keeps what is logged.\<close>

lemma keeps_step: "keeps J m \<Longrightarrow> triple J m (\<lambda>_. J) anything"
  by (simp add: keeps_triple triple_weaken)

lemma triple_if: "(b \<Longrightarrow> triple P m Q E) \<Longrightarrow> (\<not> b \<Longrightarrow> triple P n Q E) \<Longrightarrow> triple P (if b then m else n) Q E"
  by simp

lemma publish_step:
  assumes "\<And>P. env_keeps (logged P) env" "\<not> is_cancellation d" "\<And>us s t p. P us \<Longrightarrow> Q (us @ [into_update d s t p])"
  shows "triple (on_job (logged P)) (sink_publish env d) (\<lambda>_. on_job (logged Q)) anything"
  by (rule triple_weaken, rule sink_publish_triple [where P = P and Q = Q], rule assms(1), rule assms(2), erule assms(3)) auto

lemma drafts_never_cancel [simp]:
  "\<not> is_cancellation (DraftProgress stage sp op current n message)" "\<not> is_cancellation (preserved_draft b reason)"
  "\<not> is_cancellation (ready_draft env requested mode b x)"
  by (simp_all add: is_cancellation_def preserved_draft_def ready_draft_def)

lemma answered_drafts:
  "answered [into_update (preserved_draft b reason) s t p] (sb_item_id b)"
  "answered [into_update (ready_draft env requested mode b x) s t p] (sb_item_id b)"
  by (simp_all add: answered_def preserved_draft_def ready_draft_def update_item_def)

lemma publish_preserved_settles:
  assumes "\<And>P. env_keeps (logged P) env"
  shows "triple (on_job (logged (recorded r accs))) (publish_preserved env a reason)
    (\<lambda>a'. on_job (logged (\<lambda>us. recorded r (a' # accs) us \<and> settled a a'))) anything"
  unfolding publish_preserved_def
proof (rule triple_and_then)
  show "triple (on_job (logged (recorded r accs))) (sink_publish env (preserved_draft (da_block a) reason))
      (\<lambda>_. on_job (logged (\<lambda>us. recorded r accs us \<and> answered us (sb_item_id (da_block a))))) anything"
    by (rule publish_step [OF assms]) (simp_all add: recorded_append answered_drafts)
qed (rule triple_give, auto simp: logged_def recorded_def settled_def)

lemma publish_joined_settles:
  assumes "\<And>P. env_keeps (logged P) env"
  shows "triple (on_job (logged (recorded r accs))) (publish_joined env requested mode page level a)
    (\<lambda>a'. on_job (logged (\<lambda>us. recorded r (a' # accs) us \<and> settled a a'))) anything"
proof (cases "learning_policy_requires_repair (joined_report env level a) mode")
  case True
  then show ?thesis using publish_preserved_settles [OF assms] by (simp add: publish_joined_def)
next
  case False
  let ?t = "joined_translation env level a"
  have "triple (on_job (logged (recorded r accs)))
    (and_then (sink_publish env (ready_draft env requested mode (da_block a) ?t)) (\<lambda>_.
     and_then (with_chapters env (publish_translation page (sb_source_index (da_block a), sb_item_order (da_block a)) (sb_item_id (da_block a)) (ct_displayed_chinese ?t))) (\<lambda>_.
     give (a\<lparr>da_published := True\<rparr>))))
    (\<lambda>a'. on_job (logged (\<lambda>us. recorded r (a' # accs) us \<and> settled a a'))) anything"
  proof (intro triple_and_then)
    show "triple (on_job (logged (recorded r accs))) (sink_publish env (ready_draft env requested mode (da_block a) ?t))
        (\<lambda>_. on_job (logged (\<lambda>us. recorded r accs us \<and> answered us (sb_item_id (da_block a))))) anything"
      by (rule publish_step [OF assms]) (simp_all add: recorded_append answered_drafts)
    show "triple (on_job (logged (\<lambda>us. recorded r accs us \<and> answered us (sb_item_id (da_block a)))))
        (with_chapters env f) (\<lambda>_. on_job (logged (\<lambda>us. recorded r accs us \<and> answered us (sb_item_id (da_block a))))) anything" for f
      by (rule keeps_step [OF locked_keep(4) [OF assms]])
  qed (rule triple_give, auto simp: logged_def recorded_def settled_def)
  then show ?thesis using False by (simp add: publish_joined_def Let_def)
qed

lemma publish_accumulator_settles:
  assumes "\<And>P. env_keeps (logged P) env" "\<not> da_published a" "is_complete a"
  shows "triple (on_job (logged (recorded r accs))) (publish_document_accumulator env requested mode page a)
    (\<lambda>a'. on_job (logged (\<lambda>us. recorded r (a' # accs) us \<and> settled a a'))) anything"
proof (cases "da_rejection a")
  case (Some reason)
  then show ?thesis using publish_preserved_settles [OF assms(1)] assms(2) by (simp add: publish_document_accumulator_def)
next
  case None
  then have "length (da_pieces a) = da_expected_pieces a" using assms(3) by (simp add: is_complete_def)
  moreover have "triple (on_job (logged (recorded r accs)))
      (and_then (relabelled invalid_level (checked (level_new (browser_level_u8 requested)))) (\<lambda>level. publish_joined env requested mode page level a))
      (\<lambda>a'. on_job (logged (\<lambda>us. recorded r (a' # accs) us \<and> settled a a'))) anything"
    by (rule triple_and_then [OF keeps_step publish_joined_settles [OF assms(1)]]) (intro keeping)
  ultimately show ?thesis using None assms(2) by (simp add: publish_document_accumulator_def)
qed

lemma publish_blocks_settles:
  assumes "\<And>P. env_keeps (logged P) env"
  shows "triple (on_job (logged (recorded r (before @ accs)))) (publish_ready_document_blocks env requested mode page accs n)
    (\<lambda>(accs', n'). on_job (logged (\<lambda>us. recorded r (before @ accs') us \<and> list_all2 settled accs accs'))) anything"
proof (induction accs arbitrary: before n)
  case Nil
  show ?case unfolding publish_ready_document_blocks.simps by (rule triple_give) (simp add: logged_def)
next
  case (Cons a accs)
  have rest: "triple (on_job (logged (\<lambda>us. recorded r (a' # before @ accs) us \<and> settled a a')))
      (and_then (publish_ready_document_blocks env requested mode page accs m) (\<lambda>(accs', n'). give (a' # accs', n')))
      (\<lambda>(accs', n'). on_job (logged (\<lambda>us. recorded r (before @ accs') us \<and> list_all2 settled (a # accs) accs'))) anything" for a' m
  proof (cases "settled a a'")
    case True
    show ?thesis
    proof (rule triple_and_then)
      show "triple (on_job (logged (\<lambda>us. recorded r (a' # before @ accs) us \<and> settled a a')))
          (publish_ready_document_blocks env requested mode page accs m)
          (\<lambda>(accs', n'). on_job (logged (\<lambda>us. recorded r ((a' # before) @ accs') us \<and> list_all2 settled accs accs'))) anything"
        by (rule triple_weaken [OF Cons.IH [of "a' # before" m]]) (auto simp: logged_def)
    qed (auto simp: logged_def recorded_def True intro!: triple_give split: prod.split)
  qed (simp add: triple_def logged_def)
  show ?case
  proof (cases "\<not> da_published a \<and> is_complete a")
    case True
    show ?thesis unfolding publish_ready_document_blocks.simps if_P [OF True]
    proof (rule triple_and_then [OF _ rest])
      have "triple (on_job (logged (recorded r (before @ a # accs)))) (publish_document_accumulator env requested mode page a)
          (\<lambda>a'. on_job (logged (\<lambda>us. recorded r (a' # before @ a # accs) us \<and> settled a a'))) anything"
        using publish_accumulator_settles [OF assms] True by blast
      then show "triple (on_job (logged (recorded r (before @ a # accs)))) (publish_document_accumulator env requested mode page a)
          (\<lambda>a'. on_job (logged (\<lambda>us. recorded r (a' # before @ accs) us \<and> settled a a'))) anything"
        by (rule triple_weaken) (auto simp: logged_def recorded_def)
    qed
  next
    case False
    have "triple (on_job (logged (recorded r (before @ a # accs))))
        (and_then (publish_ready_document_blocks env requested mode page accs n) (\<lambda>(accs', n'). give (a # accs', n')))
        (\<lambda>(accs', n'). on_job (logged (\<lambda>us. recorded r (before @ accs') us \<and> list_all2 settled (a # accs) accs'))) anything"
      by (rule triple_weaken [OF rest [of a n]]) (use False in \<open>auto simp: logged_def recorded_def intro: settled_refl\<close>)
    then show ?thesis unfolding publish_ready_document_blocks.simps if_not_P [OF False] .
  qed
qed

section \<open>The run\<close>

lemma publish_ready_settles:
  assumes "\<And>P. env_keeps (logged P) env"
  shows "triple (on_job (logged (recorded r (fst st)))) (publish_ready env r st)
    (\<lambda>st'. on_job (logged (\<lambda>us. recorded r (fst st') us \<and> list_all2 settled (fst st) (fst st')))) anything"
  unfolding publish_ready_def attempt_def
  by (rule triple_relabelled, rule triple_weaken [OF publish_blocks_settles [OF assms, of r "[]"]]) (auto simp: logged_def)

text \<open>What the accumulators of a run satisfy between its steps.\<close>

definition underway :: "document_job_request \<Rightarrow> document_accumulator list \<Rightarrow> job_update list \<Rightarrow> bool" where
  "underway r accs us \<longleftrightarrow> recorded r accs us \<and> map da_block accs = dj_blocks r"

lemma publish_ready_underway:
  assumes "\<And>P. env_keeps (logged P) env"
  shows "triple (on_job (logged (underway r (fst st)))) (publish_ready env r st)
    (\<lambda>st'. on_job (logged (\<lambda>us. underway r (fst st') us
       \<and> (list_all (\<lambda>a. da_published a \<or> is_complete a) (fst st) \<longrightarrow> list_all da_published (fst st'))))) anything"
proof (cases "map da_block (fst st) = dj_blocks r")
  case True
  show ?thesis
    by (rule triple_weaken [OF publish_ready_settles [OF assms]])
      (use True in \<open>auto simp: logged_def underway_def dest!: list_all2_settled\<close>)
qed (simp add: triple_def logged_def underway_def)

lemma da_kept:
  "da_published (da_record order t s a) = da_published a" "da_block (da_record order t s a) = da_block a"
  "da_published (da_reject reason a) = da_published a" "da_block (da_reject reason a) = da_block a"
  "da_published (reject_incomplete a) = da_published a" "da_block (reject_incomplete a) = da_block a"
  by (simp_all add: da_record_def da_reject_def reject_incomplete_def)

lemma underway_update:
  assumes "underway r accs us" "\<And>a. da_published (f a) = da_published a" "\<And>a. da_block (f a) = da_block a"
  shows "underway r (update_nth i f accs) us"
proof (cases "i < length accs")
  case True
  then have "map da_block (update_nth i f accs) = map da_block accs"
    by (simp add: update_nth_def map_update assms(3) list_update_same_conv)
  moreover have "recorded r (update_nth i f accs) us"
    using assms True nth_mem [OF True] by (auto simp: underway_def recorded_def update_nth_def dest!: set_update_subset_insert [THEN subsetD])
  ultimately show ?thesis using assms(1) by (simp add: underway_def)
qed (use assms(1) in \<open>simp add: update_nth_def not_less list_update_beyond\<close>)

lemma underway_accumulate: "underway r accs us \<Longrightarrow> underway r (accumulate p items accs) us"
  unfolding accumulate_def by (rule underway_update) (auto simp: da_kept split: option.split sum.split)

lemma translate_batch_underway:
  assumes env: "\<And>P. env_keeps (logged P) env"
  shows "triple (on_job (logged (underway r (fst st)))) (translate_batch env r plan focus ps st)
    (\<lambda>(st', queued). on_job (logged (underway r (fst st')))) anything"
proof (induction ps arbitrary: st)
  case (Cons p ps)
  have step: "triple (on_job (logged (underway r (fst st))))
      (and_then (publish_ready env r (accumulate p items (fst st), snd st)) (\<lambda>st'. translate_batch env r plan focus ps st'))
      (\<lambda>(st', queued). on_job (logged (underway r (fst st')))) anything" for items
  proof (rule triple_and_then)
    show "triple (on_job (logged (underway r (fst st)))) (publish_ready env r (accumulate p items (fst st), snd st))
        (\<lambda>st'. on_job (logged (underway r (fst st')))) anything"
      by (rule triple_weaken [OF publish_ready_underway [OF env, of r "(accumulate p items (fst st), snd st)"]])
        (auto simp: logged_def underway_accumulate)
  qed (rule Cons.IH)
  have translated: "keeps (on_job (logged (underway r (fst st)))) (attempt (translate_document_piece env p settings plan visible))" for settings visible
    by (intro keeping translate_piece_keeps env)
  have kept: "triple (on_job (logged (underway r (fst st)))) (give (st, p # ps)) (\<lambda>(st', queued). on_job (logged (underway r (fst st')))) anything"
    by (rule triple_give) simp
  show ?case unfolding translate_batch.simps
  proof (rule triple_and_then [OF keeps_step [OF sink_focus_keeps [OF env]]])
    fix current
    show "triple (on_job (logged (underway r (fst st))))
      (if \<not> jf_active current \<or> jf_visible_block_ids current \<noteq> jf_visible_block_ids focus then give (st, p # ps)
       else and_then (attempt (translate_document_piece env p (dj_settings r) plan
              (sb_item_id (dj_blocks r ! dp_block_index p) \<in> set (jf_visible_block_ids focus)))) (\<lambda>items.
          and_then (publish_ready env r (accumulate p items (fst st), snd st)) (\<lambda>st'.
          translate_batch env r plan focus ps st')))
      (\<lambda>(st', queued). on_job (logged (underway r (fst st')))) anything"
      by (rule triple_if, rule kept, rule triple_and_then [OF keeps_step [OF translated] step])
  qed
next
  case Nil
  show ?case unfolding translate_batch.simps by (rule triple_give) simp
qed

lemma run_turn_underway:
  assumes "quiet_document de"
  shows "triple (on_job (logged (underway r (ru_accumulators st)))) (run_turn fuel de r plan st)
    (\<lambda>st'. on_job (logged (underway r (ru_accumulators st')))) anything"
proof -
  let ?env = "de_pipeline de"
  note env = quiet_env [OF assms]
  have "document_keeps (logged P) de" for P using assms by (rule quiet_keeps [OF _ logged_lasting])
  then have evidence: "keeps (on_job (logged P)) (emit_evidence de ds)" for P ds
    by (simp add: document_keeps_def emit_evidence_def keeping)
  have progress: "keeps (on_job (logged (underway r accs))) (batch_progress ?env n m)" for accs n m
    unfolding batch_progress_def publish_progress_def
    by (intro keeping sink_publish_keeps env) (simp_all add: underway_def recorded_append)
  have finish: "triple (on_job (logged (underway r accs)))
      (and_then (batch_progress ?env n m) (\<lambda>_. give \<lparr>ru_remaining = rest, ru_accumulators = accs, ru_published_count = n,
         ru_first_dispatch = False, ru_dispatches = ds\<rparr>))
      (\<lambda>st'. on_job (logged (underway r (ru_accumulators st')))) anything" for accs n m rest ds
    by (rule triple_and_then [OF keeps_step [OF progress]], rule triple_give) simp
  have batch: "triple (on_job (logged (underway r (ru_accumulators st))))
      (and_then (translate_batch ?env r plan focus batch (ru_accumulators st, ru_published_count st)) (\<lambda>((accs, n), queued).
         and_then (batch_progress ?env n (max (length (dj_blocks r)) 1)) (\<lambda>_.
         give \<lparr>ru_remaining = rest @ queued, ru_accumulators = accs, ru_published_count = n, ru_first_dispatch = False, ru_dispatches = ds\<rparr>)))
      (\<lambda>st'. on_job (logged (underway r (ru_accumulators st')))) anything" for focus batch rest ds
    by (rule triple_and_then [OF translate_batch_underway [OF env, of r "(ru_accumulators st, ru_published_count st)", simplified]])
      (auto split: prod.split intro: finish)
  show ?thesis unfolding run_turn_def Let_def
  proof (rule triple_and_then [OF keeps_step], intro keeping locked_keep env, rule triple_and_then [OF keeps_step], intro wait_keeps env)
    fix focus :: job_focus
    obtain batch reason rest where
      eq: "take_next_document_batch (ru_remaining st) (dj_blocks r) (set (jf_visible_block_ids focus)) (ru_first_dispatch st) = ((batch, reason), rest)"
      by (metis prod.exhaust)
    show "triple (on_job (logged (underway r (ru_accumulators st))))
      (case take_next_document_batch (ru_remaining st) (dj_blocks r) (set (jf_visible_block_ids focus)) (ru_first_dispatch st) of
          ((batch, reason), rest) \<Rightarrow>
            if batch = [] then give_up (Halted scheduler_failed)
            else (and_then (emit_evidence de (ru_dispatches st @ [dispatch_of r batch reason])) (\<lambda>_.
              and_then (translate_batch ?env r plan focus batch (ru_accumulators st, ru_published_count st)) (\<lambda>((accs, n), queued).
              and_then (batch_progress ?env n (max (length (dj_blocks r)) 1)) (\<lambda>_.
              give \<lparr>ru_remaining = rest @ queued, ru_accumulators = accs, ru_published_count = n, ru_first_dispatch = False,
                    ru_dispatches = ru_dispatches st @ [dispatch_of r batch reason]\<rparr>)))))
      (\<lambda>st'. on_job (logged (underway r (ru_accumulators st')))) anything"
      unfolding eq prod.case
      by (rule triple_if, rule triple_give_up, simp, rule triple_and_then [OF keeps_step [OF evidence] batch])
  qed
qed

lemma run_turns_underway:
  assumes "quiet_document de"
  shows "triple (on_job (logged (underway r (ru_accumulators st)))) (run_turns fuel de r plan st)
    (\<lambda>st'. on_job (logged (underway r (ru_accumulators st')))) anything"
proof (induction fuel arbitrary: st)
  case 0
  show ?case by (auto intro!: triple_give triple_give_up)
next
  case (Suc fuel)
  show ?case by (auto intro!: triple_give triple_and_then [OF run_turn_underway [OF assms] Suc.IH])
qed

lemma first_underway: "underway r (first_accumulators r plan) us"
proof -
  have a: "da_block (first_accumulator r plan i b) = b \<and> (da_published (first_accumulator r plan i b) \<longrightarrow> \<not> is_targeted r b)" for i b
    by (simp add: first_accumulator_def Let_def da_kept new_accumulator_def split: option.split)
  then have "map da_block (first_accumulators r plan) = map snd (enumerate 0 (dj_blocks r))"
    unfolding first_accumulators_def by (simp add: comp_def split_def)
  moreover have "recorded r (first_accumulators r plan) us"
    using a by (auto simp: recorded_def first_accumulators_def)
  ultimately show ?thesis by (simp add: underway_def)
qed

lemma rejected_underway:
  "underway r accs us \<Longrightarrow> underway r (map reject_incomplete accs) us"
  "list_all (\<lambda>a. da_published a \<or> is_complete a) (map reject_incomplete accs)"
proof -
  assume "underway r accs us"
  then show "underway r (map reject_incomplete accs) us"
    by (simp add: underway_def recorded_def da_kept comp_def)
next
  show "list_all (\<lambda>a. da_published a \<or> is_complete a) (map reject_incomplete accs)"
    by (induction accs) (auto simp: reject_incomplete_def da_reject_def is_complete_def)
qed

lemma all_answered:
  assumes "underway r accs us" "list_all da_published accs" "b \<in> set (dj_blocks r)" "is_targeted r b"
  shows "answered us (sb_item_id b)"
proof -
  have "b \<in> da_block ` set accs" using assms(1,3) by (simp add: underway_def flip: set_map)
  then obtain a where "a \<in> set accs" "b = da_block a" by (elim imageE)
  then show ?thesis using assms(1,2,4) by (simp add: underway_def recorded_def list_all_iff)
qed

lemma last_publish_answers:
  assumes "\<And>P. env_keeps (logged P) env"
  shows "triple (on_job (logged (underway r accs))) (publish_ready env r (map reject_incomplete accs, n))
    (\<lambda>_. on_job (logged (\<lambda>us. \<forall>b \<in> set (dj_blocks r). is_targeted r b \<longrightarrow> answered us (sb_item_id b)))) anything"
  using publish_ready_underway [OF assms, of r "(map reject_incomplete accs, n)"]
proof (rule triple_weaken)
  fix w
  assume "on_job (logged (underway r accs)) w"
  then show "on_job (logged (underway r (fst (map reject_incomplete accs, n)))) w"
    by (simp add: logged_def rejected_underway(1))
next
  fix x w
  assume "on_job (logged (\<lambda>us. underway r (fst x) us \<and> (list_all (\<lambda>a. da_published a \<or> is_complete a) (fst (map reject_incomplete accs, n))
       \<longrightarrow> list_all da_published (fst x)))) w"
  then have "jo_source_kind (pw_job w) = DocumentSource" "update_log_ok DocumentSource (jo_log (pw_job w))"
    "underway r (fst x) (written_by_run (jl_updates (jo_log (pw_job w))))" "list_all da_published (fst x)"
    by (simp_all add: logged_def rejected_underway(2))
  then show "on_job (logged (\<lambda>us. \<forall>b \<in> set (dj_blocks r). is_targeted r b \<longrightarrow> answered us (sb_item_id b))) w"
    by (simp add: logged_def all_answered)
qed

lemma start_keeps:
  assumes "quiet_document de"
  shows "keeps (on_job (logged (\<lambda>_. True))) (start_document de r)"
proof -
  have de: "document_keeps (logged (\<lambda>_. True)) de" using assms by (rule quiet_keeps [OF _ logged_lasting])
  show ?thesis unfolding start_document_def Let_def publish_progress_def
    by (intro keeping locked_keep sink_focus_keeps sink_publish_keeps quiet_env [OF assms])
      (use de in \<open>simp_all add: document_keeps_def\<close>)
qed

text \<open>After a run that succeeds every targeted block has its answer in the log.\<close>

lemma run_answers:
  assumes "quiet_document de"
  shows "triple (on_job (logged (\<lambda>_. True))) (run_document fuel de r)
    (\<lambda>_. on_job (logged (\<lambda>us. \<forall>b \<in> set (dj_blocks r). is_targeted r b \<longrightarrow> answered us (sb_item_id b)))) anything"
proof -
  let ?env = "de_pipeline de" and ?plan = "plan_document (de_tokens de) (de_segment de) 0 (dj_blocks r)"
  let ?done = "\<lambda>us. \<forall>b \<in> set (dj_blocks r). is_targeted r b \<longrightarrow> answered us (sb_item_id b)"
  note env = quiet_env [OF assms]
  have "document_keeps (logged P) de" for P using assms by (rule quiet_keeps [OF _ logged_lasting])
  then have evidence: "keeps (on_job (logged P)) (emit_evidence de ds)" for P ds
    by (simp add: document_keeps_def emit_evidence_def keeping)
  have last: "triple (on_job (logged (underway r (ru_accumulators st))))
      (and_then (publish_ready ?env r (map reject_incomplete (ru_accumulators st), ru_published_count st)) (\<lambda>_. emit_evidence de (ru_dispatches st)))
      (\<lambda>_. on_job (logged ?done)) anything" for st
    by (rule triple_and_then [OF last_publish_answers [OF env] keeps_step [OF evidence]])
  show ?thesis unfolding run_document_def Let_def
  proof (rule triple_and_then [OF keeps_step [OF start_keeps [OF assms]]], rule triple_and_then)
    show "triple (on_job (logged (\<lambda>_. True))) (publish_ready ?env r (first_accumulators r ?plan, 0))
        (\<lambda>st'. on_job (logged (underway r (fst st')))) anything"
      by (rule triple_weaken [OF publish_ready_underway [OF env, of r "(first_accumulators r ?plan, 0)"]])
        (auto simp: logged_def first_underway)
    fix st'
    show "triple (on_job (logged (underway r (fst st'))))
      (case st' of (accs, n) \<Rightarrow> and_then (run_turns fuel de r (pl_spans ?plan)
        \<lparr>ru_remaining = targeted_pieces r (pl_pieces ?plan), ru_accumulators = accs, ru_published_count = n, ru_first_dispatch = True, ru_dispatches = []\<rparr>) (\<lambda>st.
       and_then (publish_ready ?env r (map reject_incomplete (ru_accumulators st), ru_published_count st)) (\<lambda>_. emit_evidence de (ru_dispatches st))))
      (\<lambda>_. on_job (logged ?done)) anything"
    proof (cases st')
      case (Pair accs n)
      note turns = run_turns_underway [OF assms, of r "\<lparr>ru_remaining = targeted_pieces r (pl_pieces ?plan), ru_accumulators = accs,
          ru_published_count = n, ru_first_dispatch = True, ru_dispatches = []\<rparr>" fuel "pl_spans ?plan"]
      show ?thesis using triple_and_then [OF turns last] by (simp add: Pair)
    qed
  qed
qed

lemma distinct_collect: "distinct (collect f us) \<Longrightarrow> u \<in> set us \<Longrightarrow> f u = Some i \<Longrightarrow> length (filter (\<lambda>u. f u = Some i) us) = 1"
proof (induction us)
  case (Cons v us)
  show ?case
  proof (cases "f v = Some i")
    case True
    then have "i \<notin> set (collect f us)" using Cons.prems(1) by (simp add: collect_def map_filter_simps)
    then have "filter (\<lambda>u. f u = Some i) us = []" by (force simp: collect_def filter_empty_conv set_map_filter_iff)
    then show ?thesis using True by simp
  next
    case False
    then show ?thesis using Cons by (auto simp: collect_def map_filter_simps split: option.splits)
  qed
qed simp

text \<open>Claim C5: after a run that succeeds, whatever the model answered, every block the request is about
  has exactly one answer in the log of the job, its translation or the reason why its source stays.\<close>

theorem every_block_is_answered_once:
  assumes "quiet_document de" and "logged (\<lambda>_. True) (pw_job w)" and "run_document fuel de r w = (Inr (), w')"
    and "b \<in> set (dj_blocks r)" and "is_targeted r b"
  shows "length (filter (\<lambda>u. update_item u = Some (sb_item_id b)) (jl_updates (jo_log (pw_job w')))) = 1"
proof -
  have "logged (\<lambda>us. \<forall>b \<in> set (dj_blocks r). is_targeted r b \<longrightarrow> answered us (sb_item_id b)) (pw_job w')"
    using tripleD [OF run_answers [OF assms(1)] assms(2,3)] by simp
  then have "answered (jl_updates (jo_log (pw_job w'))) (sb_item_id b)"
    and "distinct (collect update_item (jl_updates (jo_log (pw_job w'))))"
    using assms(4,5) by (simp_all add: logged_def update_log_ok_def updates_ok_def answered_as_written)
  then show ?thesis unfolding answered_def by (elim bexE) (rule distinct_collect)
qed

lemma every_block_is_answered_once_witness:
  "length (filter (\<lambda>u. update_item u = Some (sb_item_id long_hello))
     (jl_updates (jo_log (pw_job (snd (run_document 1 (sample_documents sample_engine) long_request empty_world)))))) = 1"
proof -
  have "fst (run_document 1 (sample_documents sample_engine) long_request empty_world) = Inr ()"
    using is_ok_projr [OF long_hello_is_answered [of sample_engine]] by simp
  then have "run_document 1 (sample_documents sample_engine) long_request empty_world
      = (Inr (), snd (run_document 1 (sample_documents sample_engine) long_request empty_world))"
    by (metis prod.collapse)
  from every_block_is_answered_once [OF sample_quiet _ this] show ?thesis
    by (rule)
      (use worlds_start_new(2) in \<open>simp_all add: logged_def long_request_def hello_request_def is_targeted_def\<close>)
qed

end
