(* ===== verification/Document_Run_Ends.thy ===== *)
theory Document_Run_Ends
  imports Document_Run_Answers
begin

text \<open>
  When a run ends. The two loops of the code wait for the focus, so a run ends if other threads leave the
  focus of the job where it is and active: each turn then publishes at least one piece.
\<close>

abbreviation focused :: "job_focus \<Rightarrow> 'o pipeline_world \<Rightarrow> bool" where
  "focused f \<equiv> on_job (\<lambda>r. jl_focus (jo_log r) = f)"

abbreviation halted :: "run_halt \<Rightarrow> 'w \<Rightarrow> bool" where
  "halted \<equiv> \<lambda>e _. e \<noteq> StillRunning"

lemma attempt_halts: "keeps J (attempt m) \<Longrightarrow> triple J (attempt m) (\<lambda>_. J) halted"
  unfolding keeps_triple attempt_def triple_def relabelled_def by (auto split: prod.splits sum.splits)

lemma append_update_focus:
  assumes "append_update seen r d = Ok (u, r')"
  shows "jl_focus (jo_log r') = jl_focus (jo_log r)"
  using reachable_after_append(1) [OF assms] by (auto simp: append_locked_Ok)

lemma sink_publish_focused:
  fixes env :: "'o pipeline_env"
  assumes "env_keeps (\<lambda>r. jl_focus (jo_log r) = f) env"
  shows "keeps (focused f) (sink_publish env d)"
proof (rule keepsI)
  fix w :: "'o pipeline_world"
  assume start: "focused f w"
  define w1 where "w1 = pv_others env w"
  define w2 where "w2 = pv_others env w1"
  have w2: "jl_focus (jo_log (pw_job w2)) = f"
    unfolding w2_def w1_def by (rule others_keep [OF assms], rule others_keep [OF assms], rule start)
  show "focused f (snd (sink_publish env d w))"
  proof (cases "append_update (jo_cancel (pw_job w1)) (pw_job w2) d")
    case (Inl e)
    then show ?thesis using others_keep [OF assms w2] by (simp add: sink_publish_def Let_def flip: w1_def w2_def)
  next
    case (Inr s)
    then show ?thesis using append_update_focus [of "jo_cancel (pw_job w1)" "pw_job w2" d "fst s" "snd s"] w2
      by (cases s) (simp add: sink_publish_def Let_def flip: w1_def w2_def)
  qed
qed

lemma sink_focus_steady:
  assumes "env_keeps (\<lambda>r. jl_focus (jo_log r) = f) env"
  shows "triple (focused f) (sink_focus env) (\<lambda>x w. x = f \<and> focused f w) halted"
  unfolding sink_focus_def Let_def by (rule triple_observe) (use others_keep [OF assms] in auto)

lemma triple_known: "(b \<Longrightarrow> triple P m Q E) \<Longrightarrow> triple (\<lambda>w. b \<and> P w) m Q E"
  by (cases b) (auto simp: triple_def)

lemma triple_pair: "(\<And>a b. triple (P a b) (f a b) Q E) \<Longrightarrow> triple (case x of (a, b) \<Rightarrow> P a b) (case x of (a, b) \<Rightarrow> f a b) Q E"
  by (cases x) simp

lemma triple_pair': "(\<And>a b. triple P (f a b y) Q E) \<Longrightarrow> triple P ((case x of (a, b) \<Rightarrow> f a b) y) Q E"
  by (cases x) simp

lemma triple_chain:
  "triple J m (\<lambda>_. J) E \<Longrightarrow> (\<And>x. triple J (f x) (\<lambda>_. J) E) \<Longrightarrow> triple J (and_then m f) (\<lambda>_. J) E"
  by (rule triple_and_then)

lemma publish_ready_halts:
  assumes "env_keeps F env" "publishing_keeps F env r"
  shows "triple (on_job F) (publish_ready env r st) (\<lambda>_. on_job F) halted"
  using publish_ready_keeps [OF assms] unfolding publish_ready_def by (rule attempt_halts)

section \<open>Turns\<close>

lemma batch_shrinks:
  assumes "take_next_document_batch remaining blocks visible isolate = ((batch, reason), rest)" "batch \<noteq> []"
  shows "length rest < length remaining"
proof -
  define sorted where "sorted = sort_key piece_key remaining"
  have batch: "batch = select_pieces (out_of_focus blocks visible isolate (priority_block sorted blocks visible)) None 0 0
      (from_block (priority_block sorted blocks visible) sorted)"
    and rest: "rest = filter (\<lambda>p. dp_piece_id p \<notin> set (map dp_piece_id batch)) sorted"
    using assms(1) by (auto simp: take_next_document_batch_def Let_def sorted_def)
  have "set batch \<subseteq> set sorted"
    unfolding batch by (rule subset_trans [OF set_mono_prefix [OF select_prefix]])
      (auto simp: from_block_def split: option.split dest: set_dropWhileD)
  moreover obtain p where "p \<in> set batch" using assms(2) by (cases batch) auto
  ultimately have "length rest < length sorted" unfolding rest by (intro length_filter_less [of p]) auto
  then show ?thesis by (simp add: sorted_def)
qed

lemma wait_steady:
  assumes "env_keeps (\<lambda>r. jl_focus (jo_log r) = f) env" "jf_active f"
  shows "triple (focused f) (wait_for_active_document (Suc fuel) env) (\<lambda>x w. x = f \<and> focused f w) halted"
  unfolding wait_for_active_document.simps
proof (rule triple_and_then [OF attempt_halts], intro keeping locked_keep assms(1), rule triple_and_then [OF sink_focus_steady [OF assms(1)]])
  fix focus
  show "triple (\<lambda>w. focus = f \<and> focused f w) (if jf_active focus then give focus else wait_for_active_document fuel env)
      (\<lambda>x w. x = f \<and> focused f w) halted"
    using assms(2) by (cases "focus = f") (auto simp: triple_def give_def)
qed

lemma translate_batch_steady:
  assumes env: "env_keeps (\<lambda>r. jl_focus (jo_log r) = f) env" and active: "jf_active f"
    and publishing: "publishing_keeps (\<lambda>r. jl_focus (jo_log r) = f) env r"
  shows "triple (focused f) (translate_batch env r plan f ps st) (\<lambda>(st', queued) w. queued = [] \<and> focused f w) halted"
proof (induction ps arbitrary: st)
  case Nil
  show ?case unfolding translate_batch.simps by (rule triple_give) simp
next
  case (Cons p ps)
  have go_on: "triple (focused f)
      (and_then (attempt (translate_document_piece env p settings plan visible)) (\<lambda>items.
         and_then (publish_ready env r (accumulate p items (fst st), snd st)) (\<lambda>st'. translate_batch env r plan f ps st')))
      (\<lambda>(st', queued) w. queued = [] \<and> focused f w) halted" for settings visible
  proof (rule triple_and_then [OF attempt_halts])
    show "keeps (focused f) (attempt (translate_document_piece env p settings plan visible))"
      by (intro keeping translate_piece_keeps env)
    show "triple (focused f) (and_then (publish_ready env r (accumulate p items (fst st), snd st)) (\<lambda>st'. translate_batch env r plan f ps st'))
        (\<lambda>(st', queued) w. queued = [] \<and> focused f w) halted" for items
      by (rule triple_and_then [OF publish_ready_halts [OF env publishing] Cons.IH])
  qed
  show ?case unfolding translate_batch.simps
    by (rule triple_and_then [OF sink_focus_steady [OF env]], rule triple_known) (use go_on active in simp)
qed

lemma run_turn_steady:
  assumes "steady_document f de" "jf_active f" "publishing_keeps (\<lambda>r. jl_focus (jo_log r) = f) (de_pipeline de) r"
  shows "triple (focused f) (run_turn (Suc fuel) de r plan st)
    (\<lambda>st' w. length (ru_remaining st') < length (ru_remaining st) \<and> focused f w) halted"
proof -
  let ?env = "de_pipeline de"
  have kept: "document_keeps (\<lambda>r. jl_focus (jo_log r) = f) de" using assms(1) by (simp add: steady_document_def)
  then have env: "env_keeps (\<lambda>r. jl_focus (jo_log r) = f) ?env" by (simp add: document_keeps_def)
  have evidence: "triple (focused f) (emit_evidence de ds) (\<lambda>_. focused f) halted" for ds
    unfolding emit_evidence_def by (rule attempt_halts) (use kept in \<open>simp add: document_keeps_def keeping\<close>)
  have progress: "triple (focused f) (batch_progress ?env n m) (\<lambda>_. focused f) halted" for n m
    unfolding batch_progress_def by (rule attempt_halts) (intro keeping publish_progress_keeps [OF assms(3)])
  obtain batch reason rest where
    next_batch: "take_next_document_batch (ru_remaining st) (dj_blocks r) (set (jf_visible_block_ids f)) (ru_first_dispatch st) = ((batch, reason), rest)"
    by (metis prod.exhaust)
  have translated: "triple (focused f)
      (and_then (translate_batch ?env r plan f batch (ru_accumulators st, ru_published_count st)) (\<lambda>((accs, n), queued).
         and_then (batch_progress ?env n (max (length (dj_blocks r)) 1)) (\<lambda>_.
         give \<lparr>ru_remaining = rest @ queued, ru_accumulators = accs, ru_published_count = n, ru_first_dispatch = False, ru_dispatches = ds\<rparr>)))
      (\<lambda>st' w. length (ru_remaining st') < length (ru_remaining st) \<and> focused f w) halted" if "batch \<noteq> []" for ds
    by (rule triple_and_then [OF translate_batch_steady [OF env assms(2,3)]], rule triple_pair, rule triple_known, rule triple_pair',
        rule triple_and_then [OF progress], rule triple_give) (use batch_shrinks [OF next_batch that] in simp)
  show ?thesis unfolding run_turn_def Let_def
  proof (rule triple_and_then [OF attempt_halts], intro keeping locked_keep env, rule triple_and_then [OF wait_steady [OF env assms(2)]], rule triple_known)
    fix focus :: job_focus
    assume "focus = f"
    have scheduled: "triple (focused f)
        (if batch = [] then give_up (Halted scheduler_failed)
         else and_then (emit_evidence de ds) (\<lambda>_.
           and_then (translate_batch ?env r plan f batch (ru_accumulators st, ru_published_count st)) (\<lambda>((accs, n), queued).
           and_then (batch_progress ?env n (max (length (dj_blocks r)) 1)) (\<lambda>_.
           give \<lparr>ru_remaining = rest @ queued, ru_accumulators = accs, ru_published_count = n, ru_first_dispatch = False, ru_dispatches = ds\<rparr>))))
        (\<lambda>st' w. length (ru_remaining st') < length (ru_remaining st) \<and> focused f w) halted" for ds
      by (rule triple_if, rule triple_give_up, simp, rule triple_and_then [OF evidence translated])
    show "triple (focused f)
      (case take_next_document_batch (ru_remaining st) (dj_blocks r) (set (jf_visible_block_ids focus)) (ru_first_dispatch st) of
          ((batch, reason), rest) \<Rightarrow>
            if batch = [] then give_up (Halted scheduler_failed)
            else (and_then (emit_evidence de (ru_dispatches st @ [dispatch_of r batch reason])) (\<lambda>_.
              and_then (translate_batch ?env r plan focus batch (ru_accumulators st, ru_published_count st)) (\<lambda>((accs, n), queued).
              and_then (batch_progress ?env n (max (length (dj_blocks r)) 1)) (\<lambda>_.
              give \<lparr>ru_remaining = rest @ queued, ru_accumulators = accs, ru_published_count = n, ru_first_dispatch = False,
                    ru_dispatches = ru_dispatches st @ [dispatch_of r batch reason]\<rparr>)))))
      (\<lambda>st' w. length (ru_remaining st') < length (ru_remaining st) \<and> focused f w) halted"
      unfolding \<open>focus = f\<close> next_batch prod.case by (rule scheduled)
  qed
qed

lemma run_turns_steady:
  assumes "steady_document f de" "jf_active f" "publishing_keeps (\<lambda>r. jl_focus (jo_log r) = f) (de_pipeline de) r"
  shows "length (ru_remaining st) \<le> fuel \<Longrightarrow> triple (focused f) (run_turns fuel de r plan st) (\<lambda>_. focused f) halted"
proof (induction fuel arbitrary: st)
  case 0
  then show ?case by (simp add: triple_give)
next
  case (Suc fuel)
  have "triple (\<lambda>w. length (ru_remaining st') < length (ru_remaining st) \<and> focused f w) (run_turns fuel de r plan st') (\<lambda>_. focused f) halted" for st'
    by (rule triple_known) (use Suc in simp)
  then show ?case unfolding run_turns.simps
    by (intro triple_if triple_give triple_and_then [OF run_turn_steady [OF assms]])
qed

section \<open>The run\<close>

lemma start_halts:
  assumes "steady_document f de"
  shows "triple (focused f) (start_document de r) (\<lambda>_. focused f) halted"
proof -
  have kept: "document_keeps (\<lambda>r. jl_focus (jo_log r) = f) de" using assms by (simp add: steady_document_def)
  then have env: "env_keeps (\<lambda>r. jl_focus (jo_log r) = f) (de_pipeline de)"
    and ready: "keeps (focused f) (de_ready_language de)" "keeps (focused f) (de_local_model de)" by (simp_all add: document_keeps_def)
  have focus: "triple (focused f) (sink_focus (de_pipeline de)) (\<lambda>_. focused f) halted"
    by (rule triple_weaken [OF sink_focus_steady [OF env]]) auto
  show ?thesis unfolding start_document_def Let_def publish_progress_def
    by (intro triple_chain attempt_halts focus keeping locked_keep env sink_publish_focused ready)
qed

lemma run_document_halts:
  assumes "steady_document f de" "jf_active f" "length (pl_pieces (plan_document (de_tokens de) (de_segment de) 0 (dj_blocks r))) \<le> fuel"
  shows "triple (focused f) (run_document fuel de r) (\<lambda>_. focused f) halted"
proof -
  let ?env = "de_pipeline de" and ?plan = "plan_document (de_tokens de) (de_segment de) 0 (dj_blocks r)"
  have kept: "document_keeps (\<lambda>r. jl_focus (jo_log r) = f) de" using assms(1) by (simp add: steady_document_def)
  then have env: "env_keeps (\<lambda>r. jl_focus (jo_log r) = f) ?env" by (simp add: document_keeps_def)
  have publishing: "publishing_keeps (\<lambda>r. jl_focus (jo_log r) = f) ?env r"
    by (simp add: publishing_keeps_def sink_publish_focused [OF env])
  note ready = publish_ready_halts [OF env publishing]
  have evidence: "triple (focused f) (emit_evidence de ds) (\<lambda>_. focused f) halted" for ds
    unfolding emit_evidence_def by (rule attempt_halts) (use kept in \<open>simp add: document_keeps_def keeping\<close>)
  have "length (targeted_pieces r (pl_pieces ?plan)) \<le> fuel"
    unfolding targeted_pieces_def by (rule order_trans [OF length_filter_le assms(3)])
  then have turns: "triple (focused f) (run_turns fuel de r (pl_spans ?plan)
      \<lparr>ru_remaining = targeted_pieces r (pl_pieces ?plan), ru_accumulators = accs, ru_published_count = n, ru_first_dispatch = True, ru_dispatches = []\<rparr>)
      (\<lambda>_. focused f) halted" for accs n
    by (intro run_turns_steady [OF assms(1,2) publishing]) simp
  show ?thesis unfolding run_document_def Let_def
  proof (rule triple_and_then [OF start_halts [OF assms(1)]], rule triple_and_then [OF ready])
    fix st :: "document_accumulator list \<times> nat"
    show "triple (focused f)
      (case st of (accs, n) \<Rightarrow> and_then (run_turns fuel de r (pl_spans ?plan)
        \<lparr>ru_remaining = targeted_pieces r (pl_pieces ?plan), ru_accumulators = accs, ru_published_count = n, ru_first_dispatch = True, ru_dispatches = []\<rparr>) (\<lambda>st.
       and_then (publish_ready ?env r (map reject_incomplete (ru_accumulators st), ru_published_count st)) (\<lambda>_. emit_evidence de (ru_dispatches st))))
      (\<lambda>_. focused f) halted"
      by (cases st) (simp add: triple_and_then [OF turns] triple_and_then [OF ready evidence])
  qed
qed

text \<open>Claim C7: with the focus left alone and active, a run ends: as many turns as the document has pieces
  are enough, whether the pieces come back as text or as errors.\<close>

theorem document_run_ends:
  assumes "steady_document f de" and "jf_active f" and "jl_focus (jo_log (pw_job w)) = f"
    and "length (pl_pieces (plan_document (de_tokens de) (de_segment de) 0 (dj_blocks r))) \<le> fuel"
  shows "fst (run_document fuel de r w) \<noteq> Inl StillRunning"
  using tripleD [OF run_document_halts [OF assms(1,2,4)] assms(3) prod.collapse [symmetric]] by auto

lemma document_run_ends_witness:
  "fst (run_document 1 (sample_documents sample_engine) hello_request hello_world) \<noteq> Inl StillRunning"
  by (rule document_run_ends [OF sample_steady _ refl]) (simp_all add: hello_pieces, simp add: hello_world_def new_document_def new_record_def new_log_def Let_def)

end
