(* ===== verification/Spec2Isabelle.thy ===== *)
theory Spec2Isabelle
  imports Scene_Op_Props Session_Props Hsk_Props Hsk_Import_Props Job_Storage_Props Server_Access Contracts_Props Chapter_Context Cuda_Props Event_Bus Native_Framing Decoded_Cache Packbits Pipeline_Run Result_Cache_Props Hsk_Run_Props Quantities_Props Document_Run_Ends
begin

text \<open>
  Verification of hskify, a translator of comics and web text into Chinese of a chosen HSK level.

  The program. The desktop application (\<open>koharu-app\<close>) edits a project, a scene of pages and
  nodes (\<open>koharu-core\<close>); every edit is an \<open>Op\<close>, applied through the history of the session and
  logged to disk. The control engine (\<open>hsk-control\<close>) loads the HSK vocabulary and a dictionary
  and decides whether a Chinese text stays within a level, names the violations and looks words
  up. The browser companion (\<open>browser-companion\<close>) is a loopback HTTP daemon: an authenticated
  extension creates jobs, the pipeline publishes updates into the log of a job while a scheduler
  admits its phases to the GPU, the client polls the log, and finished jobs and patches are
  evicted from a bounded store. For a web page the pipeline cuts the blocks of text into pieces,
  translates them with a language model (faithfully, then at the level, then with at most one
  repair), asks the control engine whether the Chinese may be shown, and publishes every block
  as text or with the reason why its source stays.

  Theories and the code they model (paths under \<open>src/crates\<close>).
    \<^item> \<open>Prelude\<close>, \<open>Ordered_Map\<close>, \<open>Sorted_Map\<close>, \<open>Byte_Codec\<close>, \<open>Float32\<close>, \<open>Float32_Arith\<close>,
      \<open>Text_Tools\<close>: the Rust types and what the code uses of the standard library. Machine
      integers are words, \<open>char\<close> a code point, \<open>String\<close> the list of its characters, \<open>Result\<close> a
      sum (\<open>Err\<close> and \<open>Ok\<close>), \<open>IndexMap\<close> an association list in insertion order, \<open>BTreeMap\<close> a
      strictly sorted one, \<open>f32\<close> its bit pattern with exact rounding. A \<open>HashMap\<close> is an association list whose order
      no definition relies on.
    \<^item> \<open>Text_Style\<close> (\<open>koharu-core/src/style.rs\<close>, \<open>font.rs\<close>), \<open>Scene\<close> (\<open>scene.rs\<close>, \<open>blob.rs\<close>),
      \<open>Scene_Op\<close> (\<open>op.rs\<close>): the document and every arm of \<open>apply\<close>, \<open>inverse\<close> and \<open>validate\<close>.
      \<open>Undo_Law\<close> is the contract between a document and its history as a locale, interpreted on
      the scene in \<open>Scene_Op_Laws\<close>; \<open>Scene_Op_Props\<close> holds the properties.
    \<^item> \<open>History\<close>, \<open>Session\<close> (\<open>koharu-app/src/history.rs\<close>, \<open>session.rs\<close>): undo and redo stacks,
      the framed log byte by byte, replay, snapshots and the three steps of a compaction.
      \<open>History_Laws\<close>, \<open>History_Log\<close> and \<open>Session_Props\<close> show that the stacks tell the truth, that a
      log replays to the scene it stands for, and that every reachable session reopens as it was.
    \<^item> \<open>Hsk_Model\<close>, \<open>Hsk_Dataset\<close>, \<open>Local_Dictionary\<close>, \<open>Normalization\<close>, \<open>Word_Trie\<close>, \<open>Word_Break\<close>,
      \<open>Hsk_Control\<close>, \<open>Hsk_Validate\<close>, \<open>Hsk_Import\<close> (\<open>hsk-control/src\<close>: \<open>model.rs\<close>, \<open>error.rs\<close>,
      \<open>dataset.rs\<close>, \<open>dictionary.rs\<close>, \<open>normalization.rs\<close>, \<open>trie.rs\<close>, \<open>validator.rs\<close>, \<open>import.rs\<close>).
      \<open>Word_Break\<close> states what a set of words offers to the dynamic program as a locale and
      interprets it on the trie. \<open>Hsk_Guards\<close>, \<open>Hsk_Control_Laws\<close>, \<open>Hsk_Report\<close>, \<open>Hsk_Numeric\<close>
      and \<open>Hsk_Lookup\<close> carry the proofs, \<open>Hsk_Sample\<close> the concrete engine of the witnesses,
      \<open>Hsk_Props\<close> and \<open>Hsk_Import_Props\<close> the properties.
    \<^item> \<open>Contracts\<close>, \<open>Contracts_Jobs\<close>, \<open>Contracts_Results\<close> (\<open>browser-companion/src/contracts.rs\<close>):
      all messages with their validators; \<open>Contracts_Props\<close>.
    \<^item> \<open>Job_Log\<close> (\<open>server.rs\<close>: \<open>JobLog\<close>, \<open>JobRecord\<close>, polling, document jobs), \<open>Job_Storage\<close>
      (\<open>server.rs\<close>: \<open>Storage\<close>, reservation, patches, eviction); \<open>Job_Log_Laws\<close> proves that the
      maps and flags of a log are a function of its updates, \<open>Job_Props\<close>, \<open>Job_Run\<close> and
      \<open>Job_Storage_Props\<close> hold the properties.
    \<^item> \<open>Server_Access\<close> (\<open>server.rs\<close>, \<open>origin.rs\<close>, \<open>crypto.rs\<close>): sessions, admission and the
      request filter; \<open>Chapter_Context\<close> (\<open>chapter_session.rs\<close>); \<open>Cuda_Scheduler\<close> and
      \<open>Cuda_Props\<close> (\<open>cuda_scheduler.rs\<close>), a step relation over the tasks that wait and hold.
    \<^item> \<open>Result_Cache\<close> and \<open>Result_Cache_Props\<close> (\<open>result_cache.rs\<close>): the persistent cache of finished
      jobs, its keys, its checks on what is stored and loaded, and its index by age;
      \<open>Decoded_Cache\<close> (\<open>decoded_cache.rs\<close>): the images evicted in the order of their last use;
      \<open>Native_Framing\<close> (\<open>native_framing.rs\<close>): the frames between browser and native host.
    \<^item> \<open>Replay_Law\<close> states as a locale what a replayable numbered log offers; \<open>Event_Bus\<close>
      (\<open>koharu-app/src/bus.rs\<close>) interprets it on the ring of the desktop events and on the update log
      of a job.
    \<^item> \<open>Pipeline_Order\<close> (\<open>koharu-app/src/pipeline/artifacts.rs\<close>, \<open>engine.rs\<close>): when an artifact is
      ready and the order of the engines; \<open>Pipeline_Run\<close> (\<open>pipeline/mod.rs\<close>): the driver that
      runs the engines over the pages and applies what they return to the session.
    \<^item> \<open>Packbits\<close> (\<open>koharu-psd/src/packbits.rs\<close>): the compression of a layer, with a reader of the
      format as its reference.
    \<^item> \<open>Actions\<close>: code that runs in a changing world, as a function from the world to a result or an
      error and the world after it, with a calculus of triples and of invariants over \<open>and_then\<close>.
    \<^item> \<open>Quantities\<close> (\<open>koharu-app/src/llm/quantities.rs\<close>): the numbers a translation has to keep;
      \<open>Quantities_Props\<close> shows that a Chinese numeral reads back.
    \<^item> \<open>Hsk_Translation\<close>, \<open>Hsk_Prompts\<close>, \<open>Hsk_Translation_Run\<close> (\<open>koharu-app/src/llm/direct_hsk.rs\<close>,
      \<open>koharu-llm/src/direct_hsk_protocol.rs\<close>): requests with their validation, the parsers and checks of
      an answer, the prompts character for character, and the planners and loops that call the model.
      \<open>Hsk_Translation_Laws\<close> and \<open>Hsk_Run_Laws\<close> say what an accepted answer has passed,
      \<open>Hsk_Run_Props\<close> that every span of a request is answered in order.
    \<^item> The rest models the document part of \<open>browser-companion/src/pipeline_adapter.rs\<close>.
      \<open>Document_Pieces\<close>: \<open>split_document_block\<close>, \<open>document_piece_neighbor_context\<close>,
      \<open>take_next_document_batch\<close>, with their laws and properties in \<open>Document_Pieces_Laws\<close> and
      \<open>Document_Pieces_Props\<close>. \<open>Translation_State\<close>: one translation through its primary answer and its
      repair. \<open>Translation_Cache\<close>: the cache of translations with its accounts. \<open>Translation_Service\<close>:
      \<open>establish_faithful\<close> and \<open>translate_unit\<close>, in one definition per stage. \<open>Document_Run\<close>:
      the accumulators, their publication and \<open>DocumentPipeline::run\<close>. \<open>Document_Run_Laws\<close> shows what
      each step keeps of the record of the job, \<open>Document_Run_Props\<close> what strict mode may show,
      \<open>Document_Run_Answers\<close> that every block is answered once and \<open>Document_Run_Ends\<close> that a run ends;
      \<open>Document_Sample\<close> holds the documents of the witnesses.

  Shared state. Code that runs under one lock is one definition. Where the code releases a lock
  between two steps the model has two steps: the compaction of a session, the reservation and the
  publications of a job, the turns of a waiting task,
  the number and the ring of a published event. Between the steps of a pipeline run other edits
  of the session are an argument of the run. In a document run the other threads are the function
  \<open>pv_others\<close>, applied before a flag is read or a lock is taken; the properties ask only that it
  leaves the log of the job alone. \<open>storage_run\<close>, \<open>reachable_log\<close> and
  \<open>cuda_reachable\<close> are the step relations, and their invariants hold for every interleaving.

  Bounds and fuel. Loops over a text (names, lookup, composed words) carry the length of the text
  as fuel; the lemmas on them show that every round consumes a character. Eviction loops are
  \<open>function\<close>s whose measure is the number of jobs. A client reaches the end of a log in ten polls,
  because a log has at most 10,001 updates and an answer at most 1,024. The loops that evict from
  the caches shrink the list of entries, the rows of PackBits the bytes that are left. Saturating sums of
  \<open>usize\<close> are natural numbers cut at \<open>USIZE_MAX\<close>; decimal printing has fuel for twenty digits. The loops of the
  translator have the number of spans as fuel, and running out of it is shown to be impossible. The
  two loops of a document run that depend on the focus have fuel too, with \<open>StillRunning\<close> as the result
  when it runs out; while the focus stays active the number of pieces is enough.

  Parameters, with what the code relies on as hypotheses where a property needs it: postcard,
  JSON, CSV and UTF-8 decoding, SHA-256, NFKC and OpenCC, the Jieba tokenizer, Base64, random
  identifiers, the decoder of PNG images, the topological sort of \<open>petgraph\<close>, the engines of the
  pipeline, the clock, the language model with its tokenizer (a \<open>generator\<close>), the segmenter of
  sentences, the hashes of the cache keys, the admission to the GPU as a document run sees it, the evidence
  file of the benchmark, and, in \<open>Job_Run\<close>, the pipeline that publishes the updates of a job.

  Not modelled: the neural models and tensor code (\<open>koharu-ml\<close>), the bindings of llama.cpp and
  the remote providers (\<open>koharu-llm\<close>), font shaping and rasterisation (\<open>koharu-renderer\<close>), the
  image half of the browser pipeline (detection, OCR, cleanup, page understanding), downloads and
  the process start, HTTP routing and multipart decoding, the desktop shell and the user
  interface. They are third-party calls, tensor or pixel arithmetic, or glue around the operating
  system. File writes are taken to succeed, a crash is a cut of the written bytes.
\<close>

end
